(* ===== verification/Prelude.thy ===== *)
theory Prelude
  imports Main
begin

text \<open>
  Shared vocabulary of the development: the errors Go code returns, a result/state monad for the
  code that talks to PostgreSQL, transactions with injected faults, and generic list lemmas.

  Every database statement of the code can fail before it runs, or run and lose its reply. Both
  are scripted: a database state carries a list of \<open>fault\<close>s and each statement consumes one
  entry (an exhausted script means no further fault). A theorem that does not mention the script
  holds for every pattern of failures.
\<close>

named_theorems db_simps \<open>unfolding of the database monad\<close>
named_theorems db_frame \<open>what an operation leaves unchanged\<close>

section \<open>Errors\<close>

text \<open>
  The sentinel errors of the packages \<open>note\<close> and \<open>auth\<close>, the driver's errors, and wrapping by
  \<open>fmt.Errorf\<close> with the verb \<open>w\<close> at the end (\<open>WrapError\<close>) or at the start of the text (\<open>DetailError\<close>). Both packages have an \<open>ErrNotFound\<close> of their own; they are
  different values. \<open>RuntimePanic\<close> is no error value of the code: it marks the runs that panic.
\<close>

datatype go_error =
    ErrNotFound
  | ErrInvalidInput
  | ErrUsernameExists
  | ErrUnauthorized
  | ErrForbidden
  | AuthErrNotFound
  | ValidationError string string
  | SqlErrNoRows
  | PgError string string
  | ErrorString string
  | WrapError string go_error
  | DetailError go_error string
  | RuntimePanic string

fun errors_is :: "go_error \<Rightarrow> go_error \<Rightarrow> bool" where
  "errors_is (WrapError m e) t = (WrapError m e = t \<or> errors_is e t)"
| "errors_is (DetailError e m) t = (DetailError e m = t \<or> errors_is e t)"
| "errors_is e t = (e = t)"

fun errors_as_pg :: "go_error \<Rightarrow> string option" where
  "errors_as_pg (PgError code m) = Some code"
| "errors_as_pg (WrapError m e) = errors_as_pg e"
| "errors_as_pg (DetailError e m) = errors_as_pg e"
| "errors_as_pg e = None"

fun error_text :: "go_error \<Rightarrow> string" where
  "error_text ErrNotFound = ''resource not found''"
| "error_text ErrInvalidInput = ''invalid input''"
| "error_text ErrUsernameExists = ''username already exists''"
| "error_text ErrUnauthorized = ''unauthorized''"
| "error_text ErrForbidden = ''forbidden''"
| "error_text AuthErrNotFound = ''resource not found''"
| "error_text (ValidationError f m) = (if f = '''' then m else f @ '': '' @ m)"
| "error_text SqlErrNoRows = ''sql: no rows in result set''"
| "error_text (PgError code m) = m"
| "error_text (ErrorString m) = m"
| "error_text (WrapError m e) = m @ '': '' @ error_text e"
| "error_text (DetailError e m) = error_text e @ '': '' @ m"
| "error_text (RuntimePanic m) = m"

section \<open>Database states and the result monad\<close>

text \<open>
  A failed statement surfaces as an error of the server or of the connection. The driver makes
  \<open>sql.ErrNoRows\<close> only for an answered query without rows, so no fault carries it.
\<close>

datatype db_failure = ServerError string string | ConnError string

fun db_error :: "db_failure \<Rightarrow> go_error" where
  "db_error (ServerError code m) = PgError code m"
| "db_error (ConnError m) = ErrorString m"

datatype fault = NoFault | Refused db_failure | ReplyLost db_failure

record 'd db =
  tables :: 'd
  seqs :: "string \<Rightarrow> int"
  faults :: "fault list"
  db_now :: int

type_synonym ('s, 'a) sem = "'s \<Rightarrow> (go_error + 'a) \<times> 's"
type_synonym ('d, 'a) dbm = "('d db, 'a) sem"

definition returnE :: "'a \<Rightarrow> ('s, 'a) sem" where
  "returnE x = (\<lambda>s. (Inr x, s))"

definition throwE :: "go_error \<Rightarrow> ('s, 'a) sem" where
  "throwE e = (\<lambda>s. (Inl e, s))"

definition bindE :: "('s, 'a) sem \<Rightarrow> ('a \<Rightarrow> ('s, 'b) sem) \<Rightarrow> ('s, 'b) sem" where
  "bindE m k = (\<lambda>s. case m s of (Inl e, s') \<Rightarrow> (Inl e, s') | (Inr x, s') \<Rightarrow> k x s')"

definition mapErr :: "(go_error \<Rightarrow> go_error) \<Rightarrow> ('s, 'a) sem \<Rightarrow> ('s, 'a) sem" where
  "mapErr f m = (\<lambda>s. case m s of (Inl e, s') \<Rightarrow> (Inl (f e), s') | (Inr x, s') \<Rightarrow> (Inr x, s'))"

text \<open>\<open>catchE m\<close> hands the error to the caller as a value: the shape \<open>if err := m; err != nil\<close>.\<close>

definition catchE :: "('s, 'a) sem \<Rightarrow> ('s, go_error + 'a) sem" where
  "catchE m = (\<lambda>s. case m s of (r, s') \<Rightarrow> (Inr r, s'))"

text \<open>One statement sent to the server.\<close>

definition stmt :: "('d, 'a) dbm \<Rightarrow> ('d, 'a) dbm" where
  "stmt f = (\<lambda>s. case faults s of
      [] \<Rightarrow> f s
    | NoFault # fs \<Rightarrow> f (s\<lparr>faults := fs\<rparr>)
    | Refused e # fs \<Rightarrow> (Inl (db_error e), s\<lparr>faults := fs\<rparr>)
    | ReplyLost e # fs \<Rightarrow> (Inl (db_error e), snd (f (s\<lparr>faults := fs\<rparr>))))"

text \<open>Reading and writing the tables inside a statement.\<close>

definition selectE :: "('d \<Rightarrow> 'a) \<Rightarrow> ('d, 'a) dbm" where
  "selectE f = stmt (\<lambda>s. (Inr (f (tables s)), s))"

definition query_row :: "('d \<Rightarrow> 'a option) \<Rightarrow> ('d, 'a) dbm" where
  "query_row f = stmt (\<lambda>s. case f (tables s) of None \<Rightarrow> (Inl SqlErrNoRows, s) | Some x \<Rightarrow> (Inr x, s))"

definition updateE :: "(int \<Rightarrow> 'd \<Rightarrow> 'd) \<Rightarrow> ('d, unit) dbm" where
  "updateE f = stmt (\<lambda>s. (Inr (), s\<lparr>tables := f (db_now s) (tables s)\<rparr>))"

text \<open>
  A statement that computes a result and new tables, or fails with a constraint violation and
  leaves the tables alone. An insertion into a table with a \<open>BIGSERIAL\<close> key draws the next value of
  its sequence, which is never given back; an exhausted sequence refuses.
\<close>

definition execE :: "(int \<Rightarrow> 'd \<Rightarrow> go_error + 'a \<times> 'd) \<Rightarrow> ('d, 'a) dbm" where
  "execE f = stmt (\<lambda>s. case f (db_now s) (tables s) of
      Inl e \<Rightarrow> (Inl e, s) | Inr (x, t) \<Rightarrow> (Inr x, s\<lparr>tables := t\<rparr>))"

definition max_bigint :: int where
  "max_bigint = 9223372036854775807"

definition insert_serial ::
  "string \<Rightarrow> (int \<Rightarrow> int \<Rightarrow> 'd \<Rightarrow> go_error + 'a \<times> 'd) \<Rightarrow> ('d, 'a) dbm" where
  "insert_serial sq f = stmt (\<lambda>s.
     let i = seqs s sq + 1; s' = s\<lparr>seqs := (seqs s)(sq := i)\<rparr> in
     if i > max_bigint then (Inl (PgError ''2200H'' ''sequence limit''), s)
     else case f i (db_now s) (tables s) of
       Inl e \<Rightarrow> (Inl e, s') | Inr (x, t) \<Rightarrow> (Inr x, s'\<lparr>tables := t\<rparr>))"

text \<open>\<open>if errors.Is(err, sql.ErrNoRows) { return x, nil }\<close> after a query.\<close>

definition or_no_rows :: "'a \<Rightarrow> ('s, 'a) sem \<Rightarrow> ('s, 'a) sem" where
  "or_no_rows x m = (\<lambda>s. case m s of
      (Inl e, s') \<Rightarrow> if errors_is e SqlErrNoRows then (Inr x, s') else (Inl e, s')
    | (Inr y, s') \<Rightarrow> (Inr y, s'))"

text \<open>
  \<open>in_tx\<close> is \<open>BeginTxx\<close>, the body, \<open>Commit\<close>, with \<open>defer tx.Rollback()\<close>: any error before the
  commit restores the tables (sequences and the fault script go on). A commit whose reply is
  lost returns an error although the tables are the new ones. A body that ends in \<open>Rollback\<close>
  returns a value without committing. The two functions wrap the errors of \<open>BeginTxx\<close> and \<open>Commit\<close>.
\<close>

datatype 'a tx_result = Commit 'a | Rollback 'a

definition in_tx ::
  "(go_error \<Rightarrow> go_error) \<Rightarrow> (go_error \<Rightarrow> go_error) \<Rightarrow> ('d, 'a tx_result) dbm \<Rightarrow> ('d, 'a) dbm" where
  "in_tx begin_err commit_err m = (\<lambda>s0.
     case stmt (\<lambda>s. (Inr (), s)) s0 of
       (Inl e, s) \<Rightarrow> (Inl (begin_err e), s)
     | (Inr _, s) \<Rightarrow>
        (case m s of
           (Inl e, s1) \<Rightarrow> (Inl e, s1\<lparr>tables := tables s\<rparr>)
         | (Inr (Rollback x), s1) \<Rightarrow> (Inr x, s1\<lparr>tables := tables s\<rparr>)
         | (Inr (Commit x), s1) \<Rightarrow>
            (case faults s1 of
               [] \<Rightarrow> (Inr x, s1)
             | NoFault # fs \<Rightarrow> (Inr x, s1\<lparr>faults := fs\<rparr>)
             | Refused e # fs \<Rightarrow> (Inl (commit_err (db_error e)), s1\<lparr>faults := fs, tables := tables s\<rparr>)
             | ReplyLost e # fs \<Rightarrow> (Inl (commit_err (db_error e)), s1\<lparr>faults := fs\<rparr>))))"

lemmas db_core_defs = returnE_def throwE_def bindE_def mapErr_def catchE_def stmt_def selectE_def
  query_row_def updateE_def execE_def insert_serial_def

declare db_core_defs [db_simps]

section \<open>Reasoning about runs\<close>

lemma db_error_not_no_rows [simp]: "errors_is (db_error f) SqlErrNoRows = False"
  by (cases f) auto


text \<open>
  Runs that return a value are inverted statement by statement; the error branches vanish. The
  predicate \<open>stmt_ok\<close> says that the script lets the next statement answer.
\<close>

definition stmt_ok :: "'d db \<Rightarrow> bool" where
  "stmt_ok s = (case faults s of [] \<Rightarrow> True | NoFault # fs \<Rightarrow> True | _ \<Rightarrow> False)"

definition stmt_next :: "'d db \<Rightarrow> 'd db" where
  "stmt_next s = s\<lparr>faults := tl (faults s)\<rparr>"

lemma stmt_next_simps [simp]:
  "tables (stmt_next s) = tables s"
  "db_now (stmt_next s) = db_now s"
  "seqs (stmt_next s) = seqs s"
  by (simp_all add: stmt_next_def)

lemma stmt_next_nil [simp]: "faults s = [] \<Longrightarrow> stmt_next s = s"
  by (simp add: stmt_next_def)

lemma stmt_ok_nil [simp]: "faults s = [] \<Longrightarrow> stmt_ok s"
  by (simp add: stmt_ok_def)

lemma stmt_NoFault [simp]:
  "faults s = NoFault # fs \<Longrightarrow> stmt_ok s"
  "faults s = NoFault # fs \<Longrightarrow> stmt_next s = s\<lparr>faults := fs\<rparr>"
  by (simp_all add: stmt_ok_def stmt_next_def)

lemma stmt_nil [simp]: "faults s = [] \<Longrightarrow> stmt f s = f s"
  by (simp add: stmt_def)

lemma returnE_run [simp]: "returnE x s = (Inr x, s)"
  by (simp add: returnE_def)

lemma throwE_run [simp]: "throwE e s = (Inl e, s)"
  by (simp add: throwE_def)

lemma stmt_Inr: "stmt f s = (Inr x, s') \<longleftrightarrow> stmt_ok s \<and> f (stmt_next s) = (Inr x, s')"
proof (cases "faults s")
  case Nil
  then show ?thesis by (simp add: stmt_def stmt_ok_def)
next
  case (Cons a list)
  then show ?thesis by (cases a) (auto simp: stmt_def stmt_ok_def stmt_next_def)
qed

lemma bindE_Inr:
  "bindE m k s = (Inr y, s') \<longleftrightarrow> (\<exists>x s1. m s = (Inr x, s1) \<and> k x s1 = (Inr y, s'))"
  by (auto simp: bindE_def split: sum.splits prod.splits)

lemma mapErr_Inr [simp]: "mapErr f m s = (Inr y, s') \<longleftrightarrow> m s = (Inr y, s')"
  by (auto simp: mapErr_def split: sum.splits prod.splits)

lemma selectE_Inr:
  "selectE f s = (Inr x, s') \<longleftrightarrow> stmt_ok s \<and> x = f (tables s) \<and> s' = stmt_next s"
  by (auto simp: selectE_def stmt_Inr)

lemma query_row_Inr:
  "query_row f s = (Inr x, s') \<longleftrightarrow> stmt_ok s \<and> f (tables s) = Some x \<and> s' = stmt_next s"
  by (auto simp: query_row_def stmt_Inr split: option.splits)

lemma updateE_Inr:
  "updateE f s = (Inr x, s') \<longleftrightarrow>
     stmt_ok s \<and> s' = (stmt_next s)\<lparr>tables := f (db_now s) (tables s)\<rparr>"
  by (auto simp: updateE_def stmt_Inr)

lemma execE_Inr:
  "execE f s = (Inr x, s') \<longleftrightarrow>
     stmt_ok s \<and> (\<exists>t. f (db_now s) (tables s) = Inr (x, t) \<and> s' = (stmt_next s)\<lparr>tables := t\<rparr>)"
  by (auto simp: execE_def stmt_Inr split: sum.splits)

lemma insert_serial_Inr:
  "insert_serial sq f s = (Inr x, s') \<longleftrightarrow>
     stmt_ok s \<and> seqs s sq + 1 \<le> max_bigint \<and> (\<exists>t. f (seqs s sq + 1) (db_now s) (tables s) = Inr (x, t) \<and>
       s' = (stmt_next s)\<lparr>seqs := (seqs s)(sq := seqs s sq + 1), tables := t\<rparr>)"
  by (auto simp: insert_serial_def stmt_Inr Let_def split: sum.splits)

lemmas run_Inr = bindE_Inr selectE_Inr query_row_Inr updateE_Inr execE_Inr insert_serial_Inr

lemma selectE_nil [simp]: "faults s = [] \<Longrightarrow> selectE f s = (Inr (f (tables s)), s)"
  by (simp add: selectE_def)

lemma query_row_nil [simp]:
  "faults s = [] \<Longrightarrow>
   query_row f s = (case f (tables s) of None \<Rightarrow> (Inl SqlErrNoRows, s) | Some x \<Rightarrow> (Inr x, s))"
  by (simp add: query_row_def)

lemma updateE_nil [simp]:
  "faults s = [] \<Longrightarrow> updateE f s = (Inr (), s\<lparr>tables := f (db_now s) (tables s)\<rparr>)"
  by (simp add: updateE_def)

lemma bindE_Inr_run: "m s = (Inr x, s1) \<Longrightarrow> bindE m k s = k x s1"
  by (simp add: bindE_def)

lemma bindE_Inl_run: "m s = (Inl e, s1) \<Longrightarrow> bindE m k s = (Inl e, s1)"
  by (simp add: bindE_def)

text \<open>
  What a transaction can do to the tables: nothing, or exactly what its body did on the way to
  the commit. This covers refused commits, lost replies and explicit roll backs.
\<close>

lemma begin_stmt:
  "stmt (\<lambda>s. (Inr (), s)) s =
     (if stmt_ok s then Inr () else Inl (case hd (faults s) of Refused e \<Rightarrow> db_error e | ReplyLost e \<Rightarrow> db_error e | NoFault \<Rightarrow> ErrNotFound),
      stmt_next s)"
proof (cases "faults s")
  case Nil
  then show ?thesis by (simp add: stmt_ok_def)
next
  case (Cons a list)
  then show ?thesis by (cases a) (auto simp: stmt_def stmt_ok_def stmt_next_def)
qed

lemma in_tx_outcome:
  assumes "in_tx b c m s = (r, s')"
  shows "tables s' = tables s \<or>
    (\<exists>x s1. m (stmt_next s) = (Inr (Commit x), s1) \<and> tables s' = tables s1)"
  using assms
  by (auto simp: in_tx_def begin_stmt split: list.splits fault.splits prod.splits
      sum.splits tx_result.splits if_splits)

lemma in_tx_Inr:
  assumes "in_tx b c m s = (Inr y, s')"
  shows "stmt_ok s \<and>
    ((\<exists>s1. m (stmt_next s) = (Inr (Commit y), s1) \<and> stmt_ok s1 \<and> s' = stmt_next s1) \<or>
     (\<exists>s1. m (stmt_next s) = (Inr (Rollback y), s1) \<and> s' = s1\<lparr>tables := tables s\<rparr>))"
  using assms
  by (auto simp: in_tx_def begin_stmt
      split: list.splits fault.splits prod.splits sum.splits tx_result.splits if_splits)

lemma in_tx_nil:
  assumes "faults s = []"
  shows "in_tx b c m s = (case m s of
      (Inl e, s1) \<Rightarrow> (Inl e, s1\<lparr>tables := tables s\<rparr>)
    | (Inr (Rollback x), s1) \<Rightarrow> (Inr x, s1\<lparr>tables := tables s\<rparr>)
    | (Inr (Commit x), s1) \<Rightarrow>
        (case faults s1 of
           [] \<Rightarrow> (Inr x, s1)
         | NoFault # fs \<Rightarrow> (Inr x, s1\<lparr>faults := fs\<rparr>)
         | Refused e # fs \<Rightarrow> (Inl (c (db_error e)), s1\<lparr>faults := fs, tables := tables s\<rparr>)
         | ReplyLost e # fs \<Rightarrow> (Inl (c (db_error e)), s1\<lparr>faults := fs\<rparr>)))"
  using assms by (simp add: in_tx_def)

text \<open>
  A relation between the tables before and after that is reflexive and holds for every body that
  reaches its commit holds for every outcome of the transaction.
\<close>

lemma in_tx_rel:
  assumes "in_tx b c m s = (r, s')"
    and "\<And>t. R t t"
    and "\<And>x s1. m (stmt_next s) = (Inr (Commit x), s1) \<Longrightarrow> R (tables s) (tables s1)"
  shows "R (tables s) (tables s')"
  using in_tx_outcome [OF assms(1)] assms(2,3) by auto

lemma find_append: "find P (xs @ ys) = (case find P xs of None \<Rightarrow> find P ys | Some x \<Rightarrow> Some x)"
  by (induction xs) auto

end
