(* ===== verification/Db_Logic.thy ===== *)
theory Db_Logic
  imports Prelude
begin

text \<open>
  Invariants of database programs. An invariant speaks about the sequences and the tables and may
  only become easier when sequences advance (a rolled back transaction restores the tables, never
  the sequences). The locale \<open>db_invariant\<close> states that law; its lemmas reduce the claim that a program
  keeps the invariant under every fault script to claims about its single statements.
\<close>

named_theorems grows_intros \<open>programs under which sequences only advance\<close>
named_theorems keeps_intros \<open>programs that keep an invariant\<close>

definition seq_grows :: "('d, 'a) dbm \<Rightarrow> bool" where
  "seq_grows m = (\<forall>s r s' q. m s = (r, s') \<longrightarrow> seqs s q \<le> seqs s' q)"

definition keeps :: "((string \<Rightarrow> int) \<Rightarrow> 'd \<Rightarrow> bool) \<Rightarrow> ('d, 'a) dbm \<Rightarrow> bool" where
  "keeps P m = (\<forall>s r s'. P (seqs s) (tables s) \<longrightarrow> m s = (r, s') \<longrightarrow> P (seqs s') (tables s'))"

definition keeps_ok :: "((string \<Rightarrow> int) \<Rightarrow> 'd \<Rightarrow> bool) \<Rightarrow> ('d, 'a) dbm \<Rightarrow> bool" where
  "keeps_ok P m = (\<forall>s x s'. P (seqs s) (tables s) \<longrightarrow> m s = (Inr x, s') \<longrightarrow> P (seqs s') (tables s'))"

lemma keepsD: "keeps P m \<Longrightarrow> P (seqs s) (tables s) \<Longrightarrow> m s = (r, s') \<Longrightarrow> P (seqs s') (tables s')"
  unfolding keeps_def by blast

lemma keeps_keeps_ok: "keeps P m \<Longrightarrow> keeps_ok P m"
  unfolding keeps_def keeps_ok_def by blast

text \<open>The four ways a statement can go.\<close>

lemma stmt_cases:
  assumes "stmt f s = (r, s')"
  obtains "stmt_ok s" "f (stmt_next s) = (r, s')"
  | e where "r = Inl e" "s' = stmt_next s"
  | e where "r = Inl e" "s' = snd (f (stmt_next s))"
proof (cases "faults s")
  case Nil
  then show thesis using assms that(1) by (simp add: stmt_def)
next
  case (Cons a list)
  then show thesis using assms that
    by (cases a) (auto simp: stmt_def stmt_ok_def stmt_next_def split: prod.splits)
qed

section \<open>Sequences only advance\<close>

lemma seq_growsI: "(\<And>s r s' q. m s = (r, s') \<Longrightarrow> seqs s q \<le> seqs s' q) \<Longrightarrow> seq_grows m"
  by (auto simp: seq_grows_def)

lemma seq_growsD: "seq_grows m \<Longrightarrow> m s = (r, s') \<Longrightarrow> seqs s q \<le> seqs s' q"
  unfolding seq_grows_def by blast

lemma seq_grows_stmt:
  assumes "\<And>s r s' q. f s = (r, s') \<Longrightarrow> seqs s q \<le> seqs s' q"
  shows "seq_grows (stmt f)"
proof (rule seq_growsI)
  fix s :: "'a db" and r s' q
  assume "stmt f s = (r, s')"
  then show "seqs s q \<le> seqs s' q"
  proof (cases rule: stmt_cases)
    case 1
    then show ?thesis using assms [of "stmt_next s"] by auto
  next
    case (3 e)
    then show ?thesis using assms [of "stmt_next s" _ s' q] by (metis prod.collapse stmt_next_simps(3))
  qed simp
qed

lemma seq_grows_basic [grows_intros]:
  "seq_grows (returnE x)" "seq_grows (throwE e)"
  by (auto simp: seq_grows_def)

lemma seq_grows_bindE [grows_intros]:
  assumes "seq_grows m" "\<And>x. seq_grows (k x)"
  shows "seq_grows (bindE m k)"
proof (rule seq_growsI)
  fix s :: "'a db" and r s' q
  assume r: "bindE m k s = (r, s')"
  obtain r1 s1 where m: "m s = (r1, s1)" by (cases "m s")
  have "seqs s q \<le> seqs s1 q" using seq_growsD [OF assms(1) m] .
  moreover have "seqs s1 q \<le> seqs s' q"
    using r m seq_growsD [OF assms(2)] by (auto simp: bindE_def split: sum.splits)
  ultimately show "seqs s q \<le> seqs s' q" by simp
qed

lemma seq_grows_mapErr [grows_intros]: "seq_grows m \<Longrightarrow> seq_grows (mapErr f m)"
  by (fastforce simp: seq_grows_def mapErr_def split: prod.splits sum.splits)

lemma seq_grows_catchE [grows_intros]: "seq_grows m \<Longrightarrow> seq_grows (catchE m)"
  by (fastforce simp: seq_grows_def catchE_def split: prod.splits)

lemma seq_grows_or_no_rows [grows_intros]: "seq_grows m \<Longrightarrow> seq_grows (or_no_rows x m)"
  by (fastforce simp: seq_grows_def or_no_rows_def split: prod.splits sum.splits if_splits)

lemma seq_grows_statements [grows_intros]:
  "seq_grows (selectE f)" "seq_grows (query_row g)" "seq_grows (updateE h)" "seq_grows (execE i)"
  "seq_grows (insert_serial sq j)"
  unfolding selectE_def query_row_def updateE_def execE_def insert_serial_def
  by (rule seq_grows_stmt; auto simp: Let_def split: option.splits sum.splits if_splits)+

lemma seq_grows_if [grows_intros]: "(b \<Longrightarrow> seq_grows m) \<Longrightarrow> (\<not> b \<Longrightarrow> seq_grows m') \<Longrightarrow> seq_grows (if b then m else m')"
  by simp

lemma seq_grows_prod [grows_intros]: "(\<And>a b. seq_grows (k a b)) \<Longrightarrow> seq_grows (case p of (a, b) \<Rightarrow> k a b)"
  by (cases p) simp

lemma seq_grows_option: "(\<And>x. seq_grows (k x)) \<Longrightarrow> seq_grows m \<Longrightarrow> seq_grows (case y of None \<Rightarrow> m | Some x \<Rightarrow> k x)"
  by (cases y) auto

lemma seq_grows_in_tx [grows_intros]:
  assumes "seq_grows m"
  shows "seq_grows (in_tx b c m)"
proof (rule seq_growsI)
  fix s :: "'a db" and r s' q
  assume r: "in_tx b c m s = (r, s')"
  show "seqs s q \<le> seqs s' q"
  proof (cases "stmt_ok s")
    case True
    obtain r1 s1 where m: "m (stmt_next s) = (r1, s1)" by (cases "m (stmt_next s)")
    have "seqs s q \<le> seqs s1 q" using seq_growsD [OF assms m, of q] by simp
    moreover have "seqs s' = seqs s1"
      using r m True
      by (auto simp: in_tx_def begin_stmt split: sum.splits tx_result.splits list.splits fault.splits)
    ultimately show ?thesis by simp
  next
    case False
    then show ?thesis using r by (auto simp: in_tx_def begin_stmt)
  qed
qed

section \<open>Invariants\<close>

locale db_invariant =
  fixes P :: "(string \<Rightarrow> int) \<Rightarrow> 'd \<Rightarrow> bool"
  assumes mono: "P q t \<Longrightarrow> (\<And>x. q x \<le> q' x) \<Longrightarrow> P q' t"
begin

lemma keepsI: "(\<And>s r s'. P (seqs s) (tables s) \<Longrightarrow> m s = (r, s') \<Longrightarrow> P (seqs s') (tables s')) \<Longrightarrow> keeps P m"
  unfolding keeps_def by blast

lemma keeps_basic: "keeps P (returnE x)" "keeps P (throwE e)"
  by (auto simp: keeps_def)

lemma keeps_bindE:
  assumes "keeps P m" "\<And>x. keeps P (k x)"
  shows "keeps P (bindE m k)"
proof (rule keepsI)
  fix s r s'
  assume p: "P (seqs s) (tables s)" and r: "bindE m k s = (r, s')"
  obtain r1 s1 where m: "m s = (r1, s1)" by (cases "m s")
  have "P (seqs s1) (tables s1)" using keepsD [OF assms(1) p m] .
  then show "P (seqs s') (tables s')"
    using r m keepsD [OF assms(2)] by (auto simp: bindE_def split: sum.splits)
qed

lemma keeps_mapErr: "keeps P m \<Longrightarrow> keeps P (mapErr f m)"
  unfolding keeps_def mapErr_def by (fastforce split: prod.splits sum.splits)

lemma keeps_catchE: "keeps P m \<Longrightarrow> keeps P (catchE m)"
  unfolding keeps_def catchE_def by (fastforce split: prod.splits)

lemma keeps_or_no_rows: "keeps P m \<Longrightarrow> keeps P (or_no_rows x m)"
  unfolding keeps_def or_no_rows_def by (fastforce split: prod.splits sum.splits if_splits)

lemma keeps_stmt:
  assumes "\<And>s r s'. P (seqs s) (tables s) \<Longrightarrow> f s = (r, s') \<Longrightarrow> P (seqs s') (tables s')"
  shows "keeps P (stmt f)"
proof (rule keepsI)
  fix s r s'
  assume p: "P (seqs s) (tables s)" and r: "stmt f s = (r, s')"
  then have p': "P (seqs (stmt_next s)) (tables (stmt_next s))" by simp
  from r show "P (seqs s') (tables s')"
  proof (cases rule: stmt_cases)
    case 1
    then show ?thesis using assms [OF p'] by blast
  next
    case (2 e)
    then show ?thesis using p by simp
  next
    case (3 e)
    then show ?thesis using assms [OF p'] by (metis prod.collapse)
  qed
qed

lemma keeps_reads: "keeps P (selectE f)" "keeps P (query_row g)"
  unfolding selectE_def query_row_def by (rule keeps_stmt; auto split: option.splits)+

lemma keeps_updateE: "(\<And>now q t. P q t \<Longrightarrow> P q (f now t)) \<Longrightarrow> keeps P (updateE f)"
  unfolding updateE_def by (rule keeps_stmt) auto

lemma keeps_execE: "(\<And>now q t x t'. P q t \<Longrightarrow> f now t = Inr (x, t') \<Longrightarrow> P q t') \<Longrightarrow> keeps P (execE f)"
  unfolding execE_def by (rule keeps_stmt) (auto split: sum.splits)

lemma keeps_insert_serial:
  assumes "\<And>now q t x t'. P q t \<Longrightarrow> q sq + 1 \<le> max_bigint \<Longrightarrow> f (q sq + 1) now t = Inr (x, t') \<Longrightarrow> P (q(sq := q sq + 1)) t'"
  shows "keeps P (insert_serial sq f)"
  unfolding insert_serial_def
proof (rule keeps_stmt)
  fix s :: "'d db" and r s'
  assume p: "P (seqs s) (tables s)"
    and r: "(let i = seqs s sq + 1; s' = s\<lparr>seqs := (seqs s)(sq := i)\<rparr> in
      if i > max_bigint then (Inl (PgError ''2200H'' ''sequence limit''), s)
      else case f i (db_now s) (tables s) of Inl e \<Rightarrow> (Inl e, s') | Inr (x, t) \<Rightarrow> (Inr x, s'\<lparr>tables := t\<rparr>)) = (r, s')"
  have "P ((seqs s)(sq := seqs s sq + 1)) (tables s)" by (rule mono [OF p]) auto
  then show "P (seqs s') (tables s')"
    using r p assms by (auto simp: Let_def split: sum.splits if_splits)
qed

lemma keeps_if: "(b \<Longrightarrow> keeps P m) \<Longrightarrow> (\<not> b \<Longrightarrow> keeps P m') \<Longrightarrow> keeps P (if b then m else m')"
  by simp

lemma keeps_prod: "(\<And>a b. keeps P (k a b)) \<Longrightarrow> keeps P (case p of (a, b) \<Rightarrow> k a b)"
  by (cases p) simp

lemma keeps_in_tx:
  assumes "keeps_ok P m" "seq_grows m"
  shows "keeps P (in_tx b c m)"
proof (rule keepsI)
  fix s r s'
  assume p: "P (seqs s) (tables s)" and r: "in_tx b c m s = (r, s')"
  show "P (seqs s') (tables s')"
  proof (cases "tables s' = tables s")
    case True
    have "seqs s q \<le> seqs s' q" for q
      using seq_growsD [OF seq_grows_in_tx [OF assms(2)] r] .
    then show ?thesis using mono [OF p] True by simp
  next
    case False
    then obtain x s1 where m: "m (stmt_next s) = (Inr (Commit x), s1)" and t: "tables s' = tables s1"
      using in_tx_outcome [OF r] by auto
    have "P (seqs (stmt_next s)) (tables (stmt_next s))" using p by simp
    then have "P (seqs s1) (tables s1)" using assms(1) m unfolding keeps_ok_def by blast
    moreover have "seqs s' = seqs s1"
      using r m False
      by (auto simp: in_tx_def begin_stmt split: list.splits fault.splits if_splits)
    ultimately show ?thesis using t by simp
  qed
qed

lemmas keeps_rules = keeps_basic keeps_bindE keeps_mapErr keeps_catchE keeps_or_no_rows keeps_reads keeps_if keeps_prod

end

end
