(* ===== verification/Utf8.thy ===== *)
theory Utf8
  imports Prelude
begin

text \<open>
  Go strings are byte sequences. A \<open>char\<close> is one byte, so a Go string is a \<open>string\<close>. This
  theory models what the code uses of \<open>unicode/utf8\<close> (\<open>DecodeRune\<close>, \<open>EncodeRune\<close>, \<open>Valid\<close>,
  \<open>RuneStart\<close>, \<open>RuneCount\<close>) and proves the facts about rune boundaries on which the evidence
  chunker rests: in valid text, the boundaries are exactly the positions of the start bytes.
\<close>

definition byte :: "char \<Rightarrow> nat" where
  "byte c = of_char c"

lemma byte_less_256 [simp]: "byte c < 256"
  by (simp add: byte_def)

lemma byte_le_255 [simp]: "byte c \<le> 255"
  by (rule less_Suc_eq_le [THEN iffD1]) (use byte_less_256 [of c] in linarith)

lemma byte_char_of [simp]: "n < 256 \<Longrightarrow> byte (char_of n) = n"
  by (simp add: byte_def)

section \<open>Decoding\<close>

definition RuneError :: nat where
  "RuneError = 65533"

text \<open>
  The table \<open>first\<close> of the package: for a start byte, the length of the sequence and the range
  allowed for the second byte. \<open>None\<close> is an illegal start byte.
\<close>

definition first_info :: "nat \<Rightarrow> (nat \<times> nat \<times> nat) option" where
  "first_info b =
     (if b < 128 then Some (1, 0, 0)
      else if b < 194 then None
      else if b < 224 then Some (2, 128, 191)
      else if b = 224 then Some (3, 160, 191)
      else if b = 237 then Some (3, 128, 159)
      else if b < 240 then Some (3, 128, 191)
      else if b = 240 then Some (4, 144, 191)
      else if b < 244 then Some (4, 128, 191)
      else if b = 244 then Some (4, 128, 143)
      else None)"

definition is_cont :: "char \<Rightarrow> bool" where
  "is_cont c = (128 \<le> byte c \<and> byte c \<le> 191)"

definition RuneStart :: "char \<Rightarrow> bool" where
  "RuneStart c = (byte c div 64 \<noteq> 2)"

lemma div_64_eq_2: "(x::nat) div 64 = 2 \<longleftrightarrow> 128 \<le> x \<and> x \<le> 191"
  by linarith

lemma RuneStart_iff: "RuneStart c \<longleftrightarrow> \<not> is_cont c"
  by (auto simp: RuneStart_def is_cont_def div_64_eq_2)

text \<open>The length of the well-formed sequence at the head of a string, if there is one.\<close>

fun rune_len :: "string \<Rightarrow> nat option" where
  "rune_len [] = None"
| "rune_len (c # cs) =
     (case first_info (byte c) of
        None \<Rightarrow> None
      | Some (n, lo, hi) \<Rightarrow>
          if n = 1 then Some 1
          else if length cs + 1 < n then None
          else if \<not> (lo \<le> byte (cs ! 0) \<and> byte (cs ! 0) \<le> hi) then None
          else if n = 2 then Some 2
          else if \<not> is_cont (cs ! 1) then None
          else if n = 3 then Some 3
          else if \<not> is_cont (cs ! 2) then None
          else Some 4)"

text \<open>The rune of a well-formed sequence of the given length.\<close>

definition rune_value :: "nat \<Rightarrow> string \<Rightarrow> nat" where
  "rune_value n s =
     (if n = 1 then byte (s ! 0)
      else if n = 2 then (byte (s ! 0) mod 32) * 64 + byte (s ! 1) mod 64
      else if n = 3 then (byte (s ! 0) mod 16) * 4096 + (byte (s ! 1) mod 64) * 64 + byte (s ! 2) mod 64
      else (byte (s ! 0) mod 8) * 262144 + (byte (s ! 1) mod 64) * 4096
         + (byte (s ! 2) mod 64) * 64 + byte (s ! 3) mod 64)"

definition DecodeRune :: "string \<Rightarrow> nat \<times> nat" where
  "DecodeRune s =
     (if s = [] then (RuneError, 0)
      else case rune_len s of None \<Rightarrow> (RuneError, 1) | Some n \<Rightarrow> (rune_value n s, n))"

lemma first_info_len: "first_info b = Some (n, lo, hi) \<Longrightarrow> 1 \<le> n \<and> n \<le> 4"
  by (auto simp: first_info_def split: if_splits)

lemma first_info_cont:
  "first_info b = Some (n, lo, hi) \<Longrightarrow> n \<noteq> 1 \<Longrightarrow> 128 \<le> lo \<and> hi \<le> 191"
  by (auto simp: first_info_def split: if_splits)

lemma first_info_start: "first_info (byte c) = Some x \<Longrightarrow> RuneStart c"
  by (auto simp: first_info_def RuneStart_iff is_cont_def split: if_splits)

lemma nat_1_to_4: "1 \<le> n \<Longrightarrow> n \<le> 4 \<Longrightarrow> n = 1 \<or> n = 2 \<or> n = 3 \<or> n = (4::nat)"
  by linarith

lemma rune_len_Cons_iff:
  "rune_len (c # cs) = Some n \<longleftrightarrow>
     (\<exists>lo hi. first_info (byte c) = Some (n, lo, hi) \<and> n \<le> length (c # cs) \<and>
        (1 < n \<longrightarrow> lo \<le> byte (cs ! 0) \<and> byte (cs ! 0) \<le> hi) \<and>
        (2 < n \<longrightarrow> is_cont (cs ! 1)) \<and> (3 < n \<longrightarrow> is_cont (cs ! 2)))"
proof (cases "first_info (byte c)")
  case (Some a)
  then obtain k lo hi where a: "first_info (byte c) = Some (k, lo, hi)" by (cases a) auto
  then have "k = 1 \<or> k = 2 \<or> k = 3 \<or> k = 4"
    using first_info_len nat_1_to_4 by blast
  then show ?thesis using a by (elim disjE) (auto simp: not_less Suc_le_eq)
qed simp

lemma rune_len_bounds: "rune_len s = Some n \<Longrightarrow> 1 \<le> n \<and> n \<le> 4 \<and> n \<le> length s"
  by (cases s) (auto simp del: rune_len.simps(2) simp: rune_len_Cons_iff dest!: first_info_len)

lemma rune_len_start: "rune_len s = Some n \<Longrightarrow> RuneStart (s ! 0)"
  by (cases s) (auto simp del: rune_len.simps(2) simp: rune_len_Cons_iff dest!: first_info_start)

lemma rune_len_cont: "rune_len s = Some n \<Longrightarrow> 0 < i \<Longrightarrow> i < n \<Longrightarrow> is_cont (s ! i)"
proof (cases s)
  case (Cons c cs)
  assume n: "rune_len s = Some n" and i: "0 < i" "i < n"
  have "i = 1 \<or> i = 2 \<or> i = 3"
    using i rune_len_bounds [OF n] by linarith
  then show ?thesis
    using n [unfolded Cons rune_len_Cons_iff] i Cons
    by (auto simp: is_cont_def numeral_2_eq_2 numeral_3_eq_3 dest!: first_info_cont)
qed simp

text \<open>Only the first \<open>n\<close> bytes matter: a sequence that fits stays well-formed under any suffix.\<close>

lemma rune_len_append: "rune_len s = Some n \<Longrightarrow> rune_len (s @ t) = Some n"
  by (cases s)
    (auto simp del: rune_len.simps(2) simp: rune_len_Cons_iff nth_append)

lemma rune_len_take:
  assumes "rune_len s = Some n" "n \<le> k"
  shows "rune_len (take k s) = Some n"
proof (cases s)
  case (Cons c cs)
  obtain k' where "k = Suc k'"
    using assms rune_len_bounds [OF assms(1)] by (cases k) auto
  then show ?thesis
    using assms Cons by (auto simp del: rune_len.simps(2) simp: rune_len_Cons_iff)
qed (use assms in simp)

section \<open>Valid text and rune counts\<close>

function utf8_Valid :: "string \<Rightarrow> bool" where
  "utf8_Valid s =
     (if s = [] then True
      else case rune_len s of None \<Rightarrow> False | Some n \<Rightarrow> utf8_Valid (drop n s))"
  by pat_completeness auto
termination
  by (relation "measure length") (auto dest!: rune_len_bounds)

declare utf8_Valid.simps [simp del]

lemma utf8_Valid_Nil [simp]: "utf8_Valid []"
  by (simp add: utf8_Valid.simps)

lemma utf8_Valid_step:
  "s \<noteq> [] \<Longrightarrow> utf8_Valid s \<longleftrightarrow> (\<exists>n. rune_len s = Some n \<and> utf8_Valid (drop n s))"
  by (subst utf8_Valid.simps) (auto split: option.splits)

function RuneCount :: "string \<Rightarrow> nat" where
  "RuneCount s = (if s = [] then 0 else Suc (RuneCount (drop (snd (DecodeRune s)) s)))"
  by pat_completeness auto
termination
  by (relation "measure length") (auto simp: DecodeRune_def dest!: rune_len_bounds split: option.splits)

declare RuneCount.simps [simp del]

lemma RuneCount_Nil [simp]: "RuneCount [] = 0"
  by (simp add: RuneCount.simps)

lemma DecodeRune_size:
  "s \<noteq> [] \<Longrightarrow> 1 \<le> snd (DecodeRune s) \<and> snd (DecodeRune s) \<le> 4 \<and> snd (DecodeRune s) \<le> length s"
  by (auto simp: DecodeRune_def Suc_le_eq dest: rune_len_bounds split: option.splits)

lemma RuneCount_le_length: "RuneCount s \<le> length s"
proof (induction s rule: RuneCount.induct)
  case (1 s)
  show ?case
  proof (cases "s = []")
    case False
    then show ?thesis
      using "1.IH" [OF False] DecodeRune_size [OF False] by (subst RuneCount.simps) auto
  qed simp
qed

text \<open>A rune boundary of valid text: the text before and the text after are both valid.\<close>

lemma utf8_Valid_append:
  "utf8_Valid s \<Longrightarrow> utf8_Valid t \<Longrightarrow> utf8_Valid (s @ t)"
proof (induction s rule: utf8_Valid.induct)
  case (1 s)
  show ?case
  proof (cases "s = []")
    case True
    then show ?thesis using 1 by simp
  next
    case False
    then obtain n where n: "rune_len s = Some n" "utf8_Valid (drop n s)"
      using 1 by (auto simp: utf8_Valid_step)
    then have "utf8_Valid (drop n s @ t)" using 1 False by auto
    moreover have "rune_len (s @ t) = Some n" "drop n (s @ t) = drop n s @ t"
      using n rune_len_append rune_len_bounds by auto
    ultimately show ?thesis using False by (subst utf8_Valid_step) auto
  qed
qed

lemma RuneCount_append: "utf8_Valid s \<Longrightarrow> RuneCount (s @ t) = RuneCount s + RuneCount t"
proof (induction s rule: utf8_Valid.induct)
  case (1 s)
  show ?case
  proof (cases "s = []")
    case False
    then obtain n where n: "rune_len s = Some n" "utf8_Valid (drop n s)"
      using 1 by (auto simp: utf8_Valid_step)
    then have "RuneCount (drop n s @ t) = RuneCount (drop n s) + RuneCount t"
      using 1 False by auto
    then show ?thesis
      using False n rune_len_append [OF n(1)] rune_len_bounds [OF n(1)]
      by (simp add: RuneCount.simps [of s] RuneCount.simps [of "s @ t"] DecodeRune_def)
  qed simp
qed

lemma utf8_Valid_drop_start:
  "utf8_Valid s \<Longrightarrow> p < length s \<Longrightarrow> RuneStart (s ! p) \<Longrightarrow> utf8_Valid (take p s) \<and> utf8_Valid (drop p s)"
proof (induction s arbitrary: p rule: utf8_Valid.induct)
  case (1 s)
  then have ne: "s \<noteq> []" by auto
  then obtain n where n: "rune_len s = Some n" "utf8_Valid (drop n s)"
    using 1 by (auto simp: utf8_Valid_step)
  note nb = rune_len_bounds [OF n(1)]
  show ?case
  proof (cases "p = 0")
    case True
    then show ?thesis using 1 by simp
  next
    case p0: False
    have "\<not> p < n"
      using rune_len_cont [OF n(1), of p] p0 1 by (auto simp: RuneStart_iff)
    then have pn: "n \<le> p" by simp
    have "p - n < length (drop n s)" "RuneStart (drop n s ! (p - n))"
      using "1.prems" pn nb by auto
    then have IH: "utf8_Valid (take (p - n) (drop n s)) \<and> utf8_Valid (drop (p - n) (drop n s))"
      using "1.IH" [OF ne n(1) n(2)] by blast
    have "rune_len (take p s) = Some n" using n(1) pn by (rule rune_len_take)
    moreover have "drop n (take p s) = take (p - n) (drop n s)" by (rule drop_take)
    ultimately have "utf8_Valid (take p s)"
      using IH by (cases "take p s = []") (auto simp: utf8_Valid_step)
    then show ?thesis using IH pn by simp
  qed
qed

definition rune_boundary :: "string \<Rightarrow> nat \<Rightarrow> bool" where
  "rune_boundary s p = (p = length s \<or> (p < length s \<and> RuneStart (s ! p)))"

lemma rune_boundary_0: "utf8_Valid s \<Longrightarrow> rune_boundary s 0"
  by (cases "s = []") (auto simp: rune_boundary_def utf8_Valid_step dest: rune_len_start)

lemma rune_boundary_le: "rune_boundary s p \<Longrightarrow> p \<le> length s"
  by (auto simp: rune_boundary_def)

lemma rune_boundary_split:
  "utf8_Valid s \<Longrightarrow> rune_boundary s p \<Longrightarrow> utf8_Valid (take p s) \<and> utf8_Valid (drop p s)"
  by (auto simp: rune_boundary_def utf8_Valid_drop_start)

lemma rune_boundary_drop:
  "rune_boundary s p \<Longrightarrow> i \<le> p \<Longrightarrow> rune_boundary (drop i s) (p - i)"
  by (auto simp: rune_boundary_def)

lemma utf8_Valid_slice:
  assumes "utf8_Valid s" "rune_boundary s i" "rune_boundary s j" "i \<le> j"
  shows "utf8_Valid (take (j - i) (drop i s))"
  using assms rune_boundary_split rune_boundary_drop by blast

text \<open>Valid text has a boundary in every window of four bytes.\<close>

lemma boundary_within_4:
  assumes "utf8_Valid s" "p < length s"
  shows "\<exists>q. q \<le> p \<and> p < q + 4 \<and> q < length s \<and> RuneStart (s ! q)"
  using assms
proof (induction s arbitrary: p rule: utf8_Valid.induct)
  case (1 s)
  then have ne: "s \<noteq> []" by auto
  then obtain n where n: "rune_len s = Some n" "utf8_Valid (drop n s)"
    using 1 by (auto simp: utf8_Valid_step)
  note nb = rune_len_bounds [OF n(1)]
  show ?case
  proof (cases "p < n")
    case True
    then show ?thesis using nb ne rune_len_start [OF n(1)] by (intro exI [of _ 0]) auto
  next
    case False
    then have "\<exists>q. q \<le> p - n \<and> p - n < q + 4 \<and> q < length (drop n s) \<and> RuneStart (drop n s ! q)"
      using 1 ne n nb by auto
    then obtain q where "q \<le> p - n" "p - n < q + 4" "q < length (drop n s)" "RuneStart (drop n s ! q)"
      by blast
    then show ?thesis using False nb by (intro exI [of _ "n + q"]) auto
  qed
qed

text \<open>A continuation byte is never the last byte before the first start byte of valid text.\<close>

lemma utf8_Valid_all_ascii: "\<forall>c\<in>set s. byte c < 128 \<Longrightarrow> utf8_Valid s"
proof (induction s)
  case (Cons c s)
  then have "rune_len (c # s) = Some 1" by (simp add: first_info_def)
  with Cons show ?case by (simp add: utf8_Valid_step)
qed simp

end
