(* ===== verification/Go_Strings.thy ===== *)
theory Go_Strings
  imports Utf8
begin

text \<open>
  The functions of \<open>strings\<close>, \<open>strconv\<close> and \<open>unicode\<close> the code calls: \<open>TrimSpace\<close>, \<open>ToLower\<close>,
  \<open>ReplaceAll\<close>, \<open>HasPrefix\<close>, \<open>FormatInt\<close>, \<open>ParseInt\<close>. The case table of \<open>unicode.ToLower\<close>
  outside ASCII is a parameter (\<open>unicode_lower\<close>); everything else is written out.
\<close>

section \<open>Integers as text\<close>

fun format_nat :: "nat \<Rightarrow> string" where
  "format_nat n =
     (if n < 10 then [char_of (48 + n)] else format_nat (n div 10) @ [char_of (48 + n mod 10)])"

declare format_nat.simps [simp del]

definition FormatInt :: "int \<Rightarrow> string" where
  "FormatInt i = (if i < 0 then CHR ''-'' # format_nat (nat (- i)) else format_nat (nat i))"

definition is_digit :: "char \<Rightarrow> bool" where
  "is_digit c = (48 \<le> byte c \<and> byte c \<le> 57)"

fun parse_digits :: "nat \<Rightarrow> string \<Rightarrow> nat option" where
  "parse_digits acc [] = Some acc"
| "parse_digits acc (c # cs) = (if is_digit c then parse_digits (acc * 10 + (byte c - 48)) cs else None)"

definition in_int64 :: "int \<Rightarrow> bool" where
  "in_int64 i = (- 9223372036854775808 \<le> i \<and> i \<le> 9223372036854775807)"

text \<open>\<open>strconv.ParseInt(s, 10, 64)\<close>: an optional sign and at least one digit; out of range fails.\<close>

definition ParseInt64 :: "string \<Rightarrow> int option" where
  "ParseInt64 s =
     (let (sgn, ds) = (case s of
            [] \<Rightarrow> (1, [])
          | c # cs \<Rightarrow> if c = CHR ''-'' then (-1, cs) else if c = CHR ''+'' then (1, cs) else (1, c # cs))
      in if ds = [] then None
         else case parse_digits 0 ds of
             None \<Rightarrow> None
           | Some n \<Rightarrow> let i = sgn * int n in if in_int64 i then Some i else None)"

lemma is_digit_char_of: "n < 10 \<Longrightarrow> is_digit (char_of (48 + n :: nat))"
  by (simp add: is_digit_def)

lemma format_nat_nonempty [simp]: "format_nat n \<noteq> []"
  by (subst format_nat.simps) simp

lemma format_nat_digits: "\<forall>c\<in>set (format_nat n). is_digit c"
proof (induction n rule: format_nat.induct)
  case (1 n)
  then show ?case
    by (subst format_nat.simps) (auto simp: is_digit_char_of)
qed

lemma parse_digits_append:
  "parse_digits acc (xs @ [c]) =
     (case parse_digits acc xs of None \<Rightarrow> None
      | Some n \<Rightarrow> if is_digit c then Some (n * 10 + (byte c - 48)) else None)"
  by (induction acc xs rule: parse_digits.induct) auto

lemma parse_format_nat: "parse_digits 0 (format_nat n) = Some n"
proof (induction n rule: format_nat.induct)
  case (1 n)
  show ?case
  proof (cases "n < 10")
    case True
    then show ?thesis by (subst format_nat.simps) (auto simp: is_digit_char_of)
  next
    case False
    have m: "n mod 10 < 10" by simp
    then have "byte (char_of (48 + n mod 10)) - 48 = n mod 10" by simp
    then show ?thesis
      using False 1 is_digit_char_of [OF m] div_mult_mod_eq [of n 10]
      by (subst format_nat.simps) (simp add: parse_digits_append)
  qed
qed

lemma digit_not_sign: "is_digit c \<Longrightarrow> c \<noteq> CHR ''-'' \<and> c \<noteq> CHR ''+''"
  by (auto simp: is_digit_def byte_def)

lemma ParseInt64_FormatInt: "in_int64 i \<Longrightarrow> ParseInt64 (FormatInt i) = Some i"
proof (cases "i < 0")
  case True
  assume "in_int64 i"
  with True show ?thesis
    by (simp add: ParseInt64_def FormatInt_def parse_format_nat)
next
  case False
  assume i: "in_int64 i"
  obtain c cs where f: "format_nat (nat i) = c # cs"
    using format_nat_nonempty by (cases "format_nat (nat i)") auto
  then have "is_digit c" using format_nat_digits [of "nat i"] by auto
  from digit_not_sign [OF this] show ?thesis
    using False i parse_format_nat [of "nat i"] f by (auto simp: ParseInt64_def FormatInt_def)
qed

lemma ParseInt64_range: "ParseInt64 s = Some i \<Longrightarrow> in_int64 i"
  by (auto simp: ParseInt64_def Let_def split: prod.splits if_splits option.splits)

lemma FormatInt_inj: "in_int64 i \<Longrightarrow> in_int64 j \<Longrightarrow> FormatInt i = FormatInt j \<Longrightarrow> i = j"
  using ParseInt64_FormatInt by (metis option.inject)

lemma format_nat_length: "n < 10 ^ k \<Longrightarrow> 0 < k \<Longrightarrow> length (format_nat n) \<le> k"
proof (induction n arbitrary: k rule: format_nat.induct)
  case (1 n)
  show ?case
  proof (cases "n < 10")
    case False
    with 1(2) have k: "1 < k" by (cases k; cases "k - 1") auto
    then have "n div 10 < 10 ^ (k - 1)"
      using 1(2) by (simp add: div_less_iff_less_mult power_eq_if)
    then have "length (format_nat (n div 10)) \<le> k - 1" using 1(1) [OF False, of "k - 1"] k by simp
    then show ?thesis using k by (subst format_nat.simps) auto
  qed (use 1(3) in \<open>subst format_nat.simps, simp\<close>)
qed

lemma FormatInt_length: "in_int64 i \<Longrightarrow> length (FormatInt i) \<le> 20"
proof -
  assume i: "in_int64 i"
  then have "nat i < 10 ^ 19" "nat (- i) < 10 ^ 19" by (auto simp: in_int64_def)
  then show ?thesis
    using format_nat_length [of "nat i" 19] format_nat_length [of "nat (- i)" 19] by (simp add: FormatInt_def)
qed

lemma FormatInt_chars: "c \<in> set (FormatInt i) \<Longrightarrow> 45 \<le> byte c \<and> byte c \<le> 57"
  using format_nat_digits [of "nat i"] format_nat_digits [of "nat (- i)"]
  by (auto simp: FormatInt_def is_digit_def byte_def split: if_splits)

section \<open>White space\<close>

definition IsSpace :: "nat \<Rightarrow> bool" where
  "IsSpace r = (9 \<le> r \<and> r \<le> 13 \<or> r = 32 \<or> r = 133 \<or> r = 160 \<or> r = 5760 \<or>
     8192 \<le> r \<and> r \<le> 8202 \<or> r = 8232 \<or> r = 8233 \<or> r = 8239 \<or> r = 8287 \<or> r = 12288)"

text \<open>\<open>DecodeLastRune\<close>: walk back at most four bytes to a start byte and decode there.\<close>

fun last_start :: "string \<Rightarrow> nat \<Rightarrow> nat \<Rightarrow> nat" where
  "last_start s 0 p = p"
| "last_start s (Suc k) p =
     (if p = 0 then 0 else if RuneStart (s ! (p - 1)) then p - 1 else last_start s k (p - 1))"

definition DecodeLastRune :: "string \<Rightarrow> nat \<times> nat" where
  "DecodeLastRune s =
     (if s = [] then (RuneError, 0)
      else if byte (last s) < 128 then (byte (last s), 1)
      else let st = last_start s 3 (length s - 1); (r, n) = DecodeRune (drop st s)
           in if st + n = length s then (r, n) else (RuneError, 1))"

function trim_left :: "string \<Rightarrow> string" where
  "trim_left s = (if s = [] then [] else
     let (r, n) = DecodeRune s in if IsSpace r then trim_left (drop n s) else s)"
  by pat_completeness auto
termination
proof (relation "measure length")
  fix s x r n
  assume a: "s \<noteq> []" "x = DecodeRune s" "(r, n) = x" "IsSpace r"
  then have "1 \<le> n" "n \<le> length s" using DecodeRune_size [of s] by (metis snd_conv)+
  with a show "(drop n s, s) \<in> measure length" by auto
qed simp

lemma DecodeLastRune_size: "s \<noteq> [] \<Longrightarrow> 1 \<le> snd (DecodeLastRune s) \<and> snd (DecodeLastRune s) \<le> length s"
proof -
  assume s: "s \<noteq> []"
  have le: "last_start s k p \<le> p" for k p
    by (induction s k p rule: last_start.induct) auto
  let ?st = "last_start s 3 (length s - 1)"
  have "?st \<le> length s - 1" by (rule le)
  then have "drop ?st s \<noteq> []" using s by (cases s) auto
  from DecodeRune_size [OF this] s show ?thesis
    by (auto simp: DecodeLastRune_def Let_def Suc_le_eq split: prod.splits)
qed

function trim_right :: "string \<Rightarrow> string" where
  "trim_right s = (if s = [] then [] else
     let (r, n) = DecodeLastRune s in if IsSpace r then trim_right (take (length s - n) s) else s)"
  by pat_completeness auto
termination
proof (relation "measure length")
  fix s x r n
  assume a: "s \<noteq> []" "x = DecodeLastRune s" "(r, n) = x" "IsSpace r"
  then have "1 \<le> n" "n \<le> length s" using DecodeLastRune_size [of s] by (metis snd_conv)+
  with a show "(take (length s - n) s, s) \<in> measure length" by auto
qed simp

declare trim_left.simps [simp del] trim_right.simps [simp del]

definition TrimSpace :: "string \<Rightarrow> string" where
  "TrimSpace s = trim_right (trim_left s)"

lemma trim_left_length: "length (trim_left s) \<le> length s"
proof (induction s rule: trim_left.induct)
  case (1 s)
  show ?case
  proof (cases "s = [] \<or> \<not> IsSpace (fst (DecodeRune s))")
    case True
    then show ?thesis by (subst trim_left.simps) (auto split: prod.splits)
  next
    case False
    then have "length (trim_left (drop (snd (DecodeRune s)) s)) \<le> length (drop (snd (DecodeRune s)) s)"
      using 1 by (cases "DecodeRune s") auto
    then show ?thesis using False by (subst trim_left.simps) (auto split: prod.splits)
  qed
qed

lemma trim_right_length: "length (trim_right s) \<le> length s"
proof (induction s rule: trim_right.induct)
  case (1 s)
  show ?case
  proof (cases "s = [] \<or> \<not> IsSpace (fst (DecodeLastRune s))")
    case True
    then show ?thesis by (subst trim_right.simps) (auto split: prod.splits)
  next
    case False
    then have "length (trim_right (take (length s - snd (DecodeLastRune s)) s))
        \<le> length (take (length s - snd (DecodeLastRune s)) s)"
      using 1 by (cases "DecodeLastRune s") auto
    then show ?thesis using False by (subst trim_right.simps) (auto split: prod.splits)
  qed
qed

lemma TrimSpace_length: "length (TrimSpace s) \<le> length s"
  using trim_left_length trim_right_length unfolding TrimSpace_def by (rule order_trans [rotated])

lemma TrimSpace_Nil [simp]: "TrimSpace [] = []"
  by (simp add: TrimSpace_def trim_left.simps trim_right.simps)

section \<open>Case, replacement, prefixes\<close>

definition EncodeRune :: "nat \<Rightarrow> string" where
  "EncodeRune r =
     (let r = (if r > 1114111 \<or> 55296 \<le> r \<and> r \<le> 57343 then RuneError else r) in
      if r < 128 then [char_of r]
      else if r < 2048 then [char_of (192 + r div 64), char_of (128 + r mod 64)]
      else if r < 65536 then
        [char_of (224 + r div 4096), char_of (128 + r div 64 mod 64), char_of (128 + r mod 64)]
      else [char_of (240 + r div 262144), char_of (128 + r div 4096 mod 64),
            char_of (128 + r div 64 mod 64), char_of (128 + r mod 64)])"

text \<open>The runes of a string as \<open>for range\<close> yields them; an invalid byte yields \<open>RuneError\<close>.\<close>

function runes :: "string \<Rightarrow> nat list" where
  "runes s = (if s = [] then [] else fst (DecodeRune s) # runes (drop (snd (DecodeRune s)) s))"
  by pat_completeness auto
termination
  by (relation "measure length") (auto simp: DecodeRune_def dest!: rune_len_bounds split: option.splits)

declare runes.simps [simp del]

lemma runes_Nil [simp]: "runes [] = []"
  by (simp add: runes.simps)

lemma length_runes: "length (runes s) = RuneCount s"
proof (induction s rule: runes.induct)
  case (1 s)
  then show ?case by (cases "s = []") (simp_all add: runes.simps [of s] RuneCount.simps [of s])
qed

definition ascii_lower :: "char \<Rightarrow> char" where
  "ascii_lower c = (if 65 \<le> byte c \<and> byte c \<le> 90 then char_of (byte c + 32) else c)"

definition ToLower :: "(nat \<Rightarrow> nat) \<Rightarrow> string \<Rightarrow> string" where
  "ToLower unicode_lower s =
     (if \<forall>c\<in>set s. byte c < 128 then map ascii_lower s
      else concat (map (\<lambda>r. EncodeRune (unicode_lower r)) (runes s)))"

lemma ascii_lower_idem [simp]: "ascii_lower (ascii_lower c) = ascii_lower c"
  by (simp add: ascii_lower_def)

lemma ToLower_ascii_length: "\<forall>c\<in>set s. byte c < 128 \<Longrightarrow> length (ToLower u s) = length s"
  by (simp add: ToLower_def)

definition replace_char :: "char \<Rightarrow> char \<Rightarrow> string \<Rightarrow> string" where
  "replace_char a b s = map (\<lambda>c. if c = a then b else c) s"

text \<open>\<open>strings.Split\<close> with a separator of one byte.\<close>

fun split_byte :: "char \<Rightarrow> string \<Rightarrow> string list" where
  "split_byte sep [] = [[]]"
| "split_byte sep (c # cs) =
     (if c = sep then [] # split_byte sep cs
      else case split_byte sep cs of [] \<Rightarrow> [[c]] | p # ps \<Rightarrow> (c # p) # ps)"

lemma split_byte_none: "sep \<notin> set s \<Longrightarrow> split_byte sep s = [s]"
  by (induction s) auto

lemma split_byte_append: "sep \<notin> set p \<Longrightarrow> split_byte sep (p @ sep # s) = p # split_byte sep s"
  by (induction p) auto

text \<open>The verb \<open>q\<close> of \<open>fmt\<close> on texts without characters to escape.\<close>

definition quoted :: "string \<Rightarrow> string" where "quoted s = CHR 0x22 # s @ [CHR 0x22]"

definition HasPrefix :: "string \<Rightarrow> string \<Rightarrow> bool" where
  "HasPrefix s p = (take (length p) s = p)"

end
