(* ===== verification/Json.thy ===== *)
theory Json
  imports Go_Strings
begin

text \<open>
  JSON documents as trees: \<open>json.Marshal\<close> of a map or struct followed by storage in a \<open>jsonb\<close>
  column or by \<open>json.Unmarshal\<close> only ever exposes the tree. Unmarshalling into a struct visits
  the members of an object in order, matches a member to a field by case folding, skips
  \<open>null\<close>, and goes on after a type error, which is reported at the end.
\<close>

datatype json =
    JNull
  | JBool bool
  | JInt int
  | JNumber string
  | JStr string
  | JArr "json list"
  | JObj "(string \<times> json) list"

text \<open>
  \<open>encoding/json\<close> folds names rune by rune to the smallest rune of the case orbit; beyond ASCII
  the only runes that fold to an ASCII letter are the long s (bytes C5 BF) and the Kelvin sign
  (bytes E2 84 AA).
\<close>

fun fold_name :: "string \<Rightarrow> string" where
  "fold_name [] = []"
| "fold_name (a # xs) =
     (if byte a = 197 \<and> take 1 xs = [CHR 0xBF] then CHR ''s'' # fold_name (drop 1 xs)
      else if byte a = 226 \<and> take 2 xs = [CHR 0x84, CHR 0xAA] then CHR ''k'' # fold_name (drop 2 xs)
      else ascii_lower a # fold_name xs)"

definition member_of :: "string \<Rightarrow> string \<times> json \<Rightarrow> bool" where
  "member_of name e = (fst e = name \<or> fold_name (fst e) = fold_name name)"

definition int64_member_ok :: "json \<Rightarrow> bool" where
  "int64_member_ok v = (case v of JNull \<Rightarrow> True | JInt n \<Rightarrow> in_int64 n | _ \<Rightarrow> False)"

definition string_member_ok :: "json \<Rightarrow> bool" where
  "string_member_ok v = (case v of JNull \<Rightarrow> True | JStr s \<Rightarrow> True | _ \<Rightarrow> False)"

text \<open>The value of an \<open>int64\<close> or \<open>string\<close> field after all members were visited.\<close>

definition int64_field :: "string \<Rightarrow> (string \<times> json) list \<Rightarrow> int" where
  "int64_field name ms = foldl (\<lambda>acc e. if member_of name e
     then (case snd e of JInt n \<Rightarrow> if in_int64 n then n else acc | _ \<Rightarrow> acc) else acc) 0 ms"

definition string_field :: "string \<Rightarrow> (string \<times> json) list \<Rightarrow> string" where
  "string_field name ms = foldl (\<lambda>acc e. if member_of name e
     then (case snd e of JStr s \<Rightarrow> s | _ \<Rightarrow> acc) else acc) [] ms"

definition int64_field_ok :: "string \<Rightarrow> (string \<times> json) list \<Rightarrow> bool" where
  "int64_field_ok name ms = (\<forall>e\<in>set ms. member_of name e \<longrightarrow> int64_member_ok (snd e))"

definition string_field_ok :: "string \<Rightarrow> (string \<times> json) list \<Rightarrow> bool" where
  "string_field_ok name ms = (\<forall>e\<in>set ms. member_of name e \<longrightarrow> string_member_ok (snd e))"

text \<open>The members of a document that unmarshals into a struct: none for \<open>null\<close>, an error otherwise.\<close>

fun object_members :: "json \<Rightarrow> (string \<times> json) list option" where
  "object_members JNull = Some []"
| "object_members (JObj ms) = Some ms"
| "object_members _ = None"

end
