(* ===== verification/Schema.thy ===== *)
theory Schema
  imports Db_Logic Json
begin

text \<open>
  The tables of the community domain (\<open>migrations/000002\<close> to \<open>000008\<close>, \<open>000012\<close>) as lists of rows
  in insertion order, the primary, unique and foreign keys the code relies on, and the two
  triggers that change what the code reads back: the content version of notes and comments and
  the default project membership. Length and check constraints are not written out: a statement
  they refuse is a \<open>Refused\<close> entry of the fault script.

  Timestamps are instants in nanoseconds (the rounding to microseconds is not modelled). Scores of type
  \<open>double precision\<close> are integers: every score
  the program writes is an integer combination of counters.
\<close>

section \<open>Rows\<close>

record user_row =
  u_id :: int
  u_username :: string
  u_nickname :: "string option"
  u_avatar_url :: "string option"
  u_bio :: "string option"
  u_role :: string
  u_status :: string
  u_created_at :: int
  u_updated_at :: int

record project_row =
  p_id :: int
  p_slug :: string
  p_name :: string
  p_visibility :: string
  p_status :: string

record member_row =
  m_project_id :: int
  m_user_id :: int
  m_role :: string
  m_status :: string

record note_row =
  n_id :: int
  n_project_id :: int
  n_author_id :: int
  n_title :: string
  n_body :: string
  n_category :: string
  n_topics :: json
  n_tags :: json
  n_location :: json
  n_product_entities :: json
  n_note_type :: string
  n_view_count :: int
  n_like_count :: int
  n_collect_count :: int
  n_comment_count :: int
  n_share_count :: int
  n_hot_score :: int
  n_quality_score :: int
  n_status :: string
  n_visibility :: string
  n_content_version :: int
  n_deleted_at :: "int option"
  n_created_at :: int
  n_updated_at :: int

record media_row =
  md_id :: int
  md_note_id :: int
  md_media_type :: string
  md_url :: string
  md_caption :: string
  md_ocr_text :: string
  md_position :: int
  md_metadata :: json
  md_created_at :: int

record comment_row =
  c_id :: int
  c_note_id :: int
  c_user_id :: int
  c_parent_id :: int
  c_root_id :: int
  c_content :: string
  c_like_count :: int
  c_reply_count :: int
  c_sentiment :: "string option"
  c_intent :: "string option"
  c_topic_id :: int
  c_status :: int
  c_content_version :: int
  c_deleted_at :: "int option"
  c_created_at :: int
  c_updated_at :: int

record like_row =
  l_note_id :: int
  l_user_id :: int
  l_created_at :: int

record collect_row =
  cl_note_id :: int
  cl_user_id :: int
  cl_collection_name :: "string option"
  cl_created_at :: int

record share_row =
  sh_id :: int
  sh_note_id :: int
  sh_user_id :: int
  sh_channel :: string
  sh_created_at :: int

record comment_like_row =
  k_comment_id :: int
  k_user_id :: int
  k_created_at :: int

record outbox_row =
  o_id :: int
  o_event_id :: string
  o_aggregate_type :: string
  o_aggregate_id :: int
  o_event_type :: string
  o_payload :: json
  o_schema_version :: int
  o_producer :: string
  o_correlation_id :: "string option"
  o_trace_id :: "string option"
  o_traceparent :: "string option"
  o_tracestate :: "string option"
  o_status :: string
  o_retry_count :: int
  o_next_retry_at :: int
  o_last_error :: "string option"
  o_created_at :: int
  o_updated_at :: int
  o_sent_at :: "int option"

record processed_row =
  pr_event_id :: string
  pr_consumer_name :: string
  pr_processed_at :: int

record behavior_row =
  b_id :: int
  b_source_event_id :: string
  b_project_id :: int
  b_user_id :: int
  b_note_id :: "int option"
  b_comment_id :: "int option"
  b_event_type :: string
  b_payload :: json
  b_occurred_at :: int
  b_created_at :: int

record credential_row =
  cr_user_id :: int
  cr_username :: string
  cr_password_hash :: string
  cr_password_algo :: string

record session_row =
  s_id :: int
  s_user_id :: int
  s_refresh_token_hash :: string
  s_user_agent :: "string option"
  s_ip_address :: "string option"
  s_revoked :: bool
  s_expires_at :: int
  s_last_used_at :: "int option"
  s_replaced_by_session_id :: "int option"
  s_created_at :: int
  s_updated_at :: int

record auth_token_row =
  at_id :: int
  at_user_id :: int
  at_token_hash :: string
  at_status :: string
  at_created_at :: int
  at_expired_at :: "int option"

record reconcile_row =
  rq_state_key :: string
  rq_last_id :: int
  rq_updated_at :: int

record store =
  users :: "user_row list"
  projects :: "project_row list"
  project_members :: "member_row list"
  all_notes :: "note_row list"
  note_media :: "media_row list"
  note_comments :: "comment_row list"
  note_likes :: "like_row list"
  note_collects :: "collect_row list"
  note_shares :: "share_row list"
  note_comment_likes :: "comment_like_row list"
  outbox_events :: "outbox_row list"
  processed_events :: "processed_row list"
  behavior_events :: "behavior_row list"
  user_credentials :: "credential_row list"
  user_sessions :: "session_row list"
  user_auth_tokens :: "auth_token_row list"
  reconcile_state :: "reconcile_row list"

type_synonym 'a sm = "(store, 'a) dbm"

section \<open>Statements on tables\<close>

text \<open>\<open>NULLIF(x, '')\<close>, \<open>NULLIF(x, 0)\<close> and \<open>COALESCE(x, '')\<close>.\<close>

definition nullif_empty :: "string \<Rightarrow> string option" where
  "nullif_empty s = (if s = [] then None else Some s)"

definition nullif_zero :: "int \<Rightarrow> int option" where
  "nullif_zero i = (if i = 0 then None else Some i)"

definition coalesce :: "string option \<Rightarrow> string" where
  "coalesce x = (case x of None \<Rightarrow> [] | Some s \<Rightarrow> s)"

definition update_where :: "('r \<Rightarrow> bool) \<Rightarrow> ('r \<Rightarrow> 'r) \<Rightarrow> 'r list \<Rightarrow> 'r list" where
  "update_where P f rows = map (\<lambda>r. if P r then f r else r) rows"

definition count_where :: "('r \<Rightarrow> bool) \<Rightarrow> 'r list \<Rightarrow> int" where
  "count_where P rows = int (length (filter P rows))"

definition exists_row :: "('r \<Rightarrow> bool) \<Rightarrow> 'r list \<Rightarrow> bool" where
  "exists_row P rows = list_ex P rows"

definition fk_violation :: go_error where
  "fk_violation = PgError ''23503'' ''foreign key violation''"

definition unique_violation :: go_error where
  "unique_violation = PgError ''23505'' ''unique violation''"

text \<open>
  An \<open>UPDATE ... WHERE P RETURNING g\<close> read by \<open>QueryRow\<close>: no row is \<open>sql.ErrNoRows\<close>, otherwise the
  new version of the first row that matches.
\<close>

definition update_returning ::
  "(store \<Rightarrow> 'r list) \<Rightarrow> ('r list \<Rightarrow> store \<Rightarrow> store) \<Rightarrow> ('r \<Rightarrow> bool) \<Rightarrow> (int \<Rightarrow> store \<Rightarrow> 'r \<Rightarrow> 'r) \<Rightarrow> ('r \<Rightarrow> 'a) \<Rightarrow> 'a sm" where
  "update_returning get put P f g = execE (\<lambda>now t.
     case find P (get t) of
       None \<Rightarrow> Inl SqlErrNoRows
     | Some r \<Rightarrow> Inr (g (f now t r), put (update_where P (f now t) (get t)) t))"

section \<open>Triggers\<close>

text \<open>\<open>enforce_note_content_version\<close>: the version grows exactly when a content column changes.\<close>

definition note_content :: "note_row \<Rightarrow> _" where
  "note_content n = (n_title n, n_body n, n_category n, n_topics n, n_tags n, n_location n,
     n_product_entities n, n_status n, n_visibility n, n_deleted_at n)"

definition enforce_note_content_version :: "note_row \<Rightarrow> note_row \<Rightarrow> note_row" where
  "enforce_note_content_version old new =
     new\<lparr>n_content_version := (if note_content new \<noteq> note_content old then n_content_version old + 1
        else n_content_version old)\<rparr>"

definition comment_content :: "comment_row \<Rightarrow> _" where
  "comment_content c = (c_content c, c_status c, c_parent_id c, c_deleted_at c, c_sentiment c, c_intent c, c_topic_id c)"

definition enforce_note_comment_content_version :: "int \<Rightarrow> comment_row \<Rightarrow> comment_row \<Rightarrow> comment_row" where
  "enforce_note_comment_content_version now old new =
     (if comment_content new \<noteq> comment_content old
      then new\<lparr>c_content_version := c_content_version old + 1, c_updated_at := now\<rparr>
      else new\<lparr>c_content_version := c_content_version old\<rparr>)"

text \<open>\<open>ensure_default_project_membership\<close>, after the insertion of a user.\<close>

definition ensure_default_project_membership :: "user_row \<Rightarrow> store \<Rightarrow> store" where
  "ensure_default_project_membership u t =
     (if exists_row (\<lambda>m. m_project_id m = 1 \<and> m_user_id m = u_id u) (project_members t) then t
      else t\<lparr>project_members := project_members t @ [\<lparr>m_project_id = 1, m_user_id = u_id u,
             m_role = (if u_role u = ''admin'' then ''admin'' else ''member''), m_status = ''active''\<rparr>]\<rparr>)"

section \<open>Key constraints\<close>

text \<open>
  What the constraints of the schema keep: serial keys are distinct and were drawn from their
  sequence, composite keys are distinct, and the foreign keys of the fact tables resolve.
\<close>

definition serial_ok :: "int \<Rightarrow> ('r \<Rightarrow> int) \<Rightarrow> 'r list \<Rightarrow> bool" where
  "serial_ok hi key rows = (distinct (map key rows) \<and> (\<forall>r\<in>set rows. 0 < key r \<and> key r \<le> hi \<and> key r \<le> max_bigint))"

definition store_ok :: "(string \<Rightarrow> int) \<Rightarrow> store \<Rightarrow> bool" where
  "store_ok sq t =
     ((\<forall>x. 0 \<le> sq x) \<and> serial_ok (sq ''notes'') n_id (all_notes t) \<and> serial_ok (sq ''note_media'') md_id (note_media t) \<and>
      serial_ok (sq ''note_comments'') c_id (note_comments t) \<and> serial_ok (sq ''note_shares'') sh_id (note_shares t) \<and>
      serial_ok (sq ''outbox_events'') o_id (outbox_events t) \<and> distinct (map o_event_id (outbox_events t)) \<and>
      distinct (map (\<lambda>l. (l_note_id l, l_user_id l)) (note_likes t)) \<and>
      distinct (map (\<lambda>l. (cl_note_id l, cl_user_id l)) (note_collects t)) \<and>
      distinct (map (\<lambda>l. (k_comment_id l, k_user_id l)) (note_comment_likes t)) \<and>
      distinct (map (\<lambda>l. (pr_event_id l, pr_consumer_name l)) (processed_events t)) \<and>
      distinct (map b_source_event_id (behavior_events t)) \<and>
      (\<forall>c\<in>set (note_comments t). c_note_id c \<in> n_id ` set (all_notes t)) \<and>
      (\<forall>l\<in>set (note_likes t). l_note_id l \<in> n_id ` set (all_notes t)) \<and>
      (\<forall>l\<in>set (note_collects t). cl_note_id l \<in> n_id ` set (all_notes t)) \<and>
      (\<forall>l\<in>set (note_shares t). sh_note_id l \<in> n_id ` set (all_notes t)) \<and>
      (\<forall>l\<in>set (note_comment_likes t). k_comment_id l \<in> c_id ` set (note_comments t)))"

lemma serial_ok_mono: "serial_ok hi key rows \<Longrightarrow> hi \<le> hi' \<Longrightarrow> serial_ok hi' key rows"
  by (fastforce simp: serial_ok_def)

lemma serial_ok_snoc: "serial_ok hi key rows \<Longrightarrow> key r = hi + 1 \<Longrightarrow> 0 \<le> hi \<Longrightarrow> hi + 1 \<le> max_bigint \<Longrightarrow> serial_ok (hi + 1) key (rows @ [r])"
  by (fastforce simp: serial_ok_def)

lemma map_key_update_where [simp]:
  "(\<And>r. key (f r) = key r) \<Longrightarrow> map key (update_where P f rows) = map key rows"
  by (simp add: update_where_def)

lemma set_key_update_where: "(\<And>r. key (f r) = key r) \<Longrightarrow> key ` set (update_where P f rows) = key ` set rows"
  by (metis map_key_update_where set_map)

lemma serial_ok_keys: "serial_ok hi key rows \<longleftrightarrow> distinct (map key rows) \<and> (\<forall>k\<in>set (map key rows). 0 < k \<and> k \<le> hi \<and> k \<le> max_bigint)"
  by (simp add: serial_ok_def)

lemma serial_ok_update [simp]:
  "(\<And>r. key (f r) = key r) \<Longrightarrow> serial_ok hi key (update_where P f rows) = serial_ok hi key rows"
  by (simp add: serial_ok_keys del: set_map)

lemma store_ok_mono: "store_ok sq t \<Longrightarrow> (\<And>x. sq x \<le> sq' x) \<Longrightarrow> store_ok sq' t"
  by (simp add: store_ok_def) (meson order_trans serial_ok_mono)

text \<open>The key constraints are an invariant in the sense of \<open>db_invariant\<close>.\<close>

interpretation keys: db_invariant store_ok
  by unfold_locales (rule store_ok_mono)

lemma find_update_where:
  assumes "distinct (map key rows)" "find P rows = Some r" "\<And>r. P r \<Longrightarrow> key r = k"
  shows "filter P rows = [r]"
  using assms
proof (induction rows)
  case (Cons a rows)
  show ?case
  proof (cases "P a")
    case True
    then have "k \<notin> key ` set rows" using Cons.prems by auto
    then have "filter P rows = []" using Cons.prems(3) by (force simp: filter_empty_conv)
    then show ?thesis using True Cons.prems(2) by simp
  qed (use Cons in auto)
qed simp

end
