(* ===== verification/Outbox.thy ===== *)
theory Outbox
  imports Schema "HOL-Library.Product_Lexorder" "HOL-Library.Multiset"
begin

text \<open>
  The transactional outbox (\<open>internal/outbox\<close>): events are inserted in the transaction of the
  change they describe, locked in batches by publishers, and marked sent, retried or failed.

  The values the code draws from its surroundings (request metadata, the tracing span, eight
  random bytes, the wall clock) are the fields of \<open>ctx\<close>. Two choices of the server are
  parameters of \<open>LockPending\<close>: the rows other transactions hold locked, and the order in which
  \<open>UPDATE ... RETURNING\<close> lists its rows.
\<close>

section \<open>Context\<close>

record ctx =
  ctx_RequestID :: string
  ctx_TraceID :: string
  span_TraceID :: string
  span_traceparent :: string
  span_tracestate :: string
  rand_bytes :: "nat list option"
  clock_nanos :: int
  unicode_lower :: "nat \<Rightarrow> nat"

section \<open>Event identifiers\<close>

definition normalizeEventType :: "(nat \<Rightarrow> nat) \<Rightarrow> string \<Rightarrow> string" where
  "normalizeEventType low value =
     (let v = replace_char (CHR ''-'') (CHR ''_'') (replace_char (CHR ''.'') (CHR ''_'') (ToLower low (TrimSpace value)))
      in if v = [] then ''unknown'' else v)"

definition hex_digit :: "nat \<Rightarrow> char" where
  "hex_digit n = (if n < 10 then char_of (48 + n) else char_of (87 + n))"

definition hex_encode :: "nat list \<Rightarrow> string" where
  "hex_encode bs = concat (map (\<lambda>b. [hex_digit (b div 16), hex_digit (b mod 16)]) bs)"

definition NewEventID :: "ctx \<Rightarrow> string \<Rightarrow> string" where
  "NewEventID c eventType =
     (case rand_bytes c of
        None \<Rightarrow> ''evt_'' @ normalizeEventType (unicode_lower c) eventType @ ''_'' @ FormatInt (clock_nanos c)
      | Some suffix \<Rightarrow> ''evt_'' @ normalizeEventType (unicode_lower c) eventType @ ''_'' @ FormatInt (clock_nanos c)
          @ ''_'' @ hex_encode suffix)"

definition truncateError :: "string \<Rightarrow> string" where
  "truncateError value = (let v = TrimSpace value in if length v \<le> 1000 then v else take 1000 v)"

section \<open>Enqueueing\<close>

record EventInput =
  in_AggregateType :: string
  in_AggregateID :: int
  in_EventType :: string
  in_Payload :: json
  in_SchemaVersion :: int
  in_Producer :: string

text \<open>The literal \<open>EventInput{AggregateType, AggregateID, EventType, Payload}\<close> of the callers.\<close>

definition event_input :: "string \<Rightarrow> int \<Rightarrow> string \<Rightarrow> (string \<times> json) list \<Rightarrow> EventInput" where
  "event_input aggregateType aggregateID eventType payload =
     \<lparr>in_AggregateType = aggregateType, in_AggregateID = aggregateID, in_EventType = eventType,
      in_Payload = JObj payload, in_SchemaVersion = 0, in_Producer = []\<rparr>"

definition new_outbox_row :: "ctx \<Rightarrow> EventInput \<Rightarrow> int \<Rightarrow> int \<Rightarrow> outbox_row" where
  "new_outbox_row c input i now =
     \<lparr>o_id = i,
      o_event_id = NewEventID c (in_EventType input),
      o_aggregate_type = in_AggregateType input,
      o_aggregate_id = in_AggregateID input,
      o_event_type = in_EventType input,
      o_payload = in_Payload input,
      o_schema_version = (if in_SchemaVersion input \<le> 0 then 1 else in_SchemaVersion input),
      o_producer = (let p = TrimSpace (in_Producer input) in if p = [] then ''noteinsight-api'' else p),
      o_correlation_id = nullif_empty (ctx_RequestID c),
      o_trace_id = nullif_empty (if span_TraceID c \<noteq> [] then span_TraceID c else ctx_TraceID c),
      o_traceparent = nullif_empty (span_traceparent c),
      o_tracestate = nullif_empty (span_tracestate c),
      o_status = ''pending'', o_retry_count = 0, o_next_retry_at = now, o_last_error = None,
      o_created_at = now, o_updated_at = now, o_sent_at = None\<rparr>"

definition EnqueueTx :: "ctx \<Rightarrow> EventInput \<Rightarrow> unit sm" where
  "EnqueueTx c input =
     (if TrimSpace (in_AggregateType input) = [] then throwE (ErrorString ''outbox aggregate_type is required'')
      else if in_AggregateID input \<le> 0 then throwE (ErrorString ''outbox aggregate_id must be positive'')
      else if TrimSpace (in_EventType input) = [] then throwE (ErrorString ''outbox event_type is required'')
      else insert_serial ''outbox_events'' (\<lambda>i now t.
        let row = new_outbox_row c input i now in
        if exists_row (\<lambda>r. o_event_id r = o_event_id row) (outbox_events t) then Inl unique_violation
        else Inr ((), t\<lparr>outbox_events := outbox_events t @ [row]\<rparr>)))"

section \<open>Locking and marking\<close>

record Event =
  ID :: int
  EventID :: string
  AggregateType :: string
  AggregateID :: int
  EventType :: string
  Payload :: json
  SchemaVersion :: int
  Producer :: string
  CorrelationID :: string
  TraceID :: string
  TraceParent :: string
  TraceState :: string
  Status :: string
  RetryCount :: int
  NextRetryAt :: int
  CreatedAt :: int
  UpdatedAt :: int

definition event_of_row :: "outbox_row \<Rightarrow> Event" where
  "event_of_row r =
     \<lparr>ID = o_id r, EventID = o_event_id r, AggregateType = o_aggregate_type r, AggregateID = o_aggregate_id r,
      EventType = o_event_type r, Payload = o_payload r, SchemaVersion = o_schema_version r, Producer = o_producer r,
      CorrelationID = coalesce (o_correlation_id r), TraceID = coalesce (o_trace_id r),
      TraceParent = coalesce (o_traceparent r), TraceState = coalesce (o_tracestate r),
      Status = o_status r, RetryCount = o_retry_count r, NextRetryAt = o_next_retry_at r,
      CreatedAt = o_created_at r, UpdatedAt = o_updated_at r\<rparr>"

definition pickable :: "int \<Rightarrow> outbox_row \<Rightarrow> bool" where
  "pickable now r = ((o_status r = ''pending'' \<or> o_status r = ''retry'') \<and> o_next_retry_at r \<le> now)"

definition picked :: "int list \<Rightarrow> nat \<Rightarrow> int \<Rightarrow> outbox_row list \<Rightarrow> int list" where
  "picked locked limit now rows =
     take limit (map o_id (sort_key (\<lambda>r. (o_created_at r, o_id r))
       (filter (\<lambda>r. pickable now r \<and> o_id r \<notin> set locked) rows)))"

definition lock_limit :: "int \<Rightarrow> nat" where
  "lock_limit limit = (if limit \<le> 0 then 50 else nat limit)"

definition LockPending :: "(Event list \<Rightarrow> Event list) \<Rightarrow> int list \<Rightarrow> int \<Rightarrow> Event list sm" where
  "LockPending order locked limit = execE (\<lambda>now t.
     let ids = picked locked (lock_limit limit) now (outbox_events t);
         rows = update_where (\<lambda>r. o_id r \<in> set ids) (\<lambda>r. r\<lparr>o_status := ''processing'', o_updated_at := now\<rparr>) (outbox_events t) in
     Inr (order (map event_of_row (filter (\<lambda>r. o_id r \<in> set ids) rows)), t\<lparr>outbox_events := rows\<rparr>))"

definition MarkSent :: "int \<Rightarrow> unit sm" where
  "MarkSent i = updateE (\<lambda>now t. t\<lparr>outbox_events := update_where (\<lambda>r. o_id r = i)
     (\<lambda>r. r\<lparr>o_status := ''sent'', o_sent_at := Some now, o_updated_at := now, o_last_error := None\<rparr>) (outbox_events t)\<rparr>)"

definition MarkRetry :: "int \<Rightarrow> int \<Rightarrow> int \<Rightarrow> string \<Rightarrow> unit sm" where
  "MarkRetry i retryCount nextRetryAt lastError =
     updateE (\<lambda>now t. t\<lparr>outbox_events := update_where (\<lambda>r. o_id r = i)
       (\<lambda>r. r\<lparr>o_status := ''retry'', o_retry_count := retryCount, o_next_retry_at := nextRetryAt,
          o_last_error := Some (truncateError lastError), o_updated_at := now\<rparr>) (outbox_events t)\<rparr>)"

definition MarkFailed :: "int \<Rightarrow> int \<Rightarrow> string \<Rightarrow> unit sm" where
  "MarkFailed i retryCount lastError =
     updateE (\<lambda>now t. t\<lparr>outbox_events := update_where (\<lambda>r. o_id r = i)
       (\<lambda>r. r\<lparr>o_status := ''failed'', o_retry_count := retryCount,
          o_last_error := Some (truncateError lastError), o_updated_at := now\<rparr>) (outbox_events t)\<rparr>)"

definition RecoverStaleProcessing :: "int \<Rightarrow> int sm" where
  "RecoverStaleProcessing staleBefore = execE (\<lambda>now t.
     let stale = (\<lambda>r. o_status r = ''processing'' \<and> o_updated_at r < staleBefore) in
     Inr (count_where stale (outbox_events t),
          t\<lparr>outbox_events := update_where stale
             (\<lambda>r. r\<lparr>o_status := ''retry'', o_next_retry_at := now,
                o_last_error := (if coalesce (o_last_error r) = [] then Some ''processing lease expired'' else o_last_error r),
                o_updated_at := now\<rparr>) (outbox_events t)\<rparr>))"

definition CountByStatus :: "(string \<rightharpoonup> int) sm" where
  "CountByStatus = selectE (\<lambda>t. \<lambda>st. let n = count_where (\<lambda>r. o_status r = st) (outbox_events t) in
     if n = 0 then None else Some n)"

definition OldestUnsentAge :: "int sm" where
  "OldestUnsentAge = execE (\<lambda>now t.
     let ages = map (\<lambda>r. now - o_created_at r) (filter (\<lambda>r. o_status r \<in> set [''pending'', ''processing'', ''retry'']) (outbox_events t));
         age = foldr max ages (case ages of [] \<Rightarrow> 0 | a # _ \<Rightarrow> a) in
     Inr (if age < 0 then 0 else age, t))"

end
