(* ===== verification/Note_Repo.thy ===== *)
theory Note_Repo
  imports Outbox
begin

text \<open>
  The repository of the community domain (\<open>internal/note/repository.go\<close>): every write is one
  transaction that changes the domain tables and inserts the outbox event that describes the
  change. \<open>ILIKE\<close> is the parameter \<open>ilike\<close>.
\<close>

section \<open>Data\<close>

record AuthorSummary =
  au_ID :: int
  au_Username :: string
  au_Nickname :: string
  au_AvatarURL :: string

record Note = note_row +
  ViewerLiked :: bool
  ViewerCollected :: bool
  Author :: "AuthorSummary option"
  Media :: "media_row list"

record NoteComment =
  nc_ID :: int
  nc_NoteID :: int
  nc_UserID :: int
  nc_ParentID :: int
  nc_RootID :: int
  nc_Content :: string
  nc_LikeCount :: int
  nc_ReplyCount :: int
  nc_Sentiment :: string
  nc_Intent :: string
  nc_TopicID :: int
  nc_Status :: int
  nc_CreatedAt :: int
  nc_UpdatedAt :: int

record CreateNoteMediaInput =
  cm_MediaType :: string
  cm_URL :: string
  cm_Caption :: string
  cm_OCRText :: string
  cm_Position :: int
  cm_Metadata :: "(string \<times> json) list"

record CreateNoteInput =
  cn_ProjectID :: int
  cn_AuthorID :: int
  cn_Title :: string
  cn_Body :: string
  cn_Category :: string
  cn_Topics :: "string list"
  cn_Tags :: "string list"
  cn_Location :: "(string \<times> json) list"
  cn_ProductEntities :: "string list"
  cn_Media :: "CreateNoteMediaInput list"
  cn_Visibility :: string

record UpdateNoteInput =
  un_NoteID :: string
  un_ActorUserID :: int
  un_Title :: "string option"
  un_Body :: "string option"
  un_Category :: "string option"

record ListNotesInput =
  ln_Category :: string
  ln_Query :: string
  ln_ProjectID :: int
  ln_ViewerID :: int
  ln_Limit :: int
  ln_Cursor :: string

record CreateCommentInput =
  cc_NoteID :: string
  cc_UserID :: int
  cc_ParentID :: int
  cc_Content :: string
  cc_Intent :: string

record ListCommentsInput =
  lc_NoteID :: string
  lc_ViewerID :: int
  lc_Limit :: int
  lc_Cursor :: string

record IdempotentActionResult =
  ResourceID :: int
  ActionUserID :: int
  Applied :: bool
  Count :: int
  CountPending :: bool
  Action :: string

record ShareNoteResult =
  sr_NoteID :: int
  sr_UserID :: int
  sr_ShareID :: int
  sr_ShareCount :: int
  sr_CountPending :: bool
  sr_Channel :: string

record keysetCursor =
  cur_CreatedAt :: int
  cur_ID :: int

section \<open>Helpers\<close>

definition mapDBError :: "go_error \<Rightarrow> go_error" where
  "mapDBError err =
     (if errors_is err SqlErrNoRows then ErrNotFound
      else case errors_as_pg err of
        Some code \<Rightarrow> if code = ''22P02'' then ErrInvalidInput else if code = ''23503'' then ErrNotFound else err
      | None \<Rightarrow> err)"

text \<open>\<open>jsonText\<close> on the two kinds of values the callers pass; the fallbacks are the empty array and object.\<close>

definition jsonText_strings :: "string list \<Rightarrow> json" where
  "jsonText_strings xs = JArr (map JStr xs)"

definition jsonText_map :: "(string \<times> json) list \<Rightarrow> json" where
  "jsonText_map ms = JObj ms"

definition scanNote :: "note_row \<Rightarrow> Note" where
  "scanNote n = note_row.extend n (Note.fields False False None [])"

definition scanComment :: "comment_row \<Rightarrow> NoteComment" where
  "scanComment c =
     \<lparr>nc_ID = c_id c, nc_NoteID = c_note_id c, nc_UserID = c_user_id c, nc_ParentID = c_parent_id c,
      nc_RootID = c_root_id c, nc_Content = c_content c, nc_LikeCount = c_like_count c, nc_ReplyCount = c_reply_count c,
      nc_Sentiment = coalesce (c_sentiment c), nc_Intent = coalesce (c_intent c), nc_TopicID = c_topic_id c,
      nc_Status = c_status c, nc_CreatedAt = c_created_at c, nc_UpdatedAt = c_updated_at c\<rparr>"

text \<open>\<open>insertIdempotent\<close> runs an \<open>INSERT ... ON CONFLICT DO NOTHING\<close> or a \<open>DELETE\<close>, both \<open>RETURNING true\<close>.\<close>

definition insertIdempotent :: "(int \<Rightarrow> store \<Rightarrow> go_error + bool \<times> store) \<Rightarrow> bool sm" where
  "insertIdempotent f = or_no_rows False (execE f)"

definition readMaterializedCount :: "(store \<Rightarrow> int option) \<Rightarrow> int sm" where
  "readMaterializedCount f = query_row f"

definition is_published :: "int \<Rightarrow> note_row \<Rightarrow> bool" where
  "is_published noteID n = (n_id n = noteID \<and> n_status n = ''published'')"

definition publishedNoteProjectID :: "int \<Rightarrow> int sm" where
  "publishedNoteProjectID noteID =
     mapErr mapDBError (query_row (\<lambda>t. map_option n_project_id (find (is_published noteID) (all_notes t))))"

definition noteProjectID :: "int \<Rightarrow> int sm" where
  "noteProjectID noteID =
     mapErr mapDBError (query_row (\<lambda>t. map_option n_project_id (find (\<lambda>n. n_id n = noteID) (all_notes t))))"

definition enqueue :: "ctx \<Rightarrow> string \<Rightarrow> int \<Rightarrow> string \<Rightarrow> (string \<times> json) list \<Rightarrow> unit sm" where
  "enqueue c aggregateType aggregateID eventType payload =
     mapErr mapDBError (EnqueueTx c (event_input aggregateType aggregateID eventType payload))"

section \<open>Authors and viewer states\<close>

definition author_summary :: "user_row \<Rightarrow> AuthorSummary" where
  "author_summary u = \<lparr>au_ID = u_id u, au_Username = u_username u, au_Nickname = coalesce (u_nickname u),
     au_AvatarURL = coalesce (u_avatar_url u)\<rparr>"

definition attachAuthors :: "Note list \<Rightarrow> Note list sm" where
  "attachAuthors ns =
     (if ns = [] then returnE []
      else mapErr mapDBError (selectE (\<lambda>t. map (\<lambda>n.
        case find (\<lambda>u. u_id u = n_author_id n) (users t) of
          None \<Rightarrow> n | Some u \<Rightarrow> n\<lparr>Author := Some (author_summary u)\<rparr>) ns)))"

definition liked_by :: "store \<Rightarrow> int \<Rightarrow> int \<Rightarrow> bool" where
  "liked_by t noteID userID = exists_row (\<lambda>l. l_note_id l = noteID \<and> l_user_id l = userID) (note_likes t)"

definition collected_by :: "store \<Rightarrow> int \<Rightarrow> int \<Rightarrow> bool" where
  "collected_by t noteID userID = exists_row (\<lambda>l. cl_note_id l = noteID \<and> cl_user_id l = userID) (note_collects t)"

definition attachViewerStates :: "int \<Rightarrow> Note list \<Rightarrow> Note list sm" where
  "attachViewerStates viewerID ns =
     (if viewerID \<le> 0 \<or> ns = [] then returnE ns
      else mapErr mapDBError (selectE (\<lambda>t. map (\<lambda>n.
        n\<lparr>ViewerLiked := liked_by t (n_id n) viewerID, ViewerCollected := collected_by t (n_id n) viewerID\<rparr>) ns)))"

definition GetViewerState :: "int \<Rightarrow> int \<Rightarrow> (bool \<times> bool) sm" where
  "GetViewerState noteID userID = mapErr mapDBError (selectE (\<lambda>t. (liked_by t noteID userID, collected_by t noteID userID)))"

section \<open>Reading notes\<close>

definition listMedia :: "int \<Rightarrow> media_row list sm" where
  "listMedia noteID = mapErr mapDBError (selectE (\<lambda>t.
     sort_key (\<lambda>m. (md_position m, md_id m)) (filter (\<lambda>m. md_note_id m = noteID) (note_media t))))"

definition GetNote :: "int \<Rightarrow> Note sm" where
  "GetNote noteID =
     bindE (mapErr mapDBError (query_row (\<lambda>t. map_option scanNote (find (is_published noteID) (all_notes t))))) (\<lambda>note.
     bindE (listMedia noteID) (\<lambda>media.
     bindE (attachAuthors [note\<lparr>Media := media\<rparr>]) (\<lambda>ns.
     returnE (hd ns))))"

definition active_member :: "store \<Rightarrow> int \<Rightarrow> int \<Rightarrow> bool" where
  "active_member t projectID userID =
     exists_row (\<lambda>m. m_project_id m = projectID \<and> m_user_id m = userID \<and> m_status m = ''active'') (project_members t)"

definition readable :: "store \<Rightarrow> int \<Rightarrow> note_row \<Rightarrow> bool" where
  "readable t userID n = (n_visibility n = ''public'' \<or> active_member t (n_project_id n) userID)"

definition CanReadNote :: "int \<Rightarrow> int \<Rightarrow> bool sm" where
  "CanReadNote noteID userID =
     mapErr mapDBError (query_row (\<lambda>t. map_option (readable t userID) (find (is_published noteID) (all_notes t))))"

definition CanWriteProject :: "int \<Rightarrow> int \<Rightarrow> bool sm" where
  "CanWriteProject projectID userID = mapErr mapDBError (selectE (\<lambda>t.
     exists_row (\<lambda>p. p_id p = projectID \<and> p_status p = ''active'') (projects t) \<and>
     exists_row (\<lambda>m. m_project_id m = projectID \<and> m_user_id m = userID \<and> m_status m = ''active'' \<and>
        m_role m \<in> set [''owner'', ''admin'', ''member'']) (project_members t)))"

text \<open>\<open>LEFT(body, n)\<close>: the first characters.\<close>

fun left_chars :: "nat \<Rightarrow> string \<Rightarrow> string" where
  "left_chars 0 s = []"
| "left_chars (Suc n) s =
     (if s = [] then [] else let k = snd (DecodeRune s) in take k s @ left_chars n (drop k s))"

definition summary_row :: "note_row \<Rightarrow> note_row" where
  "summary_row n = n\<lparr>n_body := left_chars 600 (n_body n)\<rparr>"

definition list_filter :: "(string \<Rightarrow> string \<Rightarrow> bool) \<Rightarrow> ListNotesInput \<Rightarrow> store \<Rightarrow> note_row \<Rightarrow> bool" where
  "list_filter ilike input t n =
     (n_status n = ''published'' \<and>
      (ln_Category input = [] \<or> n_category n = ln_Category input) \<and>
      (ln_ProjectID input = 0 \<or> n_project_id n = ln_ProjectID input) \<and>
      (let pat = ''%%'' @ ln_Query input @ ''%%'' in
       ln_Query input = [] \<or> ilike (n_title n) pat \<or> ilike (n_body n) pat) \<and>
      readable t (ln_ViewerID input) n)"

definition newest_first :: "note_row list \<Rightarrow> note_row list" where
  "newest_first rows = sort_key (\<lambda>n. (- n_created_at n, - n_id n)) rows"

definition before_cursor :: "keysetCursor \<Rightarrow> int \<times> int \<Rightarrow> bool" where
  "before_cursor cursor k = (fst k < cur_CreatedAt cursor \<or> fst k = cur_CreatedAt cursor \<and> snd k < cur_ID cursor)"

definition ListNotes ::
  "(string \<Rightarrow> string \<Rightarrow> bool) \<Rightarrow> ListNotesInput \<Rightarrow> keysetCursor \<Rightarrow> (Note list \<times> bool) sm" where
  "ListNotes ilike input cursor =
     bindE (mapErr mapDBError (selectE (\<lambda>t.
       map (scanNote \<circ> summary_row) (take (nat (ln_Limit input + 1)) (newest_first
         (filter (\<lambda>n. list_filter ilike input t n \<and>
            (ln_Cursor input = [] \<or> before_cursor cursor (n_created_at n, n_id n))) (all_notes t))))))) (\<lambda>ns.
     let hasMore = int (length ns) > ln_Limit input;
         page = (if hasMore then take (nat (ln_Limit input)) ns else ns) in
     bindE (attachAuthors page) (\<lambda>page.
     bindE (attachViewerStates (ln_ViewerID input) page) (\<lambda>page.
     returnE (page, hasMore))))"

definition GetNotesByIDs :: "int list \<Rightarrow> int \<Rightarrow> Note list sm" where
  "GetNotesByIDs ids viewerID =
     (if ids = [] then returnE []
      else bindE (mapErr mapDBError (selectE (\<lambda>t. map (scanNote \<circ> summary_row)
             (filter (\<lambda>n. n_id n \<in> set ids \<and> n_status n = ''published'' \<and> readable t viewerID n) (all_notes t))))) (\<lambda>ns.
           bindE (attachAuthors ns) (\<lambda>ns. attachViewerStates viewerID ns)))"

definition ListComments :: "int \<Rightarrow> ListCommentsInput \<Rightarrow> keysetCursor \<Rightarrow> (NoteComment list \<times> bool) sm" where
  "ListComments noteID input cursor =
     bindE (mapErr mapDBError (selectE (\<lambda>t.
       map scanComment (take (nat (lc_Limit input + 1)) (sort_key (\<lambda>c. (- c_created_at c, - c_id c))
         (filter (\<lambda>c. c_note_id c = noteID \<and> c_status c = 1 \<and>
            (lc_Cursor input = [] \<or> before_cursor cursor (c_created_at c, c_id c))) (note_comments t))))))) (\<lambda>cs.
     let hasMore = int (length cs) > lc_Limit input in
     returnE (if hasMore then take (nat (lc_Limit input)) cs else cs, hasMore))"

definition GetNoteOwner :: "int \<Rightarrow> int sm" where
  "GetNoteOwner noteID = mapErr mapDBError (query_row (\<lambda>t. map_option n_author_id (find (\<lambda>n. n_id n = noteID) (all_notes t))))"

definition GetCommentOwner :: "int \<Rightarrow> int sm" where
  "GetCommentOwner commentID = mapErr mapDBError (query_row (\<lambda>t.
     map_option c_user_id (find (\<lambda>c. c_id c = commentID \<and> c_status c = 1) (note_comments t))))"

record NoteRankingStats =
  rs_Category :: string
  rs_HotScore :: int

definition hot_score_of :: "int \<Rightarrow> int \<Rightarrow> int \<Rightarrow> int \<Rightarrow> int \<Rightarrow> int" where
  "hot_score_of views likes collects comments shares = views + likes * 3 + collects * 8 + comments * 6 + shares * 5"

definition GetNoteRankingStats :: "int \<Rightarrow> NoteRankingStats sm" where
  "GetNoteRankingStats noteID = mapErr mapDBError (query_row (\<lambda>t. map_option (\<lambda>n.
     \<lparr>rs_Category = n_category n, rs_HotScore = hot_score_of (n_view_count n) (n_like_count n) (n_collect_count n)
        (n_comment_count n) (n_share_count n)\<rparr>) (find (is_published noteID) (all_notes t))))"

record CommentRankingInfo =
  ri_NoteID :: int
  ri_LikeCount :: int

definition GetCommentRankingInfo :: "int \<Rightarrow> CommentRankingInfo sm" where
  "GetCommentRankingInfo commentID = mapErr mapDBError (query_row (\<lambda>t. map_option (\<lambda>c.
     \<lparr>ri_NoteID = c_note_id c, ri_LikeCount = c_like_count c\<rparr>)
     (find (\<lambda>c. c_id c = commentID \<and> c_status c = 1) (note_comments t))))"

section \<open>Writing notes\<close>

definition new_note_row :: "CreateNoteInput \<Rightarrow> int \<Rightarrow> int \<Rightarrow> note_row" where
  "new_note_row input i now =
     \<lparr>n_id = i, n_project_id = cn_ProjectID input, n_author_id = cn_AuthorID input, n_title = cn_Title input,
      n_body = cn_Body input, n_category = cn_Category input, n_topics = jsonText_strings (cn_Topics input),
      n_tags = jsonText_strings (cn_Tags input), n_location = jsonText_map (cn_Location input),
      n_product_entities = jsonText_strings (cn_ProductEntities input), n_note_type = ''image_text'',
      n_view_count = 0, n_like_count = 0, n_collect_count = 0, n_comment_count = 0, n_share_count = 0,
      n_hot_score = 0, n_quality_score = 0, n_status = ''published'', n_visibility = cn_Visibility input,
      n_content_version = 1, n_deleted_at = None, n_created_at = now, n_updated_at = now\<rparr>"

definition user_exists :: "int \<Rightarrow> store \<Rightarrow> bool" where
  "user_exists i t = exists_row (\<lambda>u. u_id u = i) (users t)"

definition note_exists :: "int \<Rightarrow> store \<Rightarrow> bool" where
  "note_exists i t = exists_row (\<lambda>n. n_id n = i) (all_notes t)"

definition comment_exists :: "int \<Rightarrow> store \<Rightarrow> bool" where
  "comment_exists i t = exists_row (\<lambda>c. c_id c = i) (note_comments t)"

definition insert_note :: "CreateNoteInput \<Rightarrow> note_row sm" where
  "insert_note input = insert_serial ''notes'' (\<lambda>i now t.
     if \<not> exists_row (\<lambda>p. p_id p = cn_ProjectID input) (projects t) \<or> \<not> user_exists (cn_AuthorID input) t
     then Inl fk_violation
     else let row = new_note_row input i now in Inr (row, t\<lparr>all_notes := all_notes t @ [row]\<rparr>))"

definition insert_media :: "int \<Rightarrow> CreateNoteMediaInput \<Rightarrow> media_row sm" where
  "insert_media noteID m = insert_serial ''note_media'' (\<lambda>i now t.
     if \<not> note_exists noteID t then Inl fk_violation
     else let row = \<lparr>md_id = i, md_note_id = noteID, md_media_type = cm_MediaType m, md_url = cm_URL m,
            md_caption = cm_Caption m, md_ocr_text = cm_OCRText m, md_position = cm_Position m,
            md_metadata = jsonText_map (cm_Metadata m), md_created_at = now\<rparr>
          in Inr (row, t\<lparr>note_media := note_media t @ [row]\<rparr>))"

fun insert_all_media :: "int \<Rightarrow> CreateNoteMediaInput list \<Rightarrow> media_row list sm" where
  "insert_all_media noteID [] = returnE []"
| "insert_all_media noteID (m # ms) =
     bindE (mapErr mapDBError (insert_media noteID m)) (\<lambda>row.
     bindE (insert_all_media noteID ms) (\<lambda>rows. returnE (row # rows)))"

definition CreateNote_body :: "ctx \<Rightarrow> CreateNoteInput \<Rightarrow> Note tx_result sm" where
  "CreateNote_body c input =
     bindE (mapErr mapDBError (insert_note input)) (\<lambda>row.
     bindE (insert_all_media (n_id row) (cn_Media input)) (\<lambda>media.
     bindE (enqueue c ''note'' (n_id row) ''note.created''
       [(''category'', JStr (n_category row)), (''note_id'', JInt (n_id row)),
        (''project_id'', JInt (cn_ProjectID input)), (''user_id'', JInt (cn_AuthorID input))]) (\<lambda>_.
     returnE (Commit ((scanNote row)\<lparr>Media := media\<rparr>)))))"

definition CreateNote :: "ctx \<Rightarrow> CreateNoteInput \<Rightarrow> Note sm" where
  "CreateNote c input =
     bindE (in_tx (WrapError ''begin create note'') (WrapError ''commit create note'') (CreateNote_body c input)) (\<lambda>note.
     bindE (catchE (attachAuthors [note])) (\<lambda>r.
     returnE (case r of Inl _ \<Rightarrow> note | Inr ns \<Rightarrow> hd ns)))"

definition RecordNoteView_body :: "ctx \<Rightarrow> int \<Rightarrow> int \<Rightarrow> unit tx_result sm" where
  "RecordNoteView_body c noteID userID =
     bindE (publishedNoteProjectID noteID) (\<lambda>projectID.
     bindE (enqueue c ''note'' noteID ''note.viewed''
       [(''note_id'', JInt noteID), (''project_id'', JInt projectID), (''user_id'', JInt userID)]) (\<lambda>_.
     returnE (Commit ())))"

definition RecordNoteView :: "ctx \<Rightarrow> int \<Rightarrow> int \<Rightarrow> unit sm" where
  "RecordNoteView c noteID userID =
     (if userID \<le> 0 then returnE ()
      else in_tx (WrapError ''begin note view'') id (RecordNoteView_body c noteID userID))"

definition update_note_columns :: "UpdateNoteInput \<Rightarrow> int \<Rightarrow> note_row \<Rightarrow> note_row" where
  "update_note_columns input now n =
     n\<lparr>n_title := (case un_Title input of None \<Rightarrow> n_title n | Some x \<Rightarrow> x),
       n_body := (case un_Body input of None \<Rightarrow> n_body n | Some x \<Rightarrow> x),
       n_category := (case un_Category input of None \<Rightarrow> n_category n | Some x \<Rightarrow> x),
       n_content_version := n_content_version n + 1,
       n_updated_at := now\<rparr>"

definition UpdateNote_body :: "ctx \<Rightarrow> int \<Rightarrow> UpdateNoteInput \<Rightarrow> Note tx_result sm" where
  "UpdateNote_body c noteID input =
     bindE (mapErr mapDBError (update_returning all_notes (\<lambda>rows. all_notes_update (\<lambda>_. rows)) (is_published noteID)
       (\<lambda>now t n. enforce_note_content_version n (update_note_columns input now n)) scanNote)) (\<lambda>note.
     bindE (enqueue c ''note'' noteID ''note.updated''
       [(''content_version'', JInt (n_content_version note)), (''note_id'', JInt noteID),
        (''project_id'', JInt (n_project_id note)), (''user_id'', JInt (un_ActorUserID input))]) (\<lambda>_.
     returnE (Commit note)))"

definition UpdateNote :: "ctx \<Rightarrow> int \<Rightarrow> UpdateNoteInput \<Rightarrow> Note sm" where
  "UpdateNote c noteID input =
     bindE (in_tx (WrapError ''begin update note'') (WrapError ''commit update note'') (UpdateNote_body c noteID input)) (\<lambda>note.
     bindE (listMedia noteID) (\<lambda>media.
     bindE (catchE (attachAuthors [note\<lparr>Media := media\<rparr>])) (\<lambda>r.
     returnE (case r of Inl _ \<Rightarrow> note\<lparr>Media := media\<rparr> | Inr ns \<Rightarrow> hd ns))))"

definition delete_note_columns :: "int \<Rightarrow> note_row \<Rightarrow> note_row" where
  "delete_note_columns now n =
     n\<lparr>n_status := ''deleted'', n_deleted_at := Some now, n_content_version := n_content_version n + 1, n_updated_at := now\<rparr>"

definition SoftDeleteNote_body :: "ctx \<Rightarrow> int \<Rightarrow> int \<Rightarrow> unit tx_result sm" where
  "SoftDeleteNote_body c noteID actorUserID =
     bindE (mapErr mapDBError (update_returning all_notes (\<lambda>rows. all_notes_update (\<lambda>_. rows))
       (\<lambda>n. n_id n = noteID \<and> n_status n \<noteq> ''deleted'')
       (\<lambda>now t n. enforce_note_content_version n (delete_note_columns now n))
       (\<lambda>n. (n_project_id n, n_content_version n)))) (\<lambda>(projectID, contentVersion).
     bindE (enqueue c ''note'' noteID ''note.deleted''
       [(''content_version'', JInt contentVersion), (''note_id'', JInt noteID),
        (''project_id'', JInt projectID), (''user_id'', JInt actorUserID)]) (\<lambda>_.
     returnE (Commit ())))"

definition SoftDeleteNote :: "ctx \<Rightarrow> int \<Rightarrow> int \<Rightarrow> unit sm" where
  "SoftDeleteNote c noteID actorUserID =
     in_tx (WrapError ''begin soft delete note'') id (SoftDeleteNote_body c noteID actorUserID)"

definition UpdateNoteHotScore :: "int \<Rightarrow> int \<Rightarrow> int sm" where
  "UpdateNoteHotScore noteID hotScore =
     mapErr mapDBError (update_returning all_notes (\<lambda>rows. all_notes_update (\<lambda>_. rows)) (is_published noteID)
       (\<lambda>now t n. n\<lparr>n_hot_score := hotScore, n_updated_at := now\<rparr>) n_hot_score)"

section \<open>Likes, collects and shares\<close>

definition insert_like :: "int \<Rightarrow> int \<Rightarrow> int \<Rightarrow> store \<Rightarrow> go_error + bool \<times> store" where
  "insert_like noteID userID now t =
     (if liked_by t noteID userID then Inl SqlErrNoRows
      else if \<not> note_exists noteID t \<or> \<not> user_exists userID t then Inl fk_violation
      else Inr (True, t\<lparr>note_likes := note_likes t @
        [\<lparr>l_note_id = noteID, l_user_id = userID, l_created_at = now\<rparr>]\<rparr>))"

definition insert_collect :: "int \<Rightarrow> int \<Rightarrow> string \<Rightarrow> int \<Rightarrow> store \<Rightarrow> go_error + bool \<times> store" where
  "insert_collect noteID userID name now t =
     (if collected_by t noteID userID then Inl SqlErrNoRows
      else if \<not> note_exists noteID t \<or> \<not> user_exists userID t then Inl fk_violation
      else Inr (True, t\<lparr>note_collects := note_collects t @
        [\<lparr>cl_note_id = noteID, cl_user_id = userID, cl_collection_name = nullif_empty name, cl_created_at = now\<rparr>]\<rparr>))"

definition note_count :: "(note_row \<Rightarrow> int) \<Rightarrow> int \<Rightarrow> int sm" where
  "note_count column noteID = readMaterializedCount (\<lambda>t. map_option column (find (\<lambda>n. n_id n = noteID) (all_notes t)))"

definition action_result :: "int \<Rightarrow> int \<Rightarrow> bool \<Rightarrow> int \<Rightarrow> string \<Rightarrow> IdempotentActionResult" where
  "action_result resourceID userID applied n action =
     \<lparr>ResourceID = resourceID, ActionUserID = userID, Applied = applied, Count = n, CountPending = applied, Action = action\<rparr>"

text \<open>\<open>if applied { EnqueueTx(...) }\<close>\<close>

definition if_applied :: "bool \<Rightarrow> unit sm \<Rightarrow> unit sm" where
  "if_applied b m = (if b then m else returnE ())"

definition LikeNote_body :: "ctx \<Rightarrow> int \<Rightarrow> int \<Rightarrow> IdempotentActionResult tx_result sm" where
  "LikeNote_body c noteID userID =
     bindE (publishedNoteProjectID noteID) (\<lambda>projectID.
     bindE (mapErr mapDBError (insertIdempotent (insert_like noteID userID))) (\<lambda>applied.
     bindE (mapErr mapDBError (note_count n_like_count noteID)) (\<lambda>count.
     bindE (if_applied applied (enqueue c ''note'' noteID ''note.liked''
       [(''note_id'', JInt noteID), (''project_id'', JInt projectID), (''user_id'', JInt userID)])) (\<lambda>_.
     returnE (Commit (action_result noteID userID applied count ''like_note''))))))"

definition LikeNote :: "ctx \<Rightarrow> int \<Rightarrow> int \<Rightarrow> IdempotentActionResult sm" where
  "LikeNote c noteID userID =
     in_tx (WrapError ''begin like note'') (WrapError ''commit like note'') (LikeNote_body c noteID userID)"

definition CollectNote_body :: "ctx \<Rightarrow> int \<Rightarrow> int \<Rightarrow> string \<Rightarrow> IdempotentActionResult tx_result sm" where
  "CollectNote_body c noteID userID collectionName =
     bindE (publishedNoteProjectID noteID) (\<lambda>projectID.
     bindE (mapErr mapDBError (insertIdempotent (insert_collect noteID userID collectionName))) (\<lambda>applied.
     bindE (mapErr mapDBError (note_count n_collect_count noteID)) (\<lambda>count.
     bindE (if_applied applied (enqueue c ''note'' noteID ''note.collected''
       [(''collection_name'', JStr collectionName), (''note_id'', JInt noteID), (''project_id'', JInt projectID),
        (''user_id'', JInt userID)])) (\<lambda>_.
     returnE (Commit (action_result noteID userID applied count ''collect_note''))))))"

definition CollectNote :: "ctx \<Rightarrow> int \<Rightarrow> int \<Rightarrow> string \<Rightarrow> IdempotentActionResult sm" where
  "CollectNote c noteID userID collectionName =
     in_tx (WrapError ''begin collect note'') (WrapError ''commit collect note'') (CollectNote_body c noteID userID collectionName)"

definition insert_share :: "int \<Rightarrow> int \<Rightarrow> string \<Rightarrow> int sm" where
  "insert_share noteID userID channel = insert_serial ''note_shares'' (\<lambda>i now t.
     if \<not> note_exists noteID t \<or> \<not> user_exists userID t then Inl fk_violation
     else Inr (i, t\<lparr>note_shares := note_shares t @ [\<lparr>sh_id = i, sh_note_id = noteID, sh_user_id = userID,
            sh_channel = channel, sh_created_at = now\<rparr>]\<rparr>))"

definition ShareNote_body :: "ctx \<Rightarrow> int \<Rightarrow> int \<Rightarrow> string \<Rightarrow> ShareNoteResult tx_result sm" where
  "ShareNote_body c noteID userID channel =
     bindE (publishedNoteProjectID noteID) (\<lambda>projectID.
     bindE (mapErr mapDBError (insert_share noteID userID channel)) (\<lambda>shareID.
     bindE (mapErr mapDBError (note_count n_share_count noteID)) (\<lambda>shareCount.
     bindE (enqueue c ''note'' noteID ''note.shared''
       [(''channel'', JStr channel), (''note_id'', JInt noteID), (''project_id'', JInt projectID),
        (''share_id'', JInt shareID), (''user_id'', JInt userID)]) (\<lambda>_.
     returnE (Commit \<lparr>sr_NoteID = noteID, sr_UserID = userID, sr_ShareID = shareID, sr_ShareCount = shareCount,
       sr_CountPending = True, sr_Channel = channel\<rparr>)))))"

definition ShareNote :: "ctx \<Rightarrow> int \<Rightarrow> int \<Rightarrow> string \<Rightarrow> ShareNoteResult sm" where
  "ShareNote c noteID userID channel =
     in_tx (WrapError ''begin share note'') (WrapError ''commit share note'') (ShareNote_body c noteID userID channel)"

text \<open>The two tables and the two counters \<open>removeNoteInteraction\<close> is called with.\<close>

definition delete_interaction :: "string \<Rightarrow> int \<Rightarrow> int \<Rightarrow> int \<Rightarrow> store \<Rightarrow> go_error + bool \<times> store" where
  "delete_interaction table noteID userID now t =
     (if table = ''note_likes'' then
        (if \<not> liked_by t noteID userID then Inl SqlErrNoRows
         else Inr (True, t\<lparr>note_likes := filter (\<lambda>l. \<not> (l_note_id l = noteID \<and> l_user_id l = userID)) (note_likes t)\<rparr>))
      else
        (if \<not> collected_by t noteID userID then Inl SqlErrNoRows
         else Inr (True, t\<lparr>note_collects := filter (\<lambda>l. \<not> (cl_note_id l = noteID \<and> cl_user_id l = userID)) (note_collects t)\<rparr>)))"

definition count_column :: "string \<Rightarrow> note_row \<Rightarrow> int" where
  "count_column column = (if column = ''like_count'' then n_like_count else n_collect_count)"

definition removeNoteInteraction_body ::
  "ctx \<Rightarrow> int \<Rightarrow> int \<Rightarrow> string \<Rightarrow> string \<Rightarrow> string \<Rightarrow> string \<Rightarrow> IdempotentActionResult tx_result sm" where
  "removeNoteInteraction_body c noteID userID table eventType action column =
     bindE (publishedNoteProjectID noteID) (\<lambda>projectID.
     bindE (mapErr mapDBError (insertIdempotent (delete_interaction table noteID userID))) (\<lambda>applied.
     bindE (mapErr mapDBError (note_count (count_column column) noteID)) (\<lambda>count.
     bindE (if_applied applied (enqueue c ''note'' noteID eventType
       [(''note_id'', JInt noteID), (''project_id'', JInt projectID), (''user_id'', JInt userID)])) (\<lambda>_.
     returnE (Commit (action_result noteID userID applied count action))))))"

definition removeNoteInteraction ::
  "ctx \<Rightarrow> int \<Rightarrow> int \<Rightarrow> string \<Rightarrow> string \<Rightarrow> string \<Rightarrow> string \<Rightarrow> IdempotentActionResult sm" where
  "removeNoteInteraction c noteID userID table eventType action column =
     in_tx (WrapError (''begin '' @ action)) (WrapError (''commit '' @ action))
       (removeNoteInteraction_body c noteID userID table eventType action column)"

definition UnlikeNote :: "ctx \<Rightarrow> int \<Rightarrow> int \<Rightarrow> IdempotentActionResult sm" where
  "UnlikeNote c noteID userID =
     removeNoteInteraction c noteID userID ''note_likes'' ''note.unliked'' ''unlike_note'' ''like_count''"

definition UncollectNote :: "ctx \<Rightarrow> int \<Rightarrow> int \<Rightarrow> IdempotentActionResult sm" where
  "UncollectNote c noteID userID =
     removeNoteInteraction c noteID userID ''note_collects'' ''note.uncollected'' ''uncollect_note'' ''collect_count''"

section \<open>Comments\<close>

definition live_comment :: "int \<Rightarrow> comment_row \<Rightarrow> bool" where
  "live_comment commentID c = (c_id c = commentID \<and> c_status c = 1)"

definition parent_root :: "int \<Rightarrow> int \<Rightarrow> int sm" where
  "parent_root parentID noteID = mapErr mapDBError (query_row (\<lambda>t.
     map_option (\<lambda>c. if c_root_id c = 0 then c_id c else c_root_id c)
       (find (\<lambda>c. c_id c = parentID \<and> c_note_id c = noteID \<and> c_status c = 1) (note_comments t))))"

definition insert_comment :: "int \<Rightarrow> CreateCommentInput \<Rightarrow> int \<Rightarrow> comment_row sm" where
  "insert_comment noteID input rootID = insert_serial ''note_comments'' (\<lambda>i now t.
     if \<not> note_exists noteID t \<or> \<not> user_exists (cc_UserID input) t then Inl fk_violation
     else let row = \<lparr>c_id = i, c_note_id = noteID, c_user_id = cc_UserID input, c_parent_id = cc_ParentID input,
            c_root_id = rootID, c_content = cc_Content input, c_like_count = 0, c_reply_count = 0, c_sentiment = None,
            c_intent = nullif_empty (cc_Intent input), c_topic_id = 0, c_status = 1, c_content_version = 1,
            c_deleted_at = None, c_created_at = now, c_updated_at = now\<rparr>
          in Inr (row, t\<lparr>note_comments := note_comments t @ [row]\<rparr>))"

definition CreateComment_body :: "ctx \<Rightarrow> int \<Rightarrow> CreateCommentInput \<Rightarrow> NoteComment tx_result sm" where
  "CreateComment_body c noteID input =
     bindE (publishedNoteProjectID noteID) (\<lambda>projectID.
     bindE (if cc_ParentID input > 0 then parent_root (cc_ParentID input) noteID else returnE 0) (\<lambda>rootID.
     bindE (mapErr mapDBError (insert_comment noteID input rootID)) (\<lambda>row.
     bindE (enqueue c ''comment'' (c_id row) ''comment.created''
       [(''comment_id'', JInt (c_id row)), (''intent'', JStr (cc_Intent input)), (''note_id'', JInt noteID),
        (''parent_id'', JInt (cc_ParentID input)), (''project_id'', JInt projectID), (''user_id'', JInt (cc_UserID input))]) (\<lambda>_.
     returnE (Commit (scanComment row))))))"

definition CreateComment :: "ctx \<Rightarrow> int \<Rightarrow> CreateCommentInput \<Rightarrow> NoteComment sm" where
  "CreateComment c noteID input =
     in_tx (WrapError ''begin create comment'') (WrapError ''commit create comment'') (CreateComment_body c noteID input)"

definition comment_liked_by :: "store \<Rightarrow> int \<Rightarrow> int \<Rightarrow> bool" where
  "comment_liked_by t commentID userID = exists_row (\<lambda>l. k_comment_id l = commentID \<and> k_user_id l = userID) (note_comment_likes t)"

definition insert_comment_like :: "int \<Rightarrow> int \<Rightarrow> int \<Rightarrow> store \<Rightarrow> go_error + bool \<times> store" where
  "insert_comment_like commentID userID now t =
     (if comment_liked_by t commentID userID then Inl SqlErrNoRows
      else if \<not> comment_exists commentID t \<or> \<not> user_exists userID t then Inl fk_violation
      else Inr (True, t\<lparr>note_comment_likes := note_comment_likes t @
        [\<lparr>k_comment_id = commentID, k_user_id = userID, k_created_at = now\<rparr>]\<rparr>))"

definition comment_note_project :: "int \<Rightarrow> (int \<times> int) sm" where
  "comment_note_project commentID = mapErr mapDBError (query_row (\<lambda>t.
     case find (live_comment commentID) (note_comments t) of
       None \<Rightarrow> None
     | Some c \<Rightarrow> map_option (\<lambda>n. (c_note_id c, n_project_id n)) (find (\<lambda>n. n_id n = c_note_id c) (all_notes t))))"

definition LikeComment_body :: "ctx \<Rightarrow> int \<Rightarrow> int \<Rightarrow> IdempotentActionResult tx_result sm" where
  "LikeComment_body c commentID userID =
     bindE (mapErr mapDBError (insertIdempotent (insert_comment_like commentID userID))) (\<lambda>applied.
     bindE (mapErr mapDBError (readMaterializedCount (\<lambda>t. map_option c_like_count (find (live_comment commentID) (note_comments t))))) (\<lambda>count.
     bindE (if_applied applied (bindE (comment_note_project commentID) (\<lambda>(noteID, projectID).
       enqueue c ''comment'' commentID ''comment.liked''
         [(''comment_id'', JInt commentID), (''note_id'', JInt noteID), (''project_id'', JInt projectID),
          (''user_id'', JInt userID)]))) (\<lambda>_.
     returnE (Commit (action_result commentID userID applied count ''like_comment'')))))"

definition LikeComment :: "ctx \<Rightarrow> int \<Rightarrow> int \<Rightarrow> IdempotentActionResult sm" where
  "LikeComment c commentID userID =
     in_tx (WrapError ''begin like comment'') (WrapError ''commit like comment'') (LikeComment_body c commentID userID)"

definition delete_comment_like :: "int \<Rightarrow> int \<Rightarrow> int \<Rightarrow> store \<Rightarrow> go_error + bool \<times> store" where
  "delete_comment_like commentID userID now t =
     (if \<not> comment_liked_by t commentID userID then Inl SqlErrNoRows
      else Inr (True, t\<lparr>note_comment_likes :=
        filter (\<lambda>l. \<not> (k_comment_id l = commentID \<and> k_user_id l = userID)) (note_comment_likes t)\<rparr>))"

definition UnlikeComment_body :: "ctx \<Rightarrow> int \<Rightarrow> int \<Rightarrow> IdempotentActionResult tx_result sm" where
  "UnlikeComment_body c commentID userID =
     bindE (comment_note_project commentID) (\<lambda>(noteID, projectID).
     bindE (mapErr mapDBError (insertIdempotent (delete_comment_like commentID userID))) (\<lambda>applied.
     bindE (mapErr mapDBError (readMaterializedCount (\<lambda>t. map_option c_like_count (find (\<lambda>c. c_id c = commentID) (note_comments t))))) (\<lambda>count.
     bindE (if_applied applied (enqueue c ''comment'' commentID ''comment.unliked''
       [(''comment_id'', JInt commentID), (''note_id'', JInt noteID), (''project_id'', JInt projectID),
        (''user_id'', JInt userID)])) (\<lambda>_.
     returnE (Commit (action_result commentID userID applied count ''unlike_comment''))))))"

definition UnlikeComment :: "ctx \<Rightarrow> int \<Rightarrow> int \<Rightarrow> IdempotentActionResult sm" where
  "UnlikeComment c commentID userID =
     in_tx (WrapError ''begin unlike comment'') (WrapError ''commit unlike comment'') (UnlikeComment_body c commentID userID)"

definition delete_comment_columns :: "int \<Rightarrow> comment_row \<Rightarrow> comment_row" where
  "delete_comment_columns now c = c\<lparr>c_status := 0, c_deleted_at := Some now, c_updated_at := now\<rparr>"

definition SoftDeleteComment_body :: "ctx \<Rightarrow> int \<Rightarrow> int \<Rightarrow> int tx_result sm" where
  "SoftDeleteComment_body c commentID actorUserID =
     bindE (mapErr mapDBError (update_returning note_comments (\<lambda>rows. note_comments_update (\<lambda>_. rows)) (live_comment commentID)
       (\<lambda>now t r. enforce_note_comment_content_version now r (delete_comment_columns now r))
       (\<lambda>r. (c_note_id r, c_parent_id r)))) (\<lambda>(noteID, parentID).
     bindE (noteProjectID noteID) (\<lambda>projectID.
     bindE (enqueue c ''comment'' commentID ''comment.deleted''
       [(''comment_id'', JInt commentID), (''note_id'', JInt noteID), (''parent_id'', JInt parentID),
        (''project_id'', JInt projectID), (''user_id'', JInt actorUserID)]) (\<lambda>_.
     returnE (Commit noteID))))"

definition SoftDeleteComment :: "ctx \<Rightarrow> int \<Rightarrow> int \<Rightarrow> int sm" where
  "SoftDeleteComment c commentID actorUserID =
     in_tx (WrapError ''begin soft delete comment'') (WrapError ''commit soft delete comment'')
       (SoftDeleteComment_body c commentID actorUserID)"

end
