(* ===== verification/Worker_Apply.thy ===== *)
theory Worker_Apply
  imports Note_Repo
begin

text \<open>
  The worker's repository (\<open>internal/worker/repository.go\<close>): one transaction claims the event,
  records the behaviour fact and rebuilds the derived counters from the fact tables.
\<close>

section \<open>Events as they travel\<close>

text \<open>
  \<open>messaging.EventEnvelope\<close>. An empty raw payload is \<open>None\<close>, a zero time is \<open>None\<close>.
\<close>

record EventEnvelope =
  env_EventID :: string
  env_EventType :: string
  env_AggregateType :: string
  env_AggregateID :: int
  env_SchemaVersion :: int
  env_Producer :: string
  env_CorrelationID :: string
  env_TraceID :: string
  env_Payload :: "json option"
  env_OccurredAt :: "int option"

record EventApplication =
  ap_Envelope :: EventEnvelope
  ap_ProjectID :: int
  ap_UserID :: int
  ap_NoteID :: int
  ap_CommentID :: int
  ap_ParentID :: int
  ap_EventType :: string

section \<open>Applying an event\<close>

definition is_processed :: "store \<Rightarrow> string \<Rightarrow> string \<Rightarrow> bool" where
  "is_processed t eventID consumerName =
     exists_row (\<lambda>p. pr_event_id p = eventID \<and> pr_consumer_name p = consumerName) (processed_events t)"

definition claimEvent :: "string \<Rightarrow> string \<Rightarrow> bool sm" where
  "claimEvent eventID consumerName = mapErr (WrapError ''claim processed event'') (or_no_rows False (execE (\<lambda>now t.
     if is_processed t eventID consumerName then Inl SqlErrNoRows
     else Inr (True, t\<lparr>processed_events := processed_events t @
       [\<lparr>pr_event_id = eventID, pr_consumer_name = consumerName, pr_processed_at = now\<rparr>]\<rparr>))))"

definition behavior_fk_ok :: "EventApplication \<Rightarrow> store \<Rightarrow> bool" where
  "behavior_fk_ok input t =
     (exists_row (\<lambda>p. p_id p = ap_ProjectID input) (projects t) \<and> user_exists (ap_UserID input) t \<and>
      (ap_NoteID input = 0 \<or> note_exists (ap_NoteID input) t) \<and>
      (ap_CommentID input = 0 \<or> comment_exists (ap_CommentID input) t))"

definition recordBehavior :: "ctx \<Rightarrow> EventApplication \<Rightarrow> unit sm" where
  "recordBehavior c input =
     (let env = ap_Envelope input;
          occurredAt = (case env_OccurredAt env of None \<Rightarrow> clock_nanos c | Some x \<Rightarrow> x);
          payload = (case env_Payload env of None \<Rightarrow> JObj [] | Some x \<Rightarrow> x) in
      mapErr (WrapError ''record behavior event'') (insert_serial ''behavior_events'' (\<lambda>i now t.
        if exists_row (\<lambda>b. b_source_event_id b = env_EventID env) (behavior_events t) then Inr ((), t)
        else if \<not> behavior_fk_ok input t then Inl fk_violation
        else Inr ((), t\<lparr>behavior_events := behavior_events t @
          [\<lparr>b_id = i, b_source_event_id = env_EventID env, b_project_id = ap_ProjectID input, b_user_id = ap_UserID input,
            b_note_id = nullif_zero (ap_NoteID input), b_comment_id = nullif_zero (ap_CommentID input),
            b_event_type = ap_EventType input, b_payload = payload, b_occurred_at = occurredAt, b_created_at = now\<rparr>]\<rparr>))))"

definition incrementNoteView :: "int \<Rightarrow> unit sm" where
  "incrementNoteView noteID =
     (if noteID \<le> 0 then throwE (ErrorString ''note_id must be positive for note view'')
      else mapErr (WrapError ''increment note view'') (updateE (\<lambda>now t. t\<lparr>all_notes := update_where (is_published noteID)
        (\<lambda>n. n\<lparr>n_view_count := n_view_count n + 1, n_hot_score := n_hot_score n + 1, n_updated_at := now\<rparr>) (all_notes t)\<rparr>)))"

definition count_likes :: "store \<Rightarrow> int \<Rightarrow> int" where
  "count_likes t i = count_where (\<lambda>l. l_note_id l = i) (note_likes t)"

definition count_collects :: "store \<Rightarrow> int \<Rightarrow> int" where
  "count_collects t i = count_where (\<lambda>l. cl_note_id l = i) (note_collects t)"

definition count_comments :: "store \<Rightarrow> int \<Rightarrow> int" where
  "count_comments t i = count_where (\<lambda>c. c_note_id c = i \<and> c_status c = 1) (note_comments t)"

definition count_shares :: "store \<Rightarrow> int \<Rightarrow> int" where
  "count_shares t i = count_where (\<lambda>l. sh_note_id l = i) (note_shares t)"

definition count_comment_likes :: "store \<Rightarrow> int \<Rightarrow> int" where
  "count_comment_likes t i = count_where (\<lambda>l. k_comment_id l = i) (note_comment_likes t)"

definition count_replies :: "store \<Rightarrow> int \<Rightarrow> int" where
  "count_replies t i = count_where (\<lambda>c. c_parent_id c = i \<and> c_status c = 1) (note_comments t)"

definition rebuilt_note :: "int \<Rightarrow> store \<Rightarrow> note_row \<Rightarrow> note_row" where
  "rebuilt_note now t n =
     (let i = n_id n in
      n\<lparr>n_like_count := count_likes t i, n_collect_count := count_collects t i,
        n_comment_count := count_comments t i, n_share_count := count_shares t i,
        n_hot_score := n_view_count n + count_likes t i * 3 + count_collects t i * 8 + count_comments t i * 6 + count_shares t i * 5,
        n_updated_at := now\<rparr>)"

text \<open>The error handling of the two rebuilds: no row is an error of its own.\<close>

definition rebuild_error :: "string \<Rightarrow> string \<Rightarrow> go_error \<Rightarrow> go_error" where
  "rebuild_error missing wrapped e = (if errors_is e SqlErrNoRows then ErrorString missing else WrapError wrapped e)"

definition rebuildNoteCounters :: "int \<Rightarrow> int sm" where
  "rebuildNoteCounters noteID =
     (if noteID \<le> 0 then throwE (ErrorString ''note_id must be positive for note counter rebuild'')
      else mapErr (rebuild_error (''note '' @ FormatInt noteID @ '' not found during counter rebuild'') ''rebuild note counters'')
        (update_returning all_notes (\<lambda>rows. all_notes_update (\<lambda>_. rows)) (\<lambda>n. n_id n = noteID) rebuilt_note n_id))"

definition rebuilt_comment :: "int \<Rightarrow> store \<Rightarrow> comment_row \<Rightarrow> comment_row" where
  "rebuilt_comment now t c =
     c\<lparr>c_like_count := count_comment_likes t (c_id c), c_reply_count := count_replies t (c_id c), c_updated_at := now\<rparr>"

definition rebuildCommentCounters :: "int \<Rightarrow> int sm" where
  "rebuildCommentCounters commentID =
     (if commentID \<le> 0 then throwE (ErrorString ''comment_id must be positive for comment counter rebuild'')
      else mapErr (rebuild_error (''comment '' @ FormatInt commentID @ '' not found during counter rebuild'') ''rebuild comment counters'')
        (update_returning note_comments (\<lambda>rows. note_comments_update (\<lambda>_. rows)) (\<lambda>c. c_id c = commentID) rebuilt_comment c_id))"

definition note_rebuild_types :: "string list" where
  "note_rebuild_types = [''note.created'', ''note.liked'', ''note.unliked'', ''note.collected'', ''note.uncollected'', ''note.shared'']"

definition ignore :: "'a sm \<Rightarrow> unit sm" where
  "ignore m = bindE m (\<lambda>_. returnE ())"

definition rebuildDerivedCounters :: "EventApplication \<Rightarrow> unit sm" where
  "rebuildDerivedCounters input =
     (let ty = env_EventType (ap_Envelope input) in
      if ty \<in> set note_rebuild_types then ignore (rebuildNoteCounters (ap_NoteID input))
      else if ty = ''note.viewed'' then incrementNoteView (ap_NoteID input)
      else if ty \<in> set [''note.updated'', ''note.deleted''] then returnE ()
      else if ty \<in> set [''comment.created'', ''comment.deleted''] then
        bindE (rebuildCommentCounters (ap_CommentID input)) (\<lambda>_.
        bindE (if ap_ParentID input > 0 then ignore (rebuildCommentCounters (ap_ParentID input)) else returnE ()) (\<lambda>_.
        ignore (rebuildNoteCounters (ap_NoteID input))))
      else if ty \<in> set [''comment.liked'', ''comment.unliked''] then ignore (rebuildCommentCounters (ap_CommentID input))
      else returnE ())"

definition ApplyEvent_body :: "ctx \<Rightarrow> string \<Rightarrow> EventApplication \<Rightarrow> bool tx_result sm" where
  "ApplyEvent_body c consumerName input =
     bindE (claimEvent (env_EventID (ap_Envelope input)) consumerName) (\<lambda>inserted.
     if \<not> inserted then returnE (Rollback True)
     else bindE (recordBehavior c input) (\<lambda>_.
          bindE (rebuildDerivedCounters input) (\<lambda>_.
          returnE (Commit False))))"

definition ApplyEvent :: "ctx \<Rightarrow> string \<Rightarrow> EventApplication \<Rightarrow> bool sm" where
  "ApplyEvent c consumerName input =
     in_tx (WrapError ''begin event application'') (WrapError ''commit event application'') (ApplyEvent_body c consumerName input)"

section \<open>The event processor\<close>

record eventPayload =
  pl_ProjectID :: int
  pl_UserID :: int
  pl_NoteID :: int
  pl_CommentID :: int
  pl_ParentID :: int

definition decode_eventPayload :: "json option \<Rightarrow> eventPayload option" where
  "decode_eventPayload p =
     (case p of
        None \<Rightarrow> Some \<lparr>pl_ProjectID = 0, pl_UserID = 0, pl_NoteID = 0, pl_CommentID = 0, pl_ParentID = 0\<rparr>
      | Some v \<Rightarrow>
         (case object_members v of
            None \<Rightarrow> None
          | Some ms \<Rightarrow>
             if list_all (\<lambda>f. int64_field_ok f ms) [''project_id'', ''user_id'', ''note_id'', ''comment_id'', ''parent_id'']
             then Some \<lparr>pl_ProjectID = int64_field ''project_id'' ms, pl_UserID = int64_field ''user_id'' ms,
                pl_NoteID = int64_field ''note_id'' ms, pl_CommentID = int64_field ''comment_id'' ms,
                pl_ParentID = int64_field ''parent_id'' ms\<rparr>
             else None))"

definition behaviorEventType :: "string \<Rightarrow> string" where
  "behaviorEventType eventType =
     (case map_of [(''note.created'', ''note_created''), (''note.updated'', ''note_updated''), (''note.deleted'', ''note_deleted''),
        (''note.viewed'', ''note_viewed''), (''comment.created'', ''comment_created''), (''comment.deleted'', ''comment_deleted''),
        (''note.liked'', ''note_liked''), (''note.unliked'', ''note_unliked''), (''note.collected'', ''note_collected''),
        (''note.uncollected'', ''note_uncollected''), (''note.shared'', ''note_shared''), (''comment.liked'', ''comment_liked''),
        (''comment.unliked'', ''comment_unliked'')] eventType of None \<Rightarrow> eventType | Some x \<Rightarrow> x)"

text \<open>What \<open>Process\<close> hands to the repository, or the error it returns before.\<close>

definition event_application :: "EventEnvelope \<Rightarrow> go_error + EventApplication" where
  "event_application envelope =
     (if env_EventID envelope = [] \<or> env_EventType envelope = [] then Inl (ErrorString ''event_id and event_type are required'')
      else let env = envelope\<lparr>env_SchemaVersion := (if env_SchemaVersion envelope = 0 then 1 else env_SchemaVersion envelope)\<rparr> in
        if env_SchemaVersion env \<noteq> 1
        then Inl (ErrorString (''unsupported event schema version '' @ FormatInt (env_SchemaVersion env)))
        else case decode_eventPayload (env_Payload env) of
            None \<Rightarrow> Inl (WrapError ''decode event payload'' (ErrorString ''json: cannot unmarshal''))
          | Some payload \<Rightarrow>
             if pl_UserID payload \<le> 0 then Inl (ErrorString (''event '' @ env_EventID env @ '' missing user_id''))
             else Inr \<lparr>ap_Envelope = env, ap_ProjectID = pl_ProjectID payload, ap_UserID = pl_UserID payload,
                ap_NoteID = pl_NoteID payload, ap_CommentID = pl_CommentID payload, ap_ParentID = pl_ParentID payload,
                ap_EventType = behaviorEventType (env_EventType env)\<rparr>)"

text \<open>The Redis commands the processor issues are parameters; \<open>'r\<close> is the state of the Redis server.\<close>

record 'r redis_ops =
  redis_Del :: "string list \<Rightarrow> ('r, unit) sem"
  redis_ZAdd :: "string \<Rightarrow> int \<Rightarrow> string \<Rightarrow> ('r, unit) sem"
  redis_ZRem :: "string \<Rightarrow> string \<Rightarrow> ('r, unit) sem"
  redis_ScanKeys :: "string \<Rightarrow> ('r, string list) sem"

type_synonym ('r, 'a) wm = "(store db \<times> 'r, 'a) sem"

definition on_db :: "'a sm \<Rightarrow> ('r, 'a) wm" where
  "on_db m = (\<lambda>(s, r). case m s of (x, s') \<Rightarrow> (x, (s', r)))"

definition on_redis :: "('r, 'a) sem \<Rightarrow> ('r, 'a) wm" where
  "on_redis m = (\<lambda>(s, r). case m r of (x, r') \<Rightarrow> (x, (s, r')))"

definition noteCacheKey :: "int \<Rightarrow> string" where
  "noteCacheKey noteID = ''note:'' @ FormatInt noteID"

definition commentFirstPageCacheKey :: "int \<Rightarrow> string" where
  "commentFirstPageCacheKey noteID = ''note:'' @ FormatInt noteID @ '':comments:first_page:time''"

definition hotCommentsKey :: "int \<Rightarrow> string" where
  "hotCommentsKey noteID = ''note:'' @ FormatInt noteID @ '':hot_comments''"

definition invalidateNoteCache :: "'r redis_ops \<Rightarrow> int \<Rightarrow> ('r, unit) wm" where
  "invalidateNoteCache ops noteID = on_redis (redis_Del ops [noteCacheKey noteID])"

definition invalidateCommentCaches :: "'r redis_ops \<Rightarrow> int \<Rightarrow> ('r, unit) wm" where
  "invalidateCommentCaches ops noteID = on_redis (redis_Del ops [noteCacheKey noteID, commentFirstPageCacheKey noteID])"

definition refreshNoteRanking :: "'r redis_ops \<Rightarrow> int \<Rightarrow> ('r, unit) wm" where
  "refreshNoteRanking ops noteID =
     bindE (on_db (GetNoteRankingStats noteID)) (\<lambda>stats.
     bindE (on_redis (redis_ZAdd ops ''ranking:notes:daily'' (rs_HotScore stats) (FormatInt noteID))) (\<lambda>_.
     if rs_Category stats \<noteq> []
     then on_redis (redis_ZAdd ops (''ranking:notes:'' @ rs_Category stats @ '':daily'') (rs_HotScore stats) (FormatInt noteID))
     else returnE ()))"

fun zrem_all :: "'r redis_ops \<Rightarrow> string \<Rightarrow> string list \<Rightarrow> ('r, unit) wm" where
  "zrem_all ops member [] = returnE ()"
| "zrem_all ops member (k # ks) = bindE (on_redis (redis_ZRem ops k member)) (\<lambda>_. zrem_all ops member ks)"

definition removeNoteRankings :: "'r redis_ops \<Rightarrow> int \<Rightarrow> ('r, unit) wm" where
  "removeNoteRankings ops noteID =
     bindE (on_redis (redis_ZRem ops ''ranking:notes:daily'' (FormatInt noteID))) (\<lambda>_.
     bindE (on_redis (redis_ScanKeys ops ''ranking:notes:*:daily'')) (\<lambda>ks. zrem_all ops (FormatInt noteID) ks))"

definition refreshCommentRanking :: "'r redis_ops \<Rightarrow> int \<Rightarrow> ('r, unit) wm" where
  "refreshCommentRanking ops commentID =
     bindE (on_db (GetCommentRankingInfo commentID)) (\<lambda>info.
     on_redis (redis_ZAdd ops (hotCommentsKey (ri_NoteID info)) (ri_LikeCount info * 5) (FormatInt commentID)))"

definition refreshDerivedData :: "'r redis_ops \<Rightarrow> string \<Rightarrow> eventPayload \<Rightarrow> ('r, unit) wm" where
  "refreshDerivedData ops eventType payload =
     (if eventType \<in> set (''note.updated'' # ''note.viewed'' # note_rebuild_types) then
        (if pl_NoteID payload \<le> 0 then returnE ()
         else bindE (invalidateNoteCache ops (pl_NoteID payload)) (\<lambda>_. refreshNoteRanking ops (pl_NoteID payload)))
      else if eventType = ''note.deleted'' then
        (if pl_NoteID payload \<le> 0 then returnE ()
         else bindE (invalidateNoteCache ops (pl_NoteID payload)) (\<lambda>_. removeNoteRankings ops (pl_NoteID payload)))
      else if eventType \<in> set [''comment.created'', ''comment.deleted''] then
        (if pl_NoteID payload \<le> 0 then returnE ()
         else bindE (invalidateCommentCaches ops (pl_NoteID payload)) (\<lambda>_.
              bindE (if eventType = ''comment.deleted'' \<and> pl_CommentID payload > 0
                     then on_redis (redis_ZRem ops (hotCommentsKey (pl_NoteID payload)) (FormatInt (pl_CommentID payload)))
                     else returnE ()) (\<lambda>_.
              refreshNoteRanking ops (pl_NoteID payload))))
      else if eventType \<in> set [''comment.liked'', ''comment.unliked''] then
        bindE (if pl_NoteID payload > 0 then on_redis (redis_Del ops [commentFirstPageCacheKey (pl_NoteID payload)]) else returnE ()) (\<lambda>_.
        if pl_CommentID payload \<le> 0 then returnE () else refreshCommentRanking ops (pl_CommentID payload))
      else returnE ())"

text \<open>A worker without a Redis client skips the refresh (\<open>None\<close>); a failed refresh is only logged.\<close>

definition Process :: "'r redis_ops option \<Rightarrow> ctx \<Rightarrow> string \<Rightarrow> EventEnvelope \<Rightarrow> ('r, bool) wm" where
  "Process ops c consumerName envelope =
     (case event_application envelope of
        Inl e \<Rightarrow> throwE e
      | Inr input \<Rightarrow>
          bindE (on_db (ApplyEvent c consumerName input)) (\<lambda>alreadyProcessed.
          bindE (catchE (case ops of None \<Rightarrow> returnE ()
             | Some ops \<Rightarrow> refreshDerivedData ops (env_EventType envelope)
                 \<lparr>pl_ProjectID = ap_ProjectID input, pl_UserID = ap_UserID input, pl_NoteID = ap_NoteID input,
                  pl_CommentID = ap_CommentID input, pl_ParentID = ap_ParentID input\<rparr>)) (\<lambda>_.
          returnE alreadyProcessed)))"

end
