(* ===== verification/Base64.thy ===== *)
theory Base64
  imports Go_Strings
begin

text \<open>
  \<open>base64.RawURLEncoding\<close>: the URL alphabet without padding. Decoding skips carriage returns and line
  feeds and, not being strict, ignores the unused bits of the last character.
\<close>

definition enc6 :: "nat \<Rightarrow> char" where
  "enc6 n = (if n < 26 then char_of (65 + n) else if n < 52 then char_of (71 + n)
     else if n < 62 then char_of (n - 4) else if n = 62 then CHR ''-'' else CHR ''_'')"

definition dec6 :: "char \<Rightarrow> nat option" where
  "dec6 c = (let b = byte c in
     if 65 \<le> b \<and> b \<le> 90 then Some (b - 65)
     else if 97 \<le> b \<and> b \<le> 122 then Some (b - 71)
     else if 48 \<le> b \<and> b \<le> 57 then Some (b + 4)
     else if b = 45 then Some 62 else if b = 95 then Some 63 else None)"

fun EncodeToString :: "string \<Rightarrow> string" where
  "EncodeToString [] = []"
| "EncodeToString [a] = [enc6 (byte a div 4), enc6 (byte a mod 4 * 16)]"
| "EncodeToString [a, b] = [enc6 (byte a div 4), enc6 (byte a mod 4 * 16 + byte b div 16), enc6 (byte b mod 16 * 4)]"
| "EncodeToString (a # b # c # s) =
     enc6 (byte a div 4) # enc6 (byte a mod 4 * 16 + byte b div 16) #
     enc6 (byte b mod 16 * 4 + byte c div 64) # enc6 (byte c mod 64) # EncodeToString s"

definition join3 :: "nat \<Rightarrow> nat \<Rightarrow> nat \<Rightarrow> nat \<Rightarrow> string" where
  "join3 w x y z = [char_of (w * 4 + x div 16), char_of (x mod 16 * 16 + y div 4), char_of (y mod 4 * 64 + z)]"

fun decode_groups :: "nat list \<Rightarrow> string option" where
  "decode_groups [] = Some []"
| "decode_groups [w] = None"
| "decode_groups [w, x] = Some (take 1 (join3 w x 0 0))"
| "decode_groups [w, x, y] = Some (take 2 (join3 w x y 0))"
| "decode_groups (w # x # y # z # ns) = map_option (\<lambda>s. join3 w x y z @ s) (decode_groups ns)"

definition DecodeString :: "string \<Rightarrow> string option" where
  "DecodeString s =
     (let s' = filter (\<lambda>c. byte c \<noteq> 10 \<and> byte c \<noteq> 13) s in
      if list_all (\<lambda>c. dec6 c \<noteq> None) s' then decode_groups (map (\<lambda>c. the (dec6 c)) s') else None)"

lemma dec6_enc6 [simp]: "n < 64 \<Longrightarrow> dec6 (enc6 n) = Some n"
  by (auto simp: enc6_def dec6_def Let_def byte_def)

lemma enc6_not_newline: "n < 64 \<Longrightarrow> byte (enc6 n) \<noteq> 10 \<and> byte (enc6 n) \<noteq> 13"
  by (auto simp: enc6_def byte_def)

definition sextets :: "string \<Rightarrow> nat list" where
  "sextets s = map (\<lambda>c. the (dec6 c)) s"

lemma sextet_bounds [simp]:
  "byte a div 4 < 64" "byte a mod 4 * 16 < 64" "byte a mod 4 * 16 + byte b div 16 < 64" "byte b mod 16 * 4 < 64"
  "byte b mod 16 * 4 + byte c div 64 < 64" "byte c mod 64 < 64"
proof -
  have "byte a div 4 < 64" "byte b div 16 < 16" "byte c div 64 < 4" "byte a mod 4 < 4" "byte b mod 16 < 16"
    by (simp_all add: less_mult_imp_div_less)
  then show "byte a div 4 < 64" "byte a mod 4 * 16 < 64" "byte a mod 4 * 16 + byte b div 16 < 64" "byte b mod 16 * 4 < 64"
    "byte b mod 16 * 4 + byte c div 64 < 64" "byte c mod 64 < 64"
    by linarith+
qed

lemma Encode_chars: "c \<in> set (EncodeToString s) \<Longrightarrow> \<exists>n<64. c = enc6 n"
  by (induction s rule: EncodeToString.induct) (auto intro: sextet_bounds)

lemma byte_quotients [simp]:
  "byte b div 16 div 16 = 0" "byte b div 16 mod 16 = byte b div 16" "byte c div 64 div 4 = 0" "byte c div 64 mod 4 = byte c div 64"
  by (simp_all add: less_mult_imp_div_less)

lemma char_of_byte [simp]: "char_of (byte c) = c"
  by (simp add: byte_def)

lemma decode_groups_Encode: "decode_groups (sextets (EncodeToString s)) = Some s"
  by (induction s rule: EncodeToString.induct) (simp_all add: sextets_def join3_def)

lemma DecodeString_EncodeToString: "DecodeString (EncodeToString s) = Some s"
proof -
  have "filter (\<lambda>c. byte c \<noteq> 10 \<and> byte c \<noteq> 13) (EncodeToString s) = EncodeToString s"
    by (rule filter_True) (use Encode_chars enc6_not_newline in blast)
  moreover have "list_all (\<lambda>c. dec6 c \<noteq> None) (EncodeToString s)"
    unfolding list_all_iff using Encode_chars by fastforce
  ultimately show ?thesis using decode_groups_Encode by (simp add: DecodeString_def sextets_def)
qed

lemma EncodeToString_Nil: "EncodeToString s = [] \<longleftrightarrow> s = []"
  by (induction s rule: EncodeToString.induct) auto

end
