(* ===== verification/Note_Service.thy ===== *)
theory Note_Service
  imports Worker_Apply Base64
begin

text \<open>
  The service of the community domain (\<open>internal/note/service.go\<close>, \<open>cursor.go\<close>): validation and
  permissions before the repository is called, caches and rankings in Redis around it.

  The Redis commands are parameters over the state \<open>'r\<close> of the server, as in the worker; a client
  without Redis is \<open>None\<close>. The JSON texts of notes, comment pages and cursors are parameters (the
  codecs); a failed decoding is \<open>None\<close>. \<open>singleflight\<close> lets concurrent callers share one load; each
  call here performs its own load, and no caller gives up waiting.
\<close>

section \<open>Data\<close>

record NotePage =
  np_Items :: "Note list"
  np_NextCursor :: string

record HotNoteItem =
  hn_NoteID :: int
  hn_Score :: int
  hn_Note :: "Note option"

record CommentPage =
  cpg_Items :: "NoteComment list"
  cpg_NextCursor :: string

record UserActionInput =
  ua_ResourceID :: string
  ua_UserID :: int

record CollectNoteInput =
  ci_NoteID :: string
  ci_UserID :: int
  ci_CollectionName :: string

record ShareNoteInput =
  si_NoteID :: string
  si_UserID :: int
  si_Channel :: string

record CurrentUser =
  cu_ID :: int
  cu_Username :: string
  cu_Role :: string
  cu_Status :: string

record 'r svc_redis = "'r redis_ops" +
  redis_Get :: "string \<Rightarrow> ('r, string) sem"
  redis_Set :: "string \<Rightarrow> string \<Rightarrow> int \<Rightarrow> ('r, unit) sem"
  redis_ZRevRangeWithScores :: "string \<Rightarrow> int \<Rightarrow> int \<Rightarrow> ('r, (string \<times> int) list) sem"

record codecs =
  note_json :: "Note \<Rightarrow> string"
  note_unjson :: "string \<Rightarrow> Note option"
  page_json :: "CommentPage \<Rightarrow> string"
  page_unjson :: "string \<Rightarrow> CommentPage option"
  cursor_json :: "keysetCursor \<Rightarrow> string"
  cursor_unjson :: "string \<Rightarrow> keysetCursor option"

record 'r Service =
  sv_redis :: "'r svc_redis option"
  sv_codecs :: codecs
  sv_lower :: "nat \<Rightarrow> nat"
  sv_ilike :: "string \<Rightarrow> string \<Rightarrow> bool"

definition nanos_per_second :: int where "nanos_per_second = 1000000000"

definition defaultNoteLimit :: int where "defaultNoteLimit = 20"
definition maxNoteLimit :: int where "maxNoteLimit = 100"
definition defaultCommentLimit :: int where "defaultCommentLimit = 20"
definition maxCommentLimit :: int where "maxCommentLimit = 100"
definition noteDetailCacheTTL :: int where "noteDetailCacheTTL = 10 * 60 * nanos_per_second"
definition commentFirstPageTTL :: int where "commentFirstPageTTL = 60 * nanos_per_second"

section \<open>Cursors\<close>

text \<open>The zero value of \<open>time.Time\<close>, year 1, in nanoseconds since 1970.\<close>

definition zero_time :: int where "zero_time = - 62135596800 * nanos_per_second"

definition encodeCursor :: "codecs \<Rightarrow> keysetCursor \<Rightarrow> string" where
  "encodeCursor cd cursor = EncodeToString (cursor_json cd cursor)"

definition cursor_error :: go_error where
  "cursor_error = ValidationError ''cursor'' ''must be a valid pagination cursor''"

definition decodeCursor :: "codecs \<Rightarrow> string \<Rightarrow> go_error + keysetCursor" where
  "decodeCursor cd value =
     (if value = [] then Inr \<lparr>cur_CreatedAt = zero_time, cur_ID = 0\<rparr>
      else case DecodeString value of
          None \<Rightarrow> Inl cursor_error
        | Some payload \<Rightarrow>
           (case cursor_unjson cd payload of
              None \<Rightarrow> Inl cursor_error
            | Some cursor \<Rightarrow>
                if cur_CreatedAt cursor = zero_time \<or> cur_ID cursor \<le> 0
                then Inl (ValidationError ''cursor'' ''must include created_at and id'')
                else Inr cursor))"

definition encodeNoteCursor :: "codecs \<Rightarrow> Note \<Rightarrow> string" where
  "encodeNoteCursor cd item = encodeCursor cd \<lparr>cur_CreatedAt = n_created_at item, cur_ID = n_id item\<rparr>"

definition encodeCommentCursor :: "codecs \<Rightarrow> NoteComment \<Rightarrow> string" where
  "encodeCommentCursor cd item = encodeCursor cd \<lparr>cur_CreatedAt = nc_CreatedAt item, cur_ID = nc_ID item\<rparr>"

section \<open>Helpers\<close>

definition parseID :: "string \<Rightarrow> string \<Rightarrow> go_error + int" where
  "parseID field value =
     (case ParseInt64 (TrimSpace value) of
        Some i \<Rightarrow> if i \<le> 0 then Inl (ValidationError field ''must be a positive integer'') else Inr i
      | None \<Rightarrow> Inl (ValidationError field ''must be a positive integer''))"

definition normalizeToken :: "(nat \<Rightarrow> nat) \<Rightarrow> string \<Rightarrow> string" where
  "normalizeToken low value = ToLower low (TrimSpace value)"

definition hotNotesKey :: "string \<Rightarrow> string" where
  "hotNotesKey category =
     (if category = [] then ''ranking:notes:daily'' else ''ranking:notes:'' @ category @ '':daily'')"

definition commentFirstPageKey :: "int \<Rightarrow> string" where
  "commentFirstPageKey noteID = ''note:'' @ FormatInt noteID @ '':comments:first_page:time''"

text \<open>\<open>liftE\<close> makes a value or an error of a pure step a step of the program; \<open>swallow\<close> drops an error.\<close>

definition liftE :: "go_error + 'a \<Rightarrow> ('s, 'a) sem" where
  "liftE r = (\<lambda>s. (r, s))"

definition swallow :: "('s, 'a) sem \<Rightarrow> ('s, unit) sem" where
  "swallow m = bindE (catchE m) (\<lambda>_. returnE ())"

definition guardE :: "bool \<Rightarrow> go_error \<Rightarrow> ('s, unit) sem" where
  "guardE bad e = (if bad then throwE e else returnE ())"

section \<open>Caches\<close>

definition getNoteCache :: "'r Service \<Rightarrow> int \<Rightarrow> ('r, Note option) wm" where
  "getNoteCache sv noteID =
     (case sv_redis sv of
        None \<Rightarrow> returnE None
      | Some ops \<Rightarrow> bindE (catchE (on_redis (redis_Get ops (noteCacheKey noteID)))) (\<lambda>r.
          returnE (case r of Inl _ \<Rightarrow> None | Inr raw \<Rightarrow> note_unjson (sv_codecs sv) raw)))"

definition setNoteCache :: "'r Service \<Rightarrow> Note \<Rightarrow> ('r, unit) wm" where
  "setNoteCache sv note =
     (case sv_redis sv of
        None \<Rightarrow> returnE ()
      | Some ops \<Rightarrow> if n_id note \<le> 0 then returnE ()
          else swallow (on_redis (redis_Set ops (noteCacheKey (n_id note)) (note_json (sv_codecs sv) note) noteDetailCacheTTL)))"

definition svc_invalidateNoteCache :: "'r Service \<Rightarrow> int \<Rightarrow> ('r, unit) wm" where
  "svc_invalidateNoteCache sv noteID =
     (case sv_redis sv of
        None \<Rightarrow> returnE ()
      | Some ops \<Rightarrow> if noteID \<le> 0 then returnE () else swallow (on_redis (redis_Del ops [noteCacheKey noteID])))"

definition getCommentFirstPageCache :: "'r Service \<Rightarrow> int \<Rightarrow> ('r, CommentPage option) wm" where
  "getCommentFirstPageCache sv noteID =
     (case sv_redis sv of
        None \<Rightarrow> returnE None
      | Some ops \<Rightarrow> bindE (catchE (on_redis (redis_Get ops (commentFirstPageKey noteID)))) (\<lambda>r.
          returnE (case r of Inl _ \<Rightarrow> None | Inr raw \<Rightarrow> page_unjson (sv_codecs sv) raw)))"

definition setCommentFirstPageCache :: "'r Service \<Rightarrow> int \<Rightarrow> CommentPage \<Rightarrow> ('r, unit) wm" where
  "setCommentFirstPageCache sv noteID page =
     (case sv_redis sv of
        None \<Rightarrow> returnE ()
      | Some ops \<Rightarrow> if noteID \<le> 0 then returnE ()
          else swallow (on_redis (redis_Set ops (commentFirstPageKey noteID) (page_json (sv_codecs sv) page) commentFirstPageTTL)))"

definition invalidateCommentFirstPage :: "'r Service \<Rightarrow> int \<Rightarrow> ('r, unit) wm" where
  "invalidateCommentFirstPage sv noteID =
     (case sv_redis sv of
        None \<Rightarrow> returnE ()
      | Some ops \<Rightarrow> if noteID \<le> 0 then returnE () else swallow (on_redis (redis_Del ops [commentFirstPageKey noteID])))"

section \<open>Rankings\<close>

fun zrem_each :: "'r svc_redis \<Rightarrow> string \<Rightarrow> string list \<Rightarrow> ('r, unit) wm" where
  "zrem_each ops member [] = returnE ()"
| "zrem_each ops member (k # ks) =
     bindE (if k = hotNotesKey [] then returnE () else swallow (on_redis (redis_ZRem ops k member))) (\<lambda>_. zrem_each ops member ks)"

definition removeNoteFromCategoryRankings :: "'r svc_redis \<Rightarrow> string \<Rightarrow> ('r, unit) wm" where
  "removeNoteFromCategoryRankings ops member =
     bindE (on_redis (redis_ScanKeys ops ''ranking:notes:*:daily'')) (\<lambda>ks. zrem_each ops member ks)"

definition svc_refreshNoteRanking :: "'r Service \<Rightarrow> int \<Rightarrow> ('r, unit) wm" where
  "svc_refreshNoteRanking sv noteID =
     (case sv_redis sv of
        None \<Rightarrow> returnE ()
      | Some ops \<Rightarrow>
          if noteID \<le> 0 then returnE ()
          else bindE (on_db (GetNoteRankingStats noteID)) (\<lambda>stats.
               bindE (on_db (UpdateNoteHotScore noteID (rs_HotScore stats))) (\<lambda>_.
               bindE (swallow (removeNoteFromCategoryRankings ops (FormatInt noteID))) (\<lambda>_.
               bindE (on_redis (redis_ZAdd ops (hotNotesKey []) (rs_HotScore stats) (FormatInt noteID))) (\<lambda>_.
               if rs_Category stats \<noteq> []
               then on_redis (redis_ZAdd ops (hotNotesKey (rs_Category stats)) (rs_HotScore stats) (FormatInt noteID))
               else returnE ())))))"

definition removeNoteRanking :: "'r Service \<Rightarrow> int \<Rightarrow> ('r, unit) wm" where
  "removeNoteRanking sv noteID =
     (case sv_redis sv of
        None \<Rightarrow> returnE ()
      | Some ops \<Rightarrow>
          if noteID \<le> 0 then returnE ()
          else bindE (swallow (on_redis (redis_ZRem ops (hotNotesKey []) (FormatInt noteID)))) (\<lambda>_.
               swallow (removeNoteFromCategoryRankings ops (FormatInt noteID))))"

section \<open>Writing notes\<close>

fun normalize_media :: "(nat \<Rightarrow> nat) \<Rightarrow> int \<Rightarrow> CreateNoteMediaInput list \<Rightarrow> go_error + CreateNoteMediaInput list" where
  "normalize_media low i [] = Inr []"
| "normalize_media low i (m # ms) =
     (let ty = normalizeToken low (cm_MediaType m);
          mediaType = (if ty = [] then ''image'' else ty);
          url = TrimSpace (cm_URL m) in
      if length mediaType > 32 then Inl (ValidationError ''media.media_type'' ''must be at most 32 characters'')
      else if length url > 512 then Inl (ValidationError ''media.url'' ''must be at most 512 characters'')
      else case normalize_media low (i + 1) ms of
          Inl e \<Rightarrow> Inl e
        | Inr ms' \<Rightarrow> Inr (m\<lparr>cm_MediaType := mediaType, cm_URL := url, cm_Caption := TrimSpace (cm_Caption m),
            cm_OCRText := TrimSpace (cm_OCRText m), cm_Position := (if cm_Position m \<le> 0 then i + 1 else cm_Position m)\<rparr> # ms'))"

definition normalize_create :: "(nat \<Rightarrow> nat) \<Rightarrow> CreateNoteInput \<Rightarrow> CreateNoteInput" where
  "normalize_create low input =
     (let visibility = normalizeToken low (cn_Visibility input) in
      input\<lparr>cn_Title := TrimSpace (cn_Title input), cn_Body := TrimSpace (cn_Body input),
        cn_Category := normalizeToken low (cn_Category input),
        cn_ProjectID := (if cn_ProjectID input \<le> 0 then 1 else cn_ProjectID input),
        cn_Visibility := (if visibility = [] then ''public'' else visibility)\<rparr>)"

definition create_error :: "CreateNoteInput \<Rightarrow> go_error option" where
  "create_error input =
     (if cn_AuthorID input \<le> 0 then Some (ValidationError ''author_id'' ''must be greater than 0'')
      else if cn_Visibility input \<noteq> ''public'' \<and> cn_Visibility input \<noteq> ''project''
        then Some (ValidationError ''visibility'' ''must be public or project'')
      else if cn_Title input = [] then Some (ValidationError ''title'' ''is required'')
      else if length (cn_Title input) > 255 then Some (ValidationError ''title'' ''must be at most 255 characters'')
      else if cn_Body input = [] then Some (ValidationError ''body'' ''is required'')
      else if length (cn_Body input) > 20000 then Some (ValidationError ''body'' ''must be at most 20000 characters'')
      else if cn_Category input = [] then Some (ValidationError ''category'' ''is required'')
      else if length (cn_Category input) > 64 then Some (ValidationError ''category'' ''must be at most 64 characters'')
      else None)"

definition svc_CreateNote :: "'r Service \<Rightarrow> ctx \<Rightarrow> CreateNoteInput \<Rightarrow> ('r, Note) wm" where
  "svc_CreateNote sv c input0 =
     (let input = normalize_create (sv_lower sv) input0 in
      case create_error input of
        Some e \<Rightarrow> throwE e
      | None \<Rightarrow>
          bindE (on_db (CanWriteProject (cn_ProjectID input) (cn_AuthorID input))) (\<lambda>canWrite.
          bindE (guardE (\<not> canWrite) ErrForbidden) (\<lambda>_.
          bindE (liftE (normalize_media (sv_lower sv) 0 (cn_Media input))) (\<lambda>media.
          bindE (on_db (CreateNote c (input\<lparr>cn_Media := media\<rparr>))) (\<lambda>created.
          bindE (setNoteCache sv created) (\<lambda>_.
          bindE (swallow (svc_refreshNoteRanking sv (n_id created))) (\<lambda>_.
          returnE created)))))))"

definition CanModifyNote :: "string \<Rightarrow> CurrentUser \<Rightarrow> ('r, bool) wm" where
  "CanModifyNote rawID current =
     (if cu_Role current = ''admin'' then returnE True
      else bindE (liftE (parseID ''note_id'' rawID)) (\<lambda>noteID.
           bindE (mapErr (\<lambda>e. if errors_is e ErrNotFound then AuthErrNotFound else e) (on_db (GetNoteOwner noteID))) (\<lambda>ownerID.
           returnE (ownerID = cu_ID current))))"

definition CanModifyComment :: "string \<Rightarrow> CurrentUser \<Rightarrow> ('r, bool) wm" where
  "CanModifyComment rawID current =
     (if cu_Role current = ''admin'' then returnE True
      else bindE (liftE (parseID ''comment_id'' rawID)) (\<lambda>commentID.
           bindE (mapErr (\<lambda>e. if errors_is e ErrNotFound then AuthErrNotFound else e) (on_db (GetCommentOwner commentID))) (\<lambda>ownerID.
           returnE (ownerID = cu_ID current))))"

text \<open>One optional text of an update: trimmed, required when given, bounded.\<close>

definition check_text :: "string \<Rightarrow> nat \<Rightarrow> string \<Rightarrow> (string \<Rightarrow> string) \<Rightarrow> string option \<Rightarrow> go_error + string option" where
  "check_text field limit msg norm value =
     (case value of
        None \<Rightarrow> Inr None
      | Some v \<Rightarrow> let trimmed = norm v in
          if trimmed = [] then Inl (ValidationError field ''is required'')
          else if length trimmed > limit then Inl (ValidationError field msg)
          else Inr (Some trimmed))"

definition active_user :: "CurrentUser \<Rightarrow> ('s, unit) sem" where
  "active_user current =
     (if cu_ID current \<le> 0 then throwE ErrUnauthorized
      else if cu_Status current \<noteq> ''active'' then throwE ErrForbidden else returnE ())"

definition svc_UpdateNote :: "'r Service \<Rightarrow> ctx \<Rightarrow> CurrentUser \<Rightarrow> UpdateNoteInput \<Rightarrow> ('r, Note) wm" where
  "svc_UpdateNote sv c current input =
     bindE (liftE (parseID ''note_id'' (un_NoteID input))) (\<lambda>noteID.
     bindE (active_user current) (\<lambda>_.
     bindE (liftE (check_text ''title'' 255 ''must be at most 255 characters'' TrimSpace (un_Title input))) (\<lambda>title.
     bindE (liftE (check_text ''body'' 20000 ''must be at most 20000 characters'' TrimSpace (un_Body input))) (\<lambda>body.
     bindE (liftE (check_text ''category'' 64 ''must be at most 64 characters'' (normalizeToken (sv_lower sv)) (un_Category input))) (\<lambda>category.
     bindE (CanModifyNote (un_NoteID input) current) (\<lambda>allowed.
     bindE (guardE (\<not> allowed) ErrForbidden) (\<lambda>_.
     bindE (on_db (UpdateNote c noteID (input\<lparr>un_Title := title, un_Body := body, un_Category := category,
       un_ActorUserID := cu_ID current\<rparr>))) (\<lambda>updated.
     bindE (svc_invalidateNoteCache sv noteID) (\<lambda>_.
     bindE (setNoteCache sv updated) (\<lambda>_.
     bindE (swallow (svc_refreshNoteRanking sv noteID)) (\<lambda>_.
     returnE updated)))))))))))"

definition DeleteNote :: "'r Service \<Rightarrow> ctx \<Rightarrow> CurrentUser \<Rightarrow> string \<Rightarrow> ('r, unit) wm" where
  "DeleteNote sv c current rawID =
     bindE (liftE (parseID ''note_id'' rawID)) (\<lambda>noteID.
     bindE (active_user current) (\<lambda>_.
     bindE (CanModifyNote rawID current) (\<lambda>allowed.
     bindE (guardE (\<not> allowed) ErrForbidden) (\<lambda>_.
     bindE (on_db (SoftDeleteNote c noteID (cu_ID current))) (\<lambda>_.
     bindE (svc_invalidateNoteCache sv noteID) (\<lambda>_.
     swallow (removeNoteRanking sv noteID)))))))"

section \<open>Reading notes\<close>

definition decorateViewedNote :: "ctx \<Rightarrow> Note \<Rightarrow> int \<Rightarrow> ('r, Note) wm" where
  "decorateViewedNote c found viewerID =
     (let bare = found\<lparr>ViewerLiked := False, ViewerCollected := False\<rparr> in
      if viewerID \<le> 0 then returnE bare
      else bindE (catchE (on_db (GetViewerState (n_id found) viewerID))) (\<lambda>r.
           bindE (swallow (on_db (RecordNoteView c (n_id found) viewerID))) (\<lambda>_.
           returnE (case r of Inl _ \<Rightarrow> bare | Inr (liked, collected) \<Rightarrow> bare\<lparr>ViewerLiked := liked, ViewerCollected := collected\<rparr>))))"

definition load_note :: "'r Service \<Rightarrow> int \<Rightarrow> ('r, Note) wm" where
  "load_note sv noteID =
     bindE (getNoteCache sv noteID) (\<lambda>cached.
     case cached of
       Some note \<Rightarrow> returnE note
     | None \<Rightarrow> bindE (on_db (GetNote noteID)) (\<lambda>note. bindE (setNoteCache sv note) (\<lambda>_. returnE note)))"

definition svc_GetNote :: "'r Service \<Rightarrow> ctx \<Rightarrow> string \<Rightarrow> int \<Rightarrow> ('r, Note) wm" where
  "svc_GetNote sv c rawID viewer =
     bindE (liftE (parseID ''note_id'' rawID)) (\<lambda>noteID.
     bindE (on_db (CanReadNote noteID viewer)) (\<lambda>allowed.
     bindE (guardE (\<not> allowed) ErrForbidden) (\<lambda>_.
     bindE (getNoteCache sv noteID) (\<lambda>cached.
     case cached of
       Some note \<Rightarrow> decorateViewedNote c note viewer
     | None \<Rightarrow> bindE (load_note sv noteID) (\<lambda>note. decorateViewedNote c note viewer)))))"

definition clamp_limit :: "int \<Rightarrow> int \<Rightarrow> int \<Rightarrow> int" where
  "clamp_limit dflt maximum limit = (let l = (if limit \<le> 0 then dflt else limit) in if l > maximum then maximum else l)"

definition svc_ListNotes :: "'r Service \<Rightarrow> ListNotesInput \<Rightarrow> ('r, NotePage) wm" where
  "svc_ListNotes sv input0 =
     (let input = input0\<lparr>ln_Category := normalizeToken (sv_lower sv) (ln_Category input0), ln_Query := TrimSpace (ln_Query input0),
            ln_Limit := clamp_limit defaultNoteLimit maxNoteLimit (ln_Limit input0)\<rparr> in
      bindE (liftE (decodeCursor (sv_codecs sv) (ln_Cursor input))) (\<lambda>cursor.
      bindE (on_db (ListNotes (sv_ilike sv) input cursor)) (\<lambda>(items, hasMore).
      returnE \<lparr>np_Items = items,
        np_NextCursor = (if hasMore \<and> items \<noteq> [] then encodeNoteCursor (sv_codecs sv) (last items) else [])\<rparr>)))"

fun hot_items :: "(string \<times> int) list \<Rightarrow> HotNoteItem list" where
  "hot_items [] = []"
| "hot_items ((member, score) # vs) =
     (case ParseInt64 member of
        None \<Rightarrow> hot_items vs
      | Some noteID \<Rightarrow> \<lparr>hn_NoteID = noteID, hn_Score = score, hn_Note = None\<rparr> # hot_items vs)"

fun with_notes :: "Note list \<Rightarrow> HotNoteItem list \<Rightarrow> HotNoteItem list" where
  "with_notes found [] = []"
| "with_notes found (item # items) =
     (case find (\<lambda>n. n_id n = hn_NoteID item) (rev found) of
        None \<Rightarrow> with_notes found items
      | Some n \<Rightarrow> item\<lparr>hn_Note := Some n\<rparr> # with_notes found items)"

definition ListHotNotes :: "'r Service \<Rightarrow> string \<Rightarrow> int \<Rightarrow> int \<Rightarrow> ('r, HotNoteItem list) wm" where
  "ListHotNotes sv category0 limit0 viewer =
     (let category = normalizeToken (sv_lower sv) category0;
          limit = clamp_limit 50 100 limit0 in
      case sv_redis sv of
        None \<Rightarrow> returnE []
      | Some ops \<Rightarrow>
          bindE (on_redis (redis_ZRevRangeWithScores ops (hotNotesKey category) 0 (limit - 1))) (\<lambda>values.
          let items = hot_items values in
          bindE (on_db (GetNotesByIDs (map hn_NoteID items) viewer)) (\<lambda>found.
          returnE (with_notes found items))))"

section \<open>Comments\<close>

definition comment_error :: "CreateCommentInput \<Rightarrow> go_error option" where
  "comment_error input =
     (if cc_UserID input \<le> 0 then Some (ValidationError ''user_id'' ''must be greater than 0'')
      else if cc_Content input = [] then Some (ValidationError ''content'' ''is required'')
      else if length (cc_Content input) > 2000 then Some (ValidationError ''content'' ''must be at most 2000 characters'')
      else if cc_ParentID input < 0 then Some (ValidationError ''parent_id'' ''must be greater than or equal to 0'')
      else if length (cc_Intent input) > 64 then Some (ValidationError ''intent'' ''must be at most 64 characters'')
      else None)"

definition svc_CreateComment :: "'r Service \<Rightarrow> ctx \<Rightarrow> CreateCommentInput \<Rightarrow> ('r, NoteComment) wm" where
  "svc_CreateComment sv c input0 =
     bindE (liftE (parseID ''note_id'' (cc_NoteID input0))) (\<lambda>noteID.
     let input = input0\<lparr>cc_NoteID := FormatInt noteID, cc_Content := TrimSpace (cc_Content input0),
           cc_Intent := normalizeToken (sv_lower sv) (cc_Intent input0)\<rparr> in
     case comment_error input of
       Some e \<Rightarrow> throwE e
     | None \<Rightarrow>
         bindE (on_db (CreateComment c noteID input)) (\<lambda>comment.
         bindE (invalidateCommentFirstPage sv noteID) (\<lambda>_.
         bindE (svc_invalidateNoteCache sv noteID) (\<lambda>_.
         returnE comment))))"

definition buildCommentPage :: "codecs \<Rightarrow> NoteComment list \<Rightarrow> bool \<Rightarrow> CommentPage" where
  "buildCommentPage cd items hasMore =
     \<lparr>cpg_Items = items, cpg_NextCursor = (if \<not> hasMore \<or> items = [] then [] else encodeCommentCursor cd (last items))\<rparr>"

definition limitCommentPage :: "codecs \<Rightarrow> CommentPage \<Rightarrow> int \<Rightarrow> CommentPage" where
  "limitCommentPage cd page limit =
     (if limit \<le> 0 \<or> int (length (cpg_Items page)) \<le> limit then page
      else let items = take (nat limit) (cpg_Items page) in
        \<lparr>cpg_Items = items, cpg_NextCursor = encodeCommentCursor cd (last items)\<rparr>)"

definition load_comment_page :: "'r Service \<Rightarrow> int \<Rightarrow> ListCommentsInput \<Rightarrow> ('r, CommentPage) wm" where
  "load_comment_page sv noteID input =
     bindE (getCommentFirstPageCache sv noteID) (\<lambda>cached.
     case cached of
       Some page \<Rightarrow> returnE page
     | None \<Rightarrow>
         bindE (on_db (ListComments noteID (input\<lparr>lc_Limit := maxCommentLimit\<rparr>) \<lparr>cur_CreatedAt = zero_time, cur_ID = 0\<rparr>)) (\<lambda>(items, hasMore).
         let page = buildCommentPage (sv_codecs sv) items hasMore in
         bindE (setCommentFirstPageCache sv noteID page) (\<lambda>_. returnE page)))"

definition svc_ListComments :: "'r Service \<Rightarrow> ListCommentsInput \<Rightarrow> ('r, CommentPage) wm" where
  "svc_ListComments sv input0 =
     bindE (liftE (parseID ''note_id'' (lc_NoteID input0))) (\<lambda>noteID.
     let input = input0\<lparr>lc_Limit := clamp_limit defaultCommentLimit maxCommentLimit (lc_Limit input0)\<rparr> in
     bindE (on_db (CanReadNote noteID (lc_ViewerID input))) (\<lambda>allowed.
     bindE (guardE (\<not> allowed) ErrForbidden) (\<lambda>_.
     bindE (liftE (decodeCursor (sv_codecs sv) (lc_Cursor input))) (\<lambda>cursor.
     if lc_Cursor input = []
     then bindE (getCommentFirstPageCache sv noteID) (\<lambda>cached.
       case cached of
         Some page \<Rightarrow> returnE (limitCommentPage (sv_codecs sv) page (lc_Limit input))
       | None \<Rightarrow> bindE (load_comment_page sv noteID input) (\<lambda>page. returnE (limitCommentPage (sv_codecs sv) page (lc_Limit input))))
     else bindE (on_db (ListComments noteID input cursor)) (\<lambda>(items, hasMore).
       returnE (buildCommentPage (sv_codecs sv) items hasMore))))))"

definition DeleteComment :: "'r Service \<Rightarrow> ctx \<Rightarrow> CurrentUser \<Rightarrow> string \<Rightarrow> ('r, unit) wm" where
  "DeleteComment sv c current rawID =
     bindE (liftE (parseID ''comment_id'' rawID)) (\<lambda>commentID.
     bindE (active_user current) (\<lambda>_.
     bindE (CanModifyComment rawID current) (\<lambda>allowed.
     bindE (guardE (\<not> allowed) ErrForbidden) (\<lambda>_.
     bindE (on_db (SoftDeleteComment c commentID (cu_ID current))) (\<lambda>noteID.
     if noteID > 0
     then bindE (invalidateCommentFirstPage sv noteID) (\<lambda>_. svc_invalidateNoteCache sv noteID)
     else returnE ())))))"

section \<open>Interactions\<close>

definition user_required :: "int \<Rightarrow> ('s, unit) sem" where
  "user_required userID = guardE (userID \<le> 0) (ValidationError ''user_id'' ''must be greater than 0'')"

definition svc_LikeNote :: "'r Service \<Rightarrow> ctx \<Rightarrow> UserActionInput \<Rightarrow> ('r, IdempotentActionResult) wm" where
  "svc_LikeNote sv c input =
     bindE (liftE (parseID ''note_id'' (ua_ResourceID input))) (\<lambda>noteID.
     bindE (user_required (ua_UserID input)) (\<lambda>_.
     bindE (on_db (LikeNote c noteID (ua_UserID input))) (\<lambda>result.
     bindE (svc_invalidateNoteCache sv noteID) (\<lambda>_.
     returnE result))))"

definition svc_UnlikeNote :: "'r Service \<Rightarrow> ctx \<Rightarrow> UserActionInput \<Rightarrow> ('r, IdempotentActionResult) wm" where
  "svc_UnlikeNote sv c input =
     bindE (liftE (parseID ''note_id'' (ua_ResourceID input))) (\<lambda>noteID.
     bindE (user_required (ua_UserID input)) (\<lambda>_.
     bindE (on_db (UnlikeNote c noteID (ua_UserID input))) (\<lambda>result.
     bindE (svc_invalidateNoteCache sv noteID) (\<lambda>_.
     returnE result))))"

definition svc_CollectNote :: "'r Service \<Rightarrow> ctx \<Rightarrow> CollectNoteInput \<Rightarrow> ('r, IdempotentActionResult) wm" where
  "svc_CollectNote sv c input =
     bindE (liftE (parseID ''note_id'' (ci_NoteID input))) (\<lambda>noteID.
     let collectionName = TrimSpace (ci_CollectionName input) in
     bindE (user_required (ci_UserID input)) (\<lambda>_.
     bindE (guardE (length collectionName > 128) (ValidationError ''collection_name'' ''must be at most 128 characters'')) (\<lambda>_.
     bindE (on_db (CollectNote c noteID (ci_UserID input) collectionName)) (\<lambda>result.
     bindE (svc_invalidateNoteCache sv noteID) (\<lambda>_.
     returnE result)))))"

definition svc_UncollectNote :: "'r Service \<Rightarrow> ctx \<Rightarrow> UserActionInput \<Rightarrow> ('r, IdempotentActionResult) wm" where
  "svc_UncollectNote sv c input =
     bindE (liftE (parseID ''note_id'' (ua_ResourceID input))) (\<lambda>noteID.
     bindE (user_required (ua_UserID input)) (\<lambda>_.
     bindE (on_db (UncollectNote c noteID (ua_UserID input))) (\<lambda>result.
     bindE (svc_invalidateNoteCache sv noteID) (\<lambda>_.
     returnE result))))"

definition svc_ShareNote :: "'r Service \<Rightarrow> ctx \<Rightarrow> ShareNoteInput \<Rightarrow> ('r, ShareNoteResult) wm" where
  "svc_ShareNote sv c input =
     bindE (liftE (parseID ''note_id'' (si_NoteID input))) (\<lambda>noteID.
     let channel = normalizeToken (sv_lower sv) (si_Channel input) in
     bindE (user_required (si_UserID input)) (\<lambda>_.
     bindE (guardE (length channel > 64) (ValidationError ''channel'' ''must be at most 64 characters'')) (\<lambda>_.
     bindE (on_db (ShareNote c noteID (si_UserID input) (if channel = [] then ''unknown'' else channel))) (\<lambda>result.
     bindE (svc_invalidateNoteCache sv noteID) (\<lambda>_.
     returnE result)))))"

definition svc_LikeComment :: "ctx \<Rightarrow> UserActionInput \<Rightarrow> ('r, IdempotentActionResult) wm" where
  "svc_LikeComment c input =
     bindE (liftE (parseID ''comment_id'' (ua_ResourceID input))) (\<lambda>commentID.
     bindE (user_required (ua_UserID input)) (\<lambda>_.
     on_db (LikeComment c commentID (ua_UserID input))))"

definition svc_UnlikeComment :: "ctx \<Rightarrow> UserActionInput \<Rightarrow> ('r, IdempotentActionResult) wm" where
  "svc_UnlikeComment c input =
     bindE (liftE (parseID ''comment_id'' (ua_ResourceID input))) (\<lambda>commentID.
     bindE (user_required (ua_UserID input)) (\<lambda>_.
     on_db (UnlikeComment c commentID (ua_UserID input))))"

end
