(* ===== verification/Auth.thy ===== *)
theory Auth
  imports Note_Service
begin

text \<open>
  Accounts and sessions: \<open>auth/models.go\<close>, \<open>auth/token.go\<close>, \<open>auth/repository.go\<close> and \<open>auth/service.go\<close>.
  The third-party parts are parameters (\<open>auth_lib\<close>): bcrypt, the JWT library, SHA-256 and the Unicode case
  table. What an operation reads from the clock and the random source is its \<open>auth_env\<close>.
\<close>

section \<open>Models\<close>

record User =
  usr_ID :: int
  usr_Username :: string
  usr_Nickname :: string
  usr_AvatarURL :: string
  usr_Bio :: string
  usr_Role :: string
  usr_Status :: string
  usr_CreatedAt :: int
  usr_UpdatedAt :: int

record AuthResponse =
  ar_User :: User
  ar_AccessToken :: string
  ar_RefreshToken :: string
  ar_ExpiresIn :: int

record RegisterInput =
  ri_Username :: string
  ri_Password :: string
  ri_Nickname :: string
  ri_UserAgent :: string
  ri_IPAddress :: string

record LoginInput =
  li_Username :: string
  li_Password :: string
  li_UserAgent :: string
  li_IPAddress :: string

record RefreshInput =
  rf_RefreshToken :: string
  rf_UserAgent :: string
  rf_IPAddress :: string

record UpdateProfileInput =
  up_Nickname :: "string option"
  up_AvatarURL :: "string option"
  up_Bio :: "string option"

record credentialRecord =
  cred_UserID :: int
  cred_Username :: string
  cred_PasswordHash :: string
  cred_PasswordAlgo :: string

record sessionRecord =
  ses_ID :: int
  ses_UserID :: int
  ses_RefreshTokenHash :: string
  ses_Revoked :: bool
  ses_ExpiresAt :: int
  ses_ReplacedBy :: "int option"

record accessClaims =
  ac_UserID :: int
  ac_Username :: string
  ac_Role :: string
  ac_Status :: string
  ac_Subject :: string
  ac_ID :: string
  ac_IssuedAt :: int
  ac_ExpiresAt :: int

record AuthConfig =
  JWTSecret :: string
  AccessTokenTTL :: int
  RefreshTokenTTL :: int
  BcryptCost :: int

text \<open>
  The libraries. \<open>jwt_parse keyfunc now raw\<close> is \<open>jwt.ParseWithClaims\<close>: it asks \<open>keyfunc\<close> for the key of the
  algorithm the token names and returns the claims with the flag \<open>Valid\<close>.
\<close>

record auth_lib =
  lib_sha256 :: "string \<Rightarrow> nat list"
  lib_lower :: "nat \<Rightarrow> nat"
  bcrypt_generate :: "string \<Rightarrow> int \<Rightarrow> go_error + string"
  bcrypt_matches :: "string \<Rightarrow> string \<Rightarrow> bool"
  jwt_sign :: "string \<Rightarrow> accessClaims \<Rightarrow> go_error + string"
  jwt_parse :: "(string \<Rightarrow> go_error + string) \<Rightarrow> int \<Rightarrow> string \<Rightarrow> go_error + accessClaims \<times> bool"

text \<open>The readings of \<open>time.Now\<close> and \<open>rand.Read\<close> (\<open>None\<close> when it fails) of one operation.\<close>

record auth_env =
  ae_issue :: int
  ae_expiry :: int
  ae_check :: int
  ae_jti :: "string option"
  ae_refresh :: "string option"

record AuthService =
  as_cfg :: AuthConfig
  as_env :: string
  as_lib :: auth_lib

section \<open>Tokens\<close>

definition randomToken :: "string option \<Rightarrow> go_error + string" where
  "randomToken buf = (case buf of
     None \<Rightarrow> Inl (WrapError ''generate random token'' (ErrorString ''read random bytes''))
   | Some b \<Rightarrow> Inr (EncodeToString b))"

definition hashToken :: "auth_lib \<Rightarrow> string \<Rightarrow> string" where
  "hashToken lib value = hex_encode (lib_sha256 lib value)"

text \<open>\<open>int64(ttl.Seconds())\<close>, which truncates towards zero.\<close>

definition ttl_seconds :: "int \<Rightarrow> int" where
  "ttl_seconds ttl = (if ttl < 0 then - (- ttl div nanos_per_second) else ttl div nanos_per_second)"

definition newAccessToken :: "auth_lib \<Rightarrow> auth_env \<Rightarrow> string \<Rightarrow> int \<Rightarrow> User \<Rightarrow> go_error + string \<times> int" where
  "newAccessToken lib env secret ttl user =
     (case randomToken (ae_jti env) of
        Inl e \<Rightarrow> Inl e
      | Inr jti \<Rightarrow>
         (case jwt_sign lib secret
            \<lparr>ac_UserID = usr_ID user, ac_Username = usr_Username user, ac_Role = usr_Role user, ac_Status = usr_Status user,
             ac_Subject = FormatInt (usr_ID user), ac_ID = jti, ac_IssuedAt = ae_issue env, ac_ExpiresAt = ae_issue env + ttl\<rparr> of
            Inl e \<Rightarrow> Inl (WrapError ''sign access token'' e)
          | Inr signed \<Rightarrow> Inr (signed, ttl_seconds ttl)))"

definition access_key :: "string \<Rightarrow> string \<Rightarrow> go_error + string" where
  "access_key secret alg = (if alg \<noteq> ''HS256'' then Inl (ErrorString ''unexpected signing method'') else Inr secret)"

definition parseAccessToken :: "auth_lib \<Rightarrow> auth_env \<Rightarrow> string \<Rightarrow> string \<Rightarrow> go_error + CurrentUser" where
  "parseAccessToken lib env secret rawToken =
     (case jwt_parse lib (access_key secret) (ae_check env) rawToken of
        Inl e \<Rightarrow> Inl ErrUnauthorized
      | Inr (claims, ok) \<Rightarrow>
         if \<not> ok then Inl ErrUnauthorized
         else if ac_UserID claims \<le> 0 then Inl ErrUnauthorized
         else Inr \<lparr>cu_ID = ac_UserID claims, cu_Username = ac_Username claims, cu_Role = ac_Role claims, cu_Status = ac_Status claims\<rparr>)"

section \<open>Repository\<close>

definition auth_mapDBError :: "go_error \<Rightarrow> go_error" where
  "auth_mapDBError err =
     (if errors_is err SqlErrNoRows then AuthErrNotFound
      else if errors_as_pg err = Some ''23505'' then ErrUsernameExists else err)"

definition scanUser :: "user_row \<Rightarrow> User" where
  "scanUser u =
     \<lparr>usr_ID = u_id u, usr_Username = u_username u, usr_Nickname = coalesce (u_nickname u), usr_AvatarURL = coalesce (u_avatar_url u),
      usr_Bio = coalesce (u_bio u), usr_Role = u_role u, usr_Status = u_status u, usr_CreatedAt = u_created_at u, usr_UpdatedAt = u_updated_at u\<rparr>"

definition new_user_row :: "string \<Rightarrow> string \<Rightarrow> int \<Rightarrow> int \<Rightarrow> user_row" where
  "new_user_row username nickname i now =
     \<lparr>u_id = i, u_username = username, u_nickname = nullif_empty nickname, u_avatar_url = None, u_bio = None,
      u_role = ''normal'', u_status = ''active'', u_created_at = now, u_updated_at = now\<rparr>"

definition insert_user :: "string \<Rightarrow> string \<Rightarrow> User sm" where
  "insert_user username nickname = insert_serial ''users'' (\<lambda>i now t.
     let u = new_user_row username nickname i now in
     if exists_row (\<lambda>r. u_id r = i \<or> u_username r = username) (users t) then Inl unique_violation
     else if \<not> exists_row (\<lambda>p. p_id p = 1) (projects t) then Inl fk_violation
     else Inr (scanUser u, ensure_default_project_membership u (t\<lparr>users := users t @ [u]\<rparr>)))"

definition insert_credential :: "int \<Rightarrow> string \<Rightarrow> string \<Rightarrow> unit sm" where
  "insert_credential userID username passwordHash = execE (\<lambda>now t.
     if exists_row (\<lambda>r. cr_user_id r = userID \<or> cr_username r = username) (user_credentials t) then Inl unique_violation
     else if \<not> user_exists userID t then Inl fk_violation
     else Inr ((), t\<lparr>user_credentials := user_credentials t @
       [\<lparr>cr_user_id = userID, cr_username = username, cr_password_hash = passwordHash, cr_password_algo = ''bcrypt''\<rparr>]\<rparr>))"

definition CreateUserWithCredentials_body :: "string \<Rightarrow> string \<Rightarrow> string \<Rightarrow> User tx_result sm" where
  "CreateUserWithCredentials_body username passwordHash nickname =
     bindE (mapErr auth_mapDBError (insert_user username nickname)) (\<lambda>user.
     bindE (mapErr auth_mapDBError (insert_credential (usr_ID user) username passwordHash)) (\<lambda>_.
     returnE (Commit user)))"

definition CreateUserWithCredentials :: "string \<Rightarrow> string \<Rightarrow> string \<Rightarrow> User sm" where
  "CreateUserWithCredentials username passwordHash nickname =
     in_tx (WrapError ''begin register user'') (WrapError ''commit register user'')
       (CreateUserWithCredentials_body username passwordHash nickname)"

definition find_user :: "int \<Rightarrow> store \<Rightarrow> user_row option" where
  "find_user i t = find (\<lambda>u. u_id u = i) (users t)"

definition GetCredentialByUsername :: "string \<Rightarrow> (credentialRecord \<times> User) sm" where
  "GetCredentialByUsername username = mapErr auth_mapDBError (query_row (\<lambda>t.
     case find (\<lambda>c. cr_username c = username \<and> find_user (cr_user_id c) t \<noteq> None) (user_credentials t) of
       None \<Rightarrow> None
     | Some c \<Rightarrow> map_option (\<lambda>u. (\<lparr>cred_UserID = cr_user_id c, cred_Username = cr_username c, cred_PasswordHash = cr_password_hash c,
         cred_PasswordAlgo = cr_password_algo c\<rparr>, scanUser u)) (find_user (cr_user_id c) t)))"

definition GetUserByID :: "int \<Rightarrow> User sm" where
  "GetUserByID i = mapErr auth_mapDBError (query_row (\<lambda>t. map_option scanUser (find_user i t)))"

definition dev_token_live :: "int \<Rightarrow> string \<Rightarrow> auth_token_row \<Rightarrow> bool" where
  "dev_token_live now tokenHash r =
     (at_token_hash r = tokenHash \<and> at_status r = ''active'' \<and> (case at_expired_at r of None \<Rightarrow> True | Some e \<Rightarrow> now < e))"

definition GetUserByDevTokenHash :: "string \<Rightarrow> User sm" where
  "GetUserByDevTokenHash tokenHash = mapErr auth_mapDBError (execE (\<lambda>now t.
     case List.map_filter (\<lambda>r. find_user (at_user_id r) t) (filter (dev_token_live now tokenHash) (user_auth_tokens t)) of
       [] \<Rightarrow> Inl SqlErrNoRows
     | u # _ \<Rightarrow> Inr (scanUser u, t)))"

definition UpdateUserProfile :: "int \<Rightarrow> UpdateProfileInput \<Rightarrow> User sm" where
  "UpdateUserProfile i input =
     bindE (GetUserByID i) (\<lambda>current.
     let nickname = (case up_Nickname input of None \<Rightarrow> usr_Nickname current | Some v \<Rightarrow> TrimSpace v);
         avatarURL = (case up_AvatarURL input of None \<Rightarrow> usr_AvatarURL current | Some v \<Rightarrow> TrimSpace v);
         bio = (case up_Bio input of None \<Rightarrow> usr_Bio current | Some v \<Rightarrow> TrimSpace v) in
     mapErr auth_mapDBError (update_returning users (\<lambda>rows. users_update (\<lambda>_. rows)) (\<lambda>u. u_id u = i)
       (\<lambda>now t u. u\<lparr>u_nickname := nullif_empty nickname, u_avatar_url := nullif_empty avatarURL, u_bio := nullif_empty bio,
          u_updated_at := now\<rparr>) scanUser))"

definition scanSession :: "session_row \<Rightarrow> sessionRecord" where
  "scanSession r =
     \<lparr>ses_ID = s_id r, ses_UserID = s_user_id r, ses_RefreshTokenHash = s_refresh_token_hash r, ses_Revoked = s_revoked r,
      ses_ExpiresAt = s_expires_at r, ses_ReplacedBy = None\<rparr>"

definition new_session_row :: "int \<Rightarrow> string \<Rightarrow> string \<Rightarrow> string \<Rightarrow> int \<Rightarrow> int \<Rightarrow> int \<Rightarrow> session_row" where
  "new_session_row userID refreshTokenHash userAgent ipAddress expiresAt i now =
     \<lparr>s_id = i, s_user_id = userID, s_refresh_token_hash = refreshTokenHash, s_user_agent = nullif_empty userAgent,
      s_ip_address = nullif_empty ipAddress, s_revoked = False, s_expires_at = expiresAt, s_last_used_at = None,
      s_replaced_by_session_id = None, s_created_at = now, s_updated_at = now\<rparr>"

definition insert_session :: "int \<Rightarrow> string \<Rightarrow> string \<Rightarrow> string \<Rightarrow> int \<Rightarrow> sessionRecord sm" where
  "insert_session userID refreshTokenHash userAgent ipAddress expiresAt = insert_serial ''user_sessions'' (\<lambda>i now t.
     let r = new_session_row userID refreshTokenHash userAgent ipAddress expiresAt i now in
     if exists_row (\<lambda>x. s_id x = i \<or> s_refresh_token_hash x = refreshTokenHash) (user_sessions t) then Inl unique_violation
     else if \<not> user_exists userID t then Inl fk_violation
     else Inr (scanSession r, t\<lparr>user_sessions := user_sessions t @ [r]\<rparr>))"

definition CreateSession :: "int \<Rightarrow> string \<Rightarrow> string \<Rightarrow> string \<Rightarrow> int \<Rightarrow> sessionRecord sm" where
  "CreateSession userID refreshTokenHash userAgent ipAddress expiresAt =
     mapErr auth_mapDBError (insert_session userID refreshTokenHash userAgent ipAddress expiresAt)"

definition find_session :: "string \<Rightarrow> store \<Rightarrow> session_row option" where
  "find_session h t = find (\<lambda>r. s_refresh_token_hash r = h) (user_sessions t)"

definition GetSessionByRefreshHash :: "string \<Rightarrow> sessionRecord sm" where
  "GetSessionByRefreshHash h = mapErr auth_mapDBError (query_row (\<lambda>t. map_option scanSession (find_session h t)))"

definition lock_session :: "string \<Rightarrow> sessionRecord option sm" where
  "lock_session h = mapErr auth_mapDBError (or_no_rows None (query_row (\<lambda>t.
     map_option (\<lambda>r. Some ((scanSession r)\<lparr>ses_ReplacedBy := s_replaced_by_session_id r\<rparr>)) (find_session h t))))"

definition revoke_user_sessions :: "int \<Rightarrow> unit sm" where
  "revoke_user_sessions userID = updateE (\<lambda>now t. t\<lparr>user_sessions :=
     update_where (\<lambda>r. s_user_id r = userID \<and> \<not> s_revoked r) (\<lambda>r. r\<lparr>s_revoked := True, s_updated_at := now\<rparr>) (user_sessions t)\<rparr>)"

definition replace_session :: "int \<Rightarrow> int \<Rightarrow> unit sm" where
  "replace_session i replacement = updateE (\<lambda>now t. t\<lparr>user_sessions :=
     update_where (\<lambda>r. s_id r = i) (\<lambda>r. r\<lparr>s_revoked := True, s_last_used_at := Some now,
       s_replaced_by_session_id := Some replacement, s_updated_at := now\<rparr>) (user_sessions t)\<rparr>)"

text \<open>
  \<open>RotateSession\<close> answers a value or an error (the inner sum) with or without a commit: a token that was already
  replaced revokes every session of its user, commits and is refused. The commit of that branch has an error
  message of its own.
\<close>

definition RotateSession_body ::
  "int \<Rightarrow> string \<Rightarrow> string \<Rightarrow> string \<Rightarrow> string \<Rightarrow> int \<Rightarrow> (go_error + sessionRecord) tx_result sm" where
  "RotateSession_body now oldHash newHash userAgent ipAddress expiresAt =
     bindE (lock_session oldHash) (\<lambda>found.
     case found of
       None \<Rightarrow> returnE (Rollback (Inl ErrUnauthorized))
     | Some current \<Rightarrow>
        if ses_Revoked current \<or> now > ses_ExpiresAt current then
          (if ses_ReplacedBy current \<noteq> None
           then bindE (mapErr auth_mapDBError (revoke_user_sessions (ses_UserID current))) (\<lambda>_. returnE (Commit (Inl ErrUnauthorized)))
           else returnE (Rollback (Inl ErrUnauthorized)))
        else
          bindE (mapErr auth_mapDBError (insert_session (ses_UserID current) newHash userAgent ipAddress expiresAt)) (\<lambda>replacement.
          bindE (mapErr auth_mapDBError (replace_session (ses_ID current) (ses_ID replacement))) (\<lambda>_.
          returnE (Commit (Inr replacement)))))"

definition rotate_commit_error :: "(go_error + (go_error + sessionRecord) tx_result) \<Rightarrow> go_error \<Rightarrow> go_error" where
  "rotate_commit_error outcome =
     (case outcome of Inr (Commit (Inl _)) \<Rightarrow> WrapError ''commit refresh token reuse revocation'' | _ \<Rightarrow> WrapError ''commit refresh token rotation'')"

definition RotateSession :: "int \<Rightarrow> string \<Rightarrow> string \<Rightarrow> string \<Rightarrow> string \<Rightarrow> int \<Rightarrow> sessionRecord sm" where
  "RotateSession now oldHash newHash userAgent ipAddress expiresAt =
     (let body = RotateSession_body now oldHash newHash userAgent ipAddress expiresAt in
      bindE (\<lambda>s. in_tx (WrapError ''begin refresh token rotation'') (rotate_commit_error (fst (body (stmt_next s)))) body s) liftE)"

definition RevokeSessionByRefreshHash :: "string \<Rightarrow> unit sm" where
  "RevokeSessionByRefreshHash h =
     bindE (mapErr auth_mapDBError (execE (\<lambda>now t. Inr (count_where (\<lambda>r. s_refresh_token_hash r = h) (user_sessions t),
       t\<lparr>user_sessions := update_where (\<lambda>r. s_refresh_token_hash r = h) (\<lambda>r. r\<lparr>s_revoked := True, s_updated_at := now\<rparr>) (user_sessions t)\<rparr>))))
     (\<lambda>affected. guardE (affected = 0) ErrUnauthorized)"

section \<open>Service\<close>

definition normalizeUsername :: "auth_lib \<Rightarrow> string \<Rightarrow> string" where
  "normalizeUsername lib value = ToLower (lib_lower lib) (TrimSpace value)"

definition username_char :: "char \<Rightarrow> bool" where
  "username_char c = (let b = byte c in 97 \<le> b \<and> b \<le> 122 \<or> 65 \<le> b \<and> b \<le> 90 \<or> 48 \<le> b \<and> b \<le> 57 \<or> b = 95)"

definition validateUsername :: "string \<Rightarrow> go_error option" where
  "validateUsername value =
     (if 3 \<le> length value \<and> length value \<le> 32 \<and> list_all username_char value then None
      else Some (ValidationError ''username'' ''must be 3-32 characters and contain only letters, numbers, or underscores''))"

definition validatePassword :: "string \<Rightarrow> go_error option" where
  "validatePassword value =
     (if length value < 8 then Some (ValidationError ''password'' ''must be at least 8 characters'')
      else if length value > 128 then Some (ValidationError ''password'' ''must be at most 128 characters'')
      else None)"

definition hashPassword :: "auth_lib \<Rightarrow> string \<Rightarrow> int \<Rightarrow> go_error + string" where
  "hashPassword lib password cost = bcrypt_generate lib password cost"

definition require :: "go_error option \<Rightarrow> ('s, unit) sem" where
  "require e = (case e of None \<Rightarrow> returnE () | Some x \<Rightarrow> throwE x)"

definition issueTokens :: "AuthService \<Rightarrow> auth_env \<Rightarrow> User \<Rightarrow> string \<Rightarrow> string \<Rightarrow> AuthResponse sm" where
  "issueTokens sv env user userAgent ipAddress =
     bindE (liftE (newAccessToken (as_lib sv) env (JWTSecret (as_cfg sv)) (AccessTokenTTL (as_cfg sv)) user)) (\<lambda>(accessToken, expiresIn).
     bindE (liftE (randomToken (ae_refresh env))) (\<lambda>refreshToken.
     bindE (CreateSession (usr_ID user) (hashToken (as_lib sv) refreshToken) userAgent ipAddress (ae_expiry env + RefreshTokenTTL (as_cfg sv))) (\<lambda>_.
     returnE \<lparr>ar_User = user, ar_AccessToken = accessToken, ar_RefreshToken = refreshToken, ar_ExpiresIn = expiresIn\<rparr>)))"

definition Register :: "AuthService \<Rightarrow> auth_env \<Rightarrow> RegisterInput \<Rightarrow> AuthResponse sm" where
  "Register sv env input =
     (let username = normalizeUsername (as_lib sv) (ri_Username input); nickname = TrimSpace (ri_Nickname input) in
      bindE (require (validateUsername username)) (\<lambda>_.
      bindE (require (validatePassword (ri_Password input))) (\<lambda>_.
      bindE (guardE (length nickname > 64) (ValidationError ''nickname'' ''must be at most 64 characters'')) (\<lambda>_.
      bindE (liftE (hashPassword (as_lib sv) (ri_Password input) (BcryptCost (as_cfg sv)))) (\<lambda>passwordHash.
      bindE (CreateUserWithCredentials username passwordHash nickname) (\<lambda>user.
      issueTokens sv env user (ri_UserAgent input) (ri_IPAddress input)))))))"

definition Login :: "AuthService \<Rightarrow> auth_env \<Rightarrow> LoginInput \<Rightarrow> AuthResponse sm" where
  "Login sv env input =
     (let username = normalizeUsername (as_lib sv) (li_Username input) in
      bindE (guardE (validateUsername username \<noteq> None) ErrUnauthorized) (\<lambda>_.
      bindE (mapErr (\<lambda>e. if errors_is e AuthErrNotFound then ErrUnauthorized else e) (GetCredentialByUsername username)) (\<lambda>(credential, user).
      bindE (guardE (\<not> bcrypt_matches (as_lib sv) (cred_PasswordHash credential) (li_Password input)) ErrUnauthorized) (\<lambda>_.
      issueTokens sv env user (li_UserAgent input) (li_IPAddress input)))))"

definition Refresh :: "AuthService \<Rightarrow> auth_env \<Rightarrow> RefreshInput \<Rightarrow> AuthResponse sm" where
  "Refresh sv env input =
     (let token = TrimSpace (rf_RefreshToken input) in
      bindE (guardE (token = []) (ValidationError ''refresh_token'' ''is required'')) (\<lambda>_.
      bindE (liftE (randomToken (ae_refresh env))) (\<lambda>refreshToken.
      bindE (RotateSession (ae_check env) (hashToken (as_lib sv) token) (hashToken (as_lib sv) refreshToken) (rf_UserAgent input)
        (rf_IPAddress input) (ae_expiry env + RefreshTokenTTL (as_cfg sv))) (\<lambda>session.
      bindE (GetUserByID (ses_UserID session)) (\<lambda>user.
      bindE (liftE (newAccessToken (as_lib sv) env (JWTSecret (as_cfg sv)) (AccessTokenTTL (as_cfg sv)) user)) (\<lambda>(accessToken, expiresIn).
      returnE \<lparr>ar_User = user, ar_AccessToken = accessToken, ar_RefreshToken = refreshToken, ar_ExpiresIn = expiresIn\<rparr>))))))"

definition Logout :: "AuthService \<Rightarrow> string \<Rightarrow> unit sm" where
  "Logout sv rawToken =
     (let token = TrimSpace rawToken in
      bindE (guardE (token = []) (ValidationError ''refresh_token'' ''is required'')) (\<lambda>_.
      RevokeSessionByRefreshHash (hashToken (as_lib sv) token)))"

definition current_of :: "User \<Rightarrow> CurrentUser" where
  "current_of user = \<lparr>cu_ID = usr_ID user, cu_Username = usr_Username user, cu_Role = usr_Role user, cu_Status = usr_Status user\<rparr>"

definition AuthenticateBearer :: "AuthService \<Rightarrow> auth_env \<Rightarrow> string \<Rightarrow> CurrentUser sm" where
  "AuthenticateBearer sv env bearer =
     (let token = TrimSpace bearer in
      if token = [] then throwE ErrUnauthorized
      else case parseAccessToken (as_lib sv) env (JWTSecret (as_cfg sv)) token of
        Inr current \<Rightarrow> bindE (GetUserByID (cu_ID current)) (\<lambda>user. returnE (current_of user))
      | Inl _ \<Rightarrow>
          if as_env sv = ''prod'' then throwE ErrUnauthorized
          else bindE (mapErr (\<lambda>_. ErrUnauthorized) (GetUserByDevTokenHash (hashToken (as_lib sv) token))) (\<lambda>user. returnE (current_of user)))"

definition auth_GetUser :: "int \<Rightarrow> User sm" where
  "auth_GetUser i = GetUserByID i"

definition too_long :: "string option \<Rightarrow> nat \<Rightarrow> bool" where
  "too_long v k = (case v of None \<Rightarrow> False | Some x \<Rightarrow> length (TrimSpace x) > k)"

definition UpdateProfile :: "CurrentUser \<Rightarrow> UpdateProfileInput \<Rightarrow> User sm" where
  "UpdateProfile current input =
     (if cu_ID current \<le> 0 then throwE ErrUnauthorized
      else if cu_Status current \<noteq> ''active'' then throwE ErrForbidden
      else if too_long (up_Nickname input) 64 then throwE (ValidationError ''nickname'' ''must be at most 64 characters'')
      else if too_long (up_AvatarURL input) 512 then throwE (ValidationError ''avatar_url'' ''must be at most 512 characters'')
      else if too_long (up_Bio input) 500 then throwE (ValidationError ''bio'' ''must be at most 500 characters'')
      else UpdateUserProfile (cu_ID current) input)"

end
