(* ===== verification/Evidence_Store.thy ===== *)
theory Evidence_Store
  imports Auth
begin

text \<open>
  The rows of the evidence tables (\<open>migrations/000009\<close>, \<open>000012\<close>, \<open>000014\<close>, \<open>000016\<close>): registered sources and their captured payloads, the
  frozen dataset versions with their sources, daily fact payloads, ingestion runs with their inputs and documents, and documents
  with their sources, chunks and citations. The ingestion job writes these rows and retrieval reads them.
\<close>

record dataset_version_row =
  dv_id :: int
  dv_dataset_id :: int
  dv_project_id :: int
  dv_version :: int
  dv_status :: string
  dv_manifest_checksum :: string
  dv_source_count :: int

record dataset_version_source_row =
  dvs_dataset_version_id :: int
  dvs_evidence_source_id :: int
  dvs_project_id :: int
  dvs_source_type :: string
  dvs_source_id :: int
  dvs_source_version :: int
  dvs_content_hash :: string
  dvs_visibility :: string

record evidence_source_row =
  es_id :: int
  es_project_id :: int
  es_source_type :: string
  es_source_id :: int
  es_source_version :: int
  es_index_status :: string
  es_deleted_at :: "int option"

text \<open>A captured payload. Its members \<open>note_id\<close> and \<open>position\<close> are read in SQL through \<open>->>\<close> and a cast.\<close>

record source_payload_row =
  sp_evidence_source_id :: int
  sp_canonical_text :: string
  sp_source_payload :: json

record daily_fact_payload_row =
  fp_id :: int
  fp_project_id :: int
  fp_fact_type :: string
  fp_subject_id :: int
  fp_fact_date :: int
  fp_source_version :: int
  fp_source_payload :: json
  fp_payload_hash :: string
  fp_captured_at :: int

record ingestion_run_row =
  ir_run_id :: string
  ir_project_id :: int
  ir_dataset_id :: int
  ir_dataset_version_id :: int
  ir_mode :: string
  ir_parser_version :: string
  ir_chunker_version :: string
  ir_tokenizer_version :: string
  ir_status :: string
  ir_dataset_manifest_checksum :: string
  ir_input_checksum :: "string option"
  ir_output_checksum :: "string option"
  ir_source_count :: int
  ir_fact_source_count :: int
  ir_document_count :: int
  ir_chunk_count :: int
  ir_citation_count :: int
  ir_reused_document_count :: int
  ir_error_message :: "string option"
  ir_started_at :: int
  ir_completed_at :: "int option"

record run_fact_input_row =
  fi_run_id :: string
  fi_daily_fact_payload_id :: int
  fi_fact_type :: string
  fi_subject_id :: int
  fi_fact_date :: int
  fi_source_version :: int
  fi_content_hash :: string

record run_document_row =
  rd_run_id :: string
  rd_document_id :: int
  rd_disposition :: string

record document_row =
  ed_id :: int
  ed_document_key :: string
  ed_project_id :: int
  ed_dataset_id :: int
  ed_dataset_version_id :: int
  ed_document_type :: string
  ed_source_type :: string
  ed_source_id :: "int option"
  ed_source_key :: string
  ed_source_version :: int
  ed_source_content_hash :: string
  ed_parser_version :: string
  ed_visibility :: string
  ed_canonical_text :: string
  ed_content_hash :: string
  ed_metadata :: json
  ed_expected_chunk_count :: int
  ed_lifecycle_status :: string
  ed_source_created_at :: "int option"
  ed_source_updated_at :: "int option"
  ed_deleted_at :: "int option"

record document_source_row =
  ds_document_id :: int
  ds_evidence_source_id :: "int option"
  ds_daily_fact_payload_id :: "int option"
  ds_source_type :: string
  ds_source_id :: int
  ds_source_version :: int
  ds_content_hash :: string
  ds_source_order :: int

record chunk_row =
  ec_id :: int
  ec_chunk_key :: string
  ec_document_id :: int
  ec_chunk_index :: int
  ec_start_byte :: int
  ec_end_byte :: int
  ec_start_rune :: int
  ec_end_rune :: int
  ec_content :: string
  ec_content_hash :: string
  ec_chunker_version :: string
  ec_tokenizer_version :: string
  ec_lexemes :: string
  ec_metadata :: json

record citation_row =
  ct_id :: int
  ct_citation_key :: string
  ct_document_id :: int
  ct_chunk_id :: int
  ct_project_id :: int
  ct_dataset_id :: int
  ct_dataset_version_id :: int
  ct_evidence_source_id :: "int option"
  ct_daily_fact_payload_id :: "int option"
  ct_source_type :: string
  ct_source_id :: int
  ct_source_version :: int
  ct_source_content_hash :: string
  ct_parser_version :: string
  ct_document_start_byte :: int
  ct_document_end_byte :: int
  ct_source_start_byte :: int
  ct_source_end_byte :: int
  ct_quote_hash :: string

record evidence_tables =
  dataset_versions :: "dataset_version_row list"
  dataset_version_sources :: "dataset_version_source_row list"
  evidence_sources :: "evidence_source_row list"
  evidence_source_payloads :: "source_payload_row list"
  daily_fact_payloads :: "daily_fact_payload_row list"
  ingestion_runs :: "ingestion_run_row list"
  ingestion_run_fact_inputs :: "run_fact_input_row list"
  ingestion_run_documents :: "run_document_row list"
  evidence_documents :: "document_row list"
  evidence_document_sources :: "document_source_row list"
  evidence_chunks :: "chunk_row list"
  source_citations :: "citation_row list"

section \<open>Reading the tables\<close>

definition doc_in_run :: "evidence_tables \<Rightarrow> string \<Rightarrow> int \<Rightarrow> bool" where
  "doc_in_run t runID d = exists_row (\<lambda>r. rd_document_id r = d \<and> rd_run_id r = runID) (ingestion_run_documents t)"

definition doc_by_id :: "evidence_tables \<Rightarrow> int \<Rightarrow> document_row option" where
  "doc_by_id t i = find (\<lambda>d. ed_id d = i) (evidence_documents t)"

text \<open>A source that was withdrawn: deleted, or marked so in the registry.\<close>

definition source_deleted :: "evidence_source_row \<Rightarrow> bool" where
  "source_deleted s = (es_deleted_at s \<noteq> None \<or> es_index_status s = ''deleted'')"

definition newer_active_source :: "evidence_tables \<Rightarrow> evidence_source_row \<Rightarrow> bool" where
  "newer_active_source t s =
     exists_row (\<lambda>a. es_project_id a = es_project_id s \<and> es_source_type a = es_source_type s \<and> es_source_id a = es_source_id s \<and>
        es_source_version a > es_source_version s \<and> \<not> source_deleted a) (evidence_sources t)"

definition doc_has_source :: "evidence_tables \<Rightarrow> int \<Rightarrow> (evidence_source_row \<Rightarrow> bool) \<Rightarrow> bool" where
  "doc_has_source t d P =
     exists_row (\<lambda>x. ds_document_id x = d \<and>
        exists_row (\<lambda>s. Some (es_id s) = ds_evidence_source_id x \<and> P s) (evidence_sources t)) (evidence_document_sources t)"

end
