(* ===== verification/Retrieval_Scope.thy ===== *)
theory Retrieval_Scope
  imports Evidence_Store
begin

text \<open>
  The scope of a retrieval request: the index tables (\<open>migrations/000017\<close>, \<open>000020\<close>, \<open>000021\<close>) and the agent's tables beside the community and evidence tables, and \<open>ResolveScope\<close> and \<open>ResolveAccess\<close> of \<open>retrieval/repository.go\<close>. The order the
  database gives to texts (its collation) is a parameter. The row records hold the columns these queries and the agent read;
  a statement that would break a length or range check of the schema fails like any other failing statement.
\<close>

section \<open>Tables\<close>

record lexical_index_row =
  lx_ingestion_run_id :: string
  lx_index_version :: string
  lx_index_checksum :: "string option"
  lx_status :: string

record vector_index_row =
  vx_ingestion_run_id :: string
  vx_index_version :: string
  vx_index_checksum :: "string option"
  vx_collection_name :: string
  vx_embedding_model :: string
  vx_embedding_revision :: string
  vx_status :: string
  vx_vector_dimension :: int
  vx_distance_metric :: string
  vx_point_count :: int
  vx_checkpoint_chunk_id :: int
  vx_checkpoint_point_count :: int
  vx_build_attempt :: int
  vx_lease_owner :: "string option"
  vx_lease_token :: "string option"
  vx_lease_expires_at :: "int option"
  vx_heartbeat_at :: "int option"
  vx_last_reconciled_at :: "int option"
  vx_orphan_point_count :: int
  vx_missing_point_count :: int
  vx_error_message :: "string option"
  vx_started_at :: int
  vx_completed_at :: "int option"

record prompt_row =
  pv_id :: int
  pv_prompt_key :: string
  pv_version :: string
  pv_purpose :: string
  pv_template_sha256 :: string
  pv_status :: string
  pv_created_at :: int

record model_row =
  mv_id :: int
  mv_provider :: string
  mv_model :: string
  mv_revision :: string
  mv_parameters :: string
  mv_artifact_sha256 :: "string option"
  mv_status :: string
  mv_created_at :: int

record Budget =
  MaxSteps :: int
  MaxRetrievalCalls :: int
  MaxModelCalls :: int
  MaxInputTokens :: int
  MaxOutputTokens :: int
  MaxDurationMS :: int
  MaxCostMicros :: int

record Usage =
  Steps :: int
  RetrievalCalls :: int
  ModelCalls :: int
  InputTokens :: int
  OutputTokens :: int
  CostMicros :: int

text \<open>A row of \<open>agent_runs\<close>; its budget and usage columns are grouped as the Go structs group them.\<close>

record agent_run_row =
  ag_id :: string
  ag_project_id :: int
  ag_dataset_version_id :: int
  ag_ingestion_run_id :: string
  ag_requested_by :: int
  ag_query :: string
  ag_requested_mode :: string
  ag_intent :: string
  ag_retrieval_plan :: string
  ag_report :: "string option"
  ag_prompt_version_id :: int
  ag_model_version_id :: "int option"
  ag_status :: string
  ag_budget :: Budget
  ag_usage :: Usage
  ag_cancellation_requested :: bool
  ag_idempotency_key :: "string option"
  ag_request_hash :: string
  ag_request_id :: "string option"
  ag_trace_id :: "string option"
  ag_failure_code :: "string option"
  ag_failure_message :: "string option"
  ag_started_at :: "int option"
  ag_completed_at :: "int option"
  ag_created_at :: int
  ag_updated_at :: int

record rag_store =
  core :: store
  evid :: evidence_tables
  retrieval_lexical_indexes :: "lexical_index_row list"
  retrieval_vector_indexes :: "vector_index_row list"
  agent_prompt_versions :: "prompt_row list"
  agent_model_versions :: "model_row list"
  agent_runs :: "agent_run_row list"

type_synonym 'a rm = "(rag_store, 'a) dbm"

section \<open>Scopes\<close>

record Scope =
  sc_ProjectID :: int
  sc_ProjectVisibility :: string
  sc_DatasetID :: int
  sc_DatasetVersionID :: int
  sc_DatasetVersion :: int
  sc_DatasetManifestChecksum :: string
  sc_IngestionRunID :: string
  sc_IngestionOutputChecksum :: string
  sc_ParserVersion :: string
  sc_ChunkerVersion :: string
  sc_TokenizerVersion :: string
  sc_LexicalIndexVersion :: string
  sc_LexicalIndexChecksum :: string
  sc_VectorIndexVersion :: string
  sc_VectorIndexChecksum :: string
  sc_VectorCollection :: string
  sc_EmbeddingModel :: string
  sc_EmbeddingRevision :: string
  sc_AccessScope :: string

definition ModeLexical :: string where "ModeLexical = ''lexical''"
definition ModeVector :: string where "ModeVector = ''vector''"
definition ModeHybrid :: string where "ModeHybrid = ''hybrid''"
definition LexicalIndexVersion :: string where "LexicalIndexVersion = ''postgres_ts_stat_v1''"
definition VectorIndexVersion :: string where "VectorIndexVersion = ''qwen3_dense_cosine_v1''"

definition ErrScopeNotFound :: go_error where
  "ErrScopeNotFound = ErrorString ''retrieval scope not found''"

text \<open>
  The joined rows of \<open>ResolveScope\<close>. A run has at most one lexical index (its key) and at most one vector index of the
  current version (the key of that table is the run with the version). A completed run has an output checksum (a check of the schema).
\<close>

definition scope_of :: "rag_store \<Rightarrow> ingestion_run_row \<Rightarrow> Scope option" where
  "scope_of t r =
     (case find (\<lambda>d. dv_id d = ir_dataset_version_id r) (dataset_versions (evid t)) of
        None \<Rightarrow> None
      | Some d \<Rightarrow>
        (case find (\<lambda>p. p_id p = ir_project_id r) (projects (core t)) of
           None \<Rightarrow> None
         | Some p \<Rightarrow>
            let li = find (\<lambda>i. lx_ingestion_run_id i = ir_run_id r \<and> lx_status i = ''completed'') (retrieval_lexical_indexes t);
                vi = find (\<lambda>i. vx_ingestion_run_id i = ir_run_id r \<and> vx_index_version i = VectorIndexVersion \<and> vx_status i = ''completed'')
                       (retrieval_vector_indexes t) in
            Some \<lparr>sc_ProjectID = ir_project_id r, sc_ProjectVisibility = p_visibility p, sc_DatasetID = ir_dataset_id r,
              sc_DatasetVersionID = ir_dataset_version_id r, sc_DatasetVersion = dv_version d,
              sc_DatasetManifestChecksum = ir_dataset_manifest_checksum r, sc_IngestionRunID = ir_run_id r,
              sc_IngestionOutputChecksum = coalesce (ir_output_checksum r), sc_ParserVersion = ir_parser_version r,
              sc_ChunkerVersion = ir_chunker_version r, sc_TokenizerVersion = ir_tokenizer_version r,
              sc_LexicalIndexVersion = (case li of None \<Rightarrow> [] | Some i \<Rightarrow> lx_index_version i),
              sc_LexicalIndexChecksum = (case li of None \<Rightarrow> [] | Some i \<Rightarrow> coalesce (lx_index_checksum i)),
              sc_VectorIndexVersion = (case vi of None \<Rightarrow> [] | Some i \<Rightarrow> vx_index_version i),
              sc_VectorIndexChecksum = (case vi of None \<Rightarrow> [] | Some i \<Rightarrow> coalesce (vx_index_checksum i)),
              sc_VectorCollection = (case vi of None \<Rightarrow> [] | Some i \<Rightarrow> vx_collection_name i),
              sc_EmbeddingModel = (case vi of None \<Rightarrow> [] | Some i \<Rightarrow> vx_embedding_model i),
              sc_EmbeddingRevision = (case vi of None \<Rightarrow> [] | Some i \<Rightarrow> vx_embedding_revision i), sc_AccessScope = []\<rparr>))"

definition scope_filter :: "int \<Rightarrow> int \<Rightarrow> string \<Rightarrow> ingestion_run_row \<Rightarrow> bool" where
  "scope_filter projectID datasetVersionID ingestionRunID r =
     (ir_status r = ''completed'' \<and> (ingestionRunID = [] \<or> ir_run_id r = ingestionRunID) \<and>
      (projectID = 0 \<or> ir_project_id r = projectID) \<and> (datasetVersionID = 0 \<or> ir_dataset_version_id r = datasetVersionID))"

text \<open>\<open>ORDER BY completed_at DESC, run_id DESC\<close>: a null comes first.\<close>

definition newest_run_key :: "(string \<Rightarrow> int) \<Rightarrow> ingestion_run_row \<Rightarrow> int \<times> int \<times> int" where
  "newest_run_key coll r =
     (case ir_completed_at r of None \<Rightarrow> (0, 0, - coll (ir_run_id r)) | Some x \<Rightarrow> (1, - x, - coll (ir_run_id r)))"

definition ResolveScope :: "(string \<Rightarrow> int) \<Rightarrow> int \<Rightarrow> int \<Rightarrow> string \<Rightarrow> Scope rm" where
  "ResolveScope coll projectID datasetVersionID ingestionRunID =
     mapErr (\<lambda>e. if errors_is e SqlErrNoRows then ErrScopeNotFound else WrapError ''resolve retrieval scope'' e)
       (query_row (\<lambda>t.
          case List.map_filter (scope_of t)
                 (sort_key (newest_run_key coll) (filter (scope_filter projectID datasetVersionID (TrimSpace ingestionRunID)) (ingestion_runs (evid t)))) of
            [] \<Rightarrow> None
          | sc # _ \<Rightarrow> Some sc))"

definition project_access :: "store \<Rightarrow> int \<Rightarrow> int \<Rightarrow> string" where
  "project_access t projectID userID =
     (case find (\<lambda>p. p_id p = projectID \<and> p_status p = ''active'') (projects t) of
        None \<Rightarrow> ''none''
      | Some p \<Rightarrow>
          if exists_row (\<lambda>m. m_project_id m = projectID \<and> m_user_id m = userID \<and> m_status m = ''active'') (project_members t) then ''member''
          else if p_visibility p = ''public'' then ''public'' else ''none'')"

definition ResolveAccess :: "Scope \<Rightarrow> int \<Rightarrow> string rm" where
  "ResolveAccess sc userID =
     mapErr (WrapError ''resolve retrieval access'') (selectE (\<lambda>t. project_access (core t) (sc_ProjectID sc) userID))"

end
