(* ===== verification/Agent.thy ===== *)
theory Agent
  imports Retrieval_Scope
begin

text \<open>
  Runs of the insight agent: \<open>agent/models.go\<close>, \<open>agent/repository.go\<close> and \<open>agent/service.go\<close> with the triggers that guard the
  table (\<open>migrations/000024\<close>, \<open>000027\<close>, \<open>000028\<close>). Parameters (\<open>agent_lib\<close>): SHA-256, the case table, the JSON text of a retrieval contract, of
  the request lineage and of a list cursor, \<open>uuid.Parse\<close>, the database's reading of a text as UUID, and its collation.
\<close>

section \<open>Models\<close>

definition StatusQueued :: string where "StatusQueued = ''queued''"
definition StatusRunning :: string where "StatusRunning = ''running''"
definition StatusSucceeded :: string where "StatusSucceeded = ''succeeded''"
definition StatusFailed :: string where "StatusFailed = ''failed''"
definition StatusCancelled :: string where "StatusCancelled = ''cancelled''"
definition DefaultPromptKey :: string where "DefaultPromptKey = ''insight-agent-system''"
definition DefaultPromptVersion :: string where "DefaultPromptVersion = ''v1''"
definition DefaultListLimit :: int where "DefaultListLimit = 20"
definition MaxListLimit :: int where "MaxListLimit = 100"
definition MaxQueryRunes :: int where "MaxQueryRunes = 2000"

definition AgentErrInvalidInput :: go_error where "AgentErrInvalidInput = ErrorString ''invalid agent input''"
definition AgentErrNotFound :: go_error where "AgentErrNotFound = ErrorString ''agent run not found''"
definition AgentErrForbidden :: go_error where "AgentErrForbidden = ErrorString ''agent operation forbidden''"
definition ErrConflict :: go_error where "ErrConflict = ErrorString ''agent run state conflict''"
definition ErrIdempotencyConflict :: go_error where "ErrIdempotencyConflict = ErrorString ''agent idempotency key reused with different input''"
definition ErrScopeUnavailable :: go_error where "ErrScopeUnavailable = ErrorString ''agent retrieval scope is unavailable''"

record PromptVersion =
  prompt_ID :: int
  prompt_PromptKey :: string
  prompt_Version :: string
  prompt_Purpose :: string
  prompt_TemplateSHA256 :: string
  prompt_CreatedAt :: int

record ModelVersion =
  model_ID :: int
  model_Provider :: string
  model_Model :: string
  model_Revision :: string
  model_Parameters :: string
  model_ArtifactSHA256 :: string
  model_CreatedAt :: int

record RetrievalContract =
  rc_Mode :: string
  rc_ProjectID :: int
  rc_DatasetID :: int
  rc_DatasetVersionID :: int
  rc_DatasetManifestChecksum :: string
  rc_IngestionRunID :: string
  rc_IngestionOutputChecksum :: string
  rc_ParserVersion :: string
  rc_ChunkerVersion :: string
  rc_TokenizerVersion :: string
  rc_LexicalIndexVersion :: string
  rc_LexicalIndexChecksum :: string
  rc_VectorIndexVersion :: string
  rc_VectorIndexChecksum :: string
  rc_EmbeddingModel :: string
  rc_EmbeddingRevision :: string
  rc_AccessScope :: string

record AgentRun =
  run_ID :: string
  run_ProjectID :: int
  run_DatasetVersionID :: int
  run_IngestionRunID :: string
  run_RequestedBy :: int
  run_Query :: string
  run_RequestedMode :: string
  run_Intent :: string
  run_RetrievalPlan :: RetrievalContract
  run_Report :: string
  run_Prompt :: PromptVersion
  run_Model :: "ModelVersion option"
  run_Status :: string
  run_Budget :: Budget
  run_Usage :: Usage
  run_CancellationRequested :: bool
  run_IdempotencyKey :: string
  run_RequestID :: string
  run_TraceID :: string
  run_FailureCode :: string
  run_FailureMessage :: string
  run_StartedAt :: "int option"
  run_CompletedAt :: "int option"
  run_CreatedAt :: int
  run_UpdatedAt :: int

record CreateRunInput =
  ci_ProjectID :: int
  ci_DatasetVersionID :: int
  ci_IngestionRunID :: string
  ci_Query :: string
  ci_Mode :: string
  ci_Budget :: Budget
  ci_IdempotencyKey :: string

record CreateResult =
  res_Run :: AgentRun
  res_Replayed :: bool

record ListRunsInput =
  lr_Limit :: int
  lr_Cursor :: string

record RunPage =
  rp_Items :: "AgentRun list"
  rp_NextCursor :: string

record createRecord =
  rec_ProjectID :: int
  rec_DatasetVersionID :: int
  rec_IngestionRunID :: string
  rec_RequestedBy :: int
  rec_Query :: string
  rec_Mode :: string
  rec_Intent :: string
  rec_RetrievalPlan :: RetrievalContract
  rec_PromptVersionID :: int
  rec_Budget :: Budget
  rec_IdempotencyKey :: string
  rec_RequestHash :: string
  rec_RequestID :: string
  rec_TraceID :: string

record runCursor =
  rcur_CreatedAt :: int
  rcur_ID :: string

record agent_lib =
  al_sha256 :: "string \<Rightarrow> nat list"
  al_lower :: "nat \<Rightarrow> nat"
  plan_json :: "RetrievalContract \<Rightarrow> string"
  plan_unjson :: "string \<Rightarrow> RetrievalContract option"
  lineage_json :: "string \<Rightarrow> RetrievalContract \<Rightarrow> string \<Rightarrow> Budget \<Rightarrow> string"
  run_cursor_json :: "runCursor \<Rightarrow> string"
  run_cursor_unjson :: "string \<Rightarrow> runCursor option"
  uuid_parses :: "string \<Rightarrow> bool"
  pg_uuid :: "string \<Rightarrow> string option"
  al_coll :: "string \<Rightarrow> int"

section \<open>Triggers\<close>

definition raised :: "string \<Rightarrow> go_error" where
  "raised m = PgError ''P0001'' m"

definition terminal :: "string \<Rightarrow> bool" where
  "terminal st = (st \<in> {StatusSucceeded, StatusFailed, StatusCancelled})"

definition scope_matches :: "rag_store \<Rightarrow> agent_run_row \<Rightarrow> bool" where
  "scope_matches t r =
     (case find (\<lambda>i. ir_run_id i = ag_ingestion_run_id r) (ingestion_runs (evid t)) of
        None \<Rightarrow> False
      | Some i \<Rightarrow> ir_status i = ''completed'' \<and> ir_project_id i = ag_project_id r \<and> ir_dataset_version_id i = ag_dataset_version_id r)"

definition validate_agent_run_insert :: "rag_store \<Rightarrow> agent_run_row \<Rightarrow> go_error option" where
  "validate_agent_run_insert t new =
     (if \<not> scope_matches t new then Some (raised ''agent run retrieval scope is not a completed matching ingestion run'')
      else if \<not> exists_row (\<lambda>p. pv_id p = ag_prompt_version_id new \<and> pv_status p = ''frozen'') (agent_prompt_versions t)
        then Some (raised ''new agent run prompt version must be frozen'')
      else if ag_model_version_id new \<noteq> None then Some (raised ''new agent runs bind a model only when dispatched'')
      else if ag_status new \<noteq> StatusQueued then Some (raised ''new agent runs must be queued'')
      else None)"

text \<open>The columns of the request lineage.\<close>

definition run_lineage :: "agent_run_row \<Rightarrow> _" where
  "run_lineage r = (ag_id r, ag_project_id r, ag_dataset_version_id r, ag_ingestion_run_id r, ag_requested_by r, ag_query r,
     ag_requested_mode r, ag_retrieval_plan r, ag_prompt_version_id r, ag_budget r, ag_idempotency_key r, ag_request_hash r,
     ag_request_id r, ag_trace_id r, ag_created_at r)"

definition status_step :: "string \<Rightarrow> string \<Rightarrow> bool" where
  "status_step old new =
     (new = old \<or> old = StatusQueued \<and> new \<in> {StatusRunning, StatusFailed, StatusCancelled} \<or>
      old = StatusRunning \<and> new \<in> {StatusSucceeded, StatusFailed, StatusCancelled})"

definition validate_agent_run_update :: "rag_store \<Rightarrow> agent_run_row \<Rightarrow> agent_run_row \<Rightarrow> go_error option" where
  "validate_agent_run_update t old new =
     (if \<not> scope_matches t new then Some (raised ''agent run retrieval scope is not a completed matching ingestion run'')
      else if terminal (ag_status old) then Some (raised (''terminal agent run '' @ ag_id old @ '' is immutable''))
      else if run_lineage new \<noteq> run_lineage old then Some (raised (''agent run '' @ ag_id old @ '' immutable request lineage changed''))
      else if ag_model_version_id new \<noteq> ag_model_version_id old \<and>
          \<not> (ag_status old = StatusQueued \<and> ag_status new = StatusRunning \<and> ag_model_version_id old = None \<and> ag_model_version_id new \<noteq> None)
        then Some (raised (''agent run '' @ ag_id old @ '' model lineage may only bind once at dispatch''))
      else if ag_model_version_id new \<noteq> ag_model_version_id old \<and>
          \<not> exists_row (\<lambda>m. Some (mv_id m) = ag_model_version_id new \<and> mv_status m = ''frozen'') (agent_model_versions t)
        then Some (raised ''agent run model version must be frozen at dispatch'')
      else if \<not> status_step (ag_status old) (ag_status new) then Some (raised (''invalid agent run status transition '' @ ag_status old @ '' -> '' @ ag_status new))
      else None)"

section \<open>Repository\<close>

definition scan_prompt :: "prompt_row \<Rightarrow> PromptVersion" where
  "scan_prompt p = \<lparr>prompt_ID = pv_id p, prompt_PromptKey = pv_prompt_key p, prompt_Version = pv_version p, prompt_Purpose = pv_purpose p,
     prompt_TemplateSHA256 = pv_template_sha256 p, prompt_CreatedAt = pv_created_at p\<rparr>"

definition GetPromptVersion :: "string \<Rightarrow> string \<Rightarrow> PromptVersion rm" where
  "GetPromptVersion key version =
     mapErr (\<lambda>e. if errors_is e SqlErrNoRows then ErrScopeUnavailable else WrapError ''load agent prompt version'' e)
       (query_row (\<lambda>t. map_option scan_prompt
          (find (\<lambda>p. pv_prompt_key p = key \<and> pv_version p = version \<and> pv_status p = ''frozen'') (agent_prompt_versions t))))"

definition scan_model :: "model_row \<Rightarrow> ModelVersion" where
  "scan_model m = \<lparr>model_ID = mv_id m, model_Provider = mv_provider m, model_Model = mv_model m, model_Revision = mv_revision m,
     model_Parameters = mv_parameters m, model_ArtifactSHA256 = coalesce (mv_artifact_sha256 m), model_CreatedAt = mv_created_at m\<rparr>"

text \<open>\<open>runSelectSQL\<close>: a run with its prompt and, where it has one, its model.\<close>

definition joined_runs :: "rag_store \<Rightarrow> (agent_run_row \<times> prompt_row \<times> model_row option) list" where
  "joined_runs t = List.map_filter (\<lambda>r.
     map_option (\<lambda>p. (r, p, case ag_model_version_id r of None \<Rightarrow> None | Some m \<Rightarrow> find (\<lambda>x. mv_id x = m) (agent_model_versions t)))
       (find (\<lambda>p. pv_id p = ag_prompt_version_id r) (agent_prompt_versions t))) (agent_runs t)"

definition scanRun :: "agent_lib \<Rightarrow> agent_run_row \<times> prompt_row \<times> model_row option \<Rightarrow> go_error + AgentRun" where
  "scanRun lib row =
     (case row of (r, p, m) \<Rightarrow>
       (case plan_unjson lib (ag_retrieval_plan r) of
          None \<Rightarrow> Inl (WrapError ''decode agent retrieval plan'' (ErrorString ''invalid JSON''))
        | Some plan \<Rightarrow> Inr
           \<lparr>run_ID = ag_id r, run_ProjectID = ag_project_id r, run_DatasetVersionID = ag_dataset_version_id r,
            run_IngestionRunID = ag_ingestion_run_id r, run_RequestedBy = ag_requested_by r, run_Query = ag_query r,
            run_RequestedMode = ag_requested_mode r, run_Intent = ag_intent r, run_RetrievalPlan = plan, run_Report = coalesce (ag_report r),
            run_Prompt = scan_prompt p, run_Model = map_option scan_model m, run_Status = ag_status r, run_Budget = ag_budget r,
            run_Usage = ag_usage r, run_CancellationRequested = ag_cancellation_requested r,
            run_IdempotencyKey = coalesce (ag_idempotency_key r), run_RequestID = coalesce (ag_request_id r), run_TraceID = coalesce (ag_trace_id r),
            run_FailureCode = coalesce (ag_failure_code r), run_FailureMessage = coalesce (ag_failure_message r),
            run_StartedAt = ag_started_at r, run_CompletedAt = ag_completed_at r, run_CreatedAt = ag_created_at r, run_UpdatedAt = ag_updated_at r\<rparr>))"

definition load_run :: "agent_lib \<Rightarrow> (agent_run_row \<Rightarrow> bool) \<Rightarrow> AgentRun rm" where
  "load_run lib P = bindE (query_row (\<lambda>t. find (\<lambda>(r, _). P r) (joined_runs t))) (\<lambda>row. liftE (scanRun lib row))"

definition no_usage :: Usage where
  "no_usage = \<lparr>Steps = 0, RetrievalCalls = 0, ModelCalls = 0, InputTokens = 0, OutputTokens = 0, CostMicros = 0\<rparr>"

definition new_run_row :: "agent_lib \<Rightarrow> string \<Rightarrow> createRecord \<Rightarrow> int \<Rightarrow> agent_run_row" where
  "new_run_row lib uuid input now =
     \<lparr>ag_id = uuid, ag_project_id = rec_ProjectID input, ag_dataset_version_id = rec_DatasetVersionID input,
      ag_ingestion_run_id = rec_IngestionRunID input, ag_requested_by = rec_RequestedBy input, ag_query = rec_Query input,
      ag_requested_mode = rec_Mode input, ag_intent = rec_Intent input, ag_retrieval_plan = plan_json lib (rec_RetrievalPlan input),
      ag_report = None, ag_prompt_version_id = rec_PromptVersionID input, ag_model_version_id = None, ag_status = StatusQueued,
      ag_budget = rec_Budget input, ag_usage = no_usage, ag_cancellation_requested = False,
      ag_idempotency_key = nullif_empty (rec_IdempotencyKey input), ag_request_hash = rec_RequestHash input,
      ag_request_id = nullif_empty (rec_RequestID input), ag_trace_id = nullif_empty (rec_TraceID input), ag_failure_code = None,
      ag_failure_message = None, ag_started_at = None, ag_completed_at = None, ag_created_at = now, ag_updated_at = now\<rparr>"

definition same_key :: "int \<Rightarrow> string option \<Rightarrow> agent_run_row \<Rightarrow> bool" where
  "same_key user key r = (key \<noteq> None \<and> ag_requested_by r = user \<and> ag_idempotency_key r = key)"

text \<open>
  The insertion: the trigger runs before the conflict with the unique index on user and key is looked for; a conflict
  inserts nothing and returns no row.
\<close>

definition insert_run :: "agent_lib \<Rightarrow> string \<Rightarrow> createRecord \<Rightarrow> string rm" where
  "insert_run lib uuid input = execE (\<lambda>now t.
     let r = new_run_row lib uuid input now in
     case validate_agent_run_insert t r of
       Some e \<Rightarrow> Inl e
     | None \<Rightarrow>
        if exists_row (same_key (rec_RequestedBy input) (ag_idempotency_key r)) (agent_runs t) then Inl SqlErrNoRows
        else if exists_row (\<lambda>x. ag_id x = uuid) (agent_runs t) then Inl unique_violation
        else if \<not> exists_row (\<lambda>p. p_id p = rec_ProjectID input) (projects (core t)) \<or>
            \<not> exists_row (\<lambda>d. dv_id d = rec_DatasetVersionID input) (dataset_versions (evid t)) \<or> \<not> user_exists (rec_RequestedBy input) (core t)
          then Inl fk_violation
        else Inr (uuid, t\<lparr>agent_runs := agent_runs t @ [r]\<rparr>))"

definition agent_CreateRun_body :: "agent_lib \<Rightarrow> string \<Rightarrow> createRecord \<Rightarrow> (AgentRun \<times> bool) tx_result rm" where
  "agent_CreateRun_body lib uuid input =
     bindE (mapErr (WrapError ''insert agent run'') (or_no_rows None (bindE (insert_run lib uuid input) (\<lambda>i. returnE (Some i))))) (\<lambda>inserted.
     bindE (case inserted of
         Some runID \<Rightarrow> returnE (runID, False)
       | None \<Rightarrow>
          if rec_IdempotencyKey input = [] then throwE (ErrorString ''create agent run returned no row'')
          else bindE (mapErr (WrapError ''load idempotent agent run'') (query_row (\<lambda>t. map_option (\<lambda>r. (ag_id r, ag_request_hash r))
                 (find (same_key (rec_RequestedBy input) (Some (rec_IdempotencyKey input))) (agent_runs t))))) (\<lambda>(runID, existingHash).
               if existingHash \<noteq> rec_RequestHash input then throwE ErrIdempotencyConflict else returnE (runID, True))) (\<lambda>(runID, replayed).
     bindE (mapErr (WrapError ''load created agent run'') (load_run lib (\<lambda>r. ag_id r = runID))) (\<lambda>run.
     returnE (Commit (run, replayed)))))"

definition agent_CreateRun :: "agent_lib \<Rightarrow> string \<Rightarrow> createRecord \<Rightarrow> (AgentRun \<times> bool) rm" where
  "agent_CreateRun lib uuid input =
     in_tx (WrapError ''begin agent run create'') (WrapError ''commit agent run create'') (agent_CreateRun_body lib uuid input)"

text \<open>A text the database cannot read as UUID fails the statement.\<close>

definition with_uuid :: "agent_lib \<Rightarrow> string \<Rightarrow> (string \<Rightarrow> 'a rm) \<Rightarrow> 'a rm" where
  "with_uuid lib raw k = (case pg_uuid lib raw of None \<Rightarrow> throwE (PgError ''22P02'' ''invalid input syntax for type uuid'') | Some i \<Rightarrow> k i)"

definition may_see :: "int \<Rightarrow> bool \<Rightarrow> agent_run_row \<Rightarrow> bool" where
  "may_see userID admin r = (admin \<or> ag_requested_by r = userID)"

definition agent_GetRun :: "agent_lib \<Rightarrow> string \<Rightarrow> int \<Rightarrow> bool \<Rightarrow> AgentRun rm" where
  "agent_GetRun lib runID userID admin =
     mapErr (\<lambda>e. if errors_is e SqlErrNoRows then AgentErrNotFound else WrapError ''load agent run'' e)
       (with_uuid lib runID (\<lambda>i. load_run lib (\<lambda>r. ag_id r = i \<and> may_see userID admin r)))"

text \<open>UUIDs are ordered by their 128 bits, which is the order of the numbers their hexadecimal digits write.\<close>

definition hex_value :: "char \<Rightarrow> int" where
  "hex_value c = (let b = int (byte c) in if 48 \<le> b \<and> b \<le> 57 then b - 48 else if 97 \<le> b \<and> b \<le> 102 then b - 87 else 0)"

definition uuid_num :: "string \<Rightarrow> int" where
  "uuid_num s = foldl (\<lambda>a c. a * 16 + hex_value c) 0 (filter (\<lambda>c. c \<noteq> CHR ''-'') s)"

definition run_key :: "agent_run_row \<Rightarrow> int \<times> int" where
  "run_key r = (- ag_created_at r, - uuid_num (ag_id r))"

definition after_run_cursor :: "(int \<times> string) option \<Rightarrow> agent_run_row \<Rightarrow> bool" where
  "after_run_cursor cursor r =
     (case cursor of None \<Rightarrow> True
      | Some (at, i) \<Rightarrow> ag_created_at r < at \<or> ag_created_at r = at \<and> uuid_num (ag_id r) < uuid_num i)"

fun scan_runs :: "agent_lib \<Rightarrow> (agent_run_row \<times> prompt_row \<times> model_row option) list \<Rightarrow> go_error + AgentRun list" where
  "scan_runs lib [] = Inr []"
| "scan_runs lib (row # rows) =
     (case scanRun lib row of
        Inl e \<Rightarrow> Inl (WrapError ''scan agent run page'' e)
      | Inr run \<Rightarrow> (case scan_runs lib rows of Inl e \<Rightarrow> Inl e | Inr runs \<Rightarrow> Inr (run # runs)))"

definition agent_ListRuns :: "agent_lib \<Rightarrow> int \<Rightarrow> bool \<Rightarrow> int \<Rightarrow> runCursor option \<Rightarrow> AgentRun list rm" where
  "agent_ListRuns lib userID admin limit cursor =
     bindE (mapErr (WrapError ''list agent runs'') (bindE
         (case cursor of None \<Rightarrow> returnE None | Some c \<Rightarrow> with_uuid lib (rcur_ID c) (\<lambda>i. returnE (Some (rcur_CreatedAt c, i)))) (\<lambda>after.
       selectE (\<lambda>t. take (nat limit) (sort_key (\<lambda>(r, _). run_key r)
         (filter (\<lambda>(r, _). may_see userID admin r \<and> after_run_cursor after r) (joined_runs t))))))) (\<lambda>rows.
     liftE (scan_runs lib rows))"

definition cancel_columns :: "int \<Rightarrow> agent_run_row \<Rightarrow> agent_run_row" where
  "cancel_columns now r =
     r\<lparr>ag_cancellation_requested := True,
       ag_status := (if ag_status r = StatusQueued then StatusCancelled else ag_status r),
       ag_completed_at := (if ag_status r = StatusQueued then Some now else ag_completed_at r),
       ag_updated_at := now\<rparr>"

text \<open>The \<open>UPDATE\<close> of a cancellation with the trigger; at most one row has the id.\<close>

definition cancel_update :: "string \<Rightarrow> int \<Rightarrow> bool \<Rightarrow> string rm" where
  "cancel_update i userID admin = execE (\<lambda>now t.
     let P = (\<lambda>r. ag_id r = i \<and> may_see userID admin r \<and> ag_status r \<in> {StatusQueued, StatusRunning}) in
     case find P (agent_runs t) of
       None \<Rightarrow> Inl SqlErrNoRows
     | Some r \<Rightarrow>
        (case validate_agent_run_update t r (cancel_columns now r) of
           Some e \<Rightarrow> Inl e
         | None \<Rightarrow> Inr (ag_id r, t\<lparr>agent_runs := update_where P (cancel_columns now) (agent_runs t)\<rparr>)))"

definition agent_CancelRun_body :: "agent_lib \<Rightarrow> string \<Rightarrow> int \<Rightarrow> bool \<Rightarrow> AgentRun tx_result rm" where
  "agent_CancelRun_body lib runID userID admin =
     bindE (mapErr (WrapError ''cancel agent run'') (or_no_rows None (with_uuid lib runID (\<lambda>i. bindE (cancel_update i userID admin) (\<lambda>x. returnE (Some x)))))) (\<lambda>updated.
     case updated of
       None \<Rightarrow>
         bindE (mapErr (\<lambda>e. if errors_is e SqlErrNoRows then AgentErrNotFound else WrapError ''load agent run cancel state'' e)
           (with_uuid lib runID (\<lambda>i. query_row (\<lambda>t. map_option ag_status (find (\<lambda>r. ag_id r = i \<and> may_see userID admin r) (agent_runs t)))))) (\<lambda>st.
         throwE (DetailError ErrConflict (''run is already '' @ st)))
     | Some i \<Rightarrow>
         bindE (mapErr (WrapError ''load cancelled agent run'') (load_run lib (\<lambda>r. ag_id r = i))) (\<lambda>run. returnE (Commit run)))"

definition agent_CancelRun :: "agent_lib \<Rightarrow> string \<Rightarrow> int \<Rightarrow> bool \<Rightarrow> AgentRun rm" where
  "agent_CancelRun lib runID userID admin =
     in_tx (WrapError ''begin agent run cancel'') (WrapError ''commit agent run cancel'') (agent_CancelRun_body lib runID userID admin)"

section \<open>Service\<close>

definition DefaultBudget :: Budget where
  "DefaultBudget = \<lparr>MaxSteps = 8, MaxRetrievalCalls = 4, MaxModelCalls = 4, MaxInputTokens = 32000, MaxOutputTokens = 4096,
     MaxDurationMS = 120000, MaxCostMicros = 50000\<rparr>"

definition or_default :: "int \<Rightarrow> int \<Rightarrow> int" where
  "or_default v d = (if v = 0 then d else v)"

definition applyBudgetDefaults :: "Budget \<Rightarrow> Budget" where
  "applyBudgetDefaults b =
     \<lparr>MaxSteps = or_default (MaxSteps b) (MaxSteps DefaultBudget), MaxRetrievalCalls = or_default (MaxRetrievalCalls b) (MaxRetrievalCalls DefaultBudget),
      MaxModelCalls = or_default (MaxModelCalls b) (MaxModelCalls DefaultBudget), MaxInputTokens = or_default (MaxInputTokens b) (MaxInputTokens DefaultBudget),
      MaxOutputTokens = or_default (MaxOutputTokens b) (MaxOutputTokens DefaultBudget), MaxDurationMS = or_default (MaxDurationMS b) (MaxDurationMS DefaultBudget),
      MaxCostMicros = or_default (MaxCostMicros b) (MaxCostMicros DefaultBudget)\<rparr>"

definition outside :: "int \<Rightarrow> int \<Rightarrow> int \<Rightarrow> bool" where
  "outside lo hi v = (v < lo \<or> v > hi)"

definition validateBudget :: "Budget \<Rightarrow> go_error option" where
  "validateBudget b =
     (if outside 1 32 (MaxSteps b) \<or> outside 1 32 (MaxRetrievalCalls b) \<or> outside 1 32 (MaxModelCalls b) \<or>
         outside 1 1000000 (MaxInputTokens b) \<or> outside 1 1000000 (MaxOutputTokens b) \<or> outside 1000 3600000 (MaxDurationMS b) \<or>
         outside 0 1000000000 (MaxCostMicros b)
      then Some (DetailError AgentErrInvalidInput ''agent budget is outside supported bounds'') else None)"

definition uses_lexical :: "string \<Rightarrow> bool" where
  "uses_lexical mode = (mode = ModeLexical \<or> mode = ModeHybrid)"

definition uses_vector :: "string \<Rightarrow> bool" where
  "uses_vector mode = (mode = ModeVector \<or> mode = ModeHybrid)"

definition validateScopeForMode :: "Scope \<Rightarrow> string \<Rightarrow> go_error option" where
  "validateScopeForMode sc mode =
     (if uses_lexical mode \<and> (sc_LexicalIndexVersion sc \<noteq> LexicalIndexVersion \<or> sc_LexicalIndexChecksum sc = []) then Some ErrScopeUnavailable
      else if uses_vector mode \<and> (sc_VectorIndexVersion sc \<noteq> VectorIndexVersion \<or> sc_VectorIndexChecksum sc = [] \<or> sc_EmbeddingModel sc = [] \<or>
          sc_EmbeddingRevision sc = []) then Some ErrScopeUnavailable
      else None)"

definition contract_of :: "Scope \<Rightarrow> string \<Rightarrow> string \<Rightarrow> RetrievalContract" where
  "contract_of sc mode accessScope =
     \<lparr>rc_Mode = mode, rc_ProjectID = sc_ProjectID sc, rc_DatasetID = sc_DatasetID sc, rc_DatasetVersionID = sc_DatasetVersionID sc,
      rc_DatasetManifestChecksum = sc_DatasetManifestChecksum sc, rc_IngestionRunID = sc_IngestionRunID sc,
      rc_IngestionOutputChecksum = sc_IngestionOutputChecksum sc, rc_ParserVersion = sc_ParserVersion sc, rc_ChunkerVersion = sc_ChunkerVersion sc,
      rc_TokenizerVersion = sc_TokenizerVersion sc,
      rc_LexicalIndexVersion = (if uses_lexical mode then sc_LexicalIndexVersion sc else []),
      rc_LexicalIndexChecksum = (if uses_lexical mode then sc_LexicalIndexChecksum sc else []),
      rc_VectorIndexVersion = (if uses_vector mode then sc_VectorIndexVersion sc else []),
      rc_VectorIndexChecksum = (if uses_vector mode then sc_VectorIndexChecksum sc else []),
      rc_EmbeddingModel = (if uses_vector mode then sc_EmbeddingModel sc else []),
      rc_EmbeddingRevision = (if uses_vector mode then sc_EmbeddingRevision sc else []), rc_AccessScope = accessScope\<rparr>"

definition hashRunRequest :: "agent_lib \<Rightarrow> string \<Rightarrow> RetrievalContract \<Rightarrow> PromptVersion \<Rightarrow> Budget \<Rightarrow> string" where
  "hashRunRequest lib query contract prompt budget =
     hex_encode (al_sha256 lib (lineage_json lib query contract (prompt_TemplateSHA256 prompt) budget))"

text \<open>The input after the normalisation of \<open>CreateRun\<close>, and the checks that follow it.\<close>

definition normalize_run :: "agent_lib \<Rightarrow> CreateRunInput \<Rightarrow> CreateRunInput" where
  "normalize_run lib input =
     (let mode = ToLower (al_lower lib) (TrimSpace (ci_Mode input)) in
      input\<lparr>ci_Query := TrimSpace (ci_Query input), ci_Mode := (if mode = [] then ModeLexical else mode),
        ci_IngestionRunID := TrimSpace (ci_IngestionRunID input), ci_IdempotencyKey := TrimSpace (ci_IdempotencyKey input),
        ci_ProjectID := (if ci_ProjectID input = 0 then 1 else ci_ProjectID input)\<rparr>)"

definition invalid_run :: "string \<Rightarrow> go_error option" where
  "invalid_run m = Some (DetailError AgentErrInvalidInput m)"

definition run_input_error :: "CreateRunInput \<Rightarrow> go_error option" where
  "run_input_error input =
     (if ci_ProjectID input < 1 \<or> ci_DatasetVersionID input < 1 then invalid_run ''project_id and dataset_version_id must be positive''
      else if ci_Query input = [] \<or> int (RuneCount (ci_Query input)) > MaxQueryRunes then invalid_run ''query must contain 1-2000 characters''
      else if ci_Mode input \<noteq> ModeLexical \<and> ci_Mode input \<noteq> ModeVector \<and> ci_Mode input \<noteq> ModeHybrid
        then invalid_run (''unsupported retrieval mode '' @ quoted (ci_Mode input))
      else if length (ci_IdempotencyKey input) > 128 \<or> list_ex (\<lambda>c. byte c \<in> {13, 10, 0}) (ci_IdempotencyKey input) then invalid_run ''invalid idempotency key''
      else None)"

definition pending_intent :: string where
  "pending_intent = ''{'' @ quoted ''status'' @ '':'' @ quoted ''pending'' @ ''}''"

record run_env =
  re_uuid :: string
  re_RequestID :: string
  re_TraceID :: string

definition svc_CreateRun :: "agent_lib \<Rightarrow> run_env \<Rightarrow> CurrentUser \<Rightarrow> CreateRunInput \<Rightarrow> CreateResult rm" where
  "svc_CreateRun lib env current input0 =
     bindE (guardE (cu_ID current \<le> 0) ErrUnauthorized) (\<lambda>_.
     bindE (guardE (cu_Status current \<noteq> ''active'') ErrForbidden) (\<lambda>_.
     let input = normalize_run lib input0; budget = applyBudgetDefaults (ci_Budget input) in
     bindE (require (run_input_error input)) (\<lambda>_.
     bindE (require (validateBudget budget)) (\<lambda>_.
     bindE (mapErr (\<lambda>e. if errors_is e ErrScopeNotFound then ErrScopeUnavailable else e)
       (ResolveScope (al_coll lib) (ci_ProjectID input) (ci_DatasetVersionID input) (ci_IngestionRunID input))) (\<lambda>scope.
     bindE (ResolveAccess scope (cu_ID current)) (\<lambda>accessScope.
     bindE (guardE (accessScope = ''none'') AgentErrForbidden) (\<lambda>_.
     bindE (require (validateScopeForMode scope (ci_Mode input))) (\<lambda>_.
     bindE (GetPromptVersion DefaultPromptKey DefaultPromptVersion) (\<lambda>prompt.
     let contract = contract_of scope (ci_Mode input) accessScope in
     bindE (agent_CreateRun lib (re_uuid env)
       \<lparr>rec_ProjectID = sc_ProjectID scope, rec_DatasetVersionID = sc_DatasetVersionID scope, rec_IngestionRunID = sc_IngestionRunID scope,
        rec_RequestedBy = cu_ID current, rec_Query = ci_Query input, rec_Mode = ci_Mode input, rec_Intent = pending_intent,
        rec_RetrievalPlan = contract, rec_PromptVersionID = prompt_ID prompt, rec_Budget = budget,
        rec_IdempotencyKey = ci_IdempotencyKey input, rec_RequestHash = hashRunRequest lib (ci_Query input) contract prompt budget,
        rec_RequestID = re_RequestID env, rec_TraceID = re_TraceID env\<rparr>) (\<lambda>(run, replayed).
     returnE \<lparr>res_Run = run, res_Replayed = replayed\<rparr>))))))))))"

definition check_run_id :: "agent_lib \<Rightarrow> string \<Rightarrow> (rag_store db, unit) sem" where
  "check_run_id lib runID = guardE (\<not> uuid_parses lib (TrimSpace runID)) (DetailError AgentErrInvalidInput ''malformed run_id'')"

definition svc_GetRun :: "agent_lib \<Rightarrow> CurrentUser \<Rightarrow> string \<Rightarrow> AgentRun rm" where
  "svc_GetRun lib current runID =
     bindE (guardE (cu_ID current \<le> 0) ErrUnauthorized) (\<lambda>_.
     bindE (check_run_id lib runID) (\<lambda>_.
     agent_GetRun lib runID (cu_ID current) (cu_Role current = ''admin'')))"

definition encodeRunCursor :: "agent_lib \<Rightarrow> runCursor \<Rightarrow> string" where
  "encodeRunCursor lib cursor = EncodeToString (run_cursor_json lib cursor)"

definition decodeRunCursor :: "agent_lib \<Rightarrow> string \<Rightarrow> go_error + runCursor option" where
  "decodeRunCursor lib raw0 =
     (let raw = TrimSpace raw0; bad = DetailError AgentErrInvalidInput ''invalid cursor'' in
      if raw = [] then Inr None
      else case DecodeString raw of
        None \<Rightarrow> Inl bad
      | Some payload \<Rightarrow>
         (case run_cursor_unjson lib payload of
            None \<Rightarrow> Inl bad
          | Some cursor \<Rightarrow>
             if rcur_CreatedAt cursor = zero_time \<or> \<not> uuid_parses lib (rcur_ID cursor) then Inl bad else Inr (Some cursor)))"

definition svc_ListRuns :: "agent_lib \<Rightarrow> CurrentUser \<Rightarrow> ListRunsInput \<Rightarrow> RunPage rm" where
  "svc_ListRuns lib current input =
     bindE (guardE (cu_ID current \<le> 0) ErrUnauthorized) (\<lambda>_.
     let limit = (if lr_Limit input = 0 then DefaultListLimit else lr_Limit input) in
     bindE (guardE (limit < 1 \<or> limit > MaxListLimit) (DetailError AgentErrInvalidInput ''limit must be between 1 and 100'')) (\<lambda>_.
     bindE (liftE (decodeRunCursor lib (lr_Cursor input))) (\<lambda>cursor.
     bindE (agent_ListRuns lib (cu_ID current) (cu_Role current = ''admin'') (limit + 1) cursor) (\<lambda>runs.
     returnE (if int (length runs) > limit
       then let items = take (nat limit) runs in
         \<lparr>rp_Items = items, rp_NextCursor = encodeRunCursor lib \<lparr>rcur_CreatedAt = run_CreatedAt (last items), rcur_ID = run_ID (last items)\<rparr>\<rparr>
       else \<lparr>rp_Items = runs, rp_NextCursor = []\<rparr>)))))"

definition svc_CancelRun :: "agent_lib \<Rightarrow> CurrentUser \<Rightarrow> string \<Rightarrow> AgentRun rm" where
  "svc_CancelRun lib current runID =
     bindE (guardE (cu_ID current \<le> 0) ErrUnauthorized) (\<lambda>_.
     bindE (guardE (cu_Status current \<noteq> ''active'') ErrForbidden) (\<lambda>_.
     bindE (check_run_id lib runID) (\<lambda>_.
     agent_CancelRun lib runID (cu_ID current) (cu_Role current = ''admin''))))"

end
