(* ===== verification/Db_Relation.thy ===== *)
theory Db_Relation
  imports Db_Logic
begin

text \<open>
  Relations between the tables before and after a program, for every outcome and every fault script. The locale
  asks for a preorder; its rules reduce the claim about a program to its statements, and to the committed
  outcomes of a transaction.
\<close>

definition evolves :: "('d \<Rightarrow> 'd \<Rightarrow> bool) \<Rightarrow> ('d, 'a) dbm \<Rightarrow> bool" where
  "evolves R m = (\<forall>s r s'. m s = (r, s') \<longrightarrow> R (tables s) (tables s'))"

definition evolves_ok :: "('d \<Rightarrow> 'd \<Rightarrow> bool) \<Rightarrow> ('d, 'a) dbm \<Rightarrow> bool" where
  "evolves_ok R m = (\<forall>s x s'. m s = (Inr x, s') \<longrightarrow> R (tables s) (tables s'))"

lemma evolvesD: "evolves R m \<Longrightarrow> m s = (r, s') \<Longrightarrow> R (tables s) (tables s')"
  unfolding evolves_def by blast

lemma evolves_okI: "(\<And>s x s'. m s = (Inr x, s') \<Longrightarrow> R (tables s) (tables s')) \<Longrightarrow> evolves_ok R m"
  unfolding evolves_ok_def by blast

lemma evolves_evolves_ok: "evolves R m \<Longrightarrow> evolves_ok R m"
  unfolding evolves_def evolves_ok_def by blast

locale db_preorder =
  fixes R :: "'d \<Rightarrow> 'd \<Rightarrow> bool"
  assumes refl: "R t t"
    and trans: "R t t1 \<Longrightarrow> R t1 t2 \<Longrightarrow> R t t2"
begin

lemma evolves_basic: "evolves R (returnE x)" "evolves R (throwE e)" "evolves R (\<lambda>s. (r, s))"
  by (auto simp: evolves_def refl)

lemma evolves_bindE:
  assumes "evolves R m" "\<And>x. evolves R (k x)"
  shows "evolves R (bindE m k)"
  unfolding evolves_def
proof (intro allI impI)
  fix s r s'
  assume run: "bindE m k s = (r, s')"
  obtain r1 s1 where m: "m s = (r1, s1)" by (cases "m s")
  have "R (tables s) (tables s1)" using evolvesD [OF assms(1) m] .
  moreover have "R (tables s1) (tables s')"
    using run m evolvesD [OF assms(2)] by (cases r1) (auto simp: bindE_def refl)
  ultimately show "R (tables s) (tables s')" by (rule trans)
qed

lemma evolves_mapErr: "evolves R m \<Longrightarrow> evolves R (mapErr f m)"
  unfolding evolves_def mapErr_def by (fastforce split: prod.splits sum.splits)

lemma evolves_or_no_rows: "evolves R m \<Longrightarrow> evolves R (or_no_rows x m)"
  unfolding evolves_def or_no_rows_def by (fastforce split: prod.splits sum.splits if_splits)

lemma evolves_catchE: "evolves R m \<Longrightarrow> evolves R (catchE m)"
  unfolding evolves_def catchE_def by (fastforce split: prod.splits)

lemma evolves_stmt:
  assumes "\<And>s r s'. f s = (r, s') \<Longrightarrow> R (tables s) (tables s')"
  shows "evolves R (stmt f)"
  unfolding evolves_def
proof (intro allI impI)
  fix s r s'
  assume "stmt f s = (r, s')"
  then show "R (tables s) (tables s')"
  proof (cases rule: stmt_cases)
    case 1
    then show ?thesis using assms [of "stmt_next s"] by auto
  next
    case (3 e)
    then show ?thesis using assms [of "stmt_next s" _ s'] by (metis prod.collapse stmt_next_simps(1))
  qed (simp add: refl)
qed

lemma evolves_reads: "evolves R (selectE f)" "evolves R (query_row g)"
  unfolding selectE_def query_row_def by (rule evolves_stmt; auto simp: refl split: option.splits)+

lemma evolves_updateE: "(\<And>now t. R t (f now t)) \<Longrightarrow> evolves R (updateE f)"
  unfolding updateE_def by (rule evolves_stmt) auto

lemma evolves_execE: "(\<And>now t x t'. f now t = Inr (x, t') \<Longrightarrow> R t t') \<Longrightarrow> evolves R (execE f)"
  unfolding execE_def by (rule evolves_stmt) (auto simp: refl split: sum.splits)

lemma evolves_insert_serial:
  "(\<And>i now t x t'. f i now t = Inr (x, t') \<Longrightarrow> R t t') \<Longrightarrow> evolves R (insert_serial sq f)"
  unfolding insert_serial_def by (rule evolves_stmt) (auto simp: refl Let_def split: sum.splits if_splits)

lemma evolves_if: "(b \<Longrightarrow> evolves R m) \<Longrightarrow> (\<not> b \<Longrightarrow> evolves R m') \<Longrightarrow> evolves R (if b then m else m')"
  by simp

lemma evolves_prod: "(\<And>a b. evolves R (k a b)) \<Longrightarrow> evolves R (case p of (a, b) \<Rightarrow> k a b)"
  by (cases p) simp

lemma evolves_in_tx:
  assumes "evolves_ok R m"
  shows "evolves R (\<lambda>s. in_tx b (c s) m s)"
  unfolding evolves_def
proof (intro allI impI)
  fix s r s'
  assume "in_tx b (c s) m s = (r, s')"
  then show "R (tables s) (tables s')"
    by (rule in_tx_rel) (use assms in \<open>auto simp: refl evolves_ok_def\<close>, metis stmt_next_simps(1))
qed

lemmas evolves_rules = evolves_basic evolves_bindE evolves_mapErr evolves_or_no_rows evolves_catchE evolves_reads evolves_if evolves_prod

end

end
