(* ===== verification/Account_Calls.thy ===== *)
theory Account_Calls
  imports Auth Db_Relation
begin

text \<open>
  The calls of the account service as commands, and the interface through which relations between the tables are proved for
  them: a preorder that the single statements of \<open>auth/repository.go\<close> respect is respected by every call.
\<close>

datatype auth_call =
    CallRegister auth_env RegisterInput
  | CallLogin auth_env LoginInput
  | CallRefresh auth_env RefreshInput
  | CallLogout string
  | CallUpdateProfile CurrentUser UpdateProfileInput

fun run_auth :: "AuthService \<Rightarrow> auth_call \<Rightarrow> unit sm" where
  "run_auth sv (CallRegister env input) = ignore (Register sv env input)"
| "run_auth sv (CallLogin env input) = ignore (Login sv env input)"
| "run_auth sv (CallRefresh env input) = ignore (Refresh sv env input)"
| "run_auth sv (CallLogout token) = Logout sv token"
| "run_auth sv (CallUpdateProfile current input) = ignore (UpdateProfile current input)"

locale account_changes = db_preorder R for R :: "store \<Rightarrow> store \<Rightarrow> bool" +
  assumes user: "evolves R (insert_user name nick)"
    and credential: "evolves R (insert_credential i name h)"
    and session: "evolves R (insert_session i h ua ip e)"
    and rotate: "evolves_ok R (RotateSession_body now h h' ua ip e)"
    and revoke: "evolves R (RevokeSessionByRefreshHash h)"
    and profile: "evolves R (UpdateUserProfile i input)"
begin

lemma evolves_liftE: "evolves R (liftE r)"
  unfolding liftE_def by (rule evolves_basic)

lemma evolves_guardE: "evolves R (guardE b e)"
  unfolding guardE_def by (intro evolves_rules)

lemma evolves_require: "evolves R (require x)"
  unfolding require_def by (cases x) (auto intro: evolves_rules)

lemma evolves_RotateSession: "evolves R (RotateSession now h h' ua ip e)"
  unfolding RotateSession_def Let_def
  by (intro evolves_bindE evolves_in_tx rotate evolves_liftE)

lemma evolves_CreateUserWithCredentials: "evolves R (CreateUserWithCredentials name h nick)"
  unfolding CreateUserWithCredentials_def CreateUserWithCredentials_body_def
  by (intro evolves_in_tx evolves_evolves_ok evolves_rules user credential)

lemmas auth_evolves = evolves_rules evolves_liftE evolves_guardE evolves_require evolves_RotateSession evolves_CreateUserWithCredentials
  profile revoke session

lemma evolves_issueTokens: "evolves R (issueTokens sv env user ua ip)"
  unfolding issueTokens_def CreateSession_def by (intro auth_evolves)

lemma evolves_Refresh: "evolves R (Refresh sv env input)"
  unfolding Refresh_def GetUserByID_def Let_def by (intro auth_evolves)

lemma evolves_run_auth: "evolves R (run_auth sv call)"
  by (cases call)
    (simp_all add: ignore_def Register_def Login_def Logout_def UpdateProfile_def GetCredentialByUsername_def Let_def,
      (intro auth_evolves evolves_issueTokens evolves_Refresh conjI impI)+)

end

text \<open>Sequences only advance.\<close>

lemma seq_grows_account:
  "seq_grows (liftE r)" "seq_grows (guardE b e)" "seq_grows (require x)"
  by (auto simp: seq_grows_def liftE_def guardE_def require_def split: option.splits)

lemma seq_grows_in_tx_at: "seq_grows m \<Longrightarrow> seq_grows (\<lambda>s. in_tx b (c s) m s)"
  by (rule seq_growsI) (erule seq_growsD [OF seq_grows_in_tx])

lemmas account_grows = grows_intros seq_grows_account seq_grows_in_tx_at seq_grows_option

lemma seq_grows_RotateSession: "seq_grows (RotateSession now h h' ua ip e)"
  unfolding RotateSession_def RotateSession_body_def lock_session_def revoke_user_sessions_def insert_session_def replace_session_def Let_def
  by (intro account_grows)

lemma seq_grows_issueTokens: "seq_grows (issueTokens sv env user ua ip)"
  unfolding issueTokens_def CreateSession_def insert_session_def by (intro account_grows)

lemma seq_grows_run_auth: "seq_grows (run_auth sv call)"
  by (cases call)
    (simp_all add: ignore_def Register_def Login_def Refresh_def Logout_def UpdateProfile_def GetCredentialByUsername_def GetUserByID_def UpdateUserProfile_def
      update_returning_def RevokeSessionByRefreshHash_def CreateUserWithCredentials_def CreateUserWithCredentials_body_def insert_user_def
      insert_credential_def Let_def,
      (intro account_grows seq_grows_RotateSession seq_grows_issueTokens conjI impI)+)

end
