(* ===== verification/Publisher.thy ===== *)
theory Publisher
  imports Worker_Apply
begin

text \<open>
  The outbox publisher (\<open>internal/worker/outbox_publisher.go\<close>) and the publishing side of the
  broker (\<open>internal/platform/messaging/jetstream.go\<close>). \<open>jetstream.PublishMsg\<close> is a parameter over a
  broker state \<open>'b\<close>; tracing spans and metrics have no influence and are left out. \<open>json.Marshal\<close> of an
  envelope whose payload came out of a \<open>jsonb\<close> column does not fail.
\<close>

section \<open>Subjects\<close>

text \<open>\<open>strings.Trim(s, c)\<close> for a single byte.\<close>

definition trim_char :: "char \<Rightarrow> string \<Rightarrow> string" where
  "trim_char c s = rev (dropWhile (\<lambda>x. x = c) (rev (dropWhile (\<lambda>x. x = c) s)))"

definition subject_char :: "char \<Rightarrow> bool" where
  "subject_char c = (let b = byte c in
     97 \<le> b \<and> b \<le> 122 \<or> 65 \<le> b \<and> b \<le> 90 \<or> 48 \<le> b \<and> b \<le> 57 \<or> b = 95 \<or> b = 45)"

text \<open>
  \<open>invalidSubjectToken.ReplaceAllString(s, "_")\<close>: every maximal run of other characters becomes one
  underscore. The class is ASCII, so runs of characters are runs of bytes.
\<close>

fun replace_invalid :: "bool \<Rightarrow> string \<Rightarrow> string" where
  "replace_invalid inside [] = []"
| "replace_invalid inside (c # cs) =
     (if subject_char c then c # replace_invalid False cs
      else if inside then replace_invalid True cs
      else CHR ''_'' # replace_invalid True cs)"

fun join_dot :: "string list \<Rightarrow> string" where
  "join_dot [] = []"
| "join_dot [p] = p"
| "join_dot (p # ps) = p @ CHR ''.'' # join_dot ps"

definition clean_token :: "string \<Rightarrow> string" where
  "clean_token part = trim_char (CHR ''_'') (replace_invalid False (TrimSpace part))"

definition subject_tokens :: "(nat \<Rightarrow> nat) \<Rightarrow> string \<Rightarrow> string list" where
  "subject_tokens low eventType =
     (let cleaned = filter (\<lambda>p. p \<noteq> []) (map clean_token (split_byte (CHR ''.'') (trim_char (CHR ''.'') (ToLower low eventType))))
      in if cleaned = [] then [''unknown''] else cleaned)"

definition subjectSuffix :: "(nat \<Rightarrow> nat) \<Rightarrow> string \<Rightarrow> string" where
  "subjectSuffix low eventType = join_dot (subject_tokens low eventType)"

record NATSConfig =
  nats_SubjectPrefix :: string
  nats_DLQSubjectPrefix :: string
  nats_Stream :: string
  nats_DLQStream :: string

definition eventSubject :: "NATSConfig \<Rightarrow> (nat \<Rightarrow> nat) \<Rightarrow> string \<Rightarrow> string" where
  "eventSubject cfg low eventType = nats_SubjectPrefix cfg @ ''.'' @ subjectSuffix low eventType"

definition deadLetterSubject :: "NATSConfig \<Rightarrow> (nat \<Rightarrow> nat) \<Rightarrow> string \<Rightarrow> string" where
  "deadLetterSubject cfg low eventType = nats_DLQSubjectPrefix cfg @ ''.'' @ subjectSuffix low eventType"

section \<open>Publishing\<close>

record 'p nats_msg =
  msg_Subject :: string
  msg_Data :: 'p
  msg_ID :: string
  msg_ExpectStream :: string

definition envelope_of :: "Event \<Rightarrow> EventEnvelope" where
  "envelope_of event =
     \<lparr>env_EventID = EventID event, env_EventType = EventType event, env_AggregateType = AggregateType event,
      env_AggregateID = AggregateID event, env_SchemaVersion = SchemaVersion event, env_Producer = Producer event,
      env_CorrelationID = CorrelationID event, env_TraceID = TraceID event, env_Payload = Some (Payload event),
      env_OccurredAt = Some (CreatedAt event)\<rparr>"

definition PublishEvent ::
  "NATSConfig \<Rightarrow> (nat \<Rightarrow> nat) \<Rightarrow> (EventEnvelope nats_msg \<Rightarrow> ('b, unit) sem) \<Rightarrow> Event \<Rightarrow> ('b, unit) sem" where
  "PublishEvent cfg low publish_msg event =
     mapErr (WrapError (''publish event '' @ EventID event))
       (publish_msg \<lparr>msg_Subject = eventSubject cfg low (EventType event), msg_Data = envelope_of event,
          msg_ID = EventID event, msg_ExpectStream = nats_Stream cfg\<rparr>)"

section \<open>The publisher\<close>

record OutboxPublisher =
  batchSize :: int
  maxRetries :: int
  pub_interval :: int
  recoveryInterval :: int
  processingTimeout :: int
  metricsInterval :: int
  lastRecoveryAt :: "int option"
  lastMetricsAt :: "int option"

definition second :: int where "second = 1000000000"
definition minute :: int where "minute = 60 * second"

definition positiveOr :: "int \<Rightarrow> int \<Rightarrow> int" where
  "positiveOr value fallback = (if value > 0 then value else fallback)"

definition durationOr :: "int \<Rightarrow> int \<Rightarrow> int" where
  "durationOr value fallback = (if value > 0 then value else fallback)"

definition NewOutboxPublisher :: "int \<Rightarrow> int \<Rightarrow> int \<Rightarrow> int \<Rightarrow> int \<Rightarrow> int \<Rightarrow> OutboxPublisher" where
  "NewOutboxPublisher batch retries interval recovery timeout metrics =
     \<lparr>batchSize = positiveOr batch 50, maxRetries = positiveOr retries 20,
      pub_interval = durationOr interval 500000000, recoveryInterval = durationOr recovery minute,
      processingTimeout = durationOr timeout (5 * minute), metricsInterval = durationOr metrics (5 * second),
      lastRecoveryAt = None, lastMetricsAt = None\<rparr>"

definition retryDelay :: "int \<Rightarrow> int" where
  "retryDelay retryCount =
     (if retryCount \<le> 0 then second
      else let delay = 2 ^ nat (min retryCount 6) * second in
        if delay > minute then minute else delay)"

text \<open>
  One event of a batch. \<open>wall\<close> is the reading of \<open>time.Now()\<close> when a retry is scheduled for the event.
  Errors of the marking statements are logged and dropped.
\<close>

definition publish_one ::
  "OutboxPublisher \<Rightarrow> (Event \<Rightarrow> ('b, unit) sem) \<Rightarrow> (Event \<Rightarrow> int) \<Rightarrow> Event \<Rightarrow> ('b, unit) wm" where
  "publish_one p publish wall event =
     bindE (catchE (on_redis (publish event))) (\<lambda>r.
       case r of
         Inl err \<Rightarrow>
           (let nextRetry = RetryCount event + 1 in
            if nextRetry \<ge> maxRetries p
            then bindE (catchE (on_db (MarkFailed (ID event) nextRetry (error_text err)))) (\<lambda>_. returnE ())
            else bindE (catchE (on_db (MarkRetry (ID event) nextRetry (wall event + retryDelay nextRetry) (error_text err)))) (\<lambda>_. returnE ()))
       | Inr _ \<Rightarrow> bindE (catchE (on_db (MarkSent (ID event)))) (\<lambda>_. returnE ()))"

fun publish_loop ::
  "OutboxPublisher \<Rightarrow> (Event \<Rightarrow> ('b, unit) sem) \<Rightarrow> (Event \<Rightarrow> int) \<Rightarrow> Event list \<Rightarrow> ('b, unit) wm" where
  "publish_loop p publish wall [] = returnE ()"
| "publish_loop p publish wall (event # events) =
     bindE (publish_one p publish wall event) (\<lambda>_. publish_loop p publish wall events)"

definition processBatch ::
  "OutboxPublisher \<Rightarrow> (Event \<Rightarrow> ('b, unit) sem) \<Rightarrow> (Event \<Rightarrow> int) \<Rightarrow> (Event list \<Rightarrow> Event list) \<Rightarrow> int list \<Rightarrow> ('b, unit) wm" where
  "processBatch p publish wall order locked =
     bindE (on_db (LockPending order locked (batchSize p))) (\<lambda>events. publish_loop p publish wall events)"

definition due :: "int option \<Rightarrow> int \<Rightarrow> int \<Rightarrow> bool" where
  "due last_at interval now = (case last_at of None \<Rightarrow> True | Some t \<Rightarrow> now - t \<ge> interval)"

text \<open>The fields of the publisher change even when a statement fails: they are returned beside the error.\<close>

definition maintenance :: "int \<Rightarrow> OutboxPublisher \<Rightarrow> store db \<Rightarrow> (go_error + unit) \<times> OutboxPublisher \<times> store db" where
  "maintenance now p s =
     (let recover = due (lastRecoveryAt p) (recoveryInterval p) now;
          p1 = (if recover then p\<lparr>lastRecoveryAt := Some now\<rparr> else p);
          (r1, s1) = (if recover then ignore (RecoverStaleProcessing (now - processingTimeout p)) s else (Inr (), s)) in
      case r1 of
        Inl e \<Rightarrow> (Inl e, p1, s1)
      | Inr _ \<Rightarrow>
         (let meter = due (lastMetricsAt p1) (metricsInterval p1) now;
              p2 = (if meter then p1\<lparr>lastMetricsAt := Some now\<rparr> else p1);
              (r2, s2) = (if meter then bindE CountByStatus (\<lambda>_. ignore OldestUnsentAge) s1 else (Inr (), s1)) in
          (r2, p2, s2)))"

fun is_substring :: "string \<Rightarrow> string \<Rightarrow> bool" where
  "is_substring p [] = (p = [])"
| "is_substring p (c # cs) = (HasPrefix (c # cs) p \<or> is_substring p cs)"

definition isMissingOutboxSchema :: "go_error \<Rightarrow> bool" where
  "isMissingOutboxSchema err =
     is_substring (''relation '' @ [CHR 0x22] @ ''outbox_events'' @ [CHR 0x22] @ '' does not exist'') (error_text err)"

text \<open>One round of \<open>loop\<close>: maintenance, then a batch unless the schema is missing.\<close>

definition publisher_round ::
  "(Event \<Rightarrow> ('b, unit) sem) \<Rightarrow> (Event \<Rightarrow> int) \<Rightarrow> (Event list \<Rightarrow> Event list) \<Rightarrow> int list \<Rightarrow> int \<Rightarrow>
   OutboxPublisher \<Rightarrow> store db \<times> 'b \<Rightarrow> OutboxPublisher \<times> store db \<times> 'b" where
  "publisher_round publish wall order locked now p st =
     (case maintenance now p (fst st) of
        (Inl e, p', s') \<Rightarrow>
          if isMissingOutboxSchema e then (p', s', snd st)
          else (p', snd (processBatch p' publish wall order locked (s', snd st)))
      | (Inr _, p', s') \<Rightarrow> (p', snd (processBatch p' publish wall order locked (s', snd st))))"

end
