(* ===== verification/Event_Consumer.thy ===== *)
theory Event_Consumer
  imports Publisher
begin

text \<open>
  The JetStream consumer (\<open>internal/worker/event_consumer.go\<close>): what is done with a delivered
  message. The acknowledgement calls of the client library and the publication of a dead letter
  are actions; the parameter \<open>outcome\<close> says which of them fail. \<open>json.Unmarshal\<close> of the message bytes
  into an envelope is the parameter \<open>unmarshal\<close>, which returns the (possibly partial) envelope and
  whether it succeeded; \<open>marshals raw\<close> says that \<open>json.Marshal\<close> accepts the message bytes as a
  \<open>json.RawMessage\<close>, which it does for no bytes and for one valid JSON value only.
\<close>

record 'p DeadLetterEnvelope =
  dl_OriginalSubject :: string
  dl_EventID :: string
  dl_EventType :: string
  dl_Deliveries :: int
  dl_Failure :: string
  dl_OriginalMessage :: 'p
  dl_FailedAt :: int

datatype 'p js_action =
    DoubleAck
  | NakWithDelay int
  | TermWithReason string
  | SendDeadLetter "'p DeadLetterEnvelope nats_msg"

definition truncate_to :: "nat \<Rightarrow> string \<Rightarrow> string" where
  "truncate_to limit value = (let v = TrimSpace value in if length v \<le> limit then v else take limit v)"

definition truncateReason :: "string \<Rightarrow> string" where
  "truncateReason value = truncate_to 200 value"

text \<open>
  The message \<open>PublishDeadLetter\<close> publishes; the envelope with the original message has to be
  marshalled first, and a message that cannot be is not published.
\<close>

definition dead_letter_msg ::
  "NATSConfig \<Rightarrow> ctx \<Rightarrow> string \<Rightarrow> 'p \<Rightarrow> string \<Rightarrow> string \<Rightarrow> int \<Rightarrow> go_error \<Rightarrow> 'p DeadLetterEnvelope nats_msg" where
  "dead_letter_msg cfg c originalSubject raw eventID eventType deliveries failure =
     \<lparr>msg_Subject = deadLetterSubject cfg (unicode_lower c) eventType,
      msg_Data = \<lparr>dl_OriginalSubject = originalSubject, dl_EventID = eventID, dl_EventType = eventType,
        dl_Deliveries = deliveries, dl_Failure = truncate_to 1000 (error_text failure), dl_OriginalMessage = raw,
        dl_FailedAt = clock_nanos c\<rparr>,
      msg_ID = (if TrimSpace eventID = [] then ''dlq_'' @ FormatInt (clock_nanos c) else ''dlq_'' @ eventID),
      msg_ExpectStream = nats_DLQStream cfg\<rparr>"

definition PublishDeadLetter ::
  "NATSConfig \<Rightarrow> ctx \<Rightarrow> ('p \<Rightarrow> bool) \<Rightarrow> string \<Rightarrow> 'p \<Rightarrow> string \<Rightarrow> string \<Rightarrow> int \<Rightarrow> go_error \<Rightarrow>
   go_error + 'p DeadLetterEnvelope nats_msg" where
  "PublishDeadLetter cfg c marshals originalSubject raw eventID eventType deliveries failure =
     (if \<not> marshals raw then Inl (WrapError ''marshal dead-letter event'' (ErrorString ''json: error calling MarshalJSON''))
      else Inr (dead_letter_msg cfg c originalSubject raw eventID eventType deliveries failure))"

record EventConsumer =
  ec_batchSize :: int
  ec_maxDeliver :: int
  ec_nakDelay :: int
  ec_operationTimeout :: int
  ec_metricsInterval :: int

definition NewEventConsumer :: "int \<Rightarrow> int \<Rightarrow> int \<Rightarrow> int \<Rightarrow> int \<Rightarrow> EventConsumer" where
  "NewEventConsumer batch deliver nak timeout metrics =
     \<lparr>ec_batchSize = positiveOr batch 50, ec_maxDeliver = positiveOr deliver 5, ec_nakDelay = durationOr nak (2 * second),
      ec_operationTimeout = durationOr timeout (30 * second), ec_metricsInterval = durationOr metrics (5 * second)\<rparr>"

record 'p js_msg =
  jm_Subject :: string
  jm_Data :: 'p
  jm_NumDelivered :: "int option"

definition handleFailure ::
  "EventConsumer \<Rightarrow> NATSConfig \<Rightarrow> ctx \<Rightarrow> ('p \<Rightarrow> bool) \<Rightarrow> ('p js_action \<Rightarrow> bool) \<Rightarrow> 'p js_msg \<Rightarrow> EventEnvelope \<Rightarrow> string \<Rightarrow> int \<Rightarrow>
   go_error \<Rightarrow> 'p js_action list" where
  "handleFailure ec cfg c marshals outcome msg envelope eventType deliveries processingErr =
     (if deliveries < ec_maxDeliver ec then [NakWithDelay (ec_nakDelay ec)]
      else case PublishDeadLetter cfg c marshals (jm_Subject msg) (jm_Data msg) (env_EventID envelope) eventType deliveries processingErr of
        Inl _ \<Rightarrow> [NakWithDelay (ec_nakDelay ec)]
      | Inr m \<Rightarrow>
         (if \<not> outcome (SendDeadLetter m) then [SendDeadLetter m, NakWithDelay (ec_nakDelay ec)]
          else [SendDeadLetter m, TermWithReason (truncateReason (error_text processingErr))]))"

definition handleMessage ::
  "EventConsumer \<Rightarrow> NATSConfig \<Rightarrow> 'r redis_ops option \<Rightarrow> ctx \<Rightarrow> string \<Rightarrow> ('p \<Rightarrow> EventEnvelope \<times> bool) \<Rightarrow> ('p \<Rightarrow> bool) \<Rightarrow>
   ('p js_action \<Rightarrow> bool) \<Rightarrow> 'p js_msg \<Rightarrow> store db \<times> 'r \<Rightarrow> 'p js_action list \<times> store db \<times> 'r" where
  "handleMessage ec cfg ops c consumerName unmarshal marshals outcome msg st =
     (let deliveries = (case jm_NumDelivered msg of None \<Rightarrow> 1 | Some n \<Rightarrow> n);
          (envelope, decoded) = unmarshal (jm_Data msg);
          eventType = (let ty = TrimSpace (env_EventType envelope) in if ty = [] then ''unknown'' else ty) in
      if \<not> decoded
      then (handleFailure ec cfg c marshals outcome msg envelope eventType deliveries
              (WrapError ''decode event envelope'' (ErrorString ''json: cannot unmarshal'')), st)
      else case Process ops c consumerName envelope st of
          (Inl err, st') \<Rightarrow> (handleFailure ec cfg c marshals outcome msg envelope eventType deliveries err, st')
        | (Inr _, st') \<Rightarrow> ([DoubleAck], st'))"

text \<open>
  What settles a message for good: an acknowledgement or a termination the server accepted. A
  message that is not settled is delivered again.
\<close>

definition settled :: "('p js_action \<Rightarrow> bool) \<Rightarrow> 'p js_action list \<Rightarrow> bool" where
  "settled outcome actions = list_ex (\<lambda>a. outcome a \<and> (case a of DoubleAck \<Rightarrow> True | TermWithReason _ \<Rightarrow> True | _ \<Rightarrow> False)) actions"

definition dead_lettered :: "('p js_action \<Rightarrow> bool) \<Rightarrow> 'p js_action list \<Rightarrow> 'p \<Rightarrow> bool" where
  "dead_lettered outcome actions raw =
     list_ex (\<lambda>a. outcome a \<and> (case a of SendDeadLetter m \<Rightarrow> dl_OriginalMessage (msg_Data m) = raw | _ \<Rightarrow> False)) actions"

end
