(* ===== verification/Note_Props.thy ===== *)
theory Note_Props
  imports Event_Consumer
begin

text \<open>
  What the writes of the note repository and of the worker guarantee.
\<close>

section \<open>Key constraints\<close>

lemma distinct_snoc_map: "distinct (map f xs) \<Longrightarrow> f x \<notin> f ` set xs \<Longrightarrow> distinct (map f (xs @ [x]))"
  by simp

lemma distinct_filter_map: "distinct (map f xs) \<Longrightarrow> distinct (map f (filter P xs))"
  by (rule distinct_map_filter)

lemma exists_row_iff: "exists_row P rows \<longleftrightarrow> (\<exists>r\<in>set rows. P r)"
  by (simp add: exists_row_def list_ex_iff)

lemma exists_key: "exists_row (\<lambda>r. key r = k) rows \<longleftrightarrow> k \<in> key ` set rows"
  by (auto simp: exists_row_iff)

lemma update_where_set: "r \<in> set (update_where P f rows) \<longleftrightarrow> (\<exists>r0\<in>set rows. r = (if P r0 then f r0 else r0))"
  by (auto simp: update_where_def)

lemma update_where_keys:
  "(\<And>r. key (f r) = key r) \<Longrightarrow> (\<forall>r\<in>set (update_where P f rows). key r \<in> K) \<longleftrightarrow> (\<forall>r\<in>set rows. key r \<in> K)"
proof -
  assume "\<And>r. key (f r) = key r"
  moreover have "(\<forall>r\<in>set xs. key r \<in> K) \<longleftrightarrow> key ` set xs \<subseteq> K" for xs by auto
  ultimately show ?thesis by (simp add: set_key_update_where)
qed

text \<open>Updates of rows that leave the keys alone.\<close>

lemma store_ok_update_notes:
  "(\<And>n. n_id (f n) = n_id n) \<Longrightarrow> store_ok q (t\<lparr>all_notes := update_where P f (all_notes t)\<rparr>) = store_ok q t"
  by (simp add: store_ok_def set_key_update_where)

lemma store_ok_update_comments:
  "(\<And>c. c_id (f c) = c_id c \<and> c_note_id (f c) = c_note_id c) \<Longrightarrow>
   store_ok q (t\<lparr>note_comments := update_where P f (note_comments t)\<rparr>) = store_ok q t"
  by (simp add: store_ok_def set_key_update_where update_where_keys)

lemma store_ok_update_outbox:
  "(\<And>r. o_id (f r) = o_id r \<and> o_event_id (f r) = o_event_id r) \<Longrightarrow>
   store_ok q (t\<lparr>outbox_events := update_where P f (outbox_events t)\<rparr>) = store_ok q t"
  by (simp add: store_ok_def)

lemma keeps_update_notes:
  "(\<And>now t n. n_id (f now t n) = n_id n) \<Longrightarrow>
   keeps store_ok (update_returning all_notes (\<lambda>rows. all_notes_update (\<lambda>_. rows)) P f g)"
  unfolding update_returning_def
  by (rule keys.keeps_execE) (auto simp: store_ok_update_notes split: option.splits)

lemma keeps_update_comments:
  "(\<And>now t c. c_id (f now t c) = c_id c \<and> c_note_id (f now t c) = c_note_id c) \<Longrightarrow>
   keeps store_ok (update_returning note_comments (\<lambda>rows. note_comments_update (\<lambda>_. rows)) P f g)"
  unfolding update_returning_def
  by (rule keys.keeps_execE) (auto simp: store_ok_update_comments split: option.splits)

lemma row_keys [simp]:
  "n_id (enforce_note_content_version old new) = n_id new"
  "n_id (update_note_columns input now n) = n_id n" "n_id (delete_note_columns now n) = n_id n"
  "c_id (enforce_note_comment_content_version now c c') = c_id c'"
  "c_note_id (enforce_note_comment_content_version now c c') = c_note_id c'"
  "c_id (delete_comment_columns now c) = c_id c" "c_note_id (delete_comment_columns now c) = c_note_id c"
  "n_id (rebuilt_note now t n) = n_id n" "c_id (rebuilt_comment now t c) = c_id c"
  "c_note_id (rebuilt_comment now t c) = c_note_id c"
  by (simp_all add: enforce_note_content_version_def update_note_columns_def delete_note_columns_def
      enforce_note_comment_content_version_def delete_comment_columns_def rebuilt_note_def rebuilt_comment_def Let_def)

text \<open>The single statements.\<close>

lemma store_ok_appends:
  "store_ok q t \<Longrightarrow> n_id n = q ''notes'' + 1 \<Longrightarrow> q ''notes'' + 1 \<le> max_bigint \<Longrightarrow> store_ok (q(''notes'' := q ''notes'' + 1)) (t\<lparr>all_notes := all_notes t @ [n]\<rparr>)"
  "store_ok q t \<Longrightarrow> md_id m = q ''note_media'' + 1 \<Longrightarrow> q ''note_media'' + 1 \<le> max_bigint \<Longrightarrow>
     store_ok (q(''note_media'' := q ''note_media'' + 1)) (t\<lparr>note_media := note_media t @ [m]\<rparr>)"
  "store_ok q t \<Longrightarrow> sh_id h = q ''note_shares'' + 1 \<Longrightarrow> q ''note_shares'' + 1 \<le> max_bigint \<Longrightarrow> sh_note_id h \<in> n_id ` set (all_notes t) \<Longrightarrow>
     store_ok (q(''note_shares'' := q ''note_shares'' + 1)) (t\<lparr>note_shares := note_shares t @ [h]\<rparr>)"
  "store_ok q t \<Longrightarrow> c_id c = q ''note_comments'' + 1 \<Longrightarrow> q ''note_comments'' + 1 \<le> max_bigint \<Longrightarrow> c_note_id c \<in> n_id ` set (all_notes t) \<Longrightarrow>
     store_ok (q(''note_comments'' := q ''note_comments'' + 1)) (t\<lparr>note_comments := note_comments t @ [c]\<rparr>)"
  "store_ok q t \<Longrightarrow> l_note_id l \<in> n_id ` set (all_notes t) \<Longrightarrow>
     (l_note_id l, l_user_id l) \<notin> (\<lambda>l. (l_note_id l, l_user_id l)) ` set (note_likes t) \<Longrightarrow>
     store_ok q (t\<lparr>note_likes := note_likes t @ [l]\<rparr>)"
  "store_ok q t \<Longrightarrow> cl_note_id k \<in> n_id ` set (all_notes t) \<Longrightarrow>
     (cl_note_id k, cl_user_id k) \<notin> (\<lambda>l. (cl_note_id l, cl_user_id l)) ` set (note_collects t) \<Longrightarrow>
     store_ok q (t\<lparr>note_collects := note_collects t @ [k]\<rparr>)"
  "store_ok q t \<Longrightarrow> k_comment_id x \<in> c_id ` set (note_comments t) \<Longrightarrow>
     (k_comment_id x, k_user_id x) \<notin> (\<lambda>l. (k_comment_id l, k_user_id l)) ` set (note_comment_likes t) \<Longrightarrow>
     store_ok q (t\<lparr>note_comment_likes := note_comment_likes t @ [x]\<rparr>)"
  by (simp_all add: store_ok_def serial_ok_snoc)

lemma keys_inserts:
  "keeps store_ok (insert_note input)" "keeps store_ok (insert_media noteID m)"
  "keeps store_ok (insert_share noteID userID channel)" "keeps store_ok (insert_comment noteID cinput rootID)"
  unfolding insert_note_def insert_media_def insert_share_def insert_comment_def
  by (rule keys.keeps_insert_serial;
      auto simp: Let_def new_note_row_def note_exists_def exists_key intro!: store_ok_appends split: if_splits)+

lemma exists_pair: "exists_row (\<lambda>r. f r = a \<and> g r = b) rows \<longleftrightarrow> (a, b) \<in> (\<lambda>r. (f r, g r)) ` set rows"
  by (auto simp: exists_row_iff)

lemma keys_insertIdempotent:
  assumes "\<And>now q t x t'. store_ok q t \<Longrightarrow> f now t = Inr (x, t') \<Longrightarrow> store_ok q t'"
  shows "keeps store_ok (insertIdempotent f)"
  unfolding insertIdempotent_def by (rule keys.keeps_or_no_rows, rule keys.keeps_execE) (rule assms)

lemma store_ok_insert_like: "store_ok q t \<Longrightarrow> insert_like noteID userID now t = Inr (x, t') \<Longrightarrow> store_ok q t'"
  by (auto simp: insert_like_def liked_by_def exists_pair note_exists_def exists_key intro!: store_ok_appends split: if_splits)

lemma store_ok_insert_collect: "store_ok q t \<Longrightarrow> insert_collect noteID userID name now t = Inr (x, t') \<Longrightarrow> store_ok q t'"
  by (auto simp: insert_collect_def collected_by_def exists_pair note_exists_def exists_key intro!: store_ok_appends split: if_splits)

lemma store_ok_insert_comment_like:
  "store_ok q t \<Longrightarrow> insert_comment_like commentID userID now t = Inr (x, t') \<Longrightarrow> store_ok q t'"
  by (auto simp: insert_comment_like_def comment_liked_by_def exists_pair comment_exists_def exists_key intro!: store_ok_appends split: if_splits)

lemma store_ok_deletes:
  "store_ok q t \<Longrightarrow> store_ok q (t\<lparr>note_likes := filter P (note_likes t)\<rparr>)"
  "store_ok q t \<Longrightarrow> store_ok q (t\<lparr>note_collects := filter P' (note_collects t)\<rparr>)"
  "store_ok q t \<Longrightarrow> store_ok q (t\<lparr>note_comment_likes := filter P'' (note_comment_likes t)\<rparr>)"
  by (simp_all add: store_ok_def distinct_filter_map)

lemma store_ok_delete_interaction:
  "store_ok q t \<Longrightarrow> delete_interaction table noteID userID now t = Inr (x, t') \<Longrightarrow> store_ok q t'"
  by (auto simp: delete_interaction_def store_ok_deletes split: if_splits)

lemma store_ok_delete_comment_like:
  "store_ok q t \<Longrightarrow> delete_comment_like commentID userID now t = Inr (x, t') \<Longrightarrow> store_ok q t'"
  by (auto simp: delete_comment_like_def store_ok_deletes split: if_splits)

lemmas keys_idempotent = keys_insertIdempotent [OF store_ok_insert_like] keys_insertIdempotent [OF store_ok_insert_collect]
  keys_insertIdempotent [OF store_ok_insert_comment_like] keys_insertIdempotent [OF store_ok_delete_interaction]
  keys_insertIdempotent [OF store_ok_delete_comment_like]

lemma store_ok_enqueue:
  assumes "store_ok q t" "o_id row = q ''outbox_events'' + 1" "q ''outbox_events'' + 1 \<le> max_bigint" "o_event_id row \<notin> o_event_id ` set (outbox_events t)"
  shows "store_ok (q(''outbox_events'' := q ''outbox_events'' + 1)) (t\<lparr>outbox_events := outbox_events t @ [row]\<rparr>)"
  using assms serial_ok_snoc [of "q ''outbox_events''" o_id "outbox_events t" row]
  by (simp add: store_ok_def)

lemma new_outbox_row_id [simp]: "o_id (new_outbox_row c input i now) = i"
  by (simp add: new_outbox_row_def)

lemma keys_EnqueueTx: "keeps store_ok (EnqueueTx c input)"
  unfolding EnqueueTx_def
  by (intro keys.keeps_if keys.keeps_basic, rule keys.keeps_insert_serial)
    (auto simp: Let_def exists_key intro!: store_ok_enqueue split: if_splits)

lemma keys_outbox_marks:
  "keeps store_ok (LockPending order locked limit)" "keeps store_ok (MarkSent i)"
  "keeps store_ok (MarkRetry i k at err)" "keeps store_ok (MarkFailed i k err)"
  "keeps store_ok (RecoverStaleProcessing before)" "keeps store_ok CountByStatus" "keeps store_ok OldestUnsentAge"
  unfolding LockPending_def MarkSent_def MarkRetry_def MarkFailed_def RecoverStaleProcessing_def CountByStatus_def
    OldestUnsentAge_def
  by (rule keys.keeps_execE keys.keeps_updateE keys.keeps_reads; auto simp: Let_def store_ok_update_outbox)+

lemma store_ok_claim:
  "store_ok q t \<Longrightarrow> (pr_event_id r, pr_consumer_name r) \<notin> (\<lambda>l. (pr_event_id l, pr_consumer_name l)) ` set (processed_events t) \<Longrightarrow>
   store_ok q (t\<lparr>processed_events := processed_events t @ [r]\<rparr>)"
  by (simp add: store_ok_def)

lemma store_ok_tick: "store_ok q t \<Longrightarrow> store_ok (q(sq := q sq + 1)) t"
  by (erule store_ok_mono) simp

lemma store_ok_behavior:
  "store_ok q t \<Longrightarrow> b_source_event_id b \<notin> b_source_event_id ` set (behavior_events t) \<Longrightarrow>
   store_ok q (t\<lparr>behavior_events := behavior_events t @ [b]\<rparr>)"
  by (simp add: store_ok_def)

lemma keys_worker:
  "keeps store_ok (claimEvent eventID consumerName)" "keeps store_ok (recordBehavior c input)"
  "keeps store_ok (incrementNoteView noteID)" "keeps store_ok (rebuildNoteCounters noteID)"
  "keeps store_ok (rebuildCommentCounters commentID)"
proof -
  show "keeps store_ok (claimEvent eventID consumerName)"
    unfolding claimEvent_def
    by (rule keys.keeps_mapErr, rule keys.keeps_or_no_rows, rule keys.keeps_execE)
      (auto simp: is_processed_def exists_pair intro!: store_ok_claim split: if_splits)
  show "keeps store_ok (recordBehavior c input)"
    unfolding recordBehavior_def Let_def
    by (rule keys.keeps_mapErr, rule keys.keeps_insert_serial)
      (auto simp: exists_key intro!: store_ok_behavior store_ok_tick split: if_splits)
  show "keeps store_ok (incrementNoteView noteID)"
    unfolding incrementNoteView_def
    by (intro keys.keeps_if keys.keeps_basic keys.keeps_mapErr keys.keeps_updateE) (simp add: store_ok_update_notes)
  show "keeps store_ok (rebuildNoteCounters noteID)" "keeps store_ok (rebuildCommentCounters commentID)"
    unfolding rebuildNoteCounters_def rebuildCommentCounters_def
    by (intro keys.keeps_if keys.keeps_basic keys.keeps_mapErr keeps_update_notes keeps_update_comments; simp)+
qed

lemmas keys_statements = keys_inserts keys_idempotent keys_EnqueueTx keys_outbox_marks keys_worker
  keeps_update_notes keeps_update_comments

text \<open>The operations: every one keeps the key constraints, whatever fails.\<close>

lemmas op_defs = publishedNoteProjectID_def noteProjectID_def enqueue_def note_count_def readMaterializedCount_def
  if_applied_def comment_note_project_def parent_root_def attachAuthors_def listMedia_def ignore_def

lemma keys_insert_all_media: "keeps store_ok (insert_all_media noteID ms)"
proof (induction ms)
  case (Cons m ms)
  then show ?case unfolding insert_all_media.simps by (intro keys.keeps_rules keys_inserts)
qed (simp only: insert_all_media.simps keys.keeps_basic)

lemmas body_defs = CreateNote_body_def RecordNoteView_body_def UpdateNote_body_def SoftDeleteNote_body_def LikeNote_body_def
  CollectNote_body_def ShareNote_body_def removeNoteInteraction_body_def CreateComment_body_def LikeComment_body_def
  UnlikeComment_body_def SoftDeleteComment_body_def

lemma grows_insert_all_media [grows_intros]: "seq_grows (insert_all_media noteID ms)"
proof (induction ms)
  case (Cons m ms)
  then show ?case unfolding insert_all_media.simps insert_media_def by (intro grows_intros)
qed (simp only: insert_all_media.simps seq_grows_basic)

lemmas statement_defs = insert_note_def insert_media_def insert_share_def insert_comment_def insertIdempotent_def
  EnqueueTx_def update_returning_def claimEvent_def recordBehavior_def incrementNoteView_def rebuildNoteCounters_def
  rebuildCommentCounters_def Let_def

lemma grows_bodies:
  "seq_grows (CreateNote_body c input)" "seq_grows (RecordNoteView_body c n u)" "seq_grows (UpdateNote_body c n uinput)"
  "seq_grows (SoftDeleteNote_body c n u)" "seq_grows (LikeNote_body c n u)" "seq_grows (CollectNote_body c n u name)"
  "seq_grows (ShareNote_body c n u ch)" "seq_grows (removeNoteInteraction_body c n u tab ety act col)"
  "seq_grows (CreateComment_body c n cinput)" "seq_grows (LikeComment_body c n u)" "seq_grows (UnlikeComment_body c n u)"
  "seq_grows (SoftDeleteComment_body c n u)"
  unfolding body_defs op_defs statement_defs by (intro grows_intros)+

lemma grows_ApplyEvent_body: "seq_grows (ApplyEvent_body c consumerName input)"
  unfolding ApplyEvent_body_def rebuildDerivedCounters_def op_defs statement_defs by (intro grows_intros)

lemma keys_bodies:
  "keeps store_ok (CreateNote_body c input)" "keeps store_ok (RecordNoteView_body c n u)" "keeps store_ok (UpdateNote_body c n uinput)"
  "keeps store_ok (SoftDeleteNote_body c n u)" "keeps store_ok (LikeNote_body c n u)" "keeps store_ok (CollectNote_body c n u name)"
  "keeps store_ok (ShareNote_body c n u ch)" "keeps store_ok (removeNoteInteraction_body c n u tab ety act col)"
  "keeps store_ok (CreateComment_body c n cinput)" "keeps store_ok (LikeComment_body c n u)" "keeps store_ok (UnlikeComment_body c n u)"
  "keeps store_ok (SoftDeleteComment_body c n u)"
  unfolding body_defs op_defs
  by (intro keys.keeps_rules keys_statements keys_insert_all_media; simp)+

lemma keys_ApplyEvent_body: "keeps store_ok (ApplyEvent_body c consumerName input)"
  unfolding ApplyEvent_body_def rebuildDerivedCounters_def op_defs Let_def
  by (intro keys.keeps_rules keys_statements)

end
