(* ===== verification/Derived.thy ===== *)
theory Derived
  imports Note_Props
begin

text \<open>
  Derived counters. The API changes facts (likes, collects, comments, shares) and records an event
  in the same transaction; the worker later rebuilds the counters the event names. The invariant
  \<open>derived_ok\<close> says that a counter which is not exact has an event on its way that will rebuild it.
\<close>

section \<open>Events of the outbox as the worker sees them\<close>

definition row_app :: "outbox_row \<Rightarrow> go_error + EventApplication" where
  "row_app e = event_application (envelope_of (event_of_row e))"

lemma fold_names:
  "fold_name ''note_id'' = ''note_id''" "fold_name ''user_id'' = ''user_id''" "fold_name ''project_id'' = ''project_id''"
  "fold_name ''comment_id'' = ''comment_id''" "fold_name ''parent_id'' = ''parent_id''" "fold_name ''category'' = ''category''"
  "fold_name ''collection_name'' = ''collection_name''" "fold_name ''channel'' = ''channel''" "fold_name ''share_id'' = ''share_id''"
  "fold_name ''intent'' = ''intent''" "fold_name ''content_version'' = ''content_version''"
  by (simp_all add: ascii_lower_def byte_def)

lemmas decode_simps = decode_eventPayload_def int64_field_ok_def int64_field_def member_of_def fold_names int64_member_ok_def

lemma decode_note_payload:
  "in_int64 n \<Longrightarrow> in_int64 p \<Longrightarrow> in_int64 u \<Longrightarrow>
   decode_eventPayload (Some (JObj [(''note_id'', JInt n), (''project_id'', JInt p), (''user_id'', JInt u)])) =
     Some \<lparr>pl_ProjectID = p, pl_UserID = u, pl_NoteID = n, pl_CommentID = 0, pl_ParentID = 0\<rparr>"
  by (simp add: decode_simps del: fold_name.simps)

lemma decode_collect_payload:
  "in_int64 n \<Longrightarrow> in_int64 p \<Longrightarrow> in_int64 u \<Longrightarrow>
   decode_eventPayload (Some (JObj [(''collection_name'', JStr x), (''note_id'', JInt n), (''project_id'', JInt p), (''user_id'', JInt u)])) =
     Some \<lparr>pl_ProjectID = p, pl_UserID = u, pl_NoteID = n, pl_CommentID = 0, pl_ParentID = 0\<rparr>"
  by (simp add: decode_simps del: fold_name.simps)

lemma decode_share_payload:
  "in_int64 n \<Longrightarrow> in_int64 p \<Longrightarrow> in_int64 u \<Longrightarrow> in_int64 h \<Longrightarrow>
   decode_eventPayload (Some (JObj [(''channel'', JStr x), (''note_id'', JInt n), (''project_id'', JInt p), (''share_id'', JInt h), (''user_id'', JInt u)])) =
     Some \<lparr>pl_ProjectID = p, pl_UserID = u, pl_NoteID = n, pl_CommentID = 0, pl_ParentID = 0\<rparr>"
  by (simp add: decode_simps del: fold_name.simps)

lemma decode_created_payload:
  "in_int64 n \<Longrightarrow> in_int64 p \<Longrightarrow> in_int64 u \<Longrightarrow> in_int64 k \<Longrightarrow> in_int64 q \<Longrightarrow>
   decode_eventPayload (Some (JObj [(''comment_id'', JInt k), (''intent'', JStr x), (''note_id'', JInt n), (''parent_id'', JInt q),
       (''project_id'', JInt p), (''user_id'', JInt u)])) =
     Some \<lparr>pl_ProjectID = p, pl_UserID = u, pl_NoteID = n, pl_CommentID = k, pl_ParentID = q\<rparr>"
  by (simp add: decode_simps del: fold_name.simps)

lemma decode_deleted_payload:
  "in_int64 n \<Longrightarrow> in_int64 p \<Longrightarrow> in_int64 u \<Longrightarrow> in_int64 k \<Longrightarrow> in_int64 q \<Longrightarrow>
   decode_eventPayload (Some (JObj [(''comment_id'', JInt k), (''note_id'', JInt n), (''parent_id'', JInt q),
       (''project_id'', JInt p), (''user_id'', JInt u)])) =
     Some \<lparr>pl_ProjectID = p, pl_UserID = u, pl_NoteID = n, pl_CommentID = k, pl_ParentID = q\<rparr>"
  by (simp add: decode_simps del: fold_name.simps)

lemma decode_comment_like_payload:
  "in_int64 n \<Longrightarrow> in_int64 p \<Longrightarrow> in_int64 u \<Longrightarrow> in_int64 k \<Longrightarrow>
   decode_eventPayload (Some (JObj [(''comment_id'', JInt k), (''note_id'', JInt n), (''project_id'', JInt p), (''user_id'', JInt u)])) =
     Some \<lparr>pl_ProjectID = p, pl_UserID = u, pl_NoteID = n, pl_CommentID = k, pl_ParentID = 0\<rparr>"
  by (simp add: decode_simps del: fold_name.simps)

lemma NewEventID_nonempty [simp]: "NewEventID c ty \<noteq> []"
  by (simp add: NewEventID_def split: option.splits)

definition app_of :: "outbox_row \<Rightarrow> eventPayload \<Rightarrow> EventApplication" where
  "app_of e P =
     \<lparr>ap_Envelope = (envelope_of (event_of_row e))\<lparr>env_SchemaVersion := 1\<rparr>, ap_ProjectID = pl_ProjectID P,
      ap_UserID = pl_UserID P, ap_NoteID = pl_NoteID P, ap_CommentID = pl_CommentID P, ap_ParentID = pl_ParentID P,
      ap_EventType = behaviorEventType (o_event_type e)\<rparr>"

lemma row_app_new:
  assumes "decode_eventPayload (Some (JObj pl)) = Some P" "0 < pl_UserID P" "ty \<noteq> []"
    and "e = new_outbox_row c (event_input a i ty pl) k now"
  shows "row_app e = Inr (app_of e P)"
  using assms
  by (simp add: row_app_def event_application_def envelope_of_def event_of_row_def new_outbox_row_def event_input_def Let_def
      app_of_def)

section \<open>Exact or awaited\<close>

definition note_counters :: "note_row \<Rightarrow> int \<times> int \<times> int \<times> int" where
  "note_counters n = (n_like_count n, n_collect_count n, n_comment_count n, n_share_count n)"

definition note_facts :: "store \<Rightarrow> int \<Rightarrow> int \<times> int \<times> int \<times> int" where
  "note_facts t i = (count_likes t i, count_collects t i, count_comments t i, count_shares t i)"

definition comment_counters :: "comment_row \<Rightarrow> int \<times> int" where
  "comment_counters c = (c_like_count c, c_reply_count c)"

definition comment_facts :: "store \<Rightarrow> int \<Rightarrow> int \<times> int" where
  "comment_facts t i = (count_comment_likes t i, count_replies t i)"

definition comment_change_types :: "string list" where
  "comment_change_types = [''comment.created'', ''comment.deleted'']"

definition covers_note :: "outbox_row \<Rightarrow> int \<Rightarrow> bool" where
  "covers_note e i = (case row_app e of Inl _ \<Rightarrow> False | Inr a \<Rightarrow>
     ap_NoteID a = i \<and> o_event_type e \<in> set (note_rebuild_types @ comment_change_types))"

definition covers_comment :: "outbox_row \<Rightarrow> int \<Rightarrow> bool" where
  "covers_comment e i = (case row_app e of Inl _ \<Rightarrow> False | Inr a \<Rightarrow>
     o_event_type e \<in> set comment_change_types \<and> (ap_CommentID a = i \<or> 0 < i \<and> ap_ParentID a = i) \<or>
     o_event_type e \<in> set [''comment.liked'', ''comment.unliked''] \<and> ap_CommentID a = i)"

definition awaiting :: "string \<Rightarrow> store \<Rightarrow> (outbox_row \<Rightarrow> int \<Rightarrow> bool) \<Rightarrow> int \<Rightarrow> bool" where
  "awaiting consumer t cov i =
     (\<exists>e\<in>set (outbox_events t). cov e i \<and> \<not> is_processed t (o_event_id e) consumer)"

text \<open>What the program keeps beyond the schema: replies have parents, and the columns hold \<open>int64\<close> values.\<close>

definition columns_ok :: "store \<Rightarrow> bool" where
  "columns_ok t =
     ((\<forall>c\<in>set (note_comments t). in_int64 (c_parent_id c) \<and> (c_parent_id c \<le> 0 \<or> c_parent_id c \<in> c_id ` set (note_comments t))) \<and>
      (\<forall>n\<in>set (all_notes t). in_int64 (n_project_id n)))"

definition derived_ok :: "string \<Rightarrow> store \<Rightarrow> bool" where
  "derived_ok consumer t =
     ((\<forall>n\<in>set (all_notes t). note_counters n = note_facts t (n_id n) \<or> awaiting consumer t covers_note (n_id n)) \<and>
      (\<forall>c\<in>set (note_comments t). comment_counters c = comment_facts t (c_id c) \<or> awaiting consumer t covers_comment (c_id c)) \<and>
      columns_ok t \<and>
      (\<forall>p\<in>set (processed_events t). pr_event_id p \<in> o_event_id ` set (outbox_events t)))"

text \<open>
  A change of the facts together with new events: rows whose facts change are named by an event.
\<close>

lemma derived_step:
  assumes ok: "derived_ok consumer t"
    and out: "outbox_events t' = outbox_events t @ rows" "processed_events t' = processed_events t"
    and fresh: "\<forall>e\<in>set rows. o_event_id e \<notin> o_event_id ` set (outbox_events t)"
    and ns: "\<And>n'. n' \<in> set (all_notes t') \<Longrightarrow> note_counters n' = note_facts t' (n_id n') \<or>
      (\<exists>n\<in>set (all_notes t). n_id n' = n_id n \<and> note_counters n' = note_counters n \<and>
        (note_facts t' (n_id n) = note_facts t (n_id n) \<or> (\<exists>e\<in>set rows. covers_note e (n_id n))))"
    and cs: "\<And>c'. c' \<in> set (note_comments t') \<Longrightarrow> comment_counters c' = comment_facts t' (c_id c') \<or>
      (\<exists>c\<in>set (note_comments t). c_id c' = c_id c \<and> comment_counters c' = comment_counters c \<and>
        (comment_facts t' (c_id c) = comment_facts t (c_id c) \<or> (\<exists>e\<in>set rows. covers_comment e (c_id c))))"
    and th: "columns_ok t'"
  shows "derived_ok consumer t'"
proof -
  have old: "awaiting consumer t' cov i" if "awaiting consumer t cov i" for cov i
    using that out by (auto simp: awaiting_def is_processed_def)
  have new: "awaiting consumer t' cov i" if "\<exists>e\<in>set rows. cov e i" for cov i
  proof -
    from that obtain e where e: "e \<in> set rows" "cov e i" by blast
    have "pr_event_id p \<in> o_event_id ` set (outbox_events t)" if "p \<in> set (processed_events t)" for p
      using ok that unfolding derived_ok_def by blast
    then have "\<not> is_processed t' (o_event_id e) consumer"
      using fresh e(1) out(2) unfolding is_processed_def exists_row_iff by metis
    then show ?thesis using e out(1) unfolding awaiting_def by auto
  qed
  have "note_counters n' = note_facts t' (n_id n') \<or> awaiting consumer t' covers_note (n_id n')" if n': "n' \<in> set (all_notes t')" for n'
    using ns [OF n'] ok old new unfolding derived_ok_def by metis
  moreover have "comment_counters c' = comment_facts t' (c_id c') \<or> awaiting consumer t' covers_comment (c_id c')"
    if c': "c' \<in> set (note_comments t')" for c'
    using cs [OF c'] ok old new unfolding derived_ok_def by metis
  ultimately show ?thesis using th ok out unfolding derived_ok_def by auto
qed

section \<open>Inverting the writes\<close>

lemma stmt_Inl_no_rows:
  "stmt f s = (Inl e, s') \<Longrightarrow> errors_is e SqlErrNoRows \<Longrightarrow> stmt_ok s \<and> f (stmt_next s) = (Inl e, s')"
proof (cases "faults s")
  case (Cons a list)
  assume "stmt f s = (Inl e, s')" "errors_is e SqlErrNoRows"
  then show ?thesis using Cons by (cases a) (auto simp: stmt_def stmt_ok_def stmt_next_def)
qed (simp add: stmt_def)

lemma insertIdempotent_Inr:
  assumes "insertIdempotent f s = (Inr b, s')"
  obtains (conflict) e where "\<not> b" "tables s' = tables s" "db_now s' = db_now s" "seqs s' = seqs s" "f (db_now s) (tables s) = Inl e"
  | (applied) t where "f (db_now s) (tables s) = Inr (b, t)" "tables s' = t" "db_now s' = db_now s" "seqs s' = seqs s"
proof (cases "execE f s")
  case (Pair r s1)
  show thesis
  proof (cases r)
    case (Inl e)
    then have "errors_is e SqlErrNoRows" "\<not> b" "s' = s1"
      using assms Pair by (auto simp: insertIdempotent_def or_no_rows_def split: if_splits)
    then show thesis
      using stmt_Inl_no_rows [of _ s e s1] Pair Inl conflict unfolding execE_def
      by (fastforce split: sum.splits)
  next
    case (Inr x)
    then have "x = b" "s' = s1" using assms Pair by (auto simp: insertIdempotent_def or_no_rows_def)
    then show thesis using Pair Inr applied by (auto simp: execE_Inr)
  qed
qed

lemma enqueue_Inr:
  assumes "enqueue c a i ty pl s = (Inr u, s')"
  obtains row where "row = new_outbox_row c (event_input a i ty pl) (seqs s ''outbox_events'' + 1) (db_now s)"
    "o_event_id row \<notin> o_event_id ` set (outbox_events (tables s))"
    "tables s' = (tables s)\<lparr>outbox_events := outbox_events (tables s) @ [row]\<rparr>" "0 < i" "db_now s' = db_now s"
  using assms
  by (auto simp: enqueue_def EnqueueTx_def run_Inr Let_def exists_key event_input_def split: if_splits)

lemma publishedNoteProjectID_Inr:
  "publishedNoteProjectID noteID s = (Inr p, s') \<longleftrightarrow>
   stmt_ok s \<and> (\<exists>n. find (is_published noteID) (all_notes (tables s)) = Some n \<and> p = n_project_id n) \<and> s' = stmt_next s"
  by (auto simp: publishedNoteProjectID_def run_Inr)

lemma note_count_Inr:
  "note_count col noteID s = (Inr k, s') \<longleftrightarrow>
   stmt_ok s \<and> (\<exists>n. find (\<lambda>n. n_id n = noteID) (all_notes (tables s)) = Some n \<and> k = col n) \<and> s' = stmt_next s"
  by (auto simp: note_count_def readMaterializedCount_def run_Inr)

lemma in_int64_key: "serial_ok hi key rows \<Longrightarrow> r \<in> set rows \<Longrightarrow> in_int64 (key r)"
  by (auto simp: serial_ok_def in_int64_def max_bigint_def)

lemma find_set: "find P rows = Some r \<Longrightarrow> r \<in> set rows \<and> P r"
  by (induction rows) (auto split: if_splits)

text \<open>Operations that change the facts of one note or of one comment.\<close>

lemma derived_note_fact:
  assumes "derived_ok consumer t" "all_notes t' = all_notes t" "note_comments t' = note_comments t"
    and "outbox_events t' = outbox_events t @ [e]" "processed_events t' = processed_events t"
    and "o_event_id e \<notin> o_event_id ` set (outbox_events t)"
    and "\<And>i. i \<noteq> N \<Longrightarrow> note_facts t' i = note_facts t i" "covers_note e N"
    and "\<And>i. comment_facts t' i = comment_facts t i"
  shows "derived_ok consumer t'"
proof (rule derived_step [OF assms(1,4,5)])
  show "\<forall>e\<in>set [e]. o_event_id e \<notin> o_event_id ` set (outbox_events t)" using assms(6) by simp
  show "columns_ok t'" using assms(1-3) by (simp add: derived_ok_def columns_ok_def)
  show "note_counters n' = note_facts t' (n_id n') \<or> (\<exists>n\<in>set (all_notes t). n_id n' = n_id n \<and> note_counters n' = note_counters n \<and>
        (note_facts t' (n_id n) = note_facts t (n_id n) \<or> (\<exists>e\<in>set [e]. covers_note e (n_id n))))"
    if "n' \<in> set (all_notes t')" for n'
    using that assms(2,7,8) by (cases "n_id n' = N") auto
  show "comment_counters c' = comment_facts t' (c_id c') \<or> (\<exists>c\<in>set (note_comments t). c_id c' = c_id c \<and>
        comment_counters c' = comment_counters c \<and>
        (comment_facts t' (c_id c) = comment_facts t (c_id c) \<or> (\<exists>e\<in>set [e]. covers_comment e (c_id c))))"
    if "c' \<in> set (note_comments t')" for c'
    using that assms(3,9) by auto
qed

lemma derived_comment_fact:
  assumes "derived_ok consumer t" "all_notes t' = all_notes t" "note_comments t' = note_comments t"
    and "outbox_events t' = outbox_events t @ [e]" "processed_events t' = processed_events t"
    and "o_event_id e \<notin> o_event_id ` set (outbox_events t)"
    and "\<And>i. i \<noteq> K \<Longrightarrow> comment_facts t' i = comment_facts t i" "covers_comment e K"
    and "\<And>i. note_facts t' i = note_facts t i"
  shows "derived_ok consumer t'"
proof (rule derived_step [OF assms(1,4,5)])
  show "\<forall>e\<in>set [e]. o_event_id e \<notin> o_event_id ` set (outbox_events t)" using assms(6) by simp
  show "columns_ok t'" using assms(1-3) by (simp add: derived_ok_def columns_ok_def)
  show "note_counters n' = note_facts t' (n_id n') \<or> (\<exists>n\<in>set (all_notes t). n_id n' = n_id n \<and> note_counters n' = note_counters n \<and>
        (note_facts t' (n_id n) = note_facts t (n_id n) \<or> (\<exists>e\<in>set [e]. covers_note e (n_id n))))"
    if "n' \<in> set (all_notes t')" for n'
    using that assms(2,9) by auto
  show "comment_counters c' = comment_facts t' (c_id c') \<or> (\<exists>c\<in>set (note_comments t). c_id c' = c_id c \<and>
        comment_counters c' = comment_counters c \<and>
        (comment_facts t' (c_id c) = comment_facts t (c_id c) \<or> (\<exists>e\<in>set [e]. covers_comment e (c_id c))))"
    if "c' \<in> set (note_comments t')" for c'
    using that assms(3,7,8) by (cases "c_id c' = K") auto
qed

definition counts_ok :: "string \<Rightarrow> (string \<Rightarrow> int) \<Rightarrow> store \<Rightarrow> bool" where
  "counts_ok consumer q t = (store_ok q t \<and> derived_ok consumer t)"

lemmas facts_defs = note_facts_def comment_facts_def count_likes_def count_collects_def count_comments_def count_shares_def
  count_comment_likes_def count_replies_def count_where_def

lemma covers_note_new:
  assumes "decode_eventPayload (Some (JObj pl)) = Some P" "0 < pl_UserID P"
    and "ty \<in> set (note_rebuild_types @ comment_change_types)"
  shows "covers_note (new_outbox_row c (event_input a i ty pl) k now) (pl_NoteID P)"
proof -
  have "ty \<noteq> []" using assms(3) by (auto simp: note_rebuild_types_def comment_change_types_def)
  from row_app_new [OF assms(1,2) this refl, of c a i k now] show ?thesis
    using assms(3) by (simp add: covers_note_def app_of_def new_outbox_row_def event_input_def)
qed

text \<open>A body that keeps the keys and, when it commits, the awaited counters.\<close>

lemma counts_okI:
  assumes "keeps store_ok m"
    and "\<And>s x s'. store_ok (seqs s) (tables s) \<Longrightarrow> derived_ok consumer (tables s) \<Longrightarrow> m s = (Inr x, s') \<Longrightarrow>
      derived_ok consumer (tables s')"
  shows "keeps_ok (counts_ok consumer) m"
  using assms unfolding keeps_ok_def counts_ok_def keeps_def by blast

lemma project_id_int64: "derived_ok consumer t \<Longrightarrow> find P (all_notes t) = Some n \<Longrightarrow> in_int64 (n_project_id n)"
  using find_set by (fastforce simp: derived_ok_def columns_ok_def)

lemma note_effect_derived:
  assumes "derived_ok consumer t" "enqueue c a i ty pl s1 = (Inr u, s')" "ty \<in> set (note_rebuild_types @ comment_change_types)"
    and "decode_eventPayload (Some (JObj pl)) = Some P" "0 < pl_UserID P"
    and "all_notes (tables s1) = all_notes t" "note_comments (tables s1) = note_comments t"
    and "outbox_events (tables s1) = outbox_events t" "processed_events (tables s1) = processed_events t"
    and "\<And>i. i \<noteq> pl_NoteID P \<Longrightarrow> note_facts (tables s1) i = note_facts t i"
    and "\<And>i. comment_facts (tables s1) i = comment_facts t i"
  shows "derived_ok consumer (tables s')"
  using assms(2)
proof (rule enqueue_Inr)
  fix row
  assume r: "row = new_outbox_row c (event_input a i ty pl) (seqs s1 ''outbox_events'' + 1) (db_now s1)"
    "o_event_id row \<notin> o_event_id ` set (outbox_events (tables s1))"
    "tables s' = (tables s1)\<lparr>outbox_events := outbox_events (tables s1) @ [row]\<rparr>"
  have cov: "covers_note row (pl_NoteID P)" using covers_note_new [OF assms(4,5,3)] r(1) by simp
  have f: "note_facts (tables s') = note_facts (tables s1)" "comment_facts (tables s') = comment_facts (tables s1)"
    by (auto simp: r(3) facts_defs fun_eq_iff)
  show ?thesis
    by (rule derived_note_fact [OF assms(1) _ _ _ _ _ _ cov]) (use r assms(6-11) f in auto)
qed

text \<open>The common shape of the four idempotent actions on notes.\<close>

lemma note_action_Inr [consumes 2, case_names conflict applied]:
  assumes run: "bindE (publishedNoteProjectID noteID) (\<lambda>projectID.
      bindE (mapErr mapDBError (insertIdempotent f)) (\<lambda>applied.
      bindE (mapErr mapDBError (note_count col noteID)) (\<lambda>k.
      bindE (if_applied applied (enqueue c a i ty (pl projectID))) (\<lambda>_.
      returnE (Commit (res applied k)))))) s = (Inr x, s')"
    and f: "\<forall>now t b t'. f now t = Inr (b, t') \<longrightarrow> b"
  obtains (conflict) k e where "tables s' = tables s" "x = Commit (res False k)" "f (db_now s) (tables s) = Inl e"
  | (applied) n t1 s3 k where "find (is_published noteID) (all_notes (tables s)) = Some n"
      "f (db_now s) (tables s) = Inr (True, t1)" "tables s3 = t1" "enqueue c a i ty (pl (n_project_id n)) s3 = (Inr (), s')"
      "x = Commit (res True k)"
proof -
  from run obtain n s2 b s3 u k where
    n: "find (is_published noteID) (all_notes (tables s)) = Some n"
    and ins: "insertIdempotent f (stmt_next s) = (Inr b, s2)"
    and s3: "s3 = stmt_next s2"
    and enq: "if_applied b (enqueue c a i ty (pl (n_project_id n))) s3 = (Inr u, s')" "x = Commit (res b k)"
    by (auto simp: run_Inr publishedNoteProjectID_Inr note_count_Inr)
  from ins show thesis
  proof (cases rule: insertIdempotent_Inr)
    case conflict
    then show thesis using enq s3 that(1) by (auto simp: if_applied_def)
  next
    case (applied t)
    then have b using f by blast
    then show thesis using applied enq s3 n that(2) [of n "tables s2" s3 k] by (simp add: if_applied_def)
  qed
qed

lemma insert_like_Inr:
  "insert_like n u now t = Inr (b, t') \<Longrightarrow> b \<and> t' = t\<lparr>note_likes := note_likes t @ [\<lparr>l_note_id = n, l_user_id = u, l_created_at = now\<rparr>]\<rparr>"
  by (auto simp: insert_like_def split: if_splits)

lemma insert_collect_Inr:
  "insert_collect n u x now t = Inr (b, t') \<Longrightarrow> b \<and> t' = t\<lparr>note_collects := note_collects t @
     [\<lparr>cl_note_id = n, cl_user_id = u, cl_collection_name = nullif_empty x, cl_created_at = now\<rparr>]\<rparr>"
  by (auto simp: insert_collect_def split: if_splits)

lemma delete_interaction_Inr:
  "delete_interaction tab n u now t = Inr (b, t') \<Longrightarrow> b \<and>
     (t' = t\<lparr>note_likes := filter (\<lambda>l. \<not> (l_note_id l = n \<and> l_user_id l = u)) (note_likes t)\<rparr> \<or>
      t' = t\<lparr>note_collects := filter (\<lambda>l. \<not> (cl_note_id l = n \<and> cl_user_id l = u)) (note_collects t)\<rparr>)"
  by (auto simp: delete_interaction_def split: if_splits)

lemma actions_True:
  "\<forall>now t b t'. insert_like n u now t = Inr (b, t') \<longrightarrow> b" "\<forall>now t b t'. insert_collect n u x now t = Inr (b, t') \<longrightarrow> b"
  "\<forall>now t b t'. delete_interaction tab n u now t = Inr (b, t') \<longrightarrow> b"
  using insert_like_Inr insert_collect_Inr delete_interaction_Inr by blast+

lemma facts_frame:
  "i \<noteq> l_note_id l \<Longrightarrow> note_facts (t\<lparr>note_likes := note_likes t @ [l]\<rparr>) i = note_facts t i"
  "i \<noteq> cl_note_id k \<Longrightarrow> note_facts (t\<lparr>note_collects := note_collects t @ [k]\<rparr>) i = note_facts t i"
  "i \<noteq> sh_note_id h \<Longrightarrow> note_facts (t\<lparr>note_shares := note_shares t @ [h]\<rparr>) i = note_facts t i"
  "i \<noteq> n \<Longrightarrow> note_facts (t\<lparr>note_likes := filter (\<lambda>l. l_note_id l = n \<longrightarrow> l_user_id l \<noteq> u) (note_likes t)\<rparr>) i = note_facts t i"
  "i \<noteq> n \<Longrightarrow> note_facts (t\<lparr>note_collects := filter (\<lambda>l. cl_note_id l = n \<longrightarrow> cl_user_id l \<noteq> u) (note_collects t)\<rparr>) i = note_facts t i"
  "comment_facts (t\<lparr>note_likes := L\<rparr>) i = comment_facts t i"
  "comment_facts (t\<lparr>note_collects := C\<rparr>) i = comment_facts t i"
  "comment_facts (t\<lparr>note_shares := S\<rparr>) i = comment_facts t i"
  by (auto simp: facts_defs intro: arg_cong [of _ _ length] filter_cong)

lemmas type_defs = note_rebuild_types_def comment_change_types_def

lemma derived_LikeNote:
  assumes u: "0 < userID" "in_int64 userID" "in_int64 noteID" and ok: "derived_ok consumer (tables s)"
    and run: "LikeNote_body c noteID userID s = (Inr x, s')"
  shows "derived_ok consumer (tables s')"
  using run [unfolded LikeNote_body_def] actions_True(1)
proof (cases rule: note_action_Inr)
  case (applied n t1 s3 k)
  note p = project_id_int64 [OF ok applied(1)]
  show ?thesis
    by (rule note_effect_derived [OF ok applied(4) _ decode_note_payload [OF u(3) p u(2)]])
      (use insert_like_Inr [OF applied(2)] applied(3) u in \<open>auto simp: facts_frame type_defs\<close>)
qed (use ok in simp)

lemma derived_CollectNote:
  assumes u: "0 < userID" "in_int64 userID" "in_int64 noteID" and ok: "derived_ok consumer (tables s)"
    and run: "CollectNote_body c noteID userID name s = (Inr x, s')"
  shows "derived_ok consumer (tables s')"
  using run [unfolded CollectNote_body_def] actions_True(2)
proof (cases rule: note_action_Inr)
  case (applied n t1 s3 k)
  note p = project_id_int64 [OF ok applied(1)]
  show ?thesis
    by (rule note_effect_derived [OF ok applied(4) _ decode_collect_payload [OF u(3) p u(2)]])
      (use insert_collect_Inr [OF applied(2)] applied(3) u in \<open>auto simp: facts_frame type_defs\<close>)
qed (use ok in simp)

lemma derived_removeNoteInteraction:
  assumes u: "0 < userID" "in_int64 userID" "in_int64 noteID" and ok: "derived_ok consumer (tables s)"
    and ty: "ty = ''note.unliked'' \<or> ty = ''note.uncollected''"
    and run: "removeNoteInteraction_body c noteID userID tab ty act col s = (Inr x, s')"
  shows "derived_ok consumer (tables s')"
  using run [unfolded removeNoteInteraction_body_def] actions_True(3)
proof (cases rule: note_action_Inr)
  case (applied n t1 s3 k)
  note p = project_id_int64 [OF ok applied(1)]
  show ?thesis
    by (rule note_effect_derived [OF ok applied(4) _ decode_note_payload [OF u(3) p u(2)]])
      (use delete_interaction_Inr [OF applied(2)] applied(3) u ty in \<open>auto simp: facts_frame type_defs\<close>)
qed (use ok in simp)

lemma derived_ShareNote:
  assumes u: "0 < userID" "in_int64 userID" "in_int64 noteID"
    and ok: "store_ok (seqs s) (tables s)" "derived_ok consumer (tables s)"
    and run: "ShareNote_body c noteID userID channel s = (Inr x, s')"
  shows "derived_ok consumer (tables s')"
proof -
  from run obtain n s2 h k where
    n: "find (is_published noteID) (all_notes (tables s)) = Some n"
    and ins: "insert_share noteID userID channel (stmt_next s) = (Inr h, s2)"
    and enq: "enqueue c ''note'' noteID ''note.shared'' [(''channel'', JStr channel), (''note_id'', JInt noteID),
        (''project_id'', JInt (n_project_id n)), (''share_id'', JInt h), (''user_id'', JInt userID)] (stmt_next s2) = (Inr k, s')"
    by (auto simp: ShareNote_body_def run_Inr publishedNoteProjectID_Inr note_count_Inr)
  note p = project_id_int64 [OF ok(2) n]
  have t2: "tables s2 = (tables s)\<lparr>note_shares := note_shares (tables s) @ [\<lparr>sh_id = h, sh_note_id = noteID, sh_user_id = userID,
      sh_channel = channel, sh_created_at = db_now s\<rparr>]\<rparr>" "h = seqs s ''note_shares'' + 1" "h \<le> max_bigint"
    using ins by (auto simp: insert_share_def run_Inr split: if_splits)
  have "0 \<le> seqs s ''note_shares''" using ok(1) by (simp add: store_ok_def)
  then have h: "in_int64 h" using t2 by (simp add: in_int64_def max_bigint_def)
  show ?thesis
    by (rule note_effect_derived [OF ok(2) enq _ decode_share_payload [OF u(3) p u(2) h]])
      (use t2(1) u in \<open>auto simp: facts_frame type_defs\<close>)
qed

text \<open>Operations that leave every counter and every fact alone.\<close>

lemma derived_frame:
  assumes "derived_ok consumer t" "enqueue c a i ty pl s1 = (Inr u, s')"
    and "note_comments (tables s1) = note_comments t"
    and "outbox_events (tables s1) = outbox_events t" "processed_events (tables s1) = processed_events t"
    and "\<And>i. note_facts (tables s1) i = note_facts t i" "\<And>i. comment_facts (tables s1) i = comment_facts t i"
    and "\<And>n'. n' \<in> set (all_notes (tables s1)) \<Longrightarrow> in_int64 (n_project_id n') \<and>
      (note_counters n' = note_facts t (n_id n') \<or> (\<exists>n\<in>set (all_notes t). n_id n' = n_id n \<and> note_counters n' = note_counters n))"
  shows "derived_ok consumer (tables s')"
  using assms(2)
proof (rule enqueue_Inr)
  fix row
  assume r: "o_event_id row \<notin> o_event_id ` set (outbox_events (tables s1))"
    "tables s' = (tables s1)\<lparr>outbox_events := outbox_events (tables s1) @ [row]\<rparr>"
  have f: "note_facts (tables s') = note_facts t" "comment_facts (tables s') = comment_facts t"
    using assms(6,7) by (auto simp: r(2) facts_defs fun_eq_iff)
  show ?thesis
  proof (rule derived_step [OF assms(1), of _ "[row]"])
    show "columns_ok (tables s')" using assms(1,3,8) r(2) by (simp add: derived_ok_def columns_ok_def)
    show "note_counters n' = note_facts (tables s') (n_id n') \<or>
      (\<exists>n\<in>set (all_notes t). n_id n' = n_id n \<and> note_counters n' = note_counters n \<and>
        (note_facts (tables s') (n_id n) = note_facts t (n_id n) \<or> (\<exists>e\<in>set [row]. covers_note e (n_id n))))"
      if "n' \<in> set (all_notes (tables s'))" for n'
      using that assms(8) [of n'] f r(2) by auto
  qed (use assms(3-5) r f in auto)
qed

lemma derived_RecordNoteView:
  assumes ok: "derived_ok consumer (tables s)" and run: "RecordNoteView_body c noteID userID s = (Inr x, s')"
  shows "derived_ok consumer (tables s')"
proof -
  obtain pl k where "enqueue c ''note'' noteID ''note.viewed'' pl (stmt_next s) = (Inr k, s')"
    using run by (auto simp: RecordNoteView_body_def run_Inr publishedNoteProjectID_Inr)
  then show ?thesis
    by (rule derived_frame [OF ok]) (use ok in \<open>auto simp: derived_ok_def columns_ok_def\<close>)
qed

lemma update_returning_Inr:
  "update_returning get put P f g s = (Inr x, s') \<longleftrightarrow>
   stmt_ok s \<and> (\<exists>r. find P (get (tables s)) = Some r \<and> x = g (f (db_now s) (tables s) r) \<and>
     s' = (stmt_next s)\<lparr>tables := put (update_where P (f (db_now s) (tables s)) (get (tables s))) (tables s)\<rparr>)"
  by (auto simp: update_returning_def execE_Inr split: option.splits)

lemma facts_notes [simp]:
  "note_facts (t\<lparr>all_notes := N\<rparr>) i = note_facts t i" "comment_facts (t\<lparr>all_notes := N\<rparr>) i = comment_facts t i"
  by (simp_all add: facts_defs)

lemma derived_update_notes:
  assumes ok: "derived_ok consumer t" and t1: "tables s1 = t\<lparr>all_notes := update_where P f (all_notes t)\<rparr>"
    and f: "\<And>n. n_id (f n) = n_id n \<and> n_project_id (f n) = n_project_id n \<and> note_counters (f n) = note_counters n"
    and enq: "enqueue c a i ty pl s1 = (Inr u, s')"
  shows "derived_ok consumer (tables s')"
proof (rule derived_frame [OF ok enq])
  fix n' assume "n' \<in> set (all_notes (tables s1))"
  then obtain n where n: "n \<in> set (all_notes t)" "n' = (if P n then f n else n)"
    by (auto simp: t1 update_where_set)
  moreover have "in_int64 (n_project_id n)" using ok n(1) by (simp add: derived_ok_def columns_ok_def)
  ultimately show "in_int64 (n_project_id n') \<and>
      (note_counters n' = note_facts t (n_id n') \<or> (\<exists>n\<in>set (all_notes t). n_id n' = n_id n \<and> note_counters n' = note_counters n))"
    using f [of n] by auto
qed (simp_all add: t1)

lemma derived_UpdateNote:
  assumes ok: "derived_ok consumer (tables s)" and run: "UpdateNote_body c noteID input s = (Inr x, s')"
  shows "derived_ok consumer (tables s')"
proof -
  obtain s1 pl k where enq: "enqueue c ''note'' noteID ''note.updated'' pl s1 = (Inr k, s')"
    and t1: "tables s1 = (tables s)\<lparr>all_notes := update_where (is_published noteID)
        (\<lambda>n. enforce_note_content_version n (update_note_columns input (db_now s) n)) (all_notes (tables s))\<rparr>"
    using run by (auto simp: UpdateNote_body_def run_Inr update_returning_Inr)
  show ?thesis
    by (rule derived_update_notes [OF ok t1 _ enq])
      (simp add: enforce_note_content_version_def update_note_columns_def note_counters_def)
qed

lemma derived_SoftDeleteNote:
  assumes ok: "derived_ok consumer (tables s)" and run: "SoftDeleteNote_body c noteID actor s = (Inr x, s')"
  shows "derived_ok consumer (tables s')"
proof -
  obtain s1 pl k where enq: "enqueue c ''note'' noteID ''note.deleted'' pl s1 = (Inr k, s')"
    and t1: "tables s1 = (tables s)\<lparr>all_notes := update_where (\<lambda>n. n_id n = noteID \<and> n_status n \<noteq> ''deleted'')
        (\<lambda>n. enforce_note_content_version n (delete_note_columns (db_now s) n)) (all_notes (tables s))\<rparr>"
    using run by (auto simp: SoftDeleteNote_body_def run_Inr update_returning_Inr)
  show ?thesis
    by (rule derived_update_notes [OF ok t1 _ enq])
      (simp add: enforce_note_content_version_def delete_note_columns_def note_counters_def)
qed

lemma count_where_0: "(\<And>r. r \<in> set rows \<Longrightarrow> \<not> P r) \<Longrightarrow> count_where P rows = 0"
  by (simp add: count_where_def filter_empty_conv)

lemma fresh_note_facts:
  assumes "store_ok q t" "i \<notin> n_id ` set (all_notes t)"
  shows "note_facts t i = (0, 0, 0, 0)"
proof -
  have "count_likes t i = 0" "count_collects t i = 0" "count_comments t i = 0" "count_shares t i = 0"
    unfolding count_likes_def count_collects_def count_comments_def count_shares_def
    using assms unfolding store_ok_def by (auto intro!: count_where_0)
  then show ?thesis by (simp add: note_facts_def)
qed

lemma fresh_comment_facts:
  assumes "store_ok q t" "columns_ok t" "i \<notin> c_id ` set (note_comments t)" "0 < i"
  shows "comment_facts t i = (0, 0)"
proof -
  have "count_comment_likes t i = 0" "count_replies t i = 0"
    unfolding count_comment_likes_def count_replies_def
    using assms unfolding store_ok_def columns_ok_def by (fastforce intro!: count_where_0)+
  then show ?thesis by (simp add: comment_facts_def)
qed

lemma fresh_serial: "serial_ok hi key rows \<Longrightarrow> hi + 1 \<notin> key ` set rows"
  by (auto simp: serial_ok_def)

lemma insert_all_media_Inr:
  "insert_all_media noteID ms s = (Inr rows, s') \<Longrightarrow> \<exists>M. tables s' = (tables s)\<lparr>note_media := M\<rparr>"
proof (induction ms arbitrary: s rows s')
  case Nil
  then show ?case by (auto intro: exI [of _ "note_media (tables s)"])
next
  case (Cons m ms)
  then obtain row s1 rows' where m: "insert_media noteID m s = (Inr row, s1)"
    and r: "insert_all_media noteID ms s1 = (Inr rows', s')"
    by (auto simp: bindE_Inr simp del: returnE_run) (auto simp: returnE_def)
  obtain M where "tables s1 = (tables s)\<lparr>note_media := M\<rparr>"
    using m by (auto simp: insert_media_def run_Inr Let_def split: if_splits)
  with Cons.IH [OF r] show ?case by auto
qed

lemma derived_CreateNote:
  assumes p: "in_int64 (cn_ProjectID input)"
    and ok: "store_ok (seqs s) (tables s)" "derived_ok consumer (tables s)"
    and run: "CreateNote_body c input s = (Inr x, s')"
  shows "derived_ok consumer (tables s')"
proof -
  obtain row s1 ms s2 pl k where ins: "insert_note input s = (Inr row, s1)"
    and med: "insert_all_media (n_id row) (cn_Media input) s1 = (Inr ms, s2)"
    and enq: "enqueue c ''note'' (n_id row) ''note.created'' pl s2 = (Inr k, s')"
    using run by (auto simp: CreateNote_body_def bindE_Inr)
  have t1: "tables s1 = (tables s)\<lparr>all_notes := all_notes (tables s) @ [row]\<rparr>"
    "row = new_note_row input (seqs s ''notes'' + 1) (db_now s)"
    using ins by (auto simp: insert_note_def run_Inr Let_def split: if_splits)
  obtain M where t2: "tables s2 = (tables s1)\<lparr>note_media := M\<rparr>" using insert_all_media_Inr [OF med] by blast
  have f: "note_facts (tables s) (seqs s ''notes'' + 1) = (0, 0, 0, 0)"
    by (rule fresh_note_facts [OF ok(1)], rule fresh_serial) (use ok(1) in \<open>simp add: store_ok_def\<close>)
  show ?thesis
  proof (rule derived_frame [OF ok(2) enq])
    fix n' assume "n' \<in> set (all_notes (tables s2))"
    then consider "n' \<in> set (all_notes (tables s))" | "n' = row" by (auto simp: t1(1) t2)
    then show "in_int64 (n_project_id n') \<and> (note_counters n' = note_facts (tables s) (n_id n') \<or>
       (\<exists>n\<in>set (all_notes (tables s)). n_id n' = n_id n \<and> note_counters n' = note_counters n))"
    proof cases
      case 1
      then show ?thesis using ok(2) by (auto simp: derived_ok_def columns_ok_def)
    next
      case 2
      then show ?thesis using p f by (simp add: t1(2) new_note_row_def note_counters_def)
    qed
  qed (simp_all add: t1(1) t2 facts_defs)
qed

text \<open>Comments appear and disappear: the note and the parent are named by the event.\<close>

lemma covers_comment_new:
  assumes "decode_eventPayload (Some (JObj pl)) = Some P" "0 < pl_UserID P"
    and "ty \<in> set comment_change_types"
  shows "covers_comment (new_outbox_row c (event_input a i ty pl) k now) (pl_CommentID P)"
    "0 < pl_ParentID P \<Longrightarrow> covers_comment (new_outbox_row c (event_input a i ty pl) k now) (pl_ParentID P)"
proof -
  have "ty \<noteq> []" using assms(3) by (auto simp: type_defs)
  from row_app_new [OF assms(1,2) this refl, of c a i k now] show
    "covers_comment (new_outbox_row c (event_input a i ty pl) k now) (pl_CommentID P)"
    "0 < pl_ParentID P \<Longrightarrow> covers_comment (new_outbox_row c (event_input a i ty pl) k now) (pl_ParentID P)"
    using assms(3) by (simp_all add: covers_comment_def app_of_def new_outbox_row_def event_input_def)
qed

lemma derived_comment_change:
  assumes ok: "derived_ok consumer t" and enq: "enqueue c a i ty pl s1 = (Inr u, s')"
    and P: "decode_eventPayload (Some (JObj pl)) = Some P" "0 < pl_UserID P" and ty: "ty \<in> set comment_change_types"
    and t1: "all_notes (tables s1) = all_notes t" "outbox_events (tables s1) = outbox_events t"
      "processed_events (tables s1) = processed_events t"
    and nf: "\<And>i. i \<noteq> pl_NoteID P \<Longrightarrow> note_facts (tables s1) i = note_facts t i"
    and cf: "\<And>i. 0 < i \<Longrightarrow> i \<noteq> pl_ParentID P \<Longrightarrow> comment_facts (tables s1) i = comment_facts t i"
    and cs: "\<And>c'. c' \<in> set (note_comments (tables s1)) \<Longrightarrow> 0 < c_id c' \<and> (comment_counters c' = comment_facts (tables s1) (c_id c') \<or>
      (\<exists>c\<in>set (note_comments t). c_id c' = c_id c \<and> comment_counters c' = comment_counters c))"
    and co: "columns_ok (tables s1)"
  shows "derived_ok consumer (tables s')"
  using enq
proof (rule enqueue_Inr)
  fix row
  assume r: "row = new_outbox_row c (event_input a i ty pl) (seqs s1 ''outbox_events'' + 1) (db_now s1)"
    "o_event_id row \<notin> o_event_id ` set (outbox_events (tables s1))"
    "tables s' = (tables s1)\<lparr>outbox_events := outbox_events (tables s1) @ [row]\<rparr>"
  have cn: "covers_note row (pl_NoteID P)" using covers_note_new [OF P] ty r(1) by simp
  have cp: "0 < pl_ParentID P \<Longrightarrow> covers_comment row (pl_ParentID P)" using covers_comment_new(2) [OF P ty] r(1) by simp
  have f: "note_facts (tables s') = note_facts (tables s1)" "comment_facts (tables s') = comment_facts (tables s1)"
    by (auto simp: r(3) facts_defs fun_eq_iff)
  show ?thesis
  proof (rule derived_step [OF ok, of _ "[row]"])
    show "columns_ok (tables s')" using co r(3) by (simp add: columns_ok_def)
    show "note_counters n' = note_facts (tables s') (n_id n') \<or>
      (\<exists>n\<in>set (all_notes t). n_id n' = n_id n \<and> note_counters n' = note_counters n \<and>
        (note_facts (tables s') (n_id n) = note_facts t (n_id n) \<or> (\<exists>e\<in>set [row]. covers_note e (n_id n))))"
      if "n' \<in> set (all_notes (tables s'))" for n'
      using that nf [of "n_id n'"] cn f r(3) t1(1)
      by (intro disjI2 bexI [of _ n']) (cases "n_id n' = pl_NoteID P", auto)
    show "comment_counters c' = comment_facts (tables s') (c_id c') \<or>
      (\<exists>c\<in>set (note_comments t). c_id c' = c_id c \<and> comment_counters c' = comment_counters c \<and>
        (comment_facts (tables s') (c_id c) = comment_facts t (c_id c) \<or> (\<exists>e\<in>set [row]. covers_comment e (c_id c))))"
      if "c' \<in> set (note_comments (tables s'))" for c'
      using that cs [of c'] cf [of "c_id c'"] cp f r(3) by (cases "c_id c' = pl_ParentID P") auto
  qed (use t1 r in auto)
qed

lemma serial_fresh_id:
  "store_ok q t \<Longrightarrow> q ''note_comments'' + 1 \<notin> c_id ` set (note_comments t)" "store_ok q t \<Longrightarrow> 0 < q sq + 1"
  using fresh_serial [of "q ''note_comments''" c_id] by (auto simp: store_ok_def add_nonneg_pos)

lemma comment_id_pos: "store_ok q t \<Longrightarrow> c \<in> set (note_comments t) \<Longrightarrow> 0 < c_id c"
  by (auto simp: store_ok_def serial_ok_def)

lemma insert_comment_Inr:
  assumes "insert_comment noteID input rootID s = (Inr row, s1)"
  shows "tables s1 = (tables s)\<lparr>note_comments := note_comments (tables s) @ [row]\<rparr>" "c_id row = seqs s ''note_comments'' + 1"
    "c_id row \<le> max_bigint" "c_note_id row = noteID" "c_parent_id row = cc_ParentID input" "c_status row = 1"
    "comment_counters row = (0, 0)"
  using assms by (auto simp: insert_comment_def run_Inr Let_def comment_counters_def split: if_splits)

lemma parent_root_Inr:
  assumes "parent_root parentID noteID s = (Inr rootID, s1)"
  shows "s1 = stmt_next s" "parentID \<in> c_id ` set (note_comments (tables s))"
  using assms find_set by (fastforce simp: parent_root_def run_Inr)+

lemma derived_CreateComment:
  assumes u: "0 < cc_UserID input" "in_int64 (cc_UserID input)" "in_int64 noteID" "in_int64 (cc_ParentID input)"
    and ok: "store_ok (seqs s) (tables s)" "derived_ok consumer (tables s)"
    and run: "CreateComment_body c noteID input s = (Inr x, s')"
  shows "derived_ok consumer (tables s')"
proof -
  let ?t = "tables s" and ?P = "cc_ParentID input"
  obtain n s1 rootID s2 row k where n: "find (is_published noteID) (all_notes ?t) = Some n"
    and root: "(if ?P > 0 then parent_root ?P noteID else returnE 0) (stmt_next s) = (Inr rootID, s1)"
    and ins: "insert_comment noteID input rootID s1 = (Inr row, s2)"
    and enq: "enqueue c ''comment'' (c_id row) ''comment.created'' [(''comment_id'', JInt (c_id row)), (''intent'', JStr (cc_Intent input)),
        (''note_id'', JInt noteID), (''parent_id'', JInt ?P), (''project_id'', JInt (n_project_id n)), (''user_id'', JInt (cc_UserID input))]
        s2 = (Inr k, s')"
    using run by (auto simp: CreateComment_body_def bindE_Inr publishedNoteProjectID_Inr)
  have s1: "tables s1 = ?t" "seqs s1 = seqs s" and par: "?P \<le> 0 \<or> ?P \<in> c_id ` set (note_comments ?t)"
    using root parent_root_Inr [of ?P noteID "stmt_next s" rootID s1] by (auto split: if_splits)
  note row = insert_comment_Inr [OF ins, unfolded s1]
  have pos: "0 < c_id row" and fresh: "c_id row \<notin> c_id ` set (note_comments ?t)"
    using serial_fresh_id [OF ok(1)] row(2) by auto
  have k: "in_int64 (c_id row)" using pos row(3) by (simp add: in_int64_def max_bigint_def)
  have pk: "?P \<noteq> c_id row" using par pos fresh by (metis not_le)
  have co: "columns_ok ?t" using ok(2) by (simp add: derived_ok_def)
  show ?thesis
  proof (rule derived_comment_change [OF ok(2) enq decode_created_payload [OF u(3) project_id_int64 [OF ok(2) n] u(2) k u(4)]])
    show "columns_ok (tables s2)" using co par u(4) row by (auto simp: columns_ok_def)
    fix c' assume "c' \<in> set (note_comments (tables s2))"
    then consider "c' \<in> set (note_comments ?t)" | "c' = row" using row(1) by auto
    then show "0 < c_id c' \<and> (comment_counters c' = comment_facts (tables s2) (c_id c') \<or>
      (\<exists>c\<in>set (note_comments ?t). c_id c' = c_id c \<and> comment_counters c' = comment_counters c))"
    proof cases
      case 1
      then show ?thesis using comment_id_pos [OF ok(1)] by auto
    next
      case 2
      have "comment_facts (tables s2) (c_id row) = comment_facts ?t (c_id row)"
        using row pk by (simp add: facts_defs)
      then show ?thesis using 2 fresh_comment_facts [OF ok(1) co fresh pos] row(7) pos by simp
    qed
  qed (use u row in \<open>auto simp: facts_defs type_defs\<close>)
qed

lemma comment_note_project_Inr:
  assumes "comment_note_project commentID s = (Inr (noteID, projectID), s1)" "store_ok q (tables s)" "derived_ok consumer (tables s)"
  shows "s1 = stmt_next s" "in_int64 noteID" "in_int64 projectID" "commentID \<in> c_id ` set (note_comments (tables s))"
proof -
  obtain c n where c: "find (live_comment commentID) (note_comments (tables s)) = Some c"
    and n: "find (\<lambda>n. n_id n = c_note_id c) (all_notes (tables s)) = Some n" and eq: "noteID = c_note_id c" "projectID = n_project_id n"
    and s1: "s1 = stmt_next s"
    using assms(1) by (auto simp: comment_note_project_def run_Inr split: option.splits)
  show "s1 = stmt_next s" "in_int64 projectID" using s1 project_id_int64 [OF assms(3) n] eq by auto
  show "in_int64 noteID"
    using find_set [OF n] eq in_int64_key [of _ n_id "all_notes (tables s)" n] assms(2) by (auto simp: store_ok_def)
  show "commentID \<in> c_id ` set (note_comments (tables s))" using find_set [OF c] by (auto simp: live_comment_def)
qed

lemma comment_like_effect_derived:
  assumes ok: "store_ok q t" "derived_ok consumer t" and u: "0 < userID" "in_int64 userID"
    and i: "in_int64 noteID" "in_int64 projectID" "commentID \<in> c_id ` set (note_comments t)"
    and ty: "ty = ''comment.liked'' \<or> ty = ''comment.unliked''"
    and enq: "enqueue c ''comment'' commentID ty [(''comment_id'', JInt commentID), (''note_id'', JInt noteID),
        (''project_id'', JInt projectID), (''user_id'', JInt userID)] s1 = (Inr k, s')"
    and t1: "tables s1 = t\<lparr>note_comment_likes := L\<rparr>"
    and L: "\<And>i. i \<noteq> commentID \<Longrightarrow> count_where (\<lambda>l. k_comment_id l = i) L = count_comment_likes t i"
  shows "derived_ok consumer (tables s')"
  using enq
proof (rule enqueue_Inr)
  fix row
  assume r: "row = new_outbox_row c (event_input ''comment'' commentID ty [(''comment_id'', JInt commentID), (''note_id'', JInt noteID),
        (''project_id'', JInt projectID), (''user_id'', JInt userID)]) (seqs s1 ''outbox_events'' + 1) (db_now s1)"
    "o_event_id row \<notin> o_event_id ` set (outbox_events (tables s1))"
    "tables s' = (tables s1)\<lparr>outbox_events := outbox_events (tables s1) @ [row]\<rparr>"
  have k: "in_int64 commentID" using i(3) ok(1) in_int64_key [of _ c_id "note_comments t"] by (auto simp: store_ok_def)
  have "ty \<noteq> []" using ty by auto
  from row_app_new [OF decode_comment_like_payload [OF i(1,2) u(2) k] _ this r(1)] have cov: "covers_comment row commentID"
    using u ty by (auto simp: covers_comment_def app_of_def r(1) new_outbox_row_def event_input_def type_defs)
  show ?thesis
    by (rule derived_comment_fact [OF ok(2) _ _ _ _ _ _ cov])
      (use r(2,3) t1 L in \<open>auto simp: facts_defs\<close>)
qed

lemma insert_comment_like_Inr:
  "insert_comment_like k u now t = Inr (b, t') \<Longrightarrow> b \<and>
   t' = t\<lparr>note_comment_likes := note_comment_likes t @ [\<lparr>k_comment_id = k, k_user_id = u, k_created_at = now\<rparr>]\<rparr>"
  by (auto simp: insert_comment_like_def split: if_splits)

lemma delete_comment_like_Inr:
  "delete_comment_like k u now t = Inr (b, t') \<Longrightarrow> b \<and>
   t' = t\<lparr>note_comment_likes := filter (\<lambda>l. \<not> (k_comment_id l = k \<and> k_user_id l = u)) (note_comment_likes t)\<rparr>"
  by (auto simp: delete_comment_like_def split: if_splits)

lemma derived_LikeComment:
  assumes u: "0 < userID" "in_int64 userID"
    and ok: "store_ok (seqs s) (tables s)" "derived_ok consumer (tables s)"
    and run: "LikeComment_body c commentID userID s = (Inr x, s')"
  shows "derived_ok consumer (tables s')"
proof -
  obtain b s1 s2 k where ins: "insertIdempotent (insert_comment_like commentID userID) s = (Inr b, s1)"
    and s2: "s2 = stmt_next s1"
    and enq: "if_applied b (bindE (comment_note_project commentID) (\<lambda>(noteID, projectID).
       enqueue c ''comment'' commentID ''comment.liked'' [(''comment_id'', JInt commentID), (''note_id'', JInt noteID),
         (''project_id'', JInt projectID), (''user_id'', JInt userID)])) s2 = (Inr k, s')"
    using run by (auto simp: LikeComment_body_def run_Inr readMaterializedCount_def)
  from ins show ?thesis
  proof (cases rule: insertIdempotent_Inr)
    case conflict
    then show ?thesis using enq ok(2) by (auto simp: if_applied_def s2)
  next
    case (applied t)
    note e = insert_comment_like_Inr [OF applied(1)]
    obtain noteID projectID s3 where cnp: "comment_note_project commentID s2 = (Inr (noteID, projectID), s3)"
      and enq': "enqueue c ''comment'' commentID ''comment.liked'' [(''comment_id'', JInt commentID), (''note_id'', JInt noteID),
         (''project_id'', JInt projectID), (''user_id'', JInt userID)] s3 = (Inr k, s')"
      using enq e by (auto simp: if_applied_def bindE_Inr split: prod.splits)
    obtain c0 n where f: "find (live_comment commentID) (note_comments (tables s)) = Some c0"
        "find (\<lambda>n. n_id n = c_note_id c0) (all_notes (tables s)) = Some n" "noteID = c_note_id c0" "projectID = n_project_id n"
      and s3: "s3 = stmt_next s2"
      using cnp e applied(2) by (auto simp: comment_note_project_def run_Inr s2 split: option.splits)
    have i: "in_int64 noteID" "in_int64 projectID" "commentID \<in> c_id ` set (note_comments (tables s))"
      using f project_id_int64 [OF ok(2) f(2)] find_set [OF f(1)] find_set [OF f(2)] ok(1)
        in_int64_key [of _ n_id "all_notes (tables s)" n]
      by (auto simp: live_comment_def store_ok_def)
    have t3: "tables s3 = (tables s)\<lparr>note_comment_likes := note_comment_likes (tables s) @
        [\<lparr>k_comment_id = commentID, k_user_id = userID, k_created_at = db_now s\<rparr>]\<rparr>"
      using e applied(2) s3 s2 by simp
    show ?thesis
      by (rule comment_like_effect_derived [OF ok u i _ enq' t3]) (auto simp: count_comment_likes_def count_where_def)
  qed
qed

lemma derived_UnlikeComment:
  assumes u: "0 < userID" "in_int64 userID"
    and ok: "store_ok (seqs s) (tables s)" "derived_ok consumer (tables s)"
    and run: "UnlikeComment_body c commentID userID s = (Inr x, s')"
  shows "derived_ok consumer (tables s')"
proof -
  obtain noteID projectID s1 b s2 s3 k where cnp: "comment_note_project commentID s = (Inr (noteID, projectID), s1)"
    and del: "insertIdempotent (delete_comment_like commentID userID) s1 = (Inr b, s2)"
    and s3: "s3 = stmt_next s2"
    and enq: "if_applied b (enqueue c ''comment'' commentID ''comment.unliked'' [(''comment_id'', JInt commentID),
         (''note_id'', JInt noteID), (''project_id'', JInt projectID), (''user_id'', JInt userID)]) s3 = (Inr k, s')"
    using run by (auto simp: UnlikeComment_body_def run_Inr readMaterializedCount_def split: prod.splits)
  note i = comment_note_project_Inr [OF cnp ok]
  from del show ?thesis
  proof (cases rule: insertIdempotent_Inr)
    case conflict
    then show ?thesis using enq ok(2) i(1) by (auto simp: if_applied_def s3)
  next
    case (applied t)
    note e = delete_comment_like_Inr [OF applied(1)]
    then have enq': "enqueue c ''comment'' commentID ''comment.unliked'' [(''comment_id'', JInt commentID),
         (''note_id'', JInt noteID), (''project_id'', JInt projectID), (''user_id'', JInt userID)] s3 = (Inr k, s')"
      using enq by (simp add: if_applied_def)
    have t3: "tables s3 = (tables s)\<lparr>note_comment_likes :=
        filter (\<lambda>l. \<not> (k_comment_id l = commentID \<and> k_user_id l = userID)) (note_comment_likes (tables s))\<rparr>"
      using e applied(2) s3 i(1) by simp
    show ?thesis
      by (rule comment_like_effect_derived [OF ok u i(2-4) _ enq' t3])
        (auto simp: count_comment_likes_def count_where_def intro: arg_cong [of _ _ length] filter_cong)
  qed
qed

lemma count_update_where:
  "(\<And>r. r \<in> set rows \<Longrightarrow> L r \<Longrightarrow> Q (f r) = Q r) \<Longrightarrow> count_where Q (update_where L f rows) = count_where Q rows"
  by (induction rows) (auto simp: count_where_def update_where_def)

lemma ball_update_where:
  "(\<And>r. Q (f r) = Q r) \<Longrightarrow> (\<forall>r\<in>set (update_where P f rows). Q r) = (\<forall>r\<in>set rows. Q r)"
  by (induction rows) (auto simp: update_where_def)

lemma columns_update_comments:
  "(\<And>c. c_id (f c) = c_id c \<and> c_parent_id (f c) = c_parent_id c) \<Longrightarrow>
   columns_ok (t\<lparr>note_comments := update_where P f (note_comments t)\<rparr>) = columns_ok t"
  by (simp add: columns_ok_def set_key_update_where ball_update_where)

lemma derived_SoftDeleteComment:
  assumes u: "0 < actor" "in_int64 actor"
    and ok: "store_ok (seqs s) (tables s)" "derived_ok consumer (tables s)"
    and run: "SoftDeleteComment_body c commentID actor s = (Inr x, s')"
  shows "derived_ok consumer (tables s')"
proof -
  let ?t = "tables s"
  define f where "f = (\<lambda>r. enforce_note_comment_content_version (db_now s) r (delete_comment_columns (db_now s) r))"
  obtain r n s1 k where r: "find (live_comment commentID) (note_comments ?t) = Some r"
    and n: "find (\<lambda>n. n_id n = c_note_id r) (all_notes ?t) = Some n"
    and enq: "enqueue c ''comment'' commentID ''comment.deleted'' [(''comment_id'', JInt commentID), (''note_id'', JInt (c_note_id r)),
        (''parent_id'', JInt (c_parent_id r)), (''project_id'', JInt (n_project_id n)), (''user_id'', JInt actor)] s1 = (Inr k, s')"
    and t1: "tables s1 = ?t\<lparr>note_comments := update_where (live_comment commentID) f (note_comments ?t)\<rparr>"
    using run
    by (auto simp: SoftDeleteComment_body_def run_Inr update_returning_Inr noteProjectID_def f_def delete_comment_columns_def
        enforce_note_comment_content_version_def split: prod.splits if_splits)
  have rs: "r \<in> set (note_comments ?t)" "c_id r = commentID" "c_status r = 1"
    using find_set [OF r] by (auto simp: live_comment_def)
  have only: "c = r" if "c \<in> set (note_comments ?t)" "live_comment commentID c" for c
    using that rs ok(1) by (auto simp: store_ok_def serial_ok_def live_comment_def distinct_map inj_on_def)
  have fr: "c_id (f c) = c_id c" "c_note_id (f c) = c_note_id c" "c_parent_id (f c) = c_parent_id c" "c_status (f c) = 0"
    "comment_counters (f c) = comment_counters c" for c
    by (auto simp: f_def enforce_note_comment_content_version_def delete_comment_columns_def comment_counters_def)
  have p: "in_int64 (c_note_id r)" "in_int64 commentID" "in_int64 (c_parent_id r)"
    using ok rs find_set [OF n] in_int64_key [of _ n_id "all_notes ?t" n] in_int64_key [of _ c_id "note_comments ?t" r]
    by (auto simp: store_ok_def derived_ok_def columns_ok_def)
  show ?thesis
  proof (rule derived_comment_change [OF ok(2) enq decode_deleted_payload [OF p(1) project_id_int64 [OF ok(2) n] u(2) p(2,3)]])
    show "note_facts (tables s1) i = note_facts ?t i" if "i \<noteq> pl_NoteID \<lparr>pl_ProjectID = n_project_id n, pl_UserID = actor,
        pl_NoteID = c_note_id r, pl_CommentID = commentID, pl_ParentID = c_parent_id r\<rparr>" for i
    proof -
      have "count_comments (tables s1) i = count_comments ?t i"
        unfolding count_comments_def t1 by simp (rule count_update_where, use that only fr in force)
      then show ?thesis by (simp add: t1 note_facts_def count_likes_def count_collects_def count_shares_def)
    qed
    show "comment_facts (tables s1) i = comment_facts ?t i" if "i \<noteq> pl_ParentID \<lparr>pl_ProjectID = n_project_id n, pl_UserID = actor,
        pl_NoteID = c_note_id r, pl_CommentID = commentID, pl_ParentID = c_parent_id r\<rparr>" for i
    proof -
      have "count_replies (tables s1) i = count_replies ?t i"
        unfolding count_replies_def t1 by simp (rule count_update_where, use that only fr in force)
      then show ?thesis by (simp add: t1 comment_facts_def count_comment_likes_def)
    qed
    show "columns_ok (tables s1)"
      using ok(2) fr by (simp add: derived_ok_def t1 columns_update_comments)
    fix c' assume "c' \<in> set (note_comments (tables s1))"
    then obtain c0 where "c0 \<in> set (note_comments ?t)" "c' = (if live_comment commentID c0 then f c0 else c0)"
      by (auto simp: t1 update_where_set)
    then show "0 < c_id c' \<and> (comment_counters c' = comment_facts (tables s1) (c_id c') \<or>
      (\<exists>c\<in>set (note_comments ?t). c_id c' = c_id c \<and> comment_counters c' = comment_counters c))"
      using comment_id_pos [OF ok(1), of c0] fr [of c0] by auto
  qed (use u in \<open>auto simp: t1 type_defs\<close>)
qed

section \<open>The worker\<close>

text \<open>
  \<open>refreshed t t' N C\<close>: facts, outbox and markers are the same, the counters of the notes \<open>N\<close> and the
  comments \<open>C\<close> are exact afterwards, and every other counter is as before or exact.
\<close>

definition refreshed :: "store \<Rightarrow> store \<Rightarrow> int set \<Rightarrow> int set \<Rightarrow> bool" where
  "refreshed t t' N C =
     (note_facts t' = note_facts t \<and> comment_facts t' = comment_facts t \<and> outbox_events t' = outbox_events t \<and>
      processed_events t' = processed_events t \<and> columns_ok t' = columns_ok t \<and>
      (\<forall>n'\<in>set (all_notes t'). \<exists>n\<in>set (all_notes t). n_id n' = n_id n \<and>
        (note_counters n' = note_counters n \<and> n_id n \<notin> N \<or> note_counters n' = note_facts t (n_id n))) \<and>
      (\<forall>c'\<in>set (note_comments t'). \<exists>c\<in>set (note_comments t). c_id c' = c_id c \<and>
        (comment_counters c' = comment_counters c \<and> c_id c \<notin> C \<or> comment_counters c' = comment_facts t (c_id c))))"

lemma refreshed_refl: "refreshed t t {} {}"
  by (auto simp: refreshed_def)

lemma refreshedD:
  assumes "refreshed t t' N C"
  shows "note_facts t' = note_facts t" "comment_facts t' = comment_facts t" "outbox_events t' = outbox_events t"
    "processed_events t' = processed_events t" "columns_ok t' = columns_ok t"
    "n' \<in> set (all_notes t') \<Longrightarrow> \<exists>n\<in>set (all_notes t). n_id n' = n_id n \<and>
        (note_counters n' = note_counters n \<and> n_id n \<notin> N \<or> note_counters n' = note_facts t (n_id n))"
    "c' \<in> set (note_comments t') \<Longrightarrow> \<exists>c\<in>set (note_comments t). c_id c' = c_id c \<and>
        (comment_counters c' = comment_counters c \<and> c_id c \<notin> C \<or> comment_counters c' = comment_facts t (c_id c))"
  using assms unfolding refreshed_def by blast+

lemma refreshed_trans:
  assumes a: "refreshed t t1 N1 C1" and b: "refreshed t1 t2 N2 C2"
  shows "refreshed t t2 (N1 \<union> N2) (C1 \<union> C2)"
proof -
  have "\<exists>n\<in>set (all_notes t). n_id n2 = n_id n \<and>
      (note_counters n2 = note_counters n \<and> n_id n \<notin> N1 \<union> N2 \<or> note_counters n2 = note_facts t (n_id n))"
    if "n2 \<in> set (all_notes t2)" for n2
  proof -
    note m = that
    obtain n1 where n1: "n1 \<in> set (all_notes t1)" "n_id n2 = n_id n1"
      "note_counters n2 = note_counters n1 \<and> n_id n1 \<notin> N2 \<or> note_counters n2 = note_facts t (n_id n1)"
      using refreshedD(6) [OF b m] refreshedD(1) [OF a] by metis
    obtain n where "n \<in> set (all_notes t)" "n_id n1 = n_id n"
      "note_counters n1 = note_counters n \<and> n_id n \<notin> N1 \<or> note_counters n1 = note_facts t (n_id n)"
      using refreshedD(6) [OF a n1(1)] by blast
    then show ?thesis using n1 by (intro bexI [of _ n]) auto
  qed
  moreover have "\<exists>c\<in>set (note_comments t). c_id c2 = c_id c \<and>
      (comment_counters c2 = comment_counters c \<and> c_id c \<notin> C1 \<union> C2 \<or> comment_counters c2 = comment_facts t (c_id c))"
    if "c2 \<in> set (note_comments t2)" for c2
  proof -
    note m = that
    obtain c1 where c1: "c1 \<in> set (note_comments t1)" "c_id c2 = c_id c1"
      "comment_counters c2 = comment_counters c1 \<and> c_id c1 \<notin> C2 \<or> comment_counters c2 = comment_facts t (c_id c1)"
      using refreshedD(7) [OF b m] refreshedD(2) [OF a] by metis
    obtain c where "c \<in> set (note_comments t)" "c_id c1 = c_id c"
      "comment_counters c1 = comment_counters c \<and> c_id c \<notin> C1 \<or> comment_counters c1 = comment_facts t (c_id c)"
      using refreshedD(7) [OF a c1(1)] by blast
    then show ?thesis using c1 by (intro bexI [of _ c]) auto
  qed
  moreover have "note_facts t2 = note_facts t" "comment_facts t2 = comment_facts t" "outbox_events t2 = outbox_events t"
    "processed_events t2 = processed_events t" "columns_ok t2 = columns_ok t"
    using refreshedD(1-5) [OF a] refreshedD(1-5) [OF b] by simp_all
  ultimately show ?thesis unfolding refreshed_def by blast
qed

lemma columns_update_notes:
  "(\<And>n. n_project_id (f n) = n_project_id n) \<Longrightarrow>
   columns_ok (t\<lparr>all_notes := update_where P f (all_notes t)\<rparr>) = columns_ok t"
  by (simp add: columns_ok_def ball_update_where)

lemma refreshed_update_notes:
  assumes t': "t' = t\<lparr>all_notes := update_where P f (all_notes t)\<rparr>"
    and f: "\<And>n. n_id (f n) = n_id n \<and> n_project_id (f n) = n_project_id n"
    and p: "\<And>n. P n \<Longrightarrow> note_counters (f n) = note_counters n \<and> n_id n \<notin> N \<or> note_counters (f n) = note_facts t (n_id n)"
    and np: "\<And>n. \<not> P n \<Longrightarrow> n_id n \<notin> N \<or> note_counters n = note_facts t (n_id n)"
  shows "refreshed t t' N {}"
proof -
  have "\<exists>n\<in>set (all_notes t). n_id n' = n_id n \<and>
      (note_counters n' = note_counters n \<and> n_id n \<notin> N \<or> note_counters n' = note_facts t (n_id n))"
    if "n' \<in> set (all_notes t')" for n'
  proof -
    note m = that
    obtain n where n: "n \<in> set (all_notes t)" "n' = (if P n then f n else n)" using m t' by (force simp: update_where_set)
    then show ?thesis using f [of n] p [of n] np [of n] by (intro bexI [of _ n]) auto
  qed
  moreover have "note_facts t' = note_facts t" "comment_facts t' = comment_facts t" by (auto simp: t' fun_eq_iff)
  moreover have "columns_ok t' = columns_ok t" using f by (simp add: t' columns_update_notes)
  ultimately show ?thesis unfolding refreshed_def by (auto simp: t')
qed

lemma refreshed_note:
  assumes "rebuildNoteCounters i s = (Inr x, s')"
  shows "refreshed (tables s) (tables s') {i} {}"
proof -
  let ?t = "tables s"
  have t': "tables s' = ?t\<lparr>all_notes := update_where (\<lambda>n. n_id n = i) (rebuilt_note (db_now s) ?t) (all_notes ?t)\<rparr>"
    using assms by (auto simp: rebuildNoteCounters_def update_returning_Inr split: if_splits)
  have r: "note_counters (rebuilt_note now t n) = note_facts t (n_id n)" "n_project_id (rebuilt_note now t n) = n_project_id n" for now t n
    by (simp_all add: rebuilt_note_def note_counters_def note_facts_def Let_def)
  show ?thesis by (rule refreshed_update_notes [OF t']) (auto simp: r)
qed

lemma facts_rebuilt_comments:
  assumes "\<And>c. c_id (f c) = c_id c \<and> c_note_id (f c) = c_note_id c \<and> c_status (f c) = c_status c \<and> c_parent_id (f c) = c_parent_id c"
  shows "note_facts (t\<lparr>note_comments := update_where P f (note_comments t)\<rparr>) = note_facts t"
    "comment_facts (t\<lparr>note_comments := update_where P f (note_comments t)\<rparr>) = comment_facts t"
  using assms
  by (auto simp: fun_eq_iff note_facts_def comment_facts_def count_likes_def count_collects_def count_shares_def count_comments_def
      count_comment_likes_def count_replies_def intro!: count_update_where)

lemma refreshed_update_comments:
  assumes t': "t' = t\<lparr>note_comments := update_where P f (note_comments t)\<rparr>"
    and f: "\<And>c. c_id (f c) = c_id c \<and> c_note_id (f c) = c_note_id c \<and> c_status (f c) = c_status c \<and> c_parent_id (f c) = c_parent_id c"
    and p: "\<And>c. c \<in> set (note_comments t) \<Longrightarrow> P c \<Longrightarrow> comment_counters (f c) = comment_facts t (c_id c)"
    and np: "\<And>c. c \<in> set (note_comments t) \<Longrightarrow> \<not> P c \<Longrightarrow> c_id c \<notin> C \<or> comment_counters c = comment_facts t (c_id c)"
  shows "refreshed t t' {} C"
proof -
  have "\<exists>c\<in>set (note_comments t). c_id c' = c_id c \<and>
      (comment_counters c' = comment_counters c \<and> c_id c \<notin> C \<or> comment_counters c' = comment_facts t (c_id c))"
    if "c' \<in> set (note_comments t')" for c'
  proof -
    note m = that
    obtain c where c: "c \<in> set (note_comments t)" "c' = (if P c then f c else c)"
      using m t' by (force simp: update_where_set)
    then show ?thesis using f p [OF c(1)] np [OF c(1)] by (intro bexI [of _ c]) auto
  qed
  moreover have "note_facts t' = note_facts t" "comment_facts t' = comment_facts t"
    using f by (simp_all add: t' facts_rebuilt_comments)
  moreover have "columns_ok t' = columns_ok t" using f by (simp add: t' columns_update_comments)
  ultimately show ?thesis unfolding refreshed_def by (auto simp: t')
qed

lemma rebuilt_comment_exact:
  "comment_counters (rebuilt_comment now t c) = comment_facts t (c_id c)" "c_status (rebuilt_comment now t c) = c_status c"
  "c_parent_id (rebuilt_comment now t c) = c_parent_id c" "c_note_id (rebuilt_comment now t c) = c_note_id c" "c_id (rebuilt_comment now t c) = c_id c"
  by (simp_all add: rebuilt_comment_def comment_counters_def comment_facts_def)

lemma refreshed_comment:
  assumes "rebuildCommentCounters i s = (Inr x, s')"
  shows "refreshed (tables s) (tables s') {} {i}"
proof -
  let ?t = "tables s"
  have t': "tables s' = ?t\<lparr>note_comments := update_where (\<lambda>c. c_id c = i) (rebuilt_comment (db_now s) ?t) (note_comments ?t)\<rparr>"
    using assms by (auto simp: rebuildCommentCounters_def update_returning_Inr split: if_splits)
  show ?thesis by (rule refreshed_update_comments [OF t']) (auto simp: rebuilt_comment_exact)
qed

lemma derived_refreshed:
  assumes "derived_ok consumer t" "refreshed t t' N C"
  shows "derived_ok consumer t'"
proof -
  note rd = refreshedD [OF assms(2)]
  have a: "awaiting consumer t' cov i = awaiting consumer t cov i" for cov i using rd(3,4) by (simp add: awaiting_def is_processed_def)
  have "note_counters n' = note_facts t' (n_id n') \<or> awaiting consumer t' covers_note (n_id n')" if "n' \<in> set (all_notes t')" for n'
    using rd(6) [OF that] assms(1) rd(1) unfolding derived_ok_def a by metis
  moreover have "comment_counters c' = comment_facts t' (c_id c') \<or> awaiting consumer t' covers_comment (c_id c')"
    if "c' \<in> set (note_comments t')" for c'
    using rd(7) [OF that] assms(1) rd(2) unfolding derived_ok_def a by metis
  ultimately show ?thesis using assms(1) rd(3-5) unfolding derived_ok_def by auto
qed

lemma refreshed_view:
  assumes "incrementNoteView i s = (Inr x, s')"
  shows "refreshed (tables s) (tables s') {} {}"
proof -
  have t': "tables s' = (tables s)\<lparr>all_notes := update_where (is_published i)
      (\<lambda>n. n\<lparr>n_view_count := n_view_count n + 1, n_hot_score := n_hot_score n + 1, n_updated_at := db_now s\<rparr>) (all_notes (tables s))\<rparr>"
    using assms by (auto simp: incrementNoteView_def updateE_Inr split: if_splits)
  show ?thesis by (rule refreshed_update_notes [OF t']) (auto simp: note_counters_def)
qed

lemma ignore_Inr: "ignore m s = (Inr u, s') \<longleftrightarrow> (\<exists>x. m s = (Inr x, s'))"
  by (auto simp: ignore_def bindE_Inr)

definition note_scope :: "string \<Rightarrow> EventApplication \<Rightarrow> int set" where
  "note_scope ty a = (if ty \<in> set (note_rebuild_types @ comment_change_types) then {ap_NoteID a} else {})"

definition comment_scope :: "string \<Rightarrow> EventApplication \<Rightarrow> int set" where
  "comment_scope ty a =
     (if ty \<in> set comment_change_types then {ap_CommentID a} \<union> (if 0 < ap_ParentID a then {ap_ParentID a} else {})
      else if ty \<in> set [''comment.liked'', ''comment.unliked''] then {ap_CommentID a} else {})"

lemma refreshed_derived:
  assumes run: "rebuildDerivedCounters a s = (Inr u, s')"
  shows "refreshed (tables s) (tables s') (note_scope (env_EventType (ap_Envelope a)) a) (comment_scope (env_EventType (ap_Envelope a)) a)"
proof -
  define ty where "ty = env_EventType (ap_Envelope a)"
  consider "ty \<in> set note_rebuild_types" | "ty \<in> set comment_change_types" | "ty \<in> set [''comment.liked'', ''comment.unliked'']"
    | "ty = ''note.viewed''" | "ty \<notin> set (note_rebuild_types @ comment_change_types @ [''comment.liked'', ''comment.unliked'', ''note.viewed''])"
    by auto
  then show ?thesis
  proof cases
    case 1
    then have "\<exists>x. rebuildNoteCounters (ap_NoteID a) s = (Inr x, s')" "note_scope ty a = {ap_NoteID a}" "comment_scope ty a = {}"
      using run by (auto simp: rebuildDerivedCounters_def ty_def Let_def ignore_Inr note_scope_def comment_scope_def type_defs)
    then show ?thesis using refreshed_note unfolding ty_def by metis
  next
    case 2
    then obtain x1 s1 s2 x3 where r: "rebuildCommentCounters (ap_CommentID a) s = (Inr x1, s1)"
      "(if ap_ParentID a > 0 then ignore (rebuildCommentCounters (ap_ParentID a)) else returnE ()) s1 = (Inr (), s2)"
      "rebuildNoteCounters (ap_NoteID a) s2 = (Inr x3, s')"
      using run by (auto simp: rebuildDerivedCounters_def ty_def Let_def ignore_Inr bindE_Inr type_defs)
    have "refreshed (tables s1) (tables s2) {} (if 0 < ap_ParentID a then {ap_ParentID a} else {})"
      using r(2) refreshed_comment refreshed_refl by (auto simp: ignore_Inr split: if_splits)
    from refreshed_trans [OF refreshed_trans [OF refreshed_comment [OF r(1)] this] refreshed_note [OF r(3)]]
    show ?thesis using 2 by (auto simp: note_scope_def comment_scope_def ty_def)
  next
    case 3
    then have "\<exists>x. rebuildCommentCounters (ap_CommentID a) s = (Inr x, s')" "note_scope ty a = {}" "comment_scope ty a = {ap_CommentID a}"
      using run by (auto simp: rebuildDerivedCounters_def ty_def Let_def ignore_Inr note_scope_def comment_scope_def type_defs)
    then show ?thesis using refreshed_comment unfolding ty_def by metis
  next
    case 4
    then show ?thesis
      using run refreshed_view by (auto simp: rebuildDerivedCounters_def ty_def Let_def note_scope_def comment_scope_def type_defs)
  next
    case 5
    then show ?thesis
      using run refreshed_refl by (auto simp: rebuildDerivedCounters_def ty_def Let_def note_scope_def comment_scope_def type_defs split: if_splits)
  qed
qed

lemma counts_ok_mono: "counts_ok consumer q t \<Longrightarrow> (\<And>x. q x \<le> q' x) \<Longrightarrow> counts_ok consumer q' t"
  using store_ok_mono by (auto simp: counts_ok_def)

text \<open>Both invariants together are again an invariant of the database, for every consumer.\<close>

interpretation counts: db_invariant "counts_ok consumer" for consumer
  by unfold_locales (rule counts_ok_mono)

end
