(* ===== verification/Account_Frame.thy ===== *)
theory Account_Frame
  imports Derived Account_Calls
begin

text \<open>
  The calls of the account service leave the community tables alone, so the counters and the key constraints of the
  community are kept by them.
\<close>

definition community :: "store \<Rightarrow> store" where
  "community t = t\<lparr>users := [], project_members := [], user_credentials := [], user_sessions := []\<rparr>"

definition account_frame :: "store \<Rightarrow> store \<Rightarrow> bool" where
  "account_frame t t' = (community t' = community t)"

lemma account_frame_update:
  "account_frame t t" "account_frame t (t\<lparr>users := U\<rparr>)" "account_frame t (t\<lparr>user_credentials := C\<rparr>)" "account_frame t (t\<lparr>user_sessions := S\<rparr>)"
  "account_frame t (ensure_default_project_membership u (t\<lparr>users := U\<rparr>))"
  by (simp_all add: account_frame_def community_def ensure_default_project_membership_def)

interpretation frame: db_preorder account_frame
  by unfold_locales (rule account_frame_update, auto simp: account_frame_def)

lemma frame_rotate: "evolves account_frame (RotateSession_body now h h' ua ip e)"
  unfolding RotateSession_body_def lock_session_def revoke_user_sessions_def insert_session_def replace_session_def Let_def
  by (intro frame.evolves_bindE frame.evolves_mapErr frame.evolves_or_no_rows frame.evolves_reads)
    (auto intro!: frame.evolves_rules frame.evolves_updateE frame.evolves_insert_serial account_frame_update split: option.splits if_splits)

interpretation frame_calls: account_changes account_frame
  by unfold_locales
    (auto simp: insert_user_def insert_credential_def insert_session_def RevokeSessionByRefreshHash_def UpdateUserProfile_def GetUserByID_def
      update_returning_def guardE_def Let_def evolves_evolves_ok [OF frame_rotate]
      intro!: frame.evolves_rules frame.evolves_updateE frame.evolves_execE frame.evolves_insert_serial account_frame_update
      split: option.splits if_splits)

lemma counts_community: "counts_ok consumer q (community t) = counts_ok consumer q t"
  by (simp add: community_def counts_ok_def store_ok_def derived_ok_def columns_ok_def facts_defs awaiting_def is_processed_def)

lemma counts_frame: "account_frame t t' \<Longrightarrow> counts_ok consumer q t \<Longrightarrow> counts_ok consumer q t'"
  unfolding account_frame_def by (metis counts_community)

lemma counts_run_auth:
  assumes "counts_ok consumer (seqs s) (tables s)" "run_auth sv call s = (r, s')"
  shows "counts_ok consumer (seqs s') (tables s')"
proof -
  have "seqs s x \<le> seqs s' x" for x using seq_growsD [OF seq_grows_run_auth assms(2)] .
  then have "counts_ok consumer (seqs s') (tables s)"
    using assms(1) store_ok_mono by (auto simp: counts_ok_def)
  then show ?thesis using counts_frame evolvesD [OF frame_calls.evolves_run_auth assms(2)] by blast
qed

end
