(* ===== verification/Reconcile.thy ===== *)
theory Reconcile
  imports Worker_Apply
begin

text \<open>
  The reconciler (\<open>reconcile/repository.go\<close>, \<open>reconcile/reconciler.go\<close>): a job that repairs the counters of a bounded
  batch of rows per run, walking the tables in a circle, and then replaces the rankings in Redis and drops the cached
  values. Parameters: the Redis client. Scores are whole numbers, exact as \<open>float64\<close> up to \<open>2^53\<close>.
\<close>

section \<open>Repository\<close>

record CounterRepairResult =
  NotesRepaired :: int
  CommentsRepaired :: int

record NoteRankingEntry =
  nr_ID :: int
  nr_Category :: string
  nr_Score :: int
  nr_Scope :: string

record CommentRankingEntry =
  cr_ID :: int
  cr_NoteID :: int
  cr_Score :: int

text \<open>\<open>SELECT id FROM table WHERE id > $1 ORDER BY id ASC LIMIT $2\<close>\<close>

definition next_ids :: "int list \<Rightarrow> int \<Rightarrow> int \<Rightarrow> int list" where
  "next_ids ids lastID limit = take (nat limit) (sort (filter (\<lambda>i. lastID < i) ids))"

definition table_ids :: "string \<Rightarrow> store \<Rightarrow> int list" where
  "table_ids tab t = (if tab = ''note_comments'' then map c_id (note_comments t) else map n_id (all_notes t))"

definition advance_state :: "string \<Rightarrow> int \<Rightarrow> int \<Rightarrow> store \<Rightarrow> store" where
  "advance_state stateKey nextID now t =
     (if exists_row (\<lambda>r. rq_state_key r = stateKey) (reconcile_state t)
      then t\<lparr>reconcile_state := update_where (\<lambda>r. rq_state_key r = stateKey) (\<lambda>r. r\<lparr>rq_last_id := nextID, rq_updated_at := now\<rparr>) (reconcile_state t)\<rparr>
      else t\<lparr>reconcile_state := reconcile_state t @ [\<lparr>rq_state_key = stateKey, rq_last_id = nextID, rq_updated_at = now\<rparr>]\<rparr>)"

definition nextRepairBatch :: "string \<Rightarrow> string \<Rightarrow> int \<Rightarrow> int list sm" where
  "nextRepairBatch stateKey tab limit =
     bindE (mapErr (WrapError (''lock '' @ stateKey @ '' reconcile state''))
       (query_row (\<lambda>t. map_option rq_last_id (find (\<lambda>r. rq_state_key r = stateKey) (reconcile_state t))))) (\<lambda>lastID.
     bindE (mapErr (WrapError (''load '' @ stateKey @ '' reconcile batch'')) (selectE (\<lambda>t. next_ids (table_ids tab t) lastID limit))) (\<lambda>ids0.
     bindE (if ids0 = [] \<and> 0 < lastID
            then mapErr (WrapError (''wrap '' @ stateKey @ '' reconcile batch'')) (selectE (\<lambda>t. next_ids (table_ids tab t) 0 limit))
            else returnE ids0) (\<lambda>ids.
     let nextID = (if ids = [] then 0 else last ids) in
     bindE (mapErr (WrapError (''advance '' @ stateKey @ '' reconcile state'')) (updateE (advance_state stateKey nextID))) (\<lambda>_.
     returnE ids))))"

text \<open>
  The two repairs of a batch: rows of the batch whose counters differ from the facts are rewritten, the others are left
  alone. The result is the number of rows the statement changed.
\<close>

definition comment_differs :: "store \<Rightarrow> comment_row \<Rightarrow> bool" where
  "comment_differs t c = (c_like_count c \<noteq> count_comment_likes t (c_id c) \<or> c_reply_count c \<noteq> count_replies t (c_id c))"

definition repair_comments :: "int list \<Rightarrow> int sm" where
  "repair_comments ids = execE (\<lambda>now t.
     let P = (\<lambda>c. c_id c \<in> set ids \<and> comment_differs t c) in
     Inr (count_where P (note_comments t), t\<lparr>note_comments := update_where P (rebuilt_comment now t) (note_comments t)\<rparr>))"

definition desired_score :: "store \<Rightarrow> note_row \<Rightarrow> int" where
  "desired_score t n =
     n_view_count n + count_likes t (n_id n) * 3 + count_collects t (n_id n) * 8 + count_comments t (n_id n) * 6 + count_shares t (n_id n) * 5"

definition note_differs :: "store \<Rightarrow> note_row \<Rightarrow> bool" where
  "note_differs t n =
     (n_like_count n \<noteq> count_likes t (n_id n) \<or> n_collect_count n \<noteq> count_collects t (n_id n) \<or>
      n_comment_count n \<noteq> count_comments t (n_id n) \<or> n_share_count n \<noteq> count_shares t (n_id n) \<or> n_hot_score n \<noteq> desired_score t n)"

definition repaired_note :: "int \<Rightarrow> store \<Rightarrow> note_row \<Rightarrow> note_row" where
  "repaired_note now t n =
     n\<lparr>n_like_count := count_likes t (n_id n), n_collect_count := count_collects t (n_id n),
       n_comment_count := count_comments t (n_id n), n_share_count := count_shares t (n_id n),
       n_hot_score := desired_score t n, n_updated_at := now\<rparr>"

definition repair_notes :: "int list \<Rightarrow> int sm" where
  "repair_notes ids = execE (\<lambda>now t.
     let P = (\<lambda>n. n_id n \<in> set ids \<and> note_differs t n) in
     Inr (count_where P (all_notes t), t\<lparr>all_notes := update_where P (repaired_note now t) (all_notes t)\<rparr>))"

definition ReconcileCounters_body :: "CounterRepairResult tx_result sm" where
  "ReconcileCounters_body =
     bindE (nextRepairBatch ''comments'' ''note_comments'' 1000) (\<lambda>commentIDs.
     bindE (nextRepairBatch ''notes'' ''notes'' 1000) (\<lambda>noteIDs.
     bindE (mapErr (WrapError ''reconcile comment counters'') (repair_comments commentIDs)) (\<lambda>commentsRepaired.
     bindE (mapErr (WrapError ''reconcile note counters'') (repair_notes noteIDs)) (\<lambda>notesRepaired.
     returnE (Commit \<lparr>NotesRepaired = notesRepaired, CommentsRepaired = commentsRepaired\<rparr>)))))"

definition ReconcileCounters :: "CounterRepairResult sm" where
  "ReconcileCounters = in_tx (WrapError ''begin counter reconcile'') (WrapError ''commit counter reconcile'') ReconcileCounters_body"

text \<open>The full audit counts replies only below positive parent ids.\<close>

definition count_replies_positive :: "store \<Rightarrow> int \<Rightarrow> int" where
  "count_replies_positive t i = count_where (\<lambda>c. c_status c = 1 \<and> 0 < c_parent_id c \<and> c_parent_id c = i) (note_comments t)"

definition repair_all_comments :: "int sm" where
  "repair_all_comments = execE (\<lambda>now t.
     let P = (\<lambda>c. c_like_count c \<noteq> count_comment_likes t (c_id c) \<or> c_reply_count c \<noteq> count_replies_positive t (c_id c)) in
     Inr (count_where P (note_comments t), t\<lparr>note_comments := update_where P
       (\<lambda>c. c\<lparr>c_like_count := count_comment_likes t (c_id c), c_reply_count := count_replies_positive t (c_id c), c_updated_at := now\<rparr>)
       (note_comments t)\<rparr>))"

definition repair_all_notes :: "int sm" where
  "repair_all_notes = execE (\<lambda>now t.
     Inr (count_where (note_differs t) (all_notes t), t\<lparr>all_notes := update_where (note_differs t) (repaired_note now t) (all_notes t)\<rparr>))"

definition ReconcileAllCounters_body :: "CounterRepairResult tx_result sm" where
  "ReconcileAllCounters_body =
     bindE (mapErr (WrapError ''full reconcile comment counters'') repair_all_comments) (\<lambda>commentsRepaired.
     bindE (mapErr (WrapError ''full reconcile note counters'') repair_all_notes) (\<lambda>notesRepaired.
     returnE (Commit \<lparr>NotesRepaired = notesRepaired, CommentsRepaired = commentsRepaired\<rparr>)))"

definition ReconcileAllCounters :: "CounterRepairResult sm" where
  "ReconcileAllCounters =
     in_tx (WrapError ''begin full counter reconcile'') (WrapError ''commit full counter reconcile'') ReconcileAllCounters_body"

subsection \<open>Rankings\<close>

text \<open>
  The two ranking queries. \<open>ROW_NUMBER() OVER (PARTITION BY .. ORDER BY ..)\<close> is one more than the number of rows of the
  partition that come before; a negative limit is refused by the server.
\<close>

definition score_key :: "note_row \<Rightarrow> int \<times> int" where
  "score_key n = (- n_hot_score n, - n_id n)"

definition published_notes :: "store \<Rightarrow> note_row list" where
  "published_notes t = filter (\<lambda>n. n_status n = ''published'') (all_notes t)"

definition category_rank :: "store \<Rightarrow> note_row \<Rightarrow> int" where
  "category_rank t n = 1 + count_where (\<lambda>m. n_category m = n_category n \<and> score_key m < score_key n) (published_notes t)"

definition note_entry :: "string \<Rightarrow> note_row \<Rightarrow> NoteRankingEntry" where
  "note_entry scope n = \<lparr>nr_ID = n_id n, nr_Category = n_category n, nr_Score = n_hot_score n, nr_Scope = scope\<rparr>"

definition checked_limit :: "int \<Rightarrow> 'a sm \<Rightarrow> 'a sm" where
  "checked_limit limit m = (if limit < 0 then throwE (PgError ''2201W'' ''LIMIT must not be negative'') else m)"

definition ListNoteRankings :: "int \<Rightarrow> NoteRankingEntry list sm" where
  "ListNoteRankings limit = checked_limit limit (selectE (\<lambda>t.
     let ranked = sort_key score_key (published_notes t) in
     map (note_entry ''global'') (take (nat limit) ranked) @ map (note_entry ''category'') (filter (\<lambda>n. category_rank t n \<le> limit) ranked)))"

definition likes_key :: "comment_row \<Rightarrow> int \<times> int" where
  "likes_key c = (- c_like_count c, - c_id c)"

definition live_comments :: "store \<Rightarrow> comment_row list" where
  "live_comments t = filter (\<lambda>c. c_status c = 1 \<and> exists_row (\<lambda>n. n_id n = c_note_id c \<and> n_status n = ''published'') (all_notes t)) (note_comments t)"

definition note_rank :: "store \<Rightarrow> comment_row \<Rightarrow> int" where
  "note_rank t c = 1 + count_where (\<lambda>d. c_note_id d = c_note_id c \<and> likes_key d < likes_key c) (live_comments t)"

definition comment_entry :: "comment_row \<Rightarrow> CommentRankingEntry" where
  "comment_entry c = \<lparr>cr_ID = c_id c, cr_NoteID = c_note_id c, cr_Score = c_like_count c * 5\<rparr>"

definition ListCommentRankings :: "int \<Rightarrow> CommentRankingEntry list sm" where
  "ListCommentRankings limit = selectE (\<lambda>t.
     map comment_entry (sort_key (\<lambda>c. (c_note_id c, - (c_like_count c * 5), - c_id c)) (filter (\<lambda>c. note_rank t c \<le> limit) (live_comments t))))"

section \<open>The sets\<close>

text \<open>A Go map from keys to members, in the order of the first insertions; its iteration order does not matter below.\<close>

type_synonym zsets = "(string \<times> (string \<times> int) list) list"

definition members :: "string \<Rightarrow> zsets \<Rightarrow> (string \<times> int) list" where
  "members key sets = (case map_of sets key of None \<Rightarrow> [] | Some zs \<Rightarrow> zs)"

definition append_member :: "string \<Rightarrow> string \<times> int \<Rightarrow> zsets \<Rightarrow> zsets" where
  "append_member key z sets =
     (if key \<in> fst ` set sets then map (\<lambda>(k, zs). if k = key then (k, zs @ [z]) else (k, zs)) sets else sets @ [(key, [z])])"

definition globalNoteRankingKey :: string where "globalNoteRankingKey = ''ranking:notes:daily''"
definition commentCachePattern :: string where "commentCachePattern = ''note:*:comments:first_page:time''"

definition category_key :: "string \<Rightarrow> string" where
  "category_key category = ''ranking:notes:'' @ category @ '':daily''"

fun note_sets_loop :: "int \<Rightarrow> int \<Rightarrow> NoteRankingEntry list \<Rightarrow> (string \<Rightarrow> int) \<Rightarrow> zsets \<Rightarrow> zsets" where
  "note_sets_loop limit index [] categoryCounts sets = sets"
| "note_sets_loop limit index (entry # entries) categoryCounts sets =
     (let member = FormatInt (nr_ID entry);
          sets = (if nr_Scope entry = ''global'' \<or> nr_Scope entry = [] \<and> index < limit
                  then append_member globalNoteRankingKey (member, nr_Score entry) sets else sets);
          category = TrimSpace (nr_Category entry) in
      if nr_Scope entry = ''global'' \<or> category = [] \<or> limit \<le> categoryCounts category
      then note_sets_loop limit (index + 1) entries categoryCounts sets
      else note_sets_loop limit (index + 1) entries (categoryCounts(category := categoryCounts category + 1))
             (append_member (category_key category) (member, nr_Score entry) sets))"

definition buildNoteSets :: "NoteRankingEntry list \<Rightarrow> int \<Rightarrow> zsets" where
  "buildNoteSets entries limit = note_sets_loop limit 0 entries (\<lambda>_. 0) [(globalNoteRankingKey, [])]"

fun comment_sets_loop :: "int \<Rightarrow> CommentRankingEntry list \<Rightarrow> (int \<Rightarrow> int) \<Rightarrow> zsets \<Rightarrow> zsets" where
  "comment_sets_loop limit [] counts sets = sets"
| "comment_sets_loop limit (entry # entries) counts sets =
     (if limit \<le> counts (cr_NoteID entry) then comment_sets_loop limit entries counts sets
      else comment_sets_loop limit entries (counts(cr_NoteID entry := counts (cr_NoteID entry) + 1))
             (append_member (hotCommentsKey (cr_NoteID entry)) (FormatInt (cr_ID entry), cr_Score entry) sets))"

definition buildCommentSets :: "CommentRankingEntry list \<Rightarrow> int \<Rightarrow> zsets" where
  "buildCommentSets entries limit = comment_sets_loop limit entries (\<lambda>_. 0) []"

section \<open>Replacing the derived data\<close>

datatype redis_cmd = CmdDel string | CmdZAdd string "(string \<times> int) list"

record 'r reconcile_redis =
  rr_Scan :: "string \<Rightarrow> ('r, string list) sem"
  rr_TxPipelined :: "redis_cmd list \<Rightarrow> ('r, unit) sem"

text \<open>\<open>note:<id>\<close>: the keys of cached note details among the keys that match \<open>note:*\<close>.\<close>

definition detail_key :: "string \<Rightarrow> bool" where
  "detail_key key = (case split_byte (CHR '':'') key of [_, p] \<Rightarrow> ParseInt64 p \<noteq> None | _ \<Rightarrow> False)"

definition zadd_cmds :: "zsets \<Rightarrow> redis_cmd list" where
  "zadd_cmds sets = map (\<lambda>(k, zs). CmdZAdd k zs) (filter (\<lambda>(k, zs). zs \<noteq> []) sets)"

definition replaceRedisDerivedData :: "'r reconcile_redis \<Rightarrow> zsets \<Rightarrow> zsets \<Rightarrow> ('r, int) sem" where
  "replaceRedisDerivedData ops noteSets commentSets =
     bindE (mapErr (WrapError ''scan ranking keys'') (rr_Scan ops ''ranking:notes:*:daily'')) (\<lambda>ks1.
     bindE (mapErr (WrapError ''scan ranking keys'') (rr_Scan ops ''note:*:hot_comments'')) (\<lambda>ks2.
     bindE (mapErr (WrapError ''scan comment cache keys'') (rr_Scan ops commentCachePattern)) (\<lambda>ks3.
     bindE (mapErr (WrapError ''scan note cache keys'') (rr_Scan ops ''note:*'')) (\<lambda>detailCandidates.
     let keysToDelete = remdups (globalNoteRankingKey # ks1 @ ks2); cacheKeys = ks3 @ filter detail_key detailCandidates in
     bindE (mapErr (WrapError ''replace redis derived data'')
       (rr_TxPipelined ops (map CmdDel keysToDelete @ map CmdDel cacheKeys @ zadd_cmds noteSets @ zadd_cmds commentSets))) (\<lambda>_.
     returnE (int (length cacheKeys)))))))"

record ReconcileResult =
  rres_NotesRepaired :: int
  rres_CommentsRepaired :: int
  rres_NoteRankingKeys :: int
  rres_CommentRankingKeys :: int
  rres_InvalidatedCacheKeys :: int

definition RunOnce :: "'r reconcile_redis option \<Rightarrow> int \<Rightarrow> ('r, ReconcileResult) wm" where
  "RunOnce redis rankingLimit =
     bindE (on_db ReconcileCounters) (\<lambda>repaired.
     let result = \<lparr>rres_NotesRepaired = NotesRepaired repaired, rres_CommentsRepaired = CommentsRepaired repaired,
           rres_NoteRankingKeys = 0, rres_CommentRankingKeys = 0, rres_InvalidatedCacheKeys = 0\<rparr> in
     case redis of None \<Rightarrow> returnE result
     | Some ops \<Rightarrow>
        bindE (mapErr (WrapError ''load note rankings'') (on_db (ListNoteRankings rankingLimit))) (\<lambda>noteEntries.
        bindE (mapErr (WrapError ''load comment rankings'') (on_db (ListCommentRankings rankingLimit))) (\<lambda>commentEntries.
        let noteSets = buildNoteSets noteEntries rankingLimit; commentSets = buildCommentSets commentEntries rankingLimit in
        bindE (on_redis (replaceRedisDerivedData ops noteSets commentSets)) (\<lambda>invalidated.
        returnE (result\<lparr>rres_NoteRankingKeys := int (length noteSets), rres_CommentRankingKeys := int (length commentSets),
          rres_InvalidatedCacheKeys := invalidated\<rparr>)))))"

end
