(* ===== verification/Reconcile_Frame.thy ===== *)
theory Reconcile_Frame
  imports Derived Reconcile
begin

text \<open>
  The reconciler's transactions beside the API and the worker: a repair touches only counters, makes them exact, and keeps
  the key constraints and the promise that a counter that is not exact is awaited.
\<close>

lemma facts_reconcile_state [simp]:
  "note_facts (t\<lparr>reconcile_state := X\<rparr>) = note_facts t" "comment_facts (t\<lparr>reconcile_state := X\<rparr>) = comment_facts t"
  "columns_ok (t\<lparr>reconcile_state := X\<rparr>) = columns_ok t"
  by (simp_all add: facts_defs columns_ok_def fun_eq_iff)

lemma advance_state_eq: obtains X where "advance_state k i now t = t\<lparr>reconcile_state := X\<rparr>"
  by (cases "exists_row (\<lambda>r. rq_state_key r = k) (reconcile_state t)") (auto simp: advance_state_def)

lemma counts_advance: "counts_ok consumer q t \<Longrightarrow> counts_ok consumer q (advance_state k i now t)"
proof -
  obtain X where "advance_state k i now t = t\<lparr>reconcile_state := X\<rparr>" by (rule advance_state_eq)
  moreover assume "counts_ok consumer q t"
  ultimately show ?thesis by (simp add: counts_ok_def store_ok_def derived_ok_def awaiting_def is_processed_def)
qed

lemma refreshed_advance: "refreshed t (advance_state k i now t) {} {}"
proof -
  obtain X where "advance_state k i now t = t\<lparr>reconcile_state := X\<rparr>" by (rule advance_state_eq)
  then show ?thesis by (auto simp: refreshed_def)
qed

lemma comment_differs_iff: "comment_differs t c \<longleftrightarrow> comment_counters c \<noteq> comment_facts t (c_id c)"
  by (auto simp: comment_differs_def comment_counters_def comment_facts_def)

lemma note_differs_counters: "\<not> note_differs t n \<Longrightarrow> note_counters n = note_facts t (n_id n) \<and> n_hot_score n = desired_score t n"
  by (simp add: note_differs_def note_counters_def note_facts_def)

lemma repaired_note_exact:
  "n_id (repaired_note now t n) = n_id n" "n_project_id (repaired_note now t n) = n_project_id n"
  "note_counters (repaired_note now t n) = note_facts t (n_id n)"
  by (simp_all add: repaired_note_def note_counters_def note_facts_def)

lemma count_replies_positive_eq: "0 < i \<Longrightarrow> count_replies_positive t i = count_replies t i"
  unfolding count_replies_positive_def count_replies_def count_where_def
  by (rule arg_cong [of _ _ "\<lambda>xs. int (length xs)"], rule filter_cong) auto

text \<open>The four repairs as refreshments of the rows they name.\<close>

definition all_repaired_comment :: "int \<Rightarrow> store \<Rightarrow> comment_row \<Rightarrow> comment_row" where
  "all_repaired_comment now t c =
     c\<lparr>c_like_count := count_comment_likes t (c_id c), c_reply_count := count_replies_positive t (c_id c), c_updated_at := now\<rparr>"

definition all_differs :: "store \<Rightarrow> comment_row \<Rightarrow> bool" where
  "all_differs t c = (c_like_count c \<noteq> count_comment_likes t (c_id c) \<or> c_reply_count c \<noteq> count_replies_positive t (c_id c))"

lemma repair_all_comments_eq:
  "repair_all_comments = execE (\<lambda>now t. Inr (count_where (all_differs t) (note_comments t),
     t\<lparr>note_comments := update_where (all_differs t) (all_repaired_comment now t) (note_comments t)\<rparr>))"
  by (simp add: repair_all_comments_def Let_def all_differs_def [abs_def] all_repaired_comment_def [abs_def])

lemma refreshed_repairs:
  "refreshed t (t\<lparr>note_comments := update_where (\<lambda>c. c_id c \<in> set ids \<and> comment_differs t c) (rebuilt_comment now t) (note_comments t)\<rparr>) {} (set ids)"
  "refreshed t (t\<lparr>all_notes := update_where (\<lambda>n. n_id n \<in> set ids \<and> note_differs t n) (repaired_note now t) (all_notes t)\<rparr>) (set ids) {}"
  "refreshed t (t\<lparr>all_notes := update_where (note_differs t) (repaired_note now t) (all_notes t)\<rparr>) UNIV {}"
  "store_ok q t \<Longrightarrow>
   refreshed t (t\<lparr>note_comments := update_where (all_differs t) (all_repaired_comment now t) (note_comments t)\<rparr>) {} UNIV"
proof -
  show "refreshed t (t\<lparr>note_comments := update_where (\<lambda>c. c_id c \<in> set ids \<and> comment_differs t c) (rebuilt_comment now t) (note_comments t)\<rparr>) {} (set ids)"
    by (rule refreshed_update_comments [OF refl]) (auto simp: rebuilt_comment_exact comment_differs_iff)
  show "refreshed t (t\<lparr>all_notes := update_where (\<lambda>n. n_id n \<in> set ids \<and> note_differs t n) (repaired_note now t) (all_notes t)\<rparr>) (set ids) {}"
    by (rule refreshed_update_notes [OF refl]) (auto simp: repaired_note_exact dest: note_differs_counters)
  show "refreshed t (t\<lparr>all_notes := update_where (note_differs t) (repaired_note now t) (all_notes t)\<rparr>) UNIV {}"
    by (rule refreshed_update_notes [OF refl]) (auto simp: repaired_note_exact dest: note_differs_counters)
  assume ok: "store_ok q t"
  have pos: "count_replies_positive t (c_id c) = count_replies t (c_id c)" if "c \<in> set (note_comments t)" for c
    using comment_id_pos [OF ok that] by (rule count_replies_positive_eq)
  show "refreshed t (t\<lparr>note_comments := update_where (all_differs t) (all_repaired_comment now t) (note_comments t)\<rparr>) {} UNIV"
    by (rule refreshed_update_comments [OF refl])
      (auto simp: all_differs_def all_repaired_comment_def comment_counters_def comment_facts_def pos)
qed

section \<open>Invariants\<close>

lemma counts_update_comments:
  assumes "counts_ok consumer q t" "refreshed t (t\<lparr>note_comments := update_where P f (note_comments t)\<rparr>) N C"
    "\<And>c. c_id (f c) = c_id c \<and> c_note_id (f c) = c_note_id c"
  shows "counts_ok consumer q (t\<lparr>note_comments := update_where P f (note_comments t)\<rparr>)"
  using assms derived_refreshed by (auto simp: counts_ok_def store_ok_update_comments)

lemma counts_update_notes:
  assumes "counts_ok consumer q t" "refreshed t (t\<lparr>all_notes := update_where P f (all_notes t)\<rparr>) N C" "\<And>n. n_id (f n) = n_id n"
  shows "counts_ok consumer q (t\<lparr>all_notes := update_where P f (all_notes t)\<rparr>)"
  using assms derived_refreshed by (auto simp: counts_ok_def store_ok_update_notes)

lemma counts_repairs:
  "keeps (counts_ok consumer) (repair_comments ids)" "keeps (counts_ok consumer) (repair_notes ids)"
  "keeps (counts_ok consumer) repair_all_notes" "keeps (counts_ok consumer) repair_all_comments"
proof -
  show "keeps (counts_ok consumer) (repair_comments ids)"
    unfolding repair_comments_def Let_def
    by (rule counts.keeps_execE, clarsimp) (erule counts_update_comments [OF _ refreshed_repairs(1)], simp add: rebuilt_comment_exact)
  show "keeps (counts_ok consumer) (repair_notes ids)"
    unfolding repair_notes_def Let_def
    by (rule counts.keeps_execE, clarsimp) (erule counts_update_notes [OF _ refreshed_repairs(2)], simp add: repaired_note_exact)
  show "keeps (counts_ok consumer) repair_all_notes"
    unfolding repair_all_notes_def
    by (rule counts.keeps_execE, clarsimp) (erule counts_update_notes [OF _ refreshed_repairs(3)], simp add: repaired_note_exact)
  show "keeps (counts_ok consumer) repair_all_comments"
    unfolding repair_all_comments_eq
    by (rule counts.keeps_execE, clarsimp, frule counts_update_comments [OF _ refreshed_repairs(4)])
      (auto simp: counts_ok_def all_repaired_comment_def)
qed

lemma counts_nextRepairBatch: "keeps (counts_ok consumer) (nextRepairBatch k tab limit)"
  unfolding nextRepairBatch_def Let_def
  by (intro counts.keeps_rules counts.keeps_updateE) (rule counts_advance)

datatype reconcile_cmd = DoReconcileCounters | DoReconcileAll

fun run_reconcile :: "reconcile_cmd \<Rightarrow> unit sm" where
  "run_reconcile DoReconcileCounters = ignore ReconcileCounters"
| "run_reconcile DoReconcileAll = ignore ReconcileAllCounters"

lemma counts_run_reconcile: "keeps (counts_ok consumer) (run_reconcile cmd)"
proof -
  have "seq_grows ReconcileCounters_body" "seq_grows ReconcileAllCounters_body"
    unfolding ReconcileCounters_body_def ReconcileAllCounters_body_def nextRepairBatch_def repair_comments_def repair_notes_def
      repair_all_comments_def repair_all_notes_def Let_def by (intro grows_intros)+
  moreover have "keeps (counts_ok consumer) ReconcileCounters_body" "keeps (counts_ok consumer) ReconcileAllCounters_body"
    unfolding ReconcileCounters_body_def ReconcileAllCounters_body_def
    by (intro counts.keeps_rules counts_nextRepairBatch counts_repairs)+
  ultimately show ?thesis
    by (cases cmd) (auto simp: ignore_def ReconcileCounters_def ReconcileAllCounters_def
        intro!: counts.keeps_rules counts.keeps_in_tx keeps_keeps_ok)
qed

end
