(* ===== verification/System.thy ===== *)
theory System
  imports Account_Frame Reconcile_Frame
begin

text \<open>
  The API, the publisher and the worker as one system over the database: a step relation whose
  steps are the operations of the three programs under arbitrary faults, in any interleaving.
\<close>

section \<open>Applying an event keeps the awaited counters\<close>

lemma claimEvent_Inr:
  assumes "claimEvent eid consumer s = (Inr b, s')"
  shows "(b \<and> \<not> is_processed (tables s) eid consumer \<and> tables s' = (tables s)\<lparr>processed_events := processed_events (tables s) @
      [\<lparr>pr_event_id = eid, pr_consumer_name = consumer, pr_processed_at = db_now s\<rparr>]\<rparr>) \<or>
    (\<not> b \<and> is_processed (tables s) eid consumer \<and> tables s' = tables s)"
proof -
  define f where "f = (\<lambda>now t. if is_processed t eid consumer then Inl SqlErrNoRows
     else Inr (True, t\<lparr>processed_events := processed_events t @
       [\<lparr>pr_event_id = eid, pr_consumer_name = consumer, pr_processed_at = now\<rparr>]\<rparr>))"
  have r: "or_no_rows False (execE f) s = (Inr b, s')" using assms by (simp add: claimEvent_def f_def)
  show ?thesis
  proof (cases "execE f s")
    case (Pair r1 s1)
    show ?thesis
    proof (cases r1)
      case (Inl e)
      then have "errors_is e SqlErrNoRows" "\<not> b" "s' = s1" using r Pair by (auto simp: or_no_rows_def split: if_splits)
      then show ?thesis
        using stmt_Inl_no_rows [of _ s e s1] Pair Inl unfolding execE_def f_def by (fastforce split: if_splits)
    next
      case (Inr x)
      then have "execE f s = (Inr b, s')" using r Pair by (auto simp: or_no_rows_def)
      then show ?thesis by (auto simp: execE_Inr f_def split: if_splits)
    qed
  qed
qed

lemma recordBehavior_Inr:
  assumes "recordBehavior c a s = (Inr u, s')"
  obtains B where "tables s' = (tables s)\<lparr>behavior_events := B\<rparr>"
    "env_EventID (ap_Envelope a) \<in> b_source_event_id ` set B" "set (behavior_events (tables s)) \<subseteq> set B"
proof (cases "env_EventID (ap_Envelope a) \<in> b_source_event_id ` set (behavior_events (tables s))")
  case True
  then have "tables s' = tables s"
    using assms by (auto simp: recordBehavior_def Let_def insert_serial_Inr exists_key)
  then show thesis using True that [of "behavior_events (tables s)"] by simp
next
  case False
  then show thesis
    using assms by (auto simp: recordBehavior_def Let_def insert_serial_Inr exists_key split: if_splits intro!: that)
qed

lemma facts_markers [simp]:
  "note_facts (t\<lparr>processed_events := X\<rparr>) = note_facts t" "comment_facts (t\<lparr>processed_events := X\<rparr>) = comment_facts t"
  "note_facts (t\<lparr>behavior_events := Y\<rparr>) = note_facts t" "comment_facts (t\<lparr>behavior_events := Y\<rparr>) = comment_facts t"
  "note_facts (t\<lparr>outbox_events := Z\<rparr>) = note_facts t" "comment_facts (t\<lparr>outbox_events := Z\<rparr>) = comment_facts t"
  "columns_ok (t\<lparr>processed_events := X\<rparr>) = columns_ok t" "columns_ok (t\<lparr>behavior_events := Y\<rparr>) = columns_ok t"
  "columns_ok (t\<lparr>outbox_events := Z\<rparr>) = columns_ok t"
  by (simp_all add: facts_defs columns_ok_def fun_eq_iff)

lemma scopes_cover:
  assumes "row_app e = Inr a"
  shows "env_EventType (ap_Envelope a) = o_event_type e" "env_EventID (ap_Envelope a) = o_event_id e"
    "covers_note e i \<longleftrightarrow> i \<in> note_scope (o_event_type e) a"
    "0 < i \<Longrightarrow> covers_comment e i \<longleftrightarrow> i \<in> comment_scope (o_event_type e) a"
  using assms
  by (auto simp: row_app_def event_application_def envelope_of_def event_of_row_def Let_def covers_note_def covers_comment_def
      note_scope_def comment_scope_def type_defs split: if_splits option.splits)

text \<open>One event applied: the transaction marks it and refreshes everything it covers.\<close>

lemma ApplyEvent_body_Commit:
  assumes "ApplyEvent_body c consumer a s = (Inr (Commit b), s')"
  obtains B t1 where "\<not> b" "\<not> is_processed (tables s) (env_EventID (ap_Envelope a)) consumer"
    "t1 = (tables s)\<lparr>processed_events := processed_events (tables s) @
      [\<lparr>pr_event_id = env_EventID (ap_Envelope a), pr_consumer_name = consumer, pr_processed_at = db_now s\<rparr>], behavior_events := B\<rparr>"
    "refreshed t1 (tables s') (note_scope (env_EventType (ap_Envelope a)) a) (comment_scope (env_EventType (ap_Envelope a)) a)"
    "env_EventID (ap_Envelope a) \<in> b_source_event_id ` set B"
proof -
  obtain ins s1 s2 where cl: "claimEvent (env_EventID (ap_Envelope a)) consumer s = (Inr ins, s1)"
    and i: "ins" "\<not> b" and rb: "recordBehavior c a s1 = (Inr (), s2)" and rd: "rebuildDerivedCounters a s2 = (Inr (), s')"
    using assms by (auto simp: ApplyEvent_body_def bindE_Inr split: if_splits)
  from rb obtain B where B: "tables s2 = (tables s1)\<lparr>behavior_events := B\<rparr>" "env_EventID (ap_Envelope a) \<in> b_source_event_id ` set B"
    by (rule recordBehavior_Inr)
  show thesis
    using that [of "tables s2" B] i claimEvent_Inr [OF cl] B refreshed_derived [OF rd] by auto
qed

lemma derived_ApplyEvent:
  assumes ok: "store_ok q (tables s)" "derived_ok consumer (tables s)"
    and e: "e \<in> set (outbox_events (tables s))" "row_app e = Inr a"
    and run: "ApplyEvent_body c consumer a s = (Inr (Commit b), s')"
  shows "derived_ok consumer (tables s')"
  using run
proof (rule ApplyEvent_body_Commit)
  let ?t = "tables s" and ?t' = "tables s'"
  fix B t1
  assume t1: "t1 = ?t\<lparr>processed_events := processed_events ?t @
      [\<lparr>pr_event_id = env_EventID (ap_Envelope a), pr_consumer_name = consumer, pr_processed_at = db_now s\<rparr>], behavior_events := B\<rparr>"
    and "refreshed t1 ?t' (note_scope (env_EventType (ap_Envelope a)) a) (comment_scope (env_EventType (ap_Envelope a)) a)"
  then have rf: "refreshed t1 ?t' (note_scope (o_event_type e) a) (comment_scope (o_event_type e) a)"
    using scopes_cover(1) [OF e(2)] by simp
  note sc = scopes_cover [OF e(2)] and rd = refreshedD [OF rf]
  have still: "awaiting consumer ?t' cov i" if "awaiting consumer ?t cov i" "\<not> cov e i" for cov i
  proof -
    note w = that
    obtain e' where e': "e' \<in> set (outbox_events ?t)" "cov e' i" "\<not> is_processed ?t (o_event_id e') consumer"
      using w(1) by (auto simp: awaiting_def)
    then have "o_event_id e' \<noteq> o_event_id e"
      using w(2) e(1) ok(1) by (auto simp: store_ok_def distinct_map inj_on_def)
    then show ?thesis using e' rd(3,4) sc(2) by (auto simp: awaiting_def t1 is_processed_def exists_row_iff)
  qed
  have n: "note_counters n' = note_facts ?t' (n_id n') \<or> awaiting consumer ?t' covers_note (n_id n')"
    if "n' \<in> set (all_notes ?t')" for n'
  proof -
    note m = that
    obtain n where n: "n \<in> set (all_notes ?t)" "n_id n' = n_id n"
      "note_counters n' = note_counters n \<and> n_id n \<notin> note_scope (o_event_type e) a \<or> note_counters n' = note_facts ?t (n_id n)"
      using rd(6) [OF m] by (auto simp: t1)
    have "note_counters n = note_facts ?t (n_id n) \<or> awaiting consumer ?t covers_note (n_id n)"
      using ok(2) n(1) by (auto simp: derived_ok_def)
    then show ?thesis using n still sc(3) rd(1) by (auto simp: t1)
  qed
  have k: "comment_counters c' = comment_facts ?t' (c_id c') \<or> awaiting consumer ?t' covers_comment (c_id c')"
    if "c' \<in> set (note_comments ?t')" for c'
  proof -
    note m = that
    obtain c where c: "c \<in> set (note_comments ?t)" "c_id c' = c_id c"
      "comment_counters c' = comment_counters c \<and> c_id c \<notin> comment_scope (o_event_type e) a \<or> comment_counters c' = comment_facts ?t (c_id c)"
      using rd(7) [OF m] by (auto simp: t1)
    have "comment_counters c = comment_facts ?t (c_id c) \<or> awaiting consumer ?t covers_comment (c_id c)"
      using ok(2) c(1) by (auto simp: derived_ok_def)
    then show ?thesis using c still sc(4) [of "c_id c"] rd(2) comment_id_pos [OF ok(1) c(1)] by (auto simp: t1)
  qed
  have "pr_event_id p \<in> o_event_id ` set (outbox_events ?t')" if "p \<in> set (processed_events ?t')" for p
    using that ok(2) rd(3,4) e(1) sc(2) by (auto simp: t1 derived_ok_def)
  moreover have "columns_ok ?t'" using ok(2) rd(5) by (simp add: t1 derived_ok_def)
  ultimately show ?thesis using n k unfolding derived_ok_def by blast
qed

section \<open>The writes of the API\<close>

datatype api_cmd =
    DoCreateNote CreateNoteInput
  | DoRecordNoteView int int
  | DoUpdateNote int UpdateNoteInput
  | DoSoftDeleteNote int int
  | DoLikeNote int int
  | DoUnlikeNote int int
  | DoCollectNote int int string
  | DoUncollectNote int int
  | DoShareNote int int string
  | DoCreateComment int CreateCommentInput
  | DoLikeComment int int
  | DoUnlikeComment int int
  | DoSoftDeleteComment int int

fun run_api :: "ctx \<Rightarrow> api_cmd \<Rightarrow> unit sm" where
  "run_api c (DoCreateNote input) = ignore (CreateNote c input)"
| "run_api c (DoRecordNoteView n u) = RecordNoteView c n u"
| "run_api c (DoUpdateNote n input) = ignore (UpdateNote c n input)"
| "run_api c (DoSoftDeleteNote n u) = SoftDeleteNote c n u"
| "run_api c (DoLikeNote n u) = ignore (LikeNote c n u)"
| "run_api c (DoUnlikeNote n u) = ignore (UnlikeNote c n u)"
| "run_api c (DoCollectNote n u x) = ignore (CollectNote c n u x)"
| "run_api c (DoUncollectNote n u) = ignore (UncollectNote c n u)"
| "run_api c (DoShareNote n u x) = ignore (ShareNote c n u x)"
| "run_api c (DoCreateComment n input) = ignore (CreateComment c n input)"
| "run_api c (DoLikeComment k u) = ignore (LikeComment c k u)"
| "run_api c (DoUnlikeComment k u) = ignore (UnlikeComment c k u)"
| "run_api c (DoSoftDeleteComment k u) = ignore (SoftDeleteComment c k u)"

text \<open>The arguments are \<open>int64\<close> values and the acting user is a positive id, as the service checks.\<close>

fun api_ok :: "api_cmd \<Rightarrow> bool" where
  "api_ok (DoCreateNote input) = in_int64 (cn_ProjectID input)"
| "api_ok (DoRecordNoteView n u) = True"
| "api_ok (DoUpdateNote n input) = True"
| "api_ok (DoSoftDeleteNote n u) = True"
| "api_ok (DoLikeNote n u) = (in_int64 n \<and> in_int64 u \<and> 0 < u)"
| "api_ok (DoUnlikeNote n u) = (in_int64 n \<and> in_int64 u \<and> 0 < u)"
| "api_ok (DoCollectNote n u x) = (in_int64 n \<and> in_int64 u \<and> 0 < u)"
| "api_ok (DoUncollectNote n u) = (in_int64 n \<and> in_int64 u \<and> 0 < u)"
| "api_ok (DoShareNote n u x) = (in_int64 n \<and> in_int64 u \<and> 0 < u)"
| "api_ok (DoCreateComment n input) = (in_int64 n \<and> in_int64 (cc_UserID input) \<and> 0 < cc_UserID input \<and> in_int64 (cc_ParentID input))"
| "api_ok (DoLikeComment k u) = (in_int64 u \<and> 0 < u)"
| "api_ok (DoUnlikeComment k u) = (in_int64 u \<and> 0 < u)"
| "api_ok (DoSoftDeleteComment k u) = (in_int64 u \<and> 0 < u)"

lemma counts_body:
  assumes "keeps store_ok m" "seq_grows m"
    and "\<And>s x s'. store_ok (seqs s) (tables s) \<Longrightarrow> derived_ok consumer (tables s) \<Longrightarrow> m s = (Inr x, s') \<Longrightarrow>
      derived_ok consumer (tables s')"
  shows "keeps (counts_ok consumer) (in_tx b e m)"
  by (rule counts.keeps_in_tx [OF counts_okI assms(2)]) (use assms in auto)

lemma counts_transactions:
  "in_int64 (cn_ProjectID input) \<Longrightarrow> keeps (counts_ok consumer) (in_tx b e (CreateNote_body c input))"
  "keeps (counts_ok consumer) (in_tx b e (RecordNoteView_body c n u))"
  "keeps (counts_ok consumer) (in_tx b e (UpdateNote_body c n uinput))"
  "keeps (counts_ok consumer) (in_tx b e (SoftDeleteNote_body c n u))"
  "in_int64 n \<and> in_int64 u \<and> 0 < u \<Longrightarrow> keeps (counts_ok consumer) (in_tx b e (LikeNote_body c n u))"
  "in_int64 n \<and> in_int64 u \<and> 0 < u \<Longrightarrow> keeps (counts_ok consumer) (in_tx b e (CollectNote_body c n u name))"
  "in_int64 n \<and> in_int64 u \<and> 0 < u \<Longrightarrow> keeps (counts_ok consumer) (in_tx b e (ShareNote_body c n u ch))"
  "in_int64 n \<and> in_int64 u \<and> 0 < u \<Longrightarrow> ty = ''note.unliked'' \<or> ty = ''note.uncollected'' \<Longrightarrow>
     keeps (counts_ok consumer) (in_tx b e (removeNoteInteraction_body c n u tab ty act col))"
  "in_int64 n \<and> in_int64 (cc_UserID cinput) \<and> 0 < cc_UserID cinput \<and> in_int64 (cc_ParentID cinput) \<Longrightarrow>
     keeps (counts_ok consumer) (in_tx b e (CreateComment_body c n cinput))"
  "in_int64 u \<and> 0 < u \<Longrightarrow> keeps (counts_ok consumer) (in_tx b e (LikeComment_body c n u))"
  "in_int64 u \<and> 0 < u \<Longrightarrow> keeps (counts_ok consumer) (in_tx b e (UnlikeComment_body c n u))"
  "in_int64 u \<and> 0 < u \<Longrightarrow> keeps (counts_ok consumer) (in_tx b e (SoftDeleteComment_body c n u))"
  by (rule counts_body [OF keys_bodies(1) grows_bodies(1)], rule derived_CreateNote, assumption+)
    (rule counts_body [OF keys_bodies(2) grows_bodies(2)], rule derived_RecordNoteView, assumption+,
     rule counts_body [OF keys_bodies(3) grows_bodies(3)], rule derived_UpdateNote, assumption+,
     rule counts_body [OF keys_bodies(4) grows_bodies(4)], rule derived_SoftDeleteNote, assumption+,
     (rule counts_body [OF keys_bodies(5) grows_bodies(5)], rule derived_LikeNote; simp),
     (rule counts_body [OF keys_bodies(6) grows_bodies(6)], rule derived_CollectNote; simp),
     (rule counts_body [OF keys_bodies(7) grows_bodies(7)], rule derived_ShareNote; simp),
     (rule counts_body [OF keys_bodies(8) grows_bodies(8)], rule derived_removeNoteInteraction; simp),
     (rule counts_body [OF keys_bodies(9) grows_bodies(9)], rule derived_CreateComment; simp),
     (rule counts_body [OF keys_bodies(10) grows_bodies(10)], rule derived_LikeComment; simp),
     (rule counts_body [OF keys_bodies(11) grows_bodies(11)], rule derived_UnlikeComment; simp),
     (rule counts_body [OF keys_bodies(12) grows_bodies(12)], rule derived_SoftDeleteComment; simp))

lemmas api_defs = run_api.simps api_ok.simps ignore_def CreateNote_def RecordNoteView_def UpdateNote_def
  SoftDeleteNote_def LikeNote_def UnlikeNote_def CollectNote_def UncollectNote_def ShareNote_def CreateComment_def
  LikeComment_def UnlikeComment_def SoftDeleteComment_def removeNoteInteraction_def attachAuthors_def listMedia_def

lemma counts_run_api: "api_ok cmd \<Longrightarrow> keeps (counts_ok consumer) (run_api c cmd)"
  by (induction cmd; unfold api_defs; intro counts.keeps_rules counts_transactions; simp)

section \<open>The system\<close>

text \<open>
  Statements of the publisher on the outbox. A publisher round is a sequence of them; letting
  each be a step of its own covers every interleaving of several publishers.
\<close>

datatype outbox_cmd =
    DoLock "Event list \<Rightarrow> Event list" "int list" int
  | DoMarkSent int
  | DoMarkRetry int int int string
  | DoMarkFailed int int string
  | DoRecover int

fun run_outbox :: "outbox_cmd \<Rightarrow> unit sm" where
  "run_outbox (DoLock order locked limit) = ignore (LockPending order locked limit)"
| "run_outbox (DoMarkSent i) = MarkSent i"
| "run_outbox (DoMarkRetry i k at err) = MarkRetry i k at err"
| "run_outbox (DoMarkFailed i k err) = MarkFailed i k err"
| "run_outbox (DoRecover before) = ignore (RecoverStaleProcessing before)"

text \<open>
  The worker processes the envelope of any event of the outbox, at any time, any number of times:
  at-least-once delivery in any order. The ranking refresh of the API writes a score it computed
  from an earlier read, so its write-back comes with any score. Account calls and
  the reconciler's repairs run in between. The environment moves the clock and
  decides which statements fail next.
\<close>

inductive system_step :: "'r redis_ops option \<Rightarrow> string \<Rightarrow> store db \<Rightarrow> store db \<Rightarrow> bool" for ops consumer where
  Api: "api_ok cmd \<Longrightarrow> run_api c cmd s = (r, s') \<Longrightarrow> system_step ops consumer s s'"
| Publisher: "run_outbox cmd s = (r, s') \<Longrightarrow> system_step ops consumer s s'"
| Worker: "e \<in> set (outbox_events (tables s)) \<Longrightarrow>
    Process ops c consumer (envelope_of (event_of_row e)) (s, rd) = (r, (s', rd')) \<Longrightarrow> system_step ops consumer s s'"
| Ranking: "UpdateNoteHotScore noteID score s = (r, s') \<Longrightarrow> system_step ops consumer s s'"
| Account: "run_auth sv call s = (r, s') \<Longrightarrow> system_step ops consumer s s'"
| Reconcile: "run_reconcile cmd s = (r, s') \<Longrightarrow> system_step ops consumer s s'"
| Environment: "system_step ops consumer s (s\<lparr>faults := fs, db_now := now\<rparr>)"

inductive_cases system_stepE: "system_step ops consumer s s'"

lemma derived_outbox_update:
  assumes "derived_ok consumer t" "\<And>r. row_app (f r) = row_app r \<and> o_event_id (f r) = o_event_id r \<and> o_event_type (f r) = o_event_type r"
  shows "derived_ok consumer (t\<lparr>outbox_events := update_where P f (outbox_events t)\<rparr>)"
proof -
  have c: "covers_note (f r) i = covers_note r i" "covers_comment (f r) i = covers_comment r i" for r i
    using assms(2) by (simp_all add: covers_note_def covers_comment_def cong: sum.case_cong)
  have m: "(if P r then f r else r) \<in> set (update_where P f (outbox_events t))" if "r \<in> set (outbox_events t)" for r
    using that by (auto simp: update_where_def)
  have a: "awaiting consumer (t\<lparr>outbox_events := update_where P f (outbox_events t)\<rparr>) cov i"
    if w: "awaiting consumer t cov i" and cv: "\<And>r. cov (f r) i = cov r i" for cov i
  proof -
    obtain r where r: "r \<in> set (outbox_events t)" "cov r i" "\<not> is_processed t (o_event_id r) consumer"
      using w by (auto simp: awaiting_def)
    then have "cov (if P r then f r else r) i" "o_event_id (if P r then f r else r) = o_event_id r"
      using cv [of r] assms(2) [of r] by auto
    then show ?thesis
      using m [OF r(1)] r(3) unfolding awaiting_def is_processed_def by (intro bexI [of _ "if P r then f r else r"]) auto
  qed
  have "o_event_id ` set (update_where P f (outbox_events t)) = o_event_id ` set (outbox_events t)"
    using assms(2) by (simp add: set_key_update_where)
  then show ?thesis
    using assms(1) a [of covers_note] a [of covers_comment] c by (auto simp: derived_ok_def)
qed

lemma counts_run_outbox: "keeps (counts_ok consumer) (run_outbox cmd)"
proof -
  have u: "keeps (counts_ok consumer) (updateE (\<lambda>now t. t\<lparr>outbox_events := update_where P (f now) (outbox_events t)\<rparr>))"
    if "\<And>now r. row_app (f now r) = row_app r \<and> o_event_id (f now r) = o_event_id r \<and> o_event_type (f now r) = o_event_type r \<and> o_id (f now r) = o_id r"
    for P f
    using that by (intro counts.keeps_updateE) (auto simp: counts_ok_def store_ok_update_outbox derived_outbox_update)
  have e: "keeps (counts_ok consumer) (execE (\<lambda>now t. Inr (g now t, t\<lparr>outbox_events := update_where (P now t) (f now) (outbox_events t)\<rparr>)))"
    if "\<And>now r. row_app (f now r) = row_app r \<and> o_event_id (f now r) = o_event_id r \<and> o_event_type (f now r) = o_event_type r \<and> o_id (f now r) = o_id r"
    for g :: "int \<Rightarrow> store \<Rightarrow> 'a" and P f
    using that by (intro counts.keeps_execE) (auto simp: counts_ok_def store_ok_update_outbox derived_outbox_update)
  show ?thesis
    by (cases cmd; simp only: run_outbox.simps ignore_def MarkSent_def MarkRetry_def MarkFailed_def LockPending_def
        RecoverStaleProcessing_def Let_def; intro counts.keeps_bindE counts.keeps_basic u e;
        simp add: row_app_def event_of_row_def envelope_of_def)
qed

lemma derived_notes_frame:
  assumes ok: "derived_ok consumer t"
    and f: "\<And>n. n_id (f n) = n_id n \<and> n_project_id (f n) = n_project_id n \<and> note_counters (f n) = note_counters n"
  shows "derived_ok consumer (t\<lparr>all_notes := update_where P f (all_notes t)\<rparr>)"
proof -
  have a: "awaiting consumer (t\<lparr>all_notes := N\<rparr>) cov i = awaiting consumer t cov i" for N cov i
    by (simp add: awaiting_def is_processed_def)
  have "note_counters n' = note_facts t (n_id n') \<or> awaiting consumer t covers_note (n_id n')" "in_int64 (n_project_id n')"
    if m: "n' \<in> set (update_where P f (all_notes t))" for n'
  proof -
    obtain n where n: "n \<in> set (all_notes t)" "n_id n' = n_id n" "n_project_id n' = n_project_id n" "note_counters n' = note_counters n"
      using m f by (auto simp: update_where_set)
    then show "note_counters n' = note_facts t (n_id n') \<or> awaiting consumer t covers_note (n_id n')" "in_int64 (n_project_id n')"
      using ok by (auto simp: derived_ok_def columns_ok_def)
  qed
  then show ?thesis using ok by (simp add: derived_ok_def columns_ok_def a)
qed

lemma counts_UpdateNoteHotScore: "keeps (counts_ok consumer) (UpdateNoteHotScore noteID score)"
  unfolding UpdateNoteHotScore_def update_returning_def
  by (intro counts.keeps_mapErr counts.keeps_execE)
    (auto simp: counts_ok_def store_ok_update_notes note_counters_def intro!: derived_notes_frame split: option.splits)

lemma counts_ApplyEvent:
  assumes ok: "counts_ok consumer (seqs s) (tables s)" and e: "e \<in> set (outbox_events (tables s))" "row_app e = Inr a"
    and run: "ApplyEvent c consumer a s = (r, s')"
  shows "counts_ok consumer (seqs s') (tables s')"
proof -
  have "keeps store_ok (ApplyEvent c consumer a)"
    unfolding ApplyEvent_def by (rule keys.keeps_in_tx [OF keeps_keeps_ok [OF keys_ApplyEvent_body] grows_ApplyEvent_body])
  then have "store_ok (seqs s') (tables s')"
    by (rule keepsD [where m = "ApplyEvent c consumer a", OF _ _ run]) (use ok in \<open>simp add: counts_ok_def\<close>)
  moreover have "derived_ok consumer (tables s')"
    using in_tx_outcome [OF run [unfolded ApplyEvent_def]]
  proof (elim disjE exE conjE)
    fix x s1
    assume m: "ApplyEvent_body c consumer a (stmt_next s) = (Inr (Commit x), s1)" and t: "tables s' = tables s1"
    have "derived_ok consumer (tables s1)"
      by (rule derived_ApplyEvent [OF _ _ _ e(2) m]) (use ok e(1) in \<open>auto simp: counts_ok_def\<close>)
    then show ?thesis using t by simp
  qed (use ok in \<open>simp add: counts_ok_def\<close>)
  ultimately show ?thesis by (simp add: counts_ok_def)
qed

text \<open>The reads of the processor after the event was applied leave the tables alone.\<close>

definition db_reads :: "('r, 'a) wm \<Rightarrow> bool" where
  "db_reads m = (\<forall>s rd r s' rd'. m (s, rd) = (r, (s', rd')) \<longrightarrow> tables s' = tables s \<and> seqs s' = seqs s)"

lemma db_reads_rules:
  "db_reads (returnE x)" "db_reads (on_redis m)"
  "db_reads m1 \<Longrightarrow> (\<And>x. db_reads (k x)) \<Longrightarrow> db_reads (bindE m1 k)"
  "db_reads (on_db (mapErr f (query_row g)))" "db_reads m2 \<Longrightarrow> db_reads (catchE m2)"
  "(b \<Longrightarrow> db_reads m3) \<Longrightarrow> (\<not> b \<Longrightarrow> db_reads m4) \<Longrightarrow> db_reads (if b then m3 else m4)"
proof -
  show "db_reads m1 \<Longrightarrow> (\<And>x. db_reads (k x)) \<Longrightarrow> db_reads (bindE m1 k)"
    unfolding db_reads_def bindE_def by (fastforce split: prod.splits sum.splits)
  show "db_reads (on_db (mapErr f (query_row g)))"
    unfolding db_reads_def on_db_def mapErr_def query_row_def stmt_def
    by (auto split: prod.splits sum.splits list.splits fault.splits option.splits)
qed (auto simp: db_reads_def on_redis_def catchE_def split: prod.splits)

lemma db_reads_zrem_all: "db_reads (zrem_all ops member ks)"
proof (induction ks)
  case (Cons k ks)
  then show ?case unfolding zrem_all.simps by (intro db_reads_rules)
qed (simp only: zrem_all.simps db_reads_rules)

lemma db_reads_refresh: "db_reads (refreshDerivedData ops ty P)"
  unfolding refreshDerivedData_def invalidateNoteCache_def invalidateCommentCaches_def refreshNoteRanking_def
    removeNoteRankings_def refreshCommentRanking_def GetNoteRankingStats_def GetCommentRankingInfo_def
  by (intro db_reads_rules db_reads_zrem_all)

lemma Process_cases:
  assumes "Process ops c consumer env (s, rd) = (r, (s', rd'))"
  obtains (rejected) e where "event_application env = Inl e" "r = Inl e" "s' = s"
  | (failed) a e where "event_application env = Inr a" "ApplyEvent c consumer a s = (Inl e, s')" "r = Inl e"
  | (applied) a b s1 where "event_application env = Inr a" "ApplyEvent c consumer a s = (Inr b, s1)" "r = Inr b"
      "tables s' = tables s1" "seqs s' = seqs s1"
proof (cases "event_application env")
  case (Inl e)
  then show thesis using assms rejected by (simp add: Process_def)
next
  case (Inr a)
  obtain r1 s1 where ap: "ApplyEvent c consumer a s = (r1, s1)" by (cases "ApplyEvent c consumer a s")
  show thesis
  proof (cases r1)
    case (Inl e)
    then have "r = Inl e" "s' = s1"
      using assms ap \<open>event_application env = Inr a\<close> by (simp_all add: Process_def on_db_def bindE_def)
    then show thesis using failed [OF \<open>event_application env = Inr a\<close>, of e] ap Inl by blast
  next
    case (Inr b)
    define rf where "rf = catchE (case ops of None \<Rightarrow> returnE ()
             | Some ops \<Rightarrow> refreshDerivedData ops (env_EventType env)
                 \<lparr>pl_ProjectID = ap_ProjectID a, pl_UserID = ap_UserID a, pl_NoteID = ap_NoteID a,
                  pl_CommentID = ap_CommentID a, pl_ParentID = ap_ParentID a\<rparr>)"
    have dr: "db_reads rf" unfolding rf_def by (cases ops) (auto simp del: returnE_run intro!: db_reads_rules db_reads_refresh)
    obtain x s2 rd2 where x: "rf (s1, rd) = (x, (s2, rd2))" by (metis prod.exhaust)
    obtain y where "x = Inr y" using x by (auto simp: rf_def catchE_def split: prod.splits)
    then have "r = Inr b" "s' = s2"
      using assms ap Inr \<open>event_application env = Inr a\<close> x by (simp_all add: Process_def on_db_def bindE_def rf_def [symmetric])
    moreover have "tables s2 = tables s1" "seqs s2 = seqs s1" using dr x unfolding db_reads_def by blast+
    ultimately show thesis using applied [OF \<open>event_application env = Inr a\<close>] ap Inr by simp
  qed
qed

lemma system_step_counts:
  assumes "system_step ops consumer s s'" "counts_ok consumer (seqs s) (tables s)"
  shows "counts_ok consumer (seqs s') (tables s')"
  using assms(1)
proof cases
  case (Api cmd c r)
  then show ?thesis using keepsD [OF counts_run_api] assms(2) by blast
next
  case (Publisher cmd r)
  then show ?thesis using keepsD [OF counts_run_outbox] assms(2) by blast
next
  case (Worker e c rd r rd')
  from Worker(2) show ?thesis
  proof (cases rule: Process_cases)
    case (failed a x)
    then show ?thesis using counts_ApplyEvent [OF assms(2) Worker(1)] by (simp add: row_app_def)
  next
    case (applied a b s1)
    then show ?thesis using counts_ApplyEvent [OF assms(2) Worker(1), of a c _ s1] by (simp add: row_app_def)
  qed (use assms(2) in simp)
next
  case (Ranking noteID score r)
  then show ?thesis using keepsD [OF counts_UpdateNoteHotScore] assms(2) by blast
next
  case (Account sv call r)
  then show ?thesis using counts_run_auth assms(2) by blast
next
  case (Reconcile cmd r)
  then show ?thesis using keepsD [OF counts_run_reconcile] assms(2) by blast
qed (use assms(2) in simp)

lemma system_counts:
  "(system_step ops consumer)\<^sup>*\<^sup>* s0 s \<Longrightarrow> counts_ok consumer (seqs s0) (tables s0) \<Longrightarrow> counts_ok consumer (seqs s) (tables s)"
  by (induction rule: rtranclp_induct) (auto intro: system_step_counts)

section \<open>Every change carries one event\<close>

definition quiet :: "'a sm \<Rightarrow> bool" where
  "quiet m = (\<forall>s x s'. m s = (Inr x, s') \<longrightarrow> outbox_events (tables s') = outbox_events (tables s))"

definition emits :: "string \<Rightarrow> 'a sm \<Rightarrow> bool" where
  "emits ty m = (\<forall>s x s'. m s = (Inr x, s') \<longrightarrow> tables s' = tables s \<or>
     (\<exists>row. outbox_events (tables s') = outbox_events (tables s) @ [row] \<and> o_event_type row = ty \<and> o_status row = ''pending''))"

definition emits_one :: "string \<Rightarrow> 'a sm \<Rightarrow> bool" where
  "emits_one ty m = (\<forall>s x s'. m s = (Inr x, s') \<longrightarrow>
     (\<exists>row. outbox_events (tables s') = outbox_events (tables s) @ [row] \<and> o_event_type row = ty \<and> o_status row = ''pending''))"

lemma emits_one_emits: "emits_one ty m \<Longrightarrow> emits ty m"
  unfolding emits_def emits_one_def by blast

lemma quiet_rules:
  "quiet (returnE x)" "quiet m \<Longrightarrow> quiet (mapErr f m)" "quiet (query_row g)" "quiet (selectE h)"
  "(\<And>i now t x t'. j i now t = Inr (x, t') \<Longrightarrow> outbox_events t' = outbox_events t) \<Longrightarrow> quiet (insert_serial sq j)"
  by (auto simp: quiet_def run_Inr)

lemma emits_one_quiet_bind: "quiet m \<Longrightarrow> (\<And>x. emits_one ty (k x)) \<Longrightarrow> emits_one ty (bindE m k)"
  unfolding quiet_def emits_one_def bindE_Inr by metis

lemma emits_one_enqueue: "emits_one ty (bindE (enqueue c a i ty pl) (\<lambda>_. returnE x))"
proof -
  have "\<exists>row. outbox_events (tables s') = outbox_events (tables s) @ [row] \<and> o_event_type row = ty \<and> o_status row = ''pending''"
    if "enqueue c a i ty pl s = (Inr u, s')" for s s' u
    using that by (rule enqueue_Inr) (auto simp: new_outbox_row_def event_input_def)
  then show ?thesis unfolding emits_one_def bindE_Inr by auto
qed

lemma emits_one_prod: "(\<And>a b. emits_one ty (k a b)) \<Longrightarrow> emits_one ty (case p of (a, b) \<Rightarrow> k a b)"
  by (cases p) simp

lemma quiet_if: "quiet m \<Longrightarrow> quiet m' \<Longrightarrow> quiet (if b then m else m')"
  by simp

lemma quiet_inserts:
  "quiet (insert_note input)" "quiet (insert_share n u ch)" "quiet (insert_comment n cinput rootID)" "quiet (insert_media n m)"
  unfolding insert_note_def insert_share_def insert_comment_def insert_media_def
  by (rule quiet_rules; auto simp: Let_def split: if_splits)+

lemma quiet_insert_all_media: "quiet (insert_all_media n ms)"
  using insert_all_media_Inr unfolding quiet_def by fastforce

lemma quiet_updates:
  "quiet (update_returning all_notes (\<lambda>rows. all_notes_update (\<lambda>_. rows)) P f g)"
  "quiet (update_returning note_comments (\<lambda>rows. note_comments_update (\<lambda>_. rows)) P' f' g')"
  by (auto simp: quiet_def update_returning_Inr)

lemmas emits_rules = emits_one_quiet_bind emits_one_enqueue emits_one_prod quiet_if quiet_inserts quiet_insert_all_media
  quiet_updates quiet_rules(1-4)

lemma emits_one_bodies:
  "emits_one ''note.created'' (CreateNote_body c input)" "emits_one ''note.viewed'' (RecordNoteView_body c n u)"
  "emits_one ''note.updated'' (UpdateNote_body c n uinput)" "emits_one ''note.deleted'' (SoftDeleteNote_body c n u)"
  "emits_one ''note.shared'' (ShareNote_body c n u ch)" "emits_one ''comment.created'' (CreateComment_body c n cinput)"
  "emits_one ''comment.deleted'' (SoftDeleteComment_body c n u)"
  unfolding body_defs publishedNoteProjectID_def noteProjectID_def note_count_def readMaterializedCount_def parent_root_def
  by (intro emits_rules)+

lemma enqueue_event:
  assumes "enqueue c a i ty pl s1 = (Inr u, s')" "outbox_events (tables s1) = outbox_events t"
  shows "\<exists>row. outbox_events (tables s') = outbox_events t @ [row] \<and> o_event_type row = ty \<and> o_status row = ''pending''"
  using assms(1) by (rule enqueue_Inr) (use assms(2) in \<open>auto simp: new_outbox_row_def event_input_def\<close>)

lemma emits_note_actions:
  "emits ''note.liked'' (LikeNote_body c n u)" "emits ''note.collected'' (CollectNote_body c n u name)"
  "emits ety (removeNoteInteraction_body c n u tab ety act col)"
proof -
  show "emits ''note.liked'' (LikeNote_body c n u)"
    unfolding emits_def
  proof (intro allI impI)
    fix s x s' assume "LikeNote_body c n u s = (Inr x, s')"
    from this [unfolded LikeNote_body_def] actions_True(1)
    show "tables s' = tables s \<or> (\<exists>row. outbox_events (tables s') = outbox_events (tables s) @ [row] \<and> o_event_type row = ''note.liked'' \<and> o_status row = ''pending'')"
      by (cases rule: note_action_Inr) (auto dest!: insert_like_Inr enqueue_event)
  qed
  show "emits ''note.collected'' (CollectNote_body c n u name)"
    unfolding emits_def
  proof (intro allI impI)
    fix s x s' assume "CollectNote_body c n u name s = (Inr x, s')"
    from this [unfolded CollectNote_body_def] actions_True(2)
    show "tables s' = tables s \<or> (\<exists>row. outbox_events (tables s') = outbox_events (tables s) @ [row] \<and> o_event_type row = ''note.collected'' \<and> o_status row = ''pending'')"
      by (cases rule: note_action_Inr) (auto dest!: insert_collect_Inr enqueue_event)
  qed
  show "emits ety (removeNoteInteraction_body c n u tab ety act col)"
    unfolding emits_def
  proof (intro allI impI)
    fix s x s' assume "removeNoteInteraction_body c n u tab ety act col s = (Inr x, s')"
    from this [unfolded removeNoteInteraction_body_def] actions_True(3)
    show "tables s' = tables s \<or> (\<exists>row. outbox_events (tables s') = outbox_events (tables s) @ [row] \<and> o_event_type row = ety \<and> o_status row = ''pending'')"
      by (cases rule: note_action_Inr) (auto dest!: delete_interaction_Inr enqueue_event)
  qed
qed

lemma emits_if_applied:
  assumes ins: "insertIdempotent f s1 = (Inr b, s2)" "\<And>now t b t'. f now t = Inr (b, t') \<Longrightarrow> b \<and> outbox_events t' = outbox_events t"
    and s1: "tables s1 = t" and enq: "if_applied b m (stmt_next s2) = (Inr u, s')" and m: "emits_one ty m"
  shows "tables s' = t \<or> (\<exists>row. outbox_events (tables s') = outbox_events t @ [row] \<and> o_event_type row = ty \<and> o_status row = ''pending'')"
  using ins(1)
proof (cases rule: insertIdempotent_Inr)
  case conflict
  then show ?thesis using enq s1 by (auto simp: if_applied_def)
next
  case (applied t')
  then have "b" "outbox_events (tables s2) = outbox_events t" using ins(2) [OF applied(1)] s1 by auto
  then show ?thesis using enq m unfolding emits_one_def if_applied_def by fastforce
qed

lemma emits_one_enqueue': "emits_one ty (enqueue c a i ty pl)"
  unfolding emits_one_def by (intro allI impI, erule enqueue_Inr) (auto simp: new_outbox_row_def event_input_def)

lemma emits_comment_actions:
  "emits ''comment.liked'' (LikeComment_body c k u)" "emits ''comment.unliked'' (UnlikeComment_body c k u)"
proof -
  show "emits ''comment.liked'' (LikeComment_body c k u)"
    unfolding emits_def
  proof (intro allI impI)
    fix s x s' assume "LikeComment_body c k u s = (Inr x, s')"
    then obtain b s2 where ins: "insertIdempotent (insert_comment_like k u) s = (Inr b, s2)"
      and enq: "if_applied b (bindE (comment_note_project k) (\<lambda>(noteID, projectID).
       enqueue c ''comment'' k ''comment.liked'' [(''comment_id'', JInt k), (''note_id'', JInt noteID),
         (''project_id'', JInt projectID), (''user_id'', JInt u)])) (stmt_next s2) = (Inr (), s')"
      by (auto simp: LikeComment_body_def run_Inr readMaterializedCount_def)
    show "tables s' = tables s \<or> (\<exists>row. outbox_events (tables s') = outbox_events (tables s) @ [row] \<and> o_event_type row = ''comment.liked'' \<and> o_status row = ''pending'')"
      by (rule emits_if_applied [OF ins _ refl enq])
        (auto dest!: insert_comment_like_Inr simp: comment_note_project_def intro!: emits_rules emits_one_enqueue')
  qed
  show "emits ''comment.unliked'' (UnlikeComment_body c k u)"
    unfolding emits_def
  proof (intro allI impI)
    fix s x s' assume "UnlikeComment_body c k u s = (Inr x, s')"
    then obtain noteID projectID s1 b s2 where cnp: "comment_note_project k s = (Inr (noteID, projectID), s1)"
      and ins: "insertIdempotent (delete_comment_like k u) s1 = (Inr b, s2)"
      and enq: "if_applied b (enqueue c ''comment'' k ''comment.unliked'' [(''comment_id'', JInt k),
         (''note_id'', JInt noteID), (''project_id'', JInt projectID), (''user_id'', JInt u)]) (stmt_next s2) = (Inr (), s')"
      by (auto simp: UnlikeComment_body_def run_Inr readMaterializedCount_def split: prod.splits)
    have s1: "tables s1 = tables s" using cnp by (auto simp: comment_note_project_def run_Inr)
    show "tables s' = tables s \<or> (\<exists>row. outbox_events (tables s') = outbox_events (tables s) @ [row] \<and> o_event_type row = ''comment.unliked'' \<and> o_status row = ''pending'')"
      by (rule emits_if_applied [OF ins _ s1 enq])
        (auto dest!: delete_comment_like_Inr intro!: emits_one_enqueue')
  qed
qed

text \<open>From the body to the transaction and to the operation, for every outcome.\<close>

definition one_event :: "string \<Rightarrow> 'a sm \<Rightarrow> bool" where
  "one_event ty m = (\<forall>s r s'. m s = (r, s') \<longrightarrow> tables s' = tables s \<or>
     (\<exists>row. outbox_events (tables s') = outbox_events (tables s) @ [row] \<and> o_event_type row = ty \<and> o_status row = ''pending''))"

lemma one_event_in_tx: "emits ty m \<Longrightarrow> one_event ty (in_tx b e m)"
  unfolding one_event_def
proof (intro allI impI)
  fix s r s'
  assume m: "emits ty m" and "in_tx b e m s = (r, s')"
  from in_tx_outcome [OF this(2)] show "tables s' = tables s \<or>
     (\<exists>row. outbox_events (tables s') = outbox_events (tables s) @ [row] \<and> o_event_type row = ty \<and> o_status row = ''pending'')"
    using m unfolding emits_def by fastforce
qed

definition db_reads_only :: "'a sm \<Rightarrow> bool" where
  "db_reads_only m = (\<forall>s r s'. m s = (r, s') \<longrightarrow> tables s' = tables s)"

lemma reads_only_rules:
  "db_reads_only (returnE x)" "db_reads_only (selectE f)" "db_reads_only m \<Longrightarrow> db_reads_only (mapErr g m)"
  "db_reads_only m1 \<Longrightarrow> db_reads_only (catchE m1)" "db_reads_only m2 \<Longrightarrow> (\<And>y. db_reads_only (k y)) \<Longrightarrow> db_reads_only (bindE m2 k)"
  "db_reads_only m3 \<Longrightarrow> db_reads_only m4 \<Longrightarrow> db_reads_only (if b then m3 else m4)"
proof -
  show "db_reads_only (selectE f)"
    unfolding db_reads_only_def selectE_def stmt_def by (auto split: list.splits fault.splits)
  show "db_reads_only m2 \<Longrightarrow> (\<And>y. db_reads_only (k y)) \<Longrightarrow> db_reads_only (bindE m2 k)"
    unfolding db_reads_only_def bindE_def by (fastforce split: prod.splits sum.splits)
  show "db_reads_only m \<Longrightarrow> db_reads_only (mapErr g m)"
    unfolding db_reads_only_def mapErr_def by (fastforce split: prod.splits sum.splits)
qed (auto simp: db_reads_only_def catchE_def split: prod.splits)

lemma one_event_bind: "one_event ty m \<Longrightarrow> (\<And>x. db_reads_only (k x)) \<Longrightarrow> one_event ty (bindE m k)"
  unfolding one_event_def
proof (intro allI impI)
  fix s r s'
  assume m: "\<forall>s r s'. m s = (r, s') \<longrightarrow> tables s' = tables s \<or>
     (\<exists>row. outbox_events (tables s') = outbox_events (tables s) @ [row] \<and> o_event_type row = ty \<and> o_status row = ''pending'')"
    and k: "\<And>x. db_reads_only (k x)" and run: "bindE m k s = (r, s')"
  obtain r1 s1 where m1: "m s = (r1, s1)" by (cases "m s")
  have "tables s' = tables s1"
    using run m1 k unfolding db_reads_only_def bindE_def by (cases r1) auto
  then show "tables s' = tables s \<or>
     (\<exists>row. outbox_events (tables s') = outbox_events (tables s) @ [row] \<and> o_event_type row = ty \<and> o_status row = ''pending'')"
    using m m1 by metis
qed

fun cmd_event :: "api_cmd \<Rightarrow> string" where
  "cmd_event (DoCreateNote _) = ''note.created''"
| "cmd_event (DoRecordNoteView _ _) = ''note.viewed''"
| "cmd_event (DoUpdateNote _ _) = ''note.updated''"
| "cmd_event (DoSoftDeleteNote _ _) = ''note.deleted''"
| "cmd_event (DoLikeNote _ _) = ''note.liked''"
| "cmd_event (DoUnlikeNote _ _) = ''note.unliked''"
| "cmd_event (DoCollectNote _ _ _) = ''note.collected''"
| "cmd_event (DoUncollectNote _ _) = ''note.uncollected''"
| "cmd_event (DoShareNote _ _ _) = ''note.shared''"
| "cmd_event (DoCreateComment _ _) = ''comment.created''"
| "cmd_event (DoLikeComment _ _) = ''comment.liked''"
| "cmd_event (DoUnlikeComment _ _) = ''comment.unliked''"
| "cmd_event (DoSoftDeleteComment _ _) = ''comment.deleted''"

lemma one_event_returnE: "one_event ty (returnE x)"
  by (auto simp: one_event_def)

lemma one_event_if: "one_event ty m \<Longrightarrow> one_event ty m' \<Longrightarrow> one_event ty (if b then m else m')"
  by simp

lemma one_event_run_api: "one_event (cmd_event cmd) (run_api c cmd)"
  by (induction cmd; unfold cmd_event.simps api_defs;
      intro one_event_if one_event_returnE one_event_bind one_event_in_tx emits_one_emits emits_one_bodies emits_note_actions
        emits_comment_actions reads_only_rules)

end
