(* ===== verification/System_Props.thy ===== *)
theory System_Props
  imports System
begin

text \<open>The properties of the system of API, outbox and worker, with a small run they are applied to.\<close>

section \<open>A small run\<close>

definition sample_ctx :: ctx where
  "sample_ctx = \<lparr>ctx_RequestID = ''req'', ctx_TraceID = ''trace'', span_TraceID = [], span_traceparent = [], span_tracestate = [],
     rand_bytes = None, clock_nanos = 5, unicode_lower = id\<rparr>"

definition sample_input :: CreateNoteInput where
  "sample_input = \<lparr>cn_ProjectID = 1, cn_AuthorID = 7, cn_Title = ''t'', cn_Body = ''b'', cn_Category = ''c'', cn_Topics = [], cn_Tags = [],
     cn_Location = [], cn_ProductEntities = [], cn_Media = [], cn_Visibility = ''public''\<rparr>"

definition sample_store :: store where
  "sample_store = \<lparr>users = [\<lparr>u_id = 7, u_username = ''ann'', u_nickname = None, u_avatar_url = None, u_bio = None,
        u_role = ''normal'', u_status = ''active'', u_created_at = 0, u_updated_at = 0\<rparr>],
     projects = [\<lparr>p_id = 1, p_slug = ''s'', p_name = ''n'', p_visibility = ''public'', p_status = ''active''\<rparr>], project_members = [], all_notes = [], note_media = [],
     note_comments = [], note_likes = [], note_collects = [], note_shares = [], note_comment_likes = [], outbox_events = [],
     processed_events = [], behavior_events = [], user_credentials = [], user_sessions = [], user_auth_tokens = [],
     reconcile_state = [\<lparr>rq_state_key = ''notes'', rq_last_id = 0, rq_updated_at = 0\<rparr>, \<lparr>rq_state_key = ''comments'', rq_last_id = 0, rq_updated_at = 0\<rparr>]\<rparr>"

definition sample_db :: "store db" where
  "sample_db = \<lparr>tables = sample_store, seqs = (\<lambda>_. 0), faults = [], db_now = 100\<rparr>"

definition sample_event :: outbox_row where
  "sample_event = new_outbox_row sample_ctx (event_input ''note'' 1 ''note.created''
     [(''category'', JStr ''c''), (''note_id'', JInt 1), (''project_id'', JInt 1), (''user_id'', JInt 7)]) 1 100"

definition sample_note_row :: note_row where
  "sample_note_row = new_note_row sample_input 1 100"

definition sample_db1 :: "store db" where
  "sample_db1 = sample_db\<lparr>tables := sample_store\<lparr>all_notes := [sample_note_row], outbox_events := [sample_event]\<rparr>,
     seqs := (\<lambda>_. 0)(''notes'' := 1, ''outbox_events'' := 1)\<rparr>"

lemma trim_samples: "TrimSpace ''note'' = ''note''" "TrimSpace ''note.created'' = ''note.created''" "TrimSpace ''note.liked'' = ''note.liked''"
  by (simp_all add: TrimSpace_def trim_left.simps trim_right.simps DecodeRune_def DecodeLastRune_def IsSpace_def first_info_def
      rune_value_def byte_def Let_def)

lemma trim_samples_Nil [simp]: "TrimSpace [] = []"
  by (simp add: TrimSpace_def trim_left.simps trim_right.simps)

lemma sample_create: "run_api sample_ctx (DoCreateNote sample_input) sample_db = (Inr (), sample_db1)"
  by (simp add: ignore_def CreateNote_def in_tx_nil sample_db_def sample_db1_def CreateNote_body_def insert_note_def bindE_def
      insert_serial_def max_bigint_def sample_store_def sample_input_def exists_row_def user_exists_def sample_note_row_def
      new_note_row_def mapErr_def enqueue_def EnqueueTx_def event_input_def trim_samples sample_event_def new_outbox_row_def
      Let_def attachAuthors_def catchE_def scanNote_def note_row.extend_def Note.fields_def)

lemma sample_event_app:
  "event_application (envelope_of (event_of_row sample_event)) =
     Inr (app_of sample_event \<lparr>pl_ProjectID = 1, pl_UserID = 7, pl_NoteID = 1, pl_CommentID = 0, pl_ParentID = 0\<rparr>)"
proof -
  have "decode_eventPayload (Some (JObj [(''category'', JStr ''c''), (''note_id'', JInt 1), (''project_id'', JInt 1), (''user_id'', JInt 7)])) =
    Some \<lparr>pl_ProjectID = 1, pl_UserID = 7, pl_NoteID = 1, pl_CommentID = 0, pl_ParentID = 0\<rparr>"
    by (simp add: decode_simps in_int64_def del: fold_name.simps)
  from row_app_new [OF this _ _ sample_event_def] show ?thesis by (simp add: row_app_def)
qed

lemma sample_event_type: "o_event_type sample_event = ''note.created''"
  by (simp add: sample_event_def new_outbox_row_def event_input_def)

lemma sample_process:
  "\<exists>s. Process (None :: unit redis_ops option) sample_ctx ''w'' (envelope_of (event_of_row sample_event)) (sample_db1, ()) = (Inr False, (s, ())) \<and>
     outbox_events (tables s) = [sample_event] \<and> is_processed (tables s) (o_event_id sample_event) ''w'' \<and> length (all_notes (tables s)) = 1"
  unfolding Process_def sample_event_app on_db_def
  by (simp add: bindE_def ApplyEvent_def in_tx_nil sample_db1_def sample_db_def ApplyEvent_body_def
      claimEvent_def mapErr_def or_no_rows_def execE_def is_processed_def exists_row_def sample_store_def recordBehavior_def Let_def
      insert_serial_def max_bigint_def behavior_fk_ok_def app_of_def envelope_of_def event_of_row_def user_exists_def note_exists_def
      sample_note_row_def new_note_row_def sample_input_def rebuildDerivedCounters_def note_rebuild_types_def ignore_def
      rebuildNoteCounters_def update_returning_def update_where_def sample_event_type catchE_def rebuilt_note_def)

section \<open>Counters\<close>

lemma empty_counts_ok:
  "store_ok q t \<Longrightarrow> all_notes t = [] \<Longrightarrow> note_comments t = [] \<Longrightarrow> processed_events t = [] \<Longrightarrow> counts_ok consumer q t"
  by (simp add: counts_ok_def derived_ok_def columns_ok_def)

lemma sample_store_ok: "store_ok (\<lambda>_. 0) sample_store"
  by (simp add: store_ok_def serial_ok_def sample_store_def)

lemma sample_reach:
  "\<exists>s. (system_step (None :: unit redis_ops option) ''w'')\<^sup>*\<^sup>* sample_db s \<and> outbox_events (tables s) = [sample_event] \<and>
     is_processed (tables s) (o_event_id sample_event) ''w'' \<and> length (all_notes (tables s)) = 1"
proof -
  have 1: "system_step (None :: unit redis_ops option) ''w'' sample_db sample_db1"
    by (rule system_step.Api [OF _ sample_create]) (simp add: sample_input_def in_int64_def)
  obtain s where s: "Process (None :: unit redis_ops option) sample_ctx ''w'' (envelope_of (event_of_row sample_event)) (sample_db1, ()) = (Inr False, (s, ()))"
    "outbox_events (tables s) = [sample_event]" "is_processed (tables s) (o_event_id sample_event) ''w''" "length (all_notes (tables s)) = 1"
    using sample_process by blast
  have 2: "system_step (None :: unit redis_ops option) ''w'' sample_db1 s"
    by (rule system_step.Worker [OF _ s(1)]) (simp add: sample_db1_def sample_store_def)
  show ?thesis using 1 2 s(2-4) by (blast intro: rtranclp.rtrancl_into_rtrancl rtranclp.rtrancl_refl)
qed







section \<open>Events\<close>

text \<open>
  C4. Transactional outbox. Whatever happens to an API write (success, rejected input, failed or
  unanswered statement, lost commit reply), the tables are untouched or exactly one pending event of
  the type that belongs to the operation was appended together with the change.
\<close>

theorem api_change_has_one_event:
  assumes "run_api c cmd s = (r, s')"
  shows "tables s' = tables s \<or>
    (\<exists>row. outbox_events (tables s') = outbox_events (tables s) @ [row] \<and> o_event_type row = cmd_event cmd \<and> o_status row = ''pending'')"
  using one_event_run_api assms unfolding one_event_def by blast

theorem api_change_has_one_event_witness:
  "\<exists>row. outbox_events (tables sample_db1) = outbox_events (tables sample_db) @ [row] \<and> o_event_type row = ''note.created'' \<and> o_status row = ''pending''"
  using api_change_has_one_event [OF sample_create] by (simp add: sample_db_def sample_db1_def sample_store_def)

end
