(* ===== verification/Delivery_Props.thy ===== *)
theory Delivery_Props
  imports System_Props
begin

text \<open>
  Delivery of events: what the worker does with one event however often it arrives, what the
  consumer does with a message, and what the publisher may report as sent.
\<close>

section \<open>Exactly once\<close>

lemma ApplyEvent_outcomes:
  fixes a :: EventApplication
  defines "i \<equiv> env_EventID (ap_Envelope a)"
  assumes "ApplyEvent c consumer a s = (r, s')"
  shows "tables s' = tables s \<and> (\<forall>b. r = Inr b \<longrightarrow> b \<and> is_processed (tables s) i consumer) \<or>
    \<not> is_processed (tables s) i consumer \<and> is_processed (tables s') i consumer \<and> (\<forall>b. r = Inr b \<longrightarrow> \<not> b)"
proof (cases "tables s' = tables s \<and> (\<forall>b. r = Inr b \<longrightarrow> b)")
  case True
  have "is_processed (tables s) i consumer" if "r = Inr b" for b
  proof -
    have "stmt_ok s \<and> (\<exists>s1. ApplyEvent_body c consumer a (stmt_next s) = (Inr (Rollback b), s1))"
      using in_tx_Inr [OF assms(2) [unfolded ApplyEvent_def that]] True that
      by (auto elim: ApplyEvent_body_Commit)
    then show ?thesis
      using claimEvent_Inr [where eid = i and consumer = consumer]
      by (fastforce simp: ApplyEvent_body_def bindE_Inr i_def split: if_splits)
  qed
  then show ?thesis using True by blast
next
  case False
  have "\<exists>b s1. ApplyEvent_body c consumer a (stmt_next s) = (Inr (Commit b), s1) \<and> tables s' = tables s1 \<and> (\<forall>x. r = Inr x \<longrightarrow> x = b)"
  proof (cases r)
    case (Inl e)
    then show ?thesis using False in_tx_outcome [OF assms(2) [unfolded ApplyEvent_def]] by auto
  next
    case (Inr b)
    then show ?thesis
      using False in_tx_Inr [OF assms(2) [unfolded ApplyEvent_def Inr]]
      by (auto simp: ApplyEvent_body_def bindE_Inr split: if_splits)
  qed
  then obtain b s1 where m: "ApplyEvent_body c consumer a (stmt_next s) = (Inr (Commit b), s1)" "tables s' = tables s1" "\<forall>x. r = Inr x \<longrightarrow> x = b"
    by blast
  from m(1) show ?thesis
  proof (rule ApplyEvent_body_Commit)
    fix B t1
    assume "\<not> b" "\<not> is_processed (tables (stmt_next s)) (env_EventID (ap_Envelope a)) consumer"
      "t1 = (tables (stmt_next s))\<lparr>processed_events := processed_events (tables (stmt_next s)) @
        [\<lparr>pr_event_id = env_EventID (ap_Envelope a), pr_consumer_name = consumer, pr_processed_at = db_now (stmt_next s)\<rparr>],
        behavior_events := B\<rparr>"
      "refreshed t1 (tables s1) (note_scope (env_EventType (ap_Envelope a)) a) (comment_scope (env_EventType (ap_Envelope a)) a)"
    then show ?thesis using m(2,3) refreshedD(3,4) by (fastforce simp: is_processed_def exists_row_iff i_def)
  qed
qed

definition sample_payload :: eventPayload where
  "sample_payload = \<lparr>pl_ProjectID = 1, pl_UserID = 7, pl_NoteID = 1, pl_CommentID = 0, pl_ParentID = 0\<rparr>"

definition sample_app :: EventApplication where
  "sample_app = app_of sample_event sample_payload"

lemma sample_app_id: "env_EventID (ap_Envelope sample_app) = o_event_id sample_event"
  by (simp add: sample_app_def app_of_def envelope_of_def event_of_row_def)

lemma sample_processed_state: "\<exists>s :: store db. is_processed (tables s) (o_event_id sample_event) ''w''"
  using sample_process by blast



text \<open>The rows the rebuild of an event needs: the ids its type uses are positive and a named parent exists.\<close>

definition rebuild_targets_ok :: "EventApplication \<Rightarrow> store \<Rightarrow> bool" where
  "rebuild_targets_ok a t =
     (let ty = env_EventType (ap_Envelope a) in
      (ty \<in> set (''note.viewed'' # note_rebuild_types @ comment_change_types) \<longrightarrow> 0 < ap_NoteID a) \<and>
      (ty \<in> set (comment_change_types @ [''comment.liked'', ''comment.unliked'']) \<longrightarrow> 0 < ap_CommentID a) \<and>
      (ty \<in> set comment_change_types \<longrightarrow> 0 < ap_ParentID a \<longrightarrow> comment_exists (ap_ParentID a) t))"

lemma find_exists: "exists_row P rows \<Longrightarrow> \<exists>r. find P rows = Some r"
  by (cases "find P rows") (auto simp: find_None_iff exists_row_iff)

lemma rebuildNoteCounters_runs:
  assumes "faults s = []" "0 < i" "note_exists i (tables s)"
  shows "\<exists>x s'. rebuildNoteCounters i s = (Inr x, s') \<and> faults s' = [] \<and> processed_events (tables s') = processed_events (tables s)"
proof -
  obtain n where "find (\<lambda>n. n_id n = i) (all_notes (tables s)) = Some n"
    using assms(3) find_exists by (auto simp: note_exists_def)
  then show ?thesis using assms by (simp add: rebuildNoteCounters_def mapErr_def update_returning_def execE_def)
qed

lemma rebuildCommentCounters_runs:
  assumes "faults s = []" "0 < i" "comment_exists i (tables s)"
  shows "\<exists>x s'. rebuildCommentCounters i s = (Inr x, s') \<and> faults s' = [] \<and> processed_events (tables s') = processed_events (tables s) \<and>
    (\<forall>j. comment_exists j (tables s') = comment_exists j (tables s)) \<and> (\<forall>j. note_exists j (tables s') = note_exists j (tables s))"
proof -
  obtain k where "find (\<lambda>n. c_id n = i) (note_comments (tables s)) = Some k"
    using assms(3) find_exists by (auto simp: comment_exists_def)
  then show ?thesis
    using assms
    by (simp add: rebuildCommentCounters_def mapErr_def update_returning_def execE_def comment_exists_def note_exists_def
        exists_key set_key_update_where rebuilt_comment_def)
qed

lemma ignore_run: "m s = (Inr x, s') \<Longrightarrow> ignore m s = (Inr (), s')"
  by (simp add: ignore_def bindE_def)

lemma rebuildDerivedCounters_runs:
  assumes "faults s = []" "behavior_fk_ok a (tables s)" "rebuild_targets_ok a (tables s)"
  shows "\<exists>s'. rebuildDerivedCounters a s = (Inr (), s') \<and> faults s' = [] \<and> processed_events (tables s') = processed_events (tables s)"
proof -
  let ?ty = "env_EventType (ap_Envelope a)"
  note d = assms(2,3) [unfolded behavior_fk_ok_def rebuild_targets_ok_def Let_def]
  consider (rebuild) "?ty \<in> set note_rebuild_types" | (view) "?ty = ''note.viewed''" "?ty \<notin> set note_rebuild_types"
    | (change) "?ty \<in> set comment_change_types" "?ty \<notin> set note_rebuild_types"
    | (like) "?ty \<in> set [''comment.liked'', ''comment.unliked'']" "?ty \<notin> set note_rebuild_types"
    | (other) "?ty \<notin> set (''note.viewed'' # note_rebuild_types @ comment_change_types @ [''comment.liked'', ''comment.unliked''])"
    unfolding set_append list.set(2) by blast
  then show ?thesis
  proof cases
    case rebuild
    then have "0 < ap_NoteID a" "note_exists (ap_NoteID a) (tables s)" using d by auto
    from rebuildNoteCounters_runs [OF assms(1) this] rebuild show ?thesis
      by (auto simp: rebuildDerivedCounters_def Let_def ignore_run)
  next
    case view
    then show ?thesis using d assms(1) by (simp add: rebuildDerivedCounters_def incrementNoteView_def mapErr_def)
  next
    case change
    have i: "0 < ap_NoteID a" "0 < ap_CommentID a"
      using d(2) change(1) by simp_all
    have p: "0 < ap_NoteID a" "0 < ap_CommentID a" "note_exists (ap_NoteID a) (tables s)" "comment_exists (ap_CommentID a) (tables s)"
      "0 < ap_ParentID a \<Longrightarrow> comment_exists (ap_ParentID a) (tables s)"
      using i d change(1) by simp_all
    obtain x1 s1 where 1: "rebuildCommentCounters (ap_CommentID a) s = (Inr x1, s1)" "faults s1 = []"
      "processed_events (tables s1) = processed_events (tables s)" "\<And>j. comment_exists j (tables s1) = comment_exists j (tables s)"
      "\<And>j. note_exists j (tables s1) = note_exists j (tables s)"
      using rebuildCommentCounters_runs [OF assms(1) p(2,4)] by blast
    have "\<exists>s2. (if ap_ParentID a > 0 then ignore (rebuildCommentCounters (ap_ParentID a)) else returnE ()) s1 = (Inr (), s2) \<and>
      faults s2 = [] \<and> processed_events (tables s2) = processed_events (tables s) \<and> note_exists (ap_NoteID a) (tables s2)"
      using rebuildCommentCounters_runs [OF 1(2), of "ap_ParentID a"] p 1 by (auto simp: ignore_run)
    then obtain s2 where 2: "(if ap_ParentID a > 0 then ignore (rebuildCommentCounters (ap_ParentID a)) else returnE ()) s1 = (Inr (), s2)"
      "faults s2 = []" "processed_events (tables s2) = processed_events (tables s)" "note_exists (ap_NoteID a) (tables s2)"
      by blast
    obtain s3 where 3: "ignore (rebuildNoteCounters (ap_NoteID a)) s2 = (Inr (), s3)" "faults s3 = []"
      "processed_events (tables s3) = processed_events (tables s)"
      using rebuildNoteCounters_runs [OF 2(2) p(1) 2(4)] 2(3) by (auto simp: ignore_run)
    have "rebuildDerivedCounters a s = (Inr (), s3)"
      unfolding rebuildDerivedCounters_def Let_def
      using change 1(1) 2(1) 3(1) by (simp add: comment_change_types_def note_rebuild_types_def bindE_def) auto
    then show ?thesis using 3 by simp
  next
    case like
    then have "0 < ap_CommentID a" "comment_exists (ap_CommentID a) (tables s)" using d by auto
    from rebuildCommentCounters_runs [OF assms(1) this] like show ?thesis
      by (auto simp: rebuildDerivedCounters_def Let_def ignore_run)
  next
    case other
    then show ?thesis using assms(1) by (auto simp: rebuildDerivedCounters_def Let_def comment_change_types_def)
  qed
qed

lemma recordBehavior_runs:
  assumes "faults s = []" "seqs s ''behavior_events'' < max_bigint" "behavior_fk_ok a (tables s)"
  shows "\<exists>s'. recordBehavior c a s = (Inr (), s') \<and> faults s' = [] \<and> (\<exists>B. tables s' = (tables s)\<lparr>behavior_events := B\<rparr>)"
proof (cases "exists_row (\<lambda>b. b_source_event_id b = env_EventID (ap_Envelope a)) (behavior_events (tables s))")
  case True
  then show ?thesis
    using assms by (simp add: recordBehavior_def Let_def mapErr_def insert_serial_def) (rule exI [of _ "behavior_events (tables s)"], simp)
next
  case False
  then show ?thesis using assms by (auto simp: recordBehavior_def Let_def mapErr_def insert_serial_def)
qed

text \<open>
  The worker makes progress: with a database that answers, an event whose project, user, note and
  comment exist and whose ids fit its type is applied, and is marked as processed afterwards.
\<close>

theorem ApplyEvent_succeeds:
  assumes "faults s = []" "seqs s ''behavior_events'' < max_bigint" "behavior_fk_ok a (tables s)" "rebuild_targets_ok a (tables s)"
  shows "\<exists>b s'. ApplyEvent c consumer a s = (Inr b, s') \<and> is_processed (tables s') (env_EventID (ap_Envelope a)) consumer"
proof (cases "is_processed (tables s) (env_EventID (ap_Envelope a)) consumer")
  case True
  then show ?thesis
    using assms(1)
    by (auto simp: ApplyEvent_def in_tx_nil ApplyEvent_body_def bindE_def claimEvent_def mapErr_def or_no_rows_def execE_def)
next
  case False
  define s1 where "s1 = s\<lparr>tables := (tables s)\<lparr>processed_events := processed_events (tables s) @
     [\<lparr>pr_event_id = env_EventID (ap_Envelope a), pr_consumer_name = consumer, pr_processed_at = db_now s\<rparr>]\<rparr>\<rparr>"
  have s1: "faults s1 = []" "seqs s1 ''behavior_events'' < max_bigint" using assms(1,2) by (simp_all add: s1_def)
  have cl: "claimEvent (env_EventID (ap_Envelope a)) consumer s = (Inr True, s1)"
    using False assms(1) by (simp add: claimEvent_def mapErr_def or_no_rows_def execE_def s1_def)
  have fk: "behavior_fk_ok a (tables s1)" "rebuild_targets_ok a (tables s1)"
    using assms(3,4) by (simp_all add: s1_def behavior_fk_ok_def user_exists_def note_exists_def comment_exists_def rebuild_targets_ok_def)
  obtain s2 where rb: "recordBehavior c a s1 = (Inr (), s2)" "faults s2 = []" "\<exists>B. tables s2 = (tables s1)\<lparr>behavior_events := B\<rparr>"
    using recordBehavior_runs [OF s1(1,2) fk(1), of c] by blast
  then have fk2: "behavior_fk_ok a (tables s2)" "rebuild_targets_ok a (tables s2)" "processed_events (tables s2) = processed_events (tables s1)"
    using fk by (auto simp: behavior_fk_ok_def user_exists_def note_exists_def comment_exists_def rebuild_targets_ok_def)
  obtain s3 where rd: "rebuildDerivedCounters a s2 = (Inr (), s3)" "faults s3 = []" "processed_events (tables s3) = processed_events (tables s1)"
    using rebuildDerivedCounters_runs [OF rb(2) fk2(1,2)] fk2(3) by auto
  have "ApplyEvent c consumer a s = (Inr False, s3)"
    using assms(1) cl rb(1) rd(1,2) by (simp add: ApplyEvent_def in_tx_nil ApplyEvent_body_def bindE_def)
  then show ?thesis using rd(3) by (auto simp: is_processed_def exists_row_def s1_def)
qed

theorem ApplyEvent_succeeds_witness:
  "\<exists>b s'. ApplyEvent sample_ctx ''w'' sample_app sample_db1 = (Inr b, s') \<and> is_processed (tables s') (o_event_id sample_event) ''w''"
  using ApplyEvent_succeeds [of sample_db1 sample_app sample_ctx "''w''"]
  by (simp add: sample_app_id sample_app_def app_of_def envelope_of_def event_of_row_def sample_event_type sample_db1_def sample_db_def
      sample_payload_def max_bigint_def behavior_fk_ok_def sample_store_def exists_row_def user_exists_def note_exists_def
      sample_note_row_def new_note_row_def sample_input_def rebuild_targets_ok_def comment_change_types_def note_rebuild_types_def)

end
