(* ===== verification/Consumer_Props.thy ===== *)
theory Consumer_Props
  imports Delivery_Props
begin

text \<open>
  What the consumer does with a delivered message and what the publisher reports as sent.
\<close>

section \<open>Consuming\<close>

lemma event_application_env:
  "event_application env = Inr a \<Longrightarrow> env_EventID (ap_Envelope a) = env_EventID env"
  by (auto simp: event_application_def Let_def split: if_splits option.splits)

lemma Process_marks:
  assumes "Process ops c consumer env (s, rd) = (Inr b, (s', rd'))"
  shows "is_processed (tables s') (env_EventID env) consumer"
  using assms
proof (cases rule: Process_cases)
  case (applied a b' s1)
  then show ?thesis using ApplyEvent_outcomes [OF applied(2)] event_application_env [OF applied(1)] by auto
qed auto

lemma handleFailure_settled:
  assumes "settled outcome (handleFailure ec cfg c marshals outcome msg env ty d e)"
  shows "dead_lettered outcome (handleFailure ec cfg c marshals outcome msg env ty d e) (jm_Data msg)"
  using assms
  by (auto simp: handleFailure_def settled_def dead_lettered_def PublishDeadLetter_def dead_letter_msg_def split: if_splits)

lemmas handleMessage_unfold = handleMessage_def Let_def

definition sample_raw :: "EventEnvelope js_msg" where
  "sample_raw = \<lparr>jm_Subject = ''events.note.created'', jm_Data = envelope_of (event_of_row sample_event), jm_NumDelivered = Some 1\<rparr>"

definition sample_consumer :: EventConsumer where
  "sample_consumer = NewEventConsumer 0 0 0 0 0"

definition sample_nats :: NATSConfig where
  "sample_nats = \<lparr>nats_SubjectPrefix = ''events'', nats_DLQSubjectPrefix = ''dlq'', nats_Stream = ''S'', nats_DLQStream = ''D''\<rparr>"

text \<open>
  C38. No message is lost: when the server has accepted an acknowledgement or a termination for a
  message, the event it carries is marked as processed in the database, or a dead letter with the
  complete original message was accepted.
\<close>

theorem handleMessage_no_loss:
  assumes "handleMessage ec cfg ops c consumer unmarshal marshals outcome msg (s, rd) = (actions, (s', rd'))"
    and "settled outcome actions"
  shows "snd (unmarshal (jm_Data msg)) \<and> is_processed (tables s') (env_EventID (fst (unmarshal (jm_Data msg)))) consumer \<or>
    dead_lettered outcome actions (jm_Data msg)"
proof (cases "unmarshal (jm_Data msg)")
  case (Pair env decoded)
  show ?thesis
  proof (cases decoded)
    case False
    then show ?thesis using assms Pair handleFailure_settled by (fastforce simp: handleMessage_unfold)
  next
    case True
    obtain r s1 rd1 where p: "Process ops c consumer env (s, rd) = (r, (s1, rd1))" by (metis prod.exhaust)
    show ?thesis
    proof (cases r)
      case (Inl e)
      then show ?thesis using assms Pair True p handleFailure_settled by (fastforce simp: handleMessage_unfold)
    next
      case (Inr b)
      then have "is_processed (tables s') (env_EventID env) consumer"
        using Process_marks [of ops c consumer env s rd b s1 rd1] p assms(1) Pair True by (simp add: handleMessage_unfold)
      then show ?thesis using Pair True by simp
    qed
  qed
qed

lemma sample_handle:
  "\<exists>s. handleMessage sample_consumer sample_nats (None :: unit redis_ops option) sample_ctx ''w'' (\<lambda>e. (e, True)) (\<lambda>_. True) (\<lambda>_. True)
     sample_raw (sample_db1, ()) = ([DoubleAck], (s, ()))"
  using sample_process by (auto simp: handleMessage_unfold sample_raw_def)

theorem handleMessage_no_loss_witness:
  "\<exists>s. handleMessage sample_consumer sample_nats (None :: unit redis_ops option) sample_ctx ''w'' (\<lambda>e. (e, True)) (\<lambda>_. True) (\<lambda>_. True)
     sample_raw (sample_db1, ()) = ([DoubleAck], (s, ())) \<and> is_processed (tables s) (o_event_id sample_event) ''w''"
proof -
  obtain s where s: "handleMessage sample_consumer sample_nats (None :: unit redis_ops option) sample_ctx ''w'' (\<lambda>e. (e, True)) (\<lambda>_. True)
     (\<lambda>_. True) sample_raw (sample_db1, ()) = ([DoubleAck], (s, ()))"
    using sample_handle by blast
  from handleMessage_no_loss [OF s] s show ?thesis
    by (auto simp: settled_def dead_lettered_def sample_raw_def envelope_of_def event_of_row_def)
qed

text \<open>
  A message that cannot be processed is retried with the configured delay while deliveries remain,
  and on the last delivery it is moved to the dead letter stream and terminated, if its bytes can be
  embedded in the dead letter and the broker accepts both calls.
\<close>

theorem handleMessage_bounded_retries:
  assumes "unmarshal (jm_Data msg) = (env, decoded)" "\<not> decoded \<or> Process ops c consumer env st = (Inl err, st')"
    and "handleMessage ec cfg ops c consumer unmarshal marshals (\<lambda>_. True) msg st = (actions, st'')"
    and "deliveries = (case jm_NumDelivered msg of None \<Rightarrow> 1 | Some n \<Rightarrow> n)"
  shows "(deliveries < ec_maxDeliver ec \<longrightarrow> actions = [NakWithDelay (ec_nakDelay ec)]) \<and>
    (ec_maxDeliver ec \<le> deliveries \<and> marshals (jm_Data msg) \<longrightarrow>
       settled (\<lambda>_. True) actions \<and> dead_lettered (\<lambda>_. True) actions (jm_Data msg))"
proof -
  obtain ty e where a: "actions = handleFailure ec cfg c marshals (\<lambda>_. True) msg env ty deliveries e"
    using assms by (cases decoded) (auto simp: handleMessage_unfold)
  show ?thesis
    unfolding a by (simp add: handleFailure_def PublishDeadLetter_def settled_def dead_lettered_def dead_letter_msg_def)
qed

theorem handleMessage_bounded_retries_witness:
  "fst (handleMessage sample_consumer sample_nats (None :: unit redis_ops option) sample_ctx ''w''
     (\<lambda>e. (e, False)) (\<lambda>_. True) (\<lambda>_. True) sample_raw (sample_db1, ())) = [NakWithDelay (2 * second)]"
  using handleMessage_bounded_retries [of "\<lambda>e. (e, False)" sample_raw "jm_Data sample_raw" False "None :: unit redis_ops option" sample_ctx "''w''"
      "(sample_db1, ())" _ _ sample_consumer sample_nats "\<lambda>_. True", OF _ _ prod.collapse [symmetric] refl]
  by (simp add: sample_raw_def sample_consumer_def NewEventConsumer_def positiveOr_def durationOr_def second_def)



end
