(* ===== verification/Publisher_Props.thy ===== *)
theory Publisher_Props
  imports Consumer_Props
begin

text \<open>The publisher: what it locks, what it may mark as sent, and when it retries.\<close>

section \<open>Locking\<close>

lemma event_of_row_simps [simp]:
  "ID (event_of_row r) = o_id r" "EventType (event_of_row r) = o_event_type r" "EventID (event_of_row r) = o_event_id r"
  "CreatedAt (event_of_row r) = o_created_at r"
  by (simp_all add: event_of_row_def)

definition lock_row :: "int \<Rightarrow> outbox_row \<Rightarrow> outbox_row" where
  "lock_row now r = r\<lparr>o_status := ''processing'', o_updated_at := now\<rparr>"

lemma lock_row_simps [simp]: "o_id (lock_row now r) = o_id r" "o_created_at (lock_row now r) = o_created_at r" "o_status (lock_row now r) = ''processing''"
  by (simp_all add: lock_row_def)

lemma LockPending_Inr:
  assumes "LockPending order locked limit s = (Inr es, s')" "distinct (map o_id (outbox_events (tables s)))"
  obtains ids where "ids = picked locked (lock_limit limit) (db_now s) (outbox_events (tables s))"
    "es = order (map event_of_row (map (lock_row (db_now s)) (filter (\<lambda>r. o_id r \<in> set ids) (outbox_events (tables s)))))"
    "outbox_events (tables s') = map (\<lambda>r. if o_id r \<in> set ids then lock_row (db_now s) r else r) (outbox_events (tables s))"
    "\<exists>rows. tables s' = (tables s)\<lparr>outbox_events := rows\<rparr>" "seqs s' = seqs s" "db_now s' = db_now s"
proof -
  define ids where "ids = picked locked (lock_limit limit) (db_now s) (outbox_events (tables s))"
  have f: "filter (\<lambda>r. o_id r \<in> set ids) (update_where (\<lambda>r. o_id r \<in> set ids) (lock_row now) rows) =
      map (lock_row now) (filter (\<lambda>r. o_id r \<in> set ids) rows)" for now rows
    by (induction rows) (auto simp: update_where_def)
  have l: "(\<lambda>r. r\<lparr>o_status := ''processing'', o_updated_at := now\<rparr>) = lock_row now" for now
    by (simp add: lock_row_def fun_eq_iff)
  have u: "update_where (\<lambda>r. o_id r \<in> set ids) (lock_row now) rows = map (\<lambda>r. if o_id r \<in> set ids then lock_row now r else r) rows" for now rows
    by (simp add: update_where_def)
  from assms(1) have "es = order (map event_of_row (map (lock_row (db_now s)) (filter (\<lambda>r. o_id r \<in> set ids) (outbox_events (tables s)))))"
    "s' = (stmt_next s)\<lparr>tables := (tables s)\<lparr>outbox_events :=
       map (\<lambda>r. if o_id r \<in> set ids then lock_row (db_now s) r else r) (outbox_events (tables s))\<rparr>\<rparr>"
    unfolding LockPending_def execE_Inr Let_def ids_def [symmetric] l by (auto simp: f) (simp add: u)
  then show thesis by (intro that [OF ids_def]) auto
qed

lemma sort_key_take_le:
  assumes "x \<in> set (take n (sort_key k xs))" "y \<in> set (drop n (sort_key k xs))"
  shows "k x \<le> k y"
proof -
  have "sorted (map k (take n (sort_key k xs) @ drop n (sort_key k xs)))" by simp
  then show ?thesis using assms unfolding map_append sorted_append by auto
qed

lemma picked_set:
  fixes locked :: "int list" and now :: int
  assumes "distinct (map o_id rows)"
  defines "cand \<equiv> filter (\<lambda>r. pickable now r \<and> o_id r \<notin> set locked) rows"
  shows "length (picked locked n now rows) = min n (length cand)"
    "distinct (picked locked n now rows)"
    "r \<in> set rows \<Longrightarrow> o_id r \<in> set (picked locked n now rows) \<longleftrightarrow> r \<in> set (take n (sort_key (\<lambda>r. (o_created_at r, o_id r)) cand))"
proof -
  let ?S = "sort_key (\<lambda>r. (o_created_at r, o_id r)) cand"
  have p: "picked locked n now rows = map o_id (take n ?S)"
    by (simp add: picked_def cand_def take_map)
  have d: "distinct (map o_id ?S)"
  proof -
    have "mset (map o_id ?S) = mset (map o_id cand)" by simp
    moreover have "distinct (map o_id cand)" unfolding cand_def using assms(1) by (simp add: distinct_map_filter)
    ultimately show ?thesis by (metis mset_eq_imp_distinct_iff)
  qed
  show "length (picked locked n now rows) = min n (length cand)" by (simp add: p)
  show "distinct (picked locked n now rows)" unfolding p take_map [symmetric] using d by (rule distinct_take)
  show "o_id r \<in> set (picked locked n now rows) \<longleftrightarrow> r \<in> set (take n ?S)" if r: "r \<in> set rows"
  proof
    assume "o_id r \<in> set (picked locked n now rows)"
    then obtain r' where r': "r' \<in> set (take n ?S)" "o_id r' = o_id r" by (auto simp: p)
    then have "r' \<in> set rows" using in_set_takeD [OF r'(1)] by (simp add: cand_def)
    then have "r' = r" using assms(1) r r'(2) by (simp add: distinct_map inj_on_def)
    then show "r \<in> set (take n ?S)" using r' by simp
  qed (simp add: p)
qed

lemma locked_rows:
  assumes "distinct (map o_id rows)"
  shows "length (filter (\<lambda>r. o_id r \<in> set (picked locked n now rows)) rows) =
      min n (length (filter (\<lambda>r. pickable now r \<and> o_id r \<notin> set locked) rows))"
    and "set (filter (\<lambda>r. o_id r \<in> set (picked locked n now rows)) rows) =
      set (take n (sort_key (\<lambda>r. (o_created_at r, o_id r)) (filter (\<lambda>r. pickable now r \<and> o_id r \<notin> set locked) rows)))"
proof -
  let ?ids = "picked locked n now rows" and ?cand = "filter (\<lambda>r. pickable now r \<and> o_id r \<notin> set locked) rows"
  let ?L = "filter (\<lambda>r. o_id r \<in> set ?ids) rows"
  have "set (map o_id ?L) = set ?ids"
  proof -
    have "set ?ids \<subseteq> o_id ` set rows"
      by (auto simp: picked_def dest!: in_set_takeD)
    then show ?thesis by auto
  qed
  moreover have "distinct (map o_id ?L)" using assms by (simp add: distinct_map_filter)
  ultimately have "length (map o_id ?L) = length ?ids"
    using picked_set(2) [OF assms] by (metis distinct_card)
  then show "length ?L = min n (length ?cand)" using picked_set(1) [OF assms] by simp
  show "set ?L = set (take n (sort_key (\<lambda>r. (o_created_at r, o_id r)) ?cand))"
  proof (intro equalityI subsetI)
    fix r assume "r \<in> set (take n (sort_key (\<lambda>r. (o_created_at r, o_id r)) ?cand))"
    moreover from this have "r \<in> set rows" by (auto dest: in_set_takeD)
    ultimately show "r \<in> set ?L" using picked_set(3) [OF assms] by simp
  qed (use picked_set(3) [OF assms] in auto)
qed

text \<open>
  Locking a batch. The publisher obtains at most the requested number of events (50 when the
  limit is not positive), no event twice, only events that are pending or due for a retry and not locked
  by another publisher; exactly these rows become \<open>processing\<close>. An eligible event is left behind only
  when the batch is full and everything in it is older.
\<close>

theorem LockPending_spec:
  assumes "LockPending order locked limit s = (Inr es, s')" "store_ok (seqs s) (tables s)" "\<And>xs. mset (order xs) = mset xs"
  shows "length es \<le> lock_limit limit \<and> distinct (map ID es) \<and>
    (\<forall>e\<in>set es. \<exists>r\<in>set (outbox_events (tables s)). e = event_of_row (lock_row (db_now s) r) \<and> pickable (db_now s) r \<and> o_id r \<notin> set locked) \<and>
    outbox_events (tables s') = map (\<lambda>r. if o_id r \<in> ID ` set es then lock_row (db_now s) r else r) (outbox_events (tables s)) \<and>
    (\<forall>r\<in>set (outbox_events (tables s)). pickable (db_now s) r \<and> o_id r \<notin> set locked \<and> o_id r \<notin> ID ` set es \<longrightarrow>
       length es = lock_limit limit \<and> (\<forall>e\<in>set es. (CreatedAt e, ID e) \<le> (o_created_at r, o_id r)))"
proof -
  let ?rows = "outbox_events (tables s)" and ?now = "db_now s" and ?n = "lock_limit limit"
  let ?cand = "filter (\<lambda>r. pickable ?now r \<and> o_id r \<notin> set locked) ?rows"
  let ?S = "sort_key (\<lambda>r. (o_created_at r, o_id r)) ?cand" and ?ids = "picked locked ?n ?now ?rows"
  let ?L = "filter (\<lambda>r. o_id r \<in> set ?ids) ?rows"
  have d: "distinct (map o_id ?rows)" using assms(2) by (simp add: store_ok_def serial_ok_def)
  have es: "mset es = mset (map event_of_row (map (lock_row ?now) ?L))"
    and out: "outbox_events (tables s') = map (\<lambda>r. if o_id r \<in> set ?ids then lock_row ?now r else r) ?rows"
    by (rule LockPending_Inr [OF assms(1) d]; simp add: assms(3))+
  have len: "length es = min ?n (length ?cand)"
    using mset_eq_length [OF es] locked_rows(1) [OF d] by simp
  have set_es: "set es = (\<lambda>r. event_of_row (lock_row ?now r)) ` set ?L"
    using mset_eq_setD [OF es] by auto
  have L: "set ?L = set (take ?n ?S)" by (rule locked_rows(2) [OF d])
  have ids: "ID ` set es = o_id ` set ?L" unfolding set_es by (auto simp: image_image)
  have mem: "o_id r \<in> ID ` set es \<longleftrightarrow> o_id r \<in> set ?ids" if "r \<in> set ?rows" for r
    unfolding ids using that d by (auto simp: distinct_map inj_on_def)
  have "distinct (map ID es)"
  proof -
    have "mset (map ID es) = mset (map o_id ?L)"
      using arg_cong [OF es, of "image_mset ID"] by (simp add: multiset.map_comp comp_def)
    then show ?thesis using d by (metis distinct_map_filter mset_eq_imp_distinct_iff)
  qed
  moreover have "\<exists>r\<in>set ?rows. e = event_of_row (lock_row ?now r) \<and> pickable ?now r \<and> o_id r \<notin> set locked" if "e \<in> set es" for e
    using that unfolding set_es L by (auto dest!: in_set_takeD)
  moreover have "length es = ?n \<and> (\<forall>e\<in>set es. (CreatedAt e, ID e) \<le> (o_created_at r, o_id r))"
    if r: "r \<in> set ?rows" "pickable ?now r" "o_id r \<notin> set locked" "o_id r \<notin> ID ` set es" for r
  proof -
    have "r \<notin> set (take ?n ?S)" using r(4) mem [OF r(1)] picked_set(3) [OF d r(1)] by simp
    moreover have "r \<in> set (take ?n ?S @ drop ?n ?S)" using r(1-3) by simp
    ultimately have dr: "r \<in> set (drop ?n ?S)" unfolding set_append by blast
    then have "?n < length ?S" by (cases "length ?S \<le> ?n") simp_all
    then have "length es = ?n" using len by simp
    moreover have "(CreatedAt e, ID e) \<le> (o_created_at r, o_id r)" if e: "e \<in> set es" for e
    proof -
      obtain r' where r': "r' \<in> set (take ?n ?S)" "e = event_of_row (lock_row ?now r')" using e unfolding set_es L by blast
      show ?thesis using sort_key_take_le [OF r'(1) dr] r'(2) by simp
    qed
    ultimately show ?thesis by blast
  qed
  moreover have "outbox_events (tables s') = map (\<lambda>r. if o_id r \<in> ID ` set es then lock_row ?now r else r) ?rows"
    unfolding out by (rule map_cong [OF refl]) (simp only: mem)
  moreover have "length es \<le> ?n" using len by simp
  ultimately show ?thesis by blast
qed

lemma sample_db1_ok: "store_ok (seqs sample_db1) (tables sample_db1)"
  by (simp add: store_ok_def serial_ok_def sample_db1_def sample_db_def sample_store_def sample_note_row_def new_note_row_def
      sample_event_def new_outbox_row_def max_bigint_def)

theorem LockPending_spec_witness:
  "\<exists>s'. LockPending id [] 10 sample_db1 = (Inr [event_of_row (lock_row 100 sample_event)], s') \<and>
     outbox_events (tables s') = [lock_row 100 sample_event]"
proof -
  have p: "pickable 100 sample_event" by (simp add: pickable_def sample_event_def new_outbox_row_def)
  obtain s' where run: "LockPending id [] 10 sample_db1 = (Inr [event_of_row (lock_row 100 sample_event)], s')"
    using p by (simp add: LockPending_def execE_def sample_db1_def sample_db_def Let_def picked_def lock_limit_def update_where_def lock_row_def)
  show ?thesis
    using LockPending_spec [OF run sample_db1_ok] run by (simp add: sample_db1_def sample_db_def)
qed

section \<open>Publishing\<close>

text \<open>The message the broker has to hold before the row may be called sent.\<close>

definition event_msg :: "NATSConfig \<Rightarrow> (nat \<Rightarrow> nat) \<Rightarrow> Event \<Rightarrow> EventEnvelope nats_msg" where
  "event_msg cfg low e =
     \<lparr>msg_Subject = eventSubject cfg low (EventType e), msg_Data = envelope_of e, msg_ID = EventID e, msg_ExpectStream = nats_Stream cfg\<rparr>"

definition sent_ok :: "NATSConfig \<Rightarrow> (nat \<Rightarrow> nat) \<Rightarrow> EventEnvelope nats_msg set \<Rightarrow> store \<Rightarrow> bool" where
  "sent_ok cfg low accepted t =
     (\<forall>row\<in>set (outbox_events t). o_status row = ''sent'' \<longrightarrow> event_msg cfg low (event_of_row row) \<in> accepted)"

lemma sent_okD: "sent_ok cfg low A t \<Longrightarrow> A \<subseteq> B \<Longrightarrow> sent_ok cfg low B t"
  by (auto simp: sent_ok_def)

lemma updateE_tables: "updateE f s = (r, s') \<Longrightarrow> tables s' = tables s \<or> tables s' = f (db_now s) (tables s)"
  unfolding updateE_def by (erule stmt_cases) auto

text \<open>The event in hand describes every row with its id.\<close>

definition in_hand :: "NATSConfig \<Rightarrow> (nat \<Rightarrow> nat) \<Rightarrow> store \<Rightarrow> Event \<Rightarrow> bool" where
  "in_hand cfg low t e = (\<forall>row\<in>set (outbox_events t). o_id row = ID e \<longrightarrow> event_msg cfg low (event_of_row row) = event_msg cfg low e)"

definition mark_outcome :: "NATSConfig \<Rightarrow> (nat \<Rightarrow> nat) \<Rightarrow> int \<Rightarrow> bool \<Rightarrow> store \<Rightarrow> store \<Rightarrow> bool" where
  "mark_outcome cfg low i sent t t' = (\<forall>row'\<in>set (outbox_events t'). \<exists>row\<in>set (outbox_events t). o_id row' = o_id row \<and>
     event_msg cfg low (event_of_row row') = event_msg cfg low (event_of_row row) \<and>
     (o_status row' = ''sent'' \<longrightarrow> o_status row = ''sent'' \<or> sent \<and> o_id row = i))"

lemma mark_outcome_update:
  assumes "\<And>now r. o_id (f now r) = o_id r \<and> event_msg cfg low (event_of_row (f now r)) = event_msg cfg low (event_of_row r) \<and>
      (o_status (f now r) = ''sent'' \<longrightarrow> sent)"
    and "updateE (\<lambda>now t. t\<lparr>outbox_events := update_where (\<lambda>r. o_id r = i) (f now) (outbox_events t)\<rparr>) s = (r, s')"
  shows "mark_outcome cfg low i sent (tables s) (tables s')"
  using updateE_tables [OF assms(2)] assms(1) by (auto simp: mark_outcome_def update_where_set) force+

lemma mark_outcomes:
  "MarkSent i s = (r, s') \<Longrightarrow> mark_outcome cfg low i True (tables s) (tables s')"
  "MarkRetry i k at err s = (r, s') \<Longrightarrow> mark_outcome cfg low i False (tables s) (tables s')"
  "MarkFailed i k err s = (r, s') \<Longrightarrow> mark_outcome cfg low i False (tables s) (tables s')"
  unfolding MarkSent_def MarkRetry_def MarkFailed_def
  by (erule mark_outcome_update [rotated]; simp add: event_msg_def envelope_of_def event_of_row_def)+

lemma PublishEvent_msg: "PublishEvent cfg low publish_msg e b = (r, b') \<Longrightarrow> \<exists>r'. publish_msg (event_msg cfg low e) b = (r', b') \<and> (r = Inr u \<longrightarrow> r' = Inr u)"
  by (auto simp: PublishEvent_def mapErr_def event_msg_def split: prod.splits sum.splits)

lemma publish_one_outcome:
  assumes run: "publish_one p publish wall e (s, b) = (r, (s', b'))"
  obtains r1 where "r = Inr ()" "publish e b = (r1, b')" "mark_outcome cfg low (ID e) (\<exists>u. r1 = Inr u) (tables s) (tables s')"
proof -
  obtain r1 b1 where p: "publish e b = (r1, b1)" by (cases "publish e b")
  define m where "m = (case r1 of Inl err \<Rightarrow>
       (let nextRetry = RetryCount e + 1 in
        if nextRetry \<ge> maxRetries p then MarkFailed (ID e) nextRetry (error_text err)
        else MarkRetry (ID e) nextRetry (wall e + retryDelay nextRetry) (error_text err))
     | Inr _ \<Rightarrow> MarkSent (ID e))"
  obtain r2 s2 where m: "m s = (r2, s2)" by (cases "m s")
  have "r = Inr () \<and> s' = s2 \<and> b' = b1"
    using run p m
    by (auto simp: publish_one_def m_def bindE_def catchE_def on_db_def on_redis_def Let_def split: sum.splits if_splits)
  moreover have "mark_outcome cfg low (ID e) (\<exists>u. r1 = Inr u) (tables s) (tables s2)"
    using m mark_outcomes by (auto simp: m_def Let_def split: sum.splits if_splits)
  ultimately show thesis using that p by blast
qed

lemma in_hand_mark: "mark_outcome cfg low i b t t' \<Longrightarrow> in_hand cfg low t e \<Longrightarrow> in_hand cfg low t' e"
  unfolding mark_outcome_def in_hand_def by metis

lemma sent_ok_mark:
  assumes "mark_outcome cfg low (ID e) b t t'" "in_hand cfg low t e" "sent_ok cfg low A t" "b \<longrightarrow> event_msg cfg low e \<in> A"
  shows "sent_ok cfg low A t'"
  using assms unfolding mark_outcome_def in_hand_def sent_ok_def by metis

lemma publish_loop_sent:
  assumes acc: "\<And>m b u b'. publish_msg m b = (Inr u, b') \<Longrightarrow> m \<in> log b'"
    and mono: "\<And>m b r b'. publish_msg m b = (r, b') \<Longrightarrow> log b \<subseteq> log b'"
  shows "publish_loop p (PublishEvent cfg low publish_msg) wall es (s, b) = (r, (s', b')) \<Longrightarrow>
    \<forall>e\<in>set es. in_hand cfg low (tables s) e \<Longrightarrow> sent_ok cfg low (log b) (tables s) \<Longrightarrow> sent_ok cfg low (log b') (tables s')"
proof (induction es arbitrary: s b)
  case (Cons e es)
  obtain r1 s1 b1 where 1: "publish_one p (PublishEvent cfg low publish_msg) wall e (s, b) = (r1, (s1, b1))" by (metis prod.exhaust)
  from 1 obtain r2 where 2: "r1 = Inr ()" "PublishEvent cfg low publish_msg e b = (r2, b1)"
    "mark_outcome cfg low (ID e) (\<exists>u. r2 = Inr u) (tables s) (tables s1)"
    by (rule publish_one_outcome)
  obtain r3 where 3: "publish_msg (event_msg cfg low e) b = (r3, b1)" "r2 = Inr () \<longrightarrow> r3 = Inr ()"
    using PublishEvent_msg [OF 2(2)] by blast
  have "sent_ok cfg low (log b1) (tables s)" using sent_okD [OF Cons.prems(3) mono [OF 3(1)]] .
  then have "sent_ok cfg low (log b1) (tables s1)"
    by (rule sent_ok_mark [OF 2(3), rotated]) (use Cons.prems(2) 3 acc in auto)
  moreover have "\<forall>e\<in>set es. in_hand cfg low (tables s1) e"
    using Cons.prems(2) in_hand_mark [OF 2(3)] by simp
  moreover have "publish_loop p (PublishEvent cfg low publish_msg) wall es (s1, b1) = (r, (s', b'))"
    using Cons.prems(1) 1 2(1) by (simp add: bindE_def)
  ultimately show ?case using Cons.IH by blast
qed simp

lemma execE_tables: "execE f s = (r, s') \<Longrightarrow> tables s' = tables s \<or> (\<exists>x t. f (db_now s) (tables s) = Inr (x, t) \<and> tables s' = t)"
  unfolding execE_def by (erule stmt_cases) (auto split: sum.splits)

lemma in_hand_locked:
  assumes "LockPending order locked limit s = (Inr es, s')" "store_ok (seqs s) (tables s)" "\<And>xs. mset (order xs) = mset xs" "e \<in> set es"
  shows "in_hand cfg low (tables s') e"
proof -
  have d: "distinct (map o_id (outbox_events (tables s)))" using assms(2) by (simp add: store_ok_def serial_ok_def)
  obtain ids where i: "es = order (map event_of_row (map (lock_row (db_now s)) (filter (\<lambda>r. o_id r \<in> set ids) (outbox_events (tables s)))))"
    "outbox_events (tables s') = map (\<lambda>r. if o_id r \<in> set ids then lock_row (db_now s) r else r) (outbox_events (tables s))"
    by (rule LockPending_Inr [OF assms(1) d])
  have "set es = set (map event_of_row (map (lock_row (db_now s)) (filter (\<lambda>r. o_id r \<in> set ids) (outbox_events (tables s)))))"
    unfolding i(1) by (rule mset_eq_setD [OF assms(3)])
  then obtain r0 where r0: "r0 \<in> set (outbox_events (tables s))" "o_id r0 \<in> set ids" "e = event_of_row (lock_row (db_now s) r0)"
    using assms(4) by auto
  have "row = lock_row (db_now s) r0" if row: "row \<in> set (outbox_events (tables s'))" "o_id row = ID e" for row
  proof -
    obtain r1 where r1: "r1 \<in> set (outbox_events (tables s))" "row = (if o_id r1 \<in> set ids then lock_row (db_now s) r1 else r1)"
      using row(1) by (auto simp: i(2))
    then have "o_id r1 = o_id r0" using row(2) r0(3) by (auto split: if_splits)
    then have "r1 = r0" using d r1(1) r0(1) by (simp add: distinct_map inj_on_def)
    then show ?thesis using r1(2) r0(2) by simp
  qed
  then show ?thesis using r0(3) by (auto simp: in_hand_def)
qed

lemma LockPending_sent:
  assumes "LockPending order locked limit s = (r, s')" "sent_ok cfg low A (tables s)"
  shows "sent_ok cfg low A (tables s')"
  using execE_tables [OF assms(1) [unfolded LockPending_def]] assms(2)
  by (auto simp: sent_ok_def Let_def update_where_set)

lemma processBatch_sent:
  assumes acc: "\<And>m b u b'. publish_msg m b = (Inr u, b') \<Longrightarrow> m \<in> log b'"
    and mono: "\<And>m b r b'. publish_msg m b = (r, b') \<Longrightarrow> log b \<subseteq> log b'"
    and ok: "store_ok (seqs s) (tables s)" "\<And>xs. mset (order xs) = mset xs"
    and run: "processBatch p (PublishEvent cfg low publish_msg) wall order locked (s, b) = (r, (s', b'))"
    and sent: "sent_ok cfg low (log b) (tables s)"
  shows "sent_ok cfg low (log b') (tables s')"
proof -
  obtain r1 s1 where l: "LockPending order locked (batchSize p) s = (r1, s1)" by (cases "LockPending order locked (batchSize p) s")
  note s1 = LockPending_sent [OF l sent]
  show ?thesis
  proof (cases r1)
    case (Inl e)
    then show ?thesis using run l s1 by (simp add: processBatch_def bindE_def on_db_def)
  next
    case (Inr es)
    then have "publish_loop p (PublishEvent cfg low publish_msg) wall es (s1, b) = (r, (s', b'))"
      using run l by (simp add: processBatch_def bindE_def on_db_def)
    then show ?thesis
      by (rule publish_loop_sent [where publish_msg = publish_msg and log = log, rotated 2])
        (use acc mono s1 in_hand_locked [OF l [unfolded Inr] ok] in blast)+
  qed
qed

lemma maintenance_sent:
  assumes "maintenance now p s = (r, p', s')" "sent_ok cfg low A (tables s)" "store_ok (seqs s) (tables s)"
  shows "sent_ok cfg low A (tables s') \<and> store_ok (seqs s') (tables s')"
proof -
  have rd: "tables s' = tables s \<and> seqs s' = seqs s" if "bindE CountByStatus (\<lambda>_. ignore OldestUnsentAge) s = (r, s')" for s r s'
    using that unfolding CountByStatus_def OldestUnsentAge_def ignore_def bindE_def selectE_def execE_def stmt_def
    by (auto simp: Let_def split: list.splits fault.splits)
  have rec: "sent_ok cfg low A (tables s1) \<and> store_ok (seqs s1) (tables s1)"
    if r: "ignore (RecoverStaleProcessing before) s = (r1, s1)" for before r1 s1
  proof -
    obtain r2 where x: "RecoverStaleProcessing before s = (r2, s1)"
      using r by (auto simp: ignore_def bindE_def split: prod.splits sum.splits)
    have "sent_ok cfg low A (tables s1)"
      using execE_tables [OF x [unfolded RecoverStaleProcessing_def]] assms(2) by (auto simp: sent_ok_def Let_def update_where_set)
    moreover have k: "keeps store_ok (RecoverStaleProcessing before)" by (intro keys_statements)
    ultimately show ?thesis using keepsD [OF k assms(3) x] by blast
  qed
  show ?thesis
    using assms rd rec unfolding maintenance_def Let_def
    by (fastforce split: prod.splits sum.splits if_splits)
qed

text \<open>
  C39. At-least-once publication. If \<open>sent\<close> rows were accepted by the broker before a round of the
  publisher, they are after it, whatever fails in between: an event is marked \<open>sent\<close> only when the
  broker has accepted the message built from exactly that event. Relied on: the broker keeps what it
  accepted, and a successful publication means acceptance.
\<close>

theorem publisher_round_sent:
  assumes "\<And>m b u b'. publish_msg m b = (Inr u, b') \<Longrightarrow> m \<in> log b'"
    and "\<And>m b r b'. publish_msg m b = (r, b') \<Longrightarrow> log b \<subseteq> log b'"
    and "\<And>xs. mset (order xs) = mset xs" "store_ok (seqs s) (tables s)"
    and "publisher_round (PublishEvent cfg low publish_msg) wall order locked now p (s, b) = (p', (s', b'))"
    and "sent_ok cfg low (log b) (tables s)"
  shows "sent_ok cfg low (log b') (tables s')"
proof -
  obtain r1 p1 s1 where m: "maintenance now p s = (r1, p1, s1)" by (metis prod.exhaust)
  note s1 = maintenance_sent [OF m assms(6,4)]
  obtain r2 s2 b2 where pb: "processBatch p1 (PublishEvent cfg low publish_msg) wall order locked (s1, b) = (r2, (s2, b2))"
    by (metis prod.exhaust)
  have "sent_ok cfg low (log b2) (tables s2)"
    by (rule processBatch_sent [where publish_msg = publish_msg and log = log, OF assms(1,2) _ assms(3) pb]) (use s1 in auto)
  then show ?thesis
    using assms(5) m pb s1 by (auto simp: publisher_round_def split: sum.splits if_splits)
qed

text \<open>A broker that accepts everything, for the application of the theorem to a concrete round.\<close>

definition sample_broker :: "EventEnvelope nats_msg \<Rightarrow> (EventEnvelope nats_msg list, unit) sem" where
  "sample_broker m b = (Inr (), b @ [m])"

theorem publisher_round_sent_witness:
  "\<exists>p s b. publisher_round (PublishEvent sample_nats id sample_broker) (\<lambda>_. 0) id [] 0 (NewOutboxPublisher 0 0 0 0 0 0) (sample_db1, []) = (p, (s, b)) \<and>
     sent_ok sample_nats id (set b) (tables s)"
proof -
  obtain p s b where run: "publisher_round (PublishEvent sample_nats id sample_broker) (\<lambda>_. 0) id [] 0 (NewOutboxPublisher 0 0 0 0 0 0) (sample_db1, []) = (p, (s, b))"
    by (metis prod.exhaust)
  have "sent_ok sample_nats id (set []) (tables sample_db1)"
    by (simp add: sent_ok_def sample_db1_def sample_event_def new_outbox_row_def)
  from publisher_round_sent [where publish_msg = sample_broker and log = set, OF _ _ _ sample_db1_ok run this]
  have "sent_ok sample_nats id (set b) (tables s)" by (auto simp: sample_broker_def)
  then show ?thesis using run by blast
qed

text \<open>
  The retry delay is between one second and one minute and never shrinks with the number of
  attempts.
\<close>

theorem retryDelay_bounds:
  "second \<le> retryDelay k \<and> retryDelay k \<le> minute \<and> (k \<le> k' \<longrightarrow> retryDelay k \<le> retryDelay k')"
proof -
  define x y :: int where "x = 2 ^ nat (min k 6)" and "y = 2 ^ nat (min k' 6)"
  have "1 \<le> x" "1 \<le> y" "k \<le> k' \<longrightarrow> x \<le> y" unfolding x_def y_def by (auto intro!: power_increasing)
  then show ?thesis
    by (auto simp: retryDelay_def second_def minute_def Let_def x_def [symmetric] y_def [symmetric])
qed

theorem retryDelay_bounds_witness: "retryDelay 3 \<le> retryDelay 5"
  using retryDelay_bounds [of 3 5] by simp

text \<open>
  A failed publication. With a database that answers, the row of the event is scheduled again
  with its attempt counted and a due time at most a minute after the attempt, as long as attempts
  remain; otherwise it ends as \<open>failed\<close>. Rows of other events do not change.
\<close>

theorem publish_one_failure:
  assumes "publish e b = (Inl err, b')" "faults s = []" "publish_one p publish wall e (s, b) = (r, (s', b''))"
  shows "outbox_events (tables s') = map (\<lambda>row. if o_id row \<noteq> ID e then row
      else if RetryCount e + 1 \<ge> maxRetries p
      then row\<lparr>o_status := ''failed'', o_retry_count := RetryCount e + 1, o_last_error := Some (truncateError (error_text err)), o_updated_at := db_now s\<rparr>
      else row\<lparr>o_status := ''retry'', o_retry_count := RetryCount e + 1, o_next_retry_at := wall e + retryDelay (RetryCount e + 1),
        o_last_error := Some (truncateError (error_text err)), o_updated_at := db_now s\<rparr>) (outbox_events (tables s)) \<and>
    wall e + retryDelay (RetryCount e + 1) \<le> wall e + minute"
proof -
  have d: "retryDelay k \<le> minute" for k by (auto simp: retryDelay_def second_def minute_def Let_def)
  show ?thesis
    using assms d
    by (auto simp: publish_one_def bindE_def catchE_def on_db_def on_redis_def MarkFailed_def MarkRetry_def update_where_def Let_def split: if_splits)
qed

theorem publish_one_failure_witness:
  "outbox_events (tables (fst (snd (publish_one (NewOutboxPublisher 0 1 0 0 0 0) (\<lambda>e b. (Inl (ErrorString ''x''), b)) (\<lambda>_. 0)
      (event_of_row sample_event) (sample_db1, ()))))) =
   [sample_event\<lparr>o_status := ''failed'', o_retry_count := 1, o_last_error := Some (truncateError ''x''), o_updated_at := 100\<rparr>]"
proof -
  obtain r s b where run: "publish_one (NewOutboxPublisher 0 1 0 0 0 0) (\<lambda>e b. (Inl (ErrorString ''x''), b)) (\<lambda>_. 0)
      (event_of_row sample_event) (sample_db1, ()) = (r, (s, b))"
    by (metis prod.exhaust)
  have "RetryCount (event_of_row sample_event) = 0" by (simp add: event_of_row_def sample_event_def new_outbox_row_def)
  then show ?thesis
    unfolding run using publish_one_failure [OF _ _ run]
    by (simp add: NewOutboxPublisher_def positiveOr_def sample_db1_def sample_db_def)
qed

section \<open>Subjects\<close>

lemma replace_invalid_chars: "list_all subject_char (replace_invalid b s)"
  by (induction b s rule: replace_invalid.induct) (auto simp: subject_char_def byte_def Let_def)

lemma clean_token_chars: "list_all subject_char (clean_token part)"
proof -
  have "set (trim_char c s) \<subseteq> set s" for c s
    by (auto simp: trim_char_def dest!: set_dropWhileD)
  then show ?thesis using replace_invalid_chars [of False "TrimSpace part"] unfolding clean_token_def list_all_iff by blast
qed

text \<open>
  Every event type, whatever bytes it consists of, is published under a valid NATS subject: the
  suffix is a non-empty sequence of non-empty tokens over letters, digits, underscore and hyphen,
  joined by dots; no wildcard, blank or empty token can occur.
\<close>

theorem subjectSuffix_tokens:
  "subjectSuffix low eventType = join_dot (subject_tokens low eventType) \<and> subject_tokens low eventType \<noteq> [] \<and>
   list_all (\<lambda>tok. tok \<noteq> [] \<and> list_all subject_char tok) (subject_tokens low eventType)"
proof -
  have "list_all (\<lambda>tok. tok \<noteq> [] \<and> list_all subject_char tok) (filter (\<lambda>p. p \<noteq> []) (map clean_token parts))" for parts
    using clean_token_chars by (auto simp: list_all_iff)
  moreover have "list_all subject_char ''unknown''" by (simp add: subject_char_def byte_def)
  ultimately show ?thesis by (simp add: subjectSuffix_def subject_tokens_def Let_def)
qed

end
