(* ===== verification/Service_Props.thy ===== *)
theory Service_Props
  imports Note_Service Publisher_Props
begin

text \<open>Properties of the service of the community domain: permissions, visibility, pagination, cursors.\<close>

section \<open>Steps that only read the database\<close>

lemma db_reads_more:
  "db_reads (liftE x)" "db_reads (throwE e)" "db_reads m \<Longrightarrow> db_reads (swallow m)" "db_reads (guardE b e)"
  "db_reads (on_db (mapErr f (selectE g)))" "db_reads m \<Longrightarrow> db_reads (mapErr f m)"
  "(\<And>x. db_reads (k1 x)) \<Longrightarrow> db_reads k2 \<Longrightarrow> db_reads (case y of None \<Rightarrow> k2 | Some x \<Rightarrow> k1 x)"
proof -
  show "db_reads (on_db (mapErr f (selectE g)))"
    unfolding db_reads_def on_db_def mapErr_def selectE_def stmt_def
    by (auto split: prod.splits sum.splits list.splits fault.splits)
  show "db_reads m \<Longrightarrow> db_reads (swallow m)"
    unfolding swallow_def by (intro db_reads_rules)
  show "db_reads m \<Longrightarrow> db_reads (mapErr f m)"
    unfolding db_reads_def mapErr_def by (fastforce split: prod.splits sum.splits)
qed (auto simp: db_reads_def liftE_def guardE_def split: option.splits)

lemmas reads_intros = db_reads_rules db_reads_more

text \<open>Running a chain whose first step only reads.\<close>

lemma bind_reads:
  assumes "bindE m k (s, rd) = (r, (s', rd'))" "db_reads m"
  obtains (stop) e where "r = Inl e" "m (s, rd) = (Inl e, (s', rd'))" "tables s' = tables s"
  | (go) x s1 rd1 where "m (s, rd) = (Inr x, (s1, rd1))" "tables s1 = tables s" "seqs s1 = seqs s" "k x (s1, rd1) = (r, (s', rd'))"
proof -
  obtain y s1 rd1 where m: "m (s, rd) = (y, (s1, rd1))" by (metis prod.exhaust)
  have "tables s1 = tables s \<and> seqs s1 = seqs s" using assms(2) m unfolding db_reads_def by blast
  then show thesis
    using assms(1) m that by (cases y) (auto simp: bindE_def)
qed

lemma db_reads_tables: "db_reads m \<Longrightarrow> m (s, rd) = (r, (s', rd')) \<Longrightarrow> tables s' = tables s"
  unfolding db_reads_def by blast

lemma reads_caches:
  "db_reads (getNoteCache sv i)" "db_reads (setNoteCache sv n)" "db_reads (svc_invalidateNoteCache sv i)"
  "db_reads (getCommentFirstPageCache sv i)" "db_reads (setCommentFirstPageCache sv i p)" "db_reads (invalidateCommentFirstPage sv i)"
  unfolding getNoteCache_def setNoteCache_def svc_invalidateNoteCache_def getCommentFirstPageCache_def
    setCommentFirstPageCache_def invalidateCommentFirstPage_def
  by (intro reads_intros)+

lemma reads_zrem_each: "db_reads (zrem_each ops m ks)"
  by (induction ks) (auto simp del: returnE_run intro!: reads_intros)

lemma reads_removeNoteRanking: "db_reads (removeNoteRanking sv i)"
  unfolding removeNoteRanking_def removeNoteFromCategoryRankings_def by (intro reads_intros reads_zrem_each)

lemma reads_CanModify: "db_reads (CanModifyNote raw current)" "db_reads (CanModifyComment raw current)"
  unfolding CanModifyNote_def CanModifyComment_def GetNoteOwner_def GetCommentOwner_def
  by (intro reads_intros)+

lemma reads_active_user: "db_reads (active_user current)"
  unfolding active_user_def by (intro reads_intros)

lemma active_user_Inr: "active_user current st = (Inr u, st') \<longleftrightarrow> 0 < cu_ID current \<and> cu_Status current = ''active'' \<and> st' = st"
  by (auto simp: active_user_def)

lemma guardE_Inr: "guardE b e st = (Inr u, st') \<longleftrightarrow> \<not> b \<and> st' = st"
  by (auto simp: guardE_def)

lemma liftE_Inr: "liftE x st = (Inr y, st') \<longleftrightarrow> x = Inr y \<and> st' = st"
  by (auto simp: liftE_def)

lemma on_db_Inr: "on_db m (s, rd) = (Inr x, (s', rd')) \<longleftrightarrow> m s = (Inr x, s') \<and> rd' = rd"
  by (auto simp: on_db_def split: prod.splits)

lemma bindE_wm: "bindE m k (s, rd) = (Inr y, (s', rd')) \<longleftrightarrow> (\<exists>x s1 rd1. m (s, rd) = (Inr x, (s1, rd1)) \<and> k x (s1, rd1) = (Inr y, (s', rd')))"
  by (auto simp: bindE_Inr)

lemmas wm_Inr = bindE_wm on_db_Inr liftE_Inr guardE_Inr active_user_Inr

definition may_modify_note :: "CurrentUser \<Rightarrow> string \<Rightarrow> store \<Rightarrow> bool" where
  "may_modify_note current raw t = (cu_Role current = ''admin'' \<or> (\<exists>i n. parseID ''note_id'' raw = Inr i \<and>
     find (\<lambda>n. n_id n = i) (all_notes t) = Some n \<and> n_author_id n = cu_ID current))"

definition may_modify_comment :: "CurrentUser \<Rightarrow> string \<Rightarrow> store \<Rightarrow> bool" where
  "may_modify_comment current raw t = (cu_Role current = ''admin'' \<or> (\<exists>i k. parseID ''comment_id'' raw = Inr i \<and>
     find (\<lambda>c. c_id c = i \<and> c_status c = 1) (note_comments t) = Some k \<and> c_user_id k = cu_ID current))"

lemma CanModifyNote_True:
  "CanModifyNote raw current (s, rd) = (Inr True, st) \<Longrightarrow> may_modify_note current raw (tables s)"
  by (cases st) (auto simp: CanModifyNote_def wm_Inr GetNoteOwner_def query_row_Inr may_modify_note_def split: if_splits)

lemma CanModifyComment_True:
  "CanModifyComment raw current (s, rd) = (Inr True, st) \<Longrightarrow> may_modify_comment current raw (tables s)"
  by (cases st) (auto simp: CanModifyComment_def wm_Inr GetCommentOwner_def query_row_Inr may_modify_comment_def split: if_splits)

section \<open>Permissions\<close>

text \<open>
  \<open>guarded A P m\<close>: started where \<open>A\<close> holds, \<open>m\<close> changes the tables only where \<open>P\<close> holds. A chain of reading
  steps collects facts until they imply \<open>P\<close>; what follows may then do anything.
\<close>

definition guarded :: "(store \<Rightarrow> bool) \<Rightarrow> (store \<Rightarrow> bool) \<Rightarrow> ('r, 'a) wm \<Rightarrow> bool" where
  "guarded A P m = (\<forall>s rd r s' rd'. A (tables s) \<longrightarrow> m (s, rd) = (r, (s', rd')) \<longrightarrow> tables s' \<noteq> tables s \<longrightarrow> P (tables s))"

lemma guardedD: "guarded A P m \<Longrightarrow> A (tables s) \<Longrightarrow> m (s, rd) = (r, (s', rd')) \<Longrightarrow> tables s' \<noteq> tables s \<Longrightarrow> P (tables s)"
  unfolding guarded_def by blast

lemma guarded_reached: "(\<And>t. A t \<Longrightarrow> P t) \<Longrightarrow> guarded A P m"
  unfolding guarded_def by blast

lemma guarded_reads: "db_reads m \<Longrightarrow> guarded A P m"
  unfolding guarded_def db_reads_def by blast

lemma guarded_step:
  assumes "db_reads m" "\<And>s rd x st. A (tables s) \<Longrightarrow> m (s, rd) = (Inr x, st) \<Longrightarrow> Q x (tables s)" "\<And>x. guarded (Q x) P (k x)"
  shows "guarded A P (bindE m k)"
  unfolding guarded_def
proof (intro allI impI)
  fix s rd r s' rd'
  assume "A (tables s)" and run: "bindE m k (s, rd) = (r, (s', rd'))" and "tables s' \<noteq> tables s"
  from run assms(1) show "P (tables s)"
  proof (cases rule: bind_reads)
    case (go x s1 rd1)
    then show ?thesis
      using guardedD [OF assms(3), of x s1] assms(2) [OF \<open>A (tables s)\<close> go(1)] \<open>tables s' \<noteq> tables s\<close> by simp
  qed (use \<open>tables s' \<noteq> tables s\<close> in simp)
qed

lemma guarded_skip: "db_reads m \<Longrightarrow> (\<And>x. guarded A P (k x)) \<Longrightarrow> guarded A P (bindE m k)"
  by (rule guarded_step [where Q = "\<lambda>_. A"]) auto

definition active_current :: "CurrentUser \<Rightarrow> bool" where
  "active_current current = (0 < cu_ID current \<and> cu_Status current = ''active'')"

lemma guarded_active:
  assumes "guarded (\<lambda>t. active_current current) P (k ())"
  shows "guarded A P (bindE (active_user current) k)"
  by (rule guarded_step [where Q = "\<lambda>_ _. active_current current"])
    (use assms reads_active_user in \<open>auto simp: active_user_Inr active_current_def\<close>)

lemma guarded_guardE:
  assumes "\<not> b \<Longrightarrow> guarded A P (k ())"
  shows "guarded A P (bindE (guardE b e) k)"
proof (cases b)
  case True
  then have "bindE (guardE b e) k = throwE e" by (auto simp: bindE_def guardE_def)
  then show ?thesis by (simp only: guarded_reads [OF db_reads_more(2)])
next
  case False
  then have "bindE (guardE b e) k = k ()" by (auto simp: bindE_def guardE_def)
  then show ?thesis using assms False by simp
qed

lemma guarded_CanModifyNote:
  assumes "\<And>x. guarded (\<lambda>t. A t \<and> may_modify_note current raw t) P (k x)"
  shows "guarded A P (bindE (CanModifyNote raw current) (\<lambda>allowed. bindE (guardE (\<not> allowed) e) k))"
proof (rule guarded_step [where Q = "\<lambda>allowed t. A t \<and> (allowed \<longrightarrow> may_modify_note current raw t)"])
  show "guarded (\<lambda>t. A t \<and> (x \<longrightarrow> may_modify_note current raw t)) P (bindE (guardE (\<not> x) e) k)" for x
    by (rule guarded_guardE) (use assms in simp)
  show "A (tables s) \<and> (x \<longrightarrow> may_modify_note current raw (tables s))"
    if "A (tables s)" "CanModifyNote raw current (s, rd) = (Inr x, st)" for s rd x st
    using that CanModifyNote_True [of raw current s rd st] by (cases x) auto
qed (rule reads_CanModify)

lemma guarded_CanModifyComment:
  assumes "\<And>x. guarded (\<lambda>t. A t \<and> may_modify_comment current raw t) P (k x)"
  shows "guarded A P (bindE (CanModifyComment raw current) (\<lambda>allowed. bindE (guardE (\<not> allowed) e) k))"
proof (rule guarded_step [where Q = "\<lambda>allowed t. A t \<and> (allowed \<longrightarrow> may_modify_comment current raw t)"])
  show "guarded (\<lambda>t. A t \<and> (x \<longrightarrow> may_modify_comment current raw t)) P (bindE (guardE (\<not> x) e) k)" for x
    by (rule guarded_guardE) (use assms in simp)
  show "A (tables s) \<and> (x \<longrightarrow> may_modify_comment current raw (tables s))"
    if "A (tables s)" "CanModifyComment raw current (s, rd) = (Inr x, st)" for s rd x st
    using that CanModifyComment_True [of raw current s rd st] by (cases x) auto
qed (rule reads_CanModify)

text \<open>
  C36. A note is changed or deleted, and a comment deleted, through the service only by an active user
  who is an administrator or the author; in every other case, and after every error before the write,
  the tables stay as they are.
\<close>

theorem service_modifications_guarded:
  "guarded (\<lambda>_. True) (\<lambda>t. active_current current \<and> may_modify_note current (un_NoteID input) t) (svc_UpdateNote sv c current input) \<and>
   guarded (\<lambda>_. True) (\<lambda>t. active_current current \<and> may_modify_note current raw t) (DeleteNote sv c current raw) \<and>
   guarded (\<lambda>_. True) (\<lambda>t. active_current current \<and> may_modify_comment current raw t) (DeleteComment sv c current raw)"
  unfolding svc_UpdateNote_def DeleteNote_def DeleteComment_def
  by (intro conjI; (rule guarded_skip, rule db_reads_more, rule guarded_active)?;
      (intro guarded_skip db_reads_more guarded_CanModifyNote guarded_CanModifyComment guarded_reached; simp)?)

definition can_write_project :: "store \<Rightarrow> int \<Rightarrow> int \<Rightarrow> bool" where
  "can_write_project t p u =
     (exists_row (\<lambda>r. p_id r = p \<and> p_status r = ''active'') (projects t) \<and>
      exists_row (\<lambda>m. m_project_id m = p \<and> m_user_id m = u \<and> m_status m = ''active'' \<and> m_role m \<in> set [''owner'', ''admin'', ''member''])
        (project_members t))"

lemma CanWriteProject_Inr: "CanWriteProject p u s = (Inr b, s') \<Longrightarrow> b = can_write_project (tables s) p u"
  by (simp add: CanWriteProject_def can_write_project_def selectE_Inr)

lemma reads_CanWriteProject: "db_reads (on_db (CanWriteProject p u))"
  unfolding CanWriteProject_def by (intro reads_intros)

text \<open>What the service lets through to the repository.\<close>

definition creatable :: "CreateNoteInput \<Rightarrow> bool" where
  "creatable input =
     (0 < cn_AuthorID input \<and> 0 < cn_ProjectID input \<and> cn_Visibility input \<in> {''public'', ''project''} \<and>
      cn_Title input \<noteq> [] \<and> length (cn_Title input) \<le> 255 \<and> cn_Body input \<noteq> [] \<and> length (cn_Body input) \<le> 20000 \<and>
      cn_Category input \<noteq> [] \<and> length (cn_Category input) \<le> 64)"

lemma create_error_None: "create_error (normalize_create low input) = None \<Longrightarrow> creatable (normalize_create low input)"
  by (auto simp: create_error_def creatable_def normalize_create_def Let_def split: if_splits)

text \<open>
  Notes are created only with valid, bounded texts, a known visibility and a positive project,
  and only by an author who is an active member (not a mere viewer) of an active project; otherwise
  nothing is written.
\<close>

theorem svc_CreateNote_guarded:
  "guarded (\<lambda>_. True) (\<lambda>t. creatable (normalize_create (sv_lower sv) input) \<and>
     can_write_project t (cn_ProjectID (normalize_create (sv_lower sv) input)) (cn_AuthorID input)) (svc_CreateNote sv c input)"
proof (cases "create_error (normalize_create (sv_lower sv) input)")
  case None
  let ?i = "normalize_create (sv_lower sv) input"
  have a: "cn_AuthorID ?i = cn_AuthorID input" by (simp add: normalize_create_def Let_def)
  show ?thesis
    unfolding svc_CreateNote_def Let_def None option.case
  proof (rule guarded_step [where Q = "\<lambda>b t. b = can_write_project t (cn_ProjectID ?i) (cn_AuthorID ?i)"])
    show "b = can_write_project (tables s) (cn_ProjectID ?i) (cn_AuthorID ?i)"
      if "on_db (CanWriteProject (cn_ProjectID ?i) (cn_AuthorID ?i)) (s, rd) = (Inr b, st)" for s rd b and st :: "store db \<times> 'a"
      using that by (cases st) (auto simp: on_db_Inr CanWriteProject_Inr)
    show "guarded (\<lambda>t. b = can_write_project t (cn_ProjectID ?i) (cn_AuthorID ?i))
        (\<lambda>t. creatable ?i \<and> can_write_project t (cn_ProjectID ?i) (cn_AuthorID input)) (bindE (guardE (\<not> b) ErrForbidden) k)" for b k
      by (rule guarded_guardE, rule guarded_reached) (use create_error_None [OF None] in \<open>auto simp: a\<close>)
  qed (rule reads_CanWriteProject)
next
  case (Some e)
  then show ?thesis unfolding svc_CreateNote_def Let_def by (simp del: throwE_run add: guarded_reads db_reads_more)
qed

section \<open>Visibility\<close>

lemma page_authors:
  assumes "attachAuthors page s = (Inr page', s')"
  shows "tables s' = tables s \<and> map n_id page' = map n_id page \<and> map n_created_at page' = map n_created_at page"
  using assms by (auto simp: attachAuthors_def selectE_Inr split: if_splits option.splits)

lemma page_viewer:
  assumes "attachViewerStates v page s = (Inr page', s')"
  shows "tables s' = tables s \<and> map n_id page' = map n_id page \<and> map n_created_at page' = map n_created_at page"
  using assms by (auto simp: attachViewerStates_def selectE_Inr split: if_splits)

text \<open>The rows a list request selects, in the order it shows them.\<close>

definition listed_rows :: "(string \<Rightarrow> string \<Rightarrow> bool) \<Rightarrow> ListNotesInput \<Rightarrow> keysetCursor \<Rightarrow> store \<Rightarrow> note_row list" where
  "listed_rows ilike input cursor t = newest_first (filter (\<lambda>n. list_filter ilike input t n \<and>
     (ln_Cursor input = [] \<or> before_cursor cursor (n_created_at n, n_id n))) (all_notes t))"

lemma scanNote_keys [simp]: "n_id (scanNote (summary_row r)) = n_id r" "n_created_at (scanNote (summary_row r)) = n_created_at r"
  by (simp_all add: scanNote_def summary_row_def note_row.extend_def)

lemma ListNotes_Inr:
  assumes "ListNotes ilike input cursor s = (Inr (items, hasMore), s')" "0 \<le> ln_Limit input"
  shows "tables s' = tables s" "hasMore \<longleftrightarrow> nat (ln_Limit input) < length (listed_rows ilike input cursor (tables s))"
    "map n_id items = map n_id (take (nat (ln_Limit input)) (listed_rows ilike input cursor (tables s)))"
    "map n_created_at items = map n_created_at (take (nat (ln_Limit input)) (listed_rows ilike input cursor (tables s)))"
proof -
  let ?L = "listed_rows ilike input cursor (tables s)" and ?k = "nat (ln_Limit input)"
  let ?ns = "map (scanNote \<circ> summary_row) (take (nat (ln_Limit input + 1)) ?L)"
  let ?page = "if int (length ?ns) > ln_Limit input then take ?k ?ns else ?ns"
  have n: "nat (ln_Limit input + 1) = Suc ?k" using assms(2) by simp
  obtain p1 s1 where a: "attachAuthors ?page (stmt_next s) = (Inr p1, s1)"
    and v: "attachViewerStates (ln_ViewerID input) p1 s1 = (Inr items, s')"
    and h: "hasMore = (int (length ?ns) > ln_Limit input)"
    using assms(1) unfolding ListNotes_def Let_def bindE_Inr mapErr_Inr selectE_Inr returnE_run prod.inject sum.inject listed_rows_def
    by blast
  have m: "hasMore \<longleftrightarrow> ?k < length ?L" unfolding h using assms(2) by (auto simp: n)
  have p: "?page = map (scanNote \<circ> summary_row) (take ?k ?L)"
    using assms(2) by (auto simp: n take_map min_def take_all_iff)
  note a' = page_authors [OF a] and v' = page_viewer [OF v]
  show "tables s' = tables s" using a' v' by simp
  show "hasMore \<longleftrightarrow> ?k < length ?L" by (rule m)
  show "map n_id items = map n_id (take ?k ?L)" "map n_created_at items = map n_created_at (take ?k ?L)"
    using a' v' unfolding p by (simp_all add: comp_def)
qed

lemma clamp_limit_bounds: "0 < d \<Longrightarrow> d \<le> m \<Longrightarrow> 0 < clamp_limit d m l \<and> clamp_limit d m l \<le> m"
  by (auto simp: clamp_limit_def Let_def)

lemma listed_rows_set:
  "r \<in> set (listed_rows ilike input cursor t) \<Longrightarrow> r \<in> set (all_notes t) \<and> n_status r = ''published'' \<and> readable t (ln_ViewerID input) r"
  by (auto simp: listed_rows_def newest_first_def list_filter_def)

end
