(* ===== verification/Paging_Props.thy ===== *)
theory Paging_Props
  imports Service_Props
begin

text \<open>Keyset pagination, cursors, and the cached first page of comments.\<close>

section \<open>Cursors\<close>

text \<open>
  A cursor the service hands out is read back as the position it was made from. Relied on: the
  JSON text of a cursor is not empty and is decoded to the same value.
\<close>

theorem cursor_roundtrip:
  assumes "cursor_json cd cursor \<noteq> []" "cursor_unjson cd (cursor_json cd cursor) = Some cursor"
    and "cur_CreatedAt cursor \<noteq> zero_time" "0 < cur_ID cursor"
  shows "decodeCursor cd (encodeCursor cd cursor) = Inr cursor \<and> encodeCursor cd cursor \<noteq> []"
  using assms by (simp add: decodeCursor_def encodeCursor_def DecodeString_EncodeToString EncodeToString_Nil)

text \<open>A codec for small runs: the two numbers in decimal, separated by a blank.\<close>

fun split_blank :: "string \<Rightarrow> string \<times> string" where
  "split_blank [] = ([], [])"
| "split_blank (c # cs) = (if c = CHR '' '' then ([], cs) else (let (a, b) = split_blank cs in (c # a, b)))"

definition sample_codecs :: codecs where
  "sample_codecs = \<lparr>note_json = (\<lambda>_. []), note_unjson = (\<lambda>_. None), page_json = (\<lambda>_. []), page_unjson = (\<lambda>_. None),
     cursor_json = (\<lambda>c. FormatInt (cur_CreatedAt c) @ '' '' @ FormatInt (cur_ID c)),
     cursor_unjson = (\<lambda>s. case split_blank s of (a, b) \<Rightarrow>
       (case (ParseInt64 a, ParseInt64 b) of (Some x, Some y) \<Rightarrow> Some \<lparr>cur_CreatedAt = x, cur_ID = y\<rparr> | _ \<Rightarrow> None))\<rparr>"

lemma split_blank_append: "CHR '' '' \<notin> set a \<Longrightarrow> split_blank (a @ CHR '' '' # b) = (a, b)"
  by (induction a) auto

lemma no_blank_FormatInt: "CHR '' '' \<notin> set (FormatInt i)"
  using FormatInt_chars [of "CHR '' ''" i] by (auto simp: byte_def)

lemma sample_cursor_codec:
  "in_int64 (cur_CreatedAt c) \<Longrightarrow> in_int64 (cur_ID c) \<Longrightarrow>
   cursor_json sample_codecs c \<noteq> [] \<and> cursor_unjson sample_codecs (cursor_json sample_codecs c) = Some c"
  by (simp add: sample_codecs_def split_blank_append no_blank_FormatInt ParseInt64_FormatInt)

theorem cursor_roundtrip_witness:
  "decodeCursor sample_codecs (encodeCursor sample_codecs \<lparr>cur_CreatedAt = 100, cur_ID = 7\<rparr>) = Inr \<lparr>cur_CreatedAt = 100, cur_ID = 7\<rparr>"
  using cursor_roundtrip [of sample_codecs "\<lparr>cur_CreatedAt = 100, cur_ID = 7\<rparr>"] sample_cursor_codec [of "\<lparr>cur_CreatedAt = 100, cur_ID = 7\<rparr>"]
  by (simp add: in_int64_def zero_time_def nanos_per_second_def)

section \<open>Keyset order\<close>

lemma filter_after:
  assumes "sorted (map f L)" "distinct (map f L)" "i < length L"
  shows "filter (\<lambda>x. f (L ! i) < f x) L = drop (Suc i) L"
proof -
  have st: "sorted_wrt (<) (map f L)" using assms(1,2) by (simp add: strict_sorted_iff)
  have "filter (\<lambda>x. f (L ! i) < f x) (take (Suc i) L) = []"
  proof -
    have "\<not> f (L ! i) < f x" if "x \<in> set (take (Suc i) L)" for x
    proof -
      obtain j where j: "j < Suc i" "x = L ! j" using \<open>x \<in> set (take (Suc i) L)\<close> assms(3) by (auto simp: in_set_conv_nth)
      then show ?thesis using sorted_nth_mono [OF assms(1), of j i] assms(3) by (simp add: not_less)
    qed
    then show ?thesis by (simp add: filter_empty_conv)
  qed
  moreover have "filter (\<lambda>x. f (L ! i) < f x) (drop (Suc i) L) = drop (Suc i) L"
  proof (rule filter_True, intro ballI)
    fix x assume "x \<in> set (drop (Suc i) L)"
    then obtain j where j: "j < length L - Suc i" "x = L ! (Suc i + j)" by (auto simp: in_set_conv_nth)
    then show "f (L ! i) < f x" using sorted_wrt_nth_less [OF st, of i "Suc i + j"] by simp
  qed
  ultimately show ?thesis by (metis append.left_neutral append_take_drop_id filter_append)
qed

definition row_key :: "note_row \<Rightarrow> int \<times> int" where
  "row_key n = (- n_created_at n, - n_id n)"

lemma before_cursor_key: "before_cursor \<lparr>cur_CreatedAt = n_created_at r, cur_ID = n_id r\<rparr> (n_created_at n, n_id n) \<longleftrightarrow> row_key r < row_key n"
  by (auto simp: before_cursor_def row_key_def less_prod_def)

lemma list_filter_cursor [simp]: "list_filter ilike (input\<lparr>ln_Cursor := c\<rparr>) t = list_filter ilike input t"
  by (simp add: list_filter_def fun_eq_iff)

lemma listed_rows_after:
  assumes d: "distinct (map n_id (all_notes t))" and L: "L = listed_rows ilike (input\<lparr>ln_Cursor := []\<rparr>) cur0 t" and i: "i < length L"
    and cur: "ln_Cursor input \<noteq> []"
  shows "listed_rows ilike input \<lparr>cur_CreatedAt = n_created_at (L ! i), cur_ID = n_id (L ! i)\<rparr> t = drop (Suc i) L"
proof -
  let ?F = "filter (list_filter ilike input t) (all_notes t)"
  have L': "L = sort_key row_key ?F" by (simp add: L listed_rows_def newest_first_def row_key_def [abs_def])
  have "distinct (map n_id ?F)" using d by (simp add: distinct_map_filter)
  then have "distinct (map row_key ?F)" by (auto simp: distinct_map inj_on_def row_key_def)
  then have dl: "distinct (map row_key L)"
    unfolding L' by (metis distinct_map distinct_sort set_sort)
  have "listed_rows ilike input \<lparr>cur_CreatedAt = n_created_at (L ! i), cur_ID = n_id (L ! i)\<rparr> t =
      sort_key row_key (filter (\<lambda>n. row_key (L ! i) < row_key n) ?F)"
    using cur by (simp add: listed_rows_def newest_first_def before_cursor_key row_key_def [abs_def, symmetric] conj_commute)
  also have "\<dots> = filter (\<lambda>n. row_key (L ! i) < row_key n) L"
    by (simp add: L' filter_sort)
  also have "\<dots> = drop (Suc i) L"
    by (rule filter_after [OF _ dl i]) (simp add: L')
  finally show ?thesis .
qed

section \<open>Walking through the pages\<close>

text \<open>Reads succeed and change nothing when the database answers.\<close>

definition reads_ok :: "'s \<Rightarrow> ('s, 'a) sem \<Rightarrow> bool" where
  "reads_ok s m = (\<exists>x. m s = (Inr x, s))"

lemma reads_ok_rules:
  "reads_ok s (returnE x)" "reads_ok s m \<Longrightarrow> (\<And>x. reads_ok s (k x)) \<Longrightarrow> reads_ok s (bindE m k)"
  "reads_ok s m \<Longrightarrow> reads_ok s (mapErr f m)" "reads_ok s m1 \<Longrightarrow> reads_ok s m2 \<Longrightarrow> reads_ok s (if b then m1 else m2)"
  by (auto simp: reads_ok_def bindE_def mapErr_def)

lemma reads_ok_selectE: "faults s = [] \<Longrightarrow> reads_ok s (selectE f)"
  by (simp add: reads_ok_def)

lemma ListNotes_runs:
  assumes "faults s = []"
  shows "\<exists>items hasMore. ListNotes ilike input cursor s = (Inr (items, hasMore), s)"
proof -
  have "reads_ok s (ListNotes ilike input cursor)"
    unfolding ListNotes_def Let_def attachAuthors_def attachViewerStates_def
    by (intro reads_ok_rules reads_ok_selectE assms)
  then show ?thesis by (auto simp: reads_ok_def)
qed

text \<open>The JSON text of a cursor is not empty and is decoded to the same value.\<close>

definition cursor_ok :: "codecs \<Rightarrow> keysetCursor \<Rightarrow> bool" where
  "cursor_ok cd c = (cursor_json cd c \<noteq> [] \<and> cursor_unjson cd (cursor_json cd c) = Some c)"

text \<open>What a client does that follows the cursors.\<close>

fun walk_notes :: "nat \<Rightarrow> 'r Service \<Rightarrow> ListNotesInput \<Rightarrow> ('r, Note list) wm" where
  "walk_notes 0 sv input = returnE []"
| "walk_notes (Suc k) sv input =
     bindE (svc_ListNotes sv input) (\<lambda>page.
     if np_NextCursor page = [] then returnE (np_Items page)
     else bindE (walk_notes k sv (input\<lparr>ln_Cursor := np_NextCursor page\<rparr>)) (\<lambda>rest. returnE (np_Items page @ rest)))"

text \<open>The request as the repository sees it.\<close>

definition norm_list :: "'r Service \<Rightarrow> ListNotesInput \<Rightarrow> ListNotesInput" where
  "norm_list sv input = input\<lparr>ln_Category := normalizeToken (sv_lower sv) (ln_Category input), ln_Query := TrimSpace (ln_Query input),
     ln_Limit := clamp_limit defaultNoteLimit maxNoteLimit (ln_Limit input)\<rparr>"

lemma norm_list_limit: "0 < ln_Limit (norm_list sv input)"
  using clamp_limit_bounds [of 20 100 "ln_Limit input"] by (simp add: norm_list_def defaultNoteLimit_def maxNoteLimit_def)

lemma norm_list_cursor [simp]: "ln_Cursor (norm_list sv input) = ln_Cursor input"
  "norm_list sv (input\<lparr>ln_Cursor := c\<rparr>) = (norm_list sv input)\<lparr>ln_Cursor := c\<rparr>"
  by (simp_all add: norm_list_def)

lemma svc_ListNotes_page:
  assumes f: "faults s = []" and cur: "decodeCursor (sv_codecs sv) (ln_Cursor input) = Inr cursor"
    and R: "R = listed_rows (sv_ilike sv) (norm_list sv input) cursor (tables s)" and l: "l = nat (ln_Limit (norm_list sv input))"
  shows "\<exists>items. svc_ListNotes sv input (s, rd) = (Inr \<lparr>np_Items = items, np_NextCursor =
      (if l < length R then encodeCursor (sv_codecs sv) \<lparr>cur_CreatedAt = n_created_at (R ! (l - 1)), cur_ID = n_id (R ! (l - 1))\<rparr> else [])\<rparr>, (s, rd)) \<and>
    map n_id items = map n_id (take l R)"
proof -
  have lp: "0 < l" using norm_list_limit [of sv input] l by simp
  obtain items hasMore where run: "ListNotes (sv_ilike sv) (norm_list sv input) cursor s = (Inr (items, hasMore), s)"
    using ListNotes_runs [OF f] by blast
  note p = ListNotes_Inr [OF run, folded R l]
  have nl: "0 \<le> ln_Limit (norm_list sv input)" using norm_list_limit [of sv input] by simp
  have ids: "map n_id items = map n_id (take l R)" "map n_created_at items = map n_created_at (take l R)"
    and more: "hasMore \<longleftrightarrow> l < length R" using p nl by auto
  have len: "length items = min l (length R)" using arg_cong [OF ids(1), of length] by simp
  have last: "n_id (last items) = n_id (R ! (l - 1)) \<and> n_created_at (last items) = n_created_at (R ! (l - 1))" "items \<noteq> []" if "l < length R"
  proof -
    have n: "items \<noteq> []" "take l R \<noteq> []" using len that lp by auto
    have "last (map n_id items) = last (map n_id (take l R))" "last (map n_created_at items) = last (map n_created_at (take l R))"
      using ids by simp_all
    moreover have "last (take l R) = R ! (l - 1)" using n(2) that lp by (simp add: last_conv_nth)
    ultimately show "n_id (last items) = n_id (R ! (l - 1)) \<and> n_created_at (last items) = n_created_at (R ! (l - 1))" "items \<noteq> []"
      using n by (simp_all add: last_map)
  qed
  have "svc_ListNotes sv input (s, rd) = (Inr \<lparr>np_Items = items, np_NextCursor =
      (if hasMore \<and> items \<noteq> [] then encodeNoteCursor (sv_codecs sv) (last items) else [])\<rparr>, (s, rd))"
    unfolding svc_ListNotes_def Let_def norm_list_def [symmetric]
    using cur run by (simp add: bindE_def liftE_def on_db_def)
  then show ?thesis using ids(1) more last by (cases "l < length R") (auto simp: encodeNoteCursor_def)
qed

lemma walk_from:
  assumes f: "faults s = []" and d: "distinct (map n_id (all_notes (tables s)))"
    and codec: "\<And>n. n \<in> set (all_notes (tables s)) \<Longrightarrow> cursor_ok (sv_codecs sv) \<lparr>cur_CreatedAt = n_created_at n, cur_ID = n_id n\<rparr>"
    and rows: "\<And>n. n \<in> set (all_notes (tables s)) \<Longrightarrow> n_created_at n \<noteq> zero_time \<and> 0 < n_id n"
    and L: "L = listed_rows (sv_ilike sv) ((norm_list sv input)\<lparr>ln_Cursor := []\<rparr>) cur0 (tables s)"
  shows "length L - i < k \<Longrightarrow> i \<le> length L \<Longrightarrow>
    ln_Cursor input = [] \<and> i = 0 \<or> 0 < i \<and> ln_Cursor input = encodeCursor (sv_codecs sv) \<lparr>cur_CreatedAt = n_created_at (L ! (i - 1)), cur_ID = n_id (L ! (i - 1))\<rparr> \<Longrightarrow>
    \<exists>ns. walk_notes k sv input (s, rd) = (Inr ns, (s, rd)) \<and> map n_id ns = map n_id (drop i L)"
  using L
proof (induction k arbitrary: i input)
  case (Suc k)
  let ?cd = "sv_codecs sv" and ?cur = "\<lambda>j. \<lparr>cur_CreatedAt = n_created_at (L ! j), cur_ID = n_id (L ! j)\<rparr>"
  have Lset: "L ! j \<in> set (all_notes (tables s))" if "j < length L" for j
    using listed_rows_set [of "L ! j"] nth_mem [OF that] by (simp add: Suc.prems(4))
  have rt: "decodeCursor ?cd (encodeCursor ?cd (?cur j)) = Inr (?cur j) \<and> encodeCursor ?cd (?cur j) \<noteq> []" if "j < length L" for j
    using codec [OF Lset [OF that]] rows [OF Lset [OF that]]
    by (simp add: cursor_ok_def decodeCursor_def encodeCursor_def DecodeString_EncodeToString EncodeToString_Nil)
  obtain cursor where c: "decodeCursor ?cd (ln_Cursor input) = Inr cursor"
    and R: "listed_rows (sv_ilike sv) (norm_list sv input) cursor (tables s) = drop i L"
  proof (cases "ln_Cursor input = []")
    case True
    have "i - 1 < length L" if "0 < i" using that Suc.prems(2) by simp
    then have i0: "i = 0" using Suc.prems(3) rt [of "i - 1"] True by auto
    have "listed_rows (sv_ilike sv) (norm_list sv input) \<lparr>cur_CreatedAt = zero_time, cur_ID = 0\<rparr> (tables s) = L"
      using True by (simp add: Suc.prems(4) listed_rows_def)
    then show thesis using that [of "\<lparr>cur_CreatedAt = zero_time, cur_ID = 0\<rparr>"] True i0 by (simp add: decodeCursor_def)
  next
    case False
    then have i: "0 < i" "ln_Cursor input = encodeCursor ?cd (?cur (i - 1))" "i - 1 < length L" using Suc.prems(2,3) by auto
    have "listed_rows (sv_ilike sv) (norm_list sv input) (?cur (i - 1)) (tables s) = drop (Suc (i - 1)) L"
      by (rule listed_rows_after [OF d Suc.prems(4) i(3)]) (use False in simp)
    then show thesis using that [of "?cur (i - 1)"] rt [OF i(3)] i by simp
  qed
  define l where "l = nat (ln_Limit (norm_list sv input))"
  have lp: "0 < l" using norm_list_limit [of sv input] by (simp add: l_def)
  obtain items where page: "svc_ListNotes sv input (s, rd) = (Inr \<lparr>np_Items = items, np_NextCursor =
      (if l < length (drop i L) then encodeCursor ?cd \<lparr>cur_CreatedAt = n_created_at (drop i L ! (l - 1)), cur_ID = n_id (drop i L ! (l - 1))\<rparr> else [])\<rparr>, (s, rd))"
    and ids: "map n_id items = map n_id (take l (drop i L))"
    using svc_ListNotes_page [OF f c R [symmetric] l_def] by blast
  show ?case
  proof (cases "l < length (drop i L)")
    case False
    then show ?thesis using page ids by (simp add: bindE_def)
  next
    case True
    then have j: "i + l - 1 < length L" "drop i L ! (l - 1) = L ! (i + l - 1)" using lp by auto
    have ne: "encodeCursor ?cd (?cur (i + l - 1)) \<noteq> []" using rt [OF j(1)] by simp
    have "\<exists>ns. walk_notes k sv (input\<lparr>ln_Cursor := encodeCursor ?cd (?cur (i + l - 1))\<rparr>) (s, rd) = (Inr ns, (s, rd)) \<and> map n_id ns = map n_id (drop (i + l) L)"
      by (rule Suc.IH) (use Suc.prems lp True j in auto)
    then obtain ns where "walk_notes k sv (input\<lparr>ln_Cursor := encodeCursor ?cd (?cur (i + l - 1))\<rparr>) (s, rd) = (Inr ns, (s, rd))"
      "map n_id ns = map n_id (drop (i + l) L)" by blast
    then show ?thesis
      using page ids True ne j by (simp add: bindE_def) (metis add.commute append_take_drop_id drop_drop map_append)
  qed
qed simp

text \<open>
  C37. Following the cursors visits everything exactly once and in order: with a database that answers
  and does not change, a client that starts without a cursor and follows \<open>next_cursor\<close> receives the notes
  that match and that it may see, newest first, none twice and none missing, and the walk ends. Relied on:
  the JSON text of a cursor is not empty and is decoded to the same value.
\<close>

theorem walk_notes_complete:
  assumes "faults s = []" "store_ok (seqs s) (tables s)" "ln_Cursor input = []"
    and "\<And>n. n \<in> set (all_notes (tables s)) \<Longrightarrow> cursor_ok (sv_codecs sv) \<lparr>cur_CreatedAt = n_created_at n, cur_ID = n_id n\<rparr>"
    and "\<And>n. n \<in> set (all_notes (tables s)) \<Longrightarrow> n_created_at n \<noteq> zero_time"
    and "length (all_notes (tables s)) < k"
  shows "\<exists>ns. walk_notes k sv input (s, rd) = (Inr ns, (s, rd)) \<and>
    map n_id ns = map n_id (newest_first (filter (list_filter (sv_ilike sv) (norm_list sv input) (tables s)) (all_notes (tables s))))"
proof -
  let ?L = "listed_rows (sv_ilike sv) ((norm_list sv input)\<lparr>ln_Cursor := []\<rparr>) \<lparr>cur_CreatedAt = 0, cur_ID = 0\<rparr> (tables s)"
  have L: "?L = newest_first (filter (list_filter (sv_ilike sv) (norm_list sv input) (tables s)) (all_notes (tables s)))"
    by (simp add: listed_rows_def)
  have d: "distinct (map n_id (all_notes (tables s)))" "\<And>n. n \<in> set (all_notes (tables s)) \<Longrightarrow> 0 < n_id n"
    using assms(2) by (auto simp: store_ok_def serial_ok_def)
  have "length ?L \<le> length (all_notes (tables s))" by (simp add: L newest_first_def)
  then have "length ?L - 0 < k" using assms(6) by simp
  note k = this
  have "\<exists>ns. walk_notes k sv input (s, rd) = (Inr ns, (s, rd)) \<and> map n_id ns = map n_id (drop 0 ?L)"
    by (rule walk_from [OF assms(1) d(1) assms(4) _ refl k]) (use assms(3,5) d(2) in auto)
  then show ?thesis by (simp add: L)
qed

definition sample_service :: "unit Service" where
  "sample_service = \<lparr>sv_redis = None, sv_codecs = sample_codecs, sv_lower = id, sv_ilike = (\<lambda>_ _. True)\<rparr>"

definition sample_list :: ListNotesInput where
  "sample_list = \<lparr>ln_Category = [], ln_Query = [], ln_ProjectID = 0, ln_ViewerID = 0, ln_Limit = 1, ln_Cursor = []\<rparr>"

theorem walk_notes_complete_witness:
  "\<exists>ns. walk_notes 2 sample_service sample_list (sample_db1, ()) = (Inr ns, (sample_db1, ())) \<and> map n_id ns = [1]"
proof -
  have "cursor_ok sample_codecs \<lparr>cur_CreatedAt = 100, cur_ID = 1\<rparr>"
    using sample_cursor_codec [of "\<lparr>cur_CreatedAt = 100, cur_ID = 1\<rparr>"] by (simp add: cursor_ok_def in_int64_def)
  then show ?thesis
    using walk_notes_complete [of sample_db1 sample_list sample_service 2 "()", OF _ sample_db1_ok]
    by (simp add: sample_service_def sample_list_def sample_db1_def sample_db_def sample_note_row_def new_note_row_def sample_input_def
        zero_time_def nanos_per_second_def list_filter_def norm_list_def normalizeToken_def ToLower_def readable_def newest_first_def Let_def)
qed

section \<open>What a list shows\<close>

text \<open>
  A list of notes shows a viewer only published notes that are public or belong to a project
  the viewer is an active member of, at most 100 of them.
\<close>

theorem svc_ListNotes_visible:
  assumes "svc_ListNotes sv input (s, rd) = (Inr page, (s', rd'))"
  shows "length (np_Items page) \<le> 100 \<and> (\<forall>n\<in>set (np_Items page). \<exists>row\<in>set (all_notes (tables s)).
    n_id row = n_id n \<and> n_status row = ''published'' \<and> readable (tables s) (ln_ViewerID input) row)"
proof -
  define input' where "input' = input\<lparr>ln_Category := normalizeToken (sv_lower sv) (ln_Category input), ln_Query := TrimSpace (ln_Query input),
            ln_Limit := clamp_limit defaultNoteLimit maxNoteLimit (ln_Limit input)\<rparr>"
  have l: "0 < ln_Limit input' \<and> ln_Limit input' \<le> 100" and v: "ln_ViewerID input' = ln_ViewerID input"
    using clamp_limit_bounds [of 20 100 "ln_Limit input"] by (simp_all add: input'_def defaultNoteLimit_def maxNoteLimit_def)
  obtain cursor items hasMore s1 where r: "ListNotes (sv_ilike sv) input' cursor s = (Inr (items, hasMore), s1)" "np_Items page = items"
    using assms by (auto simp: svc_ListNotes_def Let_def input'_def [symmetric] wm_Inr split: prod.splits)
  let ?R = "take (nat (ln_Limit input')) (listed_rows (sv_ilike sv) input' cursor (tables s))"
  have ids: "map n_id items = map n_id ?R" using ListNotes_Inr(3) [OF r(1)] l by simp
  have "nat (ln_Limit input') \<le> 100" using l by (simp add: nat_le_iff)
  then have "length items \<le> 100" using arg_cong [OF ids, of length] by (simp add: min.coboundedI2)
  moreover have "\<exists>row\<in>set (all_notes (tables s)). n_id row = n_id n \<and> n_status row = ''published'' \<and> readable (tables s) (ln_ViewerID input) row"
    if "n \<in> set items" for n
  proof -
    have "n_id n \<in> set (map n_id ?R)" unfolding ids [symmetric] using that by simp
    then obtain row where row: "row \<in> set ?R" "n_id row = n_id n" by auto
    then show ?thesis using listed_rows_set [OF in_set_takeD [OF row(1)]] v by auto
  qed
  ultimately show ?thesis using r(2) by simp
qed

theorem svc_ListNotes_visible_witness:
  "\<exists>page. svc_ListNotes sample_service sample_list (sample_db1, ()) = (Inr page, (sample_db1, ())) \<and> map n_id (np_Items page) = [1] \<and>
     length (np_Items page) \<le> 100"
proof -
  obtain page where run: "svc_ListNotes sample_service sample_list (sample_db1, ()) = (Inr page, (sample_db1, ()))"
    and ids: "map n_id (np_Items page) = [1]"
    using svc_ListNotes_page [of sample_db1 sample_service sample_list, OF _ _ refl refl]
    by (simp add: decodeCursor_def listed_rows_def sample_service_def sample_list_def sample_db1_def sample_db_def sample_note_row_def new_note_row_def
        sample_input_def list_filter_def norm_list_def normalizeToken_def ToLower_def readable_def newest_first_def Let_def clamp_limit_def
        defaultNoteLimit_def maxNoteLimit_def) auto
  have "length (np_Items page) \<le> 100" using svc_ListNotes_visible [OF run] by simp
  with run ids show ?thesis by (intro exI [of _ page] conjI)
qed

section \<open>The cached first page of comments\<close>

text \<open>
  The first page of comments is the same whether it is cut from the cached page of 100 comments or
  read directly with the requested limit, including the cursor of the next page.
\<close>

theorem limitCommentPage_direct:
  assumes "0 < limit" "limit \<le> 100" "faults s = []" "lc_Cursor input = []"
    and "ListComments noteID (input\<lparr>lc_Limit := 100\<rparr>) cursor s = (Inr (items, hasMore), s1)"
    and "ListComments noteID (input\<lparr>lc_Limit := limit\<rparr>) cursor s = (Inr (items', hasMore'), s2)"
  shows "limitCommentPage cd (buildCommentPage cd items hasMore) limit = buildCommentPage cd items' hasMore'"
proof -
  define R where "R = map scanComment (sort_key (\<lambda>c. (- c_created_at c, - c_id c)) (filter (\<lambda>c. c_note_id c = noteID \<and> c_status c = 1) (note_comments (tables s))))"
  have page: "items = take (nat l) R \<and> (hasMore \<longleftrightarrow> nat l < length R)"
    if "ListComments noteID (input\<lparr>lc_Limit := l\<rparr>) cursor s = (Inr (items, hasMore), s1)" "0 < l" for l items hasMore s1
  proof -
    have n: "nat (l + 1) = Suc (nat l)" using that(2) by simp
    show ?thesis
      using that assms(3,4)
      by (auto simp: ListComments_def bindE_def mapErr_def Let_def R_def n take_map [symmetric] min_def split: if_splits)
  qed
  have 1: "items = take 100 R" "hasMore \<longleftrightarrow> 100 < length R" using page [OF assms(5)] by auto
  have 2: "items' = take (nat limit) R" "hasMore' \<longleftrightarrow> nat limit < length R" using page [OF assms(6)] assms(1) by auto
  have l: "nat limit \<le> 100" "0 < nat limit" using assms(1,2) by (auto simp: nat_le_iff)
  show ?thesis
  proof (cases "length items \<le> nat limit")
    case True
    then have "length R \<le> nat limit \<or> nat limit = 100" using 1 l by auto
    then show ?thesis
      using True 1 2 l assms(1) by (auto simp: limitCommentPage_def buildCommentPage_def)
  next
    case False
    then have "nat limit < length R" "take (nat limit) items = take (nat limit) R" using 1 l by auto
    moreover have "\<not> int (length items) \<le> limit" using False by linarith
    moreover have "take (nat limit) R \<noteq> []" using calculation(1) l by auto
    ultimately show ?thesis
      using 2 assms(1) by (auto simp: limitCommentPage_def buildCommentPage_def Let_def)
  qed
qed

definition sample_comment :: "int \<Rightarrow> comment_row" where
  "sample_comment i = \<lparr>c_id = i, c_note_id = 1, c_user_id = 7, c_parent_id = 0, c_root_id = 0, c_content = ''c'', c_like_count = 0,
     c_reply_count = 0, c_sentiment = None, c_intent = None, c_topic_id = 0, c_status = 1, c_content_version = 1, c_deleted_at = None,
     c_created_at = 100 + i, c_updated_at = 100 + i\<rparr>"

definition sample_db_comments :: "store db" where
  "sample_db_comments = sample_db1\<lparr>tables := (tables sample_db1)\<lparr>note_comments := [sample_comment 1, sample_comment 2]\<rparr>\<rparr>"

definition sample_comments :: ListCommentsInput where
  "sample_comments = \<lparr>lc_NoteID = ''1'', lc_ViewerID = 0, lc_Limit = 1, lc_Cursor = []\<rparr>"

theorem limitCommentPage_direct_witness:
  "limitCommentPage sample_codecs (buildCommentPage sample_codecs [scanComment (sample_comment 2), scanComment (sample_comment 1)] False) 1 =
     buildCommentPage sample_codecs [scanComment (sample_comment 2)] True"
  by (rule limitCommentPage_direct [of 1 sample_db_comments sample_comments 1 "\<lparr>cur_CreatedAt = 0, cur_ID = 0\<rparr>" _ _ sample_db_comments _ _ sample_db_comments])
    (simp_all add: ListComments_def sample_db_comments_def sample_db1_def sample_db_def sample_comments_def sample_comment_def bindE_def mapErr_def)

end
