(* ===== verification/Auth_Props.thy ===== *)
theory Auth_Props
  imports Account_Calls Paging_Props
begin

text \<open>
  Sessions over time: the constraints of the account tables, the history of a session (it never comes back once it
  is revoked), and what follows for refresh tokens, logins and bearer tokens.
\<close>

section \<open>The account tables and their history\<close>

definition replaced_ok :: "session_row list \<Rightarrow> bool" where
  "replaced_ok rows = (\<forall>r\<in>set rows. s_replaced_by_session_id r \<noteq> None \<longrightarrow> s_revoked r)"

definition accounts_ok :: "store \<Rightarrow> bool" where
  "accounts_ok t =
     (distinct (map u_id (users t)) \<and> distinct (map u_username (users t)) \<and>
      distinct (map cr_user_id (user_credentials t)) \<and> distinct (map cr_username (user_credentials t)) \<and>
      distinct (map s_id (user_sessions t)) \<and> distinct (map s_refresh_token_hash (user_sessions t)) \<and>
      replaced_ok (user_sessions t) \<and>
      (\<forall>r\<in>set (user_sessions t). s_user_id r \<in> u_id ` set (users t)) \<and>
      (\<forall>c\<in>set (user_credentials t). cr_user_id c \<in> u_id ` set (users t)))"

definition session_later :: "session_row \<Rightarrow> session_row \<Rightarrow> bool" where
  "session_later r r' =
     (s_id r' = s_id r \<and> s_user_id r' = s_user_id r \<and> s_refresh_token_hash r' = s_refresh_token_hash r \<and>
      s_expires_at r' = s_expires_at r \<and> (s_revoked r \<longrightarrow> s_revoked r') \<and>
      (s_replaced_by_session_id r \<noteq> None \<longrightarrow> s_replaced_by_session_id r' \<noteq> None))"

definition sessions_later :: "session_row list \<Rightarrow> session_row list \<Rightarrow> bool" where
  "sessions_later rows rows' = (\<forall>r\<in>set rows. \<exists>r'\<in>set rows'. session_later r r')"

definition account_rel :: "store \<Rightarrow> store \<Rightarrow> bool" where
  "account_rel t t' = (accounts_ok t \<longrightarrow> accounts_ok t' \<and> sessions_later (user_sessions t) (user_sessions t'))"

lemma session_later_refl [simp, intro]: "session_later r r"
  by (simp add: session_later_def)

lemma session_later_trans: "session_later r r1 \<Longrightarrow> session_later r1 r2 \<Longrightarrow> session_later r r2"
  by (auto simp: session_later_def)

lemma sessions_later_refl [simp]: "sessions_later rows rows"
  by (auto simp: sessions_later_def)

lemma sessions_later_trans: "sessions_later a b \<Longrightarrow> sessions_later b c \<Longrightarrow> sessions_later a c"
  unfolding sessions_later_def using session_later_trans by meson

lemma sessions_later_append [simp]: "sessions_later rows (rows @ xs)"
  by (auto simp: sessions_later_def)

lemma sessions_later_update: "(\<And>r. r \<in> set rows \<Longrightarrow> P r \<Longrightarrow> session_later r (f r)) \<Longrightarrow> sessions_later rows (update_where P f rows)"
  unfolding sessions_later_def
proof (rule ballI)
  fix r
  assume later: "\<And>r. r \<in> set rows \<Longrightarrow> P r \<Longrightarrow> session_later r (f r)" and r: "r \<in> set rows"
  show "\<exists>r'\<in>set (update_where P f rows). session_later r r'"
    by (rule bexI [of _ "if P r then f r else r"]) (use later r in \<open>auto simp: update_where_def\<close>)
qed

interpretation accounts: db_preorder account_rel
  by unfold_locales (auto simp: account_rel_def intro: sessions_later_trans)

section \<open>Statements\<close>

lemma in_update_where: "r' \<in> set (update_where P f rows) \<Longrightarrow> \<exists>r\<in>set rows. r' = (if P r then f r else r)"
  by (auto simp: update_where_def)

lemma accounts_sessions_update:
  assumes "accounts_ok t" "\<And>r. s_id (f r) = s_id r \<and> s_refresh_token_hash (f r) = s_refresh_token_hash r \<and> s_user_id (f r) = s_user_id r \<and> s_revoked (f r)"
  shows "accounts_ok (t\<lparr>user_sessions := update_where P f (user_sessions t)\<rparr>)"
  using assms by (auto simp: accounts_ok_def replaced_ok_def dest!: in_update_where split: if_splits)

lemma accounts_insert_session:
  assumes "accounts_ok t" "\<not> exists_row (\<lambda>x. s_id x = i \<or> s_refresh_token_hash x = h) (user_sessions t)" "user_exists u t"
  shows "accounts_ok (t\<lparr>user_sessions := user_sessions t @ [new_session_row u h ua ip e i now]\<rparr>)"
  using assms by (auto simp: accounts_ok_def replaced_ok_def new_session_row_def exists_row_iff user_exists_def exists_key)

lemma evolves_insert_session: "evolves account_rel (insert_session u h ua ip e)"
  unfolding insert_session_def
  by (rule accounts.evolves_insert_serial)
    (auto simp: account_rel_def Let_def intro: accounts_insert_session split: if_splits)

lemma evolves_revoke_user_sessions: "evolves account_rel (revoke_user_sessions u)"
  unfolding revoke_user_sessions_def
  by (rule accounts.evolves_updateE)
    (auto simp: account_rel_def intro!: accounts_sessions_update sessions_later_update simp: session_later_def)

lemma evolves_insert_user: "evolves account_rel (insert_user name nick)"
  unfolding insert_user_def
  by (rule accounts.evolves_insert_serial)
    (auto simp: account_rel_def accounts_ok_def Let_def ensure_default_project_membership_def new_user_row_def exists_row_iff split: if_splits)

lemma evolves_insert_credential: "evolves account_rel (insert_credential u name h)"
  unfolding insert_credential_def
  by (rule accounts.evolves_execE,
      auto simp: account_rel_def accounts_ok_def exists_row_iff user_exists_def exists_key split: if_splits, fastforce)

section \<open>Rotation\<close>

lemma find_session_Some:
  "find_session h t = Some r \<Longrightarrow> r \<in> set (user_sessions t) \<and> s_refresh_token_hash r = h"
  by (auto simp: find_session_def find_Some_iff)

lemma find_session_row:
  assumes "accounts_ok t" "r \<in> set (user_sessions t)"
  shows "find_session (s_refresh_token_hash r) t = Some r"
proof -
  have d: "distinct (map s_refresh_token_hash (user_sessions t))" using assms(1) by (simp add: accounts_ok_def)
  obtain r' where r': "find_session (s_refresh_token_hash r) t = Some r'"
    using assms(2) by (cases "find_session (s_refresh_token_hash r) t") (auto simp: find_session_def find_None_iff)
  then have "r' = r" using find_session_Some [OF r'] d assms(2) by (auto simp: distinct_map inj_on_def)
  then show ?thesis using r' by simp
qed

lemma lock_session_Inr:
  "lock_session h s = (Inr x, s') \<longleftrightarrow> stmt_ok s \<and> s' = stmt_next s \<and>
     x = map_option (\<lambda>r. (scanSession r)\<lparr>ses_ReplacedBy := s_replaced_by_session_id r\<rparr>) (find_session h (tables s))"
proof (cases "faults s")
  case Nil
  then show ?thesis by (cases "find_session h (tables s)") (auto simp: lock_session_def mapErr_def or_no_rows_def)
next
  case (Cons a fs)
  then show ?thesis
    by (cases a; cases "find_session h (tables s)")
      (auto simp: lock_session_def mapErr_def or_no_rows_def query_row_def stmt_def stmt_ok_def stmt_next_def)
qed

lemma insert_session_Inr:
  assumes "insert_session u h ua ip e s = (Inr x, s')"
  obtains i where "x = scanSession (new_session_row u h ua ip e i (db_now s))"
    "tables s' = (tables s)\<lparr>user_sessions := user_sessions (tables s) @ [new_session_row u h ua ip e i (db_now s)]\<rparr>"
    "\<not> exists_row (\<lambda>x. s_id x = i \<or> s_refresh_token_hash x = h) (user_sessions (tables s))" "user_exists u (tables s)"
    "i = seqs s ''user_sessions'' + 1"
  using assms by (auto simp: insert_session_def insert_serial_Inr Let_def split: if_splits)

text \<open>What a rotation that reaches its commit did: the two committing branches.\<close>

lemma RotateSession_body_Commit:
  assumes "RotateSession_body now h h' ua ip e s = (Inr (Commit x), s')"
  obtains (reuse) r now' where "find_session h (tables s) = Some r" "x = Inl ErrUnauthorized" "s_revoked r \<or> now > s_expires_at r"
    "s_replaced_by_session_id r \<noteq> None"
    "tables s' = (tables s)\<lparr>user_sessions := update_where (\<lambda>q. s_user_id q = s_user_id r \<and> \<not> s_revoked q)
       (\<lambda>q. q\<lparr>s_revoked := True, s_updated_at := now'\<rparr>) (user_sessions (tables s))\<rparr>"
  | (rotated) r n i now' where "find_session h (tables s) = Some r" "\<not> s_revoked r" "now \<le> s_expires_at r"
    "n = new_session_row (s_user_id r) h' ua ip e i now'" "x = Inr (scanSession n)"
    "\<not> exists_row (\<lambda>q. s_id q = i \<or> s_refresh_token_hash q = h') (user_sessions (tables s))" "user_exists (s_user_id r) (tables s)"
    "tables s' = (tables s)\<lparr>user_sessions := update_where (\<lambda>q. s_id q = s_id r) (\<lambda>q. q\<lparr>s_revoked := True, s_last_used_at := Some now',
       s_replaced_by_session_id := Some i, s_updated_at := now'\<rparr>) (user_sessions (tables s) @ [n])\<rparr>"
proof -
  obtain found s1 where l: "lock_session h s = (Inr found, s1)" using assms by (auto simp: RotateSession_body_def bindE_Inr)
  note lk = l [unfolded lock_session_Inr]
  obtain r where r: "find_session h (tables s) = Some r"
    and f: "found = Some ((scanSession r)\<lparr>ses_ReplacedBy := s_replaced_by_session_id r\<rparr>)"
    using assms lk by (cases "find_session h (tables s)") (auto simp: RotateSession_body_def bindE_Inr l)
  have t1: "tables s1 = tables s" "db_now s1 = db_now s" using lk by auto
  show thesis
  proof (cases "s_revoked r \<or> now > s_expires_at r")
    case True
    then show thesis
      using assms f t1 by (auto simp: RotateSession_body_def bindE_Inr l scanSession_def revoke_user_sessions_def updateE_Inr
          split: if_splits intro!: reuse [OF r])
  next
    case False
    then obtain rep s2 where ins: "insert_session (s_user_id r) h' ua ip e s1 = (Inr rep, s2)"
      and rp: "replace_session (s_id r) (ses_ID rep) s2 = (Inr (), s')" and x: "x = Inr rep"
      using assms f by (auto simp: RotateSession_body_def bindE_Inr l scanSession_def split: if_splits)
    have n2: "db_now s2 = db_now s1" using ins by (auto simp: insert_session_def insert_serial_Inr)
    from ins show thesis
      by (rule insert_session_Inr)
        (use False rp x t1 n2 in \<open>auto simp: replace_session_def updateE_Inr scanSession_def new_session_row_def
           intro!: rotated [OF r]\<close>)
  qed
qed

lemma evolves_RotateSession_body: "evolves_ok account_rel (RotateSession_body now h h' ua ip e)"
proof (rule evolves_okI)
  fix s x s'
  assume run: "RotateSession_body now h h' ua ip e s = (Inr x, s')"
  show "account_rel (tables s) (tables s')"
  proof (cases x)
    case (Rollback y)
    then have "tables s' = tables s"
      using run by (auto simp: RotateSession_body_def bindE_Inr lock_session_Inr split: option.splits if_splits)
    then show ?thesis by (simp add: accounts.refl)
  next
    case (Commit y)
    from run [unfolded Commit] show ?thesis
    proof (cases rule: RotateSession_body_Commit)
      case (reuse r now')
      then show ?thesis
        by (auto simp: account_rel_def intro!: accounts_sessions_update sessions_later_update simp: session_later_def)
    next
      case (rotated r n i now')
      let ?t1 = "(tables s)\<lparr>user_sessions := user_sessions (tables s) @ [n]\<rparr>"
      have "account_rel (tables s) ?t1"
        unfolding account_rel_def using accounts_insert_session [OF _ rotated(6,7)] by (simp add: rotated(4))
      moreover have "account_rel ?t1 (tables s')"
        using accounts_sessions_update [of ?t1] unfolding account_rel_def rotated(8)
        by (auto intro!: sessions_later_update simp: session_later_def)
      ultimately show ?thesis by (rule accounts.trans)
    qed
  qed
qed

lemma evolves_UpdateUserProfile: "evolves account_rel (UpdateUserProfile i input)"
  unfolding UpdateUserProfile_def GetUserByID_def update_returning_def Let_def
  by (intro accounts.evolves_rules accounts.evolves_execE) (auto simp: account_rel_def accounts_ok_def set_key_update_where split: option.splits)

lemma evolves_RevokeSessionByRefreshHash: "evolves account_rel (RevokeSessionByRefreshHash h)"
  unfolding RevokeSessionByRefreshHash_def guardE_def
  by (intro accounts.evolves_rules accounts.evolves_execE)
    (auto simp: account_rel_def intro!: accounts_sessions_update sessions_later_update simp: session_later_def)

text \<open>The calls change the account tables as \<open>account_rel\<close> says.\<close>

interpretation account_history: account_changes account_rel
  by unfold_locales
    (rule evolves_insert_user evolves_insert_credential evolves_insert_session evolves_RotateSession_body evolves_RevokeSessionByRefreshHash
      evolves_UpdateUserProfile)+

section \<open>The operations as a system\<close>

inductive auth_step :: "AuthService \<Rightarrow> store db \<Rightarrow> store db \<Rightarrow> bool" for sv where
  Call: "run_auth sv call s = (r, s') \<Longrightarrow> auth_step sv s s'"
| Passing: "auth_step sv s (s\<lparr>faults := fs, db_now := now\<rparr>)"

lemma auth_step_rel: "auth_step sv s s' \<Longrightarrow> account_rel (tables s) (tables s')"
  by (cases rule: auth_step.cases) (auto dest: evolvesD [OF account_history.evolves_run_auth] simp: accounts.refl)

lemma auth_steps_rel: "(auth_step sv)\<^sup>*\<^sup>* s s' \<Longrightarrow> account_rel (tables s) (tables s')"
  by (induction rule: rtranclp_induct) (auto intro: accounts.refl accounts.trans auth_step_rel)

section \<open>Refresh tokens\<close>

lemma RotateSession_Inr:
  assumes "RotateSession now h h' ua ip e s = (Inr x, s')"
  obtains s1 where "RotateSession_body now h h' ua ip e (stmt_next s) = (Inr (Commit (Inr x)), s1)" "tables s' = tables s1"
proof -
  let ?body = "RotateSession_body now h h' ua ip e" and ?c = "\<lambda>s. rotate_commit_error (fst (RotateSession_body now h h' ua ip e (stmt_next s)))"
  have run: "in_tx (WrapError ''begin refresh token rotation'') (?c s) ?body s = (Inr (Inr x), s')"
    using assms by (auto simp: RotateSession_def Let_def bindE_Inr liftE_def)
  have "?body (stmt_next s) \<noteq> (Inr (Rollback (Inr x)), s1)" for s1
    by (auto simp: RotateSession_body_def bindE_Inr split: option.splits if_splits)
  then show thesis using in_tx_Inr [OF run] that by auto
qed

text \<open>What a session needs to be exchanged, and what the exchange leaves behind.\<close>

lemma Refresh_Inr:
  assumes "Refresh sv env input s = (Inr resp, s')"
  obtains r n now' where
    "find_session (hashToken (as_lib sv) (TrimSpace (rf_RefreshToken input))) (tables s) = Some r"
    "\<not> s_revoked r" "ae_check env \<le> s_expires_at r" "TrimSpace (rf_RefreshToken input) \<noteq> []"
    "s_refresh_token_hash n = hashToken (as_lib sv) (ar_RefreshToken resp)" "s_user_id n = s_user_id r" "\<not> s_revoked n"
    "s_id n \<noteq> s_id r" "user_sessions (tables s') = update_where (\<lambda>q. s_id q = s_id r) (\<lambda>q. q\<lparr>s_revoked := True, s_last_used_at := Some now',
       s_replaced_by_session_id := Some (s_id n), s_updated_at := now'\<rparr>) (user_sessions (tables s) @ [n])"
    "\<exists>u. find_user (s_user_id r) (tables s') = Some u \<and> ar_User resp = scanUser u"
proof -
  let ?h = "hashToken (as_lib sv)" and ?tok = "TrimSpace (rf_RefreshToken input)" and ?e = "ae_expiry env + RefreshTokenTTL (as_cfg sv)"
  obtain ses s1 where rot: "RotateSession (ae_check env) (?h ?tok) (?h (ar_RefreshToken resp)) (rf_UserAgent input) (rf_IPAddress input) ?e s = (Inr ses, s1)"
    and tok: "?tok \<noteq> []" and u: "GetUserByID (ses_UserID ses) s1 = (Inr (ar_User resp), s')"
    using assms by (auto simp: Refresh_def Let_def bindE_Inr guardE_def liftE_def split: if_splits prod.splits)
  from rot obtain s2 where body: "RotateSession_body (ae_check env) (?h ?tok) (?h (ar_RefreshToken resp)) (rf_UserAgent input) (rf_IPAddress input) ?e (stmt_next s)
     = (Inr (Commit (Inr ses)), s2)" "tables s1 = tables s2" by (rule RotateSession_Inr)
  have u': "\<exists>u. find_user (ses_UserID ses) (tables s1) = Some u \<and> ar_User resp = scanUser u \<and> tables s' = tables s1"
    using u by (auto simp: GetUserByID_def query_row_Inr)
  from body(1) show thesis
  proof (cases rule: RotateSession_body_Commit)
    case (rotated r n i now')
    have n: "s_id n = i" "s_user_id n = s_user_id r" "\<not> s_revoked n" "s_refresh_token_hash n = ?h (ar_RefreshToken resp)"
      "ses_UserID ses = s_user_id r"
      using rotated(4,5) by (simp_all add: new_session_row_def scanSession_def)
    have "s_id n \<noteq> s_id r"
      using rotated(6) find_session_Some [OF rotated(1)] n(1) by (auto simp: exists_row_iff)
    then show thesis
      using that [of r n now'] rotated(1-3,8) n u' body(2) tok by auto
  qed simp
qed

lemma Refresh_refused:
  assumes "accounts_ok (tables s)" "r \<in> set (user_sessions (tables s))" "s_revoked r"
    and "s_refresh_token_hash r = hashToken (as_lib sv) (TrimSpace (rf_RefreshToken input))"
  shows "\<exists>e. fst (Refresh sv env input s) = Inl e"
proof (cases "Refresh sv env input s")
  case (Pair x s')
  show ?thesis
  proof (cases x)
    case (Inr resp)
    from Pair [unfolded Inr] show ?thesis
      by (rule Refresh_Inr) (use find_session_row [OF assms(1,2)] assms(3,4) in simp)
  qed (simp add: Pair)
qed

lemma later_session:
  assumes "account_rel t t'" "accounts_ok t" "r \<in> set (user_sessions t)"
  obtains r' where "r' \<in> set (user_sessions t')" "session_later r r'" "accounts_ok t'"
  using assms unfolding account_rel_def sessions_later_def by blast

lemma rotated_row:
  assumes "accounts_ok (tables s)" "Refresh sv env input s = (Inr resp, s')"
  obtains r where "r \<in> set (user_sessions (tables s'))" "s_revoked r" "s_replaced_by_session_id r \<noteq> None"
    "s_refresh_token_hash r = hashToken (as_lib sv) (TrimSpace (rf_RefreshToken input))" "s_user_id r = usr_ID (ar_User resp)"
  using assms(2)
proof (rule Refresh_Inr)
  fix r n now'
  assume f: "find_session (hashToken (as_lib sv) (TrimSpace (rf_RefreshToken input))) (tables s) = Some r"
    and rows: "user_sessions (tables s') = update_where (\<lambda>q. s_id q = s_id r) (\<lambda>q. q\<lparr>s_revoked := True, s_last_used_at := Some now',
       s_replaced_by_session_id := Some (s_id n), s_updated_at := now'\<rparr>) (user_sessions (tables s) @ [n])"
    and u: "\<exists>u. find_user (s_user_id r) (tables s') = Some u \<and> ar_User resp = scanUser u"
  show thesis
    by (rule that [of "r\<lparr>s_revoked := True, s_last_used_at := Some now', s_replaced_by_session_id := Some (s_id n), s_updated_at := now'\<rparr>"])
      (use find_session_Some [OF f] u in \<open>auto simp: rows update_where_def find_user_def find_Some_iff scanUser_def\<close>)
qed

text \<open>
  C28. A refresh token is accepted at most once: after it was exchanged, no sequence of registrations, logins,
  refreshes, logouts and profile changes, under any pattern of database failures, makes the service accept it again.
\<close>

theorem refresh_single_use:
  assumes "accounts_ok (tables s)" "Refresh sv env input s = (Inr resp, s1)" "(auth_step sv)\<^sup>*\<^sup>* s1 s2"
    and "TrimSpace (rf_RefreshToken input') = TrimSpace (rf_RefreshToken input)"
  shows "\<exists>e. fst (Refresh sv env' input' s2) = Inl e"
proof -
  have ok1: "accounts_ok (tables s1)"
    using evolvesD [OF account_history.evolves_Refresh assms(2)] assms(1) by (simp add: account_rel_def)
  obtain r where r: "r \<in> set (user_sessions (tables s1))" "s_revoked r"
    "s_refresh_token_hash r = hashToken (as_lib sv) (TrimSpace (rf_RefreshToken input))"
    using rotated_row [OF assms(1,2)] by metis
  obtain r' where "r' \<in> set (user_sessions (tables s2))" "session_later r r'" "accounts_ok (tables s2)"
    by (rule later_session [OF auth_steps_rel [OF assms(3)] ok1 r(1)])
  then show ?thesis using Refresh_refused [of s2 r'] r assms(4) by (simp add: session_later_def)
qed

section \<open>A small run of the service\<close>

definition sample_lib :: auth_lib where
  "sample_lib = \<lparr>lib_sha256 = (\<lambda>v. if v = ''tok'' then [1] else [2]), lib_lower = id, bcrypt_generate = (\<lambda>p _. Inr p),
     bcrypt_matches = (\<lambda>h p. h = p), jwt_sign = (\<lambda>_ _. Inr ''jwt''), jwt_parse = (\<lambda>_ _ _. Inl ErrUnauthorized)\<rparr>"

definition sample_auth :: AuthService where
  "sample_auth = \<lparr>as_cfg = \<lparr>JWTSecret = ''secret'', AccessTokenTTL = 10, RefreshTokenTTL = 1000, BcryptCost = 10\<rparr>, as_env = ''prod'',
     as_lib = sample_lib\<rparr>"

definition sample_env :: auth_env where
  "sample_env = \<lparr>ae_issue = 50, ae_expiry = 50, ae_check = 50, ae_jti = Some [], ae_refresh = Some []\<rparr>"

definition sample_session :: session_row where
  "sample_session = new_session_row 7 (hashToken sample_lib ''tok'') [] [] 1000 1 0"

definition sample_auth_db :: "store db" where
  "sample_auth_db = sample_db\<lparr>tables := sample_store\<lparr>user_sessions := [sample_session]\<rparr>, seqs := (\<lambda>_. 1)\<rparr>"

definition sample_refresh :: RefreshInput where
  "sample_refresh = \<lparr>rf_RefreshToken = ''tok'', rf_UserAgent = [], rf_IPAddress = []\<rparr>"

lemmas sample_auth_defs = sample_lib_def sample_auth_def sample_env_def sample_session_def sample_auth_db_def sample_refresh_def sample_db_def
  sample_store_def

lemma trim_tok: "TrimSpace ''tok'' = ''tok''"
  by (simp add: TrimSpace_def trim_left.simps trim_right.simps DecodeRune_def DecodeLastRune_def IsSpace_def first_info_def
      rune_value_def byte_def Let_def)

lemma sample_auth_db_ok: "accounts_ok (tables sample_auth_db)"
  by (simp add: sample_auth_defs accounts_ok_def replaced_ok_def new_session_row_def)

lemma sample_hashes: "hashToken sample_lib ''tok'' = ''01''" "hashToken sample_lib [] = ''02''"
  by code_simp+

lemma sample_refresh_run:
  "\<exists>resp s1. Refresh sample_auth sample_env sample_refresh sample_auth_db = (Inr resp, s1) \<and> faults s1 = [] \<and> usr_ID (ar_User resp) = 7"
proof -
  have lib: "as_lib sample_auth = sample_lib" "rf_RefreshToken sample_refresh = ''tok''" "ae_refresh sample_env = Some []"
    "ae_jti sample_env = Some []" "\<And>k c. jwt_sign sample_lib k c = Inr ''jwt''"
    by (simp_all add: sample_auth_def sample_refresh_def sample_env_def sample_lib_def)
  have "\<exists>s1. RotateSession (ae_check sample_env) ''01'' ''02'' (rf_UserAgent sample_refresh) (rf_IPAddress sample_refresh)
      (ae_expiry sample_env + RefreshTokenTTL (as_cfg sample_auth)) sample_auth_db = (Inr (scanSession (new_session_row 7 ''02'' [] [] 1050 2 100)), s1) \<and>
      faults s1 = [] \<and> users (tables s1) = users sample_store"
    by (simp add: RotateSession_def Let_def bindE_def in_tx_nil RotateSession_body_def lock_session_def mapErr_def or_no_rows_def find_session_def
        insert_session_def insert_serial_def replace_session_def exists_row_def user_exists_def new_session_row_def scanSession_def liftE_def
        sample_hashes(1) sample_session_def sample_auth_db_def sample_db_def sample_env_def sample_refresh_def sample_auth_def nullif_empty_def
        sample_store_def max_bigint_def)
  then show ?thesis
    by (auto simp: Refresh_def Let_def lib trim_tok sample_hashes randomToken_def bindE_def liftE_def guardE_def GetUserByID_def mapErr_def find_user_def
        sample_store_def newAccessToken_def scanSession_def new_session_row_def scanUser_def)
qed

theorem refresh_single_use_witness:
  "\<exists>resp s1 e. Refresh sample_auth sample_env sample_refresh sample_auth_db = (Inr resp, s1) \<and>
     fst (Refresh sample_auth sample_env sample_refresh s1) = Inl e"
proof -
  obtain resp s1 where run: "Refresh sample_auth sample_env sample_refresh sample_auth_db = (Inr resp, s1)"
    using sample_refresh_run by blast
  show ?thesis
    using refresh_single_use [OF sample_auth_db_ok run rtranclp.rtrancl_refl refl, of sample_env] run by blast
qed

section \<open>Reuse, logout and soundness of refreshing\<close>

lemma Refresh_reused:
  assumes "accounts_ok (tables s)" "r \<in> set (user_sessions (tables s))" "s_revoked r" "s_replaced_by_session_id r \<noteq> None"
    and h: "s_refresh_token_hash r = hashToken (as_lib sv) (TrimSpace (rf_RefreshToken input))" "TrimSpace (rf_RefreshToken input) \<noteq> []"
    and "faults s = []" "ae_refresh env = Some b"
  obtains s' where "Refresh sv env input s = (Inl ErrUnauthorized, s')"
    "user_sessions (tables s') = update_where (\<lambda>q. s_user_id q = s_user_id r \<and> \<not> s_revoked q)
       (\<lambda>q. q\<lparr>s_revoked := True, s_updated_at := db_now s\<rparr>) (user_sessions (tables s))"
proof -
  have f: "find_session (hashToken (as_lib sv) (TrimSpace (rf_RefreshToken input))) (tables s) = Some r"
    using find_session_row [OF assms(1,2)] h(1) by simp
  let ?s' = "s\<lparr>tables := (tables s)\<lparr>user_sessions := update_where (\<lambda>q. s_user_id q = s_user_id r \<and> \<not> s_revoked q)
       (\<lambda>q. q\<lparr>s_revoked := True, s_updated_at := db_now s\<rparr>) (user_sessions (tables s))\<rparr>\<rparr>"
  have body: "RotateSession_body now (hashToken (as_lib sv) (TrimSpace (rf_RefreshToken input))) h' ua ip e s = (Inr (Commit (Inl ErrUnauthorized)), ?s')"
    for now h' ua ip e
    using f assms(3,4,7) by (auto simp: RotateSession_body_def lock_session_def bindE_def mapErr_def or_no_rows_def scanSession_def revoke_user_sessions_def)
  have "RotateSession now (hashToken (as_lib sv) (TrimSpace (rf_RefreshToken input))) h' ua ip e s = (Inl ErrUnauthorized, ?s')" for now h' ua ip e
    using assms(7) body by (simp add: RotateSession_def Let_def bindE_def in_tx_nil liftE_def)
  then show thesis
    using that [of ?s'] assms(8) h(2) by (simp add: Refresh_def Let_def bindE_def guardE_def liftE_def randomToken_def)
qed

text \<open>
  C29. A refresh token that is presented again after it was exchanged is treated as stolen: with a database that answers the
  request is refused and every session of the user, also the ones rotated from it, is revoked.
\<close>

theorem refresh_reuse_revokes:
  assumes "accounts_ok (tables s)" "Refresh sv env input s = (Inr resp, s1)" "(auth_step sv)\<^sup>*\<^sup>* s1 s2"
    and "TrimSpace (rf_RefreshToken input') = TrimSpace (rf_RefreshToken input)" "faults s2 = []" "ae_refresh env' = Some b"
  shows "\<exists>s3. Refresh sv env' input' s2 = (Inl ErrUnauthorized, s3) \<and>
    (\<forall>r\<in>set (user_sessions (tables s3)). s_user_id r = usr_ID (ar_User resp) \<longrightarrow> s_revoked r)"
proof -
  have ok1: "accounts_ok (tables s1)"
    using evolvesD [OF account_history.evolves_Refresh assms(2)] assms(1) by (simp add: account_rel_def)
  obtain r where r: "r \<in> set (user_sessions (tables s1))" "s_revoked r" "s_replaced_by_session_id r \<noteq> None"
    "s_refresh_token_hash r = hashToken (as_lib sv) (TrimSpace (rf_RefreshToken input))" "s_user_id r = usr_ID (ar_User resp)"
    using rotated_row [OF assms(1,2)] by metis
  obtain r' where r': "r' \<in> set (user_sessions (tables s2))" "session_later r r'" "accounts_ok (tables s2)"
    by (rule later_session [OF auth_steps_rel [OF assms(3)] ok1 r(1)])
  have tok: "TrimSpace (rf_RefreshToken input') \<noteq> []" using assms(2) unfolding assms(4) by (rule Refresh_Inr)
  obtain s3 where "Refresh sv env' input' s2 = (Inl ErrUnauthorized, s3)"
    "user_sessions (tables s3) = update_where (\<lambda>q. s_user_id q = s_user_id r' \<and> \<not> s_revoked q)
       (\<lambda>q. q\<lparr>s_revoked := True, s_updated_at := db_now s2\<rparr>) (user_sessions (tables s2))"
    by (rule Refresh_reused [OF r'(3,1), of sv input' env' b]) (use r r' tok assms(4-6) in \<open>auto simp: session_later_def\<close>)
  then show ?thesis
    using r' r(5) by (intro exI [of _ s3] conjI) (auto simp: session_later_def dest!: in_update_where split: if_splits)
qed

theorem refresh_reuse_revokes_witness:
  "\<exists>resp s1 s3. Refresh sample_auth sample_env sample_refresh sample_auth_db = (Inr resp, s1) \<and>
     Refresh sample_auth sample_env sample_refresh s1 = (Inl ErrUnauthorized, s3)"
proof -
  obtain resp s1 where run: "Refresh sample_auth sample_env sample_refresh sample_auth_db = (Inr resp, s1)" "faults s1 = []"
    using sample_refresh_run by blast
  show ?thesis
    using refresh_reuse_revokes [OF sample_auth_db_ok run(1) rtranclp.rtrancl_refl refl run(2), of sample_env] run(1)
    by (auto simp: sample_env_def)
qed

text \<open>
  A logout is final: after it succeeded, no sequence of operations makes the service accept the refresh token again.
\<close>

theorem logout_final:
  assumes "accounts_ok (tables s)" "Logout sv token s = (Inr (), s1)" "(auth_step sv)\<^sup>*\<^sup>* s1 s2"
    and "TrimSpace (rf_RefreshToken input) = TrimSpace token"
  shows "\<exists>e. fst (Refresh sv env input s2) = Inl e"
proof -
  let ?h = "hashToken (as_lib sv) (TrimSpace token)"
  have ok1: "accounts_ok (tables s1)"
    using evolvesD [OF account_history.evolves_run_auth [of sv "CallLogout token"]] assms(1,2) by (simp add: account_rel_def)
  have "\<exists>now. user_sessions (tables s1) = update_where (\<lambda>r. s_refresh_token_hash r = ?h) (\<lambda>r. r\<lparr>s_revoked := True, s_updated_at := now\<rparr>) (user_sessions (tables s)) \<and>
      count_where (\<lambda>r. s_refresh_token_hash r = ?h) (user_sessions (tables s)) \<noteq> 0"
    using assms(2) by (auto simp: Logout_def Let_def bindE_Inr guardE_def RevokeSessionByRefreshHash_def execE_Inr split: if_splits)
  then obtain r where r: "r \<in> set (user_sessions (tables s1))" "s_revoked r" "s_refresh_token_hash r = ?h"
    by (force simp: count_where_def update_where_def filter_empty_conv)
  obtain r' where "r' \<in> set (user_sessions (tables s2))" "session_later r r'" "accounts_ok (tables s2)"
    by (rule later_session [OF auth_steps_rel [OF assms(3)] ok1 r(1)])
  then show ?thesis using Refresh_refused [of s2 r'] r assms(4) by (simp add: session_later_def)
qed

theorem logout_final_witness:
  "\<exists>s1 e. Logout sample_auth ''tok'' sample_auth_db = (Inr (), s1) \<and> fst (Refresh sample_auth sample_env sample_refresh s1) = Inl e"
proof -
  have "\<exists>s1. Logout sample_auth ''tok'' sample_auth_db = (Inr (), s1)"
    by (simp add: Logout_def trim_tok Let_def bindE_def guardE_def RevokeSessionByRefreshHash_def mapErr_def execE_def count_where_def
        sample_auth_db_def sample_db_def sample_auth_def sample_session_def new_session_row_def)
  then obtain s1 where run: "Logout sample_auth ''tok'' sample_auth_db = (Inr (), s1)" by blast
  show ?thesis
    using logout_final [OF sample_auth_db_ok run rtranclp.rtrancl_refl, of sample_refresh sample_env] run by (auto simp: sample_refresh_def)
qed

text \<open>
  Refreshing is sound: a token is exchanged only if its session exists, is not revoked and has not expired. The answer names
  the user of that session, and afterwards exactly this session is revoked and replaced by one new session of the same user
  with the hash of the returned token.
\<close>

theorem refresh_sound:
  assumes "Refresh sv env input s = (Inr resp, s')"
  shows "\<exists>r n f. find_session (hashToken (as_lib sv) (TrimSpace (rf_RefreshToken input))) (tables s) = Some r \<and>
    \<not> s_revoked r \<and> ae_check env \<le> s_expires_at r \<and> usr_ID (ar_User resp) = s_user_id r \<and>
    s_user_id n = s_user_id r \<and> \<not> s_revoked n \<and> s_refresh_token_hash n = hashToken (as_lib sv) (ar_RefreshToken resp) \<and>
    user_sessions (tables s') = update_where (\<lambda>q. s_id q = s_id r) f (user_sessions (tables s)) @ [n] \<and>
    (\<forall>q. s_revoked (f q) \<and> s_replaced_by_session_id (f q) = Some (s_id n))"
  using assms
proof (rule Refresh_Inr)
  fix r n now'
  assume a: "find_session (hashToken (as_lib sv) (TrimSpace (rf_RefreshToken input))) (tables s) = Some r"
    "\<not> s_revoked r" "ae_check env \<le> s_expires_at r"
    "s_refresh_token_hash n = hashToken (as_lib sv) (ar_RefreshToken resp)" "s_user_id n = s_user_id r" "\<not> s_revoked n" "s_id n \<noteq> s_id r"
    "user_sessions (tables s') = update_where (\<lambda>q. s_id q = s_id r) (\<lambda>q. q\<lparr>s_revoked := True, s_last_used_at := Some now',
       s_replaced_by_session_id := Some (s_id n), s_updated_at := now'\<rparr>) (user_sessions (tables s) @ [n])"
    "\<exists>u. find_user (s_user_id r) (tables s') = Some u \<and> ar_User resp = scanUser u"
  have "usr_ID (ar_User resp) = s_user_id r" using a(9) by (auto simp: find_user_def find_Some_iff scanUser_def)
  then show ?thesis
    using a by (intro exI [of _ r] exI [of _ n] exI [of _ "\<lambda>q. q\<lparr>s_revoked := True, s_last_used_at := Some now',
       s_replaced_by_session_id := Some (s_id n), s_updated_at := now'\<rparr>"]) (auto simp: update_where_def)
qed

theorem refresh_sound_witness:
  "\<exists>resp s1. Refresh sample_auth sample_env sample_refresh sample_auth_db = (Inr resp, s1) \<and> usr_ID (ar_User resp) = 7 \<and>
     length (user_sessions (tables s1)) = 2"
proof -
  obtain resp s1 where run: "Refresh sample_auth sample_env sample_refresh sample_auth_db = (Inr resp, s1)" "usr_ID (ar_User resp) = 7"
    using sample_refresh_run by blast
  show ?thesis
    using refresh_sound [OF run(1)] run by (auto simp: update_where_def sample_auth_db_def)
qed

section \<open>Logins\<close>

lemma issueTokens_Inr:
  assumes "issueTokens sv env user ua ip s = (Inr resp, s')"
  obtains n where "ar_User resp = user" "tables s' = (tables s)\<lparr>user_sessions := user_sessions (tables s) @ [n]\<rparr>"
    "s_user_id n = usr_ID user" "s_refresh_token_hash n = hashToken (as_lib sv) (ar_RefreshToken resp)" "\<not> s_revoked n"
    "s_expires_at n = ae_expiry env + RefreshTokenTTL (as_cfg sv)" "s_id n = seqs s ''user_sessions'' + 1"
proof -
  obtain x where "insert_session (usr_ID user) (hashToken (as_lib sv) (ar_RefreshToken resp)) ua ip (ae_expiry env + RefreshTokenTTL (as_cfg sv)) s = (Inr x, s')"
    and u: "ar_User resp = user"
    using assms by (auto simp: issueTokens_def bindE_Inr liftE_def CreateSession_def split: prod.splits)
  from this(1) show thesis
  proof (rule insert_session_Inr)
    fix i
    let ?n = "new_session_row (usr_ID user) (hashToken (as_lib sv) (ar_RefreshToken resp)) ua ip (ae_expiry env + RefreshTokenTTL (as_cfg sv)) i (db_now s)"
    assume i: "i = seqs s ''user_sessions'' + 1" and "tables s' = (tables s)\<lparr>user_sessions := user_sessions (tables s) @ [?n]\<rparr>"
    from this(2) show thesis by (rule that [OF u]) (simp_all add: new_session_row_def i)
  qed
qed

text \<open>
  A login is sound: it succeeds only for a stored credential of the normalised user name whose hash matches the password,
  answers with the user of that credential and opens exactly one session, for this user and the returned token.
\<close>

theorem login_sound:
  assumes "Login sv env input s = (Inr resp, s')"
  shows "\<exists>c u n. c \<in> set (user_credentials (tables s)) \<and> cr_username c = normalizeUsername (as_lib sv) (li_Username input) \<and>
    bcrypt_matches (as_lib sv) (cr_password_hash c) (li_Password input) \<and> u \<in> set (users (tables s)) \<and> u_id u = cr_user_id c \<and>
    ar_User resp = scanUser u \<and> tables s' = (tables s)\<lparr>user_sessions := user_sessions (tables s) @ [n]\<rparr> \<and>
    s_user_id n = u_id u \<and> \<not> s_revoked n \<and> s_refresh_token_hash n = hashToken (as_lib sv) (ar_RefreshToken resp)"
proof -
  let ?name = "normalizeUsername (as_lib sv) (li_Username input)"
  obtain cred user s1 where q: "GetCredentialByUsername ?name s = (Inr (cred, user), s1)"
    and m: "bcrypt_matches (as_lib sv) (cred_PasswordHash cred) (li_Password input)"
    and i: "issueTokens sv env user (li_UserAgent input) (li_IPAddress input) s1 = (Inr resp, s')"
    using assms by (auto simp: Login_def Let_def bindE_Inr guardE_def split: if_splits prod.splits)
  obtain c u where c: "c \<in> set (user_credentials (tables s))" "cr_username c = ?name" "find_user (cr_user_id c) (tables s) = Some u"
    "cred_PasswordHash cred = cr_password_hash c" "user = scanUser u" "tables s1 = tables s"
    using q by (auto simp: GetCredentialByUsername_def query_row_Inr split: option.splits dest!: find_set)
  have u: "u \<in> set (users (tables s))" "u_id u = cr_user_id c" using c(3) by (auto simp: find_user_def find_Some_iff)
  from i show ?thesis
    by (rule issueTokens_Inr) (use c u m in \<open>auto simp: scanUser_def intro!: exI [of _ c] exI [of _ u]\<close>)
qed

definition sample_credential :: credential_row where
  "sample_credential = \<lparr>cr_user_id = 7, cr_username = ''bob'', cr_password_hash = ''password'', cr_password_algo = ''bcrypt''\<rparr>"

lemma bob_name:
  "normalizeUsername lib ''bob'' = ''bob''" "validateUsername ''bob'' = None"
proof -
  have "TrimSpace ''bob'' = ''bob''"
    by (simp add: TrimSpace_def trim_left.simps trim_right.simps DecodeRune_def DecodeLastRune_def IsSpace_def first_info_def
        rune_value_def byte_def Let_def)
  then show "normalizeUsername lib ''bob'' = ''bob''" by (simp add: normalizeUsername_def ToLower_def ascii_lower_def byte_def)
  show "validateUsername ''bob'' = None" by (simp add: validateUsername_def username_char_def byte_def Let_def)
qed

definition sample_login :: LoginInput where
  "sample_login = \<lparr>li_Username = ''bob'', li_Password = ''password'', li_UserAgent = [], li_IPAddress = []\<rparr>"

theorem login_sound_witness:
  "\<exists>resp s'. Login sample_auth sample_env sample_login (sample_db\<lparr>tables := sample_store\<lparr>user_credentials := [sample_credential]\<rparr>\<rparr>) = (Inr resp, s') \<and>
     usr_ID (ar_User resp) = 7 \<and> length (user_sessions (tables s')) = 1"
proof -
  let ?s = "sample_db\<lparr>tables := sample_store\<lparr>user_credentials := [sample_credential]\<rparr>\<rparr>"
  have "\<exists>resp s'. Login sample_auth sample_env sample_login ?s = (Inr resp, s')"
    by (simp add: Login_def Let_def bob_name sample_login_def sample_credential_def bindE_def guardE_def mapErr_def GetCredentialByUsername_def find_user_def
        issueTokens_def liftE_def newAccessToken_def randomToken_def CreateSession_def insert_session_def insert_serial_def exists_row_def user_exists_def
        scanUser_def max_bigint_def sample_auth_defs)
  then obtain resp s' where run: "Login sample_auth sample_env sample_login ?s = (Inr resp, s')" by blast
  show ?thesis
    using login_sound [OF run] run by (auto simp: sample_credential_def scanUser_def sample_db_def sample_store_def)
qed

section \<open>Registration\<close>

text \<open>
  What a registration and the login after it need: valid and unused names, answers of the libraries, and token hashes that
  are not in use.
\<close>

definition ids_below :: "(string \<Rightarrow> int) \<Rightarrow> store \<Rightarrow> bool" where
  "ids_below sq t = ((\<forall>u\<in>set (users t). u_id u \<le> sq ''users'') \<and> (\<forall>r\<in>set (user_sessions t). s_id r \<le> sq ''user_sessions''))"

definition token_free :: "AuthService \<Rightarrow> auth_env \<Rightarrow> store \<Rightarrow> bool" where
  "token_free sv env t = (case ae_refresh env of None \<Rightarrow> False
     | Some b \<Rightarrow> hashToken (as_lib sv) (EncodeToString b) \<notin> s_refresh_token_hash ` set (user_sessions t))"

lemma issueTokens_run:
  assumes "faults s = []" "token_free sv env (tables s)" "ids_below (seqs s) (tables s)" "seqs s ''user_sessions'' < max_bigint"
    and "user_exists (usr_ID user) (tables s)" "ae_jti env \<noteq> None" "\<And>k c. \<exists>t. jwt_sign (as_lib sv) k c = Inr t"
  shows "\<exists>resp s'. issueTokens sv env user ua ip s = (Inr resp, s') \<and> faults s' = [] \<and>
    seqs s' = (seqs s)(''user_sessions'' := seqs s ''user_sessions'' + 1)"
proof -
  obtain b j where b: "ae_refresh env = Some b" "ae_jti env = Some j" using assms(2,6) by (auto simp: token_free_def split: option.splits)
  have free: "\<not> exists_row (\<lambda>x. s_id x = seqs s ''user_sessions'' + 1 \<or> s_refresh_token_hash x = hashToken (as_lib sv) (EncodeToString b)) (user_sessions (tables s))"
    using assms(2,3) b(1) by (force simp: token_free_def ids_below_def exists_row_iff)
  obtain a e where a: "newAccessToken (as_lib sv) env (JWTSecret (as_cfg sv)) (AccessTokenTTL (as_cfg sv)) user = Inr (a, e)"
  proof -
    have "\<exists>x. newAccessToken (as_lib sv) env (JWTSecret (as_cfg sv)) (AccessTokenTTL (as_cfg sv)) user = Inr x"
      using assms(7) b(2) by (auto simp: newAccessToken_def randomToken_def split: sum.splits) (metis sum.distinct(1))
    then show thesis using that by (auto simp: split_paired_Ex)
  qed
  show ?thesis
    using assms(1,4,5) free a b(1)
    by (simp add: issueTokens_def bindE_def liftE_def randomToken_def CreateSession_def mapErr_def insert_session_def insert_serial_def Let_def)
qed

definition registrable :: "AuthService \<Rightarrow> RegisterInput \<Rightarrow> store \<Rightarrow> bool" where
  "registrable sv input t =
     (let name = normalizeUsername (as_lib sv) (ri_Username input) in
      validateUsername name = None \<and> validatePassword (ri_Password input) = None \<and> length (TrimSpace (ri_Nickname input)) \<le> 64 \<and>
      name \<notin> u_username ` set (users t) \<and> name \<notin> cr_username ` set (user_credentials t) \<and> 1 \<in> p_id ` set (projects t))"

lemma find_snoc_new: "(\<And>x. x \<in> set xs \<Longrightarrow> \<not> P x) \<Longrightarrow> P y \<Longrightarrow> find P (xs @ [y]) = Some y"
  by (simp add: find_append find_None_iff [THEN iffD2])

lemma CreateUser_run:
  assumes "accounts_ok (tables s)" "faults s = []" "ids_below (seqs s) (tables s)" "seqs s ''users'' < max_bigint"
    and "name \<notin> u_username ` set (users (tables s))" "name \<notin> cr_username ` set (user_credentials (tables s))" "1 \<in> p_id ` set (projects (tables s))"
  obtains u s' where "CreateUserWithCredentials name h nick s = (Inr (scanUser u), s')" "faults s' = []"
    "u = new_user_row name nick (seqs s ''users'' + 1) (db_now s)" "seqs s' = (seqs s)(''users'' := seqs s ''users'' + 1)"
    "users (tables s') = users (tables s) @ [u]" "user_sessions (tables s') = user_sessions (tables s)"
    "user_credentials (tables s') = user_credentials (tables s) @
       [\<lparr>cr_user_id = u_id u, cr_username = name, cr_password_hash = h, cr_password_algo = ''bcrypt''\<rparr>]"
proof -
  let ?i = "seqs s ''users'' + 1"
  let ?u = "new_user_row name nick ?i (db_now s)"
  have i: "?i \<notin> u_id ` set (users (tables s))" using assms(3) by (force simp: ids_below_def)
  have 1: "\<not> exists_row (\<lambda>r. u_id r = ?i \<or> u_username r = name) (users (tables s))" "exists_row (\<lambda>p. p_id p = 1) (projects (tables s))"
    using i assms(5,7) by (force simp: exists_row_iff)+
  have 2: "\<not> exists_row (\<lambda>r. cr_user_id r = ?i \<or> cr_username r = name) (user_credentials (tables s))"
    using i assms(1,6) unfolding accounts_ok_def exists_row_iff by (metis image_eqI)
  have m: "users (ensure_default_project_membership u t) = users t" "user_credentials (ensure_default_project_membership u t) = user_credentials t"
    "user_sessions (ensure_default_project_membership u t) = user_sessions t" for u t
    by (simp_all add: ensure_default_project_membership_def)
  have x: "usr_ID (scanUser ?u) = ?i" "u_id ?u = ?i" by (simp_all add: scanUser_def new_user_row_def)
  have e: "exists_row (\<lambda>u. u_id u = ?i) (users (tables s) @ [?u])" using x(2) by (simp add: exists_row_def)
  let ?t = "(ensure_default_project_membership ?u ((tables s)\<lparr>users := users (tables s) @ [?u]\<rparr>))"
  let ?s = "s\<lparr>seqs := (seqs s)(''users'' := ?i), tables := ?t\<lparr>user_credentials := user_credentials (tables s) @
       [\<lparr>cr_user_id = ?i, cr_username = name, cr_password_hash = h, cr_password_algo = ''bcrypt''\<rparr>]\<rparr>\<rparr>"
  have run: "CreateUserWithCredentials name h nick s = (Inr (scanUser ?u), ?s)"
    using assms(2,4) 1 2 e x by (simp add: CreateUserWithCredentials_def in_tx_nil CreateUserWithCredentials_body_def bindE_def mapErr_def
         insert_user_def insert_serial_def insert_credential_def execE_def Let_def user_exists_def m)
  show thesis by (rule that [OF run _ refl]) (use assms(2) x in \<open>simp_all add: m\<close>)
qed

text \<open>
  C30. A registered user can log in: with a database that answers, a registration with valid and unused names succeeds, and the
  login with the same name and password that follows succeeds and returns the same user. Relied on: the hash bcrypt
  generates for a password matches it, tokens can be signed, and the two refresh tokens are new.
\<close>

theorem register_then_login:
  assumes "accounts_ok (tables s)" "faults s = []" "ids_below (seqs s) (tables s)" "seqs s ''users'' < max_bigint"
    and "seqs s ''user_sessions'' + 1 < max_bigint" "registrable sv input (tables s)"
    and "bcrypt_generate (as_lib sv) (ri_Password input) (BcryptCost (as_cfg sv)) = Inr h" "bcrypt_matches (as_lib sv) h (ri_Password input)"
    and "\<And>k c. \<exists>t. jwt_sign (as_lib sv) k c = Inr t" "ae_jti env \<noteq> None" "ae_jti env' \<noteq> None"
    and "token_free sv env (tables s)" "token_free sv env' (tables s)"
    and "ae_refresh env = Some b" "ae_refresh env' = Some b'" "hashToken (as_lib sv) (EncodeToString b) \<noteq> hashToken (as_lib sv) (EncodeToString b')"
  shows "\<exists>resp s1 resp' s2. Register sv env input s = (Inr resp, s1) \<and>
    Login sv env' \<lparr>li_Username = ri_Username input, li_Password = ri_Password input, li_UserAgent = ua, li_IPAddress = ip\<rparr> s1 = (Inr resp', s2) \<and>
    ar_User resp' = ar_User resp"
proof -
  let ?name = "normalizeUsername (as_lib sv) (ri_Username input)" and ?nick = "TrimSpace (ri_Nickname input)"
  note rg = assms(6) [unfolded registrable_def Let_def]
  obtain u s1 where u: "CreateUserWithCredentials ?name h ?nick s = (Inr (scanUser u), s1)" "faults s1 = []"
    "u = new_user_row ?name ?nick (seqs s ''users'' + 1) (db_now s)" "seqs s1 = (seqs s)(''users'' := seqs s ''users'' + 1)"
    "users (tables s1) = users (tables s) @ [u]" "user_sessions (tables s1) = user_sessions (tables s)"
    "user_credentials (tables s1) = user_credentials (tables s) @
       [\<lparr>cr_user_id = u_id u, cr_username = ?name, cr_password_hash = h, cr_password_algo = ''bcrypt''\<rparr>]"
    by (rule CreateUser_run [OF assms(1-4)]) (use rg in auto)
  have id: "usr_ID (scanUser u) = u_id u" "u_id u = seqs s ''users'' + 1" using u(3) by (simp_all add: scanUser_def new_user_row_def)
  have below: "ids_below (seqs s1) (tables s1)" using assms(3) u(4-6) id(2) by (force simp: ids_below_def)
  have free: "token_free sv env (tables s1)" "token_free sv env' (tables s1)" using assms(12-15) u(6) by (simp_all add: token_free_def)
  have ex: "user_exists (usr_ID (scanUser u)) (tables s1)" using u(5) id by (simp add: user_exists_def exists_row_def)
  obtain resp s2 where i: "issueTokens sv env (scanUser u) (ri_UserAgent input) (ri_IPAddress input) s1 = (Inr resp, s2)" "faults s2 = []"
    "seqs s2 = (seqs s1)(''user_sessions'' := seqs s1 ''user_sessions'' + 1)"
    using issueTokens_run [OF u(2) free(1) below _ ex assms(10) assms(9)] assms(5) u(4) by fastforce
  have reg: "Register sv env input s = (Inr resp, s2)"
    using rg assms(7) u(1) i(1) by (simp add: Register_def Let_def bindE_def require_def guardE_def liftE_def hashPassword_def)
  from i(1) obtain n where n: "ar_User resp = scanUser u" "tables s2 = (tables s1)\<lparr>user_sessions := user_sessions (tables s1) @ [n]\<rparr>"
    "s_refresh_token_hash n = hashToken (as_lib sv) (ar_RefreshToken resp)" and nid: "s_id n = seqs s1 ''user_sessions'' + 1" by (rule issueTokens_Inr)
  have tok: "ar_RefreshToken resp = EncodeToString b"
    using i(1) assms(14) by (auto simp: issueTokens_def bindE_Inr liftE_def randomToken_def)
  have below2: "ids_below (seqs s2) (tables s2)" using below n(2) nid i(3) by (force simp: ids_below_def)
  have free2: "token_free sv env' (tables s2)" using free(2) n tok assms(15,16) by (auto simp: token_free_def)
  have fu: "find_user (u_id u) (tables s2) = Some u"
  proof -
    have "\<And>x. x \<in> set (users (tables s)) \<Longrightarrow> u_id x \<noteq> u_id u" using assms(3) id(2) by (force simp: ids_below_def)
    then show ?thesis using u(5) n(2) by (simp add: find_user_def find_snoc_new)
  qed
  let ?c = "\<lparr>cr_user_id = u_id u, cr_username = ?name, cr_password_hash = h, cr_password_algo = ''bcrypt''\<rparr>"
  have uc: "user_credentials (tables s2) = user_credentials (tables s) @ [?c]" using u(7) n(2) by simp
  have "find (\<lambda>c. cr_username c = ?name \<and> find_user (cr_user_id c) (tables s2) \<noteq> None) (user_credentials (tables s2)) = Some ?c"
    unfolding uc by (rule find_snoc_new) (use rg fu in \<open>auto simp: image_iff\<close>)
  then have q: "GetCredentialByUsername ?name s2 =
      (Inr (\<lparr>cred_UserID = u_id u, cred_Username = ?name, cred_PasswordHash = h, cred_PasswordAlgo = ''bcrypt''\<rparr>, scanUser u), s2)"
    using i(2) fu by (simp add: GetCredentialByUsername_def mapErr_def)
  obtain resp' s3 where l: "issueTokens sv env' (scanUser u) ua ip s2 = (Inr resp', s3)"
    using issueTokens_run [OF i(2) free2 below2 _ _ assms(11) assms(9), of "scanUser u"] assms(5) u(4) i(3) ex n(2) by (fastforce simp: user_exists_def)
  have "ar_User resp' = scanUser u" using l by (rule issueTokens_Inr)
  moreover have "Login sv env' \<lparr>li_Username = ri_Username input, li_Password = ri_Password input, li_UserAgent = ua, li_IPAddress = ip\<rparr> s2 = (Inr resp', s3)"
    using rg q l assms(8) by (simp add: Login_def Let_def bindE_def guardE_def mapErr_def)
  ultimately show ?thesis using reg n(1) by (intro exI [of _ resp] exI [of _ s2] exI [of _ resp'] exI [of _ s3]) simp
qed

definition sample_register :: RegisterInput where
  "sample_register = \<lparr>ri_Username = ''bob'', ri_Password = ''password'', ri_Nickname = [], ri_UserAgent = [], ri_IPAddress = []\<rparr>"

definition sample_env2 :: auth_env where
  "sample_env2 = sample_env\<lparr>ae_refresh := Some ''a''\<rparr>"

definition sample_auth2 :: AuthService where
  "sample_auth2 = sample_auth\<lparr>as_lib := sample_lib\<lparr>lib_sha256 := map byte\<rparr>\<rparr>"

lemma sample_registrable: "registrable sample_auth2 sample_register sample_store"
  by (simp add: registrable_def sample_register_def validatePassword_def sample_store_def bob_name Let_def)


theorem register_then_login_witness:
  "\<exists>resp s1 resp' s2. Register sample_auth2 sample_env sample_register (sample_db\<lparr>seqs := \<lambda>_. 10\<rparr>) = (Inr resp, s1) \<and>
    Login sample_auth2 sample_env2 \<lparr>li_Username = ''bob'', li_Password = ''password'', li_UserAgent = [], li_IPAddress = []\<rparr> s1 = (Inr resp', s2) \<and>
    ar_User resp' = ar_User resp"
proof -
  have "hashToken (as_lib sample_auth2) (EncodeToString []) \<noteq> hashToken (as_lib sample_auth2) (EncodeToString ''a'')"
    by (simp add: hashToken_def sample_auth2_def sample_auth_def hex_encode_def)
  then show ?thesis
    using register_then_login [of "sample_db\<lparr>seqs := \<lambda>_. 10\<rparr>" sample_auth2 sample_register "''password''" sample_env sample_env2 "[]" "''a''" "[]" "[]"]
      sample_registrable
    by (simp add: sample_register_def sample_auth2_def sample_env2_def sample_auth_defs accounts_ok_def replaced_ok_def ids_below_def token_free_def max_bigint_def)
qed

section \<open>Invariants and bearer tokens\<close>

text \<open>
  C31. The account tables keep their constraints in every reachable state, for every interleaving of the operations and every
  pattern of failures: user names, user ids, credentials and refresh token hashes are unique, sessions and credentials belong to
  existing users, and a session that was replaced is revoked.
\<close>

theorem auth_keeps_accounts:
  assumes "accounts_ok (tables s)" "(auth_step sv)\<^sup>*\<^sup>* s s'"
  shows "accounts_ok (tables s')"
  using auth_steps_rel [OF assms(2)] assms(1) by (simp add: account_rel_def)

theorem auth_keeps_accounts_witness:
  "accounts_ok (tables (snd (run_auth sample_auth (CallLogout ''tok'') sample_auth_db)))"
proof -
  have "auth_step sample_auth sample_auth_db (snd (run_auth sample_auth (CallLogout ''tok'') sample_auth_db))"
    by (rule auth_step.Call [OF prod.collapse [symmetric]])
  then show ?thesis using auth_keeps_accounts [OF sample_auth_db_ok] by blast
qed


definition sample_claims :: accessClaims where
  "sample_claims = \<lparr>ac_UserID = 7, ac_Username = ''ann'', ac_Role = ''admin'', ac_Status = ''active'', ac_Subject = ''7'', ac_ID = [],
     ac_IssuedAt = 0, ac_ExpiresAt = 100\<rparr>"


text \<open>
  Passwords of 73 to 128 bytes pass the validation and then fail: bcrypt refuses passwords of more than 72 bytes, so the
  registration ends with bcrypt's error instead of a validation error, and stores nothing.
\<close>

theorem register_long_password:
  assumes "\<And>p c. 72 < length p \<Longrightarrow> bcrypt_generate (as_lib sv) p c = Inl (ErrorString m)"
    and "72 < length (ri_Password input)" "length (ri_Password input) \<le> 128" "registrable sv input t"
  shows "validatePassword (ri_Password input) = None \<and> Register sv env input s = (Inl (ErrorString m), s)"
  using assms(2,3) assms(4) [unfolded registrable_def Let_def] assms(1) [OF assms(2)]
  by (simp add: Register_def Let_def bindE_def require_def guardE_def liftE_def hashPassword_def)

theorem register_long_password_witness:
  "Register (sample_auth2\<lparr>as_lib := (as_lib sample_auth2)\<lparr>bcrypt_generate := (\<lambda>p _. if 72 < length p then Inl (ErrorString ''long'') else Inr p)\<rparr>\<rparr>)
     sample_env (sample_register\<lparr>ri_Password := replicate 80 CHR ''x''\<rparr>) sample_db = (Inl (ErrorString ''long''), sample_db)"
proof -
  let ?sv = "sample_auth2\<lparr>as_lib := (as_lib sample_auth2)\<lparr>bcrypt_generate := (\<lambda>p _. if 72 < length p then Inl (ErrorString ''long'') else Inr p)\<rparr>\<rparr>"
  let ?in = "sample_register\<lparr>ri_Password := replicate 80 CHR ''x''\<rparr>"
  have "registrable ?sv ?in sample_store"
    using sample_registrable by (simp add: registrable_def normalizeUsername_def validatePassword_def Let_def)
  then show ?thesis
    using register_long_password [of ?sv "''long''" ?in sample_store sample_env sample_db] by simp
qed

end
