(* ===== verification/Agent_Props.thy ===== *)
theory Agent_Props
  imports Agent Auth_Props
begin

text \<open>
  Agent runs over time: the history of a run under the API, the dispatching runtime and the triggers, idempotent creation,
  and who may create, see and cancel a run.
\<close>

section \<open>The table and its history\<close>

definition keyed :: "agent_run_row list \<Rightarrow> (int \<times> string option) list" where
  "keyed rows = map (\<lambda>r. (ag_requested_by r, ag_idempotency_key r)) (filter (\<lambda>r. ag_idempotency_key r \<noteq> None) rows)"

definition runs_ok :: "rag_store \<Rightarrow> bool" where
  "runs_ok t = (distinct (map ag_id (agent_runs t)) \<and> distinct (keyed (agent_runs t)))"

definition run_later :: "agent_run_row \<Rightarrow> agent_run_row \<Rightarrow> bool" where
  "run_later r r' = (run_lineage r' = run_lineage r \<and> status_step\<^sup>*\<^sup>* (ag_status r) (ag_status r') \<and> (terminal (ag_status r) \<longrightarrow> r' = r))"

definition runs_rel :: "rag_store \<Rightarrow> rag_store \<Rightarrow> bool" where
  "runs_rel t t' = (runs_ok t \<longrightarrow> runs_ok t' \<and> (\<forall>r\<in>set (agent_runs t). \<exists>r'\<in>set (agent_runs t'). run_later r r'))"

lemma run_later_refl [simp, intro]: "run_later r r"
  by (simp add: run_later_def)

lemma run_later_trans: "run_later r r1 \<Longrightarrow> run_later r1 r2 \<Longrightarrow> run_later r r2"
  by (auto simp: run_later_def)

interpretation runs: db_preorder runs_rel
  unfolding runs_rel_def by unfold_locales (auto, meson run_later_trans)

lemma runs_rel_same: "agent_runs t' = agent_runs t \<Longrightarrow> runs_rel t t'"
  by (auto simp: runs_rel_def runs_ok_def)

lemma lineage_ids: "run_lineage r' = run_lineage r \<Longrightarrow>
   ag_id r' = ag_id r \<and> ag_requested_by r' = ag_requested_by r \<and> ag_idempotency_key r' = ag_idempotency_key r \<and>
   ag_request_hash r' = ag_request_hash r \<and> ag_retrieval_plan r' = ag_retrieval_plan r \<and> ag_prompt_version_id r' = ag_prompt_version_id r"
  by (simp add: run_lineage_def)

lemma keyed_update:
  assumes "\<And>r. r \<in> set rows \<Longrightarrow> P r \<Longrightarrow> ag_requested_by (f r) = ag_requested_by r \<and> ag_idempotency_key (f r) = ag_idempotency_key r"
  shows "keyed (update_where P f rows) = keyed rows"
  using assms by (induction rows) (auto simp: keyed_def update_where_def)

lemma map_id_update:
  assumes "\<And>r. r \<in> set rows \<Longrightarrow> P r \<Longrightarrow> ag_id (f r) = ag_id r"
  shows "map ag_id (update_where P f rows) = map ag_id rows"
  using assms by (induction rows) (auto simp: update_where_def)

lemma runs_rel_update:
  assumes "\<And>r. r \<in> set (agent_runs t) \<Longrightarrow> P r \<Longrightarrow> run_later r (f r)"
  shows "runs_rel t (t\<lparr>agent_runs := update_where P f (agent_runs t)\<rparr>)"
proof -
  have l: "ag_id (f r) = ag_id r \<and> ag_requested_by (f r) = ag_requested_by r \<and> ag_idempotency_key (f r) = ag_idempotency_key r"
    if "r \<in> set (agent_runs t)" "P r" for r
    using lineage_ids [of "f r" r] assms [OF that] by (simp add: run_later_def)
  have "\<exists>r'\<in>set (update_where P f (agent_runs t)). run_later r r'" if "r \<in> set (agent_runs t)" for r
    by (rule bexI [of _ "if P r then f r else r"]) (use that assms in \<open>auto simp: update_where_def\<close>)
  then show ?thesis using l by (simp add: runs_rel_def runs_ok_def keyed_update map_id_update)
qed

text \<open>What the triggers accept is a step of the history.\<close>

lemma validated_later:
  assumes "validate_agent_run_update t r r' = None"
  shows "run_later r r'"
  using assms by (auto simp: validate_agent_run_update_def run_later_def split: if_splits)

lemmas status_defs = StatusQueued_def StatusRunning_def StatusSucceeded_def StatusFailed_def StatusCancelled_def

lemma cancel_later:
  assumes "ag_status r \<in> {StatusQueued, StatusRunning}"
  shows "run_later r (cancel_columns now r)"
proof -
  have "run_lineage (cancel_columns now r) = run_lineage r" by (simp add: run_lineage_def cancel_columns_def)
  moreover have "status_step (ag_status r) (ag_status (cancel_columns now r))" by (simp add: status_step_def cancel_columns_def)
  moreover have "\<not> terminal (ag_status r)" using assms by (auto simp: terminal_def status_defs)
  ultimately show ?thesis by (simp add: run_later_def r_into_rtranclp)
qed

section \<open>Statements\<close>

lemma insert_run_Inr:
  assumes "insert_run lib uuid input s = (Inr x, s')"
  shows "x = uuid \<and> s' = (stmt_next s)\<lparr>tables := (tables s)\<lparr>agent_runs := agent_runs (tables s) @ [new_run_row lib uuid input (db_now s)]\<rparr>\<rparr> \<and>
    \<not> exists_row (same_key (rec_RequestedBy input) (nullif_empty (rec_IdempotencyKey input))) (agent_runs (tables s)) \<and>
    \<not> exists_row (\<lambda>r. ag_id r = uuid) (agent_runs (tables s)) \<and>
    validate_agent_run_insert (tables s) (new_run_row lib uuid input (db_now s)) = None"
  using assms by (auto simp: insert_run_def execE_Inr Let_def new_run_row_def split: option.splits if_splits)

lemma keyed_append: "keyed (rows @ [r]) = keyed rows @ (if ag_idempotency_key r = None then [] else [(ag_requested_by r, ag_idempotency_key r)])"
  by (simp add: keyed_def)

lemma runs_rel_append:
  assumes "\<not> exists_row (same_key (ag_requested_by r) (ag_idempotency_key r)) (agent_runs t)" "\<not> exists_row (\<lambda>x. ag_id x = ag_id r) (agent_runs t)"
  shows "runs_rel t (t\<lparr>agent_runs := agent_runs t @ [r]\<rparr>)"
proof -
  have "ag_idempotency_key r \<noteq> None \<Longrightarrow> (ag_requested_by r, ag_idempotency_key r) \<notin> set (keyed (agent_runs t))"
    using assms(1) by (auto simp: keyed_def exists_row_iff same_key_def)
  moreover have "ag_id r \<notin> ag_id ` set (agent_runs t)" using assms(2) by (auto simp: exists_row_iff)
  ultimately show ?thesis by (auto simp: runs_rel_def runs_ok_def keyed_append)
qed

lemma evolves_insert_run: "evolves runs_rel (insert_run lib uuid input)"
  unfolding insert_run_def
  by (rule runs.evolves_execE)
    (auto simp: Let_def new_run_row_def split: option.splits if_splits intro!: runs_rel_append)

lemma evolves_cancel_update: "evolves runs_rel (cancel_update i u admin)"
  unfolding cancel_update_def
  by (rule runs.evolves_execE) (auto simp: Let_def split: option.splits intro!: runs_rel_update cancel_later)

lemma evolves_rag:
  "evolves runs_rel (liftE r)" "evolves runs_rel (guardE b e)" "evolves runs_rel (require x)"
  "(\<And>i. evolves runs_rel (k i)) \<Longrightarrow> evolves runs_rel (with_uuid lib raw k)"
  "(\<And>y. evolves runs_rel (m y)) \<Longrightarrow> evolves runs_rel n \<Longrightarrow> evolves runs_rel (case z of None \<Rightarrow> n | Some y \<Rightarrow> m y)"
  unfolding liftE_def guardE_def require_def with_uuid_def
  by (auto intro!: runs.evolves_rules split: option.splits)

lemma evolves_load_run: "evolves runs_rel (load_run lib P)"
  unfolding load_run_def by (intro runs.evolves_rules evolves_rag)

lemma evolves_agent_CreateRun: "evolves runs_rel (agent_CreateRun lib uuid input)"
  unfolding agent_CreateRun_def agent_CreateRun_body_def
  by (intro runs.evolves_in_tx evolves_evolves_ok runs.evolves_rules evolves_rag evolves_insert_run evolves_load_run)

lemma evolves_agent_CancelRun: "evolves runs_rel (agent_CancelRun lib i u admin)"
  unfolding agent_CancelRun_def agent_CancelRun_body_def
  by (intro runs.evolves_in_tx evolves_evolves_ok runs.evolves_rules evolves_rag evolves_cancel_update evolves_load_run)

lemma evolves_svc_CreateRun: "evolves runs_rel (svc_CreateRun lib env current input)"
  unfolding svc_CreateRun_def ResolveScope_def ResolveAccess_def GetPromptVersion_def Let_def
  by (intro runs.evolves_rules evolves_rag evolves_agent_CreateRun)

lemma evolves_svc_CancelRun: "evolves runs_rel (svc_CancelRun lib current i)"
  unfolding svc_CancelRun_def check_run_id_def by (intro runs.evolves_rules evolves_rag evolves_agent_CancelRun)

section \<open>Runs in the system\<close>

text \<open>
  The API creates and cancels runs; the runtime that executes them changes a row in any way the trigger accepts; all
  other tables change arbitrarily; the environment moves the clock and decides which statements fail.
\<close>

inductive agent_step :: "agent_lib \<Rightarrow> rag_store db \<Rightarrow> rag_store db \<Rightarrow> bool" for lib where
  Create: "svc_CreateRun lib env current input s = (x, s') \<Longrightarrow> agent_step lib s s'"
| Cancel: "svc_CancelRun lib current i s = (y, s') \<Longrightarrow> agent_step lib s s'"
| Runtime: "r \<in> set (agent_runs (tables s)) \<Longrightarrow> validate_agent_run_update (tables s) r r' = None \<Longrightarrow>
    agent_step lib s (s\<lparr>tables := (tables s)\<lparr>agent_runs := update_where (\<lambda>q. q = r) (\<lambda>_. r') (agent_runs (tables s))\<rparr>\<rparr>)"
| Data: "agent_runs t' = agent_runs (tables s) \<Longrightarrow> agent_step lib s (s\<lparr>tables := t', faults := fs, db_now := now\<rparr>)"

lemma agent_step_rel: "agent_step lib s s' \<Longrightarrow> runs_rel (tables s) (tables s')"
proof (induction rule: agent_step.induct)
  case (Create env current input s x s')
  then show ?case by (rule evolvesD [OF evolves_svc_CreateRun])
next
  case (Cancel current i s y s')
  then show ?case by (rule evolvesD [OF evolves_svc_CancelRun])
next
  case (Runtime r s r')
  then show ?case using runs_rel_update [of "tables s" "\<lambda>q. q = r" "\<lambda>_. r'"] validated_later by simp
qed (simp add: runs_rel_same)

lemma agent_steps_rel: "(agent_step lib)\<^sup>*\<^sup>* s s' \<Longrightarrow> runs_rel (tables s) (tables s')"
  by (induction rule: rtranclp_induct) (auto intro: runs.refl runs.trans agent_step_rel)

section \<open>What a request resolves to\<close>

definition resolved_scope :: "(string \<Rightarrow> int) \<Rightarrow> CreateRunInput \<Rightarrow> rag_store \<Rightarrow> Scope option" where
  "resolved_scope coll input t =
     (case List.map_filter (scope_of t) (sort_key (newest_run_key coll)
        (filter (scope_filter (ci_ProjectID input) (ci_DatasetVersionID input) (TrimSpace (ci_IngestionRunID input))) (ingestion_runs (evid t)))) of
        [] \<Rightarrow> None | sc # _ \<Rightarrow> Some sc)"

definition default_prompt :: "rag_store \<Rightarrow> PromptVersion option" where
  "default_prompt t = map_option scan_prompt
     (find (\<lambda>p. pv_prompt_key p = DefaultPromptKey \<and> pv_version p = DefaultPromptVersion \<and> pv_status p = ''frozen'') (agent_prompt_versions t))"

definition request_record :: "agent_lib \<Rightarrow> run_env \<Rightarrow> CurrentUser \<Rightarrow> CreateRunInput \<Rightarrow> Scope \<Rightarrow> string \<Rightarrow> PromptVersion \<Rightarrow> createRecord" where
  "request_record lib env current input scope access prompt =
     (let budget = applyBudgetDefaults (ci_Budget input); contract = contract_of scope (ci_Mode input) access in
      \<lparr>rec_ProjectID = sc_ProjectID scope, rec_DatasetVersionID = sc_DatasetVersionID scope, rec_IngestionRunID = sc_IngestionRunID scope,
       rec_RequestedBy = cu_ID current, rec_Query = ci_Query input, rec_Mode = ci_Mode input, rec_Intent = pending_intent,
       rec_RetrievalPlan = contract, rec_PromptVersionID = prompt_ID prompt, rec_Budget = budget,
       rec_IdempotencyKey = ci_IdempotencyKey input, rec_RequestHash = hashRunRequest lib (ci_Query input) contract prompt budget,
       rec_RequestID = re_RequestID env, rec_TraceID = re_TraceID env\<rparr>)"

definition admissible :: "agent_lib \<Rightarrow> CurrentUser \<Rightarrow> CreateRunInput \<Rightarrow> rag_store \<Rightarrow> Scope \<Rightarrow> PromptVersion \<Rightarrow> bool" where
  "admissible lib current input0 t scope prompt =
     (let input = normalize_run lib input0 in
      0 < cu_ID current \<and> cu_Status current = ''active'' \<and> run_input_error input = None \<and>
      validateBudget (applyBudgetDefaults (ci_Budget input)) = None \<and> resolved_scope (al_coll lib) input t = Some scope \<and>
      project_access (core t) (sc_ProjectID scope) (cu_ID current) \<noteq> ''none'' \<and> validateScopeForMode scope (ci_Mode input) = None \<and>
      default_prompt t = Some prompt)"

lemma requireE_Inr: "require e s = (Inr x, s') \<longleftrightarrow> e = None \<and> s' = s"
  by (cases e) (auto simp: require_def)

lemma guard_Inr: "guardE b e s = (Inr x, s') \<longleftrightarrow> \<not> b \<and> s' = s"
  by (auto simp: guardE_def)

lemma ResolveScope_Inr:
  "ResolveScope coll (ci_ProjectID input) (ci_DatasetVersionID input) (ci_IngestionRunID input) s = (Inr sc, s') \<longleftrightarrow>
   stmt_ok s \<and> resolved_scope coll input (tables s) = Some sc \<and> s' = stmt_next s"
  by (simp add: ResolveScope_def query_row_Inr resolved_scope_def)

lemma GetPromptVersion_Inr:
  "GetPromptVersion DefaultPromptKey DefaultPromptVersion s = (Inr p, s') \<longleftrightarrow> stmt_ok s \<and> default_prompt (tables s) = Some p \<and> s' = stmt_next s"
  by (simp add: GetPromptVersion_def query_row_Inr default_prompt_def)

lemma svc_CreateRun_Inr:
  assumes "svc_CreateRun lib env current input s = (Inr res, s')"
  obtains scope prompt s1 where "admissible lib current input (tables s) scope prompt" "tables s1 = tables s"
    "agent_CreateRun lib (re_uuid env) (request_record lib env current (normalize_run lib input) scope
       (project_access (core (tables s)) (sc_ProjectID scope) (cu_ID current)) prompt) s1 = (Inr (res_Run res, res_Replayed res), s')"
  using assms
  unfolding svc_CreateRun_def Let_def bindE_Inr guard_Inr requireE_Inr ResolveAccess_def mapErr_Inr ResolveScope_Inr GetPromptVersion_Inr selectE_Inr
proof (elim exE conjE, goal_cases)
  case prems: (1 x1 s1 x2 s2 x3 s3 x4 s4 scope s5 access s6 x7 s7 x8 s8 prompt s9 run s10)
  have t: "tables s9 = tables s" "tables s5 = tables s" "tables s8 = tables s" using prems by simp_all
  have "agent_CreateRun lib (re_uuid env) (request_record lib env current (normalize_run lib input) scope
       (project_access (core (tables s)) (sc_ProjectID scope) (cu_ID current)) prompt) s9 = (Inr (res_Run res, res_Replayed res), s')"
    using prems t by (auto simp: request_record_def Let_def split: prod.splits)
  then show ?case
    using prems t by (intro that [of scope prompt s9]) (auto simp: admissible_def Let_def)
qed

lemma svc_CreateRun_run:
  assumes "faults s = []" "admissible lib current input (tables s) scope prompt"
    and "agent_CreateRun lib (re_uuid env) (request_record lib env current (normalize_run lib input) scope
       (project_access (core (tables s)) (sc_ProjectID scope) (cu_ID current)) prompt) s = (Inr (run, replayed), s')"
  shows "svc_CreateRun lib env current input s = (Inr \<lparr>res_Run = run, res_Replayed = replayed\<rparr>, s')"
proof -
  note a = assms(2) [unfolded admissible_def Let_def]
  have r: "ResolveScope (al_coll lib) (ci_ProjectID (normalize_run lib input)) (ci_DatasetVersionID (normalize_run lib input))
      (ci_IngestionRunID (normalize_run lib input)) s = (Inr scope, s)"
    using a assms(1) by (simp add: ResolveScope_Inr)
  have p: "GetPromptVersion DefaultPromptKey DefaultPromptVersion s = (Inr prompt, s)"
    using a assms(1) by (simp add: GetPromptVersion_Inr)
  show ?thesis
    using a assms(1,3) r p
    by (simp add: svc_CreateRun_def Let_def bindE_def guardE_def require_def mapErr_def ResolveAccess_def request_record_def)
qed

section \<open>Creation\<close>

lemma insert_step_Inr:
  assumes "or_no_rows None (bindE (insert_run lib uuid input) (\<lambda>i. returnE (Some i))) s = (Inr x, s')"
  obtains (inserted) "x = Some uuid" "tables s' = (tables s)\<lparr>agent_runs := agent_runs (tables s) @ [new_run_row lib uuid input (db_now s)]\<rparr>"
      "\<not> exists_row (same_key (rec_RequestedBy input) (nullif_empty (rec_IdempotencyKey input))) (agent_runs (tables s))"
      "\<not> exists_row (\<lambda>r. ag_id r = uuid) (agent_runs (tables s))"
      "validate_agent_run_insert (tables s) (new_run_row lib uuid input (db_now s)) = None"
  | (conflict) "x = None" "tables s' = tables s" "validate_agent_run_insert (tables s) (new_run_row lib uuid input (db_now s)) = None"
proof (cases "insert_run lib uuid input s")
  case (Pair r1 s1)
  show thesis
  proof (cases r1)
    case (Inl e)
    then have e: "errors_is e SqlErrNoRows" "x = None" "s' = s1" using assms Pair by (auto simp: or_no_rows_def bindE_def split: if_splits)
    have "validate_agent_run_insert (tables s) (new_run_row lib uuid input (db_now s)) = None \<and> tables s1 = tables s"
      using stmt_Inl_no_rows [of _ s e s1] Pair Inl e(1) unfolding insert_run_def execE_def Let_def
      by (fastforce simp: validate_agent_run_insert_def raised_def split: option.splits if_splits)
    then show thesis using e conflict by simp
  next
    case (Inr y)
    then have "insert_run lib uuid input s = (Inr y, s1)" "x = Some y" "s' = s1" using assms Pair by (auto simp: or_no_rows_def bindE_def)
    then show thesis using insert_run_Inr [of lib uuid input s y s1] inserted by simp
  qed
qed

lemma joined_in: "(r, p, m) \<in> set (joined_runs t) \<Longrightarrow> r \<in> set (agent_runs t)"
  by (auto simp: joined_runs_def List.map_filter_def)

lemma load_run_Inr:
  assumes "load_run lib P s = (Inr run, s')"
  obtains r where "r \<in> set (agent_runs (tables s))" "P r" "run_ID run = ag_id r" "run_RequestedBy run = ag_requested_by r" "run_Status run = ag_status r"
    "run_CancellationRequested run = ag_cancellation_requested r"
    "plan_unjson lib (ag_retrieval_plan r) = Some (run_RetrievalPlan run)" "find (\<lambda>p. pv_id p = ag_prompt_version_id r) (agent_prompt_versions (tables s)) \<noteq> None"
    "tables s' = tables s"
proof -
  obtain r p m where f: "find (\<lambda>(r, _). P r) (joined_runs (tables s)) = Some (r, p, m)" and sc: "scanRun lib (r, p, m) = Inr run" and t: "tables s' = tables s"
    using assms by (auto simp: load_run_def bindE_Inr query_row_Inr liftE_def)
  have m: "(r, p, m) \<in> set (joined_runs (tables s))" "P r" using find_set [OF f] by auto
  have "find (\<lambda>p. pv_id p = ag_prompt_version_id r) (agent_prompt_versions (tables s)) \<noteq> None"
    using m(1) by (auto simp: joined_runs_def List.map_filter_def)
  then show thesis
    using that [of r] joined_in [OF m(1)] m(2) sc t by (auto simp: scanRun_def split: option.splits)
qed

text \<open>A run that was created or replayed is in the table, under the key and hash of the request.\<close>

lemma agent_CreateRun_Inr:
  assumes "agent_CreateRun lib uuid input s = (Inr (run, replayed), s')"
  obtains r where "r \<in> set (agent_runs (tables s'))" "ag_id r = run_ID run" "plan_unjson lib (ag_retrieval_plan r) \<noteq> None"
    "find (\<lambda>p. pv_id p = ag_prompt_version_id r) (agent_prompt_versions (tables s')) \<noteq> None"
    "validate_agent_run_insert (tables s) (new_run_row lib uuid input (db_now s)) = None"
    "rec_IdempotencyKey input \<noteq> [] \<Longrightarrow> \<exists>q\<in>set (agent_runs (tables s')). ag_id q = run_ID run \<and>
       same_key (rec_RequestedBy input) (Some (rec_IdempotencyKey input)) q \<and> ag_request_hash q = rec_RequestHash input"
    "\<not> replayed \<Longrightarrow> tables s' = (tables s)\<lparr>agent_runs := agent_runs (tables s) @ [new_run_row lib uuid input (db_now s)]\<rparr>"
    "replayed \<Longrightarrow> tables s' = tables s"
proof -
  have "\<exists>s1. agent_CreateRun_body lib uuid input (stmt_next s) = (Inr (Commit (run, replayed)), s1) \<and> tables s' = tables s1"
    using in_tx_Inr [OF assms [unfolded agent_CreateRun_def]]
    by (auto simp: agent_CreateRun_body_def bindE_Inr split: option.splits if_splits prod.splits)
  then obtain s1 where body: "agent_CreateRun_body lib uuid input (stmt_next s) = (Inr (Commit (run, replayed)), s1)" and t': "tables s' = tables s1" by blast
  obtain ins s2 i s3 where ins: "or_no_rows None (bindE (insert_run lib uuid input) (\<lambda>i. returnE (Some i))) (stmt_next s) = (Inr ins, s2)"
    and mid: "(case ins of Some runID \<Rightarrow> returnE (runID, False) | None \<Rightarrow>
          if rec_IdempotencyKey input = [] then throwE (ErrorString ''create agent run returned no row'')
          else bindE (mapErr (WrapError ''load idempotent agent run'') (query_row (\<lambda>t. map_option (\<lambda>r. (ag_id r, ag_request_hash r))
                 (find (same_key (rec_RequestedBy input) (Some (rec_IdempotencyKey input))) (agent_runs t))))) (\<lambda>(runID, existingHash).
               if existingHash \<noteq> rec_RequestHash input then throwE ErrIdempotencyConflict else returnE (runID, True))) s2 = (Inr (i, replayed), s3)"
    and ld: "load_run lib (\<lambda>r. ag_id r = i) s3 = (Inr run, s1)"
    using body by (auto simp: agent_CreateRun_body_def bindE_Inr)
  from ld obtain r where r: "r \<in> set (agent_runs (tables s3))" "ag_id r = i" "run_ID run = ag_id r" "plan_unjson lib (ag_retrieval_plan r) = Some (run_RetrievalPlan run)"
    "find (\<lambda>p. pv_id p = ag_prompt_version_id r) (agent_prompt_versions (tables s3)) \<noteq> None" "tables s1 = tables s3" by (rule load_run_Inr)
  from ins show thesis
  proof (cases rule: insert_step_Inr)
    case inserted
    then have "i = uuid" "\<not> replayed" "s3 = s2" using mid by auto
    moreover have "\<exists>q\<in>set (agent_runs (tables s2)). ag_id q = uuid \<and> same_key (rec_RequestedBy input) (Some (rec_IdempotencyKey input)) q \<and> ag_request_hash q = rec_RequestHash input"
      if "rec_IdempotencyKey input \<noteq> []"
      using inserted(2) that by (auto simp: new_run_row_def same_key_def nullif_empty_def)
    ultimately show thesis using that [of r] r t' inserted by auto
  next
    case conflict
    then have k: "rec_IdempotencyKey input \<noteq> []" "replayed" "tables s3 = tables s"
      and q: "\<exists>q. find (same_key (rec_RequestedBy input) (Some (rec_IdempotencyKey input))) (agent_runs (tables s)) = Some q \<and> ag_id q = i \<and> ag_request_hash q = rec_RequestHash input"
      using mid by (auto simp: bindE_Inr query_row_Inr split: if_splits)
    have "\<exists>q\<in>set (agent_runs (tables s)). ag_id q = i \<and> same_key (rec_RequestedBy input) (Some (rec_IdempotencyKey input)) q \<and> ag_request_hash q = rec_RequestHash input"
      using q by (auto dest!: find_set)
    then show thesis using that [of r] r t' k conflict by auto
  qed
qed

lemma validate_insert_same:
  "validate_agent_run_insert (t\<lparr>agent_runs := X\<rparr>) (new_run_row lib uuid' (input\<lparr>rec_RequestID := a, rec_TraceID := b\<rparr>) now') =
   validate_agent_run_insert t (new_run_row lib uuid input now)"
proof -
  have f: "ag_ingestion_run_id (new_run_row l u i n) = rec_IngestionRunID i" "ag_project_id (new_run_row l u i n) = rec_ProjectID i"
    "ag_dataset_version_id (new_run_row l u i n) = rec_DatasetVersionID i" "ag_prompt_version_id (new_run_row l u i n) = rec_PromptVersionID i"
    "ag_model_version_id (new_run_row l u i n) = None" "ag_status (new_run_row l u i n) = StatusQueued" for l u i n
    by (simp_all add: new_run_row_def)
  show ?thesis by (auto simp: validate_agent_run_insert_def scope_matches_def f split: option.split)
qed

lemma load_run_row:
  assumes "faults s = []" "distinct (map ag_id (agent_runs (tables s)))" "r \<in> set (agent_runs (tables s))" "plan_unjson lib (ag_retrieval_plan r) \<noteq> None"
    "find (\<lambda>p. pv_id p = ag_prompt_version_id r) (agent_prompt_versions (tables s)) \<noteq> None"
  obtains run where "load_run lib (\<lambda>x. ag_id x = ag_id r) s = (Inr run, s)" "run_ID run = ag_id r" "run_RequestedBy run = ag_requested_by r"
    "run_Status run = ag_status r" "run_CancellationRequested run = ag_cancellation_requested r"
proof -
  obtain p m where j: "(r, p, m) \<in> set (joined_runs (tables s))"
    using assms(3,5) by (force simp: joined_runs_def List.map_filter_def)
  then obtain r' p' m' where f: "find (\<lambda>(x, _). ag_id x = ag_id r) (joined_runs (tables s)) = Some (r', p', m')"
    by (cases "find (\<lambda>(x, _). ag_id x = ag_id r) (joined_runs (tables s))") (auto simp: find_None_iff)
  have "r' \<in> set (agent_runs (tables s))" "ag_id r' = ag_id r" using find_set [OF f] joined_in by fastforce+
  then have "r' = r" using assms(2,3) by (auto simp: distinct_map inj_on_def)
  then show thesis
    using that f assms(1,4) by (auto simp: load_run_def bindE_def liftE_def scanRun_def split: option.splits)
qed

lemma agent_CreateRun_replay:
  assumes "faults s = []" "runs_ok (tables s)" "validate_agent_run_insert (tables s) (new_run_row lib uuid input (db_now s)) = None"
    and q: "q \<in> set (agent_runs (tables s))" "same_key (rec_RequestedBy input) (Some (rec_IdempotencyKey input)) q"
    and "rec_IdempotencyKey input \<noteq> []" "plan_unjson lib (ag_retrieval_plan q) \<noteq> None"
    "find (\<lambda>p. pv_id p = ag_prompt_version_id q) (agent_prompt_versions (tables s)) \<noteq> None"
  shows "(ag_request_hash q = rec_RequestHash input \<longrightarrow> (\<exists>run. agent_CreateRun lib uuid input s = (Inr (run, True), s) \<and> run_ID run = ag_id q)) \<and>
    (ag_request_hash q \<noteq> rec_RequestHash input \<longrightarrow> agent_CreateRun lib uuid input s = (Inl ErrIdempotencyConflict, s))"
proof -
  have ex: "exists_row (same_key (rec_RequestedBy input) (Some (rec_IdempotencyKey input))) (agent_runs (tables s))"
    using q by (auto simp: exists_row_iff)
  have ins: "or_no_rows None (bindE (insert_run lib uuid input) (\<lambda>i. returnE (Some i))) s = (Inr None, s)"
    using assms(1,3,6) ex by (simp add: or_no_rows_def bindE_def insert_run_def execE_def Let_def new_run_row_def nullif_empty_def)
  obtain x where x: "find (same_key (rec_RequestedBy input) (Some (rec_IdempotencyKey input))) (agent_runs (tables s)) = Some x"
    using q by (cases "find (same_key (rec_RequestedBy input) (Some (rec_IdempotencyKey input))) (agent_runs (tables s))") (auto simp: find_None_iff)
  have "x = q"
  proof -
    have "inj_on (\<lambda>r. (ag_requested_by r, ag_idempotency_key r)) (set (filter (\<lambda>r. ag_idempotency_key r \<noteq> None) (agent_runs (tables s))))"
      using assms(2) by (simp add: runs_ok_def keyed_def distinct_map)
    then show ?thesis using find_set [OF x] q by (auto simp: inj_on_def same_key_def)
  qed
  note x = x [unfolded this]
  have d: "distinct (map ag_id (agent_runs (tables s)))" using assms(2) by (simp add: runs_ok_def)
  obtain run where "load_run lib (\<lambda>r. ag_id r = ag_id q) s = (Inr run, s)" "run_ID run = ag_id q"
    by (rule load_run_row [OF assms(1) d q(1) assms(7,8)])
  then show ?thesis
    using assms(1,6) ins x
    by (auto simp: agent_CreateRun_def in_tx_nil agent_CreateRun_body_def bindE_def mapErr_def)
qed

lemma admissible_same:
  "admissible lib current input (t\<lparr>agent_runs := X\<rparr>) scope prompt = admissible lib current input t scope prompt"
proof -
  have "scope_of (t\<lparr>agent_runs := X\<rparr>) = scope_of t" by (simp add: scope_of_def fun_eq_iff Let_def cong: option.case_cong)
  then show ?thesis by (simp add: admissible_def resolved_scope_def default_prompt_def Let_def)
qed

lemma admissible_det:
  "admissible lib current input t scope prompt \<Longrightarrow> admissible lib current input t scope' prompt' \<Longrightarrow> scope' = scope \<and> prompt' = prompt"
  by (simp add: admissible_def Let_def)

text \<open>
  C33. Creating a run is idempotent: after a request with an idempotency key succeeded, the same request by the same user is
  answered with the same run, marked as a replay, and changes nothing, whatever happened to runs in between, as long as the
  request still resolves to the same frozen data and the database answers.
\<close>

theorem create_run_replay:
  assumes "runs_ok (tables s)" "svc_CreateRun lib env current input s = (Inr res, s1)" "(agent_step lib)\<^sup>*\<^sup>* s1 s2"
    and "tables s2 = (tables s1)\<lparr>agent_runs := X\<rparr>" "faults s2 = []" "TrimSpace (ci_IdempotencyKey input) \<noteq> []"
  shows "\<exists>res'. svc_CreateRun lib env' current input s2 = (Inr res', s2) \<and> res_Replayed res' \<and> run_ID (res_Run res') = run_ID (res_Run res)"
  using assms(2)
proof (rule svc_CreateRun_Inr)
  fix scope prompt s0
  assume adm: "admissible lib current input (tables s) scope prompt" and t0: "tables s0 = tables s"
    and run: "agent_CreateRun lib (re_uuid env) (request_record lib env current (normalize_run lib input) scope
       (project_access (core (tables s)) (sc_ProjectID scope) (cu_ID current)) prompt) s0 = (Inr (res_Run res, res_Replayed res), s1)"
  let ?in = "normalize_run lib input" and ?acc = "project_access (core (tables s)) (sc_ProjectID scope) (cu_ID current)"
  let ?rec = "request_record lib env current ?in scope ?acc prompt" and ?rec' = "request_record lib env' current ?in scope ?acc prompt"
  have rec': "?rec' = ?rec\<lparr>rec_RequestID := re_RequestID env', rec_TraceID := re_TraceID env'\<rparr>" by (simp add: request_record_def Let_def)
  have key: "rec_IdempotencyKey ?rec = TrimSpace (ci_IdempotencyKey input)" by (simp add: request_record_def normalize_run_def Let_def)
  have rel: "runs_ok (tables s1)" "runs_rel (tables s1) (tables s2)"
    using evolvesD [OF evolves_svc_CreateRun assms(2)] assms(1) agent_steps_rel [OF assms(3)] by (simp_all add: runs_rel_def)
  from run show ?thesis
  proof (rule agent_CreateRun_Inr)
    fix r
    assume r: "r \<in> set (agent_runs (tables s1))" "ag_id r = run_ID (res_Run res)" "plan_unjson lib (ag_retrieval_plan r) \<noteq> None"
      "find (\<lambda>p. pv_id p = ag_prompt_version_id r) (agent_prompt_versions (tables s1)) \<noteq> None"
      and v: "validate_agent_run_insert (tables s0) (new_run_row lib (re_uuid env) ?rec (db_now s0)) = None"
      and q: "rec_IdempotencyKey ?rec \<noteq> [] \<Longrightarrow> \<exists>q\<in>set (agent_runs (tables s1)). ag_id q = run_ID (res_Run res) \<and>
         same_key (rec_RequestedBy ?rec) (Some (rec_IdempotencyKey ?rec)) q \<and> ag_request_hash q = rec_RequestHash ?rec"
      and t1: "\<not> res_Replayed res \<Longrightarrow> tables s1 = (tables s0)\<lparr>agent_runs := agent_runs (tables s0) @ [new_run_row lib (re_uuid env) ?rec (db_now s0)]\<rparr>"
        "res_Replayed res \<Longrightarrow> tables s1 = tables s0"
    obtain q where "q \<in> set (agent_runs (tables s1))" "ag_id q = run_ID (res_Run res)" "same_key (rec_RequestedBy ?rec) (Some (rec_IdempotencyKey ?rec)) q"
      "ag_request_hash q = rec_RequestHash ?rec" using q key assms(6) by auto
    moreover have "q = r" using calculation r rel(1) by (auto simp: runs_ok_def distinct_map inj_on_def)
    ultimately have r': "same_key (rec_RequestedBy ?rec) (Some (rec_IdempotencyKey ?rec)) r" "ag_request_hash r = rec_RequestHash ?rec" by simp_all
    obtain z where z: "z \<in> set (agent_runs (tables s2))" "run_later r z" "runs_ok (tables s2)" using rel r(1) unfolding runs_rel_def by blast
    note lz = lineage_ids [OF z(2) [unfolded run_later_def, THEN conjunct1]]
    obtain Y where Y: "tables s2 = (tables s)\<lparr>agent_runs := Y\<rparr>" using t1 t0 assms(4) by (cases "res_Replayed res") auto
    have v2: "validate_agent_run_insert (tables s2) (new_run_row lib (re_uuid env') ?rec' (db_now s2)) = None"
      using v unfolding Y rec' t0 by (subst validate_insert_same [where uuid = "re_uuid env" and now = "db_now s0"]) simp
    have "(\<exists>run. agent_CreateRun lib (re_uuid env') ?rec' s2 = (Inr (run, True), s2) \<and> run_ID run = ag_id z)"
      using agent_CreateRun_replay [OF assms(5) z(3) v2 z(1)] r' r lz key assms(4,6) by (simp add: rec' same_key_def)
    then obtain run' where run': "agent_CreateRun lib (re_uuid env') ?rec' s2 = (Inr (run', True), s2)" "run_ID run' = run_ID (res_Run res)"
      using lz r(2) by auto
    have "admissible lib current input (tables s2) scope prompt" using adm by (simp add: Y admissible_same)
    then show ?thesis
      using svc_CreateRun_run [OF assms(5), of lib current input scope prompt env' run' True s2] run' by (simp add: Y)
  qed
qed

section \<open>Who may create a run\<close>

lemma bindE_outcome:
  assumes "bindE m k s = (x, s')"
  obtains e where "m s = (Inl e, s')" | y s1 where "m s = (Inr y, s1)" "k y s1 = (x, s')"
  using assms by (cases "m s"; cases "fst (m s)") (auto simp: bindE_def)

interpretation unchanged: db_preorder "(=) :: rag_store \<Rightarrow> rag_store \<Rightarrow> bool"
  by unfold_locales auto

lemma reads_run_service:
  "evolves (=) (guardE b e :: unit rm)" "evolves (=) (require x :: unit rm)" "evolves (=) (ResolveScope coll p d i)" "evolves (=) (ResolveAccess sc u)"
  "evolves (=) (GetPromptVersion key v)"
  unfolding guardE_def require_def ResolveScope_def ResolveAccess_def GetPromptVersion_def
  by (auto intro!: unchanged.evolves_rules split: option.splits)

lemma svc_CreateRun_outcome:
  assumes "svc_CreateRun lib env current input s = (x, s')"
  shows "tables s' = tables s \<or> (\<exists>scope prompt s1 y. admissible lib current input (tables s) scope prompt \<and> tables s1 = tables s \<and>
    agent_CreateRun lib (re_uuid env) (request_record lib env current (normalize_run lib input) scope
       (project_access (core (tables s)) (sc_ProjectID scope) (cu_ID current)) prompt) s1 = (y, s'))"
proof -
  note keep = reads_run_service [THEN evolvesD] unchanged.evolves_mapErr [OF reads_run_service(3), THEN evolvesD]
  from assms [unfolded svc_CreateRun_def Let_def] show ?thesis
  proof (elim bindE_outcome, goal_cases)
    case prems: (10 x1 s1 x2 s2 x3 s3 x4 s4 scope s5 access s6 x7 s7 x8 s8 prompt s9 e)
    have t: "tables s9 = tables s" using prems by (simp add: guard_Inr requireE_Inr ResolveScope_Inr GetPromptVersion_Inr ResolveAccess_def selectE_Inr)
    have "admissible lib current input (tables s) scope prompt"
      using prems by (auto simp: admissible_def Let_def guard_Inr requireE_Inr ResolveScope_Inr GetPromptVersion_Inr ResolveAccess_def selectE_Inr)
    then show ?case using prems t by (fastforce simp: request_record_def Let_def guard_Inr requireE_Inr ResolveScope_Inr GetPromptVersion_Inr ResolveAccess_def selectE_Inr)
  next
    case prems: (11 x1 s1 x2 s2 x3 s3 x4 s4 scope s5 access s6 x7 s7 x8 s8 prompt s9 y s10)
    have t: "tables s9 = tables s" "s' = s10" using prems by (auto simp: guard_Inr requireE_Inr ResolveScope_Inr GetPromptVersion_Inr ResolveAccess_def selectE_Inr split: prod.splits)
    have "admissible lib current input (tables s) scope prompt"
      using prems by (auto simp: admissible_def Let_def guard_Inr requireE_Inr ResolveScope_Inr GetPromptVersion_Inr ResolveAccess_def selectE_Inr)
    then show ?case using prems t by (fastforce simp: request_record_def Let_def guard_Inr requireE_Inr ResolveScope_Inr GetPromptVersion_Inr ResolveAccess_def selectE_Inr)
  qed (auto dest!: keep)
qed

lemma bind_reads_tail:
  assumes "bindE (mapErr f m) k s = (Inr y, s1)" "\<And>x. evolves (=) (k x)"
  obtains x s2 where "m s = (Inr x, s2)" "tables s1 = tables s2"
proof -
  obtain x s2 where m: "m s = (Inr x, s2)" and k: "k x s2 = (Inr y, s1)" using assms(1) by (auto simp: bindE_Inr)
  have "tables s2 = tables s1" by (rule evolvesD [OF assms(2) k])
  then show thesis using that m by simp
qed

lemma agent_CreateRun_outcome:
  assumes "agent_CreateRun lib uuid input s = (x, s')"
  shows "tables s' = tables s \<or> (\<exists>now. tables s' = (tables s)\<lparr>agent_runs := agent_runs (tables s) @ [new_run_row lib uuid input now]\<rparr> \<and>
    \<not> exists_row (same_key (rec_RequestedBy input) (nullif_empty (rec_IdempotencyKey input))) (agent_runs (tables s)))"
proof (cases "tables s' = tables s")
  case False
  then obtain y s1 where "agent_CreateRun_body lib uuid input (stmt_next s) = (Inr (Commit y), s1)" "tables s' = tables s1"
    using in_tx_outcome [OF assms [unfolded agent_CreateRun_def]] by blast
  have ld: "evolves (=) (load_run lib P)" for P
    unfolding load_run_def liftE_def by (intro unchanged.evolves_rules)
  obtain ins s2 where ins: "or_no_rows None (bindE (insert_run lib uuid input) (\<lambda>i. returnE (Some i))) (stmt_next s) = (Inr ins, s2)" "tables s1 = tables s2"
    using \<open>agent_CreateRun_body lib uuid input (stmt_next s) = (Inr (Commit y), s1)\<close> [unfolded agent_CreateRun_body_def]
    by (rule bind_reads_tail) (auto simp: throwE_def [symmetric] intro!: unchanged.evolves_rules ld split: option.splits)
  then show ?thesis using ins False \<open>tables s' = tables s1\<close> by (cases rule: insert_step_Inr) auto
qed simp

text \<open>The budgets a run may have, and what an index must record before a mode may use it.\<close>

definition budget_within :: "Budget \<Rightarrow> bool" where
  "budget_within b =
     (MaxSteps b \<in> {1..32} \<and> MaxRetrievalCalls b \<in> {1..32} \<and> MaxModelCalls b \<in> {1..32} \<and> MaxInputTokens b \<in> {1..1000000} \<and>
      MaxOutputTokens b \<in> {1..1000000} \<and> MaxDurationMS b \<in> {1000..3600000} \<and> MaxCostMicros b \<in> {0..1000000000})"

definition index_ready :: "Scope \<Rightarrow> string \<Rightarrow> bool" where
  "index_ready sc mode =
     ((mode \<in> {''lexical'', ''hybrid''} \<longrightarrow> sc_LexicalIndexVersion sc = ''postgres_ts_stat_v1'' \<and> sc_LexicalIndexChecksum sc \<noteq> []) \<and>
      (mode \<in> {''vector'', ''hybrid''} \<longrightarrow> sc_VectorIndexVersion sc = ''qwen3_dense_cosine_v1'' \<and> sc_VectorIndexChecksum sc \<noteq> [] \<and>
         sc_EmbeddingModel sc \<noteq> [] \<and> sc_EmbeddingRevision sc \<noteq> []))"

lemma validateBudget_within: "validateBudget b = None \<Longrightarrow> budget_within b"
  by (auto simp: validateBudget_def budget_within_def outside_def split: if_splits)

lemma validateScopeForMode_ready: "validateScopeForMode sc mode = None \<Longrightarrow> index_ready sc mode"
  by (auto simp: validateScopeForMode_def index_ready_def uses_lexical_def uses_vector_def ModeLexical_def ModeVector_def ModeHybrid_def
      LexicalIndexVersion_def VectorIndexVersion_def split: if_splits)


section \<open>History, cancellation and lists\<close>


lemma cancel_validated:
  assumes "ag_status r \<in> {StatusQueued, StatusRunning}" "scope_matches t r"
  shows "validate_agent_run_update t r (cancel_columns now r) = None"
proof -
  have "scope_matches t (cancel_columns now r)" using assms(2) by (simp add: scope_matches_def cancel_columns_def split: option.splits)
  moreover have "run_lineage (cancel_columns now r) = run_lineage r" "ag_model_version_id (cancel_columns now r) = ag_model_version_id r"
    "status_step (ag_status r) (ag_status (cancel_columns now r))"
    by (simp_all add: run_lineage_def cancel_columns_def status_step_def)
  moreover have "\<not> terminal (ag_status r)" using assms(1) by (auto simp: terminal_def status_defs)
  ultimately show ?thesis by (simp add: validate_agent_run_update_def)
qed

lemma update_where_cong: "(\<And>x. x \<in> set rows \<Longrightarrow> P x = Q x) \<Longrightarrow> update_where P f rows = update_where Q f rows"
  by (simp add: update_where_def)

lemma find_unique:
  assumes "distinct (map key rows)" "r \<in> set rows" "P r" "\<And>x. P x \<Longrightarrow> key x = key r"
  shows "find P rows = Some r"
proof (cases "find P rows")
  case None
  then show ?thesis using assms(2,3) by (auto simp: find_None_iff)
next
  case (Some x)
  then have "x \<in> set rows" "key x = key r" using find_set [OF Some] assms(4) by auto
  then show ?thesis using Some assms(1,2) by (auto simp: distinct_map inj_on_def)
qed

text \<open>
  Cancelling does what it says: with a database that answers, a visible run that is queued becomes cancelled, a running one is
  flagged and keeps running until the runtime ends it, exactly this row changes and the caller gets the new state; a run
  that has ended is left alone and reported as a conflict.
\<close>

theorem cancel_run_outcome:
  assumes "faults s = []" "runs_ok (tables s)" "0 < cu_ID current" "cu_Status current = ''active''"
    and "uuid_parses lib (TrimSpace runID)" "pg_uuid lib runID = Some (ag_id r)"
    and "r \<in> set (agent_runs (tables s))" "may_see (cu_ID current) (cu_Role current = ''admin'') r"
    and "scope_matches (tables s) r" "plan_unjson lib (ag_retrieval_plan r) \<noteq> None"
    and "find (\<lambda>p. pv_id p = ag_prompt_version_id r) (agent_prompt_versions (tables s)) \<noteq> None"
    and "ag_status r \<in> {''queued'', ''running'', ''succeeded'', ''failed'', ''cancelled''}"
  shows "if ag_status r \<in> {''queued'', ''running''}
    then \<exists>run. svc_CancelRun lib current runID s = (Inr run, s\<lparr>tables := (tables s)\<lparr>agent_runs :=
        update_where (\<lambda>x. x = r) (cancel_columns (db_now s)) (agent_runs (tables s))\<rparr>\<rparr>) \<and>
      run_ID run = ag_id r \<and> run_CancellationRequested run \<and> run_Status run = (if ag_status r = ''queued'' then ''cancelled'' else ''running'')
    else svc_CancelRun lib current runID s = (Inl (DetailError ErrConflict (''run is already '' @ ag_status r)), s)"
proof -
  let ?admin = "cu_Role current = ''admin''" and ?t = "tables s"
  let ?P = "\<lambda>x. ag_id x = ag_id r \<and> may_see (cu_ID current) ?admin x \<and> ag_status x \<in> {StatusQueued, StatusRunning}"
  have d: "distinct (map ag_id (agent_runs ?t))" using assms(2) by (simp add: runs_ok_def)
  have only: "x \<in> set (agent_runs ?t) \<Longrightarrow> ag_id x = ag_id r \<Longrightarrow> x = r" for x using d assms(7) by (auto simp: distinct_map inj_on_def)
  have start: "svc_CancelRun lib current runID s = agent_CancelRun lib runID (cu_ID current) ?admin s"
    using assms(3-5) by (simp add: svc_CancelRun_def check_run_id_def bindE_def guardE_def)
  show ?thesis
  proof (cases "ag_status r \<in> {''queued'', ''running''}")
    case True
    then have st: "ag_status r \<in> {StatusQueued, StatusRunning}" by (simp add: status_defs)
    have f: "find ?P (agent_runs ?t) = Some r" by (rule find_unique [OF d assms(7)]) (use st assms(8) in auto)
    let ?s' = "s\<lparr>tables := ?t\<lparr>agent_runs := update_where (\<lambda>x. x = r) (cancel_columns (db_now s)) (agent_runs ?t)\<rparr>\<rparr>"
    have u: "update_where ?P (cancel_columns (db_now s)) (agent_runs ?t) = update_where (\<lambda>x. x = r) (cancel_columns (db_now s)) (agent_runs ?t)"
      by (rule update_where_cong) (use only st assms(8) in auto)
    have up: "cancel_update (ag_id r) (cu_ID current) ?admin s = (Inr (ag_id r), ?s')"
      using assms(1) f u cancel_validated [OF st assms(9)] by (simp add: cancel_update_def execE_def Let_def)
    let ?r' = "cancel_columns (db_now s) r"
    have r': "?r' \<in> set (agent_runs (tables ?s'))" using assms(7) by (auto simp: update_where_def)
    have d': "distinct (map ag_id (agent_runs (tables ?s')))" using d map_id_update [of "agent_runs ?t" "\<lambda>x. x = r" "cancel_columns (db_now s)"]
      by (simp add: cancel_columns_def)
    obtain run where "load_run lib (\<lambda>x. ag_id x = ag_id ?r') ?s' = (Inr run, ?s')" "run_ID run = ag_id ?r'" "run_Status run = ag_status ?r'"
      "run_CancellationRequested run = ag_cancellation_requested ?r'"
      by (rule load_run_row [OF _ d' r']) (use assms(1,10,11) in \<open>simp_all add: cancel_columns_def\<close>)
    then show ?thesis
      using True start assms(1,6) up
      by (auto simp: agent_CancelRun_def in_tx_nil agent_CancelRun_body_def bindE_def mapErr_def or_no_rows_def with_uuid_def cancel_columns_def status_defs)
  next
    case False
    then have "find ?P (agent_runs ?t) = None" using only by (auto simp: find_None_iff status_defs)
    moreover have "find (\<lambda>x. ag_id x = ag_id r \<and> may_see (cu_ID current) ?admin x) (agent_runs ?t) = Some r"
      by (rule find_unique [OF d assms(7)]) (use assms(8) in auto)
    ultimately show ?thesis
      using False start assms(1,6)
      by (auto simp: agent_CancelRun_def in_tx_nil agent_CancelRun_body_def bindE_def mapErr_def or_no_rows_def with_uuid_def cancel_update_def execE_def Let_def)
  qed
qed

lemma scan_runs_Inr:
  "scan_runs lib rows = Inr runs \<Longrightarrow>
   list_all2 (\<lambda>(r, _) run. run_ID run = ag_id r \<and> run_RequestedBy run = ag_requested_by r \<and> run_CreatedAt run = ag_created_at r) rows runs"
  by (induction rows arbitrary: runs) (auto simp: scanRun_def split: sum.splits option.splits prod.splits)

lemma sort_key_take_sorted: "sorted (map f (take n (sort_key f xs)))"
  by (simp add: sorted_wrt_take take_map [symmetric])

text \<open>
  A list of runs shows a user only runs this user requested, an administrator all of them, at most 100 at a time and newest
  first.
\<close>

theorem list_runs_visible:
  assumes "svc_ListRuns lib current input s = (Inr page, s')"
  shows "length (rp_Items page) \<le> 100 \<and> (\<forall>run\<in>set (rp_Items page). cu_Role current = ''admin'' \<or> run_RequestedBy run = cu_ID current) \<and>
    sorted (map (\<lambda>run. (- run_CreatedAt run, - uuid_num (run_ID run))) (rp_Items page))"
proof -
  define limit where "limit = (if lr_Limit input = 0 then DefaultListLimit else lr_Limit input)"
  obtain cursor after rows runs where l: "\<not> (limit < 1 \<or> limit > MaxListLimit)"
    and rows: "rows = take (nat (limit + 1)) (sort_key (\<lambda>(r, _). run_key r)
         (filter (\<lambda>(r, _). may_see (cu_ID current) (cu_Role current = ''admin'') r \<and> after_run_cursor after r) (joined_runs (tables s))))"
    and sc: "scan_runs lib rows = Inr runs"
    and page: "rp_Items page = take (nat limit) runs"
    using assms
    by (auto simp: svc_ListRuns_def Let_def limit_def [symmetric] bindE_Inr guard_Inr liftE_def agent_ListRuns_def selectE_Inr with_uuid_def
        split: if_splits option.splits)
  note rel = scan_runs_Inr [OF sc]
  have vis: "cu_Role current = ''admin'' \<or> run_RequestedBy run = cu_ID current" if m0: "run \<in> set runs" for run
  proof -
    obtain i where i: "i < length runs" "run = runs ! i" using m0 by (auto simp: in_set_conv_nth)
    have m: "rows ! i \<in> set rows" using i(1) list_all2_lengthD [OF rel] by simp
    then have "may_see (cu_ID current) (cu_Role current = ''admin'') (fst (rows ! i))"
      unfolding rows by (auto dest!: in_set_takeD simp del: nth_take)
    then show ?thesis using list_all2_nthD2 [OF rel i(1)] i(2) by (auto simp: may_see_def split: prod.splits)
  qed
  have keys: "map (\<lambda>run. (- run_CreatedAt run, - uuid_num (run_ID run))) runs = map (\<lambda>(r, _). run_key r) rows"
    using rel by (induction rule: list_all2_induct) (auto simp: run_key_def split: prod.splits)
  have "sorted (map (\<lambda>run. (- run_CreatedAt run, - uuid_num (run_ID run))) runs)" unfolding keys rows by (rule sort_key_take_sorted)
  then have "sorted (map (\<lambda>run. (- run_CreatedAt run, - uuid_num (run_ID run))) (rp_Items page))"
    unfolding page by (simp add: take_map [symmetric] sorted_wrt_take)
  moreover have "nat limit \<le> 100" using l by (simp add: MaxListLimit_def nat_le_iff)
  ultimately show ?thesis using vis unfolding page by (auto dest: in_set_takeD)
qed

section \<open>A small run\<close>

definition sample_contract :: RetrievalContract where
  "sample_contract = \<lparr>rc_Mode = [], rc_ProjectID = 1, rc_DatasetID = 1, rc_DatasetVersionID = 1, rc_DatasetManifestChecksum = [], rc_IngestionRunID = [],
     rc_IngestionOutputChecksum = [], rc_ParserVersion = [], rc_ChunkerVersion = [], rc_TokenizerVersion = [], rc_LexicalIndexVersion = [],
     rc_LexicalIndexChecksum = [], rc_VectorIndexVersion = [], rc_VectorIndexChecksum = [], rc_EmbeddingModel = [], rc_EmbeddingRevision = [],
     rc_AccessScope = []\<rparr>"

definition sample_agent_lib :: agent_lib where
  "sample_agent_lib = \<lparr>al_sha256 = (\<lambda>_. [7]), al_lower = id, plan_json = (\<lambda>_. ''plan''), plan_unjson = (\<lambda>_. Some sample_contract),
     lineage_json = (\<lambda>q _ _ _. q), run_cursor_json = (\<lambda>_. ''c''), run_cursor_unjson = (\<lambda>_. None), uuid_parses = (\<lambda>_. True),
     pg_uuid = Some, al_coll = (\<lambda>_. 0)\<rparr>"

definition sample_prompt :: prompt_row where
  "sample_prompt = \<lparr>pv_id = 1, pv_prompt_key = DefaultPromptKey, pv_version = DefaultPromptVersion, pv_purpose = ''p'', pv_template_sha256 = ''h'',
     pv_status = ''frozen'', pv_created_at = 0\<rparr>"

definition sample_ingestion :: ingestion_run_row where
  "sample_ingestion = \<lparr>ir_run_id = ''run'', ir_project_id = 1, ir_dataset_id = 1, ir_dataset_version_id = 1, ir_mode = ''rebuild'',
     ir_parser_version = ''p'', ir_chunker_version = ''c'', ir_tokenizer_version = ''t'', ir_status = ''completed'', ir_dataset_manifest_checksum = ''m'',
     ir_input_checksum = Some ''i'', ir_output_checksum = Some ''o'', ir_source_count = 0, ir_fact_source_count = 0, ir_document_count = 0,
     ir_chunk_count = 0, ir_citation_count = 0, ir_reused_document_count = 0, ir_error_message = None, ir_started_at = 4, ir_completed_at = Some 5\<rparr>"

definition sample_evidence :: evidence_tables where
  "sample_evidence = \<lparr>dataset_versions = [\<lparr>dv_id = 1, dv_dataset_id = 1, dv_project_id = 1, dv_version = 1, dv_status = ''frozen'', dv_manifest_checksum = ''m'',
     dv_source_count = 0\<rparr>], dataset_version_sources = [], evidence_sources = [], evidence_source_payloads = [], daily_fact_payloads = [],
     ingestion_runs = [sample_ingestion], ingestion_run_fact_inputs = [], ingestion_run_documents = [], evidence_documents = [],
     evidence_document_sources = [], evidence_chunks = [], source_citations = []\<rparr>"

definition sample_rag :: rag_store where
  "sample_rag = \<lparr>core = sample_store, evid = sample_evidence,
     retrieval_lexical_indexes = [\<lparr>lx_ingestion_run_id = ''run'', lx_index_version = LexicalIndexVersion, lx_index_checksum = Some ''x'', lx_status = ''completed''\<rparr>],
     retrieval_vector_indexes = [], agent_prompt_versions = [sample_prompt], agent_model_versions = [], agent_runs = []\<rparr>"

definition sample_rag_db :: "rag_store db" where
  "sample_rag_db = \<lparr>tables = sample_rag, seqs = (\<lambda>_. 0), faults = [], db_now = 100\<rparr>"

definition sample_caller :: CurrentUser where
  "sample_caller = \<lparr>cu_ID = 7, cu_Username = ''ann'', cu_Role = ''normal'', cu_Status = ''active''\<rparr>"

definition sample_run_input :: CreateRunInput where
  "sample_run_input = \<lparr>ci_ProjectID = 1, ci_DatasetVersionID = 1, ci_IngestionRunID = [], ci_Query = ''tok'', ci_Mode = [], ci_Budget = DefaultBudget,
     ci_IdempotencyKey = ''tok''\<rparr>"

definition sample_run_env :: run_env where
  "sample_run_env = \<lparr>re_uuid = ''a1'', re_RequestID = [], re_TraceID = []\<rparr>"

lemma sample_normal: "normalize_run sample_agent_lib sample_run_input = sample_run_input\<lparr>ci_Mode := ModeLexical\<rparr>"
  by (simp add: normalize_run_def sample_run_input_def trim_tok ToLower_def Let_def)

definition sample_scope :: Scope where
  "sample_scope = \<lparr>sc_ProjectID = 1, sc_ProjectVisibility = ''public'', sc_DatasetID = 1, sc_DatasetVersionID = 1, sc_DatasetVersion = 1,
     sc_DatasetManifestChecksum = ''m'', sc_IngestionRunID = ''run'', sc_IngestionOutputChecksum = ''o'', sc_ParserVersion = ''p'',
     sc_ChunkerVersion = ''c'', sc_TokenizerVersion = ''t'', sc_LexicalIndexVersion = LexicalIndexVersion, sc_LexicalIndexChecksum = ''x'',
     sc_VectorIndexVersion = [], sc_VectorIndexChecksum = [], sc_VectorCollection = [], sc_EmbeddingModel = [], sc_EmbeddingRevision = [],
     sc_AccessScope = []\<rparr>"

lemma sample_input_ok: "run_input_error (sample_run_input\<lparr>ci_Mode := ModeLexical\<rparr>) = None"
proof -
  have "int (RuneCount ''tok'') \<le> MaxQueryRunes" using RuneCount_le_length [of "''tok''"] by (simp add: MaxQueryRunes_def)
  then show ?thesis by (simp add: run_input_error_def sample_run_input_def byte_def)
qed

lemma sample_budget_ok: "validateBudget (applyBudgetDefaults DefaultBudget) = None"
  by (simp add: validateBudget_def outside_def applyBudgetDefaults_def or_default_def DefaultBudget_def)

lemma sample_scope_of: "scope_of sample_rag sample_ingestion = Some sample_scope"
  by (simp add: scope_of_def sample_rag_def sample_ingestion_def sample_evidence_def sample_store_def sample_scope_def coalesce_def)

lemma sample_resolved: "resolved_scope coll (sample_run_input\<lparr>ci_Mode := ModeLexical\<rparr>) sample_rag = Some sample_scope"
proof -
  have "ingestion_runs (evid sample_rag) = [sample_ingestion]" by (simp add: sample_rag_def sample_evidence_def)
  moreover have "scope_filter 1 1 [] sample_ingestion" by (simp add: scope_filter_def sample_ingestion_def sample_evidence_def)
  ultimately show ?thesis by (simp add: resolved_scope_def sample_run_input_def sample_scope_of List.map_filter_def)
qed

lemma sample_access: "project_access (core sample_rag) 1 7 \<noteq> ''none''"
  by (simp add: project_access_def sample_rag_def sample_store_def exists_row_def)

lemma sample_indexed: "validateScopeForMode sample_scope ModeLexical = None"
  by (simp add: validateScopeForMode_def uses_lexical_def uses_vector_def ModeLexical_def ModeVector_def ModeHybrid_def sample_scope_def)

lemma sample_default_prompt: "default_prompt sample_rag = Some (scan_prompt sample_prompt)"
  by (simp add: default_prompt_def sample_rag_def sample_prompt_def)

lemma sample_admissible: "admissible sample_agent_lib sample_caller sample_run_input sample_rag sample_scope (scan_prompt sample_prompt)"
proof -
  have "sc_ProjectID sample_scope = 1" "cu_ID sample_caller = 7" "cu_Status sample_caller = ''active''" "ci_Budget sample_run_input = DefaultBudget"
    by (simp_all add: sample_scope_def sample_caller_def sample_run_input_def)
  then show ?thesis
    by (simp add: admissible_def Let_def sample_normal sample_input_ok sample_budget_ok sample_resolved sample_access sample_indexed sample_default_prompt)
qed

lemma sample_created:
  "\<exists>res s1. svc_CreateRun sample_agent_lib sample_run_env sample_caller sample_run_input sample_rag_db = (Inr res, s1) \<and> faults s1 = []"
proof -
  let ?scope = sample_scope
  let ?rec = "request_record sample_agent_lib sample_run_env sample_caller (normalize_run sample_agent_lib sample_run_input) ?scope
     (project_access (core (tables sample_rag_db)) (sc_ProjectID ?scope) (cu_ID sample_caller)) (scan_prompt sample_prompt)"
  have "\<exists>run s1. agent_CreateRun sample_agent_lib ''a1'' ?rec sample_rag_db = (Inr (run, False), s1) \<and> faults s1 = []"
    by (simp add: agent_CreateRun_def in_tx_nil agent_CreateRun_body_def bindE_def mapErr_def or_no_rows_def insert_run_def execE_def Let_def sample_rag_db_def
        validate_agent_run_insert_def scope_matches_def new_run_row_def request_record_def sample_scope_def sample_rag_def sample_ingestion_def sample_evidence_def sample_prompt_def scan_prompt_def
        exists_row_def user_exists_def sample_store_def sample_caller_def load_run_def joined_runs_def List.map_filter_def liftE_def scanRun_def sample_agent_lib_def)
  then obtain run s1 where "agent_CreateRun sample_agent_lib (re_uuid sample_run_env) ?rec sample_rag_db = (Inr (run, False), s1)" "faults s1 = []"
    by (auto simp: sample_run_env_def)
  then show ?thesis
    using svc_CreateRun_run [of sample_rag_db sample_agent_lib sample_caller sample_run_input ?scope "scan_prompt sample_prompt" sample_run_env run False s1] sample_admissible
    by (simp add: sample_rag_db_def)
qed

lemma sample_rag_ok: "runs_ok (tables sample_rag_db)"
  by (simp add: runs_ok_def keyed_def sample_rag_db_def sample_rag_def)

theorem create_run_replay_witness:
  "\<exists>res s1 res'. svc_CreateRun sample_agent_lib sample_run_env sample_caller sample_run_input sample_rag_db = (Inr res, s1) \<and>
     svc_CreateRun sample_agent_lib (sample_run_env\<lparr>re_uuid := ''b2''\<rparr>) sample_caller sample_run_input s1 = (Inr res', s1) \<and>
     res_Replayed res' \<and> run_ID (res_Run res') = run_ID (res_Run res)"
proof -
  obtain res s1 where run: "svc_CreateRun sample_agent_lib sample_run_env sample_caller sample_run_input sample_rag_db = (Inr res, s1)" "faults s1 = []"
    using sample_created by blast
  have "tables s1 = (tables s1)\<lparr>agent_runs := agent_runs (tables s1)\<rparr>" by simp
  from create_run_replay [OF sample_rag_ok run(1) rtranclp.rtrancl_refl this run(2), of "sample_run_env\<lparr>re_uuid := ''b2''\<rparr>"] show ?thesis
    using run(1) by (auto simp: sample_run_input_def trim_tok)
qed


definition sample_run :: agent_run_row where
  "sample_run = \<lparr>ag_id = ''a1'', ag_project_id = 1, ag_dataset_version_id = 1, ag_ingestion_run_id = ''run'', ag_requested_by = 7, ag_query = ''q'',
     ag_requested_mode = ''lexical'', ag_intent = ''i'', ag_retrieval_plan = ''plan'', ag_report = None, ag_prompt_version_id = 1, ag_model_version_id = None,
     ag_status = ''queued'', ag_budget = DefaultBudget, ag_usage = no_usage, ag_cancellation_requested = False, ag_idempotency_key = None,
     ag_request_hash = ''h'', ag_request_id = None, ag_trace_id = None, ag_failure_code = None, ag_failure_message = None, ag_started_at = None,
     ag_completed_at = None, ag_created_at = 50, ag_updated_at = 50\<rparr>"

definition sample_runs_db :: "rag_store db" where
  "sample_runs_db = sample_rag_db\<lparr>tables := sample_rag\<lparr>agent_runs := [sample_run]\<rparr>\<rparr>"

lemma sample_runs_ok: "runs_ok (tables sample_runs_db)"
  by (simp add: runs_ok_def keyed_def sample_runs_db_def sample_run_def)

theorem cancel_run_outcome_witness:
  "\<exists>run s'. svc_CancelRun sample_agent_lib sample_caller ''a1'' sample_runs_db = (Inr run, s') \<and> run_Status run = ''cancelled''"
  using cancel_run_outcome [OF _ sample_runs_ok, of sample_caller sample_agent_lib "''a1''" sample_run]
  by (auto simp: sample_runs_db_def sample_rag_db_def sample_caller_def sample_agent_lib_def sample_run_def sample_rag_def may_see_def scope_matches_def
      sample_ingestion_def sample_evidence_def sample_prompt_def)


theorem list_runs_visible_witness:
  "\<exists>page s'. svc_ListRuns sample_agent_lib sample_caller \<lparr>lr_Limit = 5, lr_Cursor = []\<rparr> sample_runs_db = (Inr page, s') \<and> length (rp_Items page) = 1 \<and>
     sorted (map (\<lambda>run. (- run_CreatedAt run, - uuid_num (run_ID run))) (rp_Items page))"
proof -
  have "\<exists>page s'. svc_ListRuns sample_agent_lib sample_caller \<lparr>lr_Limit = 5, lr_Cursor = []\<rparr> sample_runs_db = (Inr page, s') \<and> length (rp_Items page) = 1"
    by (simp add: svc_ListRuns_def Let_def bindE_def guardE_def liftE_def decodeRunCursor_def agent_ListRuns_def mapErr_def sample_runs_db_def sample_rag_db_def
        sample_rag_def sample_caller_def MaxListLimit_def joined_runs_def List.map_filter_def sample_run_def sample_prompt_def may_see_def after_run_cursor_def
        scanRun_def sample_agent_lib_def)
  then obtain page s' where run: "svc_ListRuns sample_agent_lib sample_caller \<lparr>lr_Limit = 5, lr_Cursor = []\<rparr> sample_runs_db = (Inr page, s')"
    "length (rp_Items page) = 1" by blast
  show ?thesis using list_runs_visible [OF run(1)] run by blast
qed

end
