(* ===== verification/Chunker.thy ===== *)
theory Chunker
  imports Go_Strings
begin

text \<open>
  The evidence chunker (\<open>internal/evidence/chunker.go\<close>): \<open>splitCanonicalText\<close> cuts canonical text
  into overlapping byte ranges that end at rune boundaries, preferably after a sentence mark.
  Positions are natural numbers; the one place where the code computes a position that can be
  negative (\<open>end - overlapBytes\<close>) is the explicit panic branch.
\<close>

record byteRange =
  StartByte :: nat
  EndByte :: nat
  StartRune :: nat
  EndRune :: nat
  Content :: string

definition isPreferredBoundary :: "nat \<Rightarrow> bool" where
  "isPreferredBoundary r = (r \<in> set [10, 46, 33, 63, 59, 58, 44, 12290, 65281, 65311, 65307, 65306, 65292])"

text \<open>The two byte loops of \<open>preferredEnd\<close> that move \<open>limit\<close> back and \<open>minimum\<close> forward.\<close>

fun retreat :: "string \<Rightarrow> nat \<Rightarrow> nat \<Rightarrow> nat" where
  "retreat data start limit =
     (if limit > start \<and> \<not> RuneStart (data ! limit) then retreat data start (limit - 1) else limit)"

function advance :: "string \<Rightarrow> nat \<Rightarrow> nat \<Rightarrow> nat" where
  "advance data limit minimum =
     (if minimum < limit \<and> \<not> RuneStart (data ! minimum) then advance data limit (Suc minimum) else minimum)"
  by pat_completeness auto
termination
  by (relation "measure (\<lambda>(data, limit, minimum). limit - minimum)") auto

definition slice :: "string \<Rightarrow> nat \<Rightarrow> nat \<Rightarrow> string" where
  "slice data i j = take (j - i) (drop i data)"

text \<open>The loop that remembers the end of the last preferred mark before \<open>limit\<close>.\<close>

function scan_boundary :: "string \<Rightarrow> nat \<Rightarrow> nat \<Rightarrow> nat \<Rightarrow> nat" where
  "scan_boundary data limit position best =
     (if position < limit \<and> limit \<le> length data
      then let r = fst (DecodeRune (slice data position limit));
               size = snd (DecodeRune (slice data position limit))
           in scan_boundary data limit (position + size)
                (if isPreferredBoundary r then position + size else best)
      else best)"
  by pat_completeness auto
termination
proof (relation "measure (\<lambda>(data, limit, position, best). limit - position)", simp)
  fix data :: string and limit position best :: nat and x xa
  assume "position < limit \<and> limit \<le> length data"
    and "xa = snd (DecodeRune (slice data position limit))"
  moreover from this have "slice data position limit \<noteq> []" by (simp add: slice_def)
  ultimately show "((data, limit, position + xa, if isPreferredBoundary x then position + xa else best),
      data, limit, position, best) \<in> measure (\<lambda>(data, limit, position, best). limit - position)"
    using DecodeRune_size [of "slice data position limit"] by auto
qed

declare retreat.simps [simp del] advance.simps [simp del] scan_boundary.simps [simp del]

definition preferredEnd :: "string \<Rightarrow> nat \<Rightarrow> nat \<Rightarrow> nat \<Rightarrow> nat" where
  "preferredEnd data start limit minimumLength =
     (if limit \<ge> length data then length data
      else let limit = retreat data start limit;
               minimum = advance data limit (start + minimumLength);
               best = scan_boundary data limit minimum 0
           in if best > start then best else limit)"

definition chunk_end :: "string \<Rightarrow> nat \<Rightarrow> nat \<Rightarrow> nat" where
  "chunk_end data maxBytes start =
     (if length data - start > maxBytes
      then preferredEnd data start (start + maxBytes) (maxBytes * 3 div 5)
      else length data)"

text \<open>The start of the next chunk: step back by the overlap, forward to a rune start.\<close>

function skip_cont :: "string \<Rightarrow> nat \<Rightarrow> nat \<Rightarrow> nat" where
  "skip_cont data e nxt =
     (if nxt < e \<and> nxt < length data \<and> \<not> RuneStart (data ! nxt) then skip_cont data e (Suc nxt) else nxt)"
  by pat_completeness auto
termination
  by (relation "measure (\<lambda>(data, e, nxt). e - nxt)") auto

declare skip_cont.simps [simp del]

definition next_start :: "string \<Rightarrow> nat \<Rightarrow> nat \<Rightarrow> nat \<Rightarrow> nat" where
  "next_start data overlapBytes start e =
     (let nxt = skip_cont data e (e - overlapBytes) in if nxt \<le> start then e else nxt)"

definition mk_range :: "string \<Rightarrow> nat \<Rightarrow> nat \<Rightarrow> byteRange" where
  "mk_range data start e =
     \<lparr>StartByte = start, EndByte = e, StartRune = RuneCount (take start data),
      EndRune = RuneCount (take e data), Content = slice data start e\<rparr>"

function split_loop :: "string \<Rightarrow> nat \<Rightarrow> nat \<Rightarrow> nat \<Rightarrow> byteRange list \<Rightarrow> go_error + byteRange list" where
  "split_loop data maxBytes overlapBytes start result =
     (if start < length data then
        (let e = chunk_end data maxBytes start in
         if e \<le> start \<or> \<not> utf8_Valid (slice data start e) then
           Inl (ErrorString (''chunk ['' @ format_nat start @ '','' @ format_nat e @ '') is not valid UTF-8''))
         else if e = length data then Inr (result @ [mk_range data start e])
         else if e < overlapBytes then Inl (RuntimePanic ''index out of range'')
         else split_loop data maxBytes overlapBytes (next_start data overlapBytes start e)
                (result @ [mk_range data start e]))
      else Inr result)"
  by pat_completeness auto
termination
  by (relation "measure (\<lambda>(data, maxBytes, overlapBytes, start, result). length data - start)")
    (auto simp: next_start_def Let_def)

declare split_loop.simps [simp del]

definition splitCanonicalText :: "string \<Rightarrow> int \<Rightarrow> int \<Rightarrow> go_error + byteRange list" where
  "splitCanonicalText text maxBytes overlapBytes =
     (if text = [] then Inr []
      else if maxBytes \<le> 0 \<or> overlapBytes < 0 \<or> overlapBytes \<ge> maxBytes then
        Inl (ErrorString (''invalid chunk bounds max='' @ FormatInt maxBytes @ '' overlap='' @ FormatInt overlapBytes))
      else split_loop text (nat maxBytes) (nat overlapBytes) 0 [])"

section \<open>The byte loops\<close>

lemma retreat_spec:
  "start \<le> limit \<Longrightarrow> start \<le> retreat data start limit \<and> retreat data start limit \<le> limit \<and>
    (start < retreat data start limit \<longrightarrow> RuneStart (data ! retreat data start limit)) \<and>
    (\<forall>q. retreat data start limit < q \<longrightarrow> q \<le> limit \<longrightarrow> \<not> RuneStart (data ! q))"
proof (induction data start limit rule: retreat.induct)
  case (1 data start limit)
  show ?case
  proof (cases "limit > start \<and> \<not> RuneStart (data ! limit)")
    case True
    then have "retreat data start limit = retreat data start (limit - 1)"
      by (subst retreat.simps) simp
    moreover have "q \<le> limit - 1 \<or> q = limit" if "q \<le> limit" for q using that by linarith
    ultimately show ?thesis using 1 True by fastforce
  next
    case False
    then have "retreat data start limit = limit" by (subst retreat.simps) auto
    then show ?thesis using False "1.prems" by auto
  qed
qed

lemma retreat_window:
  assumes "utf8_Valid data" "limit < length data" "start + 4 \<le> limit"
  shows "limit < retreat data start limit + 4" and "start < retreat data start limit"
    and "retreat data start limit \<le> limit" and "rune_boundary data (retreat data start limit)"
proof -
  obtain q where q: "q \<le> limit" "limit < q + 4" "RuneStart (data ! q)"
    using boundary_within_4 [OF assms(1,2)] by blast
  note r = retreat_spec [of start limit data]
  have "q \<le> retreat data start limit" using r q assms(3) by (metis not_less le_trans le_add1)
  then show "limit < retreat data start limit + 4" and lt: "start < retreat data start limit"
    using q assms(3) by linarith+
  show le: "retreat data start limit \<le> limit" using r assms(3) by simp
  show "rune_boundary data (retreat data start limit)"
    using r lt le assms by (auto simp: rune_boundary_def)
qed

lemma advance_spec:
  "minimum \<le> advance data limit minimum \<and>
   (minimum \<le> limit \<longrightarrow> advance data limit minimum \<le> limit) \<and>
   (advance data limit minimum < limit \<longrightarrow> RuneStart (data ! advance data limit minimum))"
proof (induction data limit minimum rule: advance.induct)
  case (1 data limit minimum)
  then show ?case
    by (cases "minimum < limit \<and> \<not> RuneStart (data ! minimum)") (auto simp: advance.simps [of data limit minimum])
qed

lemma slice_decode:
  assumes "utf8_Valid data" "rune_boundary data p" "rune_boundary data q" "p < q"
  shows "p < p + snd (DecodeRune (slice data p q))" "p + snd (DecodeRune (slice data p q)) \<le> q"
    "rune_boundary data (p + snd (DecodeRune (slice data p q)))"
proof -
  let ?s = "slice data p q"
  have q: "q \<le> length data" using assms(3) by (rule rune_boundary_le)
  then have len: "length ?s = q - p" by (simp add: slice_def)
  then have ne: "?s \<noteq> []" using assms(4) by auto
  have "utf8_Valid ?s" unfolding slice_def using assms utf8_Valid_slice by simp
  then obtain n where n: "rune_len ?s = Some n" "utf8_Valid (drop n ?s)"
    using ne utf8_Valid_step by auto
  then have sz: "snd (DecodeRune ?s) = n" using ne by (simp add: DecodeRune_def)
  have nb: "1 \<le> n" "n \<le> q - p" using rune_len_bounds [OF n(1)] len by auto
  then show "p < p + snd (DecodeRune ?s)" "p + snd (DecodeRune ?s) \<le> q"
    using sz assms(4) by auto
  have "rune_boundary (drop n ?s) 0" using n(2) by (rule rune_boundary_0)
  then show "rune_boundary data (p + snd (DecodeRune ?s))"
    using sz nb q len assms(3) by (cases "n = q - p") (auto simp: rune_boundary_def slice_def)
qed

lemma scan_boundary_spec:
  assumes "utf8_Valid data" "rune_boundary data limit" "rune_boundary data position \<or> limit \<le> position"
  shows "scan_boundary data limit position best = best \<or>
    position < scan_boundary data limit position best \<and> scan_boundary data limit position best \<le> limit \<and>
    rune_boundary data (scan_boundary data limit position best)"
  using assms
proof (induction data limit position best rule: scan_boundary.induct)
  case (1 data limit position best)
  show ?case
  proof (cases "position < limit \<and> limit \<le> length data")
    case False
    then have "scan_boundary data limit position best = best" by (subst scan_boundary.simps) auto
    then show ?thesis by simp
  next
    case True
    let ?sz = "snd (DecodeRune (slice data position limit))"
    let ?r = "fst (DecodeRune (slice data position limit))"
    have b: "rune_boundary data position" using True "1.prems"(3) by auto
    note d = slice_decode [OF "1.prems"(1) b "1.prems"(2)]
    have eq: "scan_boundary data limit position best =
        scan_boundary data limit (position + ?sz) (if isPreferredBoundary ?r then position + ?sz else best)"
      using True by (subst scan_boundary.simps) (simp add: Let_def)
    have "scan_boundary data limit (position + ?sz) (if isPreferredBoundary ?r then position + ?sz else best)
          = (if isPreferredBoundary ?r then position + ?sz else best) \<or>
        position + ?sz < scan_boundary data limit (position + ?sz) (if isPreferredBoundary ?r then position + ?sz else best) \<and>
        scan_boundary data limit (position + ?sz) (if isPreferredBoundary ?r then position + ?sz else best) \<le> limit \<and>
        rune_boundary data (scan_boundary data limit (position + ?sz) (if isPreferredBoundary ?r then position + ?sz else best))"
      using "1.IH" [OF True refl refl "1.prems"(1,2)] d(3) True by blast
    then show ?thesis unfolding eq using d True by (cases "isPreferredBoundary ?r") auto
  qed
qed

text \<open>How far a chunk reaches when it is not the last one.\<close>

definition min_reach :: "nat \<Rightarrow> nat" where
  "min_reach maxBytes = min (Suc (maxBytes * 3 div 5)) (maxBytes - 3)"

lemma chunk_end_spec:
  assumes valid: "utf8_Valid data" and start: "rune_boundary data start" "start < length data" and mx: "4 \<le> maxBytes"
  defines "e \<equiv> chunk_end data maxBytes start"
  shows "rune_boundary data e" "start < e" "e \<le> start + maxBytes"
    "e \<noteq> length data \<Longrightarrow> start + min_reach maxBytes \<le> e"
proof -
  have "rune_boundary data e \<and> start < e \<and> e \<le> start + maxBytes \<and>
    (e \<noteq> length data \<longrightarrow> start + min_reach maxBytes \<le> e)"
  proof (cases "length data - start > maxBytes")
    case False
    then show ?thesis using start by (auto simp: e_def chunk_end_def rune_boundary_def)
  next
    case True
    let ?l = "retreat data start (start + maxBytes)"
    let ?m = "advance data ?l (start + maxBytes * 3 div 5)"
    let ?b = "scan_boundary data ?l ?m 0"
    have lim: "start + maxBytes < length data" using True by linarith
    note l = retreat_window [OF valid lim, of start]
    have l: "start + maxBytes < ?l + 4" "start < ?l" "?l \<le> start + maxBytes" "rune_boundary data ?l"
      using l mx by auto
    have m: "start + maxBytes * 3 div 5 \<le> ?m" "?m < ?l \<longrightarrow> RuneStart (data ! ?m)"
      using advance_spec by blast+
    have "rune_boundary data ?m \<or> ?l \<le> ?m"
      using m(2) l(3) lim by (cases "?m < ?l") (auto simp: rune_boundary_def)
    from scan_boundary_spec [OF valid l(4) this, of 0]
    have b: "?b = 0 \<or> ?m < ?b \<and> ?b \<le> ?l \<and> rune_boundary data ?b" .
    have e: "e = (if ?b > start then ?b else ?l)"
      using True lim by (simp add: e_def chunk_end_def preferredEnd_def Let_def)
    show ?thesis
    proof (cases "?b > start")
      case True
      then have bb: "?m < ?b" "?b \<le> ?l" "rune_boundary data ?b" using b by auto
      have "start + min_reach maxBytes \<le> ?b" using bb(1) m(1) unfolding min_reach_def by linarith
      then show ?thesis using True e l(3) bb by simp
    next
      case False
      have "start + min_reach maxBytes \<le> ?l" using l(1) mx unfolding min_reach_def by linarith
      then show ?thesis using False e l by simp
    qed
  qed
  then show "rune_boundary data e" "start < e" "e \<le> start + maxBytes"
    "e \<noteq> length data \<Longrightarrow> start + min_reach maxBytes \<le> e" by auto
qed

lemma skip_cont_spec:
  "nxt \<le> e \<Longrightarrow> nxt \<le> skip_cont data e nxt \<and> skip_cont data e nxt \<le> e \<and>
    (skip_cont data e nxt < e \<longrightarrow> skip_cont data e nxt < length data \<longrightarrow> RuneStart (data ! skip_cont data e nxt))"
proof (induction data e nxt rule: skip_cont.induct)
  case (1 data e nxt)
  then show ?case
    by (cases "nxt < e \<and> nxt < length data \<and> \<not> RuneStart (data ! nxt)") (auto simp: skip_cont.simps [of data e nxt])
qed

lemma next_start_spec:
  assumes "rune_boundary data e" "start < e" "ov \<le> e"
  shows "start < next_start data ov start e" "next_start data ov start e \<le> e"
    "e \<le> next_start data ov start e + ov" "rune_boundary data (next_start data ov start e)"
proof -
  have e: "e \<le> length data" using assms(1) by (rule rune_boundary_le)
  let ?n = "skip_cont data e (e - ov)"
  have n: "e - ov \<le> ?n" "?n \<le> e" "?n < e \<longrightarrow> ?n < length data \<longrightarrow> RuneStart (data ! ?n)"
    using skip_cont_spec [of "e - ov" e data] by auto
  show "start < next_start data ov start e" "next_start data ov start e \<le> e"
    "e \<le> next_start data ov start e + ov"
    using n assms by (auto simp: next_start_def Let_def)
  have "rune_boundary data ?n"
    using n e assms(1) by (cases "?n < e") (auto simp: rune_boundary_def)
  then show "rune_boundary data (next_start data ov start e)"
    using assms(1) by (simp add: next_start_def Let_def)
qed

section \<open>The chain of ranges\<close>

text \<open>What the loop promises about the ranges it returns from a start position on.\<close>

fun chunk_chain :: "string \<Rightarrow> nat \<Rightarrow> nat \<Rightarrow> nat \<Rightarrow> byteRange list \<Rightarrow> bool" where
  "chunk_chain data mx ov start [] = False"
| "chunk_chain data mx ov start (r # rs) =
     (r = mk_range data start (EndByte r) \<and> rune_boundary data start \<and> rune_boundary data (EndByte r) \<and>
      start < EndByte r \<and> EndByte r \<le> start + mx \<and>
      (if rs = [] then EndByte r = length data
       else start < StartByte (hd rs) \<and> StartByte (hd rs) \<le> EndByte r \<and>
            EndByte r \<le> StartByte (hd rs) + ov \<and> start + min_reach mx \<le> EndByte r \<and>
            chunk_chain data mx ov (StartByte (hd rs)) rs))"

lemma mk_range_simps [simp]:
  "StartByte (mk_range data i j) = i" "EndByte (mk_range data i j) = j"
  "Content (mk_range data i j) = slice data i j"
  "StartRune (mk_range data i j) = RuneCount (take i data)"
  "EndRune (mk_range data i j) = RuneCount (take j data)"
  by (simp_all add: mk_range_def)

lemma chunk_chain_head: "chunk_chain data mx ov start rs \<Longrightarrow> rs \<noteq> [] \<and> StartByte (hd rs) = start"
  by (cases rs) (auto simp del: mk_range_simps, metis mk_range_simps(1))

lemma split_loop_chain:
  assumes "utf8_Valid data" "rune_boundary data start" "start < length data"
    and "4 \<le> mx" "ov \<le> min_reach mx"
  shows "\<exists>rs. split_loop data mx ov start acc = Inr (acc @ rs) \<and> chunk_chain data mx ov start rs"
  using assms
proof (induction data mx ov start acc rule: split_loop.induct)
  case (1 data mx ov start acc)
  let ?e = "chunk_end data mx start"
  note e = chunk_end_spec [OF "1.prems"(1-4)]
  have v: "utf8_Valid (slice data start ?e)"
    unfolding slice_def using utf8_Valid_slice [OF "1.prems"(1,2) e(1)] e(2) by simp
  show ?case
  proof (cases "?e = length data")
    case True
    then have "split_loop data mx ov start acc = Inr (acc @ [mk_range data start ?e])"
      using "1.prems"(3) e(2) v by (subst split_loop.simps) (simp add: Let_def)
    moreover have "chunk_chain data mx ov start [mk_range data start ?e]"
      using True "1.prems"(2) e by simp
    ultimately show ?thesis by blast
  next
    case False
    have ov: "ov \<le> ?e" using e(4) [OF False] "1.prems"(5) by linarith
    let ?n = "next_start data ov start ?e"
    note n = next_start_spec [OF e(1,2) ov]
    have nl: "?n < length data" using n(2) False rune_boundary_le [OF e(1)] by linarith
    have eq: "split_loop data mx ov start acc = split_loop data mx ov ?n (acc @ [mk_range data start ?e])"
      using "1.prems"(3) e(2) v False ov by (subst split_loop.simps) (simp add: Let_def)
    obtain rs where rs: "split_loop data mx ov ?n (acc @ [mk_range data start ?e]) =
        Inr ((acc @ [mk_range data start ?e]) @ rs)" "chunk_chain data mx ov ?n rs"
      using "1.IH" [OF "1.prems"(3) refl _ False _ "1.prems"(1) n(4) nl "1.prems"(4,5)] e(2) v ov by auto
    have "chunk_chain data mx ov start (mk_range data start ?e # rs)"
      using "1.prems"(2) e n rs(2) chunk_chain_head [OF rs(2)] False by auto
    then show ?thesis using eq rs(1) by auto
  qed
qed

text \<open>Facts read off a chain, by induction on it.\<close>

lemma chunk_chain_all:
  "chunk_chain data mx ov start rs \<Longrightarrow> r \<in> set rs \<Longrightarrow>
    r = mk_range data (StartByte r) (EndByte r) \<and> rune_boundary data (StartByte r) \<and>
    rune_boundary data (EndByte r) \<and> StartByte r < EndByte r \<and> EndByte r \<le> StartByte r + mx"
proof (induction rs arbitrary: start)
  case (Cons a rs)
  have "a = mk_range data start (EndByte a)" using Cons.prems by simp
  then have "StartByte a = start" by (metis mk_range_simps(1))
  then show ?case using Cons by (cases "r = a") (auto split: if_splits)
qed simp

lemma chunk_chain_last: "chunk_chain data mx ov start rs \<Longrightarrow> EndByte (last rs) = length data"
  by (induction rs arbitrary: start) (auto split: if_splits)

lemma chunk_chain_steps:
  "chunk_chain data mx ov start rs \<Longrightarrow>
   successively (\<lambda>a b. StartByte a < StartByte b \<and> StartByte b \<le> EndByte a \<and> EndByte a \<le> StartByte b + ov \<and>
     StartByte a + min_reach mx \<le> EndByte a) rs"
proof (induction rs arbitrary: start)
  case (Cons a rs)
  have "a = mk_range data start (EndByte a)" using Cons.prems by simp
  then have "StartByte a = start" by (metis mk_range_simps(1))
  then show ?case using Cons by (cases rs) (auto split: if_splits)
qed simp

text \<open>
  Reading the ranges back: from each one, what lies beyond the end of the previous one. On a
  chain this gives the text again.
\<close>

fun reassemble :: "nat \<Rightarrow> byteRange list \<Rightarrow> string" where
  "reassemble p [] = []"
| "reassemble p (r # rs) = drop (p - StartByte r) (Content r) @ reassemble (EndByte r) rs"

lemma chunk_chain_reach:
  assumes "chunk_chain data mx ov start rs" "ov \<le> min_reach mx" "p \<le> length data" "p \<le> start + ov"
  shows "p \<le> EndByte (hd rs)"
  using assms by (cases rs) (auto split: if_splits)

lemma reassemble_chain:
  assumes "ov \<le> min_reach mx"
  shows "chunk_chain data mx ov start rs \<Longrightarrow> start \<le> p \<Longrightarrow> p \<le> EndByte (hd rs) \<Longrightarrow> reassemble p rs = drop p data"
proof (induction rs arbitrary: start p)
  case (Cons r rs)
  then have r: "r = mk_range data start (EndByte r)" by simp
  then have st: "StartByte r = start" and ct: "Content r = slice data start (EndByte r)"
    by (metis mk_range_simps(1), metis mk_range_simps(3))
  have len: "EndByte r \<le> length data" using Cons.prems(1) rune_boundary_le by auto
  have p: "start \<le> p" "p \<le> EndByte r" using Cons.prems by auto
  have piece: "drop (p - start) (slice data start (EndByte r)) = take (EndByte r - p) (drop p data)"
    using p by (simp add: slice_def drop_take)
  show ?case
  proof (cases "rs = []")
    case True
    then show ?thesis using Cons.prems st ct piece len by simp
  next
    case False
    then have chain: "chunk_chain data mx ov (StartByte (hd rs)) rs"
      and le: "StartByte (hd rs) \<le> EndByte r" "EndByte r \<le> StartByte (hd rs) + ov" using Cons.prems by auto
    have "reassemble (EndByte r) rs = drop (EndByte r) data"
      using Cons.IH [OF chain le(1)] chunk_chain_reach [OF chain assms len le(2)] by blast
    then have "reassemble p (r # rs) = take (EndByte r - p) (drop p data) @ drop (EndByte r - p) (drop p data)"
      using st ct piece p by simp
    also have "\<dots> = drop p data" by (rule append_take_drop_id)
    finally show ?thesis .
  qed
qed simp

section \<open>Properties\<close>

lemma splitCanonicalText_chain:
  assumes "utf8_Valid text" "text \<noteq> []" "4 \<le> mx" "0 \<le> ov" "ov < mx" "nat ov \<le> min_reach (nat mx)"
  shows "\<exists>rs. splitCanonicalText text mx ov = Inr rs \<and> chunk_chain text (nat mx) (nat ov) 0 rs"
proof -
  have "rune_boundary text 0" "0 < length text" "4 \<le> nat mx"
    using assms rune_boundary_0 by auto
  from split_loop_chain [OF assms(1) this assms(6), of "[]"] show ?thesis
    using assms by (auto simp: splitCanonicalText_def)
qed

text \<open>
  C23. On valid, non-empty UTF-8 text, with a maximum of at least four bytes and an overlap that
  the shortest possible chunk can give back, \<open>splitCanonicalText\<close> succeeds (no error, no panic,
  the loop ends) and its ranges cover the text from byte 0 to the last byte: each range is a
  non-empty run of whole runes of at most \<open>maxBytes\<close> bytes with its exact rune offsets, starts
  strictly increase, no byte is left out between two ranges, and two neighbours share at most
  \<open>overlapBytes\<close> bytes.
\<close>

theorem splitCanonicalText_correct:
  assumes "utf8_Valid text" "text \<noteq> []" "4 \<le> mx" "0 \<le> ov" "ov < mx"
    and "ov \<le> 1 + mx * 3 div 5" "ov \<le> mx - 3"
  shows "\<exists>rs. splitCanonicalText text mx ov = Inr rs \<and> rs \<noteq> [] \<and>
    StartByte (hd rs) = 0 \<and> EndByte (last rs) = length text \<and>
    (\<forall>r\<in>set rs. StartByte r < EndByte r \<and> EndByte r \<le> length text \<and> int (EndByte r - StartByte r) \<le> mx \<and>
       Content r = take (EndByte r - StartByte r) (drop (StartByte r) text) \<and> utf8_Valid (Content r) \<and>
       StartRune r = RuneCount (take (StartByte r) text) \<and>
       EndRune r = StartRune r + RuneCount (Content r)) \<and>
    successively (\<lambda>a b. StartByte a < StartByte b \<and> StartByte b \<le> EndByte a \<and>
       int (EndByte a - StartByte b) \<le> ov) rs"
proof -
  have mr: "nat ov \<le> min_reach (nat mx)" using assms by (simp add: min_reach_def nat_mult_distrib) linarith
  then obtain rs where rs: "splitCanonicalText text mx ov = Inr rs" "chunk_chain text (nat mx) (nat ov) 0 rs"
    using splitCanonicalText_chain assms by blast
  note hd = chunk_chain_head [OF rs(2)] and steps = chunk_chain_steps [OF rs(2)]
  have each: "StartByte r < EndByte r \<and> EndByte r \<le> length text \<and> int (EndByte r - StartByte r) \<le> mx \<and>
       Content r = take (EndByte r - StartByte r) (drop (StartByte r) text) \<and> utf8_Valid (Content r) \<and>
       StartRune r = RuneCount (take (StartByte r) text) \<and> EndRune r = StartRune r + RuneCount (Content r)"
    if r: "r \<in> set rs" for r
  proof -
    obtain i j where ij: "r = mk_range text i j" "rune_boundary text i" "rune_boundary text j" "i < j" "j \<le> i + nat mx"
      using chunk_chain_all [OF rs(2) r] by (metis mk_range_simps(1,2))
    have "utf8_Valid (take i text)" using rune_boundary_split [OF assms(1) ij(2)] by simp
    moreover have "take j text = take i text @ take (j - i) (drop i text)"
      using ij(4) by (metis le_add_diff_inverse less_imp_le take_add)
    ultimately have "RuneCount (take j text) = RuneCount (take i text) + RuneCount (slice text i j)"
      by (simp add: RuneCount_append slice_def)
    then show ?thesis
      using ij rune_boundary_le [OF ij(3)] utf8_Valid_slice [OF assms(1) ij(2,3)] by (auto simp: slice_def)
  qed
  have "successively (\<lambda>a b. StartByte a < StartByte b \<and> StartByte b \<le> EndByte a \<and> int (EndByte a - StartByte b) \<le> ov) rs"
    using steps by (rule successively_mono) (use assms(4) in auto)
  then show ?thesis using rs(1) hd each chunk_chain_last [OF rs(2)] by blast
qed

text \<open>
  The chunks lose nothing: under the same conditions, taking from each range what lies beyond
  the end of its predecessor gives back the text.
\<close>

theorem splitCanonicalText_reassemble:
  assumes "utf8_Valid text" "4 \<le> mx" "0 \<le> ov" "ov < mx"
    and "ov \<le> 1 + mx * 3 div 5" "ov \<le> mx - 3"
  shows "\<exists>rs. splitCanonicalText text mx ov = Inr rs \<and> reassemble 0 rs = text"
proof (cases "text = []")
  case True
  then show ?thesis by (simp add: splitCanonicalText_def)
next
  case False
  have mr: "nat ov \<le> min_reach (nat mx)" using assms by (simp add: min_reach_def nat_mult_distrib) linarith
  then obtain rs where rs: "splitCanonicalText text mx ov = Inr rs" "chunk_chain text (nat mx) (nat ov) 0 rs"
    using splitCanonicalText_chain assms False by blast
  then show ?thesis using reassemble_chain [OF mr rs(2), of 0] by auto
qed

text \<open>Closed instances are evaluated by unfolding the loops on concrete text.\<close>

lemmas chunker_eval = splitCanonicalText_def split_loop.simps chunk_end_def preferredEnd_def
  retreat.simps advance.simps scan_boundary.simps Let_def skip_cont.simps next_start_def slice_def
  utf8_Valid.simps DecodeRune_def first_info_def byte_def RuneStart_def isPreferredBoundary_def
  rune_value_def is_cont_def

lemma sample_text_valid: "utf8_Valid ''hello, wide world''"
  by (simp add: chunker_eval)

theorem splitCanonicalText_correct_witness:
  "\<exists>rs. splitCanonicalText ''hello, wide world'' 8 2 = Inr rs \<and> rs \<noteq> [] \<and> EndByte (last rs) = 17"
  using splitCanonicalText_correct [OF sample_text_valid, of 8 2] by auto

theorem splitCanonicalText_reassemble_witness:
  "\<exists>rs. splitCanonicalText ''hello, wide world'' 8 2 = Inr rs \<and> reassemble 0 rs = ''hello, wide world''"
  using splitCanonicalText_reassemble [OF sample_text_valid, of 8 2] by simp

text \<open>
  The guard of \<open>splitCanonicalText\<close> accepts every overlap below the maximum, but an overlap
  that is longer than a chunk cut at an early sentence mark makes \<open>end - overlapBytes\<close> negative
  and the byte loop indexes out of range: here the first chunk ends at byte 7 and the overlap is
  9, so the run panics.
\<close>

theorem splitCanonicalText_panics:
  "splitCanonicalText ''aaaaaa,aaaaaaaa'' 10 9 = Inl (RuntimePanic ''index out of range'')"
  by (simp add: chunker_eval)

end
