(* ===== verification/Evidence.thy ===== *)
theory Evidence
  imports Chunker Json "HOL-Library.Product_Lexorder"
begin

text \<open>
  The evidence builder (\<open>internal/evidence\<close>: \<open>canonical.go\<close>, \<open>tokenizer.go\<close>, \<open>models.go\<close>,
  \<open>builder.go\<close>): sources of a frozen dataset snapshot become documents, documents become chunks,
  and every chunk carries citations that point back into the text of its sources byte by byte.

  SHA-256 with hex encoding is the parameter \<open>H\<close>, the Unicode classes are the record \<open>unicode\<close>,
  and \<open>json.Unmarshal\<close> into the two timestamps of a payload is the parameter \<open>ts\<close>.
\<close>

section \<open>Canonical text and hashes\<close>

fun replace_crlf :: "string \<Rightarrow> string" where
  "replace_crlf (a # b # xs) =
     (if byte a = 13 \<and> byte b = 10 then b # replace_crlf xs else a # replace_crlf (b # xs))"
| "replace_crlf xs = xs"

definition NormalizeLineEndings :: "string \<Rightarrow> string" where
  "NormalizeLineEndings value = replace_char (CHR 0x0D) (CHR 0x0A) (replace_crlf value)"

fun join_with :: "string \<Rightarrow> string list \<Rightarrow> string" where
  "join_with sep [] = []"
| "join_with sep [x] = x"
| "join_with sep (x # xs) = x @ sep @ join_with sep xs"

definition hashParts :: "(string \<Rightarrow> string) \<Rightarrow> string list \<Rightarrow> string" where
  "hashParts H parts = H (join_with [CHR 0x1F] parts)"

definition ContractHash :: "(string \<Rightarrow> string) \<Rightarrow> string \<Rightarrow> string \<Rightarrow> string" where
  "ContractHash H parserVersion canonicalText = hashParts H [parserVersion, canonicalText]"

section \<open>Tokenizer\<close>

record unicode =
  is_Han :: "nat \<Rightarrow> bool"
  is_Letter :: "nat \<Rightarrow> bool"
  is_Digit :: "nat \<Rightarrow> bool"
  to_lower :: "nat \<Rightarrow> nat"

definition flush_word :: "unicode \<Rightarrow> nat list \<Rightarrow> string list" where
  "flush_word u word = (if word = [] then [] else [ToLower (to_lower u) (concat (map EncodeRune word))])"

fun han_bigrams :: "nat list \<Rightarrow> string list" where
  "han_bigrams (a # b # xs) = (EncodeRune a @ EncodeRune b) # han_bigrams (b # xs)"
| "han_bigrams xs = []"

definition flush_han :: "nat list \<Rightarrow> string list" where
  "flush_han han = map EncodeRune han @ han_bigrams han"

fun tokenize_loop :: "unicode \<Rightarrow> nat list \<Rightarrow> nat list \<Rightarrow> nat list \<Rightarrow> string list" where
  "tokenize_loop u word han [] = flush_word u word @ flush_han han"
| "tokenize_loop u word han (r # rs) =
     (if is_Han u r then flush_word u word @ tokenize_loop u [] (han @ [r]) rs
      else if is_Letter u r \<or> is_Digit u r then flush_han han @ tokenize_loop u (word @ [r]) [] rs
      else flush_word u word @ flush_han han @ tokenize_loop u [] [] rs)"

definition Tokenize :: "unicode \<Rightarrow> string \<Rightarrow> string list" where
  "Tokenize u text = tokenize_loop u [] [] (runes text)"

definition lexicalText :: "unicode \<Rightarrow> string \<Rightarrow> string" where
  "lexicalText u text = join_with '' '' (Tokenize u text)"

section \<open>Data model\<close>

definition ParserVersion :: string where "ParserVersion = ''evidence_parser_v1''"
definition ChunkerVersion :: string where "ChunkerVersion = ''utf8_paragraph_1200_160_v1''"
definition TokenizerVersion :: string where "TokenizerVersion = ''zh_unigram_bigram_latin_v1''"
definition MaxChunkBytes :: int where "MaxChunkBytes = 1200"
definition ChunkOverlap :: int where "ChunkOverlap = 160"
definition CommentClusterSize :: nat where "CommentClusterSize = 12"

text \<open>The fields of \<open>Run\<close> the builder reads.\<close>

record evidence_run =
  RunID :: string
  RunDatasetVersionID :: int
  RunDatasetID :: int
  RunProjectID :: int
  RunDatasetVersion :: int

record SourceInput =
  EvidenceSourceID :: int
  SourceType :: string
  SourceID :: int
  SourceVersion :: int
  SourceContentHash :: string
  Visibility :: string
  CanonicalText :: string
  SourcePayload :: json

record FactInput =
  DailyFactPayloadID :: int
  FactType :: string
  SubjectID :: int
  FactDate :: int
  FactSourceVersion :: int
  FactContentHash :: string
  FactPayload :: json
  CapturedAt :: int

record DocumentSource =
  ds_EvidenceSourceID :: "int option"
  ds_DailyFactPayloadID :: "int option"
  ds_SourceType :: string
  ds_SourceID :: int
  ds_SourceVersion :: int
  ds_ContentHash :: string
  ds_SourceOrder :: nat
  ds_CanonicalText :: string

record CitationInput =
  CitationKey :: string
  cit_EvidenceSourceID :: "int option"
  cit_DailyFactPayloadID :: "int option"
  cit_SourceType :: string
  cit_SourceID :: int
  cit_SourceVersion :: int
  cit_SourceContentHash :: string
  DocumentStartByte :: nat
  DocumentEndByte :: nat
  SourceStartByte :: nat
  SourceEndByte :: nat
  QuoteHash :: string

record ChunkInput =
  ChunkKey :: string
  ChunkIndex :: nat
  chunk_range :: byteRange
  chunk_ContentHash :: string
  chunk_ChunkerVersion :: string
  chunk_TokenizerVersion :: string
  Lexemes :: string
  chunk_Metadata :: json
  Citations :: "CitationInput list"

record DocumentInput =
  DocumentKey :: string
  doc_ProjectID :: int
  doc_DatasetID :: int
  doc_DatasetVersionID :: int
  DocumentType :: string
  doc_SourceType :: string
  doc_SourceID :: "int option"
  SourceKey :: string
  doc_SourceVersion :: int
  doc_SourceContentHash :: string
  doc_ParserVersion :: string
  doc_Visibility :: string
  doc_CanonicalText :: string
  doc_ContentHash :: string
  doc_Metadata :: json
  SourceCreatedAt :: "int option"
  SourceUpdatedAt :: "int option"
  Sources :: "DocumentSource list"
  Chunks :: "ChunkInput list"

record citationSegment =
  seg_Source :: DocumentSource
  seg_DocumentStartByte :: nat
  seg_DocumentEndByte :: nat
  seg_SourceStartByte :: nat

record documentSpec =
  spec_Run :: evidence_run
  spec_DocumentType :: string
  spec_SourceType :: string
  spec_SourceID :: "int option"
  spec_SourceKey :: string
  spec_SourceVersion :: int
  spec_SourceContentHash :: string
  spec_Visibility :: string
  spec_CanonicalText :: string
  spec_Metadata :: json
  spec_SourceCreatedAt :: "int option"
  spec_SourceUpdatedAt :: "int option"
  spec_Sources :: "DocumentSource list"
  spec_Segments :: "citationSegment list"

section \<open>Documents, chunks and citations\<close>

text \<open>
  The error \<open>json.Unmarshal\<close> returns (its text is not modelled) and the verb \<open>q\<close> of \<open>fmt\<close> on a
  string without characters to escape.
\<close>

definition json_error :: go_error where "json_error = ErrorString ''json: cannot unmarshal''"

definition cite_segment ::
  "(string \<Rightarrow> string) \<Rightarrow> string \<Rightarrow> byteRange \<Rightarrow> citationSegment \<Rightarrow> go_error + CitationInput option" where
  "cite_segment H chunkKey current seg =
     (let src = seg_Source seg;
          i = max (StartByte current) (seg_DocumentStartByte seg);
          j = min (EndByte current) (seg_DocumentEndByte seg) in
      if i \<ge> j then Inr None
      else let sourceStart = seg_SourceStartByte seg + i - seg_DocumentStartByte seg;
               sourceEnd = sourceStart + j - i;
               sourceBytes = ds_CanonicalText src in
        if sourceEnd > length sourceBytes \<or> \<not> utf8_Valid (slice sourceBytes sourceStart sourceEnd)
        then Inl (ErrorString (''citation for '' @ ds_SourceType src @ ''/'' @ FormatInt (ds_SourceID src) @
                '' has invalid source range ['' @ format_nat sourceStart @ '','' @ format_nat sourceEnd @ '')''))
        else let quoteHash = hashParts H [slice sourceBytes sourceStart sourceEnd] in
          Inr (Some \<lparr>
            CitationKey = hashParts H [chunkKey, ds_SourceType src, FormatInt (ds_SourceID src),
              FormatInt (ds_SourceVersion src), format_nat i, format_nat j,
              format_nat sourceStart, format_nat sourceEnd, quoteHash],
            cit_EvidenceSourceID = ds_EvidenceSourceID src,
            cit_DailyFactPayloadID = ds_DailyFactPayloadID src,
            cit_SourceType = ds_SourceType src,
            cit_SourceID = ds_SourceID src,
            cit_SourceVersion = ds_SourceVersion src,
            cit_SourceContentHash = ds_ContentHash src,
            DocumentStartByte = i,
            DocumentEndByte = j,
            SourceStartByte = sourceStart,
            SourceEndByte = sourceEnd,
            QuoteHash = quoteHash\<rparr>))"

fun cite_segments ::
  "(string \<Rightarrow> string) \<Rightarrow> string \<Rightarrow> byteRange \<Rightarrow> citationSegment list \<Rightarrow> go_error + CitationInput list" where
  "cite_segments H chunkKey current [] = Inr []"
| "cite_segments H chunkKey current (seg # segs) =
     (case cite_segment H chunkKey current seg of
        Inl e \<Rightarrow> Inl e
      | Inr c \<Rightarrow>
         (case cite_segments H chunkKey current segs of
            Inl e \<Rightarrow> Inl e
          | Inr cs \<Rightarrow> Inr ((case c of None \<Rightarrow> [] | Some x \<Rightarrow> [x]) @ cs)))"

definition build_chunk ::
  "(string \<Rightarrow> string) \<Rightarrow> unicode \<Rightarrow> string \<Rightarrow> citationSegment list \<Rightarrow> nat \<Rightarrow> byteRange \<Rightarrow> go_error + ChunkInput" where
  "build_chunk H u documentKey segments index current =
     (let chunkHash = hashParts H [Content current];
          chunkKey = hashParts H [documentKey, format_nat index, format_nat (StartByte current),
            format_nat (EndByte current), chunkHash, ChunkerVersion];
          tokens = Tokenize u (Content current) in
      case cite_segments H chunkKey current segments of
        Inl e \<Rightarrow> Inl e
      | Inr cs \<Rightarrow>
          if cs = [] then Inl (ErrorString (''chunk '' @ chunkKey @ '' has no source citation''))
          else Inr \<lparr>ChunkKey = chunkKey, ChunkIndex = index, chunk_range = current,
            chunk_ContentHash = chunkHash, chunk_ChunkerVersion = ChunkerVersion,
            chunk_TokenizerVersion = TokenizerVersion, Lexemes = join_with '' '' tokens,
            chunk_Metadata = JObj [(''token_count'', JInt (int (length tokens)))],
            Citations = cs\<rparr>)"

fun build_chunks ::
  "(string \<Rightarrow> string) \<Rightarrow> unicode \<Rightarrow> string \<Rightarrow> citationSegment list \<Rightarrow> nat \<Rightarrow> byteRange list \<Rightarrow>
   go_error + ChunkInput list" where
  "build_chunks H u documentKey segments index [] = Inr []"
| "build_chunks H u documentKey segments index (r # rs) =
     (case build_chunk H u documentKey segments index r of
        Inl e \<Rightarrow> Inl e
      | Inr c \<Rightarrow> (case build_chunks H u documentKey segments (Suc index) rs of
            Inl e \<Rightarrow> Inl e
          | Inr cs \<Rightarrow> Inr (c # cs)))"

definition buildDocument :: "(string \<Rightarrow> string) \<Rightarrow> unicode \<Rightarrow> documentSpec \<Rightarrow> go_error + DocumentInput" where
  "buildDocument H u spec =
     (let canonical = NormalizeLineEndings (spec_CanonicalText spec) in
      case splitCanonicalText canonical MaxChunkBytes ChunkOverlap of
        Inl e \<Rightarrow> Inl e
      | Inr ranges \<Rightarrow>
          if ranges = [] then Inl (ErrorString (''document '' @ spec_SourceKey spec @ '' has empty canonical text''))
          else
            let contentHash = ContractHash H ParserVersion canonical;
                documentKey = hashParts H [FormatInt (RunDatasetVersionID (spec_Run spec)), spec_DocumentType spec,
                  spec_SourceKey spec, FormatInt (spec_SourceVersion spec), spec_SourceContentHash spec,
                  ParserVersion, contentHash] in
            case build_chunks H u documentKey (spec_Segments spec) 0 ranges of
              Inl e \<Rightarrow> Inl e
            | Inr chunks \<Rightarrow> Inr \<lparr>
                DocumentKey = documentKey,
                doc_ProjectID = RunProjectID (spec_Run spec),
                doc_DatasetID = RunDatasetID (spec_Run spec),
                doc_DatasetVersionID = RunDatasetVersionID (spec_Run spec),
                DocumentType = spec_DocumentType spec,
                doc_SourceType = spec_SourceType spec,
                doc_SourceID = spec_SourceID spec,
                SourceKey = spec_SourceKey spec,
                doc_SourceVersion = spec_SourceVersion spec,
                doc_SourceContentHash = spec_SourceContentHash spec,
                doc_ParserVersion = ParserVersion,
                doc_Visibility = spec_Visibility spec,
                doc_CanonicalText = canonical,
                doc_ContentHash = contentHash,
                doc_Metadata = spec_Metadata spec,
                SourceCreatedAt = spec_SourceCreatedAt spec,
                SourceUpdatedAt = spec_SourceUpdatedAt spec,
                Sources = spec_Sources spec,
                Chunks = chunks\<rparr>)"

section \<open>Documents from notes and media\<close>

definition direct_source :: "SourceInput \<Rightarrow> string \<Rightarrow> DocumentSource" where
  "direct_source source canonical =
     \<lparr>ds_EvidenceSourceID = Some (EvidenceSourceID source), ds_DailyFactPayloadID = None,
      ds_SourceType = SourceType source, ds_SourceID = SourceID source,
      ds_SourceVersion = SourceVersion source, ds_ContentHash = SourceContentHash source,
      ds_SourceOrder = 0, ds_CanonicalText = canonical\<rparr>"

definition whole_segment :: "DocumentSource \<Rightarrow> string \<Rightarrow> citationSegment" where
  "whole_segment src canonical =
     \<lparr>seg_Source = src, seg_DocumentStartByte = 0, seg_DocumentEndByte = length canonical,
      seg_SourceStartByte = 0\<rparr>"

definition buildDirectDocument ::
  "(string \<Rightarrow> string) \<Rightarrow> unicode \<Rightarrow> (json \<Rightarrow> int option \<times> int option) \<Rightarrow> evidence_run \<Rightarrow> SourceInput \<Rightarrow>
   go_error + DocumentInput option" where
  "buildDirectDocument H u ts run source =
     (let canonical = NormalizeLineEndings (CanonicalText source) in
      if canonical = [] then Inr None
      else let src = direct_source source canonical;
               (createdAt, updatedAt) = ts (SourcePayload source) in
        case buildDocument H u
          \<lparr>spec_Run = run, spec_DocumentType = SourceType source, spec_SourceType = SourceType source,
           spec_SourceID = Some (SourceID source),
           spec_SourceKey = SourceType source @ '':'' @ FormatInt (SourceID source),
           spec_SourceVersion = SourceVersion source, spec_SourceContentHash = SourceContentHash source,
           spec_Visibility = Visibility source, spec_CanonicalText = canonical,
           spec_Metadata = JObj [(''evidence_source_id'', JInt (EvidenceSourceID source))],
           spec_SourceCreatedAt = createdAt, spec_SourceUpdatedAt = updatedAt,
           spec_Sources = [src], spec_Segments = [whole_segment src canonical]\<rparr>
        of Inl e \<Rightarrow> Inl e | Inr d \<Rightarrow> Inr (Some d))"

section \<open>Comment clusters\<close>

record commentPayload =
  cp_NoteID :: int
  cp_Sentiment :: string
  cp_Intent :: string
  cp_TopicID :: int

definition decode_commentPayload :: "json \<Rightarrow> commentPayload \<times> bool" where
  "decode_commentPayload p =
     (case object_members p of
        None \<Rightarrow> (\<lparr>cp_NoteID = 0, cp_Sentiment = [], cp_Intent = [], cp_TopicID = 0\<rparr>, False)
      | Some ms \<Rightarrow>
          (\<lparr>cp_NoteID = int64_field ''note_id'' ms, cp_Sentiment = string_field ''sentiment'' ms,
            cp_Intent = string_field ''intent'' ms, cp_TopicID = int64_field ''topic_id'' ms\<rparr>,
           int64_field_ok ''note_id'' ms \<and> string_field_ok ''sentiment'' ms \<and>
           string_field_ok ''intent'' ms \<and> int64_field_ok ''topic_id'' ms))"

definition commentValue :: "SourceInput \<Rightarrow> int" where
  "commentValue source =
     (let payload = fst (decode_commentPayload (SourcePayload source)) in
      int (RuneCount (CanonicalText source))
      + (if cp_Intent payload \<noteq> [] then 80 else 0)
      + (if cp_Sentiment payload \<noteq> [] then 40 else 0)
      + (if cp_TopicID payload > 0 then 20 else 0))"

definition comment_header :: "int \<Rightarrow> string" where
  "comment_header i = ''[comment '' @ FormatInt i @ '']'' @ [CHR 0x0A]"

text \<open>The state of the loop over the members of one cluster.\<close>

record cluster_state =
  cl_text :: string
  cl_segments :: "citationSegment list"
  cl_sources :: "DocumentSource list"
  cl_hashInput :: "string list"
  cl_visibility :: string

definition cluster_init :: cluster_state where
  "cluster_init = \<lparr>cl_text = [], cl_segments = [], cl_sources = [], cl_hashInput = [], cl_visibility = ''public''\<rparr>"

definition cluster_add :: "SourceInput \<Rightarrow> cluster_state \<Rightarrow> cluster_state" where
  "cluster_add member st =
     (let canonical = NormalizeLineEndings (CanonicalText member) in
      if canonical = [] then st
      else
        let text1 = (if length (cl_text st) > 0 then cl_text st @ [CHR 0x0A, CHR 0x0A] else cl_text st)
              @ comment_header (SourceID member);
            documentStart = length text1;
            text2 = text1 @ canonical;
            src = \<lparr>ds_EvidenceSourceID = Some (EvidenceSourceID member), ds_DailyFactPayloadID = None,
              ds_SourceType = SourceType member, ds_SourceID = SourceID member,
              ds_SourceVersion = SourceVersion member, ds_ContentHash = SourceContentHash member,
              ds_SourceOrder = length (cl_sources st), ds_CanonicalText = canonical\<rparr> in
        \<lparr>cl_text = text2,
         cl_segments = cl_segments st @ [\<lparr>seg_Source = src, seg_DocumentStartByte = documentStart,
             seg_DocumentEndByte = length text2, seg_SourceStartByte = 0\<rparr>],
         cl_sources = cl_sources st @ [src],
         cl_hashInput = cl_hashInput st @
           [FormatInt (SourceID member), FormatInt (SourceVersion member), SourceContentHash member],
         cl_visibility = (if Visibility member = ''project'' then ''project'' else cl_visibility st)\<rparr>)"

definition pad4 :: "nat \<Rightarrow> string" where
  "pad4 n = replicate (4 - length (format_nat n)) (CHR ''0'') @ format_nat n"

definition build_cluster ::
  "(string \<Rightarrow> string) \<Rightarrow> unicode \<Rightarrow> evidence_run \<Rightarrow> int \<Rightarrow> nat \<Rightarrow> SourceInput list \<Rightarrow> go_error + DocumentInput option" where
  "build_cluster H u run noteID clusterIndex members =
     (let st = fold cluster_add members cluster_init in
      if cl_sources st = [] then Inr None
      else case buildDocument H u
          \<lparr>spec_Run = run, spec_DocumentType = ''note_comment_cluster'', spec_SourceType = ''note_comment_cluster'',
           spec_SourceID = Some noteID,
           spec_SourceKey = ''note:'' @ FormatInt noteID @ '':comment-cluster:'' @ pad4 clusterIndex,
           spec_SourceVersion = RunDatasetVersion run, spec_SourceContentHash = hashParts H (cl_hashInput st),
           spec_Visibility = cl_visibility st, spec_CanonicalText = cl_text st,
           spec_Metadata = JObj [(''cluster_index'', JInt (int clusterIndex)),
             (''member_count'', JInt (int (length (cl_sources st)))), (''note_id'', JInt noteID),
             (''ranking_method'', JStr ''semantic_metadata_then_length_v1'')],
           spec_SourceCreatedAt = None, spec_SourceUpdatedAt = None,
           spec_Sources = cl_sources st, spec_Segments = cl_segments st\<rparr>
        of Inl e \<Rightarrow> Inl e | Inr d \<Rightarrow> Inr (Some d))"

function build_clusters ::
  "(string \<Rightarrow> string) \<Rightarrow> unicode \<Rightarrow> evidence_run \<Rightarrow> int \<Rightarrow> nat \<Rightarrow> SourceInput list \<Rightarrow> go_error + DocumentInput list" where
  "build_clusters H u run noteID clusterIndex sources =
     (if sources = [] then Inr []
      else case build_cluster H u run noteID clusterIndex (take CommentClusterSize sources) of
        Inl e \<Rightarrow> Inl e
      | Inr d \<Rightarrow>
         (case build_clusters H u run noteID (Suc clusterIndex) (drop CommentClusterSize sources) of
            Inl e \<Rightarrow> Inl e
          | Inr ds \<Rightarrow> Inr ((case d of None \<Rightarrow> [] | Some x \<Rightarrow> [x]) @ ds)))"
  by pat_completeness auto
termination
  by (relation "measure (\<lambda>(H, u, run, noteID, clusterIndex, sources). length sources)")
    (auto simp: CommentClusterSize_def)

declare build_clusters.simps [simp del]

text \<open>
  The order of the comments of a note: higher value first, then the smaller id. \<open>sort.Slice\<close> is
  not stable; the order is determined whenever the ids of the comments of a note are distinct.
\<close>

definition comment_order :: "SourceInput list \<Rightarrow> SourceInput list" where
  "comment_order sources = sort_key (\<lambda>s. (- commentValue s, SourceID s)) sources"

definition buildCommentClusters ::
  "(string \<Rightarrow> string) \<Rightarrow> unicode \<Rightarrow> evidence_run \<Rightarrow> int \<Rightarrow> SourceInput list \<Rightarrow> go_error + DocumentInput list" where
  "buildCommentClusters H u run noteID sources = build_clusters H u run noteID 0 (comment_order sources)"

section \<open>All source documents of a run\<close>

fun source_loop ::
  "(string \<Rightarrow> string) \<Rightarrow> unicode \<Rightarrow> (json \<Rightarrow> int option \<times> int option) \<Rightarrow> evidence_run \<Rightarrow> SourceInput list \<Rightarrow>
   DocumentInput list \<Rightarrow> (int \<times> SourceInput) list \<Rightarrow> go_error + DocumentInput list \<times> (int \<times> SourceInput) list" where
  "source_loop H u ts run [] documents comments = Inr (documents, comments)"
| "source_loop H u ts run (source # sources) documents comments =
     (if SourceType source = ''note_comment'' then
        (let (payload, ok) = decode_commentPayload (SourcePayload source) in
         if \<not> ok then Inl (WrapError (''decode comment source '' @ FormatInt (SourceID source) @ '' payload'') json_error)
         else if cp_NoteID payload \<le> 0 then Inl (ErrorString (''comment source '' @ FormatInt (SourceID source) @ '' has no note_id''))
         else source_loop H u ts run sources documents (comments @ [(cp_NoteID payload, source)]))
      else if SourceType source \<noteq> ''note'' \<and> SourceType source \<noteq> ''note_media'' then
        Inl (ErrorString (''unsupported snapshot source type '' @ quoted (SourceType source)))
      else
        (case buildDirectDocument H u ts run source of
           Inl e \<Rightarrow> Inl e
         | Inr None \<Rightarrow> source_loop H u ts run sources documents comments
         | Inr (Some d) \<Rightarrow> source_loop H u ts run sources (documents @ [d]) comments))"

fun cluster_loop ::
  "(string \<Rightarrow> string) \<Rightarrow> unicode \<Rightarrow> evidence_run \<Rightarrow> (int \<times> SourceInput) list \<Rightarrow> int list \<Rightarrow> go_error + DocumentInput list" where
  "cluster_loop H u run comments [] = Inr []"
| "cluster_loop H u run comments (n # ns) =
     (case buildCommentClusters H u run n (map snd (filter (\<lambda>p. fst p = n) comments)) of
        Inl e \<Rightarrow> Inl e
      | Inr ds \<Rightarrow> (case cluster_loop H u run comments ns of Inl e \<Rightarrow> Inl e | Inr ds' \<Rightarrow> Inr (ds @ ds')))"

definition BuildSourceDocuments ::
  "(string \<Rightarrow> string) \<Rightarrow> unicode \<Rightarrow> (json \<Rightarrow> int option \<times> int option) \<Rightarrow> evidence_run \<Rightarrow> SourceInput list \<Rightarrow>
   go_error + DocumentInput list" where
  "BuildSourceDocuments H u ts run sources =
     (case source_loop H u ts run sources [] [] of
        Inl e \<Rightarrow> Inl e
      | Inr (documents, comments) \<Rightarrow>
         (case cluster_loop H u run comments (sort (remdups (map fst comments))) of
            Inl e \<Rightarrow> Inl e
          | Inr clusters \<Rightarrow> Inr (documents @ clusters)))"

section \<open>Documents from daily facts\<close>

text \<open>The proleptic Gregorian date of a day number counted from 1970-01-01.\<close>

definition civil_date :: "int \<Rightarrow> int \<times> int \<times> int" where
  "civil_date days =
     (let z = days + 719468; era = z div 146097; doe = z - era * 146097;
          yoe = (doe - doe div 1460 + doe div 36524 - doe div 146096) div 365;
          doy = doe - (365 * yoe + yoe div 4 - yoe div 100); mp = (5 * doy + 2) div 153;
          d = doy - (153 * mp + 2) div 5 + 1; m = (if mp < 10 then mp + 3 else mp - 9);
          y = yoe + era * 400 + (if m \<le> 2 then 1 else 0)
      in (y, m, d))"

definition pad_int :: "nat \<Rightarrow> int \<Rightarrow> string" where
  "pad_int w i = (let s = FormatInt i in replicate (w - length s) (CHR ''0'') @ s)"

text \<open>\<open>t.UTC().Format("2006-01-02")\<close> for a time in nanoseconds since the epoch.\<close>

definition format_date :: "int \<Rightarrow> string" where
  "format_date t = (let (y, m, d) = civil_date (t div 86400000000000) in
     pad_int 4 y @ ''-'' @ pad_int 2 m @ ''-'' @ pad_int 2 d)"

record factPayload =
  fp_SourceRunID :: string
  fp_ViewCount :: int
  fp_LikeCount :: int
  fp_CollectCount :: int
  fp_CommentCount :: int
  fp_ShareCount :: int
  fp_UniqueUserCount :: int
  fp_InteractionCount :: int
  fp_ContentCount :: int
  fp_ActiveNoteCount :: int
  fp_EventCount :: int

definition decode_factPayload :: "json \<Rightarrow> factPayload option" where
  "decode_factPayload p =
     (case object_members p of
        None \<Rightarrow> None
      | Some ms \<Rightarrow>
          if string_field_ok ''source_run_id'' ms \<and>
             (\<forall>f\<in>set [''note_id'', ''user_id'', ''view_count'', ''like_count'', ''collect_count'', ''comment_count'',
                ''share_count'', ''unique_user_count'', ''interaction_count'', ''content_count'',
                ''active_note_count'', ''event_count'']. int64_field_ok f ms)
          then Some \<lparr>fp_SourceRunID = string_field ''source_run_id'' ms,
             fp_ViewCount = int64_field ''view_count'' ms, fp_LikeCount = int64_field ''like_count'' ms,
             fp_CollectCount = int64_field ''collect_count'' ms, fp_CommentCount = int64_field ''comment_count'' ms,
             fp_ShareCount = int64_field ''share_count'' ms, fp_UniqueUserCount = int64_field ''unique_user_count'' ms,
             fp_InteractionCount = int64_field ''interaction_count'' ms, fp_ContentCount = int64_field ''content_count'' ms,
             fp_ActiveNoteCount = int64_field ''active_note_count'' ms, fp_EventCount = int64_field ''event_count'' ms\<rparr>
          else None)"

text \<open>The labels of the fact texts, as the bytes of the source's literals.\<close>

definition zh_note_fact :: string where
  "zh_note_fact = [CHR 0xE7, CHR 0xAC, CHR 0x94, CHR 0xE8, CHR 0xAE, CHR 0xB0, CHR 0xE6, CHR 0x97, CHR 0xA5, CHR 0xE4, CHR 0xBA, CHR 0x8B, CHR 0xE5, CHR 0xAE, CHR 0x9E, CHR 0x0A, CHR 0xE6, CHR 0x97, CHR 0xA5, CHR 0xE6, CHR 0x9C, CHR 0x9F] @ '': ''"

definition zh_note_id :: string where
  "zh_note_id = [CHR 0x0A, CHR 0xE7, CHR 0xAC, CHR 0x94, CHR 0xE8, CHR 0xAE, CHR 0xB0] @ ''ID: ''"

definition zh_views :: string where
  "zh_views = [CHR 0x0A, CHR 0xE6, CHR 0xB5, CHR 0x8F, CHR 0xE8, CHR 0xA7, CHR 0x88] @ '': ''"

definition zh_likes :: string where
  "zh_likes = [CHR 0x0A, CHR 0xE7, CHR 0x82, CHR 0xB9, CHR 0xE8, CHR 0xB5, CHR 0x9E] @ '': ''"

definition zh_collects :: string where
  "zh_collects = [CHR 0x0A, CHR 0xE6, CHR 0x94, CHR 0xB6, CHR 0xE8, CHR 0x97, CHR 0x8F] @ '': ''"

definition zh_comments :: string where
  "zh_comments = [CHR 0x0A, CHR 0xE8, CHR 0xAF, CHR 0x84, CHR 0xE8, CHR 0xAE, CHR 0xBA] @ '': ''"

definition zh_shares :: string where
  "zh_shares = [CHR 0x0A, CHR 0xE5, CHR 0x88, CHR 0x86, CHR 0xE4, CHR 0xBA, CHR 0xAB] @ '': ''"

definition zh_unique :: string where
  "zh_unique = [CHR 0x0A, CHR 0xE7, CHR 0x8B, CHR 0xAC, CHR 0xE7, CHR 0xAB, CHR 0x8B, CHR 0xE7, CHR 0x94, CHR 0xA8, CHR 0xE6, CHR 0x88, CHR 0xB7] @ '': ''"

definition zh_events :: string where
  "zh_events = [CHR 0x0A, CHR 0xE4, CHR 0xBA, CHR 0x8B, CHR 0xE4, CHR 0xBB, CHR 0xB6, CHR 0xE6, CHR 0x80, CHR 0xBB, CHR 0xE6, CHR 0x95, CHR 0xB0] @ '': ''"

definition zh_user_fact :: string where
  "zh_user_fact = [CHR 0xE7, CHR 0x94, CHR 0xA8, CHR 0xE6, CHR 0x88, CHR 0xB7, CHR 0xE6, CHR 0x97, CHR 0xA5, CHR 0xE4, CHR 0xBA, CHR 0x8B, CHR 0xE5, CHR 0xAE, CHR 0x9E, CHR 0x0A, CHR 0xE6, CHR 0x97, CHR 0xA5, CHR 0xE6, CHR 0x9C, CHR 0x9F] @ '': ''"

definition zh_user_id :: string where
  "zh_user_id = [CHR 0x0A, CHR 0xE7, CHR 0x94, CHR 0xA8, CHR 0xE6, CHR 0x88, CHR 0xB7] @ ''ID: ''"

definition zh_interactions :: string where
  "zh_interactions = [CHR 0x0A, CHR 0xE4, CHR 0xBA, CHR 0x92, CHR 0xE5, CHR 0x8A, CHR 0xA8] @ '': ''"

definition zh_posts :: string where
  "zh_posts = [CHR 0x0A, CHR 0xE5, CHR 0x8F, CHR 0x91, CHR 0xE5, CHR 0xB8, CHR 0x96] @ '': ''"

definition zh_active :: string where
  "zh_active = [CHR 0x0A, CHR 0xE6, CHR 0xB4, CHR 0xBB, CHR 0xE8, CHR 0xB7, CHR 0x83, CHR 0xE7, CHR 0xAC, CHR 0x94, CHR 0xE8, CHR 0xAE, CHR 0xB0] @ '': ''"

definition canonicalFactText :: "FactInput \<Rightarrow> factPayload \<Rightarrow> go_error + string" where
  "canonicalFactText fct payload =
     (let date = format_date (FactDate fct) in
      if FactType fct = ''note_daily_fact'' then
        Inr (zh_note_fact @ date @ zh_note_id @ FormatInt (SubjectID fct) @ zh_views @ FormatInt (fp_ViewCount payload)
          @ zh_likes @ FormatInt (fp_LikeCount payload) @ zh_collects @ FormatInt (fp_CollectCount payload)
          @ zh_comments @ FormatInt (fp_CommentCount payload) @ zh_shares @ FormatInt (fp_ShareCount payload)
          @ zh_unique @ FormatInt (fp_UniqueUserCount payload) @ zh_events @ FormatInt (fp_EventCount payload))
      else if FactType fct = ''user_daily_fact'' then
        Inr (zh_user_fact @ date @ zh_user_id @ FormatInt (SubjectID fct) @ zh_views @ FormatInt (fp_ViewCount payload)
          @ zh_interactions @ FormatInt (fp_InteractionCount payload) @ zh_posts @ FormatInt (fp_ContentCount payload)
          @ zh_comments @ FormatInt (fp_CommentCount payload) @ zh_active @ FormatInt (fp_ActiveNoteCount payload)
          @ zh_events @ FormatInt (fp_EventCount payload))
      else Inl (ErrorString (''unsupported daily fact type '' @ quoted (FactType fct))))"

definition build_fact ::
  "(string \<Rightarrow> string) \<Rightarrow> unicode \<Rightarrow> evidence_run \<Rightarrow> FactInput \<Rightarrow> go_error + DocumentInput" where
  "build_fact H u run fct =
     (case decode_factPayload (FactPayload fct) of
        None \<Rightarrow> Inl (WrapError (''decode daily fact payload '' @ FormatInt (DailyFactPayloadID fct)) json_error)
      | Some payload \<Rightarrow>
         (case canonicalFactText fct payload of
            Inl e \<Rightarrow> Inl e
          | Inr canonical \<Rightarrow>
             let src = \<lparr>ds_EvidenceSourceID = None, ds_DailyFactPayloadID = Some (DailyFactPayloadID fct),
                   ds_SourceType = FactType fct, ds_SourceID = SubjectID fct,
                   ds_SourceVersion = FactSourceVersion fct, ds_ContentHash = FactContentHash fct,
                   ds_SourceOrder = 0, ds_CanonicalText = canonical\<rparr>;
                 date = format_date (FactDate fct) in
             buildDocument H u
               \<lparr>spec_Run = run, spec_DocumentType = FactType fct, spec_SourceType = FactType fct,
                spec_SourceID = Some (SubjectID fct),
                spec_SourceKey = FactType fct @ '':'' @ FormatInt (SubjectID fct) @ '':'' @ date,
                spec_SourceVersion = FactSourceVersion fct, spec_SourceContentHash = FactContentHash fct,
                spec_Visibility = ''project'', spec_CanonicalText = canonical,
                spec_Metadata = JObj [(''fact_date'', JStr date), (''payload_id'', JInt (DailyFactPayloadID fct)),
                  (''source_run_id'', JStr (fp_SourceRunID payload))],
                spec_SourceCreatedAt = Some (CapturedAt fct), spec_SourceUpdatedAt = Some (CapturedAt fct),
                spec_Sources = [src], spec_Segments = [whole_segment src canonical]\<rparr>))"

fun BuildFactDocuments ::
  "(string \<Rightarrow> string) \<Rightarrow> unicode \<Rightarrow> evidence_run \<Rightarrow> FactInput list \<Rightarrow> go_error + DocumentInput list" where
  "BuildFactDocuments H u run [] = Inr []"
| "BuildFactDocuments H u run (fct # facts) =
     (case build_fact H u run fct of
        Inl e \<Rightarrow> Inl e
      | Inr d \<Rightarrow> (case BuildFactDocuments H u run facts of Inl e \<Rightarrow> Inl e | Inr ds \<Rightarrow> Inr (d # ds)))"

end
