(* ===== verification/Evidence_Props.thy ===== *)
theory Evidence_Props
  imports Evidence "HOL-Library.Multiset"
begin

text \<open>
  Correctness of the evidence builder: line endings are normalised without damaging the encoding,
  every chunk of a document is covered by citations, every citation quotes its source byte by
  byte, and every non-empty source ends up in exactly one document.
\<close>

section \<open>Line endings\<close>

lemma replace_crlf_Cons:
  "replace_crlf (a # xs) =
     (if byte a = 13 \<and> xs \<noteq> [] \<and> byte (hd xs) = 10 then replace_crlf xs else a # replace_crlf xs)"
proof (cases xs)
  case (Cons b ys)
  then show ?thesis by (cases ys) auto
qed simp

lemma NormalizeLineEndings_Nil [simp]: "NormalizeLineEndings [] = []"
  by (simp add: NormalizeLineEndings_def replace_char_def)

lemma byte_eq_13: "byte c = 13 \<longleftrightarrow> c = CHR 0x0D"
proof -
  have "byte c = 13 \<longleftrightarrow> of_char c = (of_char (CHR 0x0D) :: nat)" by (simp add: byte_def)
  then show ?thesis by (simp only: of_char_eq_iff)
qed

lemma NormalizeLineEndings_Cons:
  "NormalizeLineEndings (a # xs) =
     (if byte a = 13 then
        (if xs \<noteq> [] \<and> byte (hd xs) = 10 then NormalizeLineEndings xs else CHR 0x0A # NormalizeLineEndings xs)
      else a # NormalizeLineEndings xs)"
  by (auto simp: NormalizeLineEndings_def replace_char_def replace_crlf_Cons byte_eq_13)

definition no_CR :: "string \<Rightarrow> bool" where
  "no_CR s = (\<forall>c\<in>set s. byte c \<noteq> 13)"

lemma no_CR_simps [simp]:
  "no_CR []" "no_CR (c # s) \<longleftrightarrow> byte c \<noteq> 13 \<and> no_CR s" "no_CR (s @ t) \<longleftrightarrow> no_CR s \<and> no_CR t"
  by (auto simp: no_CR_def)

lemma NormalizeLineEndings_no_CR: "no_CR (NormalizeLineEndings s)"
  by (induction s) (auto simp: NormalizeLineEndings_Cons byte_def)

lemma NormalizeLineEndings_id: "no_CR s \<Longrightarrow> NormalizeLineEndings s = s"
  by (induction s) (auto simp: NormalizeLineEndings_Cons)

lemma NormalizeLineEndings_append:
  "no_CR p \<Longrightarrow> NormalizeLineEndings (p @ s) = p @ NormalizeLineEndings s"
  by (induction p) (auto simp: NormalizeLineEndings_Cons)

lemma rune_len_ascii: "byte c < 128 \<Longrightarrow> rune_len (c # cs) = Some 1"
  by (simp add: first_info_def)

lemma utf8_Valid_ascii_Cons: "byte c < 128 \<Longrightarrow> utf8_Valid (c # s) = utf8_Valid s"
  by (simp add: utf8_Valid_step rune_len_ascii del: rune_len.simps)

lemma rune_len_wide:
  assumes "rune_len s = Some n" "\<not> byte (s ! 0) < 128"
  shows "no_CR (take n s)"
proof -
  have n: "n \<le> length s" using rune_len_bounds [OF assms(1)] by simp
  have "byte (s ! i) \<noteq> 13" if "i < n" for i
    using assms(2) rune_len_cont [OF assms(1), of i] that by (cases "i = 0") (auto simp: is_cont_def)
  then show ?thesis using n by (auto simp: no_CR_def in_set_conv_nth)
qed

lemma NormalizeLineEndings_utf8: "utf8_Valid s \<Longrightarrow> utf8_Valid (NormalizeLineEndings s)"
proof (induction s rule: utf8_Valid.induct)
  case (1 s)
  show ?case
  proof (cases s)
    case (Cons c cs)
    with 1(2) obtain n where n: "rune_len s = Some n" and v: "utf8_Valid (drop n s)"
      by (auto simp: utf8_Valid_step simp del: rune_len.simps)
    have ih: "utf8_Valid (NormalizeLineEndings (drop n s))"
      using 1(1) [OF _ n v] Cons by simp
    show ?thesis
    proof (cases "byte c < 128")
      case True
      then have "n = 1" using n Cons rune_len_ascii by simp
      then have "utf8_Valid (NormalizeLineEndings cs)" using ih Cons by simp
      moreover have "byte (CHR 0x0A) < 128" by (simp add: byte_def)
      ultimately show ?thesis using True Cons by (simp add: NormalizeLineEndings_Cons utf8_Valid_ascii_Cons)
    next
      case False
      then have cr: "no_CR (take n s)" using rune_len_wide [OF n] Cons by simp
      have "utf8_Valid (take n s)"
        using rune_len_take [OF n order.refl] rune_len_bounds [OF n] Cons
        by (subst utf8_Valid_step) auto
      then have "utf8_Valid (take n s @ NormalizeLineEndings (drop n s))"
        using ih by (rule utf8_Valid_append)
      then show ?thesis using NormalizeLineEndings_append [OF cr, of "drop n s"] by simp
    qed
  qed simp
qed

section \<open>Segments that lay a document out over its sources\<close>

text \<open>
  \<open>seg_exact\<close>: a segment copies a part of its source into the document, between rune boundaries.
  \<open>seg_chain\<close>: the segments follow each other with gaps of at most \<open>G\<close> bytes and the last one
  ends the document.
\<close>

definition seg_exact :: "string \<Rightarrow> citationSegment \<Rightarrow> bool" where
  "seg_exact doc seg =
     (let n = seg_DocumentEndByte seg - seg_DocumentStartByte seg; src = ds_CanonicalText (seg_Source seg) in
      rune_boundary doc (seg_DocumentStartByte seg) \<and> rune_boundary doc (seg_DocumentEndByte seg) \<and>
      seg_SourceStartByte seg + n \<le> length src \<and>
      slice src (seg_SourceStartByte seg) (seg_SourceStartByte seg + n) =
        slice doc (seg_DocumentStartByte seg) (seg_DocumentEndByte seg))"

fun seg_chain :: "nat \<Rightarrow> nat \<Rightarrow> nat \<Rightarrow> citationSegment list \<Rightarrow> bool" where
  "seg_chain G L p [] = (p = L)"
| "seg_chain G L p (seg # segs) =
     (p \<le> seg_DocumentStartByte seg \<and> seg_DocumentStartByte seg \<le> p + G \<and>
      seg_DocumentStartByte seg < seg_DocumentEndByte seg \<and> seg_chain G L (seg_DocumentEndByte seg) segs)"

lemma seg_chain_le: "seg_chain G L p segs \<Longrightarrow> p \<le> L"
  by (induction segs arbitrary: p) fastforce+

lemma seg_chain_snoc:
  "seg_chain G L p segs \<Longrightarrow> L \<le> seg_DocumentStartByte seg \<Longrightarrow> seg_DocumentStartByte seg \<le> L + G \<Longrightarrow>
   seg_DocumentStartByte seg < seg_DocumentEndByte seg \<Longrightarrow>
   seg_chain G (seg_DocumentEndByte seg) p (segs @ [seg])"
  by (induction segs arbitrary: p) auto

lemma seg_chain_window:
  assumes "seg_chain G L p segs" "p \<le> a" "a < b" "b \<le> L" "a + G < b \<or> b = L"
  shows "\<exists>seg\<in>set segs. max a (seg_DocumentStartByte seg) < min b (seg_DocumentEndByte seg)"
  using assms
proof (induction segs arbitrary: p)
  case (Cons seg segs)
  show ?case
  proof (cases "a < seg_DocumentEndByte seg")
    case True
    have "seg_DocumentEndByte seg \<le> L" using Cons.prems(1) seg_chain_le by auto
    then have "seg_DocumentStartByte seg < b" using Cons.prems by auto
    then show ?thesis using True Cons.prems by auto
  next
    case False
    then show ?thesis using Cons.IH [of "seg_DocumentEndByte seg"] Cons.prems by auto
  qed
qed simp

lemma slice_slice: "i' + j \<le> length s \<Longrightarrow> i \<le> j \<Longrightarrow> slice (slice s i' (i' + j)) i j = slice s (i' + i) (i' + j)"
  by (simp add: slice_def take_drop drop_drop add.commute)

lemma slice_length: "j \<le> length s \<Longrightarrow> length (slice s i j) = j - i"
  by (simp add: slice_def)

lemma slice_of_slice:
  "a \<le> b \<Longrightarrow> b \<le> q - p \<Longrightarrow> slice (slice s p q) a b = slice s (p + a) (p + b)"
  by (simp add: slice_def drop_take min_def add.commute)

text \<open>What a citation has to satisfy: it quotes the document and its source alike.\<close>

definition citation_of :: "CitationInput \<Rightarrow> DocumentSource \<Rightarrow> bool" where
  "citation_of c src =
     (cit_EvidenceSourceID c = ds_EvidenceSourceID src \<and> cit_DailyFactPayloadID c = ds_DailyFactPayloadID src \<and>
      cit_SourceType c = ds_SourceType src \<and> cit_SourceID c = ds_SourceID src \<and>
      cit_SourceVersion c = ds_SourceVersion src \<and> cit_SourceContentHash c = ds_ContentHash src)"

definition citation_exact :: "(string \<Rightarrow> string) \<Rightarrow> string \<Rightarrow> DocumentSource list \<Rightarrow> byteRange \<Rightarrow> CitationInput \<Rightarrow> bool" where
  "citation_exact H doc srcs r c =
     (StartByte r \<le> DocumentStartByte c \<and> DocumentStartByte c < DocumentEndByte c \<and> DocumentEndByte c \<le> EndByte r \<and>
      (\<exists>src\<in>set srcs.
         citation_of c src \<and> SourceEndByte c \<le> length (ds_CanonicalText src) \<and>
         slice (ds_CanonicalText src) (SourceStartByte c) (SourceEndByte c) =
           slice doc (DocumentStartByte c) (DocumentEndByte c) \<and>
         QuoteHash c = hashParts H [slice doc (DocumentStartByte c) (DocumentEndByte c)] \<and>
         SourceStartByte c < SourceEndByte c \<and> utf8_Valid (slice doc (DocumentStartByte c) (DocumentEndByte c))))"

lemma cite_segment_Some:
  assumes "i = max (StartByte r) (seg_DocumentStartByte seg)" "j = min (EndByte r) (seg_DocumentEndByte seg)"
    and "i < j" "ss = seg_SourceStartByte seg + i - seg_DocumentStartByte seg" "se = ss + j - i"
    and "se \<le> length (ds_CanonicalText (seg_Source seg))" "utf8_Valid (slice (ds_CanonicalText (seg_Source seg)) ss se)"
  shows "\<exists>c. cite_segment H key r seg = Inr (Some c) \<and> DocumentStartByte c = i \<and> DocumentEndByte c = j \<and>
    SourceStartByte c = ss \<and> SourceEndByte c = se \<and>
    QuoteHash c = hashParts H [slice (ds_CanonicalText (seg_Source seg)) ss se] \<and> citation_of c (seg_Source seg)"
  using assms(3,6,7)
  unfolding cite_segment_def assms(1) [symmetric] assms(2) [symmetric] Let_def assms(4) [symmetric] assms(5) [symmetric]
  by (simp add: citation_of_def)

lemma cite_segment_exact:
  assumes valid: "utf8_Valid doc" and seg: "seg_exact doc seg"
    and r: "rune_boundary doc (StartByte r)" "rune_boundary doc (EndByte r)"
  shows "\<exists>c. cite_segment H key r seg = Inr c \<and>
    (c = None \<longleftrightarrow> \<not> max (StartByte r) (seg_DocumentStartByte seg) < min (EndByte r) (seg_DocumentEndByte seg)) \<and>
    (\<forall>x. c = Some x \<longrightarrow> citation_exact H doc [seg_Source seg] r x)"
proof (cases "max (StartByte r) (seg_DocumentStartByte seg) < min (EndByte r) (seg_DocumentEndByte seg)")
  case False
  then have "max (StartByte r) (seg_DocumentStartByte seg) \<ge> min (EndByte r) (seg_DocumentEndByte seg)" by linarith
  then have "cite_segment H key r seg = Inr None" unfolding cite_segment_def Let_def by (simp only: if_True)
  with False show ?thesis by simp
next
  case True
  define i where "i = max (StartByte r) (seg_DocumentStartByte seg)"
  define j where "j = min (EndByte r) (seg_DocumentEndByte seg)"
  define src where "src = ds_CanonicalText (seg_Source seg)"
  define n where "n = seg_DocumentEndByte seg - seg_DocumentStartByte seg"
  let ?p = "seg_DocumentStartByte seg" and ?q = "seg_DocumentEndByte seg" and ?o = "seg_SourceStartByte seg"
  have ij: "?p \<le> i" "i < j" "j \<le> ?q" using True by (auto simp: i_def j_def)
  have len: "?o + n \<le> length src" and eq: "slice src ?o (?o + n) = slice doc ?p ?q"
    and bd: "rune_boundary doc ?p" "rune_boundary doc ?q"
    using seg by (auto simp: seg_exact_def Let_def src_def n_def)
  have "slice src (?o + (i - ?p)) (?o + (j - ?p)) = slice (slice src ?o (?o + n)) (i - ?p) (j - ?p)"
    using ij by (subst slice_of_slice) (auto simp: n_def)
  also have "\<dots> = slice doc (?p + (i - ?p)) (?p + (j - ?p))"
    using ij unfolding eq by (subst slice_of_slice) auto
  finally have q: "slice src (?o + (i - ?p)) (?o + (j - ?p)) = slice doc i j" using ij by simp
  have se: "?o + i - ?p = ?o + (i - ?p)" "?o + (i - ?p) + j - i = ?o + (j - ?p)" using ij by auto
  have le: "?o + (j - ?p) \<le> length src" using ij len by (auto simp: n_def)
  have "rune_boundary doc i" "rune_boundary doc j" using r bd by (auto simp: i_def j_def max_def min_def)
  then have "utf8_Valid (slice doc i j)" using utf8_Valid_slice [OF valid] ij by (simp add: slice_def)
  with q have v: "utf8_Valid (slice src (?o + (i - ?p)) (?o + (j - ?p)))" by simp
  obtain c where c: "cite_segment H key r seg = Inr (Some c)" "DocumentStartByte c = i" "DocumentEndByte c = j"
    "SourceStartByte c = ?o + (i - ?p)" "SourceEndByte c = ?o + (j - ?p)"
    "QuoteHash c = hashParts H [slice src (?o + (i - ?p)) (?o + (j - ?p))]" "citation_of c (seg_Source seg)"
    using cite_segment_Some [OF i_def j_def ij(2) se(1) [symmetric] se(2) [symmetric], of H key] le v
    unfolding src_def by blast
  have "StartByte r \<le> i" "j \<le> EndByte r" by (simp_all add: i_def j_def)
  then have "citation_exact H doc [seg_Source seg] r c"
    using c ij le q v by (simp add: citation_exact_def citation_of_def src_def)
  with c(1) True show ?thesis by simp
qed

lemma citation_exact_mono: "citation_exact H doc srcs r c \<Longrightarrow> set srcs \<subseteq> set srcs' \<Longrightarrow> citation_exact H doc srcs' r c"
  by (auto simp: citation_exact_def)

lemma cite_segments_exact:
  assumes valid: "utf8_Valid doc" and r: "rune_boundary doc (StartByte r)" "rune_boundary doc (EndByte r)"
    and segs: "\<forall>seg\<in>set segs. seg_exact doc seg"
  shows "\<exists>cs. cite_segments H key r segs = Inr cs \<and>
    (cs = [] \<longleftrightarrow> (\<forall>seg\<in>set segs. \<not> max (StartByte r) (seg_DocumentStartByte seg) < min (EndByte r) (seg_DocumentEndByte seg))) \<and>
    (\<forall>c\<in>set cs. citation_exact H doc (map seg_Source segs) r c)"
  using segs
proof (induction segs)
  case (Cons seg segs)
  obtain cs where cs: "cite_segments H key r segs = Inr cs"
    "cs = [] \<longleftrightarrow> (\<forall>seg\<in>set segs. \<not> max (StartByte r) (seg_DocumentStartByte seg) < min (EndByte r) (seg_DocumentEndByte seg))"
    "\<forall>c\<in>set cs. citation_exact H doc (map seg_Source segs) r c"
    using Cons by auto
  obtain c where c: "cite_segment H key r seg = Inr c"
    "c = None \<longleftrightarrow> \<not> max (StartByte r) (seg_DocumentStartByte seg) < min (EndByte r) (seg_DocumentEndByte seg)"
    "\<forall>x. c = Some x \<longrightarrow> citation_exact H doc [seg_Source seg] r x"
    using cite_segment_exact [OF valid _ r] Cons.prems by (metis list.set_intros(1))
  have "\<forall>x\<in>set cs. citation_exact H doc (map seg_Source (seg # segs)) r x"
    using cs(3) by (auto intro: citation_exact_mono)
  moreover have "\<forall>x. c = Some x \<longrightarrow> citation_exact H doc (map seg_Source (seg # segs)) r x"
    using c(3) by (auto intro: citation_exact_mono)
  ultimately show ?case using cs(1,2) c(1,2) by (cases c) auto
qed simp

text \<open>The chunks of a document: numbered from 0, one per range, every citation exact, none uncited.\<close>

definition chunk_exact :: "(string \<Rightarrow> string) \<Rightarrow> string \<Rightarrow> DocumentSource list \<Rightarrow> ChunkInput \<Rightarrow> bool" where
  "chunk_exact H doc srcs chunk =
     (Citations chunk \<noteq> [] \<and> (\<forall>c\<in>set (Citations chunk). citation_exact H doc srcs (chunk_range chunk) c) \<and>
      (\<forall>c\<in>set (Citations chunk). \<exists>rest. CitationKey c = H (ChunkKey chunk @ CHR 0x1F # rest)) \<and>
      chunk_ContentHash chunk = hashParts H [Content (chunk_range chunk)])"

lemma cite_segments_keys:
  "cite_segments H key r segs = Inr cs \<Longrightarrow> \<forall>c\<in>set cs. \<exists>rest. CitationKey c = H (key @ CHR 0x1F # rest)"
proof (induction segs arbitrary: cs)
  case (Cons seg segs)
  then obtain c cs' where c: "cite_segment H key r seg = Inr c" and cs': "cite_segments H key r segs = Inr cs'"
    and eq: "cs = (case c of None \<Rightarrow> [] | Some x \<Rightarrow> [x]) @ cs'"
    by (auto split: sum.splits)
  have "\<exists>rest. CitationKey x = H (key @ CHR 0x1F # rest)" if "c = Some x" for x
    using c that by (auto simp: cite_segment_def Let_def hashParts_def split: if_splits)
  with Cons.IH [OF cs'] eq show ?case by (auto split: option.splits)
qed simp

lemma build_chunk_exact:
  assumes valid: "utf8_Valid doc" and r: "rune_boundary doc (StartByte r)" "rune_boundary doc (EndByte r)"
    and segs: "\<forall>seg\<in>set segs. seg_exact doc seg"
    and hit: "\<exists>seg\<in>set segs. max (StartByte r) (seg_DocumentStartByte seg) < min (EndByte r) (seg_DocumentEndByte seg)"
  shows "\<exists>chunk. build_chunk H u key segs index r = Inr chunk \<and> chunk_range chunk = r \<and> ChunkIndex chunk = index \<and>
    chunk_exact H doc (map seg_Source segs) chunk"
proof -
  define ck where "ck = hashParts H [key, format_nat index, format_nat (StartByte r),
            format_nat (EndByte r), hashParts H [Content r], ChunkerVersion]"
  obtain cs where cs: "cite_segments H ck r segs = Inr cs" "cs \<noteq> []"
    "\<forall>c\<in>set cs. citation_exact H doc (map seg_Source segs) r c"
    using cite_segments_exact [OF valid r segs, of H ck] hit by auto
  then show ?thesis using cite_segments_keys [OF cs(1)] by (simp add: build_chunk_def Let_def ck_def [symmetric] chunk_exact_def)
qed

lemma build_chunks_exact:
  assumes valid: "utf8_Valid doc" and segs: "\<forall>seg\<in>set segs. seg_exact doc seg"
    and "\<forall>r\<in>set rs. rune_boundary doc (StartByte r) \<and> rune_boundary doc (EndByte r) \<and>
      (\<exists>seg\<in>set segs. max (StartByte r) (seg_DocumentStartByte seg) < min (EndByte r) (seg_DocumentEndByte seg))"
  shows "\<exists>chunks. build_chunks H u key segs index rs = Inr chunks \<and> map chunk_range chunks = rs \<and>
    map ChunkIndex chunks = [index..<index + length rs] \<and>
    (\<forall>chunk\<in>set chunks. chunk_exact H doc (map seg_Source segs) chunk)"
  using assms(3)
proof (induction rs arbitrary: index)
  case (Cons r rs)
  obtain c where c: "build_chunk H u key segs index r = Inr c" "chunk_range c = r" "ChunkIndex c = index"
    "chunk_exact H doc (map seg_Source segs) c"
    using build_chunk_exact [OF valid _ _ segs, of r H u key index] Cons.prems by auto
  obtain cs where cs: "build_chunks H u key segs (Suc index) rs = Inr cs" "map chunk_range cs = rs"
    "map ChunkIndex cs = [Suc index..<Suc index + length rs]"
    "\<forall>chunk\<in>set cs. chunk_exact H doc (map seg_Source segs) chunk"
    using Cons.IH [of "Suc index"] Cons.prems by auto
  have "[index..<index + length (r # rs)] = index # [Suc index..<Suc index + length rs]"
    by (simp add: upt_rec)
  with c cs show ?case by simp
qed simp

definition document_exact :: "(string \<Rightarrow> string) \<Rightarrow> DocumentInput \<Rightarrow> bool" where
  "document_exact H d =
     (utf8_Valid (doc_CanonicalText d) \<and>
      chunk_chain (doc_CanonicalText d) (nat MaxChunkBytes) (nat ChunkOverlap) 0 (map chunk_range (Chunks d)) \<and>
      map ChunkIndex (Chunks d) = [0..<length (Chunks d)] \<and>
      (\<forall>chunk\<in>set (Chunks d). \<exists>rest. ChunkKey chunk = H (DocumentKey d @ CHR 0x1F # format_nat (ChunkIndex chunk) @ CHR 0x1F # rest)) \<and>
      (\<forall>chunk\<in>set (Chunks d). chunk_exact H (doc_CanonicalText d) (Sources d) chunk))"

definition layout_ok :: "documentSpec \<Rightarrow> bool" where
  "layout_ok spec =
     (utf8_Valid (spec_CanonicalText spec) \<and> no_CR (spec_CanonicalText spec) \<and> spec_CanonicalText spec \<noteq> [] \<and>
      (\<forall>seg\<in>set (spec_Segments spec). seg_exact (spec_CanonicalText spec) seg) \<and>
      seg_chain 720 (length (spec_CanonicalText spec)) 0 (spec_Segments spec) \<and>
      spec_Sources spec = map seg_Source (spec_Segments spec))"

lemma chunk_chain_ranges:
  "chunk_chain data mx ov start rs \<Longrightarrow> r \<in> set rs \<Longrightarrow>
   EndByte r = length data \<or> StartByte r + min_reach mx \<le> EndByte r"
proof (induction rs arbitrary: start)
  case (Cons a rs)
  then show ?case
    by (auto split: if_splits simp del: mk_range_simps) (metis mk_range_simps(1))+
qed simp

lemma build_chunks_keys:
  "build_chunks H u key segs index rs = Inr cs \<Longrightarrow>
   \<forall>c\<in>set cs. \<exists>rest. ChunkKey c = H (key @ CHR 0x1F # format_nat (ChunkIndex c) @ CHR 0x1F # rest)"
  by (induction rs arbitrary: index cs)
    (fastforce simp: build_chunk_def hashParts_def Let_def split: sum.splits if_splits)+

lemma buildDocument_exact:
  assumes "layout_ok spec"
  shows "\<exists>d. buildDocument H u spec = Inr d \<and> document_exact H d \<and> Sources d = spec_Sources spec \<and>
    doc_CanonicalText d = spec_CanonicalText spec \<and> doc_Visibility d = spec_Visibility spec \<and>
    DocumentType d = spec_DocumentType spec \<and> doc_SourceID d = spec_SourceID spec \<and>
    doc_ContentHash d = ContractHash H ParserVersion (spec_CanonicalText spec)"
proof -
  define tx where "tx = spec_CanonicalText spec"
  have valid: "utf8_Valid tx" and cr: "no_CR tx" and ne: "tx \<noteq> []"
    and segs: "\<forall>seg\<in>set (spec_Segments spec). seg_exact tx seg"
    and chain: "seg_chain 720 (length tx) 0 (spec_Segments spec)"
    and srcs: "spec_Sources spec = map seg_Source (spec_Segments spec)"
    using assms by (auto simp: layout_ok_def tx_def)
  obtain rs where rs: "splitCanonicalText tx MaxChunkBytes ChunkOverlap = Inr rs"
    and ch: "chunk_chain tx (nat MaxChunkBytes) (nat ChunkOverlap) 0 rs"
    using splitCanonicalText_chain [OF valid ne, of MaxChunkBytes ChunkOverlap]
    by (auto simp: MaxChunkBytes_def ChunkOverlap_def min_reach_def)
  have "rune_boundary tx (StartByte r) \<and> rune_boundary tx (EndByte r) \<and>
      (\<exists>seg\<in>set (spec_Segments spec). max (StartByte r) (seg_DocumentStartByte seg) < min (EndByte r) (seg_DocumentEndByte seg))"
    if "r \<in> set rs" for r
  proof -
    have b: "rune_boundary tx (StartByte r)" "rune_boundary tx (EndByte r)" "StartByte r < EndByte r"
      using chunk_chain_all [OF ch that] by auto
    have "StartByte r + 720 < EndByte r \<or> EndByte r = length tx"
      using chunk_chain_ranges [OF ch that] by (auto simp: MaxChunkBytes_def min_reach_def)
    then show ?thesis
      using b seg_chain_window [OF chain, of "StartByte r" "EndByte r"] rune_boundary_le by auto
  qed
  then have hit: "\<forall>r\<in>set rs. rune_boundary tx (StartByte r) \<and> rune_boundary tx (EndByte r) \<and>
      (\<exists>seg\<in>set (spec_Segments spec). max (StartByte r) (seg_DocumentStartByte seg) < min (EndByte r) (seg_DocumentEndByte seg))"
    by blast
  have nrs: "rs \<noteq> []" using chunk_chain_head [OF ch] by simp
  define key where "key = hashParts H [FormatInt (RunDatasetVersionID (spec_Run spec)), spec_DocumentType spec,
                  spec_SourceKey spec, FormatInt (spec_SourceVersion spec), spec_SourceContentHash spec,
                  ParserVersion, ContractHash H ParserVersion tx]"
  obtain chunks where cs: "build_chunks H u key (spec_Segments spec) 0 rs = Inr chunks" "map chunk_range chunks = rs"
    "map ChunkIndex chunks = [0..<length rs]"
    "\<forall>chunk\<in>set chunks. chunk_exact H tx (map seg_Source (spec_Segments spec)) chunk"
    using build_chunks_exact [OF valid segs hit, of H u key 0] by auto
  have "length chunks = length rs" using cs(2) by (metis length_map)
  then show ?thesis
    using rs nrs cs ch srcs valid build_chunks_keys [OF cs(1)]
    by (simp add: buildDocument_def Let_def tx_def [symmetric] NormalizeLineEndings_id [OF cr] key_def [symmetric]
        document_exact_def)
qed

section \<open>The layouts the builder produces\<close>

lemma NormalizeLineEndings_empty [simp]: "NormalizeLineEndings s = [] \<longleftrightarrow> s = []"
  by (induction s) (auto simp: NormalizeLineEndings_Cons)

lemma slice_all [simp]: "slice s 0 (length s) = s"
  by (simp add: slice_def)

lemma whole_segment_exact: "utf8_Valid s \<Longrightarrow> ds_CanonicalText src = s \<Longrightarrow> seg_exact s (whole_segment src s)"
  using rune_boundary_0 by (auto simp: seg_exact_def whole_segment_def rune_boundary_def)

lemma seg_exact_append:
  assumes "seg_exact doc seg" "utf8_Valid ext"
  shows "seg_exact (doc @ ext) seg"
proof -
  have b: "rune_boundary (doc @ ext) p" if "rune_boundary doc p" for p
    using that rune_boundary_0 [OF assms(2)]
    by (cases "p = length doc") (auto simp: rune_boundary_def nth_append)
  have "slice (doc @ ext) i j = slice doc i j" if "j \<le> length doc" for i j
    using that by (cases "i \<le> j") (auto simp: slice_def)
  then show ?thesis
    using assms(1) b rune_boundary_le [of doc "seg_DocumentEndByte seg"] by (auto simp: seg_exact_def Let_def)
qed

definition cluster_ok :: "cluster_state \<Rightarrow> bool" where
  "cluster_ok st =
     (utf8_Valid (cl_text st) \<and> no_CR (cl_text st) \<and> (cl_text st = [] \<longleftrightarrow> cl_segments st = []) \<and>
      (\<forall>seg\<in>set (cl_segments st). seg_exact (cl_text st) seg) \<and>
      seg_chain 720 (length (cl_text st)) 0 (cl_segments st) \<and> cl_sources st = map seg_Source (cl_segments st))"

definition comment_prefix :: "cluster_state \<Rightarrow> SourceInput \<Rightarrow> string" where
  "comment_prefix st m = (if length (cl_text st) > 0 then [CHR 0x0A, CHR 0x0A] else []) @ comment_header (SourceID m)"

lemma comment_prefix_chars: "c \<in> set (comment_prefix st m) \<Longrightarrow> byte c < 128 \<and> byte c \<noteq> 13"
  using FormatInt_chars [of c "SourceID m"]
  by (auto simp: comment_prefix_def comment_header_def byte_def split: if_splits)

lemma comment_prefix_length: "in_int64 (SourceID m) \<Longrightarrow> length (comment_prefix st m) \<le> 33"
  using FormatInt_length [of "SourceID m"] by (auto simp: comment_prefix_def comment_header_def)

lemma comment_prefix_ok: "utf8_Valid (comment_prefix st m)" "no_CR (comment_prefix st m)" "comment_prefix st m \<noteq> []"
proof -
  show "utf8_Valid (comment_prefix st m)" by (rule utf8_Valid_all_ascii) (use comment_prefix_chars in blast)
  show "no_CR (comment_prefix st m)" using comment_prefix_chars unfolding no_CR_def by blast
qed (simp add: comment_prefix_def comment_header_def)

lemma cluster_add_ok:
  assumes ok: "cluster_ok st" and m: "utf8_Valid (CanonicalText m)" "in_int64 (SourceID m)"
  shows "cluster_ok (cluster_add m st)"
proof (cases "CanonicalText m = []")
  case False
  define canon where "canon = NormalizeLineEndings (CanonicalText m)"
  define pre where "pre = comment_prefix st m"
  define src where "src = \<lparr>ds_EvidenceSourceID = Some (EvidenceSourceID m), ds_DailyFactPayloadID = None,
              ds_SourceType = SourceType m, ds_SourceID = SourceID m,
              ds_SourceVersion = SourceVersion m, ds_ContentHash = SourceContentHash m,
              ds_SourceOrder = length (cl_sources st), ds_CanonicalText = canon\<rparr>"
  define seg where "seg = \<lparr>seg_Source = src, seg_DocumentStartByte = length (cl_text st @ pre),
             seg_DocumentEndByte = length (cl_text st @ pre @ canon), seg_SourceStartByte = 0\<rparr>"
  have canon: "utf8_Valid canon" "no_CR canon" "canon \<noteq> []"
    using m False by (simp_all add: canon_def NormalizeLineEndings_utf8 NormalizeLineEndings_no_CR)
  have pre: "utf8_Valid pre" "no_CR pre" "length pre \<le> 33"
    using comment_prefix_ok comment_prefix_length m by (auto simp: pre_def)
  have st': "cl_text (cluster_add m st) = cl_text st @ pre @ canon"
    "cl_segments (cluster_add m st) = cl_segments st @ [seg]"
    "cl_sources (cluster_add m st) = cl_sources st @ [src]"
    using False by (simp_all add: cluster_add_def Let_def canon_def comment_prefix_def pre_def seg_def src_def)
  have "seg_exact (cl_text st @ pre @ canon) seg"
    using canon rune_boundary_0 [OF canon(1)]
    by (auto simp: seg_exact_def seg_def src_def rune_boundary_def slice_def nth_append)
  moreover have "seg_chain 720 (length (cl_text st @ pre @ canon)) 0 (cl_segments st @ [seg])"
    using seg_chain_snoc [of 720 "length (cl_text st)" 0 "cl_segments st" seg] ok pre canon(3)
    by (simp add: cluster_ok_def seg_def)
  moreover have "utf8_Valid (pre @ canon)" using pre canon by (simp add: utf8_Valid_append)
  ultimately show ?thesis
    using ok pre canon unfolding cluster_ok_def st'
    by (auto simp: utf8_Valid_append seg_def intro: seg_exact_append)
qed (simp add: cluster_add_def Let_def ok)

lemma cluster_fold_ok:
  "cluster_ok st \<Longrightarrow> \<forall>m\<in>set ms. utf8_Valid (CanonicalText m) \<and> in_int64 (SourceID m) \<Longrightarrow>
   cluster_ok (fold cluster_add ms st)"
  by (induction ms arbitrary: st) (auto simp: cluster_add_ok)

lemma cluster_init_ok: "cluster_ok cluster_init"
  by (simp add: cluster_ok_def cluster_init_def)

section \<open>From sources to documents\<close>

text \<open>
  \<open>docs_for H docs ss\<close>: the documents are exact, they cite the non-empty sources \<open>ss\<close> and nothing
  else, each exactly once, and a document that holds a project source is itself restricted to
  the project.
\<close>

definition source_ref :: "SourceInput \<Rightarrow> int option \<times> string" where
  "source_ref s = (Some (EvidenceSourceID s), NormalizeLineEndings (CanonicalText s))"

definition doc_refs :: "DocumentInput \<Rightarrow> (int option \<times> string) list" where
  "doc_refs d = map (\<lambda>x. (ds_EvidenceSourceID x, ds_CanonicalText x)) (Sources d)"

definition doc_from :: "(string \<Rightarrow> string) \<Rightarrow> SourceInput list \<Rightarrow> DocumentInput \<Rightarrow> bool" where
  "doc_from H ss d =
     (document_exact H d \<and>
      (\<forall>x\<in>set (doc_refs d). \<exists>s\<in>set ss. x = source_ref s \<and>
         (Visibility s = ''project'' \<longrightarrow> doc_Visibility d = ''project'')))"

definition docs_for :: "(string \<Rightarrow> string) \<Rightarrow> DocumentInput list \<Rightarrow> SourceInput list \<Rightarrow> bool" where
  "docs_for H docs ss =
     ((\<forall>d\<in>set docs. doc_from H ss d) \<and>
      mset (concat (map doc_refs docs)) = mset (map source_ref (filter (\<lambda>s. CanonicalText s \<noteq> []) ss)))"

lemma docs_for_Nil [simp]: "docs_for H [] []"
  by (simp add: docs_for_def)

lemma doc_from_mono: "doc_from H ss d \<Longrightarrow> set ss \<subseteq> set ss' \<Longrightarrow> doc_from H ss' d"
  unfolding doc_from_def by blast

lemma docs_for_append: "docs_for H ds ss \<Longrightarrow> docs_for H ds' ss' \<Longrightarrow> docs_for H (ds @ ds') (ss @ ss')"
  by (auto simp: docs_for_def intro: doc_from_mono)

lemma docs_for_mset:
  assumes "docs_for H ds ss" "mset ss = mset ss'"
  shows "docs_for H ds ss'"
proof -
  have "set ss = set ss'" using assms(2) by (rule mset_eq_setD)
  moreover have "mset (map source_ref (filter (\<lambda>s. CanonicalText s \<noteq> []) ss)) =
      mset (map source_ref (filter (\<lambda>s. CanonicalText s \<noteq> []) ss'))"
    using assms(2) by simp
  ultimately show ?thesis using assms(1) by (auto simp: docs_for_def intro: doc_from_mono)
qed

lemma docs_for_skip: "CanonicalText s = [] \<Longrightarrow> docs_for H [] [s]"
  by (simp add: docs_for_def)

lemma buildDirectDocument_for:
  assumes "utf8_Valid (CanonicalText s)"
  shows "\<exists>d. buildDirectDocument H u ts run s = Inr d \<and> docs_for H (case d of None \<Rightarrow> [] | Some x \<Rightarrow> [x]) [s]"
proof (cases "CanonicalText s = []")
  case False
  define canon where "canon = NormalizeLineEndings (CanonicalText s)"
  have canon: "utf8_Valid canon" "no_CR canon" "canon \<noteq> []"
    using assms False by (simp_all add: canon_def NormalizeLineEndings_utf8 NormalizeLineEndings_no_CR)
  define src where "src = direct_source s canon"
  have src: "ds_CanonicalText src = canon" by (simp add: src_def direct_source_def)
  obtain c m where ts: "ts (SourcePayload s) = (c, m)" by (cases "ts (SourcePayload s)")
  define spec where "spec = \<lparr>spec_Run = run, spec_DocumentType = SourceType s, spec_SourceType = SourceType s,
           spec_SourceID = Some (SourceID s),
           spec_SourceKey = SourceType s @ '':'' @ FormatInt (SourceID s),
           spec_SourceVersion = SourceVersion s, spec_SourceContentHash = SourceContentHash s,
           spec_Visibility = Visibility s, spec_CanonicalText = canon,
           spec_Metadata = JObj [(''evidence_source_id'', JInt (EvidenceSourceID s))],
           spec_SourceCreatedAt = c, spec_SourceUpdatedAt = m,
           spec_Sources = [src], spec_Segments = [whole_segment src canon]\<rparr>"
  have "layout_ok spec"
    using canon whole_segment_exact [OF canon(1) src]
    by (simp add: layout_ok_def spec_def) (simp add: whole_segment_def)
  from buildDocument_exact [OF this, of H u] obtain d where d: "buildDocument H u spec = Inr d" "document_exact H d"
    "Sources d = [src]" "doc_Visibility d = Visibility s"
    by (auto simp: spec_def)
  have "buildDirectDocument H u ts run s = Inr (Some d)"
    using canon(3) d(1) [unfolded spec_def] ts
    by (simp only: buildDirectDocument_def Let_def canon_def [symmetric] src_def [symmetric] if_False prod.case sum.case)
  moreover have "doc_refs d = [source_ref s]"
    by (simp add: doc_refs_def d src_def direct_source_def source_ref_def canon_def)
  ultimately show ?thesis using d False by (simp add: docs_for_def doc_from_def)
qed (simp add: buildDirectDocument_def docs_for_skip)

lemma cluster_fold_sources:
  "map (\<lambda>x. (ds_EvidenceSourceID x, ds_CanonicalText x)) (cl_sources (fold cluster_add ms st)) =
   map (\<lambda>x. (ds_EvidenceSourceID x, ds_CanonicalText x)) (cl_sources st) @
     map source_ref (filter (\<lambda>s. CanonicalText s \<noteq> []) ms)"
  by (induction ms arbitrary: st) (auto simp: cluster_add_def Let_def source_ref_def)

lemma cluster_fold_visibility:
  "cl_visibility (fold cluster_add ms st) =
   (if \<exists>m\<in>set ms. CanonicalText m \<noteq> [] \<and> Visibility m = ''project'' then ''project'' else cl_visibility st)"
  by (induction ms arbitrary: st) (auto simp: cluster_add_def Let_def)

lemma build_cluster_for:
  assumes "\<forall>m\<in>set ms. utf8_Valid (CanonicalText m) \<and> in_int64 (SourceID m)"
  shows "\<exists>d. build_cluster H u run noteID k ms = Inr d \<and> docs_for H (case d of None \<Rightarrow> [] | Some x \<Rightarrow> [x]) ms"
proof -
  define st where "st = fold cluster_add ms cluster_init"
  have ok: "cluster_ok st" unfolding st_def by (rule cluster_fold_ok [OF cluster_init_ok assms])
  have refs: "map (\<lambda>x. (ds_EvidenceSourceID x, ds_CanonicalText x)) (cl_sources st) =
      map source_ref (filter (\<lambda>s. CanonicalText s \<noteq> []) ms)"
    by (simp add: st_def cluster_fold_sources) (simp add: cluster_init_def)
  show ?thesis
  proof (cases "cl_sources st = []")
    case True
    then have "map source_ref (filter (\<lambda>s. CanonicalText s \<noteq> []) ms) = []" using refs by simp
    then show ?thesis
      using True by (simp add: build_cluster_def Let_def st_def [symmetric] docs_for_def del: map_is_Nil_conv)
  next
    case False
    define spec where "spec = \<lparr>spec_Run = run, spec_DocumentType = ''note_comment_cluster'', spec_SourceType = ''note_comment_cluster'',
           spec_SourceID = Some noteID,
           spec_SourceKey = ''note:'' @ FormatInt noteID @ '':comment-cluster:'' @ pad4 k,
           spec_SourceVersion = RunDatasetVersion run, spec_SourceContentHash = hashParts H (cl_hashInput st),
           spec_Visibility = cl_visibility st, spec_CanonicalText = cl_text st,
           spec_Metadata = JObj [(''cluster_index'', JInt (int k)),
             (''member_count'', JInt (int (length (cl_sources st)))), (''note_id'', JInt noteID),
             (''ranking_method'', JStr ''semantic_metadata_then_length_v1'')],
           spec_SourceCreatedAt = None, spec_SourceUpdatedAt = None,
           spec_Sources = cl_sources st, spec_Segments = cl_segments st\<rparr>"
    have "layout_ok spec" using ok False by (auto simp: layout_ok_def spec_def cluster_ok_def)
    from buildDocument_exact [OF this, of H u] obtain d where d: "buildDocument H u spec = Inr d" "document_exact H d"
      "Sources d = cl_sources st" "doc_Visibility d = cl_visibility st"
      by (auto simp: spec_def)
    have b: "build_cluster H u run noteID k ms = Inr (Some d)"
      using d(1) [unfolded spec_def] False by (simp only: build_cluster_def Let_def st_def [symmetric] if_False sum.case)
    have r: "doc_refs d = map source_ref (filter (\<lambda>s. CanonicalText s \<noteq> []) ms)"
      by (simp add: doc_refs_def d refs)
    show ?thesis
      using b r d(2,4) by (auto simp: docs_for_def doc_from_def st_def cluster_fold_visibility)
  qed
qed

lemma build_clusters_for:
  assumes "\<forall>m\<in>set ss. utf8_Valid (CanonicalText m) \<and> in_int64 (SourceID m)"
  shows "\<exists>ds. build_clusters H u run noteID k ss = Inr ds \<and> docs_for H ds ss"
  using assms
proof (induction "length ss" arbitrary: ss k rule: less_induct)
  case less
  show ?case
  proof (cases "ss = []")
    case False
    let ?a = "take CommentClusterSize ss" and ?b = "drop CommentClusterSize ss"
    obtain d where d: "build_cluster H u run noteID k ?a = Inr d" "docs_for H (case d of None \<Rightarrow> [] | Some x \<Rightarrow> [x]) ?a"
      using build_cluster_for [of ?a H u run noteID k] less.prems by (meson in_set_takeD)
    have "length ?b < length ss" using False by (simp add: CommentClusterSize_def)
    then obtain ds where ds: "build_clusters H u run noteID (Suc k) ?b = Inr ds" "docs_for H ds ?b"
      using less by (meson in_set_dropD)
    have "docs_for H ((case d of None \<Rightarrow> [] | Some x \<Rightarrow> [x]) @ ds) ss"
      using docs_for_append [OF d(2) ds(2)] by simp
    then show ?thesis using d(1) ds(1) False by (subst build_clusters.simps) simp
  qed (simp add: build_clusters.simps)
qed

lemma buildCommentClusters_for:
  assumes "\<forall>m\<in>set ss. utf8_Valid (CanonicalText m) \<and> in_int64 (SourceID m)"
  shows "\<exists>ds. buildCommentClusters H u run noteID ss = Inr ds \<and> docs_for H ds ss"
proof -
  have "mset (comment_order ss) = mset ss" by (simp add: comment_order_def)
  moreover from this have "set (comment_order ss) = set ss" by (rule mset_eq_setD)
  ultimately show ?thesis
    using build_clusters_for [of "comment_order ss" H u run noteID 0] assms docs_for_mset
    by (auto simp: buildCommentClusters_def)
qed

definition source_ok :: "SourceInput \<Rightarrow> bool" where
  "source_ok s =
     (utf8_Valid (CanonicalText s) \<and> in_int64 (SourceID s) \<and>
      (SourceType s = ''note'' \<or> SourceType s = ''note_media'' \<or>
       SourceType s = ''note_comment'' \<and> snd (decode_commentPayload (SourcePayload s)) \<and>
         cp_NoteID (fst (decode_commentPayload (SourcePayload s))) > 0))"

definition is_comment :: "SourceInput \<Rightarrow> bool" where
  "is_comment s = (SourceType s = ''note_comment'')"

definition note_id_of :: "SourceInput \<Rightarrow> int" where
  "note_id_of s = cp_NoteID (fst (decode_commentPayload (SourcePayload s)))"

lemma source_loop_for:
  assumes "\<forall>s\<in>set sources. source_ok s" "docs_for H docs done"
  shows "\<exists>docs'. source_loop H u ts run sources docs comments =
      Inr (docs', comments @ map (\<lambda>s. (note_id_of s, s)) (filter is_comment sources)) \<and>
    docs_for H docs' (done @ filter (\<lambda>s. \<not> is_comment s) sources)"
  using assms
proof (induction sources arbitrary: docs "done" comments)
  case (Cons s sources)
  show ?case
  proof (cases "is_comment s")
    case True
    then show ?thesis
      using Cons.IH [of docs "done" "comments @ [(note_id_of s, s)]"] Cons.prems
      by (auto simp: source_ok_def is_comment_def note_id_of_def split_def)
  next
    case False
    have ok: "source_ok s" using Cons.prems by simp
    obtain d where d: "buildDirectDocument H u ts run s = Inr d"
      "docs_for H (case d of None \<Rightarrow> [] | Some x \<Rightarrow> [x]) [s]"
      using buildDirectDocument_for [of s H u ts run] ok unfolding source_ok_def by blast
    have "docs_for H (docs @ (case d of None \<Rightarrow> [] | Some x \<Rightarrow> [x])) (done @ [s])"
      using docs_for_append [OF Cons.prems(2) d(2)] .
    from Cons.IH [OF _ this, of comments] show ?thesis
      using False ok d(1) Cons.prems(1)
      by (cases d) (auto simp: is_comment_def source_ok_def)
  qed
qed simp

lemma cluster_loop_for:
  assumes "\<forall>p\<in>set comments. utf8_Valid (CanonicalText (snd p)) \<and> in_int64 (SourceID (snd p))"
  shows "\<exists>ds. cluster_loop H u run comments ns = Inr ds \<and>
    docs_for H ds (concat (map (\<lambda>n. map snd (filter (\<lambda>p. fst p = n) comments)) ns))"
proof (induction ns)
  case (Cons n ns)
  obtain ds where ds: "buildCommentClusters H u run n (map snd (filter (\<lambda>p. fst p = n) comments)) = Inr ds"
    "docs_for H ds (map snd (filter (\<lambda>p. fst p = n) comments))"
    using buildCommentClusters_for [of "map snd (filter (\<lambda>p. fst p = n) comments)" H u run n] assms by auto
  with Cons show ?case by (auto intro: docs_for_append)
qed simp

lemma mset_by_key:
  "distinct ns \<Longrightarrow> mset (concat (map (\<lambda>n. filter (\<lambda>p. f p = n) xs) ns)) = mset (filter (\<lambda>p. f p \<in> set ns) xs)"
proof (induction ns)
  case (Cons n ns)
  have "mset (filter (\<lambda>p. f p = n) xs) + mset (filter (\<lambda>p. f p \<in> set ns) xs) = mset (filter (\<lambda>p. f p \<in> set (n # ns)) xs)"
    using Cons.prems by (induction xs) auto
  with Cons show ?case by simp
qed simp

lemma mset_groups:
  "mset (concat (map (\<lambda>n. map snd (filter (\<lambda>p. fst p = n) comments)) (sort (remdups (map fst comments))))) =
   mset (map snd comments)"
proof -
  let ?ns = "sort (remdups (map fst comments))"
  have "mset (concat (map (\<lambda>n. map snd (filter (\<lambda>p. fst p = n) comments)) ?ns)) =
      image_mset snd (mset (concat (map (\<lambda>n. filter (\<lambda>p. fst p = n) comments) ?ns)))"
    by (simp add: map_concat comp_def flip: mset_map)
  also have "\<dots> = image_mset snd (mset (filter (\<lambda>p. fst p \<in> set ?ns) comments))"
    by (subst mset_by_key) auto
  also have "filter (\<lambda>p. fst p \<in> set ?ns) comments = comments" by (rule filter_True) auto
  finally show ?thesis by simp
qed

lemma BuildSourceDocuments_for:
  assumes "\<forall>s\<in>set sources. source_ok s"
  shows "\<exists>ds. BuildSourceDocuments H u ts run sources = Inr ds \<and> docs_for H ds sources"
proof -
  define comments where "comments = map (\<lambda>s. (note_id_of s, s)) (filter is_comment sources)"
  obtain docs where docs: "source_loop H u ts run sources [] [] = Inr (docs, comments)"
    "docs_for H docs (filter (\<lambda>s. \<not> is_comment s) sources)"
    using source_loop_for [OF assms, of H "[]" "[]" u ts run "[]"] by (auto simp: comments_def)
  have snd_comments: "map snd comments = filter is_comment sources" by (simp add: comments_def comp_def)
  obtain cs where cs: "cluster_loop H u run comments (sort (remdups (map fst comments))) = Inr cs"
    "docs_for H cs (concat (map (\<lambda>n. map snd (filter (\<lambda>p. fst p = n) comments)) (sort (remdups (map fst comments)))))"
    using cluster_loop_for [of comments H u run "sort (remdups (map fst comments))"] assms
    by (auto simp: comments_def source_ok_def)
  have "docs_for H cs (filter is_comment sources)"
    using docs_for_mset [OF cs(2)] mset_groups [of comments] snd_comments by simp
  then have "docs_for H (docs @ cs) (filter (\<lambda>s. \<not> is_comment s) sources @ filter is_comment sources)"
    using docs(2) docs_for_append by blast
  moreover have "mset (filter (\<lambda>s. \<not> is_comment s) sources @ filter is_comment sources) = mset sources"
    by (simp add: add.commute flip: multiset_partition)
  ultimately have "docs_for H (docs @ cs) sources" by (rule docs_for_mset)
  then show ?thesis using docs(1) cs(1) by (simp add: BuildSourceDocuments_def)
qed

section \<open>Fact documents\<close>

lemma pad_int_ascii: "c \<in> set (pad_int w i) \<Longrightarrow> 45 \<le> byte c \<and> byte c \<le> 57"
  using FormatInt_chars by (auto simp: pad_int_def Let_def byte_def)

lemma format_date_ascii: "c \<in> set (format_date t) \<Longrightarrow> 45 \<le> byte c \<and> byte c \<le> 57"
  using pad_int_ascii by (auto simp: format_date_def Let_def byte_def split: prod.splits)

lemma ascii_text_ok:
  assumes "\<And>c. c \<in> set s \<Longrightarrow> 45 \<le> byte c \<and> byte c \<le> 57"
  shows "utf8_Valid s" "no_CR s"
  using assms by (auto simp: no_CR_def intro!: utf8_Valid_all_ascii) (fastforce dest: assms)+

lemmas zh_labels = zh_note_fact_def zh_note_id_def zh_views_def zh_likes_def zh_collects_def zh_comments_def
  zh_shares_def zh_unique_def zh_events_def zh_user_fact_def zh_user_id_def zh_interactions_def zh_posts_def zh_active_def

lemma zh_labels_utf8:
  "utf8_Valid zh_note_fact" "utf8_Valid zh_note_id" "utf8_Valid zh_views" "utf8_Valid zh_likes" "utf8_Valid zh_collects"
  "utf8_Valid zh_comments" "utf8_Valid zh_shares" "utf8_Valid zh_unique" "utf8_Valid zh_events" "utf8_Valid zh_user_fact"
  "utf8_Valid zh_user_id" "utf8_Valid zh_interactions" "utf8_Valid zh_posts" "utf8_Valid zh_active"
  by (simp_all add: zh_labels chunker_eval)

lemma zh_labels_no_CR:
  "no_CR zh_note_fact" "no_CR zh_note_id" "no_CR zh_views" "no_CR zh_likes" "no_CR zh_collects"
  "no_CR zh_comments" "no_CR zh_shares" "no_CR zh_unique" "no_CR zh_events" "no_CR zh_user_fact"
  "no_CR zh_user_id" "no_CR zh_interactions" "no_CR zh_posts" "no_CR zh_active"
  by (simp_all add: zh_labels byte_def)

lemma canonicalFactText_ok:
  assumes "canonicalFactText f p = Inr s"
  shows "utf8_Valid s" "no_CR s" "s \<noteq> []"
  using assms ascii_text_ok [OF FormatInt_chars] ascii_text_ok [OF format_date_ascii]
  by (auto simp: canonicalFactText_def Let_def zh_labels_utf8 zh_labels_no_CR zh_note_fact_def [symmetric]
      intro!: utf8_Valid_append split: if_splits) (simp_all add: zh_note_fact_def zh_user_fact_def)

definition fact_ok :: "FactInput \<Rightarrow> bool" where
  "fact_ok f = ((FactType f = ''note_daily_fact'' \<or> FactType f = ''user_daily_fact'') \<and> decode_factPayload (FactPayload f) \<noteq> None)"

lemma build_fact_exact:
  assumes "fact_ok f"
  shows "\<exists>d s. build_fact H u run f = Inr d \<and> document_exact H d \<and> doc_Visibility d = ''project'' \<and>
    map ds_DailyFactPayloadID (Sources d) = [Some (DailyFactPayloadID f)]"
proof -
  obtain p where p: "decode_factPayload (FactPayload f) = Some p" using assms by (auto simp: fact_ok_def)
  obtain s where s: "canonicalFactText f p = Inr s" using assms by (auto simp: fact_ok_def canonicalFactText_def Let_def)
  note ok = canonicalFactText_ok [OF s]
  define src where "src = \<lparr>ds_EvidenceSourceID = None, ds_DailyFactPayloadID = Some (DailyFactPayloadID f),
                   ds_SourceType = FactType f, ds_SourceID = SubjectID f,
                   ds_SourceVersion = FactSourceVersion f, ds_ContentHash = FactContentHash f,
                   ds_SourceOrder = 0, ds_CanonicalText = s\<rparr>"
  define spec where "spec = \<lparr>spec_Run = run, spec_DocumentType = FactType f, spec_SourceType = FactType f,
                spec_SourceID = Some (SubjectID f),
                spec_SourceKey = FactType f @ '':'' @ FormatInt (SubjectID f) @ '':'' @ format_date (FactDate f),
                spec_SourceVersion = FactSourceVersion f, spec_SourceContentHash = FactContentHash f,
                spec_Visibility = ''project'', spec_CanonicalText = s,
                spec_Metadata = JObj [(''fact_date'', JStr (format_date (FactDate f))), (''payload_id'', JInt (DailyFactPayloadID f)),
                  (''source_run_id'', JStr (fp_SourceRunID p))],
                spec_SourceCreatedAt = Some (CapturedAt f), spec_SourceUpdatedAt = Some (CapturedAt f),
                spec_Sources = [src], spec_Segments = [whole_segment src s]\<rparr>"
  have "layout_ok spec"
    using ok whole_segment_exact [OF ok(1), of src]
    by (simp add: layout_ok_def spec_def src_def) (simp add: whole_segment_def)
  from buildDocument_exact [OF this, of H u] obtain d where d: "buildDocument H u spec = Inr d" "document_exact H d"
    "Sources d = [src]" "doc_Visibility d = ''project''"
    by (auto simp: spec_def)
  have "build_fact H u run f = Inr d"
    using p s d(1) [unfolded spec_def]
    by (simp only: build_fact_def Let_def option.case sum.case src_def [symmetric])
  then show ?thesis using d by (simp add: src_def)
qed

lemma BuildFactDocuments_for:
  "\<forall>f\<in>set fs. fact_ok f \<Longrightarrow> \<exists>ds. BuildFactDocuments H u run fs = Inr ds \<and>
    list_all2 (\<lambda>f d. document_exact H d \<and> doc_Visibility d = ''project'' \<and>
      map ds_DailyFactPayloadID (Sources d) = [Some (DailyFactPayloadID f)]) fs ds"
proof (induction fs)
  case (Cons f fs)
  then obtain ds where "BuildFactDocuments H u run fs = Inr ds"
    "list_all2 (\<lambda>f d. document_exact H d \<and> doc_Visibility d = ''project'' \<and>
      map ds_DailyFactPayloadID (Sources d) = [Some (DailyFactPayloadID f)]) fs ds" by auto
  moreover obtain d where "build_fact H u run f = Inr d" "document_exact H d" "doc_Visibility d = ''project''"
    "map ds_DailyFactPayloadID (Sources d) = [Some (DailyFactPayloadID f)]"
    using build_fact_exact [of f H u run] Cons.prems by auto
  ultimately show ?case by simp
qed simp

section \<open>The builder's contract\<close>

lemma document_exact_cites:
  assumes "docs_for H ds sources" "d \<in> set ds" "chunk \<in> set (Chunks d)"
  shows "Citations chunk \<noteq> [] \<and> (\<forall>c\<in>set (Citations chunk). \<exists>s\<in>set sources.
    cit_EvidenceSourceID c = Some (EvidenceSourceID s) \<and>
    slice (NormalizeLineEndings (CanonicalText s)) (SourceStartByte c) (SourceEndByte c) =
      slice (doc_CanonicalText d) (DocumentStartByte c) (DocumentEndByte c) \<and>
    QuoteHash c = hashParts H [slice (NormalizeLineEndings (CanonicalText s)) (SourceStartByte c) (SourceEndByte c)] \<and>
    DocumentStartByte c < DocumentEndByte c \<and>
    (Visibility s = ''project'' \<longrightarrow> doc_Visibility d = ''project''))"
proof -
  have df: "doc_from H sources d" using assms by (simp add: docs_for_def)
  then have ce: "chunk_exact H (doc_CanonicalText d) (Sources d) chunk"
    using assms(3) by (simp add: doc_from_def document_exact_def)
  have "\<exists>s\<in>set sources. (ds_EvidenceSourceID x, ds_CanonicalText x) = source_ref s \<and>
      (Visibility s = ''project'' \<longrightarrow> doc_Visibility d = ''project'')" if "x \<in> set (Sources d)" for x
    using df that by (auto simp: doc_from_def doc_refs_def)
  then show ?thesis
    using ce by (fastforce simp: chunk_exact_def citation_exact_def citation_of_def source_ref_def)
qed

text \<open>
  C20. for valid UTF-8 sources of the supported types with well-formed comment payloads, building
  never fails; every chunk of every document carries a citation, and every citation quotes the
  (line-ending normalised) text of a source of the snapshot byte by byte, with the hash of that
  very quote. A document that quotes a project source has project visibility.
\<close>

theorem BuildSourceDocuments_exact:
  assumes "\<forall>s\<in>set sources. source_ok s"
  shows "\<exists>ds. BuildSourceDocuments H u ts run sources = Inr ds \<and>
    (\<forall>d\<in>set ds. \<forall>chunk\<in>set (Chunks d). Citations chunk \<noteq> [] \<and>
      (\<forall>c\<in>set (Citations chunk). \<exists>s\<in>set sources.
        cit_EvidenceSourceID c = Some (EvidenceSourceID s) \<and>
        slice (NormalizeLineEndings (CanonicalText s)) (SourceStartByte c) (SourceEndByte c) =
          slice (doc_CanonicalText d) (DocumentStartByte c) (DocumentEndByte c) \<and>
        QuoteHash c = hashParts H [slice (NormalizeLineEndings (CanonicalText s)) (SourceStartByte c) (SourceEndByte c)] \<and>
        DocumentStartByte c < DocumentEndByte c \<and>
        (Visibility s = ''project'' \<longrightarrow> doc_Visibility d = ''project'')))"
proof -
  obtain ds where "BuildSourceDocuments H u ts run sources = Inr ds" "docs_for H ds sources"
    using BuildSourceDocuments_for [OF assms, of H u ts run] by blast
  with document_exact_cites show ?thesis by blast
qed

text \<open>
  C21. nothing is lost and nothing is duplicated: the sources listed by the documents, with their
  normalised texts, are exactly the non-empty sources of the snapshot (as multisets), and the
  chunks of each document chain up to its whole canonical text.
\<close>

theorem BuildSourceDocuments_complete:
  assumes "\<forall>s\<in>set sources. source_ok s"
  shows "\<exists>ds. BuildSourceDocuments H u ts run sources = Inr ds \<and>
    mset (concat (map (\<lambda>d. map (\<lambda>x. (ds_EvidenceSourceID x, ds_CanonicalText x)) (Sources d)) ds)) =
      mset (map (\<lambda>s. (Some (EvidenceSourceID s), NormalizeLineEndings (CanonicalText s)))
        (filter (\<lambda>s. CanonicalText s \<noteq> []) sources)) \<and>
    (\<forall>d\<in>set ds. reassemble 0 (map chunk_range (Chunks d)) = doc_CanonicalText d)"
proof -
  obtain ds where b: "BuildSourceDocuments H u ts run sources = Inr ds" and d: "docs_for H ds sources"
    using BuildSourceDocuments_for [OF assms, of H u ts run] by blast
  have "reassemble 0 (map chunk_range (Chunks x)) = doc_CanonicalText x" if "x \<in> set ds" for x
  proof -
    have "chunk_chain (doc_CanonicalText x) (nat MaxChunkBytes) (nat ChunkOverlap) 0 (map chunk_range (Chunks x))"
      using d that by (simp add: docs_for_def doc_from_def document_exact_def)
    then show ?thesis
      by (subst reassemble_chain) (auto simp: MaxChunkBytes_def ChunkOverlap_def min_reach_def)
  qed
  moreover have "doc_refs = (\<lambda>d. map (\<lambda>x. (ds_EvidenceSourceID x, ds_CanonicalText x)) (Sources d))"
    "source_ref = (\<lambda>s. (Some (EvidenceSourceID s), NormalizeLineEndings (CanonicalText s)))"
    by (simp_all add: fun_eq_iff doc_refs_def source_ref_def)
  ultimately show ?thesis using b d by (simp add: docs_for_def)
qed

text \<open>
  C22. daily facts of the two known types whose payloads decode give one document each, in order,
  always with project visibility, and all its citations are exact.
\<close>

theorem BuildFactDocuments_exact:
  assumes "\<forall>f\<in>set facts. fact_ok f"
  shows "\<exists>ds. BuildFactDocuments H u run facts = Inr ds \<and>
    list_all2 (\<lambda>f d. document_exact H d \<and> doc_Visibility d = ''project'' \<and>
      map ds_DailyFactPayloadID (Sources d) = [Some (DailyFactPayloadID f)]) facts ds"
  using BuildFactDocuments_for [OF assms] .

text \<open>A small snapshot the theorems are applied to: a note, a comment on it and a fact.\<close>

definition sample_unicode :: unicode where
  "sample_unicode = \<lparr>is_Han = (\<lambda>r. 19968 \<le> r \<and> r \<le> 40959), is_Letter = (\<lambda>r. 97 \<le> r \<and> r \<le> 122),
     is_Digit = (\<lambda>r. 48 \<le> r \<and> r \<le> 57), to_lower = id\<rparr>"

definition sample_run :: evidence_run where
  "sample_run = \<lparr>RunID = ''r'', RunDatasetVersionID = 3, RunDatasetID = 2, RunProjectID = 1, RunDatasetVersion = 1\<rparr>"

definition sample_note :: SourceInput where
  "sample_note = \<lparr>EvidenceSourceID = 1, SourceType = ''note'', SourceID = 7, SourceVersion = 1, SourceContentHash = ''h1'',
     Visibility = ''public'', CanonicalText = ''title'' @ [CHR 0x0D, CHR 0x0A] @ ''body'', SourcePayload = JObj []\<rparr>"

definition sample_comment :: SourceInput where
  "sample_comment = \<lparr>EvidenceSourceID = 2, SourceType = ''note_comment'', SourceID = 9, SourceVersion = 1, SourceContentHash = ''h2'',
     Visibility = ''project'', CanonicalText = ''nice'', SourcePayload = JObj [(''note_id'', JInt 7)]\<rparr>"

definition sample_fact :: FactInput where
  "sample_fact = \<lparr>DailyFactPayloadID = 4, FactType = ''note_daily_fact'', SubjectID = 7, FactDate = 0, FactSourceVersion = 1,
     FactContentHash = ''h3'', FactPayload = JObj [(''view_count'', JInt 12)], CapturedAt = 5\<rparr>"

lemma fold_name_note_id: "member_of ''note_id'' (''note_id'', v)"
  by (simp add: member_of_def)

lemma sample_note_ok: "source_ok sample_note"
  by (simp add: source_ok_def sample_note_def in_int64_def chunker_eval)

lemma sample_comment_ok: "source_ok sample_comment"
  by (simp add: source_ok_def sample_comment_def in_int64_def chunker_eval decode_commentPayload_def int64_field_ok_def
      string_field_ok_def member_of_def int64_field_def int64_member_ok_def ascii_lower_def)

lemma sample_fact_ok: "fact_ok sample_fact"
  by (simp add: fact_ok_def sample_fact_def decode_factPayload_def int64_field_ok_def string_field_ok_def member_of_def
      int64_member_ok_def ascii_lower_def in_int64_def byte_def)

theorem BuildSourceDocuments_exact_witness:
  "source_ok sample_note \<and> source_ok sample_comment \<and>
   (\<exists>ds. BuildSourceDocuments id sample_unicode (\<lambda>_. (None, None)) sample_run [sample_note, sample_comment] = Inr ds \<and>
     (\<forall>d\<in>set ds. \<forall>chunk\<in>set (Chunks d). Citations chunk \<noteq> []))"
  using BuildSourceDocuments_exact [of "[sample_note, sample_comment]" id sample_unicode "\<lambda>_. (None, None)" sample_run]
    sample_note_ok sample_comment_ok by auto

theorem BuildSourceDocuments_complete_witness:
  "\<exists>ds. BuildSourceDocuments id sample_unicode (\<lambda>_. (None, None)) sample_run [sample_note, sample_comment] = Inr ds \<and>
     mset (concat (map (\<lambda>d. map ds_EvidenceSourceID (Sources d)) ds)) = {#Some 1, Some 2#}"
proof -
  have eq: "mset (concat (map (\<lambda>d. map ds_EvidenceSourceID (Sources d)) ds)) =
     image_mset fst (mset (concat (map (\<lambda>d. map (\<lambda>x. (ds_EvidenceSourceID x, ds_CanonicalText x)) (Sources d)) ds)))" for ds
    by (simp add: map_concat comp_def flip: mset_map)
  show ?thesis
    using BuildSourceDocuments_complete [of "[sample_note, sample_comment]" id sample_unicode "\<lambda>_. (None, None)" sample_run]
      sample_note_ok sample_comment_ok
    unfolding eq by (auto simp: sample_note_def sample_comment_def)
qed

theorem BuildFactDocuments_exact_witness:
  "\<exists>d. BuildFactDocuments id sample_unicode sample_run [sample_fact] = Inr [d] \<and> doc_Visibility d = ''project''"
  using BuildFactDocuments_exact [of "[sample_fact]" id sample_unicode sample_run] sample_fact_ok
  by (auto simp: list_all2_Cons1)

end
