(* ===== verification/Ingest.thy ===== *)
theory Ingest
  imports Retrieval_Scope Evidence
begin

text \<open>
  The ingestion job (\<open>evidence/service.go\<close>, \<open>evidence/repository.go\<close>): a run freezes its inputs, builds the documents of a frozen dataset version,
  stores them document by document, completes and is audited. Parameters (\<open>ingest_lib\<close>): SHA-256 in hexadecimal form, the Unicode classes, the decoding of
  the timestamps of a payload, and the collation of the database.

  The goroutines that store documents each commit a transaction of their own, so a run of them is a sequence of transactions: \<open>ie_schedule\<close> gives each its turn, and
  \<open>ie_inflight\<close> is the number of transactions that still finish after the first one has failed. \<open>ie_audit\<close> gives the turn of each query in the visit of the map of audit queries.
  The progress callback reads nothing and is left out.
  The metadata of a document is a JSON tree, for which \<open>normalizedJSON\<close> is the identity.
\<close>

section \<open>Models\<close>

record ingest_lib =
  ig_H :: "string \<Rightarrow> string"
  ig_u :: unicode
  ig_ts :: "json \<Rightarrow> int option \<times> int option"
  ig_coll :: "string \<Rightarrow> int"

record ingest_env =
  ie_schedule :: "DocumentInput \<Rightarrow> nat"
  ie_inflight :: nat
  ie_audit :: "string \<Rightarrow> nat"

definition ReuseBatchSize :: nat where "ReuseBatchSize = 500"

definition ErrDatasetVersionNotFound :: go_error where "ErrDatasetVersionNotFound = ErrorString ''dataset version not found''"
definition ErrDatasetVersionNotFrozen :: go_error where "ErrDatasetVersionNotFrozen = ErrorString ''dataset version is not frozen''"
definition ErrRunConflict :: go_error where "ErrRunConflict = ErrorString ''ingestion run parameters conflict''"

record IngestRequest =
  rq_RunID :: string
  rq_DatasetVersionID :: int
  rq_Mode :: string

record IngestRun =
  in_RunID :: string
  in_DatasetVersionID :: int
  in_DatasetID :: int
  in_ProjectID :: int
  in_DatasetVersion :: int
  in_Mode :: string
  in_ParserVersion :: string
  in_ChunkerVersion :: string
  in_TokenizerVersion :: string
  in_Status :: string
  in_DatasetManifestChecksum :: string
  in_InputChecksum :: string
  in_OutputChecksum :: string
  in_SourceCount :: int
  in_FactSourceCount :: int
  in_DocumentCount :: int
  in_ChunkCount :: int
  in_CitationCount :: int
  in_ReusedDocumentCount :: int
  in_StartedAt :: int
  in_CompletedAt :: "int option"
  in_Resumed :: bool

record SaveResult =
  sv_DocumentID :: int
  sv_Reused :: bool
  sv_ChunkCount :: int
  sv_CitationCount :: int

record ReconcileResult =
  rr_StaleDocuments :: int
  rr_SupersededDocuments :: int
  rr_DeletedDocuments :: int

record AuditReport =
  ar_RunID :: string
  ar_Violations :: "(string \<times> int) list"
  ar_Healthy :: bool

text \<open>The fields of a run the builder reads.\<close>

definition builder_run :: "IngestRun \<Rightarrow> evidence_run" where
  "builder_run r = \<lparr>RunID = in_RunID r, RunDatasetVersionID = in_DatasetVersionID r, RunDatasetID = in_DatasetID r, RunProjectID = in_ProjectID r,
     RunDatasetVersion = in_DatasetVersion r\<rparr>"

section \<open>Statements on the evidence tables\<close>

definition ev_select :: "(evidence_tables \<Rightarrow> 'a) \<Rightarrow> 'a rm" where
  "ev_select f = selectE (\<lambda>t. f (evid t))"

definition ev_row :: "(evidence_tables \<Rightarrow> 'a option) \<Rightarrow> 'a rm" where
  "ev_row f = query_row (\<lambda>t. f (evid t))"

definition ev_exec :: "(int \<Rightarrow> evidence_tables \<Rightarrow> go_error + 'a \<times> evidence_tables) \<Rightarrow> 'a rm" where
  "ev_exec f = execE (\<lambda>now t. case f now (evid t) of Inl e \<Rightarrow> Inl e | Inr (x, e) \<Rightarrow> Inr (x, t\<lparr>evid := e\<rparr>))"

definition ev_serial :: "string \<Rightarrow> (int \<Rightarrow> evidence_tables \<Rightarrow> go_error + 'a \<times> evidence_tables) \<Rightarrow> 'a rm" where
  "ev_serial sq f = insert_serial sq (\<lambda>i now t. case f i (evid t) of Inl e \<Rightarrow> Inl e | Inr (x, e) \<Rightarrow> Inr (x, t\<lparr>evid := e\<rparr>))"

definition check_violation :: go_error where "check_violation = PgError ''23514'' ''check violation''"

text \<open>What the guard triggers raise.\<close>

definition run_immutable :: go_error where "run_immutable = PgError ''P0001'' ''completed ingestion run is immutable''"

definition run_by_id :: "evidence_tables \<Rightarrow> string \<Rightarrow> ingestion_run_row option" where
  "run_by_id t runID = find (\<lambda>r. ir_run_id r = runID) (ingestion_runs t)"

definition run_completed :: "evidence_tables \<Rightarrow> string \<Rightarrow> bool" where
  "run_completed t runID = (case run_by_id t runID of None \<Rightarrow> False | Some r \<Rightarrow> ir_status r = ''completed'')"

text \<open>\<open>UPDATE ingestion_runs\<close> behind its guard: a completed run refuses every update.\<close>

definition update_runs :: "(ingestion_run_row \<Rightarrow> bool) \<Rightarrow> (ingestion_run_row \<Rightarrow> ingestion_run_row) \<Rightarrow> evidence_tables \<Rightarrow> go_error + evidence_tables" where
  "update_runs P f t =
     (if exists_row (\<lambda>r. P r \<and> ir_status r = ''completed'') (ingestion_runs t) then Inl run_immutable
      else Inr (t\<lparr>ingestion_runs := map (\<lambda>r. if P r then f r else r) (ingestion_runs t)\<rparr>))"

text \<open>\<open>INSERT INTO ingestion_run_documents ... ON CONFLICT DO NOTHING\<close> for documents that exist.\<close>

definition link_documents :: "string \<Rightarrow> int list \<Rightarrow> string \<Rightarrow> evidence_tables \<Rightarrow> go_error + unit \<times> evidence_tables" where
  "link_documents runID ids disposition t =
     (if ids = [] then Inr ((), t)
      else if run_completed t runID then Inl run_immutable
      else if run_by_id t runID = None then Inl fk_violation
      else Inr ((), t\<lparr>ingestion_run_documents := ingestion_run_documents t @
        map (\<lambda>i. \<lparr>rd_run_id = runID, rd_document_id = i, rd_disposition = disposition\<rparr>) (filter (\<lambda>i. \<not> doc_in_run t runID i) (remdups ids))\<rparr>))"

section \<open>Runs\<close>

definition run_of_row :: "ingestion_run_row \<Rightarrow> int \<Rightarrow> IngestRun" where
  "run_of_row r version =
     \<lparr>in_RunID = ir_run_id r, in_DatasetVersionID = ir_dataset_version_id r, in_DatasetID = ir_dataset_id r, in_ProjectID = ir_project_id r,
      in_DatasetVersion = version, in_Mode = ir_mode r, in_ParserVersion = ir_parser_version r, in_ChunkerVersion = ir_chunker_version r,
      in_TokenizerVersion = ir_tokenizer_version r, in_Status = ir_status r, in_DatasetManifestChecksum = ir_dataset_manifest_checksum r,
      in_InputChecksum = coalesce (ir_input_checksum r), in_OutputChecksum = coalesce (ir_output_checksum r), in_SourceCount = ir_source_count r,
      in_FactSourceCount = ir_fact_source_count r, in_DocumentCount = ir_document_count r, in_ChunkCount = ir_chunk_count r,
      in_CitationCount = ir_citation_count r, in_ReusedDocumentCount = ir_reused_document_count r, in_StartedAt = ir_started_at r,
      in_CompletedAt = ir_completed_at r, in_Resumed = False\<rparr>"

definition version_of :: "evidence_tables \<Rightarrow> int \<Rightarrow> dataset_version_row option" where
  "version_of t i = find (\<lambda>d. dv_id d = i) (dataset_versions t)"

text \<open>\<open>getRun\<close>: \<open>None\<close> is \<open>found = false\<close>.\<close>

definition getRun :: "string \<Rightarrow> IngestRun option rm" where
  "getRun runID = mapErr (WrapError ''query ingestion run'') (ev_select (\<lambda>t.
     case run_by_id t runID of
       None \<Rightarrow> None
     | Some r \<Rightarrow> (case version_of t (ir_dataset_version_id r) of None \<Rightarrow> None | Some d \<Rightarrow> Some (run_of_row r (dv_version d)))))"

definition same_parameters :: "IngestRun \<Rightarrow> IngestRequest \<Rightarrow> bool" where
  "same_parameters run request =
     (in_DatasetVersionID run = rq_DatasetVersionID request \<and> in_Mode run = rq_Mode request \<and> in_ParserVersion run = ParserVersion \<and>
      in_ChunkerVersion run = ChunkerVersion \<and> in_TokenizerVersion run = TokenizerVersion)"

definition ingestion_row :: "IngestRun \<Rightarrow> int \<Rightarrow> ingestion_run_row" where
  "ingestion_row run now =
     \<lparr>ir_run_id = in_RunID run, ir_project_id = in_ProjectID run, ir_dataset_id = in_DatasetID run, ir_dataset_version_id = in_DatasetVersionID run,
      ir_mode = in_Mode run, ir_parser_version = in_ParserVersion run, ir_chunker_version = in_ChunkerVersion run,
      ir_tokenizer_version = in_TokenizerVersion run, ir_status = ''running'', ir_dataset_manifest_checksum = in_DatasetManifestChecksum run,
      ir_input_checksum = None, ir_output_checksum = None, ir_source_count = in_SourceCount run, ir_fact_source_count = 0, ir_document_count = 0,
      ir_chunk_count = 0, ir_citation_count = 0, ir_reused_document_count = 0, ir_error_message = None, ir_started_at = now, ir_completed_at = None\<rparr>"

definition insert_run_row :: "IngestRun \<Rightarrow> int \<Rightarrow> evidence_tables \<Rightarrow> go_error + int \<times> evidence_tables" where
  "insert_run_row run now t =
     (if run_by_id t (in_RunID run) \<noteq> None then Inl unique_violation
      else Inr (now, t\<lparr>ingestion_runs := ingestion_runs t @ [ingestion_row run now]\<rparr>))"

text \<open>
  \<open>SELECT DISTINCT ON (fact_type, subject_id, fact_date) ... ORDER BY ..., source_version DESC, id DESC\<close>: of the rows of a fact, the one with the
  greatest version, and among those with the greatest key.
\<close>

definition fact_key :: "daily_fact_payload_row \<Rightarrow> string \<times> int \<times> int" where
  "fact_key p = (fp_fact_type p, fp_subject_id p, fp_fact_date p)"

definition latest_facts :: "(daily_fact_payload_row \<Rightarrow> bool) \<Rightarrow> evidence_tables \<Rightarrow> daily_fact_payload_row list" where
  "latest_facts P t =
     filter (\<lambda>p. P p \<and> \<not> exists_row (\<lambda>q. P q \<and> fact_key q = fact_key p \<and> (fp_source_version q, fp_id q) > (fp_source_version p, fp_id p)) (daily_fact_payloads t))
       (daily_fact_payloads t)"

definition fact_input_row :: "string \<Rightarrow> daily_fact_payload_row \<Rightarrow> run_fact_input_row" where
  "fact_input_row runID p =
     \<lparr>fi_run_id = runID, fi_daily_fact_payload_id = fp_id p, fi_fact_type = fp_fact_type p, fi_subject_id = fp_subject_id p,
      fi_fact_date = fp_fact_date p, fi_source_version = fp_source_version p, fi_content_hash = fp_payload_hash p\<rparr>"

definition snapshot_facts :: "string \<Rightarrow> (evidence_tables \<Rightarrow> daily_fact_payload_row \<Rightarrow> bool) \<Rightarrow> evidence_tables \<Rightarrow> go_error + unit \<times> evidence_tables" where
  "snapshot_facts runID P t =
     (if run_completed t runID \<and> latest_facts (P t) t \<noteq> [] then Inl run_immutable
      else Inr ((), t\<lparr>ingestion_run_fact_inputs := ingestion_run_fact_inputs t @ map (fact_input_row runID) (latest_facts (P t) t)\<rparr>))"

definition note_fact_of :: "int \<Rightarrow> int \<Rightarrow> evidence_tables \<Rightarrow> daily_fact_payload_row \<Rightarrow> bool" where
  "note_fact_of datasetVersionID projectID t p =
     (fp_project_id p = projectID \<and> fp_fact_type p = ''note_daily_fact'' \<and>
      exists_row (\<lambda>s. dvs_dataset_version_id s = datasetVersionID \<and> dvs_source_type s = ''note'' \<and> dvs_source_id s = fp_subject_id p)
        (dataset_version_sources t))"

definition user_fact_of :: "int \<Rightarrow> evidence_tables \<Rightarrow> daily_fact_payload_row \<Rightarrow> bool" where
  "user_fact_of projectID t p = (fp_project_id p = projectID \<and> fp_fact_type p = ''user_daily_fact'')"

definition input_header :: "IngestRun \<Rightarrow> string" where
  "input_header run = ''evidence_ingestion_input_v1'' @ [CHR 0x0A] @ FormatInt (in_DatasetVersionID run) @ [CHR 0x0A] @
     in_DatasetManifestChecksum run @ [CHR 0x0A] @ ParserVersion @ [CHR 0x0A] @ ChunkerVersion @ [CHR 0x0A] @ TokenizerVersion @ [CHR 0x0A]"

definition fact_input_line :: "run_fact_input_row \<Rightarrow> string" where
  "fact_input_line r = join_with [CHR 0x1F] [fi_fact_type r, FormatInt (fi_subject_id r), format_date (fi_fact_date r),
     FormatInt (fi_source_version r), fi_content_hash r] @ [CHR 0x0A]"

definition fact_inputs_of :: "(string \<Rightarrow> int) \<Rightarrow> evidence_tables \<Rightarrow> string \<Rightarrow> run_fact_input_row list" where
  "fact_inputs_of coll t runID =
     sort_key (\<lambda>r. (coll (fi_fact_type r), fi_subject_id r, fi_fact_date r, fi_source_version r, fi_daily_fact_payload_id r))
       (filter (\<lambda>r. fi_run_id r = runID) (ingestion_run_fact_inputs t))"

definition factInputChecksum :: "ingest_lib \<Rightarrow> IngestRun \<Rightarrow> (string \<times> int) rm" where
  "factInputChecksum lib run =
     mapErr (WrapError ''query fact input manifest'') (ev_select (\<lambda>t.
       let rows = fact_inputs_of (ig_coll lib) t (in_RunID run) in
       (ig_H lib (input_header run @ concat (map fact_input_line rows)), int (length rows))))"

definition run_of_version :: "dataset_version_row \<Rightarrow> IngestRequest \<Rightarrow> IngestRun" where
  "run_of_version d request =
     \<lparr>in_RunID = rq_RunID request, in_DatasetVersionID = dv_id d, in_DatasetID = dv_dataset_id d, in_ProjectID = dv_project_id d,
      in_DatasetVersion = dv_version d, in_Mode = rq_Mode request, in_ParserVersion = ParserVersion, in_ChunkerVersion = ChunkerVersion,
      in_TokenizerVersion = TokenizerVersion, in_Status = ''running'', in_DatasetManifestChecksum = dv_manifest_checksum d,
      in_InputChecksum = [], in_OutputChecksum = [], in_SourceCount = dv_source_count d, in_FactSourceCount = 0, in_DocumentCount = 0,
      in_ChunkCount = 0, in_CitationCount = 0, in_ReusedDocumentCount = 0, in_StartedAt = 0, in_CompletedAt = None, in_Resumed = False\<rparr>"

definition resume_run :: "IngestRun \<Rightarrow> IngestRun tx_result rm" where
  "resume_run existing =
     (if in_Status existing = ''failed''
      then bindE (mapErr (WrapError ''resume ingestion run'') (ev_exec (\<lambda>now t.
             map_sum id (Pair ()) (update_runs (\<lambda>r. ir_run_id r = in_RunID existing)
               (\<lambda>r. r\<lparr>ir_status := ''running'', ir_error_message := None, ir_completed_at := None\<rparr>) t)))) (\<lambda>_.
           returnE (Commit (existing\<lparr>in_Status := ''running'', in_Resumed := True\<rparr>)))
      else returnE (Commit (existing\<lparr>in_Resumed := True\<rparr>)))"

definition create_run :: "ingest_lib \<Rightarrow> IngestRequest \<Rightarrow> IngestRun tx_result rm" where
  "create_run lib request =
     bindE (mapErr (\<lambda>e. if errors_is e SqlErrNoRows then ErrDatasetVersionNotFound else WrapError ''load dataset version'' e)
       (ev_row (\<lambda>t. version_of t (rq_DatasetVersionID request)))) (\<lambda>d.
     bindE (guardE (dv_status d \<noteq> ''frozen'') ErrDatasetVersionNotFrozen) (\<lambda>_.
     let run = run_of_version d request in
     bindE (mapErr (WrapError ''create ingestion run'') (ev_exec (insert_run_row run))) (\<lambda>startedAt.
     bindE (mapErr (WrapError ''snapshot note daily facts'')
       (ev_exec (\<lambda>_. snapshot_facts (in_RunID run) (note_fact_of (in_DatasetVersionID run) (in_ProjectID run))))) (\<lambda>_.
     bindE (mapErr (WrapError ''snapshot user daily facts'') (ev_exec (\<lambda>_. snapshot_facts (in_RunID run) (user_fact_of (in_ProjectID run))))) (\<lambda>_.
     bindE (factInputChecksum lib run) (\<lambda>(checksum, factCount).
     bindE (mapErr (WrapError ''seal ingestion input'') (ev_exec (\<lambda>now t.
       map_sum id (Pair ()) (update_runs (\<lambda>r. ir_run_id r = in_RunID run)
         (\<lambda>r. r\<lparr>ir_input_checksum := Some checksum, ir_fact_source_count := factCount\<rparr>) t)))) (\<lambda>_.
     returnE (Commit (run\<lparr>in_StartedAt := startedAt, in_InputChecksum := checksum, in_FactSourceCount := factCount\<rparr>)))))))))"

text \<open>The commits of a new and of a resumed run wrap their errors differently; which one is reached the body's own result tells.\<close>

definition BeginRun_body :: "ingest_lib \<Rightarrow> IngestRequest \<Rightarrow> IngestRun tx_result rm" where
  "BeginRun_body lib request =
     bindE (mapErr (WrapError ''lock ingestion run'') (ev_select (\<lambda>_. ()))) (\<lambda>_.
     bindE (getRun (rq_RunID request)) (\<lambda>found.
     case found of
       Some existing \<Rightarrow> if \<not> same_parameters existing request then throwE ErrRunConflict else resume_run existing
     | None \<Rightarrow> create_run lib request))"

definition begin_commit_text :: "go_error + IngestRun tx_result \<Rightarrow> string" where
  "begin_commit_text r = (case r of Inr (Commit run) \<Rightarrow> if in_Resumed run then ''commit ingestion run resume'' else ''commit ingestion run'' | _ \<Rightarrow> ''commit ingestion run'')"

definition BeginRun :: "ingest_lib \<Rightarrow> IngestRequest \<Rightarrow> IngestRun rm" where
  "BeginRun lib request s =
     in_tx (WrapError ''begin ingestion run transaction'') (WrapError (begin_commit_text (fst (BeginRun_body lib request (stmt_next s)))))
       (BeginRun_body lib request) s"

section \<open>Inputs\<close>

definition source_input :: "dataset_version_source_row \<Rightarrow> source_payload_row \<Rightarrow> SourceInput" where
  "source_input s p =
     \<lparr>EvidenceSourceID = dvs_evidence_source_id s, SourceType = dvs_source_type s, SourceID = dvs_source_id s, SourceVersion = dvs_source_version s,
      SourceContentHash = dvs_content_hash s, Visibility = dvs_visibility s, CanonicalText = sp_canonical_text p, SourcePayload = sp_source_payload p\<rparr>"

definition joined_source :: "evidence_tables \<Rightarrow> dataset_version_source_row \<Rightarrow> SourceInput option" where
  "joined_source t s =
     (if version_of t (dvs_dataset_version_id s) = None then None
      else map_option (source_input s) (find (\<lambda>p. sp_evidence_source_id p = dvs_evidence_source_id s) (evidence_source_payloads t)))"

definition frozen_sources :: "ingest_lib \<Rightarrow> IngestRun \<Rightarrow> evidence_tables \<Rightarrow> SourceInput list" where
  "frozen_sources lib run t =
     List.map_filter (joined_source t)
       (sort_key (\<lambda>s. (ig_coll lib (dvs_source_type s), dvs_source_id s, dvs_source_version s, dvs_evidence_source_id s))
         (filter (\<lambda>s. dvs_dataset_version_id s = in_DatasetVersionID run) (dataset_version_sources t)))"

definition ListSources :: "ingest_lib \<Rightarrow> IngestRun \<Rightarrow> SourceInput list rm" where
  "ListSources lib run = mapErr (WrapError ''query ingestion sources'') (ev_select (frozen_sources lib run))"

definition fact_input :: "daily_fact_payload_row \<Rightarrow> FactInput" where
  "fact_input p =
     \<lparr>DailyFactPayloadID = fp_id p, FactType = fp_fact_type p, SubjectID = fp_subject_id p, FactDate = fp_fact_date p,
      FactSourceVersion = fp_source_version p, FactContentHash = fp_payload_hash p, FactPayload = fp_source_payload p, CapturedAt = fp_captured_at p\<rparr>"

definition joined_facts :: "evidence_tables \<Rightarrow> string \<Rightarrow> daily_fact_payload_row list" where
  "joined_facts t runID =
     (case run_by_id t runID of
        None \<Rightarrow> []
      | Some r \<Rightarrow>
          if version_of t (ir_dataset_version_id r) = None then []
          else List.map_filter (\<lambda>i. find (\<lambda>p. fp_id p = fi_daily_fact_payload_id i) (daily_fact_payloads t))
                 (filter (\<lambda>i. fi_run_id i = runID) (ingestion_run_fact_inputs t)))"

definition frozen_facts :: "ingest_lib \<Rightarrow> IngestRun \<Rightarrow> evidence_tables \<Rightarrow> FactInput list" where
  "frozen_facts lib run t =
     map fact_input (sort_key (\<lambda>p. (ig_coll lib (fp_fact_type p), fp_subject_id p, fp_fact_date p, fp_source_version p, fp_id p))
       (joined_facts t (in_RunID run)))"

definition ListFacts :: "ingest_lib \<Rightarrow> IngestRun \<Rightarrow> FactInput list rm" where
  "ListFacts lib run = mapErr (WrapError ''query ingestion facts'') (ev_select (frozen_facts lib run))"

end
