(* ===== verification/Ingest_Save.thy ===== *)
theory Ingest_Save
  imports Ingest
begin

text \<open>
  How a built document reaches the tables (\<open>LinkReusableDocuments\<close> and \<open>SaveDocument\<close> of \<open>evidence/repository.go\<close>): a document
  the store already holds is linked to the run, any other is inserted with its sources, chunks and citations, published and linked, and the documents it replaces
  are superseded, all in one transaction. The checks of the evidence tables are written out; a project and a dataset a frozen version names exist.
\<close>

section \<open>Reusable documents\<close>

definition doc_by_key :: "evidence_tables \<Rightarrow> string \<Rightarrow> document_row option" where
  "doc_by_key t key = find (\<lambda>d. ed_document_key d = key) (evidence_documents t)"

definition reusable_keys :: "DocumentInput list \<Rightarrow> evidence_tables \<Rightarrow> string list" where
  "reusable_keys batch t =
     (let expected = map_of (rev (map (\<lambda>d. (DocumentKey d, d)) batch)) in
      map ed_document_key (filter (\<lambda>r.
        case expected (ed_document_key r) of
          None \<Rightarrow> False
        | Some d \<Rightarrow> ed_lifecycle_status r = ''ready'' \<and> ed_content_hash r = doc_ContentHash d \<and> ed_expected_chunk_count r = int (length (Chunks d)))
        (evidence_documents t)))"

definition ids_of_keys :: "string list \<Rightarrow> evidence_tables \<Rightarrow> int list" where
  "ids_of_keys keys t = map ed_id (filter (\<lambda>r. ed_document_key r \<in> set keys) (evidence_documents t))"

definition link_batch :: "string \<Rightarrow> DocumentInput list \<Rightarrow> string list tx_result rm" where
  "link_batch runID batch =
     bindE (mapErr (WrapError ''query reusable documents'') (ev_select (reusable_keys batch))) (\<lambda>validKeys.
     if validKeys = [] then returnE (Commit [])
     else bindE (mapErr (WrapError ''link reusable documents'') (ev_exec (\<lambda>_ t. link_documents runID (ids_of_keys validKeys t) ''reused'' t))) (\<lambda>_.
       returnE (Commit validKeys)))"

function LinkReusableDocuments :: "string \<Rightarrow> DocumentInput list \<Rightarrow> string list rm" where
  "LinkReusableDocuments runID documents =
     (if documents = [] then returnE []
      else bindE (in_tx (WrapError ''begin reusable document transaction'') (WrapError ''commit reusable document links'')
             (link_batch runID (take ReuseBatchSize documents))) (\<lambda>keys.
           bindE (LinkReusableDocuments runID (drop ReuseBatchSize documents)) (\<lambda>more. returnE (keys @ more))))"
  by pat_completeness auto
termination by (relation "measure (\<lambda>(_, ds). length ds)") (auto simp: ReuseBatchSize_def)

declare LinkReusableDocuments.simps [simp del]

section \<open>Insertions\<close>

definition document_row_of :: "DocumentInput \<Rightarrow> int \<Rightarrow> document_row" where
  "document_row_of d i =
     \<lparr>ed_id = i, ed_document_key = DocumentKey d, ed_project_id = doc_ProjectID d, ed_dataset_id = doc_DatasetID d,
      ed_dataset_version_id = doc_DatasetVersionID d, ed_document_type = DocumentType d, ed_source_type = doc_SourceType d,
      ed_source_id = doc_SourceID d, ed_source_key = SourceKey d, ed_source_version = doc_SourceVersion d,
      ed_source_content_hash = doc_SourceContentHash d, ed_parser_version = doc_ParserVersion d, ed_visibility = doc_Visibility d,
      ed_canonical_text = doc_CanonicalText d, ed_content_hash = doc_ContentHash d, ed_metadata = doc_Metadata d,
      ed_expected_chunk_count = int (length (Chunks d)), ed_lifecycle_status = ''building'', ed_source_created_at = SourceCreatedAt d,
      ed_source_updated_at = SourceUpdatedAt d, ed_deleted_at = None\<rparr>"

definition document_checks :: "DocumentInput \<Rightarrow> bool" where
  "document_checks d = (doc_SourceVersion d > 0 \<and> (doc_Visibility d = ''public'' \<or> doc_Visibility d = ''project'') \<and> Chunks d \<noteq> [])"

definition document_identity :: "document_row \<Rightarrow> int \<times> string \<times> string \<times> int \<times> string \<times> string" where
  "document_identity r =
     (ed_dataset_version_id r, ed_document_type r, ed_source_key r, ed_source_version r, ed_source_content_hash r, ed_parser_version r)"

text \<open>\<open>ON CONFLICT (document_key) DO NOTHING RETURNING id\<close>: \<open>None\<close> is the row already there. The second unique key still refuses.\<close>

definition insert_document :: "DocumentInput \<Rightarrow> int \<Rightarrow> evidence_tables \<Rightarrow> go_error + int option \<times> evidence_tables" where
  "insert_document d i t =
     (if \<not> document_checks d then Inl check_violation
      else if doc_by_key t (DocumentKey d) \<noteq> None then Inr (None, t)
      else if exists_row (\<lambda>r. ed_id r = i \<or> document_identity r = document_identity (document_row_of d i)) (evidence_documents t) then Inl unique_violation
      else if version_of t (doc_DatasetVersionID d) = None then Inl fk_violation
      else Inr (Some i, t\<lparr>evidence_documents := evidence_documents t @ [document_row_of d i]\<rparr>))"

definition one_origin :: "int option \<Rightarrow> int option \<Rightarrow> bool" where
  "one_origin source fact_payload = ((source = None) \<noteq> (fact_payload = None))"

definition origin_exists :: "evidence_tables \<Rightarrow> int option \<Rightarrow> int option \<Rightarrow> bool" where
  "origin_exists t source fact_payload =
     ((case source of None \<Rightarrow> True | Some i \<Rightarrow> exists_row (\<lambda>s. es_id s = i) (evidence_sources t)) \<and>
      (case fact_payload of None \<Rightarrow> True | Some i \<Rightarrow> exists_row (\<lambda>p. fp_id p = i) (daily_fact_payloads t)))"

definition source_row_of :: "int \<Rightarrow> nat \<Rightarrow> DocumentSource \<Rightarrow> document_source_row" where
  "source_row_of documentID index s =
     \<lparr>ds_document_id = documentID, ds_evidence_source_id = ds_EvidenceSourceID s, ds_daily_fact_payload_id = ds_DailyFactPayloadID s,
      ds_source_type = ds_SourceType s, ds_source_id = ds_SourceID s, ds_source_version = ds_SourceVersion s, ds_content_hash = ds_ContentHash s,
      ds_source_order = int index\<rparr>"

definition insert_source :: "int \<Rightarrow> nat \<Rightarrow> DocumentSource \<Rightarrow> evidence_tables \<Rightarrow> go_error + unit \<times> evidence_tables" where
  "insert_source documentID index s t =
     (if \<not> one_origin (ds_EvidenceSourceID s) (ds_DailyFactPayloadID s) then Inl check_violation
      else if exists_row (\<lambda>r. ds_document_id r = documentID \<and> ds_source_order r = int index) (evidence_document_sources t) then Inr ((), t)
      else if doc_by_id t documentID = None \<or> \<not> origin_exists t (ds_EvidenceSourceID s) (ds_DailyFactPayloadID s) then Inl fk_violation
      else Inr ((), t\<lparr>evidence_document_sources := evidence_document_sources t @ [source_row_of documentID index s]\<rparr>))"

fun save_sources :: "int \<Rightarrow> nat \<Rightarrow> DocumentSource list \<Rightarrow> unit rm" where
  "save_sources documentID index [] = returnE ()"
| "save_sources documentID index (s # ss) =
     bindE (mapErr (WrapError ''insert document source'') (ev_exec (\<lambda>_. insert_source documentID index s))) (\<lambda>_.
     save_sources documentID (Suc index) ss)"

definition chunk_row_of :: "int \<Rightarrow> ChunkInput \<Rightarrow> int \<Rightarrow> chunk_row" where
  "chunk_row_of documentID c i =
     \<lparr>ec_id = i, ec_chunk_key = ChunkKey c, ec_document_id = documentID, ec_chunk_index = int (ChunkIndex c), ec_start_byte = int (StartByte (chunk_range c)),
      ec_end_byte = int (EndByte (chunk_range c)), ec_start_rune = int (StartRune (chunk_range c)), ec_end_rune = int (EndRune (chunk_range c)),
      ec_content = Content (chunk_range c), ec_content_hash = chunk_ContentHash c, ec_chunker_version = chunk_ChunkerVersion c,
      ec_tokenizer_version = chunk_TokenizerVersion c, ec_lexemes = Lexemes c, ec_metadata = chunk_Metadata c\<rparr>"

definition chunk_checks :: "ChunkInput \<Rightarrow> bool" where
  "chunk_checks c = (EndByte (chunk_range c) > StartByte (chunk_range c) \<and> EndRune (chunk_range c) > StartRune (chunk_range c))"

definition insert_chunk :: "int \<Rightarrow> ChunkInput \<Rightarrow> int \<Rightarrow> evidence_tables \<Rightarrow> go_error + int option \<times> evidence_tables" where
  "insert_chunk documentID c i t =
     (if \<not> chunk_checks c then Inl check_violation
      else if exists_row (\<lambda>r. ec_chunk_key r = ChunkKey c) (evidence_chunks t) then Inr (None, t)
      else if exists_row (\<lambda>r. ec_id r = i \<or> ec_document_id r = documentID \<and> ec_chunk_index r = int (ChunkIndex c)) (evidence_chunks t)
      then Inl unique_violation
      else if doc_by_id t documentID = None then Inl fk_violation
      else Inr (Some i, t\<lparr>evidence_chunks := evidence_chunks t @ [chunk_row_of documentID c i]\<rparr>))"

definition citation_row_of :: "DocumentInput \<Rightarrow> int \<Rightarrow> int \<Rightarrow> CitationInput \<Rightarrow> int \<Rightarrow> citation_row" where
  "citation_row_of d documentID chunkID c i =
     \<lparr>ct_id = i, ct_citation_key = CitationKey c, ct_document_id = documentID, ct_chunk_id = chunkID, ct_project_id = doc_ProjectID d,
      ct_dataset_id = doc_DatasetID d, ct_dataset_version_id = doc_DatasetVersionID d, ct_evidence_source_id = cit_EvidenceSourceID c,
      ct_daily_fact_payload_id = cit_DailyFactPayloadID c, ct_source_type = cit_SourceType c, ct_source_id = cit_SourceID c,
      ct_source_version = cit_SourceVersion c, ct_source_content_hash = cit_SourceContentHash c, ct_parser_version = doc_ParserVersion d,
      ct_document_start_byte = int (DocumentStartByte c), ct_document_end_byte = int (DocumentEndByte c),
      ct_source_start_byte = int (SourceStartByte c), ct_source_end_byte = int (SourceEndByte c), ct_quote_hash = QuoteHash c\<rparr>"

definition citation_checks :: "CitationInput \<Rightarrow> bool" where
  "citation_checks c =
     (DocumentEndByte c > DocumentStartByte c \<and> SourceEndByte c > SourceStartByte c \<and> one_origin (cit_EvidenceSourceID c) (cit_DailyFactPayloadID c))"

definition insert_citation :: "DocumentInput \<Rightarrow> int \<Rightarrow> int \<Rightarrow> CitationInput \<Rightarrow> int \<Rightarrow> evidence_tables \<Rightarrow> go_error + unit \<times> evidence_tables" where
  "insert_citation d documentID chunkID c i t =
     (if \<not> citation_checks c then Inl check_violation
      else if exists_row (\<lambda>r. ct_citation_key r = CitationKey c) (source_citations t) then Inr ((), t)
      else if exists_row (\<lambda>r. ct_id r = i) (source_citations t) then Inl unique_violation
      else if doc_by_id t documentID = None \<or> \<not> exists_row (\<lambda>r. ec_id r = chunkID) (evidence_chunks t) \<or>
              version_of t (doc_DatasetVersionID d) = None \<or> \<not> origin_exists t (cit_EvidenceSourceID c) (cit_DailyFactPayloadID c)
      then Inl fk_violation
      else Inr ((), t\<lparr>source_citations := source_citations t @ [citation_row_of d documentID chunkID c i]\<rparr>))"

fun save_citations :: "DocumentInput \<Rightarrow> int \<Rightarrow> int \<Rightarrow> CitationInput list \<Rightarrow> unit rm" where
  "save_citations d documentID chunkID [] = returnE ()"
| "save_citations d documentID chunkID (c # cs) =
     bindE (mapErr (WrapError ''insert source citation'') (ev_serial ''source_citations'' (insert_citation d documentID chunkID c))) (\<lambda>_.
     save_citations d documentID chunkID cs)"

definition chunk_id_of :: "int \<Rightarrow> ChunkInput \<Rightarrow> evidence_tables \<Rightarrow> int option" where
  "chunk_id_of documentID c t =
     map_option ec_id (find (\<lambda>r. ec_chunk_key r = ChunkKey c \<and> ec_document_id r = documentID) (evidence_chunks t))"

definition save_chunk :: "int \<Rightarrow> ChunkInput \<Rightarrow> int rm" where
  "save_chunk documentID c =
     bindE (mapErr (WrapError ''insert evidence chunk'') (ev_serial ''evidence_chunks'' (insert_chunk documentID c))) (\<lambda>inserted.
     case inserted of
       Some chunkID \<Rightarrow> returnE chunkID
     | None \<Rightarrow> mapErr (WrapError ''load existing evidence chunk'') (ev_row (chunk_id_of documentID c)))"

fun save_chunks :: "DocumentInput \<Rightarrow> int \<Rightarrow> ChunkInput list \<Rightarrow> unit rm" where
  "save_chunks d documentID [] = returnE ()"
| "save_chunks d documentID (c # cs) =
     bindE (save_chunk documentID c) (\<lambda>chunkID.
     bindE (save_citations d documentID chunkID (Citations c)) (\<lambda>_.
     save_chunks d documentID cs))"

section \<open>Saving a document\<close>

definition chunks_of :: "evidence_tables \<Rightarrow> int \<Rightarrow> chunk_row list" where
  "chunks_of t documentID = filter (\<lambda>c. ec_document_id c = documentID) (evidence_chunks t)"

definition citations_of_chunk :: "evidence_tables \<Rightarrow> int \<Rightarrow> citation_row list" where
  "citations_of_chunk t chunkID = filter (\<lambda>c. ct_chunk_id c = chunkID) (source_citations t)"

text \<open>The counts a saved document is validated by: through its chunks after an insertion, through its own key when it existed.\<close>

definition child_counts :: "int \<Rightarrow> evidence_tables \<Rightarrow> int \<times> int" where
  "child_counts documentID t =
     (int (length (remdups (map ec_id (chunks_of t documentID)))), int (length (concat (map (\<lambda>c. citations_of_chunk t (ec_id c)) (chunks_of t documentID)))))"

definition existing_document :: "string \<Rightarrow> evidence_tables \<Rightarrow> (document_row \<times> int \<times> int) option" where
  "existing_document key t =
     map_option (\<lambda>r. (r, int (length (chunks_of t (ed_id r))), int (length (filter (\<lambda>c. ct_document_id c = ed_id r) (source_citations t)))))
       (doc_by_key t key)"

definition update_documents :: "(evidence_tables \<Rightarrow> document_row \<Rightarrow> bool) \<Rightarrow> (int \<Rightarrow> document_row \<Rightarrow> document_row) \<Rightarrow> int rm" where
  "update_documents P f = ev_exec (\<lambda>now t.
     Inr (int (length (filter (P t) (evidence_documents t))), t\<lparr>evidence_documents := update_where (P t) (f now) (evidence_documents t)\<rparr>))"

definition retire :: "string \<Rightarrow> int \<Rightarrow> document_row \<Rightarrow> document_row" where
  "retire status now r =
     r\<lparr>ed_lifecycle_status := status, ed_deleted_at := (case ed_deleted_at r of None \<Rightarrow> Some now | Some x \<Rightarrow> Some x)\<rparr>"

definition reuse_document :: "string \<Rightarrow> DocumentInput \<Rightarrow> document_row \<times> int \<times> int \<Rightarrow> SaveResult tx_result rm" where
  "reuse_document runID d found =
     (case found of (r, chunkCount, citationCount) \<Rightarrow>
      if ed_lifecycle_status r \<noteq> ''ready'' \<or> ed_content_hash r \<noteq> doc_ContentHash d \<or> ed_expected_chunk_count r \<noteq> int (length (Chunks d)) \<or>
         chunkCount \<noteq> int (length (Chunks d)) \<or> citationCount \<noteq> int (sum_list (map (\<lambda>c. length (Citations c)) (Chunks d)))
      then throwE (ErrorString (''existing document '' @ DocumentKey d @ '' failed immutable child validation''))
      else bindE (mapErr (WrapError ''link reused ingestion document'') (ev_exec (\<lambda>_. link_documents runID [ed_id r] ''reused''))) (\<lambda>_.
        returnE (Commit \<lparr>sv_DocumentID = ed_id r, sv_Reused = True, sv_ChunkCount = chunkCount, sv_CitationCount = citationCount\<rparr>)))"

definition place_document :: "DocumentInput \<Rightarrow> (int \<times> bool) rm" where
  "place_document d =
     bindE (mapErr (WrapError ''insert evidence document'') (ev_serial ''evidence_documents'' (insert_document d))) (\<lambda>inserted.
     case inserted of
       Some documentID \<Rightarrow> returnE (documentID, True)
     | None \<Rightarrow> bindE (mapErr (WrapError ''load existing evidence document'') (ev_row (\<lambda>t. map_option ed_id (doc_by_key t (DocumentKey d))))) (\<lambda>documentID.
         returnE (documentID, False)))"

definition publish_document :: "string \<Rightarrow> DocumentInput \<Rightarrow> int \<Rightarrow> bool \<Rightarrow> SaveResult tx_result rm" where
  "publish_document runID d documentID created =
     bindE (mapErr (WrapError ''validate document children'') (ev_select (child_counts documentID))) (\<lambda>(chunkCount, citationCount).
     bindE (guardE (chunkCount \<noteq> int (length (Chunks d)))
       (ErrorString (''document '' @ DocumentKey d @ '' has '' @ FormatInt chunkCount @ '' chunks, want '' @ FormatInt (int (length (Chunks d)))))) (\<lambda>_.
     bindE (mapErr (WrapError ''publish evidence document'') (update_documents
       (\<lambda>_ r. ed_id r = documentID \<and> (ed_lifecycle_status r = ''building'' \<or> ed_lifecycle_status r = ''failed''))
       (\<lambda>_ r. r\<lparr>ed_lifecycle_status := ''ready'', ed_deleted_at := None\<rparr>))) (\<lambda>_.
     bindE (mapErr (WrapError ''link ingestion document'') (ev_exec (\<lambda>_. link_documents runID [documentID] (if created then ''created'' else ''reused'')))) (\<lambda>_.
     bindE (mapErr (WrapError ''supersede old evidence document'') (update_documents
       (\<lambda>_ r. ed_project_id r = doc_ProjectID d \<and> ed_source_type r = doc_SourceType d \<and> ed_source_key r = SourceKey d \<and>
          ed_id r \<noteq> documentID \<and> ed_lifecycle_status r = ''ready'')
       (retire ''superseded''))) (\<lambda>_.
     returnE (Commit \<lparr>sv_DocumentID = documentID, sv_Reused = (\<not> created), sv_ChunkCount = chunkCount, sv_CitationCount = citationCount\<rparr>))))))"

definition SaveDocument_body :: "string \<Rightarrow> DocumentInput \<Rightarrow> SaveResult tx_result rm" where
  "SaveDocument_body runID d =
     bindE (mapErr (WrapError ''query existing evidence document'') (ev_select (existing_document (DocumentKey d)))) (\<lambda>found.
     case found of
       Some existing \<Rightarrow> reuse_document runID d existing
     | None \<Rightarrow>
         bindE (place_document d) (\<lambda>(documentID, created).
         bindE (save_sources documentID 0 (Sources d)) (\<lambda>_.
         bindE (save_chunks d documentID (Chunks d)) (\<lambda>_.
         publish_document runID d documentID created))))"

text \<open>A failing commit is reported as one of a reused document when the document existed.\<close>

definition save_commit_text :: "DocumentInput \<Rightarrow> evidence_tables \<Rightarrow> string" where
  "save_commit_text d t = (if doc_by_key t (DocumentKey d) \<noteq> None then ''commit reused evidence document'' else ''commit evidence document'')"

definition SaveDocument :: "string \<Rightarrow> DocumentInput \<Rightarrow> SaveResult rm" where
  "SaveDocument runID d s =
     in_tx (WrapError ''begin document transaction'') (WrapError (save_commit_text d (evid (tables s)))) (SaveDocument_body runID d) s"

end
