(* ===== verification/Ingest_Service.thy ===== *)
theory Ingest_Service
  imports Ingest_Save
begin

text \<open>
  The end of a run and the service (\<open>CompleteRun\<close>, \<open>MarkFailed\<close>, \<open>ReconcileLifecycle\<close>, \<open>Audit\<close>, \<open>outputChecksum\<close> of \<open>evidence/repository.go\<close>;
  \<open>Ingest\<close>, \<open>Reconcile\<close>, \<open>Audit\<close> of \<open>evidence/service.go\<close>).
\<close>

section \<open>The output of a run\<close>

definition run_links :: "evidence_tables \<Rightarrow> string \<Rightarrow> run_document_row list" where
  "run_links t runID = filter (\<lambda>l. rd_run_id l = runID) (ingestion_run_documents t)"

definition run_documents :: "evidence_tables \<Rightarrow> string \<Rightarrow> document_row list" where
  "run_documents t runID = List.map_filter (\<lambda>l. doc_by_id t (rd_document_id l)) (run_links t runID)"

definition run_chunks :: "evidence_tables \<Rightarrow> string \<Rightarrow> chunk_row list" where
  "run_chunks t runID = concat (map (\<lambda>l. chunks_of t (rd_document_id l)) (run_links t runID))"

definition run_citations :: "evidence_tables \<Rightarrow> string \<Rightarrow> citation_row list" where
  "run_citations t runID = concat (map (\<lambda>c. citations_of_chunk t (ec_id c)) (run_chunks t runID))"

definition manifest_items :: "evidence_tables \<Rightarrow> string \<Rightarrow> (string \<times> string) list" where
  "manifest_items t runID =
     map (\<lambda>d. (''document'', ed_document_key d)) (run_documents t runID) @
     map (\<lambda>c. (''chunk'', ec_chunk_key c)) (run_chunks t runID) @
     map (\<lambda>c. (''citation'', ct_citation_key c)) (run_citations t runID)"

definition manifest_line :: "string \<times> string \<Rightarrow> string" where
  "manifest_line item = fst item @ [CHR 0x1F] @ snd item @ [CHR 0x0A]"

definition manifest_text :: "(string \<Rightarrow> int) \<Rightarrow> evidence_tables \<Rightarrow> string \<Rightarrow> string" where
  "manifest_text coll t runID =
     ''evidence_ingestion_output_v1'' @ [CHR 0x0A] @
     concat (map manifest_line (sort_key (\<lambda>(itemType, itemKey). (coll itemType, coll itemKey)) (manifest_items t runID)))"

definition outputChecksum :: "ingest_lib \<Rightarrow> string \<Rightarrow> string rm" where
  "outputChecksum lib runID =
     mapErr (WrapError ''query ingestion output manifest'') (ev_select (\<lambda>t. ig_H lib (manifest_text (ig_coll lib) t runID)))"

section \<open>Completion\<close>

definition invalid_documents :: "string \<Rightarrow> evidence_tables \<Rightarrow> int" where
  "invalid_documents runID t = int (length (filter (\<lambda>d. ed_lifecycle_status d \<noteq> ''ready'') (run_documents t runID)))"

text \<open>A null checksum or version cannot be scanned.\<close>

definition scan_error :: go_error where "scan_error = ErrorString ''sql: Scan error: converting NULL is unsupported''"

definition completed_row :: "string \<Rightarrow> string \<Rightarrow> evidence_tables \<Rightarrow> int \<Rightarrow> ingestion_run_row \<Rightarrow> ingestion_run_row" where
  "completed_row runID checksum t now r =
     r\<lparr>ir_status := ''completed'', ir_output_checksum := Some checksum,
       ir_document_count := int (length (remdups (map rd_document_id (run_links t runID)))),
       ir_chunk_count := int (length (remdups (map ec_id (run_chunks t runID)))),
       ir_citation_count := int (length (remdups (map ct_id (run_citations t runID)))),
       ir_reused_document_count := int (length (remdups (map rd_document_id (filter (\<lambda>l. rd_disposition l = ''reused'') (run_links t runID))))),
       ir_completed_at := Some now\<rparr>"

definition complete_update :: "string \<Rightarrow> string \<Rightarrow> int \<Rightarrow> evidence_tables \<Rightarrow> go_error + IngestRun \<times> evidence_tables" where
  "complete_update runID checksum now t =
     (case run_by_id t runID of
        None \<Rightarrow> Inl SqlErrNoRows
      | Some r \<Rightarrow>
          if ir_status r \<noteq> ''running'' then Inl SqlErrNoRows
          else (case update_runs (\<lambda>x. ir_run_id x = runID \<and> ir_status x = ''running'') (completed_row runID checksum t now) t of
              Inl e \<Rightarrow> Inl e
            | Inr t' \<Rightarrow>
                (case version_of t (ir_dataset_version_id r) of
                   None \<Rightarrow> Inl scan_error
                 | Some d \<Rightarrow> if ir_input_checksum r = None then Inl scan_error
                     else Inr (run_of_row (completed_row runID checksum t now r) (dv_version d), t'))))"

definition index_sources :: "string \<Rightarrow> evidence_tables \<Rightarrow> evidence_tables" where
  "index_sources runID t = t\<lparr>evidence_sources := update_where (\<lambda>s.
      exists_row (\<lambda>x. doc_in_run t runID (ds_document_id x) \<and> ds_evidence_source_id x = Some (es_id s)) (evidence_document_sources t) \<and>
      es_deleted_at s = None \<and> es_index_status s \<noteq> ''deleted'')
      (\<lambda>s. s\<lparr>es_index_status := ''indexed''\<rparr>) (evidence_sources t)\<rparr>"

definition completed_before :: "string \<Rightarrow> go_error \<Rightarrow> IngestRun tx_result rm" where
  "completed_before runID e =
     (if errors_is e SqlErrNoRows
      then bindE (catchE (getRun runID)) (\<lambda>r.
        case r of
          Inr (Some existing) \<Rightarrow> if in_Status existing = ''completed'' then returnE (Rollback existing) else throwE (WrapError ''complete ingestion run'' e)
        | _ \<Rightarrow> throwE (WrapError ''complete ingestion run'' e))
      else throwE (WrapError ''complete ingestion run'' e))"

definition CompleteRun_body :: "ingest_lib \<Rightarrow> string \<Rightarrow> IngestRun tx_result rm" where
  "CompleteRun_body lib runID =
     bindE (mapErr (WrapError ''validate run documents'') (ev_select (invalid_documents runID))) (\<lambda>invalid.
     bindE (guardE (invalid \<noteq> 0)
       (ErrorString (''ingestion run '' @ runID @ '' has '' @ FormatInt invalid @ '' non-ready documents''))) (\<lambda>_.
     bindE (outputChecksum lib runID) (\<lambda>checksum.
     bindE (catchE (ev_exec (complete_update runID checksum))) (\<lambda>r.
     case r of
       Inl e \<Rightarrow> completed_before runID e
     | Inr run \<Rightarrow>
         bindE (mapErr (WrapError ''mark evidence sources indexed'') (ev_exec (\<lambda>_ t. Inr ((), index_sources runID t)))) (\<lambda>_.
         returnE (Commit run))))))"

definition CompleteRun :: "ingest_lib \<Rightarrow> string \<Rightarrow> IngestRun rm" where
  "CompleteRun lib runID = in_tx (WrapError ''begin complete ingestion'') (WrapError ''commit ingestion completion'') (CompleteRun_body lib runID)"

definition mark_run_failed :: "string \<Rightarrow> go_error \<Rightarrow> unit rm" where
  "mark_run_failed runID cause =
     mapErr (WrapError ''mark ingestion failed'') (ev_exec (\<lambda>now t.
       map_sum id (Pair ()) (update_runs (\<lambda>r. ir_run_id r = runID \<and> ir_status r = ''running'')
         (\<lambda>r. r\<lparr>ir_status := ''failed'', ir_error_message := Some (left_chars 4000 (error_text cause))\<rparr>) t)))"

section \<open>Lifecycle\<close>

definition ready_of_type :: "string list \<Rightarrow> document_row \<Rightarrow> bool" where
  "ready_of_type types d = (ed_lifecycle_status d = ''ready'' \<and> ed_document_type d \<in> set types)"

definition newer_fact :: "evidence_tables \<Rightarrow> daily_fact_payload_row \<Rightarrow> bool" where
  "newer_fact t p =
     exists_row (\<lambda>q. fp_project_id q = fp_project_id p \<and> fp_fact_type q = fp_fact_type p \<and> fp_subject_id q = fp_subject_id p \<and>
        fp_fact_date q = fp_fact_date p \<and> fp_source_version q > fp_source_version p) (daily_fact_payloads t)"

definition doc_has_fact :: "evidence_tables \<Rightarrow> int \<Rightarrow> (daily_fact_payload_row \<Rightarrow> bool) \<Rightarrow> bool" where
  "doc_has_fact t d P =
     exists_row (\<lambda>x. ds_document_id x = d \<and>
        exists_row (\<lambda>p. Some (fp_id p) = ds_daily_fact_payload_id x \<and> P p) (daily_fact_payloads t)) (evidence_document_sources t)"

definition stale_cluster :: "evidence_tables \<Rightarrow> document_row \<Rightarrow> bool" where
  "stale_cluster t d = (ready_of_type [''note_comment_cluster''] d \<and> doc_has_source t (ed_id d) source_deleted)"

definition superseded_document :: "evidence_tables \<Rightarrow> document_row \<Rightarrow> bool" where
  "superseded_document t d =
     (ready_of_type [''note'', ''note_media''] d \<and> doc_has_source t (ed_id d) (\<lambda>s. source_deleted s \<and> newer_active_source t s))"

definition deleted_document :: "evidence_tables \<Rightarrow> document_row \<Rightarrow> bool" where
  "deleted_document t d = (ready_of_type [''note'', ''note_media''] d \<and> doc_has_source t (ed_id d) source_deleted)"

definition superseded_fact :: "evidence_tables \<Rightarrow> document_row \<Rightarrow> bool" where
  "superseded_fact t d = (ready_of_type [''note_daily_fact'', ''user_daily_fact''] d \<and> doc_has_fact t (ed_id d) (newer_fact t))"

definition ReconcileLifecycle :: "ReconcileResult rm" where
  "ReconcileLifecycle =
     bindE (mapErr (WrapError ''reconcile stale comment clusters'') (update_documents stale_cluster (retire ''stale''))) (\<lambda>stale.
     bindE (mapErr (WrapError ''reconcile superseded documents'') (update_documents superseded_document (retire ''superseded''))) (\<lambda>superseded.
     bindE (mapErr (WrapError ''reconcile deleted documents'') (update_documents deleted_document (retire ''deleted''))) (\<lambda>deleted.
     bindE (mapErr (WrapError ''reconcile superseded fact documents'') (update_documents superseded_fact (retire ''superseded''))) (\<lambda>factCount.
     returnE \<lparr>rr_StaleDocuments = stale, rr_SupersededDocuments = superseded + factCount, rr_DeletedDocuments = deleted\<rparr>))))"

section \<open>The audit\<close>

definition byte_substring :: "string \<Rightarrow> int \<Rightarrow> int \<Rightarrow> string" where
  "byte_substring text i j = take (nat (j - i)) (drop (nat i) text)"

definition chunk_slice_bad :: "(string \<Rightarrow> string) \<Rightarrow> document_row \<Rightarrow> chunk_row \<Rightarrow> bool" where
  "chunk_slice_bad H d c =
     (ec_start_byte c < 0 \<or> ec_end_byte c > int (length (ed_canonical_text d)) \<or>
      byte_substring (ed_canonical_text d) (ec_start_byte c) (ec_end_byte c) \<noteq> ec_content c \<or> H (ec_content c) \<noteq> ec_content_hash c)"

definition citation_slice_bad :: "(string \<Rightarrow> string) \<Rightarrow> document_row \<Rightarrow> chunk_row \<Rightarrow> citation_row \<Rightarrow> bool" where
  "citation_slice_bad H d c sc =
     (ct_document_start_byte sc < ec_start_byte c \<or> ct_document_end_byte sc > ec_end_byte c \<or>
      H (byte_substring (ed_canonical_text d) (ct_document_start_byte sc) (ct_document_end_byte sc)) \<noteq> ct_quote_hash sc)"

definition doc_chunks :: "evidence_tables \<Rightarrow> string \<Rightarrow> (document_row \<times> chunk_row) list" where
  "doc_chunks t runID = concat (map (\<lambda>d. map (Pair d) (chunks_of t (ed_id d))) (run_documents t runID))"

definition run_scope_bad :: "evidence_tables \<Rightarrow> string \<Rightarrow> document_row \<Rightarrow> bool" where
  "run_scope_bad t runID d =
     (case run_by_id t runID of
        None \<Rightarrow> False
      | Some r \<Rightarrow> ed_project_id d \<noteq> ir_project_id r \<or> ed_dataset_id d \<noteq> ir_dataset_id r \<or> ed_dataset_version_id d \<noteq> ir_dataset_version_id r)"

text \<open>The counting queries, by the name of the violation they count.\<close>

definition audit_queries :: "(string \<Rightarrow> string) \<Rightarrow> (string \<times> (evidence_tables \<Rightarrow> string \<Rightarrow> int)) list" where
  "audit_queries H =
     [(''incomplete_documents'', \<lambda>t runID.
         int (length (filter (\<lambda>d. ed_lifecycle_status d = ''building'' \<or> ed_lifecycle_status d = ''failed'') (run_documents t runID)))),
      (''chunk_count_mismatch'', \<lambda>t runID.
         int (length (filter (\<lambda>d. int (length (chunks_of t (ed_id d))) \<noteq> ed_expected_chunk_count d) (remdups (run_documents t runID))))),
      (''invalid_chunk_slice'', \<lambda>t runID. int (length (filter (\<lambda>(d, c). chunk_slice_bad H d c) (doc_chunks t runID)))),
      (''chunks_without_citation'', \<lambda>t runID.
         int (length (filter (\<lambda>i. citations_of_chunk t i = []) (remdups (map ec_id (run_chunks t runID)))))),
      (''invalid_citation_slice'', \<lambda>t runID.
         int (length (concat (map (\<lambda>(d, c). filter (citation_slice_bad H d c) (citations_of_chunk t (ec_id c))) (doc_chunks t runID))))),
      (''scope_mismatch'', \<lambda>t runID. int (length (filter (run_scope_bad t runID) (run_documents t runID)))),
      (''active_deleted_source'', \<lambda>t runID.
         int (length (remdups (map ed_id (filter (\<lambda>d. ed_lifecycle_status d = ''ready'' \<and> doc_has_source t (ed_id d) source_deleted) (run_documents t runID))))))]"

fun audit_loop :: "string \<Rightarrow> (string \<times> (evidence_tables \<Rightarrow> string \<Rightarrow> int)) list \<Rightarrow> (string \<times> int) list rm" where
  "audit_loop runID [] = returnE []"
| "audit_loop runID ((name, query) # qs) =
     bindE (mapErr (WrapError (''audit '' @ name)) (ev_select (\<lambda>t. query t runID))) (\<lambda>count.
     bindE (audit_loop runID qs) (\<lambda>rest. returnE ((name, count) # rest)))"

definition checksum_audit :: "ingest_lib \<Rightarrow> string \<Rightarrow> string \<Rightarrow> string \<Rightarrow> (string \<times> int) list rm" where
  "checksum_audit lib runID status expected =
     (if status = ''completed''
      then bindE (outputChecksum lib runID) (\<lambda>actual. returnE [(''output_checksum_mismatch'', if actual \<noteq> expected then 1 else 0)])
      else returnE [])"

definition repo_Audit :: "ingest_lib \<Rightarrow> ingest_env \<Rightarrow> string \<Rightarrow> AuditReport rm" where
  "repo_Audit lib env runID =
     bindE (audit_loop runID (sort_key (\<lambda>q. ie_audit env (fst q)) (audit_queries (ig_H lib)))) (\<lambda>violations.
     bindE (mapErr (WrapError ''load audited ingestion run'')
       (ev_row (\<lambda>t. map_option (\<lambda>r. (ir_status r, coalesce (ir_output_checksum r))) (run_by_id t runID)))) (\<lambda>(status, expected).
     bindE (checksum_audit lib runID status expected) (\<lambda>more.
     returnE \<lparr>ar_RunID = runID, ar_Violations = violations @ more, ar_Healthy = list_all (\<lambda>v. snd v = 0) (violations @ more)\<rparr>)))"

section \<open>The service\<close>

text \<open>After the first error the group is cancelled; the transactions under way may still finish, their results are dropped.\<close>

fun finish_inflight :: "string \<Rightarrow> DocumentInput list \<Rightarrow> unit rm" where
  "finish_inflight runID [] = returnE ()"
| "finish_inflight runID (d # ds) = bindE (catchE (SaveDocument runID d)) (\<lambda>_. finish_inflight runID ds)"

fun save_all :: "ingest_env \<Rightarrow> string \<Rightarrow> DocumentInput list \<Rightarrow> unit rm" where
  "save_all env runID [] = returnE ()"
| "save_all env runID (d # ds) =
     bindE (catchE (SaveDocument runID d)) (\<lambda>r.
     case r of
       Inr _ \<Rightarrow> save_all env runID ds
     | Inl e \<Rightarrow> bindE (finish_inflight runID (take (ie_inflight env) ds)) (\<lambda>_. throwE e))"

definition save_documents :: "ingest_env \<Rightarrow> string \<Rightarrow> DocumentInput list \<Rightarrow> string list \<Rightarrow> unit rm" where
  "save_documents env runID documents reused =
     save_all env runID (sort_key (ie_schedule env) (filter (\<lambda>d. DocumentKey d \<notin> set reused) documents))"

definition count_changed :: "string \<Rightarrow> int \<Rightarrow> int \<Rightarrow> go_error" where
  "count_changed what loaded want =
     ErrorString (what @ '' count changed: loaded '' @ FormatInt loaded @ '' want '' @ FormatInt want)"

definition liftS :: "go_error + 'a \<Rightarrow> 'a rm" where
  "liftS r = (case r of Inl e \<Rightarrow> throwE e | Inr x \<Rightarrow> returnE x)"

text \<open>The steps whose failure marks the run failed.\<close>

definition load_documents :: "ingest_lib \<Rightarrow> IngestRun \<Rightarrow> DocumentInput list rm" where
  "load_documents lib run =
     bindE (ListSources lib run) (\<lambda>sources.
     bindE (guardE (int (length sources) \<noteq> in_SourceCount run) (count_changed ''snapshot source'' (int (length sources)) (in_SourceCount run))) (\<lambda>_.
     bindE (liftS (BuildSourceDocuments (ig_H lib) (ig_u lib) (ig_ts lib) (builder_run run) sources)) (\<lambda>documents.
     bindE (ListFacts lib run) (\<lambda>facts.
     bindE (guardE (int (length facts) \<noteq> in_FactSourceCount run) (count_changed ''fact source'' (int (length facts)) (in_FactSourceCount run))) (\<lambda>_.
     bindE (liftS (BuildFactDocuments (ig_H lib) (ig_u lib) (builder_run run) facts)) (\<lambda>factDocuments.
     returnE (documents @ factDocuments)))))))"

definition ingest_steps :: "ingest_lib \<Rightarrow> ingest_env \<Rightarrow> IngestRun \<Rightarrow> IngestRun rm" where
  "ingest_steps lib env run =
     bindE ReconcileLifecycle (\<lambda>_.
     bindE (load_documents lib run) (\<lambda>documents.
     bindE (LinkReusableDocuments (in_RunID run) documents) (\<lambda>reused.
     bindE (save_documents env (in_RunID run) documents reused) (\<lambda>_.
     CompleteRun lib (in_RunID run)))))"

definition fail_run :: "string \<Rightarrow> go_error \<Rightarrow> 'a rm" where
  "fail_run runID cause = bindE (catchE (mark_run_failed runID cause)) (\<lambda>_. throwE cause)"

definition audited :: "ingest_lib \<Rightarrow> ingest_env \<Rightarrow> IngestRun \<Rightarrow> IngestRun \<Rightarrow> IngestRun rm" where
  "audited lib env run completed =
     bindE (repo_Audit lib env (in_RunID run)) (\<lambda>report.
     bindE (guardE (\<not> ar_Healthy report) (ErrorString (''completed ingestion run '' @ in_RunID run @ '' failed consistency audit''))) (\<lambda>_.
     returnE completed))"

definition request_error :: "IngestRequest \<Rightarrow> string option" where
  "request_error request =
     (if rq_RunID request = [] then Some ''run_id is required''
      else if rq_DatasetVersionID request \<le> 0 then Some ''dataset_version_id must be positive''
      else if rq_Mode request \<noteq> ''incremental'' \<and> rq_Mode request \<noteq> ''rebuild'' then Some ''mode must be incremental or rebuild''
      else None)"

definition Ingest :: "ingest_lib \<Rightarrow> ingest_env \<Rightarrow> IngestRequest \<Rightarrow> IngestRun rm" where
  "Ingest lib env input =
     (let request = input\<lparr>rq_RunID := TrimSpace (rq_RunID input), rq_Mode := TrimSpace (rq_Mode input)\<rparr> in
      case request_error request of
        Some msg \<Rightarrow> throwE (ErrorString msg)
      | None \<Rightarrow>
          bindE (BeginRun lib request) (\<lambda>run.
          if in_Status run = ''completed'' then returnE run
          else bindE (catchE (ingest_steps lib env run)) (\<lambda>r.
            case r of
              Inl cause \<Rightarrow> fail_run (rq_RunID request) cause
            | Inr completed \<Rightarrow> audited lib env run completed)))"

definition evidence_Reconcile :: "ReconcileResult rm" where
  "evidence_Reconcile = ReconcileLifecycle"

definition evidence_Audit :: "ingest_lib \<Rightarrow> ingest_env \<Rightarrow> string \<Rightarrow> AuditReport rm" where
  "evidence_Audit lib env input =
     (let runID = TrimSpace input in
      if runID = [] then throwE (ErrorString ''run_id is required'') else repo_Audit lib env runID)"

end
