(* ===== verification/Ingest_Sound.thy ===== *)
theory Ingest_Sound
  imports Ingest_Service Evidence_Props
begin

text \<open>
  The soundness of the evidence store, and that saving a document keeps it: every chunk is a slice of the text of its document under its hash, every citation lies
  within its chunk and carries the hash of the bytes it quotes, every chunk is cited, and a published document has all its chunks. The keys of rows are hashes; the hash is taken to be
  free of collisions, and to give texts without the separator of \<open>hashParts\<close> (it gives hexadecimal digits).
\<close>

definition collision_free :: "(string \<Rightarrow> string) \<Rightarrow> bool" where
  "collision_free H = (inj H \<and> (\<forall>x. CHR 0x1F \<notin> set (H x)))"

lemma separator_split:
  assumes "c \<notin> set a" "c \<notin> set b" "a @ c # x = b @ c # y"
  shows "a = b \<and> x = y"
  using assms
proof (induction a arbitrary: b)
  case Nil
  then show ?case by (cases b) auto
next
  case (Cons z a)
  then show ?case by (cases b) auto
qed

section \<open>The invariant\<close>

definition chunk_sound :: "(string \<Rightarrow> string) \<Rightarrow> document_row \<Rightarrow> chunk_row \<Rightarrow> bool" where
  "chunk_sound H d c =
     (0 \<le> ec_start_byte c \<and> ec_start_byte c < ec_end_byte c \<and> ec_end_byte c \<le> int (length (ed_canonical_text d)) \<and>
      byte_substring (ed_canonical_text d) (ec_start_byte c) (ec_end_byte c) = ec_content c \<and> H (ec_content c) = ec_content_hash c \<and>
      ec_chunk_key c \<in> range H)"

definition citation_sound :: "(string \<Rightarrow> string) \<Rightarrow> document_row \<Rightarrow> chunk_row \<Rightarrow> citation_row \<Rightarrow> bool" where
  "citation_sound H d c r =
     (ct_document_id r = ec_document_id c \<and> ec_start_byte c \<le> ct_document_start_byte r \<and> ct_document_start_byte r < ct_document_end_byte r \<and>
      ct_document_end_byte r \<le> ec_end_byte c \<and>
      utf8_Valid (byte_substring (ed_canonical_text d) (ct_document_start_byte r) (ct_document_end_byte r)) \<and>
      H (byte_substring (ed_canonical_text d) (ct_document_start_byte r) (ct_document_end_byte r)) = ct_quote_hash r \<and>
      (\<exists>rest. ct_citation_key r = H (ec_chunk_key c @ CHR 0x1F # rest)))"

definition published :: "document_row \<Rightarrow> bool" where
  "published d = (ed_lifecycle_status d \<noteq> ''building'' \<and> ed_lifecycle_status d \<noteq> ''failed'')"

text \<open>\<open>X\<close> holds the chunk whose citations are still being written.\<close>

definition evidence_sound :: "(string \<Rightarrow> string) \<Rightarrow> int set \<Rightarrow> (string \<Rightarrow> int) \<Rightarrow> evidence_tables \<Rightarrow> bool" where
  "evidence_sound H X q t =
     ((\<forall>x. 0 \<le> q x) \<and> serial_ok (q ''evidence_documents'') ed_id (evidence_documents t) \<and> distinct (map ed_document_key (evidence_documents t)) \<and>
      serial_ok (q ''evidence_chunks'') ec_id (evidence_chunks t) \<and> distinct (map ec_chunk_key (evidence_chunks t)) \<and>
      (\<forall>c\<in>set (evidence_chunks t). \<exists>d\<in>set (evidence_documents t). ed_id d = ec_document_id c \<and> chunk_sound H d c) \<and>
      (\<forall>r\<in>set (source_citations t). \<exists>c\<in>set (evidence_chunks t). \<exists>d\<in>set (evidence_documents t).
         ct_chunk_id r = ec_id c \<and> ed_id d = ec_document_id c \<and> citation_sound H d c r) \<and>
      (\<forall>c\<in>set (evidence_chunks t). ec_id c \<notin> X \<longrightarrow> (\<exists>r\<in>set (source_citations t). ct_chunk_id r = ec_id c)) \<and>
      (\<forall>d\<in>set (evidence_documents t). published d \<longrightarrow> int (length (chunks_of t (ed_id d))) = ed_expected_chunk_count d))"

lemma evidence_sound_cong:
  "evidence_documents t' = evidence_documents t \<Longrightarrow> evidence_chunks t' = evidence_chunks t \<Longrightarrow> source_citations t' = source_citations t \<Longrightarrow>
   evidence_sound H X q t' = evidence_sound H X q t"
  unfolding evidence_sound_def chunks_of_def by simp

lemma evidence_sound_mono: "evidence_sound H X q t \<Longrightarrow> (\<And>x. q x \<le> q' x) \<Longrightarrow> evidence_sound H X q' t"
  unfolding evidence_sound_def by (meson order_trans serial_ok_mono)

lemma evidence_sound_weaken: "evidence_sound H X q t \<Longrightarrow> X \<subseteq> Y \<Longrightarrow> evidence_sound H Y q t"
  unfolding evidence_sound_def by (intro conjI; blast)

lemma evidence_sound_close:
  assumes "evidence_sound H {i} q t" "x \<in> set (source_citations t)" "ct_chunk_id x = i"
  shows "evidence_sound H {} q t"
proof -
  have "\<exists>r\<in>set (source_citations t). ct_chunk_id r = ec_id c" if "c \<in> set (evidence_chunks t)" for c
    using assms that by (cases "ec_id c = i") (auto simp: evidence_sound_def)
  then show ?thesis using assms(1) by (simp add: evidence_sound_def)
qed

section \<open>Single rows\<close>

lemma doc_by_id_in: "doc_by_id t i = Some d \<Longrightarrow> d \<in> set (evidence_documents t) \<and> ed_id d = i"
  by (auto simp: doc_by_id_def find_Some_iff)

lemma insert_document_sound:
  assumes "evidence_sound H X q t" "q ''evidence_documents'' + 1 \<le> max_bigint" "insert_document d (q ''evidence_documents'' + 1) t = Inr (Some i, t')"
  shows "evidence_sound H X (q(''evidence_documents'' := q ''evidence_documents'' + 1)) t' \<and> i = q ''evidence_documents'' + 1 \<and>
    t' = t\<lparr>evidence_documents := evidence_documents t @ [document_row_of d i]\<rparr> \<and>
    (\<forall>c\<in>set (evidence_chunks t'). ec_document_id c \<noteq> i)"
proof -
  have i: "i = q ''evidence_documents'' + 1" and t': "t' = t\<lparr>evidence_documents := evidence_documents t @ [document_row_of d i]\<rparr>"
    and key: "doc_by_key t (DocumentKey d) = None"
    using assms(3) by (auto simp: insert_document_def split: if_splits)
  have new: "DocumentKey d \<notin> ed_document_key ` set (evidence_documents t)"
    using key by (force simp: doc_by_key_def find_None_iff)
  have b: "published (document_row_of d i) = False" by (simp add: published_def document_row_of_def)
  have no: "\<forall>c\<in>set (evidence_chunks t). ec_document_id c \<noteq> i"
  proof
    fix c
    assume "c \<in> set (evidence_chunks t)"
    then obtain e where "e \<in> set (evidence_documents t)" "ed_id e = ec_document_id c"
      using assms(1) by (force simp: evidence_sound_def)
    then have "ec_document_id c \<le> q ''evidence_documents''" using assms(1) by (force simp: evidence_sound_def serial_ok_def)
    with i show "ec_document_id c \<noteq> i" by simp
  qed
  have ser: "serial_ok (q ''evidence_documents'' + 1) ed_id (evidence_documents t')"
    unfolding t' using assms(1,2) i
    by (simp, intro serial_ok_snoc) (auto simp: evidence_sound_def document_row_of_def)
  have "distinct (map ed_document_key (evidence_documents t'))"
    using new assms(1) by (simp add: t' evidence_sound_def document_row_of_def)
  with ser assms(1) b have "evidence_sound H X (q(''evidence_documents'' := q ''evidence_documents'' + 1)) t'"
    unfolding evidence_sound_def by (auto simp: t' chunks_of_def; meson)
  with i t' no show ?thesis by simp
qed

lemma insert_chunk_sound:
  assumes "evidence_sound H {} q t" "q ''evidence_chunks'' + 1 \<le> max_bigint" "insert_chunk docID c (q ''evidence_chunks'' + 1) t = Inr (Some i, t')"
    and r: "r \<in> set (evidence_documents t)" "ed_id r = docID" "\<not> published r" "chunk_sound H r (chunk_row_of docID c i)"
  shows "evidence_sound H {i} (q(''evidence_chunks'' := q ''evidence_chunks'' + 1)) t' \<and>
    t' = t\<lparr>evidence_chunks := evidence_chunks t @ [chunk_row_of docID c i]\<rparr>"
proof -
  have i: "i = q ''evidence_chunks'' + 1" and t': "t' = t\<lparr>evidence_chunks := evidence_chunks t @ [chunk_row_of docID c i]\<rparr>"
    and key: "ChunkKey c \<notin> ec_chunk_key ` set (evidence_chunks t)"
    using assms(3) by (auto simp: insert_chunk_def exists_row_def list_ex_iff split: if_splits)
  have sd: "distinct (map ed_id (evidence_documents t))" using assms(1) by (simp add: evidence_sound_def serial_ok_def)
  have ser: "serial_ok (q ''evidence_chunks'' + 1) ec_id (evidence_chunks t')"
    unfolding t' using assms(1,2) i
    by (simp, intro serial_ok_snoc) (auto simp: evidence_sound_def chunk_row_of_def)
  have keys: "distinct (map ec_chunk_key (evidence_chunks t'))"
    using key assms(1) by (simp add: t' evidence_sound_def chunk_row_of_def)
  have counts: "int (length (chunks_of t' (ed_id d))) = ed_expected_chunk_count d"
    if "d \<in> set (evidence_documents t)" "published d" for d
  proof -
    have "ed_id d \<noteq> docID" using that r sd by (metis eq_key_imp_eq_value inj_on_eq_iff distinct_map)
    then have "chunks_of t' (ed_id d) = chunks_of t (ed_id d)" by (simp add: t' chunks_of_def chunk_row_of_def)
    with that assms(1) show ?thesis by (simp add: evidence_sound_def)
  qed
  have "evidence_sound H {i} (q(''evidence_chunks'' := q ''evidence_chunks'' + 1)) t'"
    unfolding evidence_sound_def
  proof (intro conjI)
    show "\<forall>d\<in>set (evidence_documents t'). published d \<longrightarrow> int (length (chunks_of t' (ed_id d))) = ed_expected_chunk_count d"
      using counts by (simp add: t')
    show "\<forall>c\<in>set (evidence_chunks t'). \<exists>d\<in>set (evidence_documents t'). ed_id d = ec_document_id c \<and> chunk_sound H d c"
      using assms(1) r by (auto simp: t' evidence_sound_def chunk_row_of_def)
    show "\<forall>r\<in>set (source_citations t'). \<exists>c\<in>set (evidence_chunks t'). \<exists>d\<in>set (evidence_documents t').
        ct_chunk_id r = ec_id c \<and> ed_id d = ec_document_id c \<and> citation_sound H d c r"
      using assms(1) by (auto simp: t' evidence_sound_def; meson)
    show "\<forall>c\<in>set (evidence_chunks t'). ec_id c \<notin> {i} \<longrightarrow> (\<exists>r\<in>set (source_citations t'). ct_chunk_id r = ec_id c)"
      using assms(1) by (auto simp: t' evidence_sound_def chunk_row_of_def)
  qed (use assms(1) ser keys in \<open>auto simp: t' evidence_sound_def\<close>)
  with t' show ?thesis by simp
qed

lemma insert_citation_sound:
  assumes H: "collision_free H" and sound: "evidence_sound H X q t" and ins: "insert_citation d docID chunkID c i t = Inr (u, t')"
    and row: "k \<in> set (evidence_chunks t)" "ec_id k = chunkID" "r \<in> set (evidence_documents t)" "ed_id r = ec_document_id k" "ec_document_id k = docID"
    and fits: "citation_sound H r k (citation_row_of d docID chunkID c i)"
  shows "evidence_sound H X q t' \<and> (\<exists>cites. t' = t\<lparr>source_citations := cites\<rparr>) \<and>
    (\<exists>x\<in>set (source_citations t'). ct_chunk_id x = chunkID)"
proof (cases "exists_row (\<lambda>x. ct_citation_key x = CitationKey c) (source_citations t)")
  case True
  then have t': "t' = t" using ins by (auto simp: insert_citation_def split: if_splits)
  obtain x where x: "x \<in> set (source_citations t)" "ct_citation_key x = CitationKey c" using True by (auto simp: exists_row_def list_ex_iff)
  obtain k' e where k': "k' \<in> set (evidence_chunks t)" "ct_chunk_id x = ec_id k'" "citation_sound H e k' x"
    using sound x(1) by (auto simp: evidence_sound_def)
  obtain y where y: "CitationKey c = H (ec_chunk_key k' @ CHR 0x1F # y)" using k'(3) x(2) by (auto simp: citation_sound_def)
  obtain z where z: "CitationKey c = H (ec_chunk_key k @ CHR 0x1F # z)" using fits by (auto simp: citation_sound_def citation_row_of_def)
  from y z have "ec_chunk_key k' @ CHR 0x1F # y = ec_chunk_key k @ CHR 0x1F # z" using H by (simp add: collision_free_def inj_eq)
  moreover have "CHR 0x1F \<notin> set (ec_chunk_key l)" if "l \<in> set (evidence_chunks t)" for l
    using H sound that by (auto simp: collision_free_def evidence_sound_def chunk_sound_def)
  ultimately have "ec_chunk_key k' = ec_chunk_key k" using separator_split k'(1) row(1) by metis
  then have "k' = k" using sound k'(1) row(1) by (auto simp: evidence_sound_def distinct_map inj_on_def)
  with x k'(2) row(2) sound show ?thesis unfolding t' by (auto intro: exI [of _ "source_citations t"])
next
  case False
  then have t': "t' = t\<lparr>source_citations := source_citations t @ [citation_row_of d docID chunkID c i]\<rparr>"
    using ins by (auto simp: insert_citation_def split: if_splits)
  have "evidence_sound H X q t'"
    unfolding evidence_sound_def
  proof (intro conjI)
    show "\<forall>x\<in>set (source_citations t'). \<exists>c\<in>set (evidence_chunks t'). \<exists>d\<in>set (evidence_documents t').
        ct_chunk_id x = ec_id c \<and> ed_id d = ec_document_id c \<and> citation_sound H d c x"
    proof
      fix x
      assume "x \<in> set (source_citations t')"
      then consider "x \<in> set (source_citations t)" | "x = citation_row_of d docID chunkID c i" by (auto simp: t')
      then show "\<exists>c\<in>set (evidence_chunks t'). \<exists>d\<in>set (evidence_documents t').
        ct_chunk_id x = ec_id c \<and> ed_id d = ec_document_id c \<and> citation_sound H d c x"
      proof cases
        case 1
        then show ?thesis using sound by (simp add: t' evidence_sound_def)
      next
        case 2
        have "ct_chunk_id x = ec_id k" by (simp add: 2 citation_row_of_def row(2))
        then show ?thesis using row fits 2 by (intro bexI [of _ k] bexI [of _ r]) (auto simp: t')
      qed
    qed
    show "\<forall>c\<in>set (evidence_chunks t'). ec_id c \<notin> X \<longrightarrow> (\<exists>r\<in>set (source_citations t'). ct_chunk_id r = ec_id c)"
      using sound by (auto simp: t' evidence_sound_def)
  qed (use sound in \<open>auto simp: t' evidence_sound_def chunks_of_def\<close>)
  then show ?thesis by (auto simp: t' citation_row_of_def)
qed

text \<open>Changes of the life cycle keep everything a document's children are checked against.\<close>

definition same_document :: "document_row \<Rightarrow> document_row \<Rightarrow> bool" where
  "same_document d e = (\<exists>status deleted. e = d\<lparr>ed_lifecycle_status := status, ed_deleted_at := deleted\<rparr>)"

lemma same_documentD:
  "same_document d e \<Longrightarrow> ed_id e = ed_id d \<and> ed_document_key e = ed_document_key d \<and> ed_canonical_text e = ed_canonical_text d \<and>
     ed_expected_chunk_count e = ed_expected_chunk_count d \<and> chunk_sound H e c = chunk_sound H d c \<and> citation_sound H e c r = citation_sound H d c r"
  by (auto simp: same_document_def chunk_sound_def citation_sound_def)

lemma same_document_simps [simp]:
  "same_document d d" "same_document d (retire status now d)" "same_document d (d\<lparr>ed_lifecycle_status := st, ed_deleted_at := del\<rparr>)"
proof -
  have "d = d\<lparr>ed_lifecycle_status := ed_lifecycle_status d, ed_deleted_at := ed_deleted_at d\<rparr>" by simp
  then show "same_document d d" unfolding same_document_def by metis
qed (auto simp: same_document_def retire_def)

lemma update_documents_sound:
  assumes "evidence_sound H X q t" and f: "\<And>d. same_document d (f d)"
    and count: "\<And>d. d \<in> set (evidence_documents t) \<Longrightarrow> P d \<Longrightarrow> published (f d) \<Longrightarrow> int (length (chunks_of t (ed_id d))) = ed_expected_chunk_count d"
  shows "evidence_sound H X q (t\<lparr>evidence_documents := update_where P f (evidence_documents t)\<rparr>)"
proof -
  let ?t = "t\<lparr>evidence_documents := update_where P f (evidence_documents t)\<rparr>"
  note same = same_documentD [OF f]
  have old: "\<exists>e\<in>set (evidence_documents ?t). ed_id e = ed_id d \<and> (\<forall>c. chunk_sound H e c = chunk_sound H d c) \<and>
      (\<forall>c r. citation_sound H e c r = citation_sound H d c r)" if "d \<in> set (evidence_documents t)" for d
    using that same [of d] by (intro bexI [of _ "if P d then f d else d"]) (auto simp: update_where_def)
  show ?thesis
    unfolding evidence_sound_def
  proof (intro conjI)
    show "\<forall>d\<in>set (evidence_documents ?t). published d \<longrightarrow> int (length (chunks_of ?t (ed_id d))) = ed_expected_chunk_count d"
      using assms(1) count same by (auto simp: update_where_def chunks_of_def evidence_sound_def)
    show "\<forall>c\<in>set (evidence_chunks ?t). \<exists>d\<in>set (evidence_documents ?t). ed_id d = ec_document_id c \<and> chunk_sound H d c"
      using assms(1) old unfolding evidence_sound_def by simp metis
    show "\<forall>r\<in>set (source_citations ?t). \<exists>c\<in>set (evidence_chunks ?t). \<exists>d\<in>set (evidence_documents ?t).
        ct_chunk_id r = ec_id c \<and> ed_id d = ec_document_id c \<and> citation_sound H d c r"
      using assms(1) old unfolding evidence_sound_def by simp metis
  qed (use assms(1) same in \<open>simp_all add: evidence_sound_def\<close>)
qed

section \<open>Running statements\<close>

lemma ev_select_Inr: "ev_select f s = (Inr x, s') \<longleftrightarrow> stmt_ok s \<and> x = f (evid (tables s)) \<and> s' = stmt_next s"
  by (simp add: ev_select_def selectE_Inr)

lemma ev_row_Inr: "ev_row f s = (Inr x, s') \<longleftrightarrow> stmt_ok s \<and> f (evid (tables s)) = Some x \<and> s' = stmt_next s"
  by (simp add: ev_row_def query_row_Inr)

lemma ev_exec_Inr:
  "ev_exec f s = (Inr x, s') \<longleftrightarrow>
   stmt_ok s \<and> (\<exists>e. f (db_now s) (evid (tables s)) = Inr (x, e) \<and> s' = (stmt_next s)\<lparr>tables := (tables s)\<lparr>evid := e\<rparr>\<rparr>)"
  by (auto simp: ev_exec_def execE_Inr split: sum.splits)

lemma ev_serial_Inr:
  "ev_serial sq f s = (Inr x, s') \<longleftrightarrow>
   stmt_ok s \<and> seqs s sq + 1 \<le> max_bigint \<and> (\<exists>e. f (seqs s sq + 1) (evid (tables s)) = Inr (x, e) \<and>
     s' = (stmt_next s)\<lparr>seqs := (seqs s)(sq := seqs s sq + 1), tables := (tables s)\<lparr>evid := e\<rparr>\<rparr>)"
  by (auto simp: ev_serial_def insert_serial_Inr split: sum.splits)

lemmas ev_Inr = bindE_Inr ev_select_Inr ev_row_Inr ev_exec_Inr ev_serial_Inr

lemma save_citations_sound:
  assumes H: "collision_free H"
    and "save_citations d docID chunkID cs s = (Inr u, s')" "evidence_sound H {chunkID} (seqs s) (evid (tables s))"
    and "k \<in> set (evidence_chunks (evid (tables s)))" "ec_id k = chunkID" "ec_document_id k = docID"
    and "r \<in> set (evidence_documents (evid (tables s)))" "ed_id r = docID"
    and "\<forall>c\<in>set cs. \<forall>i. citation_sound H r k (citation_row_of d docID chunkID c i)"
    and "cs \<noteq> [] \<or> (\<exists>x\<in>set (source_citations (evid (tables s))). ct_chunk_id x = chunkID)"
  shows "evidence_sound H {} (seqs s') (evid (tables s')) \<and>
    (\<exists>cites. evid (tables s') = (evid (tables s))\<lparr>source_citations := cites\<rparr>)"
  using assms(2-)
proof (induction cs arbitrary: s)
  case Nil
  have "evidence_sound H {} (seqs s) (evid (tables s))" using evidence_sound_close [OF Nil.prems(2)] Nil.prems(9) by blast
  then show ?case using Nil.prems(1) by (auto intro: exI [of _ "source_citations (evid (tables s))"])
next
  case (Cons c cs)
  let ?i = "seqs s ''source_citations'' + 1"
  obtain s1 where ins: "ev_serial ''source_citations'' (insert_citation d docID chunkID c) s = (Inr (), s1)"
    and rest: "save_citations d docID chunkID cs s1 = (Inr u, s')"
    using Cons.prems(1) by (auto simp: bindE_Inr)
  obtain e where e: "insert_citation d docID chunkID c ?i (evid (tables s)) = Inr ((), e)"
    and s1: "evid (tables s1) = e" "seqs s1 = (seqs s)(''source_citations'' := ?i)"
    using ins by (auto simp: ev_serial_Inr)
  have fits: "citation_sound H r k (citation_row_of d docID chunkID c ?i)" using Cons.prems(8) by simp
  have row: "ed_id r = ec_document_id k" using Cons.prems by simp
  from insert_citation_sound [OF H Cons.prems(2) e Cons.prems(3,4,6) row Cons.prems(5) fits]
  obtain cites where t: "evidence_sound H {chunkID} (seqs s) e" "e = (evid (tables s))\<lparr>source_citations := cites\<rparr>"
    "\<exists>x\<in>set (source_citations e). ct_chunk_id x = chunkID" by blast
  have "evidence_sound H {chunkID} (seqs s1) (evid (tables s1))"
    unfolding s1 by (rule evidence_sound_mono [OF t(1)]) simp
  from Cons.IH [OF rest this] Cons.prems t s1(1) show ?case by auto
qed

section \<open>What a built document brings\<close>

definition citation_fits :: "(string \<Rightarrow> string) \<Rightarrow> string \<Rightarrow> ChunkInput \<Rightarrow> CitationInput \<Rightarrow> bool" where
  "citation_fits H tx k c =
     (StartByte (chunk_range k) \<le> DocumentStartByte c \<and> DocumentStartByte c < DocumentEndByte c \<and> DocumentEndByte c \<le> EndByte (chunk_range k) \<and>
      utf8_Valid (slice tx (DocumentStartByte c) (DocumentEndByte c)) \<and> QuoteHash c = H (slice tx (DocumentStartByte c) (DocumentEndByte c)) \<and>
      (\<exists>rest. CitationKey c = H (ChunkKey k @ CHR 0x1F # rest)))"

definition chunk_fits :: "(string \<Rightarrow> string) \<Rightarrow> string \<Rightarrow> ChunkInput \<Rightarrow> bool" where
  "chunk_fits H tx k =
     (StartByte (chunk_range k) < EndByte (chunk_range k) \<and> EndByte (chunk_range k) \<le> length tx \<and>
      Content (chunk_range k) = slice tx (StartByte (chunk_range k)) (EndByte (chunk_range k)) \<and>
      chunk_ContentHash k = H (Content (chunk_range k)) \<and> ChunkKey k \<in> range H \<and> Citations k \<noteq> [] \<and> (\<forall>c\<in>set (Citations k). citation_fits H tx k c))"

definition document_fits :: "(string \<Rightarrow> string) \<Rightarrow> DocumentInput \<Rightarrow> bool" where
  "document_fits H d = ((\<forall>k\<in>set (Chunks d). chunk_fits H (doc_CanonicalText d) k) \<and> distinct (map ChunkKey (Chunks d)))"

lemma byte_substring_int: "byte_substring tx (int i) (int j) = slice tx i j"
proof -
  have "nat (int j - int i) = j - i" by arith
  then show ?thesis by (simp add: byte_substring_def slice_def)
qed

lemma chunk_fits_sound:
  "chunk_fits H (ed_canonical_text r) k \<Longrightarrow> chunk_sound H r (chunk_row_of docID k i)"
  by (auto simp: chunk_fits_def chunk_sound_def chunk_row_of_def byte_substring_int)

lemma citation_fits_sound:
  "citation_fits H (ed_canonical_text r) k c \<Longrightarrow> citation_sound H r (chunk_row_of docID k j) (citation_row_of d docID chunkID c i)"
  by (auto simp: citation_fits_def citation_sound_def chunk_row_of_def citation_row_of_def byte_substring_int)

lemma chunk_keys_distinct:
  assumes H: "collision_free H" and idx: "map ChunkIndex ks = [0..<length ks]"
    and key: "\<forall>k\<in>set ks. \<exists>rest. ChunkKey k = H (dk @ CHR 0x1F # format_nat (ChunkIndex k) @ CHR 0x1F # rest)"
  shows "distinct (map ChunkKey ks)"
proof -
  have no: "CHR 0x1F \<notin> set (format_nat n)" for n using format_nat_digits [of n] by (auto simp: is_digit_def byte_def)
  have "ChunkIndex a = ChunkIndex b" if ab: "a \<in> set ks" "b \<in> set ks" "ChunkKey a = ChunkKey b" for a b
  proof -
    obtain x where x: "ChunkKey a = H (dk @ CHR 0x1F # format_nat (ChunkIndex a) @ CHR 0x1F # x)" using key ab(1) by blast
    obtain y where y: "ChunkKey b = H (dk @ CHR 0x1F # format_nat (ChunkIndex b) @ CHR 0x1F # y)" using key ab(2) by blast
    from x y ab(3) H have "format_nat (ChunkIndex a) @ CHR 0x1F # x = format_nat (ChunkIndex b) @ CHR 0x1F # y"
      by (simp add: collision_free_def inj_eq)
    with separator_split [OF no no] have "format_nat (ChunkIndex a) = format_nat (ChunkIndex b)" by blast
    from arg_cong [OF this, of "parse_digits 0"] show ?thesis unfolding parse_format_nat by (rule option.inject [THEN iffD1])
  qed
  moreover have "distinct (map ChunkIndex ks)" unfolding idx by (rule distinct_upt)
  ultimately show ?thesis unfolding distinct_map inj_on_def by blast
qed

lemma document_exact_fits:
  assumes H: "collision_free H" and d: "document_exact H d"
  shows "document_fits H d"
proof -
  have "chunk_fits H (doc_CanonicalText d) k" if k: "k \<in> set (Chunks d)" for k
  proof -
    have "chunk_range k \<in> set (map chunk_range (Chunks d))" using k by simp
    from chunk_chain_all [OF _ this] d
    have r: "chunk_range k = mk_range (doc_CanonicalText d) (StartByte (chunk_range k)) (EndByte (chunk_range k))"
      "rune_boundary (doc_CanonicalText d) (EndByte (chunk_range k))" "StartByte (chunk_range k) < EndByte (chunk_range k)"
      by (auto simp: document_exact_def)
    have "Content (chunk_range k) = slice (doc_CanonicalText d) (StartByte (chunk_range k)) (EndByte (chunk_range k))"
      using r(1) by (metis mk_range_simps(3))
    moreover have "chunk_exact H (doc_CanonicalText d) (Sources d) k" "ChunkKey k \<in> range H"
      using d k by (auto simp: document_exact_def)
    ultimately show ?thesis
      using r(3) rune_boundary_le [OF r(2)] by (auto simp: chunk_fits_def chunk_exact_def citation_fits_def citation_exact_def hashParts_def)
  qed
  moreover have "distinct (map ChunkKey (Chunks d))"
    using d by (intro chunk_keys_distinct [OF H]) (auto simp: document_exact_def)
  ultimately show ?thesis by (simp add: document_fits_def)
qed

section \<open>Saving\<close>

lemma save_chunk_Inr:
  assumes "save_chunk docID c s = (Inr i, s')" "\<forall>k\<in>set (evidence_chunks (evid (tables s))). ec_document_id k = docID \<longrightarrow> ec_chunk_key k \<noteq> ChunkKey c"
  shows "seqs s ''evidence_chunks'' + 1 \<le> max_bigint \<and>
    insert_chunk docID c (seqs s ''evidence_chunks'' + 1) (evid (tables s)) = Inr (Some i, evid (tables s')) \<and>
    seqs s' = (seqs s)(''evidence_chunks'' := seqs s ''evidence_chunks'' + 1)"
proof -
  obtain x s1 where x: "ev_serial ''evidence_chunks'' (insert_chunk docID c) s = (Inr x, s1)"
    and rest: "(case x of Some chunkID \<Rightarrow> returnE chunkID
      | None \<Rightarrow> mapErr (WrapError ''load existing evidence chunk'') (ev_row (chunk_id_of docID c))) s1 = (Inr i, s')"
    using assms(1) by (auto simp: save_chunk_def bindE_Inr)
  show ?thesis
  proof (cases x)
    case None
    then have "evid (tables s1) = evid (tables s)"
      using x by (auto simp: ev_serial_Inr insert_chunk_def split: if_splits)
    moreover have "chunk_id_of docID c (evid (tables s)) = None"
      using assms(2) by (auto simp: chunk_id_of_def find_None_iff)
    ultimately show ?thesis using rest None by (simp add: ev_row_Inr)
  next
    case (Some j)
    then show ?thesis using x rest by (auto simp: ev_serial_Inr)
  qed
qed

lemma save_chunks_sound:
  assumes H: "collision_free H"
    and "save_chunks d docID cs s = (Inr u, s')" "evidence_sound H {} (seqs s) (evid (tables s))"
    and "r \<in> set (evidence_documents (evid (tables s)))" "ed_id r = docID" "\<not> published r"
    and "\<forall>c\<in>set cs. chunk_fits H (ed_canonical_text r) c" "distinct (map ChunkKey cs)"
    and "\<forall>k\<in>set (evidence_chunks (evid (tables s))). ec_document_id k = docID \<longrightarrow> ec_chunk_key k \<notin> ChunkKey ` set cs"
  shows "evidence_sound H {} (seqs s') (evid (tables s')) \<and>
    (\<exists>chunks cites. evid (tables s') = (evid (tables s))\<lparr>evidence_chunks := chunks, source_citations := cites\<rparr>)"
  using assms(2-)
proof (induction cs arbitrary: s)
  case Nil
  have "evid (tables s) = (evid (tables s))\<lparr>evidence_chunks := evidence_chunks (evid (tables s)), source_citations := source_citations (evid (tables s))\<rparr>"
    by simp
  then show ?case using Nil.prems(1,2) by (metis prod.inject returnE_run save_chunks.simps(1))
next
  case (Cons c cs)
  let ?t = "evid (tables s)"
  obtain i s1 s2 where one: "save_chunk docID c s = (Inr i, s1)"
    and cit: "save_citations d docID i (Citations c) s1 = (Inr (), s2)" and rest: "save_chunks d docID cs s2 = (Inr u, s')"
    using Cons.prems(1) by (auto simp: bindE_Inr)
  have "seqs s ''evidence_chunks'' + 1 \<le> max_bigint" and ins: "insert_chunk docID c (seqs s ''evidence_chunks'' + 1) ?t = Inr (Some i, evid (tables s1))"
    and q1: "seqs s1 = (seqs s)(''evidence_chunks'' := seqs s ''evidence_chunks'' + 1)"
    using save_chunk_Inr [OF one] Cons.prems(8) by auto
  from insert_chunk_sound [OF Cons.prems(2) this(1,2) Cons.prems(3,4,5) chunk_fits_sound]
  have snd1: "evidence_sound H {i} (seqs s1) (evid (tables s1))"
    and t1: "evid (tables s1) = ?t\<lparr>evidence_chunks := evidence_chunks ?t @ [chunk_row_of docID c i]\<rparr>"
    using Cons.prems(6) q1 by auto
  have fits: "\<forall>x\<in>set (Citations c). \<forall>j. citation_sound H r (chunk_row_of docID c i) (citation_row_of d docID i x j)"
    and ne: "Citations c \<noteq> []"
    using Cons.prems(6) citation_fits_sound by (auto simp: chunk_fits_def)
  have "evidence_sound H {} (seqs s2) (evid (tables s2)) \<and> (\<exists>cites. evid (tables s2) = (evid (tables s1))\<lparr>source_citations := cites\<rparr>)"
    by (rule save_citations_sound [OF H cit snd1, of "chunk_row_of docID c i" r])
      (use Cons.prems fits ne in \<open>auto simp: t1 chunk_row_of_def\<close>)
  then obtain cites where snd2: "evidence_sound H {} (seqs s2) (evid (tables s2))"
    and t2: "evid (tables s2) = ?t\<lparr>evidence_chunks := evidence_chunks ?t @ [chunk_row_of docID c i], source_citations := cites\<rparr>"
    using t1 by auto
  have "evidence_sound H {} (seqs s') (evid (tables s')) \<and>
    (\<exists>chunks cites. evid (tables s') = (evid (tables s2))\<lparr>evidence_chunks := chunks, source_citations := cites\<rparr>)"
    by (rule Cons.IH [OF rest snd2]) (use Cons.prems in \<open>auto simp: t2 chunk_row_of_def\<close>)
  with t2 show ?case by auto
qed

end
