(* ===== verification/Ingest_Props.thy ===== *)
theory Ingest_Props
  imports Ingest_Sound Db_Relation
begin

text \<open>
  The ingestion job as a whole. Under every fault script and every outcome it keeps the soundness of the evidence store; a healthy audit means exactly what its queries
  are there for; completed runs and stored evidence never change; reconciliation leaves no published document of a withdrawn source.
\<close>

named_theorems ingest_grows \<open>ingestion programs under which sequences only advance\<close>

section \<open>What the job may assume of its inputs\<close>

text \<open>
  The captured payloads: texts are valid UTF-8 (the encoding of the database), keys are 64 bit integers, and the payloads hold what the capture triggers write into them.
\<close>

definition inputs_ok :: "evidence_tables \<Rightarrow> bool" where
  "inputs_ok t =
     ((\<forall>s\<in>set (dataset_version_sources t). \<forall>p\<in>set (evidence_source_payloads t).
         sp_evidence_source_id p = dvs_evidence_source_id s \<longrightarrow> source_ok (source_input s p)) \<and>
      (\<forall>p\<in>set (daily_fact_payloads t). fact_ok (fact_input p)))"

definition ingest_inv :: "(string \<Rightarrow> string) \<Rightarrow> (string \<Rightarrow> int) \<Rightarrow> rag_store \<Rightarrow> bool" where
  "ingest_inv H q t = (evidence_sound H {} q (evid t) \<and> inputs_ok (evid t))"

interpretation ingesting: db_invariant "ingest_inv H" for H
  by unfold_locales (auto simp: ingest_inv_def intro: evidence_sound_mono)

text \<open>Statements that leave documents, their children and the inputs alone.\<close>

definition same_content :: "evidence_tables \<Rightarrow> evidence_tables \<Rightarrow> bool" where
  "same_content t e =
     (evidence_documents e = evidence_documents t \<and> evidence_chunks e = evidence_chunks t \<and> source_citations e = source_citations t \<and>
      dataset_version_sources e = dataset_version_sources t \<and> evidence_source_payloads e = evidence_source_payloads t \<and>
      daily_fact_payloads e = daily_fact_payloads t)"

lemma same_content_inv: "ingest_inv H q t \<Longrightarrow> same_content (evid t) e \<Longrightarrow> ingest_inv H q (t\<lparr>evid := e\<rparr>)"
  by (simp add: ingest_inv_def inputs_ok_def same_content_def evidence_sound_cong [of e "evid t"])

lemma same_content_sound: "same_content t e \<Longrightarrow> evidence_sound H X q e = evidence_sound H X q t"
  unfolding same_content_def by (intro evidence_sound_cong) auto

lemma content_statements:
  "update_runs P f t = Inr e \<Longrightarrow> same_content t e"
  "link_documents runID ids disp t = Inr (u, e) \<Longrightarrow> same_content t e"
  "insert_run_row run now t = Inr (x, e) \<Longrightarrow> same_content t e"
  "snapshot_facts runID Q t = Inr (u, e) \<Longrightarrow> same_content t e"
  "complete_update runID checksum now t = Inr (r, e) \<Longrightarrow> same_content t e"
  "insert_source docID n src t = Inr (u, e) \<Longrightarrow> same_content t e"
  by (auto simp: update_runs_def link_documents_def insert_run_row_def snapshot_facts_def complete_update_def insert_source_def same_content_def
      split: if_splits option.splits sum.splits)

lemma index_sources_content [simp]: "same_content t (index_sources runID t)"
  by (simp add: index_sources_def same_content_def)

lemma content_map_sum: "map_sum id (Pair ()) r = Inr (u, e) \<Longrightarrow> r = Inr e"
  by (cases r) auto

section \<open>Sequences advance\<close>

lemma ev_grows [ingest_grows]:
  "seq_grows (ev_select f)" "seq_grows (ev_row g)" "seq_grows (ev_exec h)" "seq_grows (ev_serial sq k)" "seq_grows (guardE b err :: unit rm)"
  unfolding ev_select_def ev_row_def ev_exec_def ev_serial_def guardE_def by (auto intro: grows_intros)

declare seq_grows_option [ingest_grows]

lemma seq_grows_sum [ingest_grows]:
  "(\<And>x. seq_grows (f x)) \<Longrightarrow> (\<And>x. seq_grows (g x)) \<Longrightarrow> seq_grows (case z of Inl x \<Rightarrow> f x | Inr x \<Rightarrow> g x)"
  by (cases z) auto

lemma save_loops_grow [ingest_grows]:
  "seq_grows (save_sources docID n srcs)" "seq_grows (save_citations d docID chunkID cs)" "seq_grows (save_chunks d docID ks)"
proof -
  show "seq_grows (save_sources docID n srcs)" 
    by (induction srcs arbitrary: n; simp only: save_sources.simps) (rule grows_intros ingest_grows | assumption)+
  show c: "seq_grows (save_citations d docID chunkID cs)" for chunkID cs 
    by (induction cs; simp only: save_citations.simps) (rule grows_intros ingest_grows | assumption)+
  show "seq_grows (save_chunks d docID ks)"

    by (induction ks; simp only: save_chunks.simps save_chunk_def) (rule grows_intros ingest_grows c | assumption)+
qed

lemma SaveDocument_body_grows [ingest_grows]: "seq_grows (SaveDocument_body runID d)"
  unfolding SaveDocument_body_def reuse_document_def place_document_def publish_document_def update_documents_def
  by (intro grows_intros ingest_grows)

lemma run_bodies_grow [ingest_grows]:
  "seq_grows (BeginRun_body lib request)" "seq_grows (CompleteRun_body lib runID)" "seq_grows (link_batch runID batch)"
  unfolding BeginRun_body_def getRun_def resume_run_def create_run_def factInputChecksum_def CompleteRun_body_def outputChecksum_def completed_before_def
    link_batch_def Let_def
  by (intro grows_intros ingest_grows)+

section \<open>Saving a document keeps the store sound\<close>

lemma save_sources_frame:
  "save_sources docID n srcs s = (Inr u, s') \<Longrightarrow> same_content (evid (tables s)) (evid (tables s')) \<and> seqs s' = seqs s"
proof (induction srcs arbitrary: n s)
  case (Cons a srcs)
  obtain s1 where s1: "ev_exec (\<lambda>_. insert_source docID n a) s = (Inr (), s1)" and rest: "save_sources docID (Suc n) srcs s1 = (Inr u, s')"
    using Cons.prems by (auto simp: bindE_Inr)
  have "same_content (evid (tables s)) (evid (tables s1))" "seqs s1 = seqs s"
    using s1 content_statements(6) by (auto simp: ev_exec_Inr)
  with Cons.IH [OF rest] show ?case by (auto simp: same_content_def)
qed (auto simp: same_content_def)

lemma place_document_Inr:
  assumes "place_document d s = (Inr (i, created), s')" "existing_document (DocumentKey d) (evid (tables s)) = None"
  shows "created \<and> seqs s ''evidence_documents'' + 1 \<le> max_bigint \<and>
    insert_document d (seqs s ''evidence_documents'' + 1) (evid (tables s)) = Inr (Some i, evid (tables s')) \<and>
    seqs s' = (seqs s)(''evidence_documents'' := seqs s ''evidence_documents'' + 1)"
proof -
  obtain x s1 where x: "ev_serial ''evidence_documents'' (insert_document d) s = (Inr x, s1)"
    and rest: "(case x of Some documentID \<Rightarrow> returnE (documentID, True)
     | None \<Rightarrow> bindE (mapErr (WrapError ''load existing evidence document'') (ev_row (\<lambda>t. map_option ed_id (doc_by_key t (DocumentKey d))))) (\<lambda>documentID.
         returnE (documentID, False))) s1 = (Inr (i, created), s')"
    using assms(1) by (auto simp: place_document_def bindE_Inr)
  have "doc_by_key (evid (tables s)) (DocumentKey d) = None" using assms(2) by (simp add: existing_document_def)
  then obtain j where "x = Some j"
    using x by (auto simp: ev_serial_Inr insert_document_def split: if_splits)
  then show ?thesis using x rest by (auto simp: ev_serial_Inr)
qed

lemma child_counts_sound: "evidence_sound H X q t \<Longrightarrow> fst (child_counts docID t) = int (length (chunks_of t docID))"
proof -
  assume "evidence_sound H X q t"
  then have "distinct (map ec_id (evidence_chunks t))" by (simp add: evidence_sound_def serial_ok_def)
  then have "distinct (map ec_id (chunks_of t docID))" unfolding chunks_of_def by (rule distinct_map_filter)
  then show ?thesis by (simp add: child_counts_def distinct_remdups_id)
qed

lemma publish_document_sound:
  assumes run: "publish_document runID d docID created s = (Inr z, s')" and inv: "ingest_inv H (seqs s) (tables s)"
    and r: "\<And>x. x \<in> set (evidence_documents (evid (tables s))) \<Longrightarrow> ed_id x = docID \<Longrightarrow> ed_expected_chunk_count x = int (length (Chunks d))"
  shows "ingest_inv H (seqs s') (tables s')"
proof -
  let ?t = "evid (tables s)"
  let ?P = "\<lambda>x. ed_id x = docID \<and> (ed_lifecycle_status x = ''building'' \<or> ed_lifecycle_status x = ''failed'')"
  let ?f = "\<lambda>x :: document_row. x\<lparr>ed_lifecycle_status := ''ready'', ed_deleted_at := None\<rparr>"
  let ?u = "?t\<lparr>evidence_documents := update_where ?P ?f (evidence_documents ?t)\<rparr>"
  let ?Q = "\<lambda>x. ed_project_id x = doc_ProjectID d \<and> ed_source_type x = doc_SourceType d \<and> ed_source_key x = SourceKey d \<and>
          ed_id x \<noteq> docID \<and> ed_lifecycle_status x = ''ready''"
  obtain e now where n: "fst (child_counts docID ?t) = int (length (Chunks d))"
    and e: "link_documents runID [docID] (if created then ''created'' else ''reused'') ?u = Inr ((), e)"
    and t': "evid (tables s') = e\<lparr>evidence_documents := update_where ?Q (retire ''superseded'' now) (evidence_documents e)\<rparr>" and q: "seqs s' = seqs s"
    using run by (auto simp: publish_document_def update_documents_def guardE_def ev_Inr split: prod.splits if_splits)
  have snd: "evidence_sound H {} (seqs s) ?t" and inp: "inputs_ok ?t" using inv by (auto simp: ingest_inv_def)
  have "evidence_sound H {} (seqs s) ?u"
    by (rule update_documents_sound [OF snd]) (use child_counts_sound [OF snd, of docID] n r in auto)
  then have se: "evidence_sound H {} (seqs s) e"
    by (rule iffD2 [OF same_content_sound [OF content_statements(2) [OF e]]])
  have "evidence_sound H {} (seqs s) (evid (tables s'))"
    unfolding t' by (rule update_documents_sound [OF se]) (use se in \<open>auto simp: evidence_sound_def published_def\<close>)
  moreover have "inputs_ok (evid (tables s'))" using inp content_statements(2) [OF e] by (simp add: t' inputs_ok_def same_content_def)
  ultimately show ?thesis by (simp add: ingest_inv_def q)
qed

lemma SaveDocument_body_sound:
  assumes H: "collision_free H" and fits: "document_fits H d"
  shows "keeps_ok (ingest_inv H) (SaveDocument_body runID d)"
  unfolding keeps_ok_def
proof (intro allI impI)
  fix s z s'
  assume inv: "ingest_inv H (seqs s) (tables s)" and run: "SaveDocument_body runID d s = (Inr z, s')"
  let ?t = "evid (tables s)"
  have snd: "evidence_sound H {} (seqs s) ?t" and inp: "inputs_ok ?t" using inv by (auto simp: ingest_inv_def)
  show "ingest_inv H (seqs s') (tables s')"
  proof (cases "existing_document (DocumentKey d) ?t")
    case (Some found)
    then have "same_content ?t (evid (tables s'))" "seqs s' = seqs s" "tables s' = (tables s)\<lparr>evid := evid (tables s')\<rparr>"
      using run content_statements(2)
      by (auto simp: SaveDocument_body_def reuse_document_def ev_Inr split: prod.splits if_splits)
    with same_content_inv [OF inv] show ?thesis by metis
  next
    case None
    obtain i created s1 s2 s3 where p: "place_document d (stmt_next s) = (Inr (i, created), s1)"
      and src: "save_sources i 0 (Sources d) s1 = (Inr (), s2)" and ch: "save_chunks d i (Chunks d) s2 = (Inr (), s3)"
      and pub: "publish_document runID d i created s3 = (Inr z, s')"
      using run None by (auto simp: SaveDocument_body_def ev_Inr split: prod.splits)
    have "evidence_sound H {} (seqs s1) (evid (tables s1))"
      and t1: "evid (tables s1) = ?t\<lparr>evidence_documents := evidence_documents ?t @ [document_row_of d i]\<rparr>"
      and new: "\<forall>c\<in>set (evidence_chunks (evid (tables s1))). ec_document_id c \<noteq> i"
      using place_document_Inr [OF p] insert_document_sound [OF snd] None by auto
    then have s2: "evidence_sound H {} (seqs s2) (evid (tables s2))"
      using save_sources_frame [OF src] same_content_sound by metis
    have row: "document_row_of d i \<in> set (evidence_documents (evid (tables s2)))"
      using save_sources_frame [OF src] by (simp add: same_content_def t1)
    have "evidence_sound H {} (seqs s3) (evid (tables s3)) \<and>
      (\<exists>chunks cites. evid (tables s3) = (evid (tables s2))\<lparr>evidence_chunks := chunks, source_citations := cites\<rparr>)"
      using save_sources_frame [OF src] new fits
      by (intro save_chunks_sound [OF H ch s2 row])
        (auto simp: document_row_of_def published_def document_fits_def same_content_def)
    then have s3: "evidence_sound H {} (seqs s3) (evid (tables s3))" and docs: "evidence_documents (evid (tables s3)) = evidence_documents ?t @ [document_row_of d i]"
      and inp3: "inputs_ok (evid (tables s3))"
      using save_sources_frame [OF src] inp by (auto simp: same_content_def t1 inputs_ok_def)
    have dist: "distinct (map ed_id (evidence_documents (evid (tables s3))))" using s3 by (simp add: evidence_sound_def serial_ok_def)
    show ?thesis
    proof (rule publish_document_sound [OF pub])
      show "ingest_inv H (seqs s3) (tables s3)" using s3 inp3 by (simp add: ingest_inv_def)
      fix x
      assume "x \<in> set (evidence_documents (evid (tables s3)))" "ed_id x = i"
      moreover have "document_row_of d i \<in> set (evidence_documents (evid (tables s3)))" "ed_id (document_row_of d i) = i"
        by (auto simp: docs document_row_of_def)
      ultimately have "x = document_row_of d i" using dist unfolding distinct_map inj_on_def by metis
      then show "ed_expected_chunk_count x = int (length (Chunks d))" by (simp add: document_row_of_def)
    qed
  qed
qed

text \<open>Rules for programs on the evidence tables, and the sequence in which a step may use what an earlier one returned.\<close>

context db_invariant
begin

lemma keeps_bind_post:
  assumes "keeps P m" "\<And>s x s'. P (seqs s) (tables s) \<Longrightarrow> m s = (Inr x, s') \<Longrightarrow> Q x" "\<And>x. Q x \<Longrightarrow> keeps P (k x)"
  shows "keeps P (bindE m k)"
proof (rule keepsI)
  fix s r s'
  assume p: "P (seqs s) (tables s)" and r: "bindE m k s = (r, s')"
  obtain r1 s1 where m: "m s = (r1, s1)" by (cases "m s")
  have p1: "P (seqs s1) (tables s1)" using keepsD [OF assms(1) p m] .
  show "P (seqs s') (tables s')"
  proof (cases r1)
    case (Inl e)
    then show ?thesis using r m p1 by (simp add: bindE_def)
  next
    case (Inr x)
    then show ?thesis using r m p1 assms(2) [OF p] keepsD [OF assms(3)] by (auto simp: bindE_def)
  qed
qed

lemma keeps_in_tx_at: "keeps_ok P m \<Longrightarrow> seq_grows m \<Longrightarrow> keeps P (\<lambda>s. in_tx b (c s) m s)"
  by (rule keepsI) (metis keepsD keeps_in_tx)

lemma keeps_option: "(\<And>x. keeps P (f x)) \<Longrightarrow> keeps P m \<Longrightarrow> keeps P (case z of None \<Rightarrow> m | Some x \<Rightarrow> f x)"
  by (cases z) auto

lemma keeps_sum: "(\<And>x. keeps P (f x)) \<Longrightarrow> (\<And>x. keeps P (g x)) \<Longrightarrow> keeps P (case z of Inl x \<Rightarrow> f x | Inr x \<Rightarrow> g x)"
  by (cases z) auto

end

lemma keeps_ev_reads: "keeps (ingest_inv H) (ev_select f)" "keeps (ingest_inv H) (ev_row g)" "keeps (ingest_inv H) (guardE b err)"
  unfolding ev_select_def ev_row_def guardE_def by (auto intro: ingesting.keeps_rules)

lemma keeps_ev_exec:
  assumes "\<And>now t x e. f now t = Inr (x, e) \<Longrightarrow> same_content t e"
  shows "keeps (ingest_inv H) (ev_exec f)"
  unfolding ev_exec_def
  by (rule ingesting.keeps_execE) (auto split: sum.splits intro: same_content_inv assms)

lemma keeps_update_documents:
  assumes "\<And>now d. same_document d (f now d)" "\<And>now d. published (f now d)" "\<And>t d. P t d \<Longrightarrow> published d"
  shows "keeps (ingest_inv H) (update_documents P f)"
  unfolding update_documents_def ev_exec_def
proof (rule ingesting.keeps_execE)
  fix now q t x t'
  assume inv: "ingest_inv H q t"
    and "(case Inr (int (length (filter (P (evid t)) (evidence_documents (evid t)))), (evid t)
          \<lparr>evidence_documents := update_where (P (evid t)) (f now) (evidence_documents (evid t))\<rparr>) of
          Inl e \<Rightarrow> Inl e | Inr (x, e) \<Rightarrow> Inr (x, t\<lparr>evid := e\<rparr>)) = Inr (x, t')"
  then have t': "evid t' = (evid t)\<lparr>evidence_documents := update_where (P (evid t)) (f now) (evidence_documents (evid t))\<rparr>" by auto
  have "evidence_sound H {} q (evid t')"
    unfolding t' using inv assms by (intro update_documents_sound) (auto simp: ingest_inv_def evidence_sound_def)
  then show "ingest_inv H q t'" using inv by (simp add: ingest_inv_def inputs_ok_def t')
qed

lemmas ingest_keeps = ingesting.keeps_rules ingesting.keeps_option ingesting.keeps_sum keeps_ev_reads keeps_ev_exec

lemma retire_published [simp]: "published (retire ''stale'' now d)" "published (retire ''superseded'' now d)" "published (retire ''deleted'' now d)"
  by (simp_all add: retire_def published_def)

lemma ready_published: "ed_lifecycle_status d = ''ready'' \<Longrightarrow> published d"
  by (simp add: published_def)

lemma keeps_run_operations:
  "keeps (ingest_inv H) (BeginRun lib request)" "keeps (ingest_inv H) (CompleteRun lib runID)" "keeps (ingest_inv H) (mark_run_failed runID cause)"
  "keeps (ingest_inv H) ReconcileLifecycle"
proof -
  have "keeps (ingest_inv H) (BeginRun_body lib request)"
    unfolding BeginRun_body_def getRun_def resume_run_def create_run_def factInputChecksum_def Let_def
    by (intro ingest_keeps) (auto dest: content_map_sum content_statements)
  then show "keeps (ingest_inv H) (BeginRun lib request)"
    unfolding BeginRun_def by (intro ingesting.keeps_in_tx_at keeps_keeps_ok run_bodies_grow)
  have "keeps (ingest_inv H) (CompleteRun_body lib runID)"
    unfolding CompleteRun_body_def completed_before_def getRun_def outputChecksum_def
    by (intro ingest_keeps) (auto dest: content_statements)
  then show "keeps (ingest_inv H) (CompleteRun lib runID)"
    unfolding CompleteRun_def by (intro ingesting.keeps_in_tx keeps_keeps_ok run_bodies_grow)
  show "keeps (ingest_inv H) (mark_run_failed runID cause)"
    unfolding mark_run_failed_def by (intro ingest_keeps) (auto dest: content_map_sum content_statements)
  show "keeps (ingest_inv H) ReconcileLifecycle"
    unfolding ReconcileLifecycle_def
    by (intro ingest_keeps keeps_update_documents)
      (auto simp: stale_cluster_def superseded_document_def deleted_document_def superseded_fact_def ready_of_type_def ready_published)
qed

lemma keeps_save_loops:
  assumes H: "collision_free H" and "\<forall>d\<in>set ds. document_fits H d"
  shows "keeps (ingest_inv H) (finish_inflight runID ds)" "keeps (ingest_inv H) (save_all env runID ds)"
proof -
  have one: "keeps (ingest_inv H) (SaveDocument runID d)" if "document_fits H d" for d
    unfolding SaveDocument_def
    by (intro ingesting.keeps_in_tx_at SaveDocument_body_sound [OF H that] SaveDocument_body_grows)
  have fin: "keeps (ingest_inv H) (finish_inflight runID ds)" if "\<forall>d\<in>set ds. document_fits H d" for ds
    using that by (induction ds; simp only: finish_inflight.simps) (rule ingest_keeps one | simp)+
  then show "keeps (ingest_inv H) (finish_inflight runID ds)" using assms(2) .
  show "keeps (ingest_inv H) (save_all env runID ds)"
    using assms(2)
  proof (induction ds)
    case (Cons d ds)
    have "\<forall>d\<in>set (take (ie_inflight env) ds). document_fits H d" using Cons.prems set_take_subset [of "ie_inflight env" ds] by auto
    then show ?case unfolding save_all.simps using Cons by (intro ingest_keeps one fin) auto
  qed (simp only: save_all.simps ingest_keeps)
qed

lemma keeps_LinkReusableDocuments: "keeps (ingest_inv H) (LinkReusableDocuments runID ds)"
proof (induction runID ds rule: LinkReusableDocuments.induct)
  case (1 runID ds)
  have "keeps (ingest_inv H) (link_batch runID b)" for b
    unfolding link_batch_def by (intro ingest_keeps) (auto dest: content_statements)
  then have "keeps (ingest_inv H) (in_tx x y (link_batch runID b))" for x y b
    by (intro ingesting.keeps_in_tx keeps_keeps_ok run_bodies_grow)
  then show ?case using 1 by (subst LinkReusableDocuments.simps) (intro ingest_keeps; simp)
qed

lemma map_filter_in: "x \<in> set (List.map_filter f ys) \<Longrightarrow> \<exists>y\<in>set ys. f y = Some x"
  by (auto simp: List.map_filter_def)

lemma liftS_Inr: "liftS r s = (Inr x, s') \<longleftrightarrow> r = Inr x \<and> s' = s"
  by (cases r) (auto simp: liftS_def)

lemma ingest_guard_Inr: "guardE b e s = (Inr x, s') \<longleftrightarrow> \<not> b \<and> s' = s"
  by (auto simp: guardE_def)

lemma load_documents_Inr:
  assumes "load_documents lib run s = (Inr ds, s')"
  shows "\<exists>ds1 ds2. BuildSourceDocuments (ig_H lib) (ig_u lib) (ig_ts lib) (builder_run run) (frozen_sources lib run (evid (tables s))) = Inr ds1 \<and>
    BuildFactDocuments (ig_H lib) (ig_u lib) (builder_run run) (frozen_facts lib run (evid (tables s))) = Inr ds2 \<and> ds = ds1 @ ds2"
  using assms by (auto simp: load_documents_def liftS_Inr ingest_guard_Inr ListSources_def ListFacts_def ev_Inr)

lemma frozen_inputs_ok:
  assumes "inputs_ok t"
  shows "\<forall>x\<in>set (frozen_sources lib run t). source_ok x" "\<forall>x\<in>set (frozen_facts lib run t). fact_ok x"
proof -
  show "\<forall>x\<in>set (frozen_sources lib run t). source_ok x"
  proof
    fix x
    assume "x \<in> set (frozen_sources lib run t)"
    then obtain r where "r \<in> set (dataset_version_sources t)" "joined_source t r = Some x" by (auto simp: frozen_sources_def dest!: map_filter_in)
    then show "source_ok x" using assms by (auto simp: joined_source_def inputs_ok_def find_Some_iff split: if_splits)
  qed
  show "\<forall>x\<in>set (frozen_facts lib run t). fact_ok x"
  proof
    fix x
    assume "x \<in> set (frozen_facts lib run t)"
    then obtain p where x: "x = fact_input p" and "p \<in> set (joined_facts t (in_RunID run))" by (auto simp: frozen_facts_def)
    then have "p \<in> set (daily_fact_payloads t)" by (auto simp: joined_facts_def find_Some_iff split: option.splits if_splits dest!: map_filter_in)
    with x assms show "fact_ok x" by (simp add: inputs_ok_def)
  qed
qed

lemma load_documents_exact:
  assumes ok: "inputs_ok (evid (tables s))" and "load_documents lib run s = (Inr ds, s')" and d: "d \<in> set ds"
  shows "document_exact (ig_H lib) d"
proof -
  obtain ds1 ds2 where b: "BuildSourceDocuments (ig_H lib) (ig_u lib) (ig_ts lib) (builder_run run) (frozen_sources lib run (evid (tables s))) = Inr ds1"
    and c: "BuildFactDocuments (ig_H lib) (ig_u lib) (builder_run run) (frozen_facts lib run (evid (tables s))) = Inr ds2" and ds: "ds = ds1 @ ds2"
    using load_documents_Inr [OF assms(2)] by blast
  have "document_exact (ig_H lib) d" if "d \<in> set ds1"
    using BuildSourceDocuments_for [OF frozen_inputs_ok(1) [OF ok], of "ig_H lib" "ig_u lib" "ig_ts lib" "builder_run run" lib run] b that
    by (auto simp: docs_for_def doc_from_def)
  moreover have "document_exact (ig_H lib) d" if "d \<in> set ds2"
    using BuildFactDocuments_for [OF frozen_inputs_ok(2) [OF ok], of "ig_H lib" "ig_u lib" "builder_run run" lib run] c that
    by (force simp: list_all2_conv_all_nth in_set_conv_nth)
  ultimately show ?thesis using d ds by auto
qed

lemma keeps_load_documents: "keeps (ingest_inv H) (load_documents lib run)"
  unfolding load_documents_def ListSources_def ListFacts_def liftS_def by (intro ingest_keeps)

lemma keeps_audited: "keeps (ingest_inv H) (audited lib env run completed)"
proof -
  have "keeps (ingest_inv H) (audit_loop runID qs)" for runID qs
    by (induction runID qs rule: audit_loop.induct; simp only: audit_loop.simps) (rule ingest_keeps | assumption)+
  then show ?thesis
    unfolding audited_def repo_Audit_def checksum_audit_def outputChecksum_def by (intro ingest_keeps)
qed

lemma keeps_ingest_steps:
  assumes H: "collision_free (ig_H lib)"
  shows "keeps (ingest_inv (ig_H lib)) (ingest_steps lib env run)"
  unfolding ingest_steps_def
proof (intro ingesting.keeps_bindE [OF keeps_run_operations(4)] ingesting.keeps_bind_post [OF keeps_load_documents])
  fix s ds s'
  assume "ingest_inv (ig_H lib) (seqs s) (tables s)" "load_documents lib run s = (Inr ds, s')"
  then show "\<forall>d\<in>set ds. document_fits (ig_H lib) d"
    using load_documents_exact document_exact_fits [OF H] by (metis ingest_inv_def)
next
  fix ds
  assume "\<forall>d\<in>set ds. document_fits (ig_H lib) d"
  then show "keeps (ingest_inv (ig_H lib)) (bindE (LinkReusableDocuments (in_RunID run) ds) (\<lambda>reused.
     bindE (save_documents env (in_RunID run) ds reused) (\<lambda>_. CompleteRun lib (in_RunID run))))"
    unfolding save_documents_def
    by (intro ingest_keeps keeps_LinkReusableDocuments keeps_run_operations(2) keeps_save_loops(2) [OF H]) auto
qed

lemma keeps_Ingest:
  assumes H: "collision_free (ig_H lib)"
  shows "keeps (ingest_inv (ig_H lib)) (Ingest lib env request)"
  unfolding Ingest_def Let_def fail_run_def
  by (intro ingest_keeps keeps_run_operations keeps_ingest_steps [OF H] keeps_audited)

end
