(* ===== verification/Ingest_History.thy ===== *)
theory Ingest_History
  imports Ingest_Props
begin

text \<open>
  What the ingestion job never takes back, under every fault script and for every outcome: stored documents keep their identity and text, their sources, chunks and citations stay,
  links stay, and a completed run keeps its row, its inputs and exactly its documents.
\<close>

definition fact_inputs :: "evidence_tables \<Rightarrow> string \<Rightarrow> run_fact_input_row list" where
  "fact_inputs t runID = filter (\<lambda>i. fi_run_id i = runID) (ingestion_run_fact_inputs t)"

definition evidence_history :: "evidence_tables \<Rightarrow> evidence_tables \<Rightarrow> bool" where
  "evidence_history t t' =
     ((\<forall>d\<in>set (evidence_documents t). \<exists>e\<in>set (evidence_documents t'). same_document d e) \<and>
      set (evidence_document_sources t) \<subseteq> set (evidence_document_sources t') \<and> set (evidence_chunks t) \<subseteq> set (evidence_chunks t') \<and>
      set (source_citations t) \<subseteq> set (source_citations t') \<and> set (ingestion_run_documents t) \<subseteq> set (ingestion_run_documents t') \<and>
      (\<forall>runID. run_completed t runID \<longrightarrow>
         run_by_id t' runID = run_by_id t runID \<and> run_links t' runID = run_links t runID \<and> fact_inputs t' runID = fact_inputs t runID))"

lemma same_document_trans:
  assumes "same_document a b" "same_document b c"
  shows "same_document a c"
proof -
  obtain x y x' y' where "b = a\<lparr>ed_lifecycle_status := x, ed_deleted_at := y\<rparr>" "c = b\<lparr>ed_lifecycle_status := x', ed_deleted_at := y'\<rparr>"
    using assms by (auto simp: same_document_def)
  then have "c = a\<lparr>ed_lifecycle_status := x', ed_deleted_at := y'\<rparr>" by simp
  then show ?thesis unfolding same_document_def by blast
qed

lemma evidence_history_trans:
  assumes "evidence_history t t1" "evidence_history t1 t2"
  shows "evidence_history t t2"
proof -
  have "\<exists>e\<in>set (evidence_documents t2). same_document d e" if "d \<in> set (evidence_documents t)" for d
    using assms that unfolding evidence_history_def by (meson same_document_trans)
  moreover have "run_completed t1 runID" if "run_completed t runID" for runID
    using assms(1) that by (simp add: evidence_history_def run_completed_def)
  ultimately show ?thesis using assms unfolding evidence_history_def by (intro conjI) auto
qed

lemma documents_kept [simp]: "d \<in> X \<Longrightarrow> Bex X (same_document d)" "d \<in> X \<Longrightarrow> Bex (X \<union> Y) (same_document d)"
  using same_document_simps(1) by blast+

interpretation history: db_preorder "\<lambda>a b. evidence_history (evid a) (evid b)"
  by unfold_locales (simp add: evidence_history_def, erule (1) evidence_history_trans)

section \<open>Statements\<close>

lemma find_run_map:
  assumes "\<And>r. ir_run_id (g r) = ir_run_id r"
  shows "find (\<lambda>r. ir_run_id r = i) (map g rows) = map_option g (find (\<lambda>r. ir_run_id r = i) rows)"
  using assms by (induction rows) auto

lemma history_update_runs:
  assumes "update_runs P f t = Inr e" "\<And>r. ir_run_id (f r) = ir_run_id r"
  shows "evidence_history t e"
proof -
  have e: "e = t\<lparr>ingestion_runs := map (\<lambda>r. if P r then f r else r) (ingestion_runs t)\<rparr>" and no: "\<forall>r\<in>set (ingestion_runs t). P r \<longrightarrow> ir_status r \<noteq> ''completed''"
    using assms(1) by (auto simp: update_runs_def exists_row_def list_ex_iff split: if_splits)
  have "run_by_id e i = run_by_id t i" if c: "run_completed t i" for i
  proof -
    obtain r where r: "run_by_id t i = Some r" "ir_status r = ''completed''" using c by (auto simp: run_completed_def split: option.splits)
    then have "r \<in> set (ingestion_runs t)" by (auto simp: run_by_id_def find_Some_iff)
    then have "\<not> P r" using no r(2) by blast
    then show ?thesis
      using r(1) find_run_map [of "\<lambda>r. if P r then f r else r" i "ingestion_runs t"] assms(2) by (simp add: e run_by_id_def)
  qed
  then show ?thesis by (simp add: evidence_history_def e run_links_def fact_inputs_def)
qed

lemma history_documents:
  assumes "\<And>d. same_document d (f d)"
  shows "evidence_history t (t\<lparr>evidence_documents := update_where P f (evidence_documents t)\<rparr>)"
proof -
  have "\<exists>e\<in>set (update_where P f (evidence_documents t)). same_document d e" if "d \<in> set (evidence_documents t)" for d
    using that assms by (intro bexI [of _ "if P d then f d else d"]) (auto simp: update_where_def)
  then show ?thesis by (simp add: evidence_history_def run_by_id_def run_links_def fact_inputs_def)
qed

lemma history_append:
  "evidence_history t (t\<lparr>evidence_documents := evidence_documents t @ ds\<rparr>)"
  "evidence_history t (t\<lparr>evidence_document_sources := evidence_document_sources t @ ss\<rparr>)"
  "evidence_history t (t\<lparr>evidence_chunks := evidence_chunks t @ cs\<rparr>)"
  "evidence_history t (t\<lparr>source_citations := source_citations t @ rs\<rparr>)"
  "evidence_history t (t\<lparr>evidence_sources := es\<rparr>)"
  by (auto simp: evidence_history_def run_by_id_def run_links_def fact_inputs_def)

lemma filter_none: "(\<And>x. x \<in> set xs \<Longrightarrow> \<not> P x) \<Longrightarrow> filter P xs = []"
  by (auto simp: filter_empty_conv)

lemma history_run_statements:
  "link_documents runID ids disp t = Inr (u, e) \<Longrightarrow> evidence_history t e"
  "insert_run_row run now t = Inr (x, e) \<Longrightarrow> evidence_history t e"
  "snapshot_facts runID Q t = Inr (v, e) \<Longrightarrow> evidence_history t e"
proof -
  have docs: "\<forall>d\<in>set (evidence_documents t). \<exists>e\<in>set (evidence_documents t). same_document d e"
    by simp
  have found: "\<exists>r. run_by_id t i = Some r" if "run_completed t i" for i using that by (auto simp: run_completed_def split: option.splits)
  show "evidence_history t e" if l: "link_documents runID ids disp t = Inr (u, e)"
  proof (cases "ids = []")
    case True
    then show ?thesis using l docs by (simp add: link_documents_def evidence_history_def)
  next
    case False
    then have "\<not> run_completed t runID" using l by (auto simp: link_documents_def split: if_splits)
    then show ?thesis using l False docs
      by (auto simp: link_documents_def evidence_history_def run_by_id_def run_links_def fact_inputs_def filter_empty_conv split: if_splits)
  qed
  show "evidence_history t e" if "insert_run_row run now t = Inr (x, e)"
    using that docs found
    by (fastforce simp: insert_run_row_def evidence_history_def run_by_id_def run_links_def fact_inputs_def find_append split: if_splits)
  show "evidence_history t e" if "snapshot_facts runID Q t = Inr (v, e)"
    using that docs
    by (auto simp: snapshot_facts_def evidence_history_def run_by_id_def run_links_def fact_inputs_def filter_empty_conv fact_input_row_def split: if_splits)
qed

section \<open>Operations\<close>

context db_preorder
begin

lemma evolves_option: "(\<And>x. evolves R (f x)) \<Longrightarrow> evolves R m \<Longrightarrow> evolves R (case z of None \<Rightarrow> m | Some x \<Rightarrow> f x)"
  by (cases z) auto

lemma evolves_sum: "(\<And>x. evolves R (f x)) \<Longrightarrow> (\<And>x. evolves R (g x)) \<Longrightarrow> evolves R (case z of Inl x \<Rightarrow> f x | Inr x \<Rightarrow> g x)"
  by (cases z) auto

lemma evolves_tx: "evolves R m \<Longrightarrow> evolves R (in_tx b c m)"
  using evolves_in_tx [OF evolves_evolves_ok, of m b "\<lambda>_. c"] by simp

end

abbreviation keeps_history :: "'a rm \<Rightarrow> bool" where
  "keeps_history \<equiv> evolves (\<lambda>a b. evidence_history (evid a) (evid b))"

lemma history_reads: "keeps_history (ev_select f)" "keeps_history (ev_row g)" "keeps_history (guardE b err)" "keeps_history (liftS r)"
  unfolding ev_select_def ev_row_def guardE_def liftS_def by (auto intro: history.evolves_rules split: sum.split)

lemma history_exec: "(\<And>now t x e. f now t = Inr (x, e) \<Longrightarrow> evidence_history t e) \<Longrightarrow> keeps_history (ev_exec f)"
  unfolding ev_exec_def by (rule history.evolves_execE) (auto split: sum.splits)

lemma history_serial: "(\<And>i t x e. f i t = Inr (x, e) \<Longrightarrow> evidence_history t e) \<Longrightarrow> keeps_history (ev_serial sq f)"
  unfolding ev_serial_def by (rule history.evolves_insert_serial) (auto split: sum.splits)

lemmas history_rules = history.evolves_rules history.evolves_option history.evolves_sum history_reads history_exec history_serial

lemma history_update_documents: "(\<And>now d. same_document d (f now d)) \<Longrightarrow> keeps_history (update_documents P f)"
  unfolding update_documents_def by (intro history_exec) (auto intro: history_documents)

lemma history_refl: "evidence_history t t"
  by (simp add: evidence_history_def)

lemma history_inserts:
  "insert_document d i t = Inr (x, e) \<Longrightarrow> evidence_history t e" "insert_source docID n src t = Inr (u, e) \<Longrightarrow> evidence_history t e"
  "insert_chunk docID c i t = Inr (x, e) \<Longrightarrow> evidence_history t e" "insert_citation d docID chunkID ct i t = Inr (v, e) \<Longrightarrow> evidence_history t e"
  by (auto simp: insert_document_def insert_source_def insert_chunk_def insert_citation_def intro: history_append history_refl split: if_splits)

lemma history_complete:
  assumes "complete_update runID checksum now t = Inr (r, e)"
  shows "evidence_history t e"
proof -
  have "update_runs (\<lambda>x. ir_run_id x = runID \<and> ir_status x = ''running'') (completed_row runID checksum t now) t = Inr e"
    using assms by (auto simp: complete_update_def split: option.splits if_splits sum.splits)
  then show ?thesis by (rule history_update_runs) (simp add: completed_row_def)
qed

lemma history_save_loops:
  "keeps_history (save_sources docID n srcs)" "keeps_history (save_citations d docID chunkID cs)" "keeps_history (save_chunks d docID ks)"
proof -
  show "keeps_history (save_sources docID n srcs)"
    by (induction srcs arbitrary: n; simp only: save_sources.simps) (rule history_rules | erule history_inserts | assumption)+
  have c: "keeps_history (save_citations d docID chunkID cs)" for chunkID cs
    by (induction cs; simp only: save_citations.simps) (rule history_rules | erule history_inserts | assumption)+
  then show "keeps_history (save_citations d docID chunkID cs)" .
  show "keeps_history (save_chunks d docID ks)"
    by (induction ks; simp only: save_chunks.simps save_chunk_def) (rule history_rules c | erule history_inserts | assumption)+
qed

lemma history_SaveDocument: "keeps_history (SaveDocument runID d)"
proof -
  have "keeps_history (SaveDocument_body runID d)"
    unfolding SaveDocument_body_def reuse_document_def place_document_def publish_document_def
    by (rule history_rules history_update_documents history_save_loops same_document_simps | erule history_inserts history_run_statements)+
  then show ?thesis unfolding SaveDocument_def by (intro history.evolves_in_tx evolves_evolves_ok)
qed

lemma history_save_all: "keeps_history (save_all env runID ds)"
proof -
  have fin: "keeps_history (finish_inflight runID ds)" for ds
    by (induction ds; simp only: finish_inflight.simps) (rule history_rules history_SaveDocument | assumption)+
  show ?thesis
    by (induction ds; simp only: save_all.simps) (rule history_rules history_SaveDocument fin | assumption)+
qed

lemma history_LinkReusableDocuments: "keeps_history (LinkReusableDocuments runID ds)"
proof (induction runID ds rule: LinkReusableDocuments.induct)
  case (1 runID ds)
  have "keeps_history (link_batch runID b)" for b
    unfolding link_batch_def by (rule history_rules | erule history_run_statements)+
  then show ?case using 1 by (subst LinkReusableDocuments.simps) (intro history_rules history.evolves_tx; simp)
qed

lemma history_update_runs_unit:
  "map_sum id (Pair ()) (update_runs P f t) = Inr (u, e) \<Longrightarrow> (\<And>r. ir_run_id (f r) = ir_run_id r) \<Longrightarrow> evidence_history t e"
  using history_update_runs content_map_sum by metis

lemma history_run_operations:
  "keeps_history (BeginRun lib request)" "keeps_history (CompleteRun lib runID)" "keeps_history (mark_run_failed runID cause)"
  "keeps_history ReconcileLifecycle"
proof -
  have "keeps_history (BeginRun_body lib request)"
    unfolding BeginRun_body_def getRun_def resume_run_def create_run_def factInputChecksum_def Let_def
    by (intro history_rules) (auto elim!: history_update_runs_unit history_run_statements)
  then show "keeps_history (BeginRun lib request)"
    unfolding BeginRun_def by (intro history.evolves_in_tx evolves_evolves_ok)
  have "keeps_history (CompleteRun_body lib runID)"
    unfolding CompleteRun_body_def completed_before_def getRun_def outputChecksum_def
    by (intro history_rules) (auto elim!: history_complete simp: index_sources_def intro: history_append)
  then show "keeps_history (CompleteRun lib runID)" unfolding CompleteRun_def by (rule history.evolves_tx)
  show "keeps_history (mark_run_failed runID cause)"
    unfolding mark_run_failed_def by (intro history_rules) (auto elim!: history_update_runs_unit)
  show "keeps_history ReconcileLifecycle"
    unfolding ReconcileLifecycle_def by (intro history_rules history_update_documents same_document_simps)
qed

lemma history_audited: "keeps_history (audited lib env run completed)"
proof -
  have "keeps_history (audit_loop runID qs)" for runID qs
    by (induction runID qs rule: audit_loop.induct; simp only: audit_loop.simps) (rule history_rules | assumption)+
  then show ?thesis
    unfolding audited_def repo_Audit_def checksum_audit_def outputChecksum_def by (intro history_rules)
qed

lemma history_load_documents: "keeps_history (load_documents lib run)"
  unfolding load_documents_def ListSources_def ListFacts_def by (intro history_rules)

lemma history_ingest_steps: "keeps_history (ingest_steps lib env run)"
  unfolding ingest_steps_def save_documents_def
  by (intro history_rules history_run_operations history_load_documents history_LinkReusableDocuments history_save_all)

lemma history_Ingest: "keeps_history (Ingest lib env request)"
  unfolding Ingest_def Let_def fail_run_def
  by (intro history_rules history_run_operations history_ingest_steps history_audited)

text \<open>
  C9. Whatever an ingestion does and however it ends, it takes nothing back: every stored document keeps its identity and its text, no source, chunk,
  citation or link disappears, and a completed run keeps its row, its frozen inputs and exactly the documents it had.
\<close>

theorem ingest_history:
  "evidence_history (evid (tables s)) (evid (tables (snd (Ingest lib env request s))))"
  using evolvesD [OF history_Ingest, of lib env request s] by (metis prod.collapse)

end
