(* ===== verification/Ingest_Sample.thy ===== *)
theory Ingest_Sample
  imports Ingest_Props System_Props
begin

text \<open>
  A small snapshot the theorems on ingestion are applied to: a stored document of a note that was withdrawn for a newer version, a frozen version with that newer and empty
  version, and a hash that escapes the separator, so that it is free of collisions.
\<close>

fun escape :: "string \<Rightarrow> string" where
  "escape [] = []"
| "escape (c # s) = (if c = CHR 0x1F then ''~1'' else if c = CHR ''~'' then ''~0'' else [c]) @ escape s"

fun unescape :: "string \<Rightarrow> string" where
  "unescape [] = []"
| "unescape [c] = [c]"
| "unescape (c # x # s) =
     (if c = CHR ''~'' then (if x = CHR ''1'' then CHR 0x1F else CHR ''~'') # unescape s else c # unescape (x # s))"

lemma unescape_plain: "c \<noteq> CHR ''~'' \<Longrightarrow> unescape (c # s) = c # unescape s"
  by (cases s) auto

lemma unescape_escape: "unescape (escape s) = s"
  by (induction s) (auto simp: unescape_plain)

lemma escape_collision_free: "collision_free escape"
proof -
  have "CHR 0x1F \<notin> set (escape s)" for s by (induction s) auto
  then show ?thesis unfolding collision_free_def using inj_on_inverseI [of UNIV unescape escape] unescape_escape by auto
qed

definition sample_ingest_lib :: ingest_lib where
  "sample_ingest_lib = \<lparr>ig_H = escape, ig_u = sample_unicode, ig_ts = (\<lambda>_. (None, None)), ig_coll = (\<lambda>s. int (length s))\<rparr>"

definition sample_ingest_env :: ingest_env where
  "sample_ingest_env = \<lparr>ie_schedule = (\<lambda>_. 0), ie_inflight = 0, ie_audit = length\<rparr>"

definition sample_stored :: document_row where
  "sample_stored = \<lparr>ed_id = 1, ed_document_key = ''k'', ed_project_id = 1, ed_dataset_id = 2, ed_dataset_version_id = 2, ed_document_type = ''note'', ed_source_type = ''note'',
     ed_source_id = Some 7, ed_source_key = ''note:7'', ed_source_version = 1, ed_source_content_hash = ''h'', ed_parser_version = ParserVersion, ed_visibility = ''public'',
     ed_canonical_text = ''ab'', ed_content_hash = ''ab'', ed_metadata = JObj [], ed_expected_chunk_count = 1, ed_lifecycle_status = ''ready'',
     ed_source_created_at = None, ed_source_updated_at = None, ed_deleted_at = None\<rparr>"

definition sample_stored_chunk :: chunk_row where
  "sample_stored_chunk = \<lparr>ec_id = 1, ec_chunk_key = ''c'', ec_document_id = 1, ec_chunk_index = 0, ec_start_byte = 0, ec_end_byte = 2, ec_start_rune = 0, ec_end_rune = 2,
     ec_content = ''ab'', ec_content_hash = ''ab'', ec_chunker_version = ChunkerVersion, ec_tokenizer_version = TokenizerVersion, ec_lexemes = ''ab'', ec_metadata = JObj []\<rparr>"

definition sample_stored_citation :: citation_row where
  "sample_stored_citation = \<lparr>ct_id = 1, ct_citation_key = ''c~1x'', ct_document_id = 1, ct_chunk_id = 1, ct_project_id = 1, ct_dataset_id = 2, ct_dataset_version_id = 2,
     ct_evidence_source_id = Some 1, ct_daily_fact_payload_id = None, ct_source_type = ''note'', ct_source_id = 7, ct_source_version = 1, ct_source_content_hash = ''h'',
     ct_parser_version = ParserVersion, ct_document_start_byte = 0, ct_document_end_byte = 2, ct_source_start_byte = 0, ct_source_end_byte = 2, ct_quote_hash = ''ab''\<rparr>"

definition sample_ingest_tables :: evidence_tables where
  "sample_ingest_tables = \<lparr>
     dataset_versions = [\<lparr>dv_id = 3, dv_dataset_id = 2, dv_project_id = 1, dv_version = 1, dv_status = ''frozen'', dv_manifest_checksum = ''m'', dv_source_count = 1\<rparr>],
     dataset_version_sources = [\<lparr>dvs_dataset_version_id = 3, dvs_evidence_source_id = 2, dvs_project_id = 1, dvs_source_type = ''note'', dvs_source_id = 7,
       dvs_source_version = 2, dvs_content_hash = ''h2'', dvs_visibility = ''public''\<rparr>],
     evidence_sources =
       [\<lparr>es_id = 1, es_project_id = 1, es_source_type = ''note'', es_source_id = 7, es_source_version = 1, es_index_status = ''deleted'', es_deleted_at = Some 50\<rparr>,
        \<lparr>es_id = 2, es_project_id = 1, es_source_type = ''note'', es_source_id = 7, es_source_version = 2, es_index_status = ''pending'', es_deleted_at = None\<rparr>],
     evidence_source_payloads = [\<lparr>sp_evidence_source_id = 2, sp_canonical_text = [], sp_source_payload = JObj []\<rparr>],
     daily_fact_payloads = [], ingestion_runs = [], ingestion_run_fact_inputs = [], ingestion_run_documents = [], evidence_documents = [sample_stored],
     evidence_document_sources = [\<lparr>ds_document_id = 1, ds_evidence_source_id = Some 1, ds_daily_fact_payload_id = None, ds_source_type = ''note'', ds_source_id = 7,
       ds_source_version = 1, ds_content_hash = ''h'', ds_source_order = 0\<rparr>],
     evidence_chunks = [sample_stored_chunk], source_citations = [sample_stored_citation]\<rparr>"

definition sample_ingest_db :: "rag_store db" where
  "sample_ingest_db = \<lparr>tables = \<lparr>core = sample_store, evid = sample_ingest_tables, retrieval_lexical_indexes = [], retrieval_vector_indexes = [],
     agent_prompt_versions = [], agent_model_versions = [], agent_runs = []\<rparr>, seqs = (\<lambda>_. 1), faults = [], db_now = 100\<rparr>"

definition sample_ingest_request :: IngestRequest where
  "sample_ingest_request = \<lparr>rq_RunID = ''r'', rq_DatasetVersionID = 3, rq_Mode = ''rebuild''\<rparr>"

lemma sample_ingest_inv: "ingest_inv (ig_H sample_ingest_lib) (seqs sample_ingest_db) (tables sample_ingest_db)"
proof -
  have key: "''c~1x'' = escape (''c'' @ CHR 0x1F # ''x'')" "''c'' = escape ''c''" by simp_all
  have c: "citation_sound escape sample_stored sample_stored_chunk sample_stored_citation"
    unfolding citation_sound_def
    by (intro conjI exI [of _ "''x''"]; simp add: sample_stored_def sample_stored_chunk_def sample_stored_citation_def byte_substring_def chunker_eval)
  have k: "chunk_sound escape sample_stored sample_stored_chunk"
    unfolding chunk_sound_def using key(2) rangeI [of escape "''c''"] by (simp add: sample_stored_def sample_stored_chunk_def byte_substring_def)
  have ids: "ed_id sample_stored = 1" "ec_id sample_stored_chunk = 1" "ec_document_id sample_stored_chunk = 1" "ct_chunk_id sample_stored_citation = 1"
    "ed_expected_chunk_count sample_stored = 1"
    by (simp_all add: sample_stored_def sample_stored_chunk_def sample_stored_citation_def)
  have "evidence_sound escape {} (\<lambda>_. 1) sample_ingest_tables"
    using c k by (simp add: evidence_sound_def sample_ingest_tables_def serial_ok_def max_bigint_def chunks_of_def ids)
  moreover have "inputs_ok sample_ingest_tables"
    by (simp add: inputs_ok_def sample_ingest_tables_def source_input_def source_ok_def in_int64_def utf8_Valid.simps)
  ultimately show ?thesis by (simp add: ingest_inv_def sample_ingest_lib_def sample_ingest_db_def)
qed

lemma sample_trims: "TrimSpace (rq_RunID sample_ingest_request) = ''r''" "TrimSpace (rq_Mode sample_ingest_request) = ''rebuild''"
  by (simp_all add: sample_ingest_request_def TrimSpace_def trim_left.simps trim_right.simps DecodeRune_def DecodeLastRune_def first_info_def byte_def rune_value_def
      IsSpace_def Let_def)

definition sample_begun :: IngestRun where
  "sample_begun = (run_of_version (hd (dataset_versions sample_ingest_tables)) sample_ingest_request)
     \<lparr>in_StartedAt := 100, in_InputChecksum := escape (input_header (run_of_version (hd (dataset_versions sample_ingest_tables)) sample_ingest_request))\<rparr>"

definition sample_begun_db :: "rag_store db" where
  "sample_begun_db = sample_ingest_db\<lparr>tables := (tables sample_ingest_db)\<lparr>evid := sample_ingest_tables\<lparr>ingestion_runs :=
     [(ingestion_row sample_begun 100)\<lparr>ir_input_checksum := Some (in_InputChecksum sample_begun)\<rparr>]\<rparr>\<rparr>\<rparr>"

lemma sample_begin: "BeginRun sample_ingest_lib sample_ingest_request sample_ingest_db = (Inr sample_begun, sample_begun_db)"
  by (simp add: BeginRun_def in_tx_nil BeginRun_body_def getRun_def create_run_def ev_select_def ev_row_def ev_exec_def execE_def mapErr_def bindE_def guardE_def
      sample_ingest_db_def sample_begun_db_def sample_begun_def sample_ingest_tables_def sample_ingest_lib_def sample_ingest_request_def run_by_id_def version_of_def
      insert_run_row_def snapshot_facts_def latest_facts_def run_completed_def ingestion_row_def run_of_version_def factInputChecksum_def fact_inputs_of_def Let_def
      update_runs_def exists_row_def input_header_def)

lemma sample_reconcile:
  "ReconcileLifecycle sample_begun_db = (Inr \<lparr>rr_StaleDocuments = 0, rr_SupersededDocuments = 1, rr_DeletedDocuments = 0\<rparr>,
     sample_begun_db\<lparr>tables := (tables sample_begun_db)\<lparr>evid := (evid (tables sample_begun_db))\<lparr>evidence_documents := [retire ''superseded'' 100 sample_stored]\<rparr>\<rparr>\<rparr>)"
  by (simp add: ReconcileLifecycle_def update_documents_def ev_exec_def execE_def mapErr_def bindE_def update_where_def stale_cluster_def superseded_document_def
      deleted_document_def superseded_fact_def ready_of_type_def doc_has_source_def doc_has_fact_def exists_row_def source_deleted_def newer_active_source_def
      sample_begun_db_def sample_ingest_db_def sample_ingest_tables_def sample_stored_def retire_def)

definition sample_empty_note :: SourceInput where
  "sample_empty_note = source_input (hd (dataset_version_sources sample_ingest_tables)) (hd (evidence_source_payloads sample_ingest_tables))"

lemma sample_frozen:
  assumes "dataset_version_sources t = dataset_version_sources sample_ingest_tables" "dataset_versions t = dataset_versions sample_ingest_tables"
    "evidence_source_payloads t = evidence_source_payloads sample_ingest_tables" "ingestion_run_fact_inputs t = []"
  shows "frozen_sources sample_ingest_lib sample_begun t = [sample_empty_note]" "frozen_facts sample_ingest_lib sample_begun t = []"
proof -
  show "frozen_sources sample_ingest_lib sample_begun t = [sample_empty_note]"
    using assms by (simp add: frozen_sources_def joined_source_def version_of_def List.map_filter_def sample_begun_def run_of_version_def sample_ingest_tables_def sample_empty_note_def)
  show "frozen_facts sample_ingest_lib sample_begun t = []"
    using assms by (simp add: frozen_facts_def joined_facts_def List.map_filter_def split: option.split)
qed

lemma sample_built: "BuildSourceDocuments H u ts run [sample_empty_note] = Inr []"
  by (simp add: BuildSourceDocuments_def sample_empty_note_def source_input_def sample_ingest_tables_def buildDirectDocument_def Let_def)

lemma sample_load:
  assumes "dataset_version_sources (evid (tables s)) = dataset_version_sources sample_ingest_tables" "dataset_versions (evid (tables s)) = dataset_versions sample_ingest_tables"
    "evidence_source_payloads (evid (tables s)) = evidence_source_payloads sample_ingest_tables" "ingestion_run_fact_inputs (evid (tables s)) = []" "faults s = []"
  shows "load_documents sample_ingest_lib sample_begun s = (Inr [], s)"
proof -
  have "in_SourceCount sample_begun = 1" "in_FactSourceCount sample_begun = 0"
    by (simp_all add: sample_begun_def run_of_version_def sample_ingest_tables_def)
  then show ?thesis
    using assms(5) by (simp add: load_documents_def ListSources_def ListFacts_def ev_select_def mapErr_def bindE_def guardE_def liftS_def sample_frozen [OF assms(1-4)] sample_built)
qed

lemma sample_complete:
  "\<exists>r s. CompleteRun sample_ingest_lib ''r'' (sample_begun_db\<lparr>tables := (tables sample_begun_db)\<lparr>evid := (evid (tables sample_begun_db))
       \<lparr>evidence_documents := [retire ''superseded'' 100 sample_stored]\<rparr>\<rparr>\<rparr>) = (Inr r, s) \<and>
    (\<exists>s2 report. repo_Audit sample_ingest_lib sample_ingest_env ''r'' s = (Inr report, s2) \<and> ar_Healthy report)"
  by (simp add: CompleteRun_def in_tx_nil CompleteRun_body_def invalid_documents_def run_documents_def run_links_def ev_select_def ev_exec_def execE_def mapErr_def bindE_def catchE_def guardE_def
      outputChecksum_def manifest_text_def manifest_items_def run_chunks_def run_citations_def complete_update_def run_by_id_def update_runs_def exists_row_def
      version_of_def completed_row_def index_sources_def update_where_def doc_in_run_def repo_Audit_def audit_queries_def sort_key_def checksum_audit_def ev_row_def
      sample_begun_db_def sample_ingest_db_def sample_ingest_tables_def sample_begun_def sample_ingest_lib_def run_of_version_def  sample_ingest_env_def
       ingestion_row_def sample_ingest_request_def List.map_filter_def run_of_row_def doc_chunks_def coalesce_def)

lemma sample_ingested:
  "\<exists>run s1 s. ingest_steps sample_ingest_lib sample_ingest_env sample_begun sample_begun_db = (Inr run, s1) \<and>
     Ingest sample_ingest_lib sample_ingest_env sample_ingest_request sample_ingest_db = (Inr run, s)"
proof -
  let ?s = "sample_begun_db\<lparr>tables := (tables sample_begun_db)\<lparr>evid := (evid (tables sample_begun_db))
       \<lparr>evidence_documents := [retire ''superseded'' 100 sample_stored]\<rparr>\<rparr>\<rparr>"
  obtain r s s2 report where c: "CompleteRun sample_ingest_lib ''r'' ?s = (Inr r, s)"
    and a: "repo_Audit sample_ingest_lib sample_ingest_env ''r'' s = (Inr report, s2)" "ar_Healthy report"
    using sample_complete by blast
  have id: "in_RunID sample_begun = ''r''" "in_Status sample_begun = ''running''" by (simp_all add: sample_begun_def run_of_version_def sample_ingest_request_def)
  have l: "load_documents sample_ingest_lib sample_begun ?s = (Inr [], ?s)"
    by (rule sample_load) (simp_all add: sample_begun_db_def sample_ingest_db_def sample_ingest_tables_def)
  have steps: "ingest_steps sample_ingest_lib sample_ingest_env sample_begun sample_begun_db = (Inr r, s)"
    unfolding ingest_steps_def save_documents_def
    by (simp add: bindE_def sample_reconcile l LinkReusableDocuments.simps c id)
  have "rq_RunID sample_ingest_request = ''r''" "rq_Mode sample_ingest_request = ''rebuild''" by (simp_all add: sample_ingest_request_def)
  then have "sample_ingest_request\<lparr>rq_RunID := ''r'', rq_Mode := ''rebuild''\<rparr> = sample_ingest_request" by (simp add: sample_ingest_request_def)
  moreover have "request_error sample_ingest_request = None" by (simp add: request_error_def sample_ingest_request_def)
  ultimately have "Ingest sample_ingest_lib sample_ingest_env sample_ingest_request sample_ingest_db = (Inr r, s2)"
    unfolding Ingest_def Let_def sample_trims
    by (simp add: sample_begin id bindE_def catchE_def steps audited_def a guardE_def)
  with steps show ?thesis by blast
qed

end
