(* ===== verification/Ingest_Outcome.thy ===== *)
theory Ingest_Outcome
  imports Ingest_History Ingest_Sample
begin

text \<open>
  What a successful ingestion has achieved: every document built from the frozen sources and facts is linked to the run, the run is completed with published documents only,
  and the audit it passed means what it is named for.
\<close>

section \<open>Linked documents\<close>

definition linked :: "evidence_tables \<Rightarrow> string \<Rightarrow> string \<Rightarrow> bool" where
  "linked t runID key = (\<exists>d\<in>set (evidence_documents t). ed_document_key d = key \<and> doc_in_run t runID (ed_id d))"

lemma doc_in_run_iff: "doc_in_run t runID i \<longleftrightarrow> (\<exists>l\<in>set (ingestion_run_documents t). rd_document_id l = i \<and> rd_run_id l = runID)"
  by (simp add: doc_in_run_def exists_row_def list_ex_iff)

lemma linked_history:
  assumes "evidence_history t t'" "linked t runID key"
  shows "linked t' runID key"
proof -
  obtain d where d: "d \<in> set (evidence_documents t)" "ed_document_key d = key" "doc_in_run t runID (ed_id d)"
    using assms(2) by (auto simp: linked_def)
  obtain e where e: "e \<in> set (evidence_documents t')" "same_document d e" using assms(1) d(1) by (auto simp: evidence_history_def)
  have "doc_in_run t' runID (ed_id d)" using assms(1) d(3) by (auto simp: evidence_history_def doc_in_run_iff)
  moreover have "ed_id e = ed_id d" "ed_document_key e = ed_document_key d" using same_documentD [OF e(2)] by auto
  ultimately show ?thesis using e(1) d(2) unfolding linked_def by metis
qed

lemma linked_run: "keeps_history m \<Longrightarrow> m s = (r, s') \<Longrightarrow> linked (evid (tables s)) runID key \<Longrightarrow> linked (evid (tables s')) runID key"
  using linked_history evolvesD by metis

lemma link_documents_links:
  assumes "link_documents runID ids disp t = Inr (u, e)" "i \<in> set ids"
  shows "doc_in_run e runID i"
proof (cases "doc_in_run t runID i")
  case True
  then show ?thesis using assms by (fastforce simp: link_documents_def doc_in_run_iff split: if_splits)
next
  case False
  then show ?thesis using assms by (force simp: link_documents_def doc_in_run_iff split: if_splits)
qed

lemma publish_document_linked:
  assumes "publish_document runID d docID created s = (Inr z, s')"
  shows "doc_in_run (evid (tables s')) runID docID"
proof -
  obtain e x docs where e: "link_documents runID [docID] (if created then ''created'' else ''reused'') x = Inr ((), e)"
    and t': "evid (tables s') = e\<lparr>evidence_documents := docs\<rparr>"
    using assms by (auto simp: publish_document_def update_documents_def guardE_def ev_Inr split: prod.splits if_splits)
  from link_documents_links [OF e, of docID] show ?thesis by (simp add: t' doc_in_run_iff)
qed

lemma history_publish: "keeps_history (publish_document runID d docID created)"
  unfolding publish_document_def
  by (rule history_rules history_update_documents same_document_simps | erule history_run_statements)+

lemma SaveDocument_linked:
  assumes "SaveDocument runID d s = (Inr z, s')"
  shows "linked (evid (tables s')) runID (DocumentKey d)"
proof -
  obtain y s1 where body: "SaveDocument_body runID d (stmt_next s) = (Inr y, s1)" and s': "y = Commit z \<and> tables s' = tables s1 \<or> y = Rollback z"
    using in_tx_Inr [OF assms [unfolded SaveDocument_def]] by auto
  let ?t = "evid (tables s)"
  show ?thesis
  proof (cases "existing_document (DocumentKey d) ?t")
    case (Some found)
    then obtain r where "doc_by_key ?t (DocumentKey d) = Some r" and found: "fst found = r"
      by (auto simp: existing_document_def)
    then have r: "r \<in> set (evidence_documents ?t)" "ed_document_key r = DocumentKey d" "fst found = r"
      by (auto simp: doc_by_key_def find_Some_iff)
    then obtain e where e: "link_documents runID [ed_id r] ''reused'' ?t = Inr ((), e)" and t: "evid (tables s') = e"
      using body Some s' by (auto simp: SaveDocument_body_def reuse_document_def ev_Inr split: prod.splits if_splits)
    have "evidence_documents e = evidence_documents ?t" using content_statements(2) [OF e] by (simp add: same_content_def)
    with r(1,2) t link_documents_links [OF e, of "ed_id r"] show ?thesis unfolding linked_def by auto
  next
    case None
    obtain i created s1' s2 s3 where p: "place_document d (stmt_next (stmt_next s)) = (Inr (i, created), s1')"
      and src: "save_sources i 0 (Sources d) s1' = (Inr (), s2)" and ch: "save_chunks d i (Chunks d) s2 = (Inr (), s3)"
      and pub: "publish_document runID d i created s3 = (Inr y, s1)"
      using body None by (auto simp: SaveDocument_body_def ev_Inr split: prod.splits)
    have y: "y = Commit z" "tables s' = tables s1"
      using pub s' by (auto simp: publish_document_def guardE_def ev_Inr split: prod.splits if_splits)
    have "insert_document d (seqs s ''evidence_documents'' + 1) ?t = Inr (Some i, evid (tables s1'))"
      using place_document_Inr [OF p] None by simp
    then have "evid (tables s1') = ?t\<lparr>evidence_documents := evidence_documents ?t @ [document_row_of d i]\<rparr>"
      by (auto simp: insert_document_def split: if_splits)
    then have "document_row_of d i \<in> set (evidence_documents (evid (tables s1')))" by simp
    moreover have "evidence_history (evid (tables s1')) (evid (tables s1))"
      using evolvesD [OF history_save_loops(1) src] evolvesD [OF history_save_loops(3) ch] evolvesD [OF history_publish pub]
      by (meson evidence_history_trans)
    ultimately obtain e where e: "e \<in> set (evidence_documents (evid (tables s1)))" "same_document (document_row_of d i) e"
      by (auto simp: evidence_history_def)
    have "ed_document_key e = DocumentKey d" "ed_id e = i" using same_documentD [OF e(2)] by (simp_all add: document_row_of_def)
    with e(1) publish_document_linked [OF pub] y(2) show ?thesis by (auto simp: linked_def)
  qed
qed

lemma save_all_linked:
  "save_all env runID ds s = (Inr u, s') \<Longrightarrow> \<forall>d\<in>set ds. linked (evid (tables s')) runID (DocumentKey d)"
proof (induction ds arbitrary: s)
  case (Cons d ds)
  obtain r s1 where one: "SaveDocument runID d s = (r, s1)" by (cases "SaveDocument runID d s")
  then obtain z where z: "r = Inr z" and rest: "save_all env runID ds s1 = (Inr u, s')"
    using Cons.prems by (cases r) (auto simp: bindE_Inr catchE_def)
  have "linked (evid (tables s')) runID (DocumentKey d)"
    using linked_run [OF history_save_all rest] SaveDocument_linked one z by blast
  with Cons.IH [OF rest] show ?case by simp
qed simp

lemma link_batch_linked:
  assumes "link_batch runID batch s = (Inr (Commit keys), s')" "key \<in> set keys"
  shows "linked (evid (tables s')) runID key"
proof -
  let ?t = "evid (tables s)"
  obtain e where keys: "keys = reusable_keys batch ?t" and e: "link_documents runID (ids_of_keys keys ?t) ''reused'' ?t = Inr ((), e)"
    and t': "evid (tables s') = e"
    using assms by (auto simp: link_batch_def ev_Inr split: if_splits)
  obtain r where r: "r \<in> set (evidence_documents ?t)" "ed_document_key r = key"
    using assms(2) unfolding keys by (auto simp: reusable_keys_def Let_def)
  then have "ed_id r \<in> set (ids_of_keys keys ?t)" using assms(2) by (auto simp: ids_of_keys_def)
  from link_documents_links [OF e this] content_statements(2) [OF e] r show ?thesis by (auto simp: t' linked_def same_content_def)
qed

lemma LinkReusableDocuments_linked:
  "LinkReusableDocuments runID ds s = (Inr keys, s') \<Longrightarrow> \<forall>key\<in>set keys. linked (evid (tables s')) runID key"
proof (induction runID ds arbitrary: s keys rule: LinkReusableDocuments.induct)
  case (1 runID ds)
  show ?case
  proof (cases "ds = []")
    case True
    then show ?thesis using "1.prems" by (subst (asm) LinkReusableDocuments.simps) simp
  next
    case False
    obtain k1 k2 s1 where tx: "in_tx (WrapError ''begin reusable document transaction'') (WrapError ''commit reusable document links'')
             (link_batch runID (take ReuseBatchSize ds)) s = (Inr k1, s1)"
      and rest: "LinkReusableDocuments runID (drop ReuseBatchSize ds) s1 = (Inr k2, s')" and keys: "keys = k1 @ k2"
      using "1.prems" False by (subst (asm) LinkReusableDocuments.simps) (auto simp: bindE_Inr)
    have "linked (evid (tables s1)) runID key" if "key \<in> set k1" for key
    proof -
      from in_tx_Inr [OF tx] obtain s2 where "link_batch runID (take ReuseBatchSize ds) (stmt_next s) = (Inr (Commit k1), s2)" "s1 = stmt_next s2"
        by (auto simp: link_batch_def ev_Inr split: if_splits)
      with link_batch_linked that show ?thesis by auto
    qed
    then have "\<forall>key\<in>set k1. linked (evid (tables s')) runID key" using linked_run [OF history_LinkReusableDocuments rest] by blast
    with "1.IH" [OF False rest] keys show ?thesis by auto
  qed
qed

section \<open>Completion\<close>

lemma run_documents_cong:
  "evidence_documents t' = evidence_documents t \<Longrightarrow> ingestion_run_documents t' = ingestion_run_documents t \<Longrightarrow> run_documents t' runID = run_documents t runID"
  by (simp add: run_documents_def run_links_def doc_by_id_def)

lemma complete_update_Inr:
  assumes "complete_update runID checksum now t = Inr (run, e)"
  shows "run_completed e runID \<and> in_Status run = ''completed'' \<and> evidence_documents e = evidence_documents t \<and>
    ingestion_run_documents e = ingestion_run_documents t"
proof -
  let ?g = "\<lambda>r. if ir_run_id r = runID \<and> ir_status r = ''running'' then completed_row runID checksum t now r else r"
  obtain r where r: "run_by_id t runID = Some r" "ir_status r = ''running''"
    and e: "e = t\<lparr>ingestion_runs := map ?g (ingestion_runs t)\<rparr>" and run: "\<exists>v. run = run_of_row (completed_row runID checksum t now r) v"
    using assms by (auto simp: complete_update_def update_runs_def split: option.splits if_splits)
  have id: "ir_run_id r = runID" using r(1) by (auto simp: run_by_id_def find_Some_iff)
  have "run_by_id e runID = map_option ?g (run_by_id t runID)"
    unfolding run_by_id_def e by (simp add: find_run_map completed_row_def)
  then have "run_by_id e runID = Some (completed_row runID checksum t now r)" using r id by simp
  then show ?thesis using run by (auto simp: run_completed_def completed_row_def run_of_row_def e)
qed

lemma catchE_Inr: "catchE m s = (Inr r, s') \<longleftrightarrow> m s = (r, s')"
  by (auto simp: catchE_def split: prod.splits)

lemma getRun_Inr: "getRun runID s = (Inr x, s') \<Longrightarrow> tables s' = tables s \<and>
   (\<forall>run. x = Some run \<longrightarrow> (\<exists>r v. run_by_id (evid (tables s)) runID = Some r \<and> run = run_of_row r v))"
  by (auto simp: getRun_def ev_Inr split: option.splits)

lemma ev_exec_no_rows:
  assumes "ev_exec f s = (Inl e, s')" "errors_is e SqlErrNoRows"
  shows "tables s' = tables s"
proof (cases "faults s")
  case Nil
  then show ?thesis using assms by (auto simp: ev_exec_def execE_def split: sum.splits)
next
  case (Cons a fs)
  then show ?thesis using assms by (cases a) (auto simp: ev_exec_def execE_def stmt_def split: sum.splits)
qed

lemma completed_before_Inr:
  assumes "completed_before runID e s = (Inr y, s')"
  shows "errors_is e SqlErrNoRows \<and> (\<exists>x. getRun runID s = (Inr (Some x), s') \<and> in_Status x = ''completed'' \<and> y = Rollback x)"
proof -
  have e: "errors_is e SqlErrNoRows" using assms by (auto simp: completed_before_def split: if_splits)
  obtain r s1 where g: "getRun runID s = (r, s1)" by (cases "getRun runID s")
  show ?thesis
  proof (cases r)
    case (Inl a)
    then show ?thesis using assms e g by (simp add: completed_before_def bindE_def catchE_def)
  next
    case (Inr z)
    then show ?thesis using assms e g by (cases z) (auto simp: completed_before_def bindE_def catchE_def split: if_splits)
  qed
qed

lemma CompleteRun_Inr:
  assumes "CompleteRun lib runID s = (Inr run, s')"
  shows "run_completed (evid (tables s')) runID \<and> in_Status run = ''completed'' \<and>
    (\<forall>d\<in>set (run_documents (evid (tables s')) runID). ed_lifecycle_status d = ''ready'')"
proof -
  let ?t = "evid (tables s)"
  obtain y s1 where body: "CompleteRun_body lib runID (stmt_next s) = (Inr y, s1)"
    and s': "y = Commit run \<and> tables s' = tables s1 \<or> y = Rollback run \<and> tables s' = tables s"
    using in_tx_Inr [OF assms [unfolded CompleteRun_def]] by auto
  define s2 where "s2 = stmt_next (stmt_next (stmt_next s))"
  have s2: "evid (tables s2) = ?t" "tables s2 = tables s" by (simp_all add: s2_def)
  obtain checksum r s3 where inv: "invalid_documents runID ?t = 0" and upd: "ev_exec (complete_update runID checksum) s2 = (r, s3)"
    and rest: "(case r of Inl e \<Rightarrow> completed_before runID e
     | Inr run \<Rightarrow> bindE (mapErr (WrapError ''mark evidence sources indexed'') (ev_exec (\<lambda>_ t. Inr ((), index_sources runID t)))) (\<lambda>_.
         returnE (Commit run))) s3 = (Inr y, s1)"
    using body by (auto simp: CompleteRun_body_def outputChecksum_def ingest_guard_Inr catchE_Inr ev_Inr s2_def)
  have ready: "\<forall>d\<in>set (run_documents ?t runID). ed_lifecycle_status d = ''ready''"
    using inv by (auto simp: invalid_documents_def filter_empty_conv)
  show ?thesis
  proof (cases r)
    case (Inl e)
    then obtain x s4 where x: "getRun runID s3 = (Inr (Some x), s4)" "in_Status x = ''completed''" and y: "y = Rollback x"
      and nr: "errors_is e SqlErrNoRows"
      using rest completed_before_Inr by fastforce
    have "run_completed (evid (tables s3)) runID" using getRun_Inr [OF x(1)] x(2) by (auto simp: run_completed_def run_of_row_def)
    moreover have "tables s3 = tables s" using ev_exec_no_rows upd Inl nr s2(2) by metis
    ultimately show ?thesis using ready y s' x(2) by auto
  next
    case (Inr z)
    then obtain e where e: "complete_update runID checksum (db_now s2) ?t = Inr (z, e)" and s3: "evid (tables s3) = e"
      using upd s2 by (auto simp: ev_exec_Inr)
    have y: "y = Commit z" "evid (tables s1) = index_sources runID e" using rest Inr s3 by (auto simp: ev_Inr)
    have "run_documents (index_sources runID e) runID = run_documents ?t runID"
      using complete_update_Inr [OF e] by (intro run_documents_cong) (simp_all add: index_sources_def)
    with y s' ready complete_update_Inr [OF e] show ?thesis by (auto simp: index_sources_def run_completed_def run_by_id_def)
  qed
qed

lemma ReconcileLifecycle_frame:
  "ReconcileLifecycle s = (r, s') \<Longrightarrow> \<exists>docs. evid (tables s') = (evid (tables s))\<lparr>evidence_documents := docs\<rparr>"
proof -
  let ?R = "\<lambda>a b :: rag_store. \<exists>docs. evid b = (evid a)\<lparr>evidence_documents := docs\<rparr>"
  assume run: "ReconcileLifecycle s = (r, s')"
  have self: "?R a a" for a by (rule exI [of _ "evidence_documents (evid a)"]) simp
  have pre: "db_preorder ?R" by (unfold_locales, rule self) auto
  have "evolves ?R (update_documents P f)" for P f
    unfolding update_documents_def ev_exec_def by (rule db_preorder.evolves_execE [OF pre]) auto
  then have "evolves ?R ReconcileLifecycle"
    unfolding ReconcileLifecycle_def
    by (intro db_preorder.evolves_bindE [OF pre] db_preorder.evolves_mapErr [OF pre] db_preorder.evolves_basic [OF pre])
  from evolvesD [OF this run] show ?thesis .
qed

lemma frozen_frame:
  "joined_source (t\<lparr>evidence_documents := docs\<rparr>) = joined_source t" "joined_facts (t\<lparr>evidence_documents := docs\<rparr>) runID = joined_facts t runID"
  by (simp_all add: fun_eq_iff joined_source_def joined_facts_def version_of_def run_by_id_def split: option.split)

text \<open>
  C8. When the steps of a run come to their end, every document built from the frozen sources and facts of the run is stored and linked to it, the run is
  completed, and the documents linked to it are all published.
\<close>

theorem ingest_steps_complete:
  assumes "ingest_steps lib env run s = (Inr completed, s')"
  shows "\<exists>ds fs. BuildSourceDocuments (ig_H lib) (ig_u lib) (ig_ts lib) (builder_run run) (frozen_sources lib run (evid (tables s))) = Inr ds \<and>
    BuildFactDocuments (ig_H lib) (ig_u lib) (builder_run run) (frozen_facts lib run (evid (tables s))) = Inr fs \<and>
    (\<forall>d\<in>set ds \<union> set fs. linked (evid (tables s')) (in_RunID run) (DocumentKey d)) \<and>
    run_completed (evid (tables s')) (in_RunID run) \<and> in_Status completed = ''completed'' \<and>
    (\<forall>d\<in>set (run_documents (evid (tables s')) (in_RunID run)). ed_lifecycle_status d = ''ready'')"
proof -
  obtain x s1 docs s2 reused s3 s4 where rec: "ReconcileLifecycle s = (Inr x, s1)" and load: "load_documents lib run s1 = (Inr docs, s2)"
    and reuse: "LinkReusableDocuments (in_RunID run) docs s2 = (Inr reused, s3)"
    and save: "save_documents env (in_RunID run) docs reused s3 = (Inr (), s4)" and comp: "CompleteRun lib (in_RunID run) s4 = (Inr completed, s')"
    using assms by (auto simp: ingest_steps_def bindE_Inr)
  obtain ds1 where e1: "evid (tables s1) = (evid (tables s))\<lparr>evidence_documents := ds1\<rparr>" using ReconcileLifecycle_frame [OF rec] by blast
  have frozen: "frozen_sources lib run (evid (tables s1)) = frozen_sources lib run (evid (tables s))"
    "frozen_facts lib run (evid (tables s1)) = frozen_facts lib run (evid (tables s))"
    unfolding e1 by (simp_all add: frozen_sources_def frozen_facts_def frozen_frame)
  have "linked (evid (tables s4)) (in_RunID run) (DocumentKey d)" if "d \<in> set docs" for d
  proof (cases "DocumentKey d \<in> set reused")
    case True
    then show ?thesis
      using LinkReusableDocuments_linked [OF reuse] linked_run [OF history_save_all save [unfolded save_documents_def]] by blast
  next
    case False
    then show ?thesis using save_all_linked [OF save [unfolded save_documents_def]] that by simp
  qed
  then have "\<forall>d\<in>set docs. linked (evid (tables s')) (in_RunID run) (DocumentKey d)"
    using linked_run [OF history_run_operations(2) comp] by blast
  with load_documents_Inr [OF load] CompleteRun_Inr [OF comp] frozen show ?thesis by auto
qed

theorem ingest_steps_complete_witness:
  "\<exists>run s. ingest_steps sample_ingest_lib sample_ingest_env sample_begun sample_begun_db = (Inr run, s) \<and>
     run_completed (evid (tables s)) (in_RunID sample_begun) \<and> in_Status run = ''completed''"
proof -
  obtain run s where "ingest_steps sample_ingest_lib sample_ingest_env sample_begun sample_begun_db = (Inr run, s)" using sample_ingested by blast
  with ingest_steps_complete [OF this] show ?thesis by blast
qed

end
