(* ===== verification/Ingest_Audit.thy ===== *)
theory Ingest_Audit
  imports Ingest_Outcome
begin

text \<open>
  The audit and the reconciliation against what they are for: the counting queries of the audit decide the consistency of a run, stated with quantifiers over its documents, chunks and
  citations; the four updates of the reconciliation are one map over the documents. With these, the theorems on whole ingestions.
\<close>

section \<open>The audit\<close>

definition run_consistent :: "(string \<Rightarrow> string) \<Rightarrow> (string \<Rightarrow> int) \<Rightarrow> evidence_tables \<Rightarrow> string \<Rightarrow> bool" where
  "run_consistent H coll t runID =
     ((\<forall>d\<in>set (evidence_documents t). doc_in_run t runID (ed_id d) \<longrightarrow>
         published d \<and> int (length (chunks_of t (ed_id d))) = ed_expected_chunk_count d \<and>
         (\<forall>r. run_by_id t runID = Some r \<longrightarrow>
            ed_project_id d = ir_project_id r \<and> ed_dataset_id d = ir_dataset_id r \<and> ed_dataset_version_id d = ir_dataset_version_id r) \<and>
         (ed_lifecycle_status d = ''ready'' \<longrightarrow> \<not> doc_has_source t (ed_id d) source_deleted) \<and>
         (\<forall>c\<in>set (evidence_chunks t). ec_document_id c = ed_id d \<longrightarrow>
            (0 \<le> ec_start_byte c \<and> ec_end_byte c \<le> int (length (ed_canonical_text d)) \<and>
             byte_substring (ed_canonical_text d) (ec_start_byte c) (ec_end_byte c) = ec_content c \<and> H (ec_content c) = ec_content_hash c) \<and>
            (\<forall>r\<in>set (source_citations t). ct_chunk_id r = ec_id c \<longrightarrow>
               ec_start_byte c \<le> ct_document_start_byte r \<and> ct_document_end_byte r \<le> ec_end_byte c \<and>
               H (byte_substring (ed_canonical_text d) (ct_document_start_byte r) (ct_document_end_byte r)) = ct_quote_hash r))) \<and>
      (\<forall>c\<in>set (evidence_chunks t). doc_in_run t runID (ec_document_id c) \<longrightarrow> (\<exists>r\<in>set (source_citations t). ct_chunk_id r = ec_id c)) \<and>
      (\<forall>r. run_by_id t runID = Some r \<longrightarrow> ir_status r = ''completed'' \<longrightarrow> H (manifest_text coll t runID) = coalesce (ir_output_checksum r)))"

lemma set_run_documents:
  assumes "distinct (map ed_id (evidence_documents t))"
  shows "set (run_documents t runID) = {d \<in> set (evidence_documents t). doc_in_run t runID (ed_id d)}"
proof -
  have find: "doc_by_id t i = Some d \<longleftrightarrow> d \<in> set (evidence_documents t) \<and> ed_id d = i" for i d
  proof
    show "doc_by_id t i = Some d \<Longrightarrow> d \<in> set (evidence_documents t) \<and> ed_id d = i" by (rule doc_by_id_in)
    assume d: "d \<in> set (evidence_documents t) \<and> ed_id d = i"
    then obtain e where e: "doc_by_id t i = Some e" by (cases "doc_by_id t i") (auto simp: doc_by_id_def find_None_iff)
    then have "e = d" using doc_by_id_in [OF e] d assms by (auto simp: distinct_map inj_on_def)
    with e show "doc_by_id t i = Some d" by simp
  qed
  show ?thesis
  proof (intro set_eqI iffI)
    fix d
    assume "d \<in> set (run_documents t runID)"
    then obtain l where "l \<in> set (run_links t runID)" "doc_by_id t (rd_document_id l) = Some d"
      unfolding run_documents_def by (auto dest!: map_filter_in)
    then show "d \<in> {d \<in> set (evidence_documents t). doc_in_run t runID (ed_id d)}" by (auto simp: find run_links_def doc_in_run_iff)
  next
    fix d
    assume "d \<in> {d \<in> set (evidence_documents t). doc_in_run t runID (ed_id d)}"
    then obtain l where "l \<in> set (run_links t runID)" "doc_by_id t (rd_document_id l) = Some d"
      by (auto simp: find run_links_def doc_in_run_iff)
    then show "d \<in> set (run_documents t runID)" unfolding run_documents_def List.map_filter_def by force
  qed
qed

lemma in_chunks_of [simp]: "c \<in> set (chunks_of t i) \<longleftrightarrow> c \<in> set (evidence_chunks t) \<and> ec_document_id c = i"
  by (auto simp: chunks_of_def)

lemma in_run_chunks: "c \<in> set (run_chunks t runID) \<longleftrightarrow> c \<in> set (evidence_chunks t) \<and> doc_in_run t runID (ec_document_id c)"
  by (auto simp: run_chunks_def run_links_def doc_in_run_iff)

lemma in_doc_chunks: "(d, c) \<in> set (doc_chunks t runID) \<longleftrightarrow> d \<in> set (run_documents t runID) \<and> c \<in> set (evidence_chunks t) \<and> ec_document_id c = ed_id d"
  by (auto simp: doc_chunks_def intro!: bexI [of _ d])

lemma all_doc_chunks:
  assumes "distinct (map ed_id (evidence_documents t))"
  shows "(\<forall>p\<in>set (doc_chunks t runID). Q (fst p) (snd p)) \<longleftrightarrow>
    (\<forall>d\<in>set (evidence_documents t). doc_in_run t runID (ed_id d) \<longrightarrow> (\<forall>c\<in>set (evidence_chunks t). ec_document_id c = ed_id d \<longrightarrow> Q d c))"
  using set_run_documents [OF assms, of runID] in_doc_chunks [of _ _ t runID] by (auto; force)

lemma citations_of_chunk_Nil: "citations_of_chunk t i = [] \<longleftrightarrow> (\<forall>r\<in>set (source_citations t). ct_chunk_id r \<noteq> i)"
  by (simp add: citations_of_chunk_def filter_empty_conv)

text \<open>All seven counts are zero exactly when the run is consistent up to its checksum.\<close>

lemma audit_counts:
  assumes "distinct (map ed_id (evidence_documents t))"
  shows "(\<forall>q\<in>set (audit_queries H). snd q t runID = 0) \<and>
      (\<forall>r. run_by_id t runID = Some r \<longrightarrow> ir_status r = ''completed'' \<longrightarrow> H (manifest_text coll t runID) = coalesce (ir_output_checksum r))
    \<longleftrightarrow> run_consistent H coll t runID"
proof -
  let ?D = "{d \<in> set (evidence_documents t). doc_in_run t runID (ed_id d)}"
  note docs = set_run_documents [OF assms, of runID]
  have slices: "(\<forall>p\<in>set (doc_chunks t runID). \<not> (case p of (d, c) \<Rightarrow> chunk_slice_bad H d c)) \<longleftrightarrow>
      (\<forall>d\<in>set (evidence_documents t). doc_in_run t runID (ed_id d) \<longrightarrow>
         (\<forall>c\<in>set (evidence_chunks t). ec_document_id c = ed_id d \<longrightarrow> \<not> chunk_slice_bad H d c))"
    unfolding case_prod_unfold by (rule all_doc_chunks [OF assms])
  have cites: "(\<forall>p\<in>set (doc_chunks t runID). (case p of (d, c) \<Rightarrow> filter (citation_slice_bad H d c) (citations_of_chunk t (ec_id c))) = []) \<longleftrightarrow>
      (\<forall>d\<in>set (evidence_documents t). doc_in_run t runID (ed_id d) \<longrightarrow> (\<forall>c\<in>set (evidence_chunks t). ec_document_id c = ed_id d \<longrightarrow>
        filter (citation_slice_bad H d c) (citations_of_chunk t (ec_id c)) = []))"
    unfolding case_prod_unfold by (rule all_doc_chunks [OF assms])
  have none: "filter (citation_slice_bad H d c) (citations_of_chunk t (ec_id c)) = [] \<longleftrightarrow>
      (\<forall>r\<in>set (source_citations t). ct_chunk_id r = ec_id c \<longrightarrow> \<not> citation_slice_bad H d c r)" for d c
    by (auto simp: citations_of_chunk_def filter_empty_conv)
  have cited: "filter (\<lambda>i. citations_of_chunk t i = []) (remdups (map ec_id (run_chunks t runID))) = [] \<longleftrightarrow>
      (\<forall>c\<in>set (evidence_chunks t). doc_in_run t runID (ec_document_id c) \<longrightarrow> (\<exists>r\<in>set (source_citations t). ct_chunk_id r = ec_id c))"
    by (auto simp: filter_empty_conv citations_of_chunk_Nil in_run_chunks)
  let ?all = "\<lambda>P. \<forall>d\<in>set (evidence_documents t). doc_in_run t runID (ed_id d) \<longrightarrow> P d"
  have run: "filter P (run_documents t runID) = [] \<longleftrightarrow> ?all (\<lambda>d. \<not> P d)" "filter P (remdups (run_documents t runID)) = [] \<longleftrightarrow> ?all (\<lambda>d. \<not> P d)" for P
    by (auto simp: filter_empty_conv docs)
  have scope: "\<not> run_scope_bad t runID d \<longleftrightarrow> (\<forall>r. run_by_id t runID = Some r \<longrightarrow>
      ed_project_id d = ir_project_id r \<and> ed_dataset_id d = ir_dataset_id r \<and> ed_dataset_version_id d = ir_dataset_version_id r)" for d
    by (auto simp: run_scope_bad_def split: option.splits)
  have sums: "(\<forall>q\<in>set (audit_queries H). snd q t runID = 0) \<longleftrightarrow>
      ?all published \<and> ?all (\<lambda>d. int (length (chunks_of t (ed_id d))) = ed_expected_chunk_count d) \<and>
      ?all (\<lambda>d. \<forall>c\<in>set (evidence_chunks t). ec_document_id c = ed_id d \<longrightarrow> \<not> chunk_slice_bad H d c) \<and>
      (\<forall>c\<in>set (evidence_chunks t). doc_in_run t runID (ec_document_id c) \<longrightarrow> (\<exists>r\<in>set (source_citations t). ct_chunk_id r = ec_id c)) \<and>
      ?all (\<lambda>d. \<forall>c\<in>set (evidence_chunks t). ec_document_id c = ed_id d \<longrightarrow>
        (\<forall>r\<in>set (source_citations t). ct_chunk_id r = ec_id c \<longrightarrow> \<not> citation_slice_bad H d c r)) \<and>
      ?all (\<lambda>d. \<not> run_scope_bad t runID d) \<and> ?all (\<lambda>d. \<not> (ed_lifecycle_status d = ''ready'' \<and> doc_has_source t (ed_id d) source_deleted))"
    unfolding audit_queries_def
    by (simp only: list.set ball_simps simp_thms snd_conv of_nat_eq_0_iff length_0_conv concat_eq_Nil_conv set_map remdups_eq_nil_iff map_is_Nil_conv
        run filter_empty_conv [of _ "doc_chunks t runID"] slices cites none cited published_def de_Morgan_disj)
  have chunk: "(0 \<le> ec_start_byte c \<and> ec_end_byte c \<le> int (length (ed_canonical_text d)) \<and>
      byte_substring (ed_canonical_text d) (ec_start_byte c) (ec_end_byte c) = ec_content c \<and> H (ec_content c) = ec_content_hash c) \<longleftrightarrow> \<not> chunk_slice_bad H d c" for d c
    by (auto simp: chunk_slice_bad_def)
  have cite: "(ec_start_byte c \<le> ct_document_start_byte r \<and> ct_document_end_byte r \<le> ec_end_byte c \<and>
      H (byte_substring (ed_canonical_text d) (ct_document_start_byte r) (ct_document_end_byte r)) = ct_quote_hash r) \<longleftrightarrow> \<not> citation_slice_bad H d c r" for d c r
    by (auto simp: citation_slice_bad_def)
  show ?thesis unfolding run_consistent_def chunk cite scope [symmetric] sums
    by (intro iffI; elim conjE; intro conjI ballI impI; blast)
qed

lemma audit_loop_Inr:
  "audit_loop runID qs s = (Inr vs, s') \<Longrightarrow> map snd vs = map (\<lambda>q. snd q (evid (tables s)) runID) qs \<and> tables s' = tables s"
proof (induction runID qs arbitrary: s vs rule: audit_loop.induct)
  case (2 runID name query qs)
  obtain rest where rest: "audit_loop runID qs (stmt_next s) = (Inr rest, s')" and vs: "vs = (name, query (evid (tables s)) runID) # rest"
    using "2.prems" by (auto simp: ev_Inr)
  from "2.IH" [OF rest] vs show ?case by simp
qed simp

lemma repo_Audit_healthy:
  assumes "distinct (map ed_id (evidence_documents (evid (tables s))))" "repo_Audit lib env runID s = (Inr report, s')"
  shows "(ar_Healthy report \<longleftrightarrow> run_consistent (ig_H lib) (ig_coll lib) (evid (tables s)) runID) \<and> tables s' = tables s"
proof -
  let ?t = "evid (tables s)" and ?qs = "sort_key (\<lambda>q. ie_audit env (fst q)) (audit_queries (ig_H lib))"
  obtain vs s1 r more s2 where loop: "audit_loop runID ?qs s = (Inr vs, s1)" and r: "run_by_id (evid (tables s1)) runID = Some r"
    and more: "checksum_audit lib runID (ir_status r) (coalesce (ir_output_checksum r)) (stmt_next s1) = (Inr more, s')"
    and rep: "ar_Healthy report = list_all (\<lambda>v. snd v = 0) (vs @ more)"
    using assms(2) by (auto simp: repo_Audit_def ev_Inr)
  have t: "evid (tables s1) = ?t" using audit_loop_Inr [OF loop] by simp
  have "list_all (\<lambda>v. snd v = 0) vs \<longleftrightarrow> (\<forall>x\<in>set (map snd vs). x = 0)" by (auto simp: list_all_iff)
  also have "\<dots> \<longleftrightarrow> (\<forall>q\<in>set (audit_queries (ig_H lib)). snd q ?t runID = 0)" using audit_loop_Inr [OF loop] by simp
  finally have vs: "list_all (\<lambda>v. snd v = 0) vs \<longleftrightarrow> (\<forall>q\<in>set (audit_queries (ig_H lib)). snd q ?t runID = 0)" .
  have m: "list_all (\<lambda>v. snd v = 0) more \<longleftrightarrow>
      (ir_status r = ''completed'' \<longrightarrow> ig_H lib (manifest_text (ig_coll lib) ?t runID) = coalesce (ir_output_checksum r))" and s': "tables s' = tables s1"
    using more t by (auto simp: checksum_audit_def outputChecksum_def ev_Inr split: if_splits)
  have "ar_Healthy report \<longleftrightarrow> run_consistent (ig_H lib) (ig_coll lib) ?t runID"
    using audit_counts [OF assms(1), of "ig_H lib" runID "ig_coll lib"] r t by (simp add: rep vs m)
  with s' audit_loop_Inr [OF loop] show ?thesis by simp
qed

section \<open>Reconciliation\<close>

text \<open>What becomes of one document, by its type: the specification of the four updates.\<close>

definition reconciled :: "evidence_tables \<Rightarrow> int \<Rightarrow> document_row \<Rightarrow> document_row" where
  "reconciled t now d =
     (if ed_lifecycle_status d \<noteq> ''ready'' then d
      else if ed_document_type d = ''note_comment_cluster''
        then if doc_has_source t (ed_id d) source_deleted then retire ''stale'' now d else d
      else if ed_document_type d = ''note'' \<or> ed_document_type d = ''note_media''
        then if doc_has_source t (ed_id d) (\<lambda>s. source_deleted s \<and> newer_active_source t s) then retire ''superseded'' now d
             else if doc_has_source t (ed_id d) source_deleted then retire ''deleted'' now d else d
      else if (ed_document_type d = ''note_daily_fact'' \<or> ed_document_type d = ''user_daily_fact'') \<and> doc_has_fact t (ed_id d) (newer_fact t)
        then retire ''superseded'' now d
      else d)"

definition retired_as :: "evidence_tables \<Rightarrow> int \<Rightarrow> string \<Rightarrow> int" where
  "retired_as t now status =
     int (length (filter (\<lambda>d. ed_lifecycle_status d = ''ready'' \<and> ed_lifecycle_status (reconciled t now d) = status) (evidence_documents t)))"

lemma lifecycle_frame:
  "stale_cluster (t\<lparr>evidence_documents := ds\<rparr>) = stale_cluster t" "superseded_document (t\<lparr>evidence_documents := ds\<rparr>) = superseded_document t"
  "deleted_document (t\<lparr>evidence_documents := ds\<rparr>) = deleted_document t" "superseded_fact (t\<lparr>evidence_documents := ds\<rparr>) = superseded_fact t"
  by (simp_all add: fun_eq_iff stale_cluster_def superseded_document_def deleted_document_def superseded_fact_def doc_has_source_def doc_has_fact_def
      newer_active_source_def newer_fact_def)

lemma update_documents_Inr:
  "update_documents P f s = (Inr n, s') \<longleftrightarrow>
   stmt_ok s \<and> n = int (length (filter (P (evid (tables s))) (evidence_documents (evid (tables s))))) \<and>
   s' = (stmt_next s)\<lparr>tables := (tables s)\<lparr>evid := (evid (tables s))
     \<lparr>evidence_documents := update_where (P (evid (tables s))) (f (db_now s)) (evidence_documents (evid (tables s)))\<rparr>\<rparr>\<rparr>"
  by (auto simp: update_documents_def ev_exec_Inr)

lemma doc_has_source_mono: "doc_has_source t i (\<lambda>s. P s \<and> Q s) \<Longrightarrow> doc_has_source t i P"
  by (auto simp: doc_has_source_def exists_row_def list_ex_iff)

lemma retire_simps [simp]: "ed_lifecycle_status (retire st now d) = st" "ed_document_type (retire st now d) = ed_document_type d" "ed_id (retire st now d) = ed_id d"
  by (simp_all add: retire_def)

lemma retired_inert [simp]:
  assumes "st \<noteq> ''ready''"
  shows "\<not> stale_cluster t (retire st now d)" "\<not> superseded_document t (retire st now d)" "\<not> deleted_document t (retire st now d)"
    "\<not> superseded_fact t (retire st now d)"
  using assms by (simp_all add: stale_cluster_def superseded_document_def deleted_document_def superseded_fact_def ready_of_type_def)

lemma lifecycle_disjoint:
  "stale_cluster t d \<Longrightarrow> \<not> superseded_document t d \<and> \<not> deleted_document t d \<and> \<not> superseded_fact t d"
  "superseded_document t d \<Longrightarrow> \<not> superseded_fact t d" "deleted_document t d \<Longrightarrow> \<not> superseded_fact t d"
  by (auto simp: stale_cluster_def superseded_document_def deleted_document_def superseded_fact_def ready_of_type_def)

lemma lifecycle_ready:
  "stale_cluster t d \<or> superseded_document t d \<or> deleted_document t d \<or> superseded_fact t d \<Longrightarrow> ed_lifecycle_status d = ''ready''"
  by (auto simp: stale_cluster_def superseded_document_def deleted_document_def superseded_fact_def ready_of_type_def)

lemma reconciled_if:
  "reconciled t now d =
     (if stale_cluster t d then retire ''stale'' now d else if superseded_document t d then retire ''superseded'' now d
      else if deleted_document t d then retire ''deleted'' now d else if superseded_fact t d then retire ''superseded'' now d else d)"
proof (cases "ed_lifecycle_status d = ''ready''")
  case True
  consider "ed_document_type d = ''note_comment_cluster''" | "ed_document_type d = ''note''" | "ed_document_type d = ''note_media''"
    | "ed_document_type d \<notin> {''note_comment_cluster'', ''note'', ''note_media''}" by auto
  then show ?thesis
    using True by cases (simp_all add: reconciled_def stale_cluster_def superseded_document_def deleted_document_def superseded_fact_def ready_of_type_def)
next
  case False
  then show ?thesis using lifecycle_ready [of t d] by (auto simp: reconciled_def)
qed

lemma lifecycle_steps:
  fixes t :: evidence_tables and now :: int
  defines "g1 \<equiv> \<lambda>d. if stale_cluster t d then retire ''stale'' now d else d"
    and "g2 \<equiv> \<lambda>d. if superseded_document t d then retire ''superseded'' now d else d"
    and "g3 \<equiv> \<lambda>d. if deleted_document t d then retire ''deleted'' now d else d"
    and "g4 \<equiv> \<lambda>d. if superseded_fact t d then retire ''superseded'' now d else d"
  shows "g4 (g3 (g2 (g1 d))) = reconciled t now d"
    "stale_cluster t d \<longleftrightarrow> ed_lifecycle_status d = ''ready'' \<and> ed_lifecycle_status (reconciled t now d) = ''stale''"
    "superseded_document t (g1 d) \<or> superseded_fact t (g3 (g2 (g1 d))) \<longleftrightarrow>
       ed_lifecycle_status d = ''ready'' \<and> ed_lifecycle_status (reconciled t now d) = ''superseded''"
    "\<not> (superseded_document t (g1 d) \<and> superseded_fact t (g3 (g2 (g1 d))))"
    "deleted_document t (g2 (g1 d)) \<longleftrightarrow> ed_lifecycle_status d = ''ready'' \<and> ed_lifecycle_status (reconciled t now d) = ''deleted''"
  using lifecycle_ready [of t d] lifecycle_disjoint [of t d] by (auto simp: reconciled_if g1_def g2_def g3_def g4_def)

lemma length_filter_disjoint:
  assumes "\<And>x. \<not> (P x \<and> Q x)"
  shows "length (filter P xs) + length (filter Q xs) = length (filter (\<lambda>x. P x \<or> Q x) xs)"
  using assms by (induction xs) auto

lemma ReconcileLifecycle_Inr:
  assumes "ReconcileLifecycle s = (Inr result, s')"
  defines "t \<equiv> evid (tables s)" and "now \<equiv> db_now s"
  defines "d1 \<equiv> update_where (stale_cluster t) (retire ''stale'' now) (evidence_documents t)"
  defines "d2 \<equiv> update_where (superseded_document t) (retire ''superseded'' now) d1"
  defines "d3 \<equiv> update_where (deleted_document t) (retire ''deleted'' now) d2"
  shows "evid (tables s') = t\<lparr>evidence_documents := update_where (superseded_fact t) (retire ''superseded'' now) d3\<rparr> \<and>
    result = \<lparr>rr_StaleDocuments = int (length (filter (stale_cluster t) (evidence_documents t))),
      rr_SupersededDocuments = int (length (filter (superseded_document t) d1)) + int (length (filter (superseded_fact t) d3)),
      rr_DeletedDocuments = int (length (filter (deleted_document t) d2))\<rparr>"
  using assms(1) by (auto simp: ReconcileLifecycle_def bindE_Inr update_documents_Inr lifecycle_frame t_def now_def d1_def d2_def d3_def)

text \<open>
  C10. Reconciling the life cycle treats every published document by its type: a comment cluster with a withdrawn source becomes stale, a note or its media become superseded
  when a newer version of the withdrawn source is active and deleted otherwise, a daily fact with a newer version becomes superseded; everything else stays as it is. The counts
  reported are the numbers of documents so retired.
\<close>

theorem reconcile_lifecycle_exact:
  assumes "ReconcileLifecycle s = (Inr result, s')"
  shows "evid (tables s') = (evid (tables s))\<lparr>evidence_documents := map (reconciled (evid (tables s)) (db_now s)) (evidence_documents (evid (tables s)))\<rparr> \<and>
    rr_StaleDocuments result = retired_as (evid (tables s)) (db_now s) ''stale'' \<and>
    rr_SupersededDocuments result = retired_as (evid (tables s)) (db_now s) ''superseded'' \<and>
    rr_DeletedDocuments result = retired_as (evid (tables s)) (db_now s) ''deleted''"
proof -
  let ?t = "evid (tables s)" and ?now = "db_now s"
  let ?g1 = "\<lambda>d. if stale_cluster ?t d then retire ''stale'' ?now d else d"
  let ?g2 = "\<lambda>d. if superseded_document ?t d then retire ''superseded'' ?now d else d"
  let ?g3 = "\<lambda>d. if deleted_document ?t d then retire ''deleted'' ?now d else d"
  note step = lifecycle_steps [where t = ?t and now = ?now]
  let ?ds = "evidence_documents ?t"
  have t': "evid (tables s') = ?t\<lparr>evidence_documents := map (reconciled ?t ?now) ?ds\<rparr>"
    and stale: "rr_StaleDocuments result = int (length (filter (stale_cluster ?t) ?ds))"
    and sup: "rr_SupersededDocuments result = int (length (filter (\<lambda>d. superseded_document ?t (?g1 d)) ?ds)) +
        int (length (filter (\<lambda>d. superseded_fact ?t (?g3 (?g2 (?g1 d)))) ?ds))"
    and del: "rr_DeletedDocuments result = int (length (filter (\<lambda>d. deleted_document ?t (?g2 (?g1 d))) ?ds))"
    using ReconcileLifecycle_Inr [OF assms] by (simp_all add: update_where_def filter_map comp_def step(1))
  have s1: "filter (stale_cluster ?t) ?ds = filter (\<lambda>d. ed_lifecycle_status d = ''ready'' \<and> ed_lifecycle_status (reconciled ?t ?now d) = ''stale'') ?ds"
    by (rule filter_cong [OF refl step(2)])
  have s2: "filter (\<lambda>d. superseded_document ?t (?g1 d) \<or> superseded_fact ?t (?g3 (?g2 (?g1 d)))) ?ds =
      filter (\<lambda>d. ed_lifecycle_status d = ''ready'' \<and> ed_lifecycle_status (reconciled ?t ?now d) = ''superseded'') ?ds"
    by (rule filter_cong [OF refl step(3)])
  have s3: "filter (\<lambda>d. deleted_document ?t (?g2 (?g1 d))) ?ds =
      filter (\<lambda>d. ed_lifecycle_status d = ''ready'' \<and> ed_lifecycle_status (reconciled ?t ?now d) = ''deleted'') ?ds"
    by (rule filter_cong [OF refl step(5)])
  have "length (filter (\<lambda>d. superseded_document ?t (?g1 d)) ?ds) + length (filter (\<lambda>d. superseded_fact ?t (?g3 (?g2 (?g1 d)))) ?ds) =
      length (filter (\<lambda>d. superseded_document ?t (?g1 d) \<or> superseded_fact ?t (?g3 (?g2 (?g1 d)))) ?ds)"
    by (rule length_filter_disjoint) (rule step(4))
  then show ?thesis unfolding retired_as_def t' stale sup del s1 s2 s3 by (simp flip: of_nat_add)
qed

section \<open>Whole ingestions\<close>

lemma create_run_Inr:
  "create_run lib request s = (Inr y, s') \<Longrightarrow>
   \<exists>d a b c. y = Commit ((run_of_version d request)\<lparr>in_StartedAt := a, in_InputChecksum := b, in_FactSourceCount := c\<rparr>)"
  unfolding create_run_def Let_def by (auto simp: bindE_Inr split: prod.splits)

lemma BeginRun_Inr:
  assumes "BeginRun lib request s = (Inr run, s')"
  shows "in_RunID run = rq_RunID request \<and>
    (in_Status run = ''completed'' \<longrightarrow> tables s' = tables s \<and> run_completed (evid (tables s)) (rq_RunID request))"
proof -
  obtain y s1 where body: "BeginRun_body lib request (stmt_next s) = (Inr y, s1)"
    and s': "y = Commit run \<and> s' = stmt_next s1 \<or> y = Rollback run \<and> s' = s1\<lparr>tables := tables s\<rparr>"
    using in_tx_Inr [OF assms [unfolded BeginRun_def]] by auto
  obtain found s2 where g: "getRun (rq_RunID request) (stmt_next (stmt_next s)) = (Inr found, s2)"
    and rest: "(case found of
       Some existing \<Rightarrow> if \<not> same_parameters existing request then throwE ErrRunConflict else resume_run existing
     | None \<Rightarrow> create_run lib request) s2 = (Inr y, s1)"
    using body by (auto simp: BeginRun_body_def ev_Inr)
  show ?thesis
  proof (cases found)
    case None
    then show ?thesis using rest s' by (auto dest!: create_run_Inr simp: run_of_version_def)
  next
    case (Some existing)
    obtain r v where r: "run_by_id (evid (tables s)) (rq_RunID request) = Some r" "existing = run_of_row r v"
      using getRun_Inr [OF g] Some by auto
    then have "ir_run_id r = rq_RunID request" by (auto simp: run_by_id_def find_Some_iff)
    then have id: "in_RunID existing = rq_RunID request" and st: "in_Status existing = ir_status r" using r(2) by (auto simp: run_of_row_def)
    have t2: "tables s2 = tables s" using getRun_Inr [OF g] by simp
    from rest Some have res: "resume_run existing s2 = (Inr y, s1)" by (auto split: if_splits)
    show ?thesis
    proof (cases "in_Status existing = ''failed''")
      case True
      then show ?thesis using res s' id by (auto simp: resume_run_def ev_Inr)
    next
      case False
      then show ?thesis using res s' id st r(1) t2 by (auto simp: resume_run_def run_completed_def)
    qed
  qed
qed

lemma Ingest_Inr:
  assumes "Ingest lib env input s = (Inr run, s')"
  obtains (again) "tables s' = tables s" "run_completed (evid (tables s)) (TrimSpace (rq_RunID input))"
  | (ran) r s1 s2 report where "BeginRun lib (input\<lparr>rq_RunID := TrimSpace (rq_RunID input), rq_Mode := TrimSpace (rq_Mode input)\<rparr>) s = (Inr r, s1)"
    "in_RunID r = TrimSpace (rq_RunID input)"
    "ingest_steps lib env r s1 = (Inr run, s2)" "repo_Audit lib env (in_RunID r) s2 = (Inr report, s')" "ar_Healthy report"
proof -
  let ?q = "input\<lparr>rq_RunID := TrimSpace (rq_RunID input), rq_Mode := TrimSpace (rq_Mode input)\<rparr>"
  obtain r s1 where b: "BeginRun lib ?q s = (Inr r, s1)"
    and rest: "(if in_Status r = ''completed'' then returnE r
          else bindE (catchE (ingest_steps lib env r)) (\<lambda>x. case x of Inl cause \<Rightarrow> fail_run (rq_RunID ?q) cause | Inr completed \<Rightarrow> audited lib env r completed)) s1
        = (Inr run, s')"
    using assms by (auto simp: Ingest_def Let_def bindE_Inr split: option.splits)
  show thesis
  proof (cases "in_Status r = ''completed''")
    case True
    then show thesis using again BeginRun_Inr [OF b] rest by auto
  next
    case False
    obtain x s2 where x: "ingest_steps lib env r s1 = (x, s2)" by (cases "ingest_steps lib env r s1")
    show thesis
    proof (cases x)
      case (Inl cause)
      then show thesis using rest False x by (auto simp: bindE_def catchE_def fail_run_def split: prod.splits sum.splits)
    next
      case (Inr completed)
      then have "audited lib env r completed s2 = (Inr run, s')" using rest False x by (simp add: bindE_def catchE_def)
      then show thesis using ran [OF b] BeginRun_Inr [OF b] x Inr by (auto simp: audited_def bindE_Inr ingest_guard_Inr)
    qed
  qed
qed

text \<open>
  C5. The evidence store stays sound through every ingestion, however it ends and whatever statements fail on the way: chunks are slices of their documents, citations lie in their chunks
  under the hash of the bytes they quote, every chunk is cited, and published documents are complete.
\<close>

theorem ingest_keeps_sound:
  assumes "collision_free (ig_H lib)" "ingest_inv (ig_H lib) (seqs s) (tables s)"
  shows "ingest_inv (ig_H lib) (seqs (snd (Ingest lib env request s))) (tables (snd (Ingest lib env request s)))"
  using keepsD [OF keeps_Ingest [OF assms(1)] assms(2), of env request] by (metis prod.collapse)

text \<open>
  C7. An ingestion that returns a run has completed it. Unless the run had been completed before, in which case nothing changed, every document of the run is
  published and complete, belongs to the project and version of the run, rests on no withdrawn source, all hashes agree, and the checksum of the run is the one of its stored output.
\<close>

theorem ingest_success:
  assumes "collision_free (ig_H lib)" "ingest_inv (ig_H lib) (seqs s) (tables s)" "Ingest lib env input s = (Inr run, s')"
  shows "run_completed (evid (tables s')) (TrimSpace (rq_RunID input)) \<and>
    (tables s' = tables s \<or> run_consistent (ig_H lib) (ig_coll lib) (evid (tables s')) (TrimSpace (rq_RunID input)))"
  using assms(3)
proof (cases rule: Ingest_Inr)
  case (ran r s1 s2 report)
  then have c: "run_completed (evid (tables s2)) (TrimSpace (rq_RunID input))" using CompleteRun_Inr by (force simp: ingest_steps_def bindE_Inr)
  have "ingest_inv (ig_H lib) (seqs s1) (tables s1)" using keepsD [OF keeps_run_operations(1) assms(2) ran(1)] .
  from keepsD [OF keeps_ingest_steps [OF assms(1)] this ran(3)]
  have "distinct (map ed_id (evidence_documents (evid (tables s2))))" by (simp add: ingest_inv_def evidence_sound_def serial_ok_def)
  from repo_Audit_healthy [OF this ran(4)] ran(2,5) c show ?thesis by simp
qed simp

theorem reconcile_lifecycle_exact_witness:
  "\<exists>result s. ReconcileLifecycle sample_begun_db = (Inr result, s) \<and> rr_SupersededDocuments result = 1 \<and>
     retired_as (evid (tables sample_begun_db)) (db_now sample_begun_db) ''superseded'' = 1"
  using reconcile_lifecycle_exact [OF sample_reconcile] sample_reconcile by auto

theorem ingest_keeps_sound_witness:
  "collision_free (ig_H sample_ingest_lib) \<and> evidence_chunks (evid (tables sample_ingest_db)) \<noteq> [] \<and>
   ingest_inv (ig_H sample_ingest_lib) (seqs (snd (Ingest sample_ingest_lib sample_ingest_env sample_ingest_request sample_ingest_db)))
     (tables (snd (Ingest sample_ingest_lib sample_ingest_env sample_ingest_request sample_ingest_db)))"
proof -
  have H: "collision_free (ig_H sample_ingest_lib)" by (simp add: sample_ingest_lib_def escape_collision_free)
  have "evidence_chunks (evid (tables sample_ingest_db)) \<noteq> []" by (simp add: sample_ingest_db_def sample_ingest_tables_def)
  with H ingest_keeps_sound [OF H sample_ingest_inv] show ?thesis by blast
qed

theorem ingest_success_witness:
  "\<exists>run s. Ingest sample_ingest_lib sample_ingest_env sample_ingest_request sample_ingest_db = (Inr run, s) \<and> run_completed (evid (tables s)) ''r''"
proof -
  have H: "collision_free (ig_H sample_ingest_lib)" by (simp add: sample_ingest_lib_def escape_collision_free)
  obtain run s where i: "Ingest sample_ingest_lib sample_ingest_env sample_ingest_request sample_ingest_db = (Inr run, s)" using sample_ingested by blast
  with ingest_success [OF H sample_ingest_inv i] sample_trims show ?thesis by auto
qed

end
