(* ===== verification/Query_Plan.thy ===== *)
theory Query_Plan
  imports Evidence
begin

text \<open>
  The query planner of retrieval (\<open>retrieval/query.go\<close>): the terms of a query, the note numbers, subject, document type and media
  position it asks for, and the text handed to \<open>to_tsquery\<close>. The Unicode classes are the record of the tokenizer.

  The four regular expressions of the file are matchers on bytes. This is exact: their literals start with a byte that never continues a rune, a
  literal is followed by characters that cannot be part of it, and each repetition stops at a byte its class does not contain, so the leftmost
  match the \<open>regexp\<close> package prefers is the one taken here. Chinese literals are written as code points.
\<close>

section \<open>Text\<close>

definition zh :: "nat list \<Rightarrow> string" where
  "zh rs = concat (map EncodeRune rs)"

definition MaxQueryTerms :: nat where "MaxQueryTerms = 64"
definition RetrievalMaxQueryRunes :: nat where "RetrievalMaxQueryRunes = 2000"

definition RetrievalErrInvalidInput :: go_error where
  "RetrievalErrInvalidInput = ErrorString ''invalid retrieval input''"

text \<open>\<open>strings.Contains\<close> and \<open>strings.Fields\<close>.\<close>

fun Contains :: "string \<Rightarrow> string \<Rightarrow> bool" where
  "Contains [] p = (p = [])"
| "Contains (c # cs) p = (HasPrefix (c # cs) p \<or> Contains cs p)"

fun flush_field :: "string \<Rightarrow> string list" where
  "flush_field [] = []"
| "flush_field w = [w]"

function fields_from :: "string \<Rightarrow> string \<Rightarrow> string list" where
  "fields_from w s =
     (if s = [] then flush_field w
      else let (r, n) = DecodeRune s in
        if IsSpace r then flush_field w @ fields_from [] (drop n s) else fields_from (w @ take n s) (drop n s))"
  by pat_completeness auto
termination
  by (relation "measure (\<lambda>(w, s). length s)") (auto simp: DecodeRune_def dest!: rune_len_bounds split: option.splits)

declare fields_from.simps [simp del]

definition Fields :: "string \<Rightarrow> string list" where
  "Fields s = fields_from [] s"

section \<open>Regular expressions\<close>

text \<open>
  A matcher looks at the byte before the position (none at the start) and the text from it on, and returns the group with the length
  of the match. \<open>find_all\<close> is \<open>FindAllStringSubmatch\<close>: leftmost, not overlapping.
\<close>

type_synonym matcher = "char option \<Rightarrow> string \<Rightarrow> (string \<times> nat) option"

function find_all :: "matcher \<Rightarrow> char option \<Rightarrow> string \<Rightarrow> string list" where
  "find_all m prev s =
     (if s = [] then []
      else case m prev s of
        None \<Rightarrow> find_all m (Some (hd s)) (tl s)
      | Some (g, n) \<Rightarrow> g # find_all m (Some (last (take (max 1 n) s))) (drop (max 1 n) s))"
  by pat_completeness auto
termination
  by (relation "measure (\<lambda>(m, prev, s). length s)") auto

declare find_all.simps [simp del]

definition FindStringSubmatch :: "matcher \<Rightarrow> string \<Rightarrow> string option" where
  "FindStringSubmatch m s = (case find_all m None s of [] \<Rightarrow> None | g # _ \<Rightarrow> Some g)"

definition re_space :: "char \<Rightarrow> bool" where
  "re_space c = (byte c \<in> {9, 10, 12, 13, 32})"

definition re_word :: "char \<Rightarrow> bool" where
  "re_word c = (is_digit c \<or> 65 \<le> byte c \<and> byte c \<le> 90 \<or> 97 \<le> byte c \<and> byte c \<le> 122 \<or> byte c = 95)"

text \<open>One of the words, white space, then at most \<open>n\<close> digits.\<close>

definition word_number :: "string list \<Rightarrow> nat \<Rightarrow> matcher" where
  "word_number ws n prev s =
     (case find (HasPrefix s) ws of
        None \<Rightarrow> None
      | Some w \<Rightarrow>
          let gap = takeWhile re_space (drop (length w) s);
              digits = take n (takeWhile is_digit (drop (length w + length gap) s)) in
          if digits = [] then None else Some (digits, length w + length gap + length digits))"

definition noteIDPattern :: matcher where
  "noteIDPattern = word_number [zh [31508, 35760], zh [26679, 26412, 35760, 24405], zh [35760, 24405]] 12"

definition positionPattern :: matcher where
  "positionPattern = word_number [zh [20301, 32622]] 6"

definition longNumberPattern :: matcher where
  "longNumberPattern prev s =
     (let digits = takeWhile is_digit s; rest = dropWhile is_digit s in
      if (case prev of None \<Rightarrow> True | Some c \<Rightarrow> \<not> re_word c) \<and> 4 \<le> length digits \<and> length digits \<le> 12 \<and> hd digits \<noteq> CHR ''0'' \<and>
         (rest = [] \<or> \<not> re_word (hd rest))
      then Some (digits, length digits) else None)"

definition closing_quotes :: "string list" where
  "closing_quotes = [zh [8221], [CHR 0x22]]"

text \<open>The runes up to the next closing quotation mark: their number, the bytes, and what follows.\<close>

function until_closing :: "string \<Rightarrow> nat \<times> string \<times> string" where
  "until_closing s =
     (if s = [] \<or> list_ex (HasPrefix s) closing_quotes then (0, [], s)
      else let n = snd (DecodeRune s) in case until_closing (drop n s) of (k, w, rest) \<Rightarrow> (Suc k, take n s @ w, rest))"
  by pat_completeness auto
termination
  by (relation "measure length") (auto simp: DecodeRune_def dest!: rune_len_bounds split: option.splits)

declare until_closing.simps [simp del]

definition subjectPattern :: matcher where
  "subjectPattern prev s =
     (case find (HasPrefix s) [zh [26681, 25454], zh [26597, 25214]] of
        None \<Rightarrow> None
      | Some w \<Rightarrow>
         (case find (HasPrefix (drop (length w) s)) [zh [8220], [CHR 0x22]] of
            None \<Rightarrow> None
          | Some q \<Rightarrow>
             (case until_closing (drop (length w + length q) s) of
                (k, g, rest) \<Rightarrow>
                  (case find (HasPrefix rest) closing_quotes of
                     None \<Rightarrow> None
                   | Some c \<Rightarrow> if 2 \<le> k \<and> k \<le> 80 then Some (g, length w + length q + length g + length c) else None))))"

section \<open>Terms\<close>

definition genericBigrams :: "string list" where
  "genericBigrams = map zh
    [[19968, 20010], [19968, 20221], [19981, 33021], [19981, 35201], [20160, 20040], [20197, 21450], [20316, 32773], [20381, 25454],
     [20854, 20013], [20998, 21035], [21482, 35201], [21482, 33021], [21487, 20197], [22914, 20309], [26159, 21542], [26368, 32456],
     [26377, 20851], [26681, 25454], [26679, 26412], [27599, 20010], [27809, 26377], [28982, 21518], [29616, 22312], [30456, 20851],
     [31508, 35760], [32473, 20986], [35760, 24405], [36825, 20010], [36825, 20123], [36825, 20221], [37027, 20010], [37027, 20123],
     [37324, 38754], [38656, 35201], [38382, 39064]]"

definition isHanToken :: "unicode \<Rightarrow> string \<Rightarrow> nat \<Rightarrow> bool" where
  "isHanToken u token wanted = (RuneCount token = wanted \<and> list_all (is_Han u) (runes token))"

definition isNumeric :: "unicode \<Rightarrow> string \<Rightarrow> bool" where
  "isNumeric u token = (token \<noteq> [] \<and> list_all (is_Digit u) (runes token))"

text \<open>The tokens both loops drop: generic bigrams, and short tokens that are no number.\<close>

definition dropped_token :: "unicode \<Rightarrow> string \<Rightarrow> bool" where
  "dropped_token u token =
     (if isHanToken u token 2 then token \<in> set genericBigrams else RuneCount token < 2 \<and> \<not> isNumeric u token)"

text \<open>The loop of \<open>BuildQueryPlan\<close>; the set \<open>seen\<close> holds the collected terms.\<close>

fun collect_terms :: "unicode \<Rightarrow> string list \<Rightarrow> string list \<Rightarrow> string list \<Rightarrow> string list \<times> string list" where
  "collect_terms u [] terms singleHan = (terms, singleHan)"
| "collect_terms u (token # tokens) terms singleHan =
     (if token \<in> set terms then collect_terms u tokens terms singleHan
      else if isHanToken u token 1 then collect_terms u tokens terms (singleHan @ [token])
      else if dropped_token u token then collect_terms u tokens terms singleHan
      else if length terms + 1 = MaxQueryTerms then (terms @ [token], singleHan)
      else collect_terms u tokens (terms @ [token]) singleHan)"

fun collect_distinct :: "(string \<Rightarrow> bool) \<Rightarrow> nat \<Rightarrow> string list \<Rightarrow> string list \<Rightarrow> string list" where
  "collect_distinct keep limit [] terms = terms"
| "collect_distinct keep limit (token # tokens) terms =
     (if token \<in> set terms \<or> \<not> keep token then collect_distinct keep limit tokens terms
      else if length terms + 1 = limit then terms @ [token]
      else collect_distinct keep limit tokens (terms @ [token]))"

definition meaningfulTerms :: "unicode \<Rightarrow> string \<Rightarrow> nat \<Rightarrow> string list" where
  "meaningfulTerms u val limit =
     collect_distinct (\<lambda>token. \<not> isHanToken u token 1 \<and> \<not> dropped_token u token) limit (Tokenize u val) []"

definition plan_terms :: "unicode \<Rightarrow> string \<Rightarrow> string list" where
  "plan_terms u query =
     (case collect_terms u (Tokenize u query) [] [] of
        (terms, singleHan) \<Rightarrow> if terms = [] then collect_distinct (\<lambda>_. True) MaxQueryTerms singleHan [] else terms)"

section \<open>Numbers\<close>

fun distinct_positive :: "int list \<Rightarrow> string list \<Rightarrow> int list" where
  "distinct_positive result [] = result"
| "distinct_positive result (m # ms) =
     (case ParseInt64 m of
        None \<Rightarrow> distinct_positive result ms
      | Some n \<Rightarrow> if n \<le> 0 \<or> n \<in> set result then distinct_positive result ms else distinct_positive (result @ [n]) ms)"

definition extractInt64Matches :: "matcher \<Rightarrow> string \<Rightarrow> int list" where
  "extractInt64Matches pat s = distinct_positive [] (find_all pat None s)"

fun merge_into :: "int list \<Rightarrow> int list \<Rightarrow> int list" where
  "merge_into result [] = result"
| "merge_into result (v # vs) = (if v \<in> set result then merge_into result vs else merge_into (result @ [v]) vs)"

definition mergeInt64 :: "int list \<Rightarrow> int list \<Rightarrow> int list" where
  "mergeInt64 left right = merge_into (merge_into [] left) right"

section \<open>Plans\<close>

record QueryPlan =
  qp_Original :: string
  qp_Terms :: "string list"
  qp_AllTerms :: "string list"
  qp_HintedNoteIDs :: "int list"
  qp_PreferredType :: string
  qp_PreferredPosition :: "int option"
  qp_SubjectTerms :: "string list"

definition preferred_type :: "unicode \<Rightarrow> string \<Rightarrow> string" where
  "preferred_type u query =
     (if Contains (ToLower (to_lower u) query) ''ocr'' \<or> Contains query (zh [22270, 29255, 25991, 23383]) \<or> Contains query (zh [22270, 20013, 25991, 23383])
      then ''note_media''
      else if Contains query (zh [35780, 35770, 21306]) \<or> Contains query (zh [35780, 35770, 20869, 23481]) then ''note_comment_cluster''
      else if Contains query (zh [26085, 20107, 23454]) \<or> Contains query (zh [27599, 26085, 20107, 23454]) then ''note_daily_fact''
      else ''note'')"

definition hinted_notes :: "string \<Rightarrow> int list" where
  "hinted_notes query =
     (let hinted = extractInt64Matches noteIDPattern query in
      if Contains query (zh [31508, 35760]) then mergeInt64 hinted (extractInt64Matches longNumberPattern query) else hinted)"

definition BuildQueryPlan :: "unicode \<Rightarrow> string \<Rightarrow> go_error + QueryPlan" where
  "BuildQueryPlan u raw =
     (let query = TrimSpace raw in
      if query = [] then Inl (DetailError RetrievalErrInvalidInput ''query is required'')
      else if RuneCount query > RetrievalMaxQueryRunes
      then Inl (DetailError RetrievalErrInvalidInput (''query exceeds '' @ format_nat RetrievalMaxQueryRunes @ '' characters''))
      else Inr \<lparr>qp_Original = query, qp_Terms = plan_terms u query, qp_AllTerms = [], qp_HintedNoteIDs = hinted_notes query,
        qp_PreferredType = preferred_type u query,
        qp_PreferredPosition = (case FindStringSubmatch positionPattern query of None \<Rightarrow> None | Some d \<Rightarrow> ParseInt64 d),
        qp_SubjectTerms = (case FindStringSubmatch subjectPattern query of None \<Rightarrow> [] | Some s \<Rightarrow> meaningfulTerms u s MaxQueryTerms)\<rparr>)"

fun term_pairs :: "string list \<Rightarrow> string list" where
  "term_pairs [] = []"
| "term_pairs (t # ts) = map (\<lambda>r. ''('' @ t @ '' & '' @ r @ '')'') ts @ term_pairs ts"

definition BuildTSQuery :: "string list \<Rightarrow> string" where
  "BuildTSQuery terms =
     (case terms of
        [] \<Rightarrow> []
      | [t] \<Rightarrow> t
      | [t, r] \<Rightarrow> t @ '' & '' @ r
      | _ \<Rightarrow> join_with '' | '' (term_pairs (take 6 terms)))"

end
