(* ===== verification/Stable_Sort.thy ===== *)
theory Stable_Sort
  imports Prelude "HOL-Library.Multiset"
begin

text \<open>
  Stable sorting by a comparison: what \<open>sort.SliceStable\<close> computes, and the orders \<open>ORDER BY\<close> clauses are made of. The locale states the laws a
  comparison has to obey; its lemmas give order, stability, and that a separating order makes the result independent of the input's order.
\<close>

section \<open>Stable sorting\<close>

text \<open>\<open>sort.SliceStable\<close> for a strict weak order \<open>lt\<close>.\<close>

fun insert_by :: "('a \<Rightarrow> 'a \<Rightarrow> bool) \<Rightarrow> 'a \<Rightarrow> 'a list \<Rightarrow> 'a list" where
  "insert_by lt x [] = [x]"
| "insert_by lt x (y # ys) = (if lt y x then y # insert_by lt x ys else x # y # ys)"

definition sort_by :: "('a \<Rightarrow> 'a \<Rightarrow> bool) \<Rightarrow> 'a list \<Rightarrow> 'a list" where
  "sort_by lt xs = foldr (insert_by lt) xs []"

lemma sort_by_simps [simp]:
  "sort_by lt [] = []"
  "sort_by lt (x # xs) = insert_by lt x (sort_by lt xs)"
  by (simp_all add: sort_by_def)

lemma mset_insert_by [simp]: "mset (insert_by lt x ys) = add_mset x (mset ys)"
  by (induction ys) auto

lemma mset_sort_by [simp]: "mset (sort_by lt xs) = mset xs"
  by (induction xs) auto

lemma set_sort_by [simp]: "set (sort_by lt xs) = set xs"
  by (metis mset_sort_by set_mset_mset)

lemma length_sort_by [simp]: "length (sort_by lt xs) = length xs"
  by (metis mset_sort_by size_mset)

lemma distinct_sort_by [simp]: "distinct (map f (sort_by lt xs)) = distinct (map f xs)"
  by (metis distinct_count_atmost_1 mset_map mset_sort_by set_mset_mset set_map set_sort_by mset_eq_imp_distinct_iff)

text \<open>The laws a comparison passed to \<open>sort.SliceStable\<close> has to obey, and what the sorted list is under them.\<close>

locale strict_weak_order =
  fixes lt :: "'a \<Rightarrow> 'a \<Rightarrow> bool"
  assumes asym: "lt x y \<Longrightarrow> \<not> lt y x"
    and negtrans: "lt x z \<Longrightarrow> lt x y \<or> lt y z"
begin

lemma insert_by_sorted:
  assumes "sorted_wrt (\<lambda>a b. \<not> lt b a) ys"
  shows "sorted_wrt (\<lambda>a b. \<not> lt b a) (insert_by lt x ys)"
  using assms
proof (induction ys)
  case (Cons y ys)
  show ?case
  proof (cases "lt y x")
    case True
    have "\<forall>z\<in>set (insert_by lt x ys). \<not> lt z y"
      using Cons.prems True asym by (auto simp: set_mset_mset [symmetric] simp del: set_mset_mset)
    then show ?thesis using Cons True by simp
  next
    case False
    have "\<not> lt z x" if "z \<in> set ys" for z
      using False Cons.prems that negtrans [of z x y] by auto
    then show ?thesis using Cons.prems False by simp
  qed
qed simp

lemma sort_by_sorted: "sorted_wrt (\<lambda>a b. \<not> lt b a) (sort_by lt xs)"
  by (induction xs) (simp_all add: insert_by_sorted)

lemma sort_by_head:
  assumes "sort_by lt xs = y # ys" and "x \<in> set xs"
  shows "\<not> lt x y"
proof -
  have "x \<in> set (y # ys)" using assms by (metis set_sort_by)
  then show ?thesis using sort_by_sorted [of xs] assms(1) asym by auto
qed

text \<open>Elements the order does not separate keep their relative order.\<close>

lemma insert_by_stable:
  assumes "\<And>y z. P y \<Longrightarrow> P z \<Longrightarrow> \<not> lt y z"
  shows "filter P (insert_by lt x ys) = (if P x then x # filter P ys else filter P ys)"
  using assms by (induction ys) auto

lemma sort_by_stable:
  assumes "\<And>y z. P y \<Longrightarrow> P z \<Longrightarrow> \<not> lt y z"
  shows "filter P (sort_by lt xs) = filter P xs"
  by (induction xs) (auto simp: insert_by_stable [OF assms])

text \<open>Where the order separates any two elements, the result depends on the elements only.\<close>

lemma sort_by_unique:
  assumes "mset xs = mset ys" and total: "\<And>x y. x \<in> set xs \<Longrightarrow> y \<in> set xs \<Longrightarrow> x \<noteq> y \<Longrightarrow> lt x y \<or> lt y x"
  shows "sort_by lt xs = sort_by lt ys"
proof -
  let ?le = "\<lambda>a b. \<not> lt b a"
  have "us = vs" if "sorted_wrt ?le us" "sorted_wrt ?le vs" "mset us = mset vs" "set us \<subseteq> set xs" for us vs
    using that
  proof (induction us arbitrary: vs)
    case (Cons u us)
    obtain v vs' where v: "vs = v # vs'" using Cons.prems(3) by (cases vs) auto
    have mem: "u \<in> set vs" "v \<in> set (u # us)" using Cons.prems(3) v by (metis list.set_intros(1) set_mset_mset)+
    have "u = v"
    proof (rule ccontr)
      assume "u \<noteq> v"
      then have "\<not> lt v u" "\<not> lt u v" using mem Cons.prems(1,2) v by auto
      then show False using total [of u v] mem Cons.prems(4) \<open>u \<noteq> v\<close> by auto
    qed
    then show ?case using Cons.IH [of vs'] Cons.prems v by simp
  qed simp
  from this [OF sort_by_sorted sort_by_sorted] show ?thesis using assms(1) by simp
qed

end

text \<open>Orders of rows: by a first comparison, and where it does not separate by a second one.\<close>

definition desc_by :: "('a \<Rightarrow> 'k::linorder) \<Rightarrow> 'a \<Rightarrow> 'a \<Rightarrow> bool" where
  "desc_by k x y = (k x > k y)"

definition asc_by :: "('a \<Rightarrow> 'k::linorder) \<Rightarrow> 'a \<Rightarrow> 'a \<Rightarrow> bool" where
  "asc_by k x y = (k x < k y)"

definition then_by :: "('a \<Rightarrow> 'a \<Rightarrow> bool) \<Rightarrow> ('a \<Rightarrow> 'a \<Rightarrow> bool) \<Rightarrow> 'a \<Rightarrow> 'a \<Rightarrow> bool" where
  "then_by f g x y = (if f x y then True else if f y x then False else g x y)"

lemma desc_by_weak [intro]: "strict_weak_order (desc_by k)"
  by unfold_locales (auto simp: desc_by_def)

lemma asc_by_weak [intro]: "strict_weak_order (asc_by k)"
  by unfold_locales (auto simp: asc_by_def)

lemma then_by_weak [intro]:
  assumes "strict_weak_order f" and "strict_weak_order g"
  shows "strict_weak_order (then_by f g)"
proof -
  note f = strict_weak_order.asym [OF assms(1)] strict_weak_order.negtrans [OF assms(1)]
    and g = strict_weak_order.asym [OF assms(2)] strict_weak_order.negtrans [OF assms(2)]
  show ?thesis
  proof
    show "\<not> then_by f g y x" if "then_by f g x y" for x y
      using that f(1) g(1) by (auto simp: then_by_def split: if_splits)
    show "then_by f g x y \<or> then_by f g y z" if "then_by f g x z" for x y z
      using that f g by (auto simp: then_by_def split: if_splits) metis+
  qed
qed

end
