(* ===== verification/Rerank.thy ===== *)
theory Rerank
  imports Query_Plan Stable_Sort
begin

text \<open>
  Scoring, ordering and selection of candidates (\<open>retrieval/service.go\<close> from \<open>selectCandidateTerms\<close> to \<open>selectDiverse\<close>, and the merge of
  \<open>vector_retriever.go\<close>). The type of \<open>float64\<close> is a linearly ordered type variable: no score is a NaN and the two zeros are not told apart. Its rounded
  operations are the record \<open>float_ops\<close>; \<open>f_dec m e\<close> is the literal \<open>m\<close> times ten to the power \<open>- e\<close>, and also the conversion of an integer; products
  and sums are rounded one by one.
\<close>

section \<open>Data\<close>

record 'f float_ops =
  f_add :: "'f \<Rightarrow> 'f \<Rightarrow> 'f"
  f_mul :: "'f \<Rightarrow> 'f \<Rightarrow> 'f"
  f_div :: "'f \<Rightarrow> 'f \<Rightarrow> 'f"
  f_dec :: "int \<Rightarrow> nat \<Rightarrow> 'f"

record 'f TermStat =
  ts_Lexeme :: string
  ts_ChunkFrequency :: int
  ts_OccurrenceCount :: int
  ts_InverseDocumentFrequency :: 'f

record 'f Candidate =
  cd_DocumentID :: int
  cd_DocumentKey :: string
  cd_DocumentType :: string
  cd_SourceType :: string
  cd_SourceID :: "int option"
  cd_SourceVersion :: int
  cd_NoteID :: "int option"
  cd_MediaPosition :: "int option"
  cd_ChunkID :: int
  cd_ChunkKey :: string
  cd_ChunkIndex :: int
  cd_Content :: string
  cd_ContentHash :: string
  cd_Lexemes :: string
  cd_StartByte :: int
  cd_EndByte :: int
  cd_FTSScore :: 'f
  cd_VectorScore :: 'f
  cd_HybridScore :: 'f
  cd_TrigramScore :: 'f

record Citation =
  cn_CitationID :: int
  cn_CitationKey :: string
  cn_ProjectID :: int
  cn_DatasetID :: int
  cn_DatasetVersionID :: int
  cn_DocumentID :: int
  cn_ChunkID :: int
  cn_SourceType :: string
  cn_SourceID :: int
  cn_SourceVersion :: int
  cn_NoteID :: "int option"
  cn_MediaPosition :: "int option"
  cn_SourceContentHash :: string
  cn_ParserVersion :: string
  cn_DocumentStartByte :: int
  cn_DocumentEndByte :: int
  cn_SourceStartByte :: int
  cn_SourceEndByte :: int
  cn_Quote :: string
  cn_QuoteHash :: string

record 'f Result =
  rs_Rank :: int
  rs_Score :: 'f
  rs_Confidence :: 'f
  rs_FTSScore :: 'f
  rs_VectorScore :: 'f
  rs_HybridScore :: 'f
  rs_WeightedCoverage :: 'f
  rs_DocumentID :: int
  rs_DocumentKey :: string
  rs_DocumentType :: string
  rs_SourceType :: string
  rs_SourceID :: "int option"
  rs_SourceVersion :: int
  rs_NoteID :: "int option"
  rs_MediaPosition :: "int option"
  rs_ChunkID :: int
  rs_ChunkKey :: string
  rs_ChunkIndex :: int
  rs_Content :: string
  rs_ContentHash :: string
  rs_StartByte :: int
  rs_EndByte :: int
  rs_Citations :: "Citation list"

definition MaxChunksPerNote :: int where "MaxChunksPerNote = 2"

text \<open>The map from terms to statistics.\<close>

type_synonym 'f stats = "string \<rightharpoonup> 'f TermStat"

definition clamp :: "'f::linorder \<Rightarrow> 'f \<Rightarrow> 'f \<Rightarrow> 'f" where
  "clamp val minimum maximum = max minimum (min maximum val)"

abbreviation unit_clamp :: "'f::linorder float_ops \<Rightarrow> 'f \<Rightarrow> 'f" where
  "unit_clamp fl x \<equiv> clamp x (f_dec fl 0 0) (f_dec fl 1 0)"

section \<open>Candidate terms\<close>

definition term_idf :: "'f::linorder float_ops \<Rightarrow> 'f stats \<Rightarrow> string \<Rightarrow> 'f" where
  "term_idf fl stats t = (case stats t of None \<Rightarrow> f_dec fl 0 0 | Some s \<Rightarrow> ts_InverseDocumentFrequency s)"

text \<open>The closure \<open>appendWeighted\<close>; the set \<open>seen\<close> holds the terms of \<open>result\<close>.\<close>

fun append_terms :: "nat \<Rightarrow> string list \<Rightarrow> nat \<Rightarrow> string list \<Rightarrow> string list" where
  "append_terms limit [] maximum result = result"
| "append_terms limit (t # ts) maximum result =
     (if length result = limit \<or> maximum = 0 then result
      else if t \<in> set result then append_terms limit ts maximum result
      else append_terms limit ts (maximum - 1) (result @ [t]))"

definition appendWeighted :: "'f::linorder float_ops \<Rightarrow> 'f stats \<Rightarrow> nat \<Rightarrow> string list \<Rightarrow> nat \<Rightarrow> string list \<Rightarrow> string list" where
  "appendWeighted fl stats limit vals maximum result =
     append_terms limit (sort_by (desc_by (term_idf fl stats)) (filter (\<lambda>v. stats v \<noteq> None) vals)) maximum result"

fun fill_terms :: "nat \<Rightarrow> string list \<Rightarrow> string list \<Rightarrow> string list" where
  "fill_terms limit [] result = result"
| "fill_terms limit (t # ts) result =
     (if length result = limit then result
      else if t \<in> set result then fill_terms limit ts result
      else fill_terms limit ts (result @ [t]))"

definition selectCandidateTerms ::
  "'f::linorder float_ops \<Rightarrow> unicode \<Rightarrow> QueryPlan \<Rightarrow> string list \<Rightarrow> 'f stats \<Rightarrow> nat \<Rightarrow> string list" where
  "selectCandidateTerms fl u plan indexedTerms stats limit =
     (let weighted = sort_by (then_by (desc_by (\<lambda>(t, i). term_idf fl stats t)) (asc_by snd)) (zip indexedTerms [0..<length indexedTerms]);
          result = appendWeighted fl stats limit (qp_SubjectTerms plan) 4 [];
          result = appendWeighted fl stats limit (filter (isNumeric u) indexedTerms) 4 result in
      fill_terms limit (map fst weighted) result)"

section \<open>Scores\<close>

definition scoringTerms :: "QueryPlan \<Rightarrow> string list" where
  "scoringTerms plan = (if qp_AllTerms plan = [] then qp_Terms plan else qp_AllTerms plan)"

definition total_weight :: "'f::linorder float_ops \<Rightarrow> 'f stats \<Rightarrow> string list \<Rightarrow> 'f" where
  "total_weight fl stats terms =
     (let w = foldl (\<lambda>acc t. case stats t of Some s \<Rightarrow> f_add fl acc (ts_InverseDocumentFrequency s) | None \<Rightarrow> f_add fl acc (f_dec fl 8 0))
                (f_dec fl 0 0) terms in
      if w = f_dec fl 0 0 then f_dec fl 1 0 else w)"

definition matched_weight :: "'f::linorder float_ops \<Rightarrow> 'f stats \<Rightarrow> string list \<Rightarrow> string list \<Rightarrow> 'f" where
  "matched_weight fl stats terms present =
     foldl (\<lambda>acc t. if t \<notin> set present then acc
              else case stats t of Some s \<Rightarrow> f_add fl acc (ts_InverseDocumentFrequency s) | None \<Rightarrow> acc) (f_dec fl 0 0) terms"

definition blank_result :: "'f::linorder float_ops \<Rightarrow> 'f Candidate \<Rightarrow> 'f Result" where
  "blank_result fl c =
     \<lparr>rs_Rank = 0, rs_Score = f_dec fl 0 0, rs_Confidence = f_dec fl 0 0, rs_FTSScore = cd_FTSScore c, rs_VectorScore = f_dec fl 0 0,
      rs_HybridScore = f_dec fl 0 0, rs_WeightedCoverage = f_dec fl 0 0, rs_DocumentID = cd_DocumentID c, rs_DocumentKey = cd_DocumentKey c,
      rs_DocumentType = cd_DocumentType c, rs_SourceType = cd_SourceType c, rs_SourceID = cd_SourceID c, rs_SourceVersion = cd_SourceVersion c,
      rs_NoteID = cd_NoteID c, rs_MediaPosition = cd_MediaPosition c, rs_ChunkID = cd_ChunkID c, rs_ChunkKey = cd_ChunkKey c,
      rs_ChunkIndex = cd_ChunkIndex c, rs_Content = cd_Content c, rs_ContentHash = cd_ContentHash c, rs_StartByte = cd_StartByte c,
      rs_EndByte = cd_EndByte c, rs_Citations = []\<rparr>"

definition resultFromCandidate :: "'f::linorder float_ops \<Rightarrow> 'f Candidate \<Rightarrow> 'f Result" where
  "resultFromCandidate fl c = (blank_result fl c)\<lparr>rs_VectorScore := cd_VectorScore c, rs_HybridScore := cd_HybridScore c\<rparr>"

definition lexical_coverage :: "'f::linorder float_ops \<Rightarrow> QueryPlan \<Rightarrow> 'f stats \<Rightarrow> 'f Candidate \<Rightarrow> 'f" where
  "lexical_coverage fl plan stats c =
     f_div fl (matched_weight fl stats (scoringTerms plan) (Fields (cd_Lexemes c))) (total_weight fl stats (scoringTerms plan))"

definition lexical_score :: "'f::linorder float_ops \<Rightarrow> QueryPlan \<Rightarrow> 'f stats \<Rightarrow> 'f Candidate \<Rightarrow> 'f" where
  "lexical_score fl plan stats c =
     (let ftsNormalized = f_div fl (cd_FTSScore c) (f_add fl (cd_FTSScore c) (f_dec fl 25 2));
          score = f_add fl (f_add fl (f_mul fl (lexical_coverage fl plan stats c) (f_dec fl 78 2)) (f_mul fl ftsNormalized (f_dec fl 14 2)))
                    (f_mul fl (unit_clamp fl (cd_TrigramScore c)) (f_dec fl 8 2));
          score = (case cd_NoteID c of Some n \<Rightarrow> if n \<in> set (qp_HintedNoteIDs plan) then f_add fl score (f_dec fl 34 2) else score | None \<Rightarrow> score);
          score = (if qp_PreferredType plan \<noteq> [] \<and> cd_DocumentType c = qp_PreferredType plan then f_add fl score (f_dec fl 14 2) else score) in
      if qp_PreferredPosition plan \<noteq> None \<and> cd_MediaPosition c \<noteq> None \<and> qp_PreferredPosition plan = cd_MediaPosition c
      then f_add fl score (f_dec fl 8 2) else score)"

definition lexical_result :: "'f::linorder float_ops \<Rightarrow> QueryPlan \<Rightarrow> 'f stats \<Rightarrow> 'f Candidate \<Rightarrow> 'f Result" where
  "lexical_result fl plan stats c =
     (let score = lexical_score fl plan stats c in
      (blank_result fl c)\<lparr>rs_Score := score, rs_Confidence := unit_clamp fl score, rs_WeightedCoverage := lexical_coverage fl plan stats c\<rparr>)"

definition lexical_order :: "'f::linorder Result \<Rightarrow> 'f Result \<Rightarrow> bool" where
  "lexical_order = then_by (desc_by rs_Score) (then_by (desc_by rs_FTSScore) (asc_by rs_ChunkID))"

definition rankCandidates :: "'f::linorder float_ops \<Rightarrow> 'f Candidate list \<Rightarrow> QueryPlan \<Rightarrow> 'f stats \<Rightarrow> 'f Result list" where
  "rankCandidates fl candidates plan stats = sort_by lexical_order (map (lexical_result fl plan stats) candidates)"

definition vector_result :: "'f::linorder float_ops \<Rightarrow> 'f Candidate \<Rightarrow> 'f Result" where
  "vector_result fl c =
     (resultFromCandidate fl c)\<lparr>rs_Score := cd_VectorScore c, rs_Confidence := unit_clamp fl (cd_VectorScore c), rs_VectorScore := cd_VectorScore c\<rparr>"

definition vector_order :: "'f::linorder Result \<Rightarrow> 'f Result \<Rightarrow> bool" where
  "vector_order = then_by (desc_by rs_VectorScore) (asc_by rs_ChunkID)"

definition rankVectorCandidates :: "'f::linorder float_ops \<Rightarrow> 'f Candidate list \<Rightarrow> 'f Result list" where
  "rankVectorCandidates fl candidates = sort_by vector_order (map (vector_result fl) candidates)"

text \<open>The map \<open>byChunk\<close>: the last candidate of a chunk wins, and a chunk without one yields the zero candidate.\<close>

definition byChunk :: "'f Candidate list \<Rightarrow> int \<rightharpoonup> 'f Candidate" where
  "byChunk candidates = map_of (rev (map (\<lambda>c. (cd_ChunkID c, c)) candidates))"

definition hybrid_result :: "'f::linorder float_ops \<Rightarrow> (int \<rightharpoonup> 'f Candidate) \<Rightarrow> 'f Result \<Rightarrow> 'f Result" where
  "hybrid_result fl bc r =
     (let (hybrid, vector) = (case bc (rs_ChunkID r) of None \<Rightarrow> (f_dec fl 0 0, f_dec fl 0 0) | Some c \<Rightarrow> (cd_HybridScore c, cd_VectorScore c));
          normalizedRRF = unit_clamp fl (f_mul fl hybrid (f_dec fl 305 1));
          confidence = f_add fl (f_add fl (f_mul fl normalizedRRF (f_dec fl 45 2)) (f_mul fl (unit_clamp fl vector) (f_dec fl 35 2)))
                         (f_mul fl (rs_Confidence r) (f_dec fl 20 2)) in
      r\<lparr>rs_Score := confidence, rs_Confidence := unit_clamp fl confidence, rs_VectorScore := vector, rs_HybridScore := normalizedRRF\<rparr>)"

definition hybrid_order :: "'f::linorder Result \<Rightarrow> 'f Result \<Rightarrow> bool" where
  "hybrid_order = then_by (desc_by rs_Score) (asc_by rs_ChunkID)"

definition rankHybridCandidates :: "'f::linorder float_ops \<Rightarrow> 'f Candidate list \<Rightarrow> QueryPlan \<Rightarrow> 'f stats \<Rightarrow> 'f Result list" where
  "rankHybridCandidates fl candidates plan stats =
     sort_by hybrid_order (map (hybrid_result fl (byChunk candidates)) (rankCandidates fl candidates plan stats))"

section \<open>Reciprocal rank fusion\<close>

text \<open>
  The closure \<open>appendRanked\<close> of the hybrid retriever. A chunk already merged is updated in place (its position is the map's entry), a
  new one is appended.
\<close>

definition fuse :: "'f::linorder float_ops \<Rightarrow> 'f \<Rightarrow> 'f Candidate \<Rightarrow> 'f Candidate \<Rightarrow> 'f Candidate" where
  "fuse fl rrf candidate old =
     (let old = old\<lparr>cd_HybridScore := f_add fl (cd_HybridScore old) rrf\<rparr>;
          old = (if cd_VectorScore candidate > f_dec fl 0 0 then old\<lparr>cd_VectorScore := cd_VectorScore candidate\<rparr> else old) in
      if cd_FTSScore candidate > f_dec fl 0 0
      then old\<lparr>cd_FTSScore := cd_FTSScore candidate, cd_TrigramScore := cd_TrigramScore candidate\<rparr> else old)"

definition rrf :: "'f float_ops \<Rightarrow> nat \<Rightarrow> 'f" where
  "rrf fl rank = f_div fl (f_dec fl 1 0) (f_dec fl (61 + int rank) 0)"

definition append_one :: "'f::linorder float_ops \<Rightarrow> nat \<Rightarrow> 'f Candidate \<Rightarrow> 'f Candidate list \<Rightarrow> 'f Candidate list" where
  "append_one fl rank c merged =
     (if list_ex (\<lambda>m. cd_ChunkID m = cd_ChunkID c) merged
      then map (\<lambda>m. if cd_ChunkID m = cd_ChunkID c then fuse fl (rrf fl rank) c m else m) merged
      else merged @ [c\<lparr>cd_HybridScore := rrf fl rank\<rparr>])"

fun appendRanked :: "'f::linorder float_ops \<Rightarrow> nat \<Rightarrow> 'f Candidate list \<Rightarrow> 'f Candidate list \<Rightarrow> 'f Candidate list" where
  "appendRanked fl rank [] merged = merged"
| "appendRanked fl rank (c # cs) merged = appendRanked fl (Suc rank) cs (append_one fl rank c merged)"

definition merge_ranked :: "'f::linorder float_ops \<Rightarrow> 'f Candidate list \<Rightarrow> 'f Candidate list \<Rightarrow> 'f Candidate list" where
  "merge_ranked fl lexicalCandidates vectorCandidates = appendRanked fl 0 vectorCandidates (appendRanked fl 0 lexicalCandidates [])"

text \<open>The position of a number in a list, its length where it does not occur.\<close>

definition index_of :: "int list \<Rightarrow> int \<Rightarrow> nat" where
  "index_of xs x = length (takeWhile (\<lambda>y. y \<noteq> x) xs)"

section \<open>Selection\<close>

text \<open>The loop of \<open>selectDiverse\<close>; the selected results give the seen documents and the counts of notes.\<close>

definition note_count :: "'f Result list \<Rightarrow> int \<Rightarrow> int" where
  "note_count selected n = int (length (filter (\<lambda>r. rs_NoteID r = Some n) selected))"

fun select_loop :: "'f::linorder \<Rightarrow> int \<Rightarrow> 'f Result list \<Rightarrow> 'f Result list \<Rightarrow> 'f Result list" where
  "select_loop threshold limit [] selected = selected"
| "select_loop threshold limit (r # rs) selected =
     (if rs_Confidence r < threshold \<or> rs_DocumentID r \<in> rs_DocumentID ` set selected \<or>
         (case rs_NoteID r of None \<Rightarrow> False | Some n \<Rightarrow> note_count selected n \<ge> MaxChunksPerNote)
      then select_loop threshold limit rs selected
      else if int (length selected) + 1 = limit then selected @ [r]
      else select_loop threshold limit rs (selected @ [r]))"

definition selectDiverse :: "'f::linorder float_ops \<Rightarrow> 'f Result list \<Rightarrow> int \<Rightarrow> 'f \<Rightarrow> 'f Result list" where
  "selectDiverse fl ranked limit minimumConfidence =
     (case ranked of
        [] \<Rightarrow> []
      | best # _ \<Rightarrow> select_loop (max minimumConfidence (f_mul fl (rs_Confidence best) (f_dec fl 72 2))) limit ranked [])"

end
