(* ===== verification/Search.thy ===== *)
theory Search
  imports Retrieval_Scope Rerank
begin

text \<open>
  Retrieval search: the read queries of \<open>retrieval/repository.go\<close> over the evidence tables, the lexical, vector and hybrid retrievers, and
  \<open>Service.Search\<close> of \<open>retrieval/service.go\<close>. Parameters: PostgreSQL's text search and trigram functions and its collation, the embedding service
  and the vector store (\<open>search_deps\<close>, \<open>vector_deps\<close>). The two goroutines of the hybrid retriever only read; the argument \<open>lexicalFirst\<close> says
  which of them finishes first, and so whose error is reported. The clock reading of the response is the argument \<open>took\<close>.
\<close>

section \<open>Store and parameters\<close>

record 'f lexeme_visibility_row =
  lv_ingestion_run_id :: string
  lv_access_scope :: string
  lv_lexeme :: string
  lv_chunk_frequency :: int
  lv_occurrence_count :: int
  lv_inverse_document_frequency :: 'f

record 'f search_store =
  rag :: rag_store
  retrieval_lexeme_visibility_stats :: "'f lexeme_visibility_row list"

type_synonym ('f, 'a) sm = "('f search_store, 'a) dbm"

abbreviation evidence_of :: "'f search_store \<Rightarrow> evidence_tables" where
  "evidence_of t \<equiv> evid (rag t)"

definition on_rag :: "'a rm \<Rightarrow> ('f, 'a) sm" where
  "on_rag m s =
     (case m \<lparr>tables = rag (tables s), seqs = seqs s, faults = faults s, db_now = db_now s\<rparr> of
        (r, s') \<Rightarrow> (r, \<lparr>tables = (tables s)\<lparr>rag := tables s'\<rparr>, seqs = seqs s', faults = faults s', db_now = db_now s'\<rparr>))"

text \<open>
  \<open>tsquery_ok\<close> says whether \<open>to_tsquery\<close> accepts a text. A chunk's search vector is generated from its lexemes, so the search functions take
  the lexemes and the text of the query.
\<close>

record 'f search_deps =
  sd_u :: unicode
  sd_fl :: "'f float_ops"
  sd_coll :: "string \<Rightarrow> int"
  tsquery_ok :: "string \<Rightarrow> bool"
  ts_matches :: "string \<Rightarrow> string \<Rightarrow> bool"
  ts_rank :: "string \<Rightarrow> string \<Rightarrow> 'f"
  ts_rank_cd :: "string \<Rightarrow> string \<Rightarrow> 'f"
  trgm_similarity :: "string \<Rightarrow> string \<Rightarrow> 'f"

record 'f vector_deps =
  EmbedQuery :: "string \<Rightarrow> string + 'f list"
  store_Query :: "string \<Rightarrow> 'f list \<Rightarrow> json \<Rightarrow> int \<Rightarrow> string + (int \<times> 'f) list"

text \<open>A service; the vector retrievers exist once \<open>EnableVector\<close> has installed their dependencies.\<close>

record 'f search_service =
  ss_deps :: "'f search_deps"
  ss_vector :: "'f vector_deps option"

definition NewService :: "'f search_deps \<Rightarrow> 'f search_service" where
  "NewService sd = \<lparr>ss_deps = sd, ss_vector = None\<rparr>"

definition ErrIndexNotReady :: go_error where "ErrIndexNotReady = ErrorString ''retrieval index is not ready''"
definition ErrUnsupportedMode :: go_error where "ErrUnsupportedMode = ErrorString ''retrieval mode is not implemented''"
definition ErrIndexVersionMismatch :: go_error where "ErrIndexVersionMismatch = ErrorString ''retrieval index version mismatch''"
definition ErrDependencyUnavailable :: go_error where "ErrDependencyUnavailable = ErrorString ''retrieval dependency unavailable''"

definition validateVectorDependencies :: "'e option \<Rightarrow> 's option \<Rightarrow> go_error option" where
  "validateVectorDependencies embedder store =
     (if embedder = None \<or> store = None then Some (DetailError ErrUnsupportedMode ''vector dependencies are not configured'') else None)"

definition EnableVector ::
  "'f search_service \<Rightarrow> (string \<Rightarrow> string + 'f list) option \<Rightarrow> (string \<Rightarrow> 'f list \<Rightarrow> json \<Rightarrow> int \<Rightarrow> string + (int \<times> 'f) list) option \<Rightarrow>
   go_error + 'f search_service" where
  "EnableVector sv embedder store =
     (case validateVectorDependencies embedder store of
        Some e \<Rightarrow> Inl e
      | None \<Rightarrow> Inr (sv\<lparr>ss_vector := Some \<lparr>EmbedQuery = the embedder, store_Query = the store\<rparr>\<rparr>))"

definition RetrieverVersion :: string where "RetrieverVersion = ''postgres_fts_lexical_v3''"
definition VectorRetrieverVersion :: string where "VectorRetrieverVersion = ''qdrant_qwen3_dense_v1''"
definition HybridRetrieverVersion :: string where "HybridRetrieverVersion = ''rrf_lexical_dense_v3''"
definition RerankerVersion :: string where "RerankerVersion = ''weighted_coverage_v2''"
definition DefaultLimit :: int where "DefaultLimit = 10"
definition MaxLimit :: int where "MaxLimit = 50"
definition DefaultCandidateLimit :: int where "DefaultCandidateLimit = 240"

record Filters =
  fs_DocumentTypes :: "string list"
  fs_SourceTypes :: "string list"

record SearchInput =
  si_ProjectID :: int
  si_DatasetVersionID :: int
  si_IngestionRunID :: string
  si_Query :: string
  si_Mode :: string
  si_Limit :: int
  si_Filters :: Filters

record QuerySummary =
  qs_Original :: string
  qs_Terms :: "string list"
  qs_IndexedTerms :: "string list"
  qs_CandidateTerms :: "string list"
  qs_HintedNoteIDs :: "int list"
  qs_PreferredType :: string

record 'f SearchDecision =
  dc_Status :: string
  dc_Reason :: string
  dc_Threshold :: 'f
  dc_TopConfidence :: 'f

record 'f SearchResponse =
  sr_Mode :: string
  sr_RetrieverVersion :: string
  sr_RerankerVersion :: string
  sr_Scope :: Scope
  sr_Query :: QuerySummary
  sr_Decision :: "'f SearchDecision"
  sr_Results :: "'f Result list"
  sr_CandidateCount :: int
  sr_TookMilliseconds :: 'f
  sr_ExternalModelCalls :: int
  sr_EmbeddingCalls :: int

section \<open>Statistics\<close>

definition GetTermStats :: "string \<Rightarrow> string \<Rightarrow> string list \<Rightarrow> ('f, 'f stats) sm" where
  "GetTermStats ingestionRunID accessScope terms =
     (if terms = [] then returnE Map.empty
      else mapErr (WrapError ''load query term statistics'') (selectE (\<lambda>t.
        foldl (\<lambda>m r. m(lv_lexeme r \<mapsto> \<lparr>ts_Lexeme = lv_lexeme r, ts_ChunkFrequency = lv_chunk_frequency r,
            ts_OccurrenceCount = lv_occurrence_count r, ts_InverseDocumentFrequency = lv_inverse_document_frequency r\<rparr>)) Map.empty
          (filter (\<lambda>r. lv_ingestion_run_id r = ingestionRunID \<and> lv_access_scope r = accessScope \<and> lv_lexeme r \<in> set terms)
             (retrieval_lexeme_visibility_stats t)))))"

section \<open>Documents and chunks\<close>

text \<open>
  \<open>NULLIF(source_payload->>'name','')\<close> cast to an integer. The capture triggers write integers or nulls, on which the cast cannot fail.
\<close>

definition payload_int :: "string \<Rightarrow> source_payload_row option \<Rightarrow> int option" where
  "payload_int name p =
     (case p of
        None \<Rightarrow> None
      | Some r \<Rightarrow>
         (case sp_source_payload r of
            JObj ms \<Rightarrow> (case map_of ms name of Some (JInt n) \<Rightarrow> Some n | _ \<Rightarrow> None)
          | _ \<Rightarrow> None))"

definition payload_of :: "evidence_tables \<Rightarrow> int option \<Rightarrow> source_payload_row option" where
  "payload_of t source =
     (case source of None \<Rightarrow> None | Some i \<Rightarrow> find (\<lambda>p. sp_evidence_source_id p = i) (evidence_source_payloads t))"

definition primary_payload :: "evidence_tables \<Rightarrow> document_row \<Rightarrow> source_payload_row option" where
  "primary_payload t d =
     (case find (\<lambda>x. ds_document_id x = ed_id d \<and> ds_source_order x = 0) (evidence_document_sources t) of
        None \<Rightarrow> None
      | Some x \<Rightarrow> payload_of t (ds_evidence_source_id x))"

definition doc_note_id :: "evidence_tables \<Rightarrow> document_row \<Rightarrow> int option" where
  "doc_note_id t d =
     (if ed_source_type d \<in> {''note'', ''note_comment_cluster'', ''note_daily_fact''} then ed_source_id d
      else if ed_source_type d = ''note_media'' then payload_int ''note_id'' (primary_payload t d) else None)"

definition doc_media_position :: "evidence_tables \<Rightarrow> document_row \<Rightarrow> int option" where
  "doc_media_position t d = (if ed_source_type d = ''note_media'' then payload_int ''position'' (primary_payload t d) else None)"

definition doc_visible :: "store \<Rightarrow> int \<Rightarrow> document_row \<Rightarrow> bool" where
  "doc_visible c userID d =
     (case find (\<lambda>p. p_id p = ed_project_id d \<and> p_status p = ''active'') (projects c) of
        None \<Rightarrow> False
      | Some p \<Rightarrow>
          (p_visibility p = ''public'' \<and> ed_visibility d = ''public'') \<or>
          exists_row (\<lambda>m. m_project_id m = ed_project_id d \<and> m_user_id m = userID \<and> m_status m = ''active'') (project_members c))"

text \<open>The document rests on a withdrawn source that no newer version replaces.\<close>

definition doc_withdrawn :: "evidence_tables \<Rightarrow> document_row \<Rightarrow> bool" where
  "doc_withdrawn t d = doc_has_source t (ed_id d) (\<lambda>s. source_deleted s \<and> \<not> newer_active_source t s)"

definition filter_admits :: "Filters \<Rightarrow> document_row \<Rightarrow> bool" where
  "filter_admits fs d =
     ((fs_DocumentTypes fs = [] \<or> ed_document_type d \<in> set (fs_DocumentTypes fs)) \<and>
      (fs_SourceTypes fs = [] \<or> ed_source_type d \<in> set (fs_SourceTypes fs)))"

definition doc_eligible :: "rag_store \<Rightarrow> int \<Rightarrow> Filters \<Rightarrow> document_row \<Rightarrow> bool" where
  "doc_eligible t userID fs d =
     (ed_lifecycle_status d \<in> {''ready'', ''superseded''} \<and> doc_visible (core t) userID d \<and> \<not> doc_withdrawn (evid t) d \<and> filter_admits fs d)"

text \<open>The columns both candidate queries scan; the scores a query does not select stay zero.\<close>

definition scan_candidate :: "'f float_ops \<Rightarrow> evidence_tables \<Rightarrow> document_row \<Rightarrow> chunk_row \<Rightarrow> 'f Candidate" where
  "scan_candidate fl t d c =
     \<lparr>cd_DocumentID = ed_id d, cd_DocumentKey = ed_document_key d, cd_DocumentType = ed_document_type d, cd_SourceType = ed_source_type d,
      cd_SourceID = ed_source_id d, cd_SourceVersion = ed_source_version d, cd_NoteID = doc_note_id t d, cd_MediaPosition = doc_media_position t d,
      cd_ChunkID = ec_id c, cd_ChunkKey = ec_chunk_key c, cd_ChunkIndex = ec_chunk_index c, cd_Content = ec_content c,
      cd_ContentHash = ec_content_hash c, cd_Lexemes = ec_lexemes c, cd_StartByte = ec_start_byte c, cd_EndByte = ec_end_byte c,
      cd_FTSScore = f_dec fl 0 0, cd_VectorScore = f_dec fl 0 0, cd_HybridScore = f_dec fl 0 0, cd_TrigramScore = f_dec fl 0 0\<rparr>"

text \<open>The chunks of documents that satisfy a condition, each with its document.\<close>

definition joined_chunks :: "evidence_tables \<Rightarrow> (document_row \<Rightarrow> chunk_row \<Rightarrow> bool) \<Rightarrow> (document_row \<times> chunk_row) list" where
  "joined_chunks t P =
     List.map_filter (\<lambda>c. case doc_by_id t (ec_document_id c) of None \<Rightarrow> None | Some d \<Rightarrow> if P d c then Some (d, c) else None) (evidence_chunks t)"

section \<open>Lexical candidates\<close>

definition hinted_document :: "evidence_tables \<Rightarrow> QueryPlan \<Rightarrow> document_row \<Rightarrow> bool" where
  "hinted_document t plan d =
     (qp_PreferredType plan \<noteq> [] \<and> ed_document_type d = qp_PreferredType plan \<and>
      list_ex (\<lambda>hint. (ed_source_type d = ''note_media'' \<or> ed_source_id d = Some hint) \<and> doc_note_id t d = Some hint) (qp_HintedNoteIDs plan) \<and>
      (qp_PreferredPosition plan = None \<or> payload_int ''position'' (primary_payload t d) = qp_PreferredPosition plan))"

definition eligible_chunks ::
  "'f search_deps \<Rightarrow> rag_store \<Rightarrow> Scope \<Rightarrow> int \<Rightarrow> QueryPlan \<Rightarrow> Filters \<Rightarrow> string \<Rightarrow> (document_row \<times> chunk_row) list" where
  "eligible_chunks sd t sc userID plan fs query =
     joined_chunks (evid t) (\<lambda>d c.
       doc_in_run (evid t) (sc_IngestionRunID sc) (ed_id d) \<and>
       (ts_matches sd (ec_lexemes c) query \<or> hinted_document (evid t) plan d) \<and> doc_eligible t userID fs d)"

definition pre_rank_order :: "'f::linorder search_deps \<Rightarrow> QueryPlan \<Rightarrow> string \<Rightarrow> document_row \<times> chunk_row \<Rightarrow> document_row \<times> chunk_row \<Rightarrow> bool" where
  "pre_rank_order sd plan query =
     then_by (desc_by (\<lambda>(d, c). ed_document_type d = qp_PreferredType plan))
       (then_by (desc_by (\<lambda>(d, c). ts_rank sd (ec_lexemes c) query)) (asc_by (\<lambda>(d, c). ec_id c)))"

definition rank_order :: "'f::linorder search_deps \<Rightarrow> QueryPlan \<Rightarrow> string \<Rightarrow> document_row \<times> chunk_row \<Rightarrow> document_row \<times> chunk_row \<Rightarrow> bool" where
  "rank_order sd plan query =
     then_by (desc_by (\<lambda>(d, c). ed_document_type d = qp_PreferredType plan))
       (then_by (desc_by (\<lambda>(d, c). ts_rank_cd sd (ec_lexemes c) query)) (asc_by (\<lambda>(d, c). ec_id c)))"

definition candidate_order :: "'f::linorder Candidate \<Rightarrow> 'f Candidate \<Rightarrow> bool" where
  "candidate_order = then_by (desc_by cd_FTSScore) (then_by (desc_by cd_TrigramScore) (asc_by cd_ChunkID))"

definition lexical_candidates ::
  "'f::linorder search_deps \<Rightarrow> rag_store \<Rightarrow> Scope \<Rightarrow> int \<Rightarrow> QueryPlan \<Rightarrow> Filters \<Rightarrow> int \<Rightarrow> 'f Candidate list" where
  "lexical_candidates sd t sc userID plan fs limit =
     (let query = BuildTSQuery (qp_Terms plan);
          pre_ranked = take (nat (limit * 2)) (sort_by (pre_rank_order sd plan query) (eligible_chunks sd t sc userID plan fs query));
          ranked = take (nat limit) (sort_by (rank_order sd plan query) pre_ranked) in
      sort_by candidate_order (map (\<lambda>(d, c). (scan_candidate (sd_fl sd) (evid t) d c)
        \<lparr>cd_FTSScore := ts_rank_cd sd (ec_lexemes c) query, cd_TrigramScore := trgm_similarity sd (ec_content c) (qp_Original plan)\<rparr>) ranked))"

definition SearchLexicalCandidates ::
  "'f::linorder search_deps \<Rightarrow> Scope \<Rightarrow> int \<Rightarrow> QueryPlan \<Rightarrow> Filters \<Rightarrow> int \<Rightarrow> ('f, 'f Candidate list) sm" where
  "SearchLexicalCandidates sd sc userID plan fs limit =
     mapErr (WrapError ''search lexical candidates'') (execE (\<lambda>now t.
       if tsquery_ok sd (BuildTSQuery (qp_Terms plan)) then Inr (lexical_candidates sd (rag t) sc userID plan fs limit, t)
       else Inl (PgError ''42601'' ''syntax error in tsquery'')))"

section \<open>Vector candidates\<close>

definition authorized_candidates :: "'f search_deps \<Rightarrow> rag_store \<Rightarrow> Scope \<Rightarrow> int \<Rightarrow> int list \<Rightarrow> Filters \<Rightarrow> 'f Candidate list" where
  "authorized_candidates sd t sc userID chunkIDs fs =
     map (\<lambda>(d, c). scan_candidate (sd_fl sd) (evid t) d c)
       (sort_key (\<lambda>(d, c). index_of chunkIDs (ec_id c))
         (joined_chunks (evid t) (\<lambda>d c.
            ec_id c \<in> set chunkIDs \<and> doc_in_run (evid t) (sc_IngestionRunID sc) (ed_id d) \<and> ed_project_id d = sc_ProjectID sc \<and>
            doc_eligible t userID fs d)))"

definition LoadAuthorizedCandidates :: "'f search_deps \<Rightarrow> Scope \<Rightarrow> int \<Rightarrow> int list \<Rightarrow> Filters \<Rightarrow> ('f, 'f Candidate list) sm" where
  "LoadAuthorizedCandidates sd sc userID chunkIDs fs =
     (if chunkIDs = [] then returnE []
      else mapErr (WrapError ''load authorized vector candidates'') (selectE (\<lambda>t. authorized_candidates sd (rag t) sc userID chunkIDs fs)))"

definition fieldMatch :: "string \<Rightarrow> json \<Rightarrow> json" where
  "fieldMatch field val = JObj [(''key'', JStr field), (''match'', JObj [(''value'', val)])]"

definition fieldMatchAny :: "string \<Rightarrow> json list \<Rightarrow> json" where
  "fieldMatchAny field vals = JObj [(''key'', JStr field), (''match'', JObj [(''any'', JArr vals)])]"

definition vectorFilter :: "Scope \<Rightarrow> QueryPlan \<Rightarrow> Filters \<Rightarrow> json" where
  "vectorFilter sc plan fs =
     JObj [(''must'', JArr (
       [fieldMatch ''project_id'' (JInt (sc_ProjectID sc)), fieldMatchAny ''document_lifecycle'' [JStr ''ready'', JStr ''superseded'']] @
       (if sc_AccessScope sc = ''public''
        then [fieldMatch ''project_visibility'' (JStr ''public''), fieldMatch ''document_visibility'' (JStr ''public'')] else []) @
       (if fs_DocumentTypes fs \<noteq> [] then [fieldMatchAny ''document_type'' (map JStr (fs_DocumentTypes fs))] else []) @
       (if fs_SourceTypes fs \<noteq> [] then [fieldMatchAny ''source_type'' (map JStr (fs_SourceTypes fs))] else []) @
       (if qp_HintedNoteIDs plan \<noteq> [] then [fieldMatchAny ''note_id'' (map JInt (qp_HintedNoteIDs plan))] else []) @
       (case qp_PreferredPosition plan of None \<Rightarrow> [] | Some p \<Rightarrow> [fieldMatch ''media_position'' (JInt p)])))]"

text \<open>The map \<open>scores\<close>: the last hit of a chunk wins.\<close>

definition hit_score :: "'f float_ops \<Rightarrow> (int \<times> 'f) list \<Rightarrow> int \<Rightarrow> 'f" where
  "hit_score fl hits i = (case map_of (rev hits) i of None \<Rightarrow> f_dec fl 0 0 | Some x \<Rightarrow> x)"

definition vector_Retrieve ::
  "'f search_deps \<Rightarrow> 'f vector_deps \<Rightarrow> Scope \<Rightarrow> int \<Rightarrow> QueryPlan \<Rightarrow> Filters \<Rightarrow> int \<Rightarrow> ('f, 'f Candidate list) sm" where
  "vector_Retrieve sd vd sc userID plan fs limit =
     (if sc_VectorIndexVersion sc \<noteq> VectorIndexVersion \<or> sc_VectorCollection sc = [] then throwE ErrIndexNotReady
      else case EmbedQuery vd (qp_Original plan) of
        Inl m \<Rightarrow> throwE (DetailError ErrDependencyUnavailable (''embed retrieval query: '' @ m))
      | Inr vector \<Rightarrow>
         (case store_Query vd (sc_VectorCollection sc) vector (vectorFilter sc plan fs) limit of
            Inl m \<Rightarrow> throwE (DetailError ErrDependencyUnavailable (''query vector store: '' @ m))
          | Inr hits \<Rightarrow>
              bindE (LoadAuthorizedCandidates sd sc userID (map fst hits) fs) (\<lambda>candidates.
              returnE (map (\<lambda>c. c\<lparr>cd_VectorScore := hit_score (sd_fl sd) hits (cd_ChunkID c)\<rparr>) candidates))))"

section \<open>Hybrid candidates\<close>

definition hybrid_Retrieve ::
  "'f::linorder search_deps \<Rightarrow> 'f vector_deps \<Rightarrow> bool \<Rightarrow> Scope \<Rightarrow> int \<Rightarrow> QueryPlan \<Rightarrow> Filters \<Rightarrow> int \<Rightarrow> ('f, 'f Candidate list) sm" where
  "hybrid_Retrieve sd vd lexicalFirst sc userID plan fs limit =
     (let lexical = SearchLexicalCandidates sd sc userID plan fs limit; vector = vector_Retrieve sd vd sc userID plan fs limit in
      if lexicalFirst then bindE lexical (\<lambda>lc. bindE vector (\<lambda>vc. returnE (merge_ranked (sd_fl sd) lc vc)))
      else bindE vector (\<lambda>vc. bindE lexical (\<lambda>lc. returnE (merge_ranked (sd_fl sd) lc vc))))"

section \<open>Citations\<close>

definition citation_quote :: "document_row \<Rightarrow> citation_row \<Rightarrow> string" where
  "citation_quote d r = take (nat (ct_document_end_byte r - ct_document_start_byte r)) (drop (nat (ct_document_start_byte r)) (ed_canonical_text d))"

definition scan_citation :: "evidence_tables \<Rightarrow> document_row \<Rightarrow> citation_row \<Rightarrow> Citation" where
  "scan_citation t d r =
     (let payload = payload_of t (ct_evidence_source_id r) in
      \<lparr>cn_CitationID = ct_id r, cn_CitationKey = ct_citation_key r, cn_ProjectID = ct_project_id r, cn_DatasetID = ct_dataset_id r,
       cn_DatasetVersionID = ct_dataset_version_id r, cn_DocumentID = ct_document_id r, cn_ChunkID = ct_chunk_id r, cn_SourceType = ct_source_type r,
       cn_SourceID = ct_source_id r, cn_SourceVersion = ct_source_version r,
       cn_NoteID = (if ct_source_type r \<in> {''note'', ''note_daily_fact''} then Some (ct_source_id r)
          else if ct_source_type r \<in> {''note_media'', ''note_comment''} then payload_int ''note_id'' payload else None),
       cn_MediaPosition = (if ct_source_type r = ''note_media'' then payload_int ''position'' payload else None),
       cn_SourceContentHash = ct_source_content_hash r, cn_ParserVersion = ct_parser_version r,
       cn_DocumentStartByte = ct_document_start_byte r, cn_DocumentEndByte = ct_document_end_byte r,
       cn_SourceStartByte = ct_source_start_byte r, cn_SourceEndByte = ct_source_end_byte r,
       cn_Quote = citation_quote d r, cn_QuoteHash = ct_quote_hash r\<rparr>)"

definition joined_citations :: "evidence_tables \<Rightarrow> int list \<Rightarrow> (document_row \<times> citation_row) list" where
  "joined_citations t chunkIDs =
     List.map_filter (\<lambda>r. case doc_by_id t (ct_document_id r) of None \<Rightarrow> None | Some d \<Rightarrow> Some (d, r))
       (sort_key (\<lambda>r. (ct_chunk_id r, ct_document_start_byte r, ct_id r)) (filter (\<lambda>r. ct_chunk_id r \<in> set chunkIDs) (source_citations t)))"

text \<open>\<open>convert_from\<close> refuses a quotation that is no valid UTF-8, and with it the statement.\<close>

definition LoadCitations :: "int list \<Rightarrow> ('f, int \<Rightarrow> Citation list) sm" where
  "LoadCitations chunkIDs =
     (if chunkIDs = [] then returnE (\<lambda>_. [])
      else mapErr (WrapError ''load citations'') (execE (\<lambda>now t.
        let rows = joined_citations (evidence_of t) chunkIDs in
        if list_all (\<lambda>(d, r). utf8_Valid (citation_quote d r)) rows
        then Inr (\<lambda>i. map (\<lambda>(d, r). scan_citation (evidence_of t) d r) (filter (\<lambda>(d, r). ct_chunk_id r = i) rows), t)
        else Inl (PgError ''22021'' ''invalid byte sequence for encoding''))))"

section \<open>Requests\<close>

definition allowed_filters :: "string list" where
  "allowed_filters = [''note'', ''note_media'', ''note_comment_cluster'', ''note_daily_fact'', ''user_daily_fact'']"

definition validateFilters :: "Filters \<Rightarrow> go_error option" where
  "validateFilters fs =
     (case find (\<lambda>v. v \<notin> set allowed_filters) (fs_DocumentTypes fs @ fs_SourceTypes fs) of
        None \<Rightarrow> None
      | Some v \<Rightarrow> Some (DetailError RetrievalErrInvalidInput (''unsupported retrieval filter '' @ quoted v)))"

definition validateScopeIndex :: "Scope \<Rightarrow> string \<Rightarrow> go_error option" where
  "validateScopeIndex sc mode =
     (if (mode = ModeLexical \<or> mode = ModeHybrid) \<and> sc_LexicalIndexVersion sc = [] then Some ErrIndexNotReady
      else if (mode = ModeLexical \<or> mode = ModeHybrid) \<and> sc_LexicalIndexVersion sc \<noteq> LexicalIndexVersion then Some ErrIndexVersionMismatch
      else if (mode = ModeVector \<or> mode = ModeHybrid) \<and> sc_VectorIndexVersion sc = [] then Some ErrIndexNotReady
      else if (mode = ModeVector \<or> mode = ModeHybrid) \<and> sc_VectorIndexVersion sc \<noteq> VectorIndexVersion then Some ErrIndexVersionMismatch
      else None)"

definition retrieverVersion :: "string \<Rightarrow> string" where
  "retrieverVersion mode =
     (if mode = ModeVector then VectorRetrieverVersion else if mode = ModeHybrid then HybridRetrieverVersion else RetrieverVersion)"

definition thresholdForMode :: "'f float_ops \<Rightarrow> string \<Rightarrow> 'f" where
  "thresholdForMode fl mode = (if mode = ModeVector then f_dec fl 45 2 else if mode = ModeHybrid then f_dec fl 60 2 else f_dec fl 30 2)"

definition embeddingCallsForMode :: "string \<Rightarrow> int" where
  "embeddingCallsForMode mode = (if mode = ModeVector \<or> mode = ModeHybrid then 1 else 0)"

definition mode_enabled :: "'f search_service \<Rightarrow> string \<Rightarrow> bool" where
  "mode_enabled sv mode = (mode = ModeLexical \<or> ss_vector sv \<noteq> None \<and> (mode = ModeVector \<or> mode = ModeHybrid))"

definition Retrieve ::
  "'f::linorder search_service \<Rightarrow> bool \<Rightarrow> string \<Rightarrow> Scope \<Rightarrow> int \<Rightarrow> QueryPlan \<Rightarrow> Filters \<Rightarrow> int \<Rightarrow> ('f, 'f Candidate list) sm" where
  "Retrieve sv lexicalFirst mode sc userID plan fs limit =
     (case ss_vector sv of
        Some vd \<Rightarrow>
          if mode = ModeVector then vector_Retrieve (ss_deps sv) vd sc userID plan fs limit
          else if mode = ModeHybrid then hybrid_Retrieve (ss_deps sv) vd lexicalFirst sc userID plan fs limit
          else SearchLexicalCandidates (ss_deps sv) sc userID plan fs limit
      | None \<Rightarrow> SearchLexicalCandidates (ss_deps sv) sc userID plan fs limit)"

definition rank_for_mode :: "'f::linorder float_ops \<Rightarrow> string \<Rightarrow> 'f Candidate list \<Rightarrow> QueryPlan \<Rightarrow> 'f stats \<Rightarrow> 'f Result list" where
  "rank_for_mode fl mode candidates plan stats =
     (if mode = ModeVector then rankVectorCandidates fl candidates
      else if mode = ModeHybrid then rankHybridCandidates fl candidates plan stats
      else rankCandidates fl candidates plan stats)"

definition blank_scope :: Scope where
  "blank_scope = \<lparr>sc_ProjectID = 0, sc_ProjectVisibility = [], sc_DatasetID = 0, sc_DatasetVersionID = 0, sc_DatasetVersion = 0,
     sc_DatasetManifestChecksum = [], sc_IngestionRunID = [], sc_IngestionOutputChecksum = [], sc_ParserVersion = [], sc_ChunkerVersion = [],
     sc_TokenizerVersion = [], sc_LexicalIndexVersion = [], sc_LexicalIndexChecksum = [], sc_VectorIndexVersion = [], sc_VectorIndexChecksum = [],
     sc_VectorCollection = [], sc_EmbeddingModel = [], sc_EmbeddingRevision = [], sc_AccessScope = []\<rparr>"

definition redactedNoAccessResponse :: "'f float_ops \<Rightarrow> string \<Rightarrow> SearchInput \<Rightarrow> QueryPlan \<Rightarrow> 'f \<Rightarrow> 'f SearchResponse" where
  "redactedNoAccessResponse fl mode input plan took =
     \<lparr>sr_Mode = mode, sr_RetrieverVersion = retrieverVersion mode, sr_RerankerVersion = RerankerVersion,
      sr_Scope = blank_scope\<lparr>sc_ProjectID := si_ProjectID input, sc_DatasetVersionID := si_DatasetVersionID input\<rparr>,
      sr_Query = \<lparr>qs_Original = qp_Original plan, qs_Terms = qp_Terms plan, qs_IndexedTerms = [], qs_CandidateTerms = [], qs_HintedNoteIDs = [], qs_PreferredType = []\<rparr>,
      sr_Decision = \<lparr>dc_Status = ''no_relevant_document'', dc_Reason = ''no authorized evidence'', dc_Threshold = thresholdForMode fl mode,
        dc_TopConfidence = f_dec fl 0 0\<rparr>,
      sr_Results = [], sr_CandidateCount = 0, sr_TookMilliseconds = took, sr_ExternalModelCalls = 0, sr_EmbeddingCalls = 0\<rparr>"

section \<open>Search\<close>

text \<open>The citations are attached result by result; a result without one aborts the request.\<close>

fun attach_citations :: "(int \<Rightarrow> Citation list) \<Rightarrow> nat \<Rightarrow> 'f Result list \<Rightarrow> go_error + 'f Result list" where
  "attach_citations citations index [] = Inr []"
| "attach_citations citations index (r # rs) =
     (if citations (rs_ChunkID r) = []
      then Inl (ErrorString (''retrieval invariant violation: chunk '' @ FormatInt (rs_ChunkID r) @ '' has no source citation''))
      else case attach_citations citations (Suc index) rs of
        Inl e \<Rightarrow> Inl e
      | Inr rs' \<Rightarrow> Inr (r\<lparr>rs_Citations := citations (rs_ChunkID r), rs_Rank := int index + 1\<rparr> # rs'))"

definition base_response ::
  "'f float_ops \<Rightarrow> string \<Rightarrow> Scope \<Rightarrow> QueryPlan \<Rightarrow> string list \<Rightarrow> string list \<Rightarrow> 'f \<Rightarrow> 'f SearchResponse" where
  "base_response fl mode sc plan indexedTerms candidateTerms took =
     \<lparr>sr_Mode = mode, sr_RetrieverVersion = retrieverVersion mode, sr_RerankerVersion = RerankerVersion, sr_Scope = sc,
      sr_Query = \<lparr>qs_Original = qp_Original plan, qs_Terms = qp_Terms plan, qs_IndexedTerms = indexedTerms, qs_CandidateTerms = candidateTerms,
        qs_HintedNoteIDs = qp_HintedNoteIDs plan, qs_PreferredType = qp_PreferredType plan\<rparr>,
      sr_Decision = \<lparr>dc_Status = ''no_relevant_document'', dc_Reason = ''no candidates passed the retrieval threshold'',
        dc_Threshold = thresholdForMode fl mode, dc_TopConfidence = f_dec fl 0 0\<rparr>,
      sr_Results = [], sr_CandidateCount = 0, sr_TookMilliseconds = took, sr_ExternalModelCalls = embeddingCallsForMode mode,
      sr_EmbeddingCalls = embeddingCallsForMode mode\<rparr>"

text \<open>From the ranked candidates to the response.\<close>

definition answer :: "'f::linorder float_ops \<Rightarrow> string \<Rightarrow> int \<Rightarrow> 'f SearchResponse \<Rightarrow> 'f Result list \<Rightarrow> ('f, 'f SearchResponse) sm" where
  "answer fl mode limit response ranked =
     (let minimumConfidence = thresholdForMode fl mode;
          below = response\<lparr>sr_Decision := (sr_Decision response)\<lparr>dc_Reason := ''top candidate is below the retrieval confidence threshold''\<rparr>\<rparr> in
      case ranked of
        [] \<Rightarrow> returnE below
      | best # _ \<Rightarrow>
          if rs_Confidence best < minimumConfidence
          then returnE (below\<lparr>sr_Decision := (sr_Decision below)\<lparr>dc_TopConfidence := rs_Confidence best\<rparr>\<rparr>)
          else
            let selected = selectDiverse fl ranked limit minimumConfidence in
            bindE (LoadCitations (map rs_ChunkID selected)) (\<lambda>citations.
            bindE (liftE (attach_citations citations 0 selected)) (\<lambda>cited.
            case cited of
              [] \<Rightarrow> throwE (RuntimePanic ''index out of range [0] with length 0'')
            | c # _ \<Rightarrow> returnE (response
                \<lparr>sr_Decision := \<lparr>dc_Status = ''candidates'', dc_Reason = ''top candidate passed the retrieval confidence threshold'',
                   dc_Threshold = minimumConfidence, dc_TopConfidence = rs_Confidence c\<rparr>,
                 sr_Results := cited\<rparr>))))"

definition effective_filters :: "Filters \<Rightarrow> QueryPlan \<Rightarrow> Filters" where
  "effective_filters fs plan =
     (if fs_DocumentTypes fs = [] \<and> qp_PreferredType plan \<noteq> [] then fs\<lparr>fs_DocumentTypes := [qp_PreferredType plan]\<rparr> else fs)"

text \<open>The part of \<open>Search\<close> after the access check; \<open>sc\<close> carries the access scope.\<close>

definition search_in_scope ::
  "'f::linorder search_service \<Rightarrow> bool \<Rightarrow> 'f \<Rightarrow> int \<Rightarrow> SearchInput \<Rightarrow> QueryPlan \<Rightarrow> Scope \<Rightarrow> ('f, 'f SearchResponse) sm" where
  "search_in_scope sv lexicalFirst took userID input plan sc =
     (let mode = si_Mode input; fl = sd_fl (ss_deps sv) in
      bindE (if mode = ModeVector then returnE Map.empty else GetTermStats (sc_IngestionRunID sc) (sc_AccessScope sc) (qp_Terms plan)) (\<lambda>stats.
      let indexedTerms = filter (\<lambda>t. stats t \<noteq> None) (qp_Terms plan);
          candidateTerms = selectCandidateTerms fl (sd_u (ss_deps sv)) plan indexedTerms stats 12;
          response = base_response fl mode sc plan indexedTerms candidateTerms took in
      if mode = ModeLexical \<and> candidateTerms = [] then returnE response
      else bindE (Retrieve sv lexicalFirst mode sc userID (plan\<lparr>qp_AllTerms := qp_Terms plan, qp_Terms := candidateTerms\<rparr>)
                    (effective_filters (si_Filters input) plan) DefaultCandidateLimit) (\<lambda>candidates.
        answer fl mode (si_Limit input) (response\<lparr>sr_CandidateCount := int (length candidates)\<rparr>) (rank_for_mode fl mode candidates plan stats))))"

definition search_input_error :: "'f search_service \<Rightarrow> SearchInput \<Rightarrow> go_error option" where
  "search_input_error sv input =
     (if si_ProjectID input < 0 \<or> si_DatasetVersionID input < 0
      then Some (DetailError RetrievalErrInvalidInput ''scope identifiers cannot be negative'')
      else if \<not> mode_enabled sv (if si_Mode input = [] then ModeLexical else si_Mode input)
      then Some (DetailError ErrUnsupportedMode (''mode '' @ quoted (si_Mode input)))
      else let limit = (if si_Limit input = 0 then DefaultLimit else si_Limit input) in
        if limit < 1 \<or> limit > MaxLimit
        then Some (DetailError RetrievalErrInvalidInput (''limit must be between 1 and '' @ FormatInt MaxLimit))
        else validateFilters (si_Filters input))"

definition normalize_search :: "SearchInput \<Rightarrow> SearchInput" where
  "normalize_search input = input
     \<lparr>si_Query := TrimSpace (si_Query input), si_IngestionRunID := TrimSpace (si_IngestionRunID input),
      si_ProjectID := (if si_ProjectID input = 0 then 1 else si_ProjectID input),
      si_Mode := (if si_Mode input = [] then ModeLexical else si_Mode input),
      si_Limit := (if si_Limit input = 0 then DefaultLimit else si_Limit input)\<rparr>"

definition Search :: "'f::linorder search_service \<Rightarrow> bool \<Rightarrow> 'f \<Rightarrow> int \<Rightarrow> SearchInput \<Rightarrow> ('f, 'f SearchResponse) sm" where
  "Search sv lexicalFirst took userID raw =
     (case search_input_error sv raw of
        Some e \<Rightarrow> throwE e
      | None \<Rightarrow>
         let input = normalize_search raw in
         bindE (liftE (BuildQueryPlan (sd_u (ss_deps sv)) (si_Query input))) (\<lambda>plan.
         bindE (on_rag (ResolveScope (sd_coll (ss_deps sv)) (si_ProjectID input) (si_DatasetVersionID input) (si_IngestionRunID input))) (\<lambda>sc.
         bindE (on_rag (ResolveAccess sc userID)) (\<lambda>accessScope.
         if accessScope = ''none'' then returnE (redactedNoAccessResponse (sd_fl (ss_deps sv)) (si_Mode input) input plan took)
         else case validateScopeIndex (sc\<lparr>sc_AccessScope := accessScope\<rparr>) (si_Mode input) of
           Some e \<Rightarrow> throwE e
         | None \<Rightarrow> search_in_scope sv lexicalFirst took userID input plan (sc\<lparr>sc_AccessScope := accessScope\<rparr>)))))"

end
