(* ===== verification/Query_Props.thy ===== *)
theory Query_Props
  imports Rerank
begin

text \<open>
  Correctness of the query planner, of the choice of candidate terms and of reciprocal rank fusion.
\<close>

section \<open>Terms of a plan\<close>

lemma collect_terms_spec:
  assumes "collect_terms u tokens terms single = (terms', single')" "distinct terms" "length terms < MaxQueryTerms"
  shows "distinct terms'" "length terms' \<le> MaxQueryTerms" "set terms' \<subseteq> set terms \<union> set tokens" "set terms \<subseteq> set terms'"
    "set single' \<subseteq> set single \<union> set tokens"
    "length terms' < MaxQueryTerms \<Longrightarrow> t \<in> set tokens \<Longrightarrow> \<not> isHanToken u t 1 \<Longrightarrow> \<not> dropped_token u t \<Longrightarrow> t \<in> set terms'"
proof -
  have "distinct terms' \<and> length terms' \<le> MaxQueryTerms \<and> set terms' \<subseteq> set terms \<union> set tokens \<and> set terms \<subseteq> set terms' \<and>
      set single' \<subseteq> set single \<union> set tokens \<and>
      (length terms' < MaxQueryTerms \<longrightarrow> (\<forall>t\<in>set tokens. \<not> isHanToken u t 1 \<longrightarrow> \<not> dropped_token u t \<longrightarrow> t \<in> set terms'))"
    using assms
  proof (induction tokens arbitrary: terms single)
    case (Cons x tokens)
    show ?case
    proof (cases "x \<in> set terms \<or> isHanToken u x 1 \<or> dropped_token u x")
      case True
      then obtain s where run: "collect_terms u tokens terms s = (terms', single')" "set s \<subseteq> set single \<union> {x}"
        using Cons.prems(1) by (auto split: if_splits)
      show ?thesis using Cons.IH [OF run(1) Cons.prems(2,3)] run(2) True by auto
    next
      case False
      show ?thesis
      proof (cases "length terms + 1 = MaxQueryTerms")
        case True
        then have "terms' = terms @ [x]" "single' = single" using False Cons.prems(1) by auto
        then show ?thesis using True False Cons.prems(2) by auto
      next
        case more: False
        then have run: "collect_terms u tokens (terms @ [x]) single = (terms', single')" using False Cons.prems(1) by auto
        have "distinct (terms @ [x])" "length (terms @ [x]) < MaxQueryTerms" using False more Cons.prems(2,3) by auto
        from Cons.IH [OF run this] show ?thesis by auto
      qed
    qed
  qed auto
  then show "distinct terms'" "length terms' \<le> MaxQueryTerms" "set terms' \<subseteq> set terms \<union> set tokens" "set terms \<subseteq> set terms'"
    "set single' \<subseteq> set single \<union> set tokens"
    "length terms' < MaxQueryTerms \<Longrightarrow> t \<in> set tokens \<Longrightarrow> \<not> isHanToken u t 1 \<Longrightarrow> \<not> dropped_token u t \<Longrightarrow> t \<in> set terms'" by auto
qed

lemma collect_distinct_spec:
  assumes "distinct terms" "length terms < limit"
  shows "distinct (collect_distinct keep limit tokens terms) \<and> length (collect_distinct keep limit tokens terms) \<le> limit \<and>
    set (collect_distinct keep limit tokens terms) \<subseteq> set terms \<union> {t \<in> set tokens. keep t}"
  using assms
proof (induction tokens arbitrary: terms)
  case (Cons x tokens)
  show ?case
  proof (cases "x \<in> set terms \<or> \<not> keep x \<or> length terms + 1 = limit")
    case True
    then show ?thesis using Cons.IH [OF Cons.prems] Cons.prems by auto
  next
    case False
    then have "distinct (terms @ [x])" "length (terms @ [x]) < limit" using Cons.prems by auto
    from Cons.IH [OF this] False show ?thesis by auto
  qed
qed simp

lemma plan_terms_spec:
  "distinct (plan_terms u query)" "length (plan_terms u query) \<le> MaxQueryTerms" "set (plan_terms u query) \<subseteq> set (Tokenize u query)"
  "length (plan_terms u query) < MaxQueryTerms \<Longrightarrow> t \<in> set (Tokenize u query) \<Longrightarrow> \<not> isHanToken u t 1 \<Longrightarrow> \<not> dropped_token u t \<Longrightarrow> t \<in> set (plan_terms u query)"
proof -
  obtain terms single where run: "collect_terms u (Tokenize u query) [] [] = (terms, single)" by (cases "collect_terms u (Tokenize u query) [] []")
  have start: "distinct ([] :: string list)" "length ([] :: string list) < MaxQueryTerms" by (simp_all add: MaxQueryTerms_def)
  note spec = collect_terms_spec [OF run start] and fallback = collect_distinct_spec [OF start, of "\<lambda>_. True" single]
  show "distinct (plan_terms u query)" "length (plan_terms u query) \<le> MaxQueryTerms" "set (plan_terms u query) \<subseteq> set (Tokenize u query)"
    "length (plan_terms u query) < MaxQueryTerms \<Longrightarrow> t \<in> set (Tokenize u query) \<Longrightarrow> \<not> isHanToken u t 1 \<Longrightarrow> \<not> dropped_token u t \<Longrightarrow> t \<in> set (plan_terms u query)"
    using spec(1-3,5) fallback spec(6) [of t] by (auto simp: plan_terms_def run split: if_splits)
qed

section \<open>Numbers of a plan\<close>

lemma distinct_positive_spec:
  assumes "distinct result" "\<forall>n\<in>set result. 0 < n \<and> in_int64 n"
  shows "distinct (distinct_positive result ms) \<and> (\<forall>n\<in>set (distinct_positive result ms). 0 < n \<and> in_int64 n)"
  using assms
proof (induction ms arbitrary: result)
  case (Cons m ms)
  show ?case
  proof (cases "ParseInt64 m")
    case None
    then show ?thesis using Cons.IH [OF Cons.prems] by simp
  next
    case (Some n)
    show ?thesis
    proof (cases "n \<le> 0 \<or> n \<in> set result")
      case True
      then show ?thesis using Some Cons.IH [OF Cons.prems] by simp
    next
      case False
      have "distinct (result @ [n])" "\<forall>k\<in>set (result @ [n]). 0 < k \<and> in_int64 k"
        using False Cons.prems ParseInt64_range [OF Some] by auto
      from Cons.IH [OF this] show ?thesis using Some False by simp
    qed
  qed
qed simp

lemma merge_into_spec: "distinct result \<Longrightarrow> distinct (merge_into result vs) \<and> set (merge_into result vs) = set result \<union> set vs"
  by (induction vs arbitrary: result) auto

lemma hinted_notes_spec: "distinct (hinted_notes query)" "n \<in> set (hinted_notes query) \<Longrightarrow> 0 < n \<and> in_int64 n"
proof -
  have ex: "distinct (extractInt64Matches pat query)" "\<forall>n\<in>set (extractInt64Matches pat query). 0 < n \<and> in_int64 n" for pat
    using distinct_positive_spec [of "[]"] by (simp_all add: extractInt64Matches_def)
  have "distinct (mergeInt64 xs ys) \<and> set (mergeInt64 xs ys) = set xs \<union> set ys" for xs ys
    using merge_into_spec [of "[]" xs] merge_into_spec [of "merge_into [] xs" ys] by (simp add: mergeInt64_def)
  then show "distinct (hinted_notes query)" "n \<in> set (hinted_notes query) \<Longrightarrow> 0 < n \<and> in_int64 n"
    using ex by (auto simp: hinted_notes_def Let_def split: if_splits)
qed

text \<open>
  The planner rejects exactly the queries that are blank or longer than 2000 characters, as invalid input. Of any other query it takes tokens
  only, each once and at most 64, and every token worth searching for unless the limit is reached; the notes it points to are different positive 64-bit numbers, and the
  terms of a quoted subject are distinct and at most 64.
\<close>

theorem BuildQueryPlan_spec:
  "case BuildQueryPlan u raw of
     Inl e \<Rightarrow> errors_is e RetrievalErrInvalidInput \<and> (TrimSpace raw = [] \<or> RuneCount (TrimSpace raw) > 2000)
   | Inr plan \<Rightarrow> TrimSpace raw \<noteq> [] \<and> RuneCount (TrimSpace raw) \<le> 2000 \<and> qp_Original plan = TrimSpace raw \<and>
       distinct (qp_Terms plan) \<and> length (qp_Terms plan) \<le> 64 \<and> set (qp_Terms plan) \<subseteq> set (Tokenize u (TrimSpace raw)) \<and>
       (length (qp_Terms plan) < 64 \<longrightarrow> {t \<in> set (Tokenize u (TrimSpace raw)). \<not> isHanToken u t 1 \<and> \<not> dropped_token u t} \<subseteq> set (qp_Terms plan)) \<and>
       distinct (qp_HintedNoteIDs plan) \<and> (\<forall>n\<in>set (qp_HintedNoteIDs plan). 0 < n \<and> in_int64 n) \<and>
       distinct (qp_SubjectTerms plan) \<and> length (qp_SubjectTerms plan) \<le> 64"
proof -
  have start: "distinct ([] :: string list)" "length ([] :: string list) < MaxQueryTerms" by (simp_all add: MaxQueryTerms_def)
  have subject: "distinct (meaningfulTerms u s MaxQueryTerms) \<and> length (meaningfulTerms u s MaxQueryTerms) \<le> 64" for s
    using collect_distinct_spec [OF start, of "\<lambda>token. \<not> isHanToken u token 1 \<and> \<not> dropped_token u token" "Tokenize u s"]
    by (auto simp: meaningfulTerms_def MaxQueryTerms_def)
  have "length (plan_terms u q) \<le> 64" for q using plan_terms_spec(2) [of u q] by (simp add: MaxQueryTerms_def)
  moreover have "{t \<in> set (Tokenize u q). \<not> isHanToken u t 1 \<and> \<not> dropped_token u t} \<subseteq> set (plan_terms u q)" if "length (plan_terms u q) < 64" for q
    using plan_terms_spec(4) [of u q] that by (auto simp: MaxQueryTerms_def)
  ultimately show ?thesis
    using subject plan_terms_spec(1,3) [of u "TrimSpace raw"] hinted_notes_spec(1) [of "TrimSpace raw"] hinted_notes_spec(2) [where query = "TrimSpace raw"]
    by (auto simp: BuildQueryPlan_def Let_def RetrievalMaxQueryRunes_def RetrievalErrInvalidInput_def split: option.splits)
qed

section \<open>Candidate terms\<close>

lemma append_terms_spec:
  assumes "distinct result" "length result \<le> limit"
  shows "distinct (append_terms limit ts maximum result) \<and> length (append_terms limit ts maximum result) \<le> limit \<and>
    set (append_terms limit ts maximum result) \<subseteq> set result \<union> set ts"
  using assms
proof (induction ts arbitrary: maximum result)
  case (Cons t ts)
  show ?case
  proof (cases "length result = limit \<or> maximum = 0 \<or> t \<in> set result")
    case True
    then show ?thesis using Cons.IH [OF Cons.prems, of maximum] Cons.prems by auto
  next
    case False
    then have "distinct (result @ [t])" "length (result @ [t]) \<le> limit" using Cons.prems by auto
    from Cons.IH [OF this, of "maximum - 1"] False show ?thesis by auto
  qed
qed simp

lemma fill_terms_spec:
  assumes "distinct result" "length result \<le> limit"
  shows "distinct (fill_terms limit ts result) \<and> length (fill_terms limit ts result) \<le> limit \<and>
    set (fill_terms limit ts result) \<subseteq> set result \<union> set ts \<and> set result \<subseteq> set (fill_terms limit ts result) \<and>
    (length (fill_terms limit ts result) < limit \<longrightarrow> set ts \<subseteq> set (fill_terms limit ts result))"
  using assms
proof (induction ts arbitrary: result)
  case (Cons t ts)
  show ?case
  proof (cases "length result = limit \<or> t \<in> set result")
    case True
    then show ?thesis using Cons.IH [OF Cons.prems] Cons.prems by auto
  next
    case False
    then have "distinct (result @ [t])" "length (result @ [t]) \<le> limit" using Cons.prems by auto
    from Cons.IH [OF this] False show ?thesis by auto
  qed
qed simp

text \<open>
  The terms sent to the database are distinct, at most as many as allowed, known to the index, and all indexed terms where there is room.
\<close>

lemma selectCandidateTerms_spec:
  assumes "\<And>t. t \<in> set indexed \<Longrightarrow> stats t \<noteq> None"
  shows "distinct (selectCandidateTerms fl u plan indexed stats limit)" "length (selectCandidateTerms fl u plan indexed stats limit) \<le> limit"
    "t \<in> set (selectCandidateTerms fl u plan indexed stats limit) \<Longrightarrow> stats t \<noteq> None"
    "length (selectCandidateTerms fl u plan indexed stats limit) < limit \<Longrightarrow> set indexed \<subseteq> set (selectCandidateTerms fl u plan indexed stats limit)"
proof -
  define w where "w = map fst (sort_by (then_by (desc_by (\<lambda>(t, i). term_idf fl stats t)) (asc_by snd)) (zip indexed [0..<length indexed]))"
  define r1 where "r1 = appendWeighted fl stats limit (qp_SubjectTerms plan) 4 []"
  define r2 where "r2 = appendWeighted fl stats limit (filter (isNumeric u) indexed) 4 r1"
  have run: "selectCandidateTerms fl u plan indexed stats limit = fill_terms limit w r2"
    by (simp add: selectCandidateTerms_def Let_def w_def r1_def r2_def)
  have w: "set w = set indexed" unfolding w_def set_map set_sort_by by (metis length_map list.set_map map_fst_zip map_nth)
  have r1: "distinct r1 \<and> length r1 \<le> limit \<and> set r1 \<subseteq> {t. stats t \<noteq> None}"
    using append_terms_spec [of "[]" limit] unfolding r1_def appendWeighted_def by fastforce
  then have r2: "distinct r2 \<and> length r2 \<le> limit \<and> set r2 \<subseteq> {t. stats t \<noteq> None}"
    using append_terms_spec [of r1 limit] unfolding r2_def appendWeighted_def by fastforce
  then have "distinct (fill_terms limit w r2) \<and> length (fill_terms limit w r2) \<le> limit \<and> set (fill_terms limit w r2) \<subseteq> {t. stats t \<noteq> None} \<and>
      (length (fill_terms limit w r2) < limit \<longrightarrow> set indexed \<subseteq> set (fill_terms limit w r2))"
    using fill_terms_spec [of r2 limit w] w assms by auto
  then show "distinct (selectCandidateTerms fl u plan indexed stats limit)" "length (selectCandidateTerms fl u plan indexed stats limit) \<le> limit"
    "t \<in> set (selectCandidateTerms fl u plan indexed stats limit) \<Longrightarrow> stats t \<noteq> None"
    "length (selectCandidateTerms fl u plan indexed stats limit) < limit \<Longrightarrow> set indexed \<subseteq> set (selectCandidateTerms fl u plan indexed stats limit)"
    unfolding run by auto
qed

section \<open>Reciprocal rank fusion\<close>

lemma fuse_simps [simp]:
  "cd_ChunkID (fuse fl x c m) = cd_ChunkID m" "cd_HybridScore (fuse fl x c m) = f_add fl (cd_HybridScore m) x"
  by (simp_all add: fuse_def Let_def)

lemma append_one_chunks:
  "map cd_ChunkID (append_one fl rank c merged) =
     map cd_ChunkID merged @ (if cd_ChunkID c \<in> cd_ChunkID ` set merged then [] else [cd_ChunkID c])"
  by (auto simp: append_one_def list_ex_iff comp_def rev_image_eqI)

text \<open>One pass over a list of different chunks appends the new ones in their order.\<close>

lemma appendRanked_chunks:
  assumes "distinct (map cd_ChunkID cs)"
  shows "map cd_ChunkID (appendRanked fl rank cs merged) =
     map cd_ChunkID merged @ filter (\<lambda>i. i \<notin> cd_ChunkID ` set merged) (map cd_ChunkID cs)"
  using assms
proof (induction cs arbitrary: rank merged)
  case (Cons c cs)
  let ?m = "append_one fl rank c merged"
  have "cd_ChunkID ` set ?m = cd_ChunkID ` set merged \<union> {cd_ChunkID c}"
    using arg_cong [OF append_one_chunks [of fl rank c merged], of set] by auto
  then have "filter (\<lambda>i. i \<notin> cd_ChunkID ` set ?m) (map cd_ChunkID cs) = filter (\<lambda>i. i \<notin> cd_ChunkID ` set merged) (map cd_ChunkID cs)"
    using Cons.prems by (intro filter_cong) (auto simp: rev_image_eqI)
  then show ?case using Cons.IH [of "Suc rank" ?m] Cons.prems by (simp add: append_one_chunks)
qed simp

text \<open>The score of a chunk before and after a pass.\<close>

definition chunk_score :: "'f Candidate list \<Rightarrow> int \<rightharpoonup> 'f" where
  "chunk_score cs i = map_option cd_HybridScore (find (\<lambda>c. cd_ChunkID c = i) cs)"

lemma chunk_score_in: "distinct (map cd_ChunkID cs) \<Longrightarrow> c \<in> set cs \<Longrightarrow> chunk_score cs (cd_ChunkID c) = Some (cd_HybridScore c)"
  by (induction cs) (auto simp: chunk_score_def)

lemma chunk_score_append_one:
  "chunk_score (append_one fl rank c merged) i =
     (if i = cd_ChunkID c then Some (case chunk_score merged i of None \<Rightarrow> rrf fl rank | Some x \<Rightarrow> f_add fl x (rrf fl rank)) else chunk_score merged i)"
proof -
  have old: "chunk_score (map (\<lambda>m. if cd_ChunkID m = cd_ChunkID c then fuse fl (rrf fl rank) c m else m) merged) i =
      (if i = cd_ChunkID c then map_option (\<lambda>x. f_add fl x (rrf fl rank)) (chunk_score merged i) else chunk_score merged i)"
    by (induction merged) (auto simp: chunk_score_def)
  have new: "chunk_score (merged @ [c\<lparr>cd_HybridScore := rrf fl rank\<rparr>]) i = (if i = cd_ChunkID c then Some (rrf fl rank) else chunk_score merged i)"
    if "\<not> list_ex (\<lambda>m. cd_ChunkID m = cd_ChunkID c) merged"
    using that by (induction merged) (auto simp: chunk_score_def)
  have "chunk_score merged (cd_ChunkID c) \<noteq> None \<longleftrightarrow> list_ex (\<lambda>m. cd_ChunkID m = cd_ChunkID c) merged"
    by (auto simp: chunk_score_def find_None_iff list_ex_iff)
  then show ?thesis using old new unfolding append_one_def by (cases "chunk_score merged (cd_ChunkID c)") auto
qed

lemma index_of_Cons: "index_of (x # xs) i = (if x = i then 0 else Suc (index_of xs i))"
  by (simp add: index_of_def)

lemma chunk_score_appendRanked:
  assumes "distinct (map cd_ChunkID cs)"
  shows "chunk_score (appendRanked fl rank cs merged) i =
     (if i \<in> cd_ChunkID ` set cs
      then Some (let x = rrf fl (rank + index_of (map cd_ChunkID cs) i) in case chunk_score merged i of None \<Rightarrow> x | Some y \<Rightarrow> f_add fl y x)
      else chunk_score merged i)"
  using assms
proof (induction cs arbitrary: rank merged)
  case (Cons c cs)
  show ?case
  proof (cases "i = cd_ChunkID c")
    case True
    then show ?thesis
      using Cons.IH [of "Suc rank" "append_one fl rank c merged"] Cons.prems by (auto simp: chunk_score_append_one index_of_Cons Let_def)
  next
    case False
    then show ?thesis
      using Cons.IH [of "Suc rank" "append_one fl rank c merged"] Cons.prems by (auto simp: chunk_score_append_one index_of_Cons Let_def image_iff)
  qed
qed simp

lemma merge_ranked_parts:
  assumes "distinct (map cd_ChunkID lc)" and "distinct (map cd_ChunkID vc)"
  shows "map cd_ChunkID (merge_ranked fl lc vc) = map cd_ChunkID lc @ filter (\<lambda>i. i \<notin> cd_ChunkID ` set lc) (map cd_ChunkID vc)"
    and "\<forall>m\<in>set (merge_ranked fl lc vc). cd_HybridScore m =
      (let i = cd_ChunkID m; l = rrf fl (index_of (map cd_ChunkID lc) i); v = rrf fl (index_of (map cd_ChunkID vc) i) in
       if i \<notin> cd_ChunkID ` set vc then l else if i \<notin> cd_ChunkID ` set lc then v else f_add fl l v)"
proof -
  let ?first = "appendRanked fl 0 lc []"
  have first: "map cd_ChunkID ?first = map cd_ChunkID lc" using appendRanked_chunks [OF assms(1), of fl 0 "[]"] by simp
  then have ids: "cd_ChunkID ` set ?first = cd_ChunkID ` set lc" by (metis list.set_map)
  show chunks: "map cd_ChunkID (merge_ranked fl lc vc) = map cd_ChunkID lc @ filter (\<lambda>i. i \<notin> cd_ChunkID ` set lc) (map cd_ChunkID vc)"
    using appendRanked_chunks [OF assms(2), of fl 0 ?first] first ids by (simp add: merge_ranked_def)
  then have distinct: "distinct (map cd_ChunkID (merge_ranked fl lc vc))" using assms by auto
  have none: "chunk_score [] i = None" for i by (simp add: chunk_score_def)
  show "\<forall>m\<in>set (merge_ranked fl lc vc). cd_HybridScore m =
      (let i = cd_ChunkID m; l = rrf fl (index_of (map cd_ChunkID lc) i); v = rrf fl (index_of (map cd_ChunkID vc) i) in
       if i \<notin> cd_ChunkID ` set vc then l else if i \<notin> cd_ChunkID ` set lc then v else f_add fl l v)"
  proof
    fix m assume m: "m \<in> set (merge_ranked fl lc vc)"
    then have "cd_ChunkID m \<in> cd_ChunkID ` set lc \<union> cd_ChunkID ` set vc"
      using arg_cong [OF chunks, of set] by (auto simp: set_eq_iff)
    then show "cd_HybridScore m =
      (let i = cd_ChunkID m; l = rrf fl (index_of (map cd_ChunkID lc) i); v = rrf fl (index_of (map cd_ChunkID vc) i) in
       if i \<notin> cd_ChunkID ` set vc then l else if i \<notin> cd_ChunkID ` set lc then v else f_add fl l v)"
      using chunk_score_in [OF distinct m] chunk_score_appendRanked [OF assms(2), of fl 0 ?first "cd_ChunkID m"]
        chunk_score_appendRanked [OF assms(1), of fl 0 "[]" "cd_ChunkID m"]
      by (auto simp: merge_ranked_def Let_def none split: if_splits)
  qed
qed

text \<open>
  The hybrid retriever fuses two rankings of different chunks: it returns every chunk of either ranking once, the lexical ones first, and the
  fused score of a chunk is the sum of \<open>1 / (61 + rank)\<close> over the rankings that contain it.
\<close>

theorem merge_ranked_spec:
  assumes "distinct (map cd_ChunkID lc)" and "distinct (map cd_ChunkID vc)"
  shows "map cd_ChunkID (merge_ranked fl lc vc) = map cd_ChunkID lc @ filter (\<lambda>i. i \<notin> cd_ChunkID ` set lc) (map cd_ChunkID vc) \<and>
    (\<forall>m\<in>set (merge_ranked fl lc vc). cd_HybridScore m =
      (let i = cd_ChunkID m; l = rrf fl (index_of (map cd_ChunkID lc) i); v = rrf fl (index_of (map cd_ChunkID vc) i) in
       if i \<notin> cd_ChunkID ` set vc then l else if i \<notin> cd_ChunkID ` set lc then v else f_add fl l v))"
  using merge_ranked_parts [OF assms] by blast

section \<open>A sample query\<close>

definition search_unicode :: unicode where
  "search_unicode = \<lparr>is_Han = (\<lambda>r. 19968 \<le> r \<and> r \<le> 40959), is_Letter = (\<lambda>r. 97 \<le> r \<and> r \<le> 122), is_Digit = (\<lambda>r. 48 \<le> r \<and> r \<le> 57), to_lower = id\<rparr>"

lemma find_all_step: "find_all m prev [] = []" 
  "find_all m prev (c # cs) = (case m prev (c # cs) of None \<Rightarrow> find_all m (Some c) cs
      | Some (g, n) \<Rightarrow> g # find_all m (Some (last (take (max 1 n) (c # cs)))) (drop (max 1 n) (c # cs)))"
  by (simp add: find_all.simps, subst find_all.simps, simp split: option.splits)

lemma zh_Cons: "zh [] = []" "zh (r # rs) = EncodeRune r @ zh rs" by (simp_all add: zh_def)

lemma sample_runes: "runes ''tok'' = [116, 111, 107]" "RuneCount ''tok'' = 3" 
  by (simp_all add: runes.simps RuneCount.simps DecodeRune_def first_info_def rune_value_def byte_def Let_def)

lemma trim_query: "TrimSpace ''tok'' = ''tok''"
  by (simp add: TrimSpace_def trim_left.simps trim_right.simps DecodeRune_def DecodeLastRune_def IsSpace_def first_info_def
      rune_value_def byte_def Let_def)

lemma sample_chars: "char_of (116::nat) = CHR ''t''" "char_of (111::nat) = CHR ''o''" "char_of (107::nat) = CHR ''k''" by code_simp+

lemma sample_tokens: "Tokenize search_unicode ''tok'' = [''tok'']"
  by (simp add: Tokenize_def sample_runes search_unicode_def flush_word_def flush_han_def EncodeRune_def ToLower_def byte_def ascii_lower_def sample_chars)

lemma sample_terms: "plan_terms search_unicode ''tok'' = [''tok'']"
  by (simp add: plan_terms_def sample_tokens MaxQueryTerms_def isHanToken_def dropped_token_def sample_runes)

lemma sample_matches: "find_all noteIDPattern None ''tok'' = []" "find_all positionPattern None ''tok'' = []" "find_all longNumberPattern None ''tok'' = []" "find_all subjectPattern None ''tok'' = []"
  by (simp_all add: find_all_step noteIDPattern_def positionPattern_def longNumberPattern_def subjectPattern_def word_number_def HasPrefix_def zh_Cons EncodeRune_def is_digit_def)

lemma sample_hints: "preferred_type search_unicode ''tok'' = ''note''" "hinted_notes ''tok'' = []"
  by (simp_all add: preferred_type_def hinted_notes_def ToLower_def search_unicode_def byte_def ascii_lower_def HasPrefix_def zh_Cons EncodeRune_def extractInt64Matches_def sample_matches)

definition sample_plan :: QueryPlan where
  "sample_plan = \<lparr>qp_Original = ''tok'', qp_Terms = [''tok''], qp_AllTerms = [], qp_HintedNoteIDs = [],
   qp_PreferredType = ''note'', qp_PreferredPosition = None, qp_SubjectTerms = []\<rparr>"

lemma sample_plan_run: "BuildQueryPlan search_unicode ''tok'' = Inr sample_plan"
  by (simp add: BuildQueryPlan_def trim_query sample_runes RetrievalMaxQueryRunes_def sample_terms sample_hints FindStringSubmatch_def sample_matches sample_plan_def Let_def)

theorem BuildQueryPlan_spec_witness:
  "\<exists>plan. BuildQueryPlan search_unicode ''tok'' = Inr plan \<and> length (qp_Terms plan) \<le> 64 \<and> ''tok'' \<in> set (qp_Terms plan) \<and> qp_HintedNoteIDs plan = []"
  using BuildQueryPlan_spec [of "''tok''" search_unicode] by (simp add: sample_plan_run sample_plan_def)

definition milli_ops :: "int float_ops" where
  "milli_ops = \<lparr>f_add = (+), f_mul = (\<lambda>x y. x * y div 1000), f_div = (\<lambda>x y. x * 1000 div y), f_dec = (\<lambda>m e. m * 1000 div 10 ^ e)\<rparr>"

definition sample_candidate :: "int Candidate" where
  "sample_candidate = \<lparr>cd_DocumentID = 1, cd_DocumentKey = ''d'', cd_DocumentType = ''note'', cd_SourceType = ''note'', cd_SourceID = Some 1, cd_SourceVersion = 1,
      cd_NoteID = Some 1, cd_MediaPosition = None, cd_ChunkID = 11, cd_ChunkKey = ''c'', cd_ChunkIndex = 0, cd_Content = ''tok'',
      cd_ContentHash = ''tok'', cd_Lexemes = ''tok'', cd_StartByte = 0, cd_EndByte = 3, cd_FTSScore = 100, cd_VectorScore = 0, cd_HybridScore = 0, cd_TrigramScore = 500\<rparr>"

theorem merge_ranked_spec_witness:
  "distinct (map cd_ChunkID [sample_candidate]) \<and>
   map cd_ChunkID (merge_ranked milli_ops [sample_candidate, sample_candidate\<lparr>cd_ChunkID := 12\<rparr>] [sample_candidate]) = [11, 12] \<and>
   cd_HybridScore (hd (merge_ranked milli_ops [sample_candidate, sample_candidate\<lparr>cd_ChunkID := 12\<rparr>] [sample_candidate])) = rrf milli_ops 0 + rrf milli_ops 0"
proof -
  let ?m = "merge_ranked milli_ops [sample_candidate, sample_candidate\<lparr>cd_ChunkID := 12\<rparr>] [sample_candidate]"
  have id: "cd_ChunkID sample_candidate = 11" by (simp add: sample_candidate_def)
  then have d: "distinct (map cd_ChunkID [sample_candidate, sample_candidate\<lparr>cd_ChunkID := 12\<rparr>])" "distinct (map cd_ChunkID [sample_candidate])" by simp_all
  have ids: "map cd_ChunkID ?m = [11, 12]" using conjunct1 [OF merge_ranked_spec [OF d, of milli_ops]] id by simp
  then have hd: "hd ?m \<in> set ?m" "cd_ChunkID (hd ?m) = 11" by (cases ?m; auto)+
  have "cd_HybridScore (hd ?m) = f_add milli_ops (rrf milli_ops 0) (rrf milli_ops 0)"
    using bspec [OF conjunct2 [OF merge_ranked_spec [OF d, of milli_ops]] hd(1)] hd(2) id by (simp add: Let_def index_of_Cons)
  then show ?thesis using ids d(2) by (simp add: milli_ops_def)
qed

end
