(* ===== verification/Search_Props.thy ===== *)
theory Search_Props
  imports Search Query_Props System_Props
begin

text \<open>
  Correctness of retrieval search: what a response may contain, that a request never sees a document its caller cannot read, that the
  index expression of the decision is always defined, and that rankings depend on the set of candidates only.
\<close>

named_theorems view_intros \<open>computations that read the same from two stores\<close>

section \<open>Reading from two stores\<close>

text \<open>
  A computation reads the same from the tables \<open>t\<close> and \<open>t'\<close>: it writes nothing, and started on \<open>t'\<close> instead of \<open>t\<close> it returns the same result.
\<close>

definition view_eq :: "'d \<Rightarrow> 'd \<Rightarrow> ('d, 'a) dbm \<Rightarrow> bool" where
  "view_eq t t' m =
     (\<forall>s. tables s = t \<longrightarrow> tables (snd (m s)) = t \<and> m (s\<lparr>tables := t'\<rparr>) = (fst (m s), (snd (m s))\<lparr>tables := t'\<rparr>))"

abbreviation reads :: "'d \<Rightarrow> ('d, 'a) dbm \<Rightarrow> bool" where "reads t m \<equiv> view_eq t t m"

lemma view_eqI:
  assumes "\<And>s. tables s = t \<Longrightarrow> tables (snd (m s)) = t"
    and "\<And>s. tables s = t \<Longrightarrow> m (s\<lparr>tables := t'\<rparr>) = (fst (m s), (snd (m s))\<lparr>tables := t'\<rparr>)"
  shows "view_eq t t' m"
  using assms by (simp add: view_eq_def)

lemma view_eq_tables: "view_eq t t' m \<Longrightarrow> tables s = t \<Longrightarrow> m s = (r, s') \<Longrightarrow> tables s' = t"
  unfolding view_eq_def by (metis snd_conv)

lemma view_eq_run: "view_eq t t' m \<Longrightarrow> tables s = t \<Longrightarrow> fst (m (s\<lparr>tables := t'\<rparr>)) = fst (m s)"
  unfolding view_eq_def by simp

lemma view_eq_basic [view_intros]: "view_eq t t' (returnE x)" "view_eq t t' (throwE e)" "view_eq t t' (liftE r)"
  by (simp_all add: view_eq_def liftE_def)

lemma view_eq_stmt:
  assumes "\<And>s. tables s = t \<Longrightarrow> tables (snd (f s)) = t"
    and "\<And>s. tables s = t \<Longrightarrow> f (s\<lparr>tables := t'\<rparr>) = (fst (f s), (snd (f s))\<lparr>tables := t'\<rparr>)"
  shows "view_eq (t :: 'd) t' (stmt f)"
proof (rule view_eqI)
  fix s :: "'d db" assume s: "tables s = t"
  have swap: "s\<lparr>tables := t', faults := fs\<rparr> = s\<lparr>faults := fs\<rparr>\<lparr>tables := t'\<rparr>" for fs by simp
  show "tables (snd (stmt f s)) = t"
    using assms(1) s by (auto simp: stmt_def split: list.splits fault.splits)
  show "stmt f (s\<lparr>tables := t'\<rparr>) = (fst (stmt f s), (snd (stmt f s))\<lparr>tables := t'\<rparr>)"
    using assms(2) s by (auto simp: stmt_def swap simp del: db.update_convs split: list.splits fault.splits)
qed

lemma view_eq_selectE [view_intros]: "g t' = g t \<Longrightarrow> view_eq t t' (selectE g)"
  unfolding selectE_def by (rule view_eq_stmt) auto

lemma view_eq_query_row [view_intros]: "g t' = g t \<Longrightarrow> view_eq t t' (query_row g)"
  unfolding query_row_def by (rule view_eq_stmt) (auto split: option.splits)

text \<open>A statement that computes and may fail, but writes nothing.\<close>

lemma view_eq_execE:
  assumes "\<And>now. f now t = map_sum id (\<lambda>x. (x, t)) (g now)" "\<And>now. f now t' = map_sum id (\<lambda>x. (x, t')) (g now)"
  shows "view_eq (t :: 'd) t' (execE f)"
  unfolding execE_def
proof (rule view_eq_stmt)
  fix s :: "'d db" assume s: "tables s = t"
  show "tables (snd (case f (db_now s) (tables s) of Inl e \<Rightarrow> (Inl e, s) | Inr (x, t) \<Rightarrow> (Inr x, s\<lparr>tables := t\<rparr>))) = t"
    using assms(1) s by (cases "g (db_now s)") auto
  show "(case f (db_now (s\<lparr>tables := t'\<rparr>)) (tables (s\<lparr>tables := t'\<rparr>)) of
      Inl e \<Rightarrow> (Inl e, s\<lparr>tables := t'\<rparr>) | Inr (x, t) \<Rightarrow> (Inr x, s\<lparr>tables := t'\<rparr>\<lparr>tables := t\<rparr>)) =
    (fst (case f (db_now s) (tables s) of Inl e \<Rightarrow> (Inl e, s) | Inr (x, t) \<Rightarrow> (Inr x, s\<lparr>tables := t\<rparr>)),
     (snd (case f (db_now s) (tables s) of Inl e \<Rightarrow> (Inl e, s) | Inr (x, t) \<Rightarrow> (Inr x, s\<lparr>tables := t\<rparr>)))\<lparr>tables := t'\<rparr>)"
    using assms s by (cases "g (db_now s)") auto
qed

lemma view_eq_mapErr [view_intros]: "view_eq t t' m \<Longrightarrow> view_eq t t' (mapErr h m)"
  unfolding view_eq_def mapErr_def by (auto split: prod.splits sum.splits)

lemma view_eq_bind_result:
  assumes m: "view_eq t t' m" and k: "\<And>x s s'. tables s = t \<Longrightarrow> m s = (Inr x, s') \<Longrightarrow> view_eq t t' (k x)"
  shows "view_eq (t :: 'd) t' (bindE m k)"
proof (rule view_eqI)
  fix s :: "'d db" assume s: "tables s = t"
  obtain r s1 where run: "m s = (r, s1)" by (cases "m s")
  have s1: "tables s1 = t" using view_eq_tables [OF m s run] .
  have run': "m (s\<lparr>tables := t'\<rparr>) = (r, s1\<lparr>tables := t'\<rparr>)" using m s run by (simp add: view_eq_def)
  show "tables (snd (bindE m k s)) = t"
    using run s1 k [OF s] by (cases r) (auto simp: bindE_def view_eq_def)
  show "bindE m k (s\<lparr>tables := t'\<rparr>) = (fst (bindE m k s), (snd (bindE m k s))\<lparr>tables := t'\<rparr>)"
    using run run' s1 k [OF s] by (cases r) (auto simp: bindE_def view_eq_def)
qed

lemma view_eq_bindE [view_intros]: "view_eq t t' m \<Longrightarrow> (\<And>x. view_eq t t' (k x)) \<Longrightarrow> view_eq t t' (bindE m k)"
  by (rule view_eq_bind_result)

lemma view_eq_if [view_intros]: "(b \<Longrightarrow> view_eq t t' m) \<Longrightarrow> (\<not> b \<Longrightarrow> view_eq t t' m') \<Longrightarrow> view_eq t t' (if b then m else m')"
  by simp

lemma view_eq_option [view_intros]:
  "(x = None \<Longrightarrow> view_eq t t' m) \<Longrightarrow> (\<And>y. x = Some y \<Longrightarrow> view_eq t t' (k y)) \<Longrightarrow> view_eq t t' (case x of None \<Rightarrow> m | Some y \<Rightarrow> k y)"
  by (cases x) auto

lemma view_eq_sum [view_intros]:
  "(\<And>e. x = Inl e \<Longrightarrow> view_eq t t' (m e)) \<Longrightarrow> (\<And>y. x = Inr y \<Longrightarrow> view_eq t t' (k y)) \<Longrightarrow> view_eq t t' (case x of Inl e \<Rightarrow> m e | Inr y \<Rightarrow> k y)"
  by (cases x) auto

lemma view_eq_list [view_intros]:
  "(x = [] \<Longrightarrow> view_eq t t' m) \<Longrightarrow> (\<And>y ys. x = y # ys \<Longrightarrow> view_eq t t' (k y ys)) \<Longrightarrow> view_eq t t' (case x of [] \<Rightarrow> m | y # ys \<Rightarrow> k y ys)"
  by (cases x) auto

lemma view_eq_on_rag [view_intros]:
  fixes t t' :: "'f search_store"
  assumes "view_eq (rag t) (rag t') m"
  shows "view_eq t t' (on_rag m)"
proof (rule view_eqI)
  fix s :: "'f search_store db" assume s: "tables s = t"
  let ?s = "\<lparr>tables = rag t, seqs = seqs s, faults = faults s, db_now = db_now s\<rparr>"
  obtain r s1 where run: "m ?s = (r, s1)" by (cases "m ?s")
  have "tables s1 = rag t" using view_eq_tables [OF assms, of ?s] run by simp
  moreover have "m \<lparr>tables = rag t', seqs = seqs s, faults = faults s, db_now = db_now s\<rparr> = (r, s1\<lparr>tables := rag t'\<rparr>)"
    using assms run unfolding view_eq_def by (metis db.select_convs(1) db.update_convs(1) fst_conv snd_conv)
  ultimately show "tables (snd (on_rag m s)) = t" "on_rag m (s\<lparr>tables := t'\<rparr>) = (fst (on_rag m s), (snd (on_rag m s))\<lparr>tables := t'\<rparr>)"
    using run s by (simp_all add: on_rag_def)
qed

section \<open>Selection\<close>

text \<open>What \<open>selectDiverse\<close> keeps of a selection: the documents differ, no note fills more than its share, and confidence is high enough.\<close>

definition diverse :: "'f::linorder \<Rightarrow> 'f Result list \<Rightarrow> bool" where
  "diverse threshold rs =
     (distinct (map rs_DocumentID rs) \<and> (\<forall>n. note_count rs n \<le> MaxChunksPerNote) \<and> (\<forall>r\<in>set rs. threshold \<le> rs_Confidence r))"

lemma note_count_snoc: "note_count (rs @ [r]) n = note_count rs n + (if rs_NoteID r = Some n then 1 else 0)"
  by (simp add: note_count_def)

lemma diverse_snoc:
  assumes "diverse threshold selected" and "\<not> rs_Confidence r < threshold" "rs_DocumentID r \<notin> rs_DocumentID ` set selected"
    and "\<not> (case rs_NoteID r of None \<Rightarrow> False | Some n \<Rightarrow> note_count selected n \<ge> MaxChunksPerNote)"
  shows "diverse threshold (selected @ [r])"
  using assms by (auto simp: diverse_def note_count_snoc not_less split: option.splits)

lemma select_loop_diverse:
  assumes "diverse threshold selected" "int (length selected) < limit"
  shows "diverse threshold (select_loop threshold limit rs selected) \<and> int (length (select_loop threshold limit rs selected)) \<le> limit"
  using assms
proof (induction rs arbitrary: selected)
  case (Cons r rs)
  then show ?case using diverse_snoc [of threshold selected r] by simp
qed simp

lemma select_loop_set: "set (select_loop threshold limit rs selected) \<subseteq> set selected \<union> set rs"
proof (induction rs arbitrary: selected)
  case (Cons r rs)
  have "set (select_loop threshold limit (r # rs) selected) \<subseteq> set (selected @ [r]) \<union> set rs"
    using Cons.IH [of selected] Cons.IH [of "selected @ [r]"] unfolding select_loop.simps by (simp split: if_split) blast
  then show ?case by simp
qed simp

lemma select_loop_prefix: "\<exists>rest. select_loop threshold limit rs selected = selected @ rest"
  by (induction rs arbitrary: selected) (simp, metis (no_types, lifting) append.assoc select_loop.simps(2))

text \<open>A selection with room left has a reason for every result it leaves out.\<close>

lemma select_loop_complete:
  assumes "r \<in> set rs" "int (length (select_loop threshold limit rs selected)) < limit" "int (length selected) < limit"
  shows "r \<in> set (select_loop threshold limit rs selected) \<or> rs_Confidence r < threshold \<or>
    rs_DocumentID r \<in> rs_DocumentID ` set (select_loop threshold limit rs selected) \<or>
    (\<exists>n. rs_NoteID r = Some n \<and> note_count (select_loop threshold limit rs selected) n \<ge> MaxChunksPerNote)"
  using assms
proof (induction rs arbitrary: selected)
  case (Cons x rs)
  let ?skip = "rs_Confidence x < threshold \<or> rs_DocumentID x \<in> rs_DocumentID ` set selected \<or>
      (case rs_NoteID x of None \<Rightarrow> False | Some n \<Rightarrow> note_count selected n \<ge> MaxChunksPerNote)"
  let ?next = "if ?skip then selected else selected @ [x]"
  have run: "select_loop threshold limit (x # rs) selected = select_loop threshold limit rs ?next"
    and room: "int (length ?next) < limit"
    using Cons.prems(2,3) by (auto split: if_splits)
  obtain rest where rest: "select_loop threshold limit rs ?next = ?next @ rest" using select_loop_prefix by blast
  have more: "note_count selected n \<le> note_count (?next @ rest) n" for n by (auto simp: note_count_def)
  show ?case
  proof (cases "r = x")
    case True
    show ?thesis
    proof (cases ?skip)
      case skip: True
      then consider "rs_Confidence x < threshold" | "rs_DocumentID x \<in> rs_DocumentID ` set selected"
        | n where "rs_NoteID x = Some n" "note_count selected n \<ge> MaxChunksPerNote" by (auto split: option.splits)
      then show ?thesis
      proof cases
        case 3
        then show ?thesis using True run rest more [of n] by (metis order.trans)
      qed (use True run rest skip in auto)
    next
      case False
      then show ?thesis using True run rest by auto
    qed
  next
    case False
    then show ?thesis using Cons.IH [of ?next] Cons.prems(1,2) room run by simp
  qed
qed simp

definition select_threshold :: "'f::linorder float_ops \<Rightarrow> 'f Result list \<Rightarrow> 'f \<Rightarrow> 'f" where
  "select_threshold fl ranked minimum = max minimum (f_mul fl (rs_Confidence (hd ranked)) (f_dec fl 72 2))"

lemma selectDiverse_loop:
  "ranked \<noteq> [] \<Longrightarrow> selectDiverse fl ranked limit minimum = select_loop (select_threshold fl ranked minimum) limit ranked []"
  by (cases ranked) (simp_all add: selectDiverse_def select_threshold_def)

lemma diverse_Nil [simp]: "diverse threshold []"
  by (simp add: diverse_def note_count_def MaxChunksPerNote_def)

lemma selectDiverse_diverse:
  assumes "1 \<le> limit"
  shows "diverse (select_threshold fl ranked minimum) (selectDiverse fl ranked limit minimum)"
    "int (length (selectDiverse fl ranked limit minimum)) \<le> limit"
    "set (selectDiverse fl ranked limit minimum) \<subseteq> set ranked"
proof -
  have "diverse (select_threshold fl ranked minimum) (selectDiverse fl ranked limit minimum) \<and>
      int (length (selectDiverse fl ranked limit minimum)) \<le> limit \<and> set (selectDiverse fl ranked limit minimum) \<subseteq> set ranked"
  proof (cases "ranked = []")
    case True
    then show ?thesis using assms by (simp add: selectDiverse_def)
  next
    case False
    show ?thesis
      using select_loop_diverse [of "select_threshold fl ranked minimum" "[]" limit ranked] assms
        select_loop_set [of "select_threshold fl ranked minimum" limit ranked "[]"] by (simp add: selectDiverse_loop [OF False])
  qed
  then show "diverse (select_threshold fl ranked minimum) (selectDiverse fl ranked limit minimum)"
    "int (length (selectDiverse fl ranked limit minimum)) \<le> limit" "set (selectDiverse fl ranked limit minimum) \<subseteq> set ranked" by auto
qed

lemma diverse_mono: "diverse b rs \<Longrightarrow> a \<le> b \<Longrightarrow> diverse a rs"
  by (auto simp: diverse_def)

section \<open>Where candidates come from\<close>

text \<open>The rows a candidate or result shows: document, chunk and text.\<close>

definition cand_rows :: "'f Candidate \<Rightarrow> int \<times> int \<times> string" where
  "cand_rows c = (cd_DocumentID c, cd_ChunkID c, cd_Content c)"

definition result_rows :: "'f Result \<Rightarrow> int \<times> int \<times> string" where
  "result_rows r = (rs_DocumentID r, rs_ChunkID r, rs_Content r)"

text \<open>
  Whom a document is meant for: everybody, if it and its active project are public, and the active members of its active project.
\<close>

definition may_see :: "store \<Rightarrow> int \<Rightarrow> document_row \<Rightarrow> bool" where
  "may_see c userID d =
     (\<exists>p\<in>set (projects c). p_id p = ed_project_id d \<and> p_status p = ''active'' \<and>
        (p_visibility p = ''public'' \<and> ed_visibility d = ''public'' \<or>
         (\<exists>m\<in>set (project_members c). m_project_id m = ed_project_id d \<and> m_user_id m = userID \<and> m_status m = ''active'')))"

lemma doc_visible_may_see: "doc_visible c u d \<Longrightarrow> may_see c u d"
  unfolding doc_visible_def may_see_def exists_row_def list_ex_iff
  by (auto split: option.splits simp: find_Some_iff)

text \<open>What a user may read of a run: a published document the user may see whose sources stand.\<close>

definition readable :: "rag_store \<Rightarrow> string \<Rightarrow> int \<Rightarrow> document_row \<Rightarrow> bool" where
  "readable t runID userID d =
     (doc_in_run (evid t) runID (ed_id d) \<and> ed_lifecycle_status d \<in> {''ready'', ''superseded''} \<and>
      may_see (core t) userID d \<and> \<not> doc_withdrawn (evid t) d)"

definition readable_rows :: "rag_store \<Rightarrow> string \<Rightarrow> int \<Rightarrow> (int \<times> int \<times> string) set" where
  "readable_rows t runID userID =
     {(ed_id d, ec_id c, ec_content c) | d c. c \<in> set (evidence_chunks (evid t)) \<and> doc_by_id (evid t) (ec_document_id c) = Some d \<and> readable t runID userID d}"

lemma in_map_filter: "y \<in> set (List.map_filter f xs) \<longleftrightarrow> (\<exists>x\<in>set xs. f x = Some y)"
  by (induction xs) (auto simp: map_filter_simps split: option.splits)

lemma set_joined_chunks:
  "(d, c) \<in> set (joined_chunks t P) \<longleftrightarrow> c \<in> set (evidence_chunks t) \<and> doc_by_id t (ec_document_id c) = Some d \<and> P d c"
  by (auto simp: joined_chunks_def in_map_filter split: option.splits if_splits)

lemma readable_rowsI:
  assumes "c \<in> set (evidence_chunks (evid t))" "doc_by_id (evid t) (ec_document_id c) = Some d" "readable t runID u d"
  shows "(ed_id d, ec_id c, ec_content c) \<in> readable_rows t runID u"
  using assms unfolding readable_rows_def by blast

lemma doc_eligible_readable: "doc_in_run (evid t) runID (ed_id d) \<Longrightarrow> doc_eligible t u fs d \<Longrightarrow> readable t runID u d"
  by (simp add: readable_def doc_eligible_def doc_visible_may_see)

lemma lexical_candidates_rows: "cand_rows ` set (lexical_candidates sd t sc u plan fs limit) \<subseteq> readable_rows t (sc_IngestionRunID sc) u"
proof -
  have "(ed_id d, ec_id c, ec_content c) \<in> readable_rows t (sc_IngestionRunID sc) u"
    if "(d, c) \<in> set (eligible_chunks sd t sc u plan fs q)" for d c q
    using that unfolding eligible_chunks_def set_joined_chunks by (blast intro: readable_rowsI doc_eligible_readable)
  then show ?thesis
    by (auto simp: lexical_candidates_def Let_def cand_rows_def scan_candidate_def dest!: in_set_takeD)
qed

lemma authorized_candidates_rows: "cand_rows ` set (authorized_candidates sd t sc u ids fs) \<subseteq> readable_rows t (sc_IngestionRunID sc) u"
  by (auto simp: authorized_candidates_def cand_rows_def scan_candidate_def set_joined_chunks intro!: readable_rowsI doc_eligible_readable)

lemma fuse_rows [simp]: "cand_rows (fuse fl x c m) = cand_rows m"
  by (simp add: fuse_def cand_rows_def Let_def)

lemma append_one_rows: "cand_rows ` set (append_one fl rank c merged) \<subseteq> cand_rows ` set merged \<union> {cand_rows c}"
  by (auto simp: append_one_def cand_rows_def fuse_def Let_def)

lemma appendRanked_rows: "cand_rows ` set (appendRanked fl rank cs merged) \<subseteq> cand_rows ` set merged \<union> cand_rows ` set cs"
proof (induction cs arbitrary: rank merged)
  case (Cons c cs)
  have "cand_rows ` set (appendRanked fl (Suc rank) cs (append_one fl rank c merged)) \<subseteq>
      cand_rows ` set (append_one fl rank c merged) \<union> cand_rows ` set cs" by (rule Cons.IH)
  also have "\<dots> \<subseteq> (cand_rows ` set merged \<union> {cand_rows c}) \<union> cand_rows ` set cs" using append_one_rows by (rule Un_mono) simp
  finally show ?case by simp
qed simp

lemma merge_ranked_rows: "cand_rows ` set (merge_ranked fl lc vc) \<subseteq> cand_rows ` set lc \<union> cand_rows ` set vc"
  using appendRanked_rows [of fl 0 vc "appendRanked fl 0 lc []"] appendRanked_rows [of fl 0 lc "[]"] by (auto simp: merge_ranked_def)

lemma result_rows_simps [simp]:
  "result_rows (lexical_result fl plan stats c) = cand_rows c"
  "result_rows (vector_result fl c) = cand_rows c"
  "result_rows (hybrid_result fl bc r) = result_rows r"
  by (simp_all add: result_rows_def cand_rows_def lexical_result_def vector_result_def hybrid_result_def blank_result_def resultFromCandidate_def Let_def
      split: prod.splits)

lemma rank_for_mode_rows: "result_rows ` set (rank_for_mode fl mode cs plan stats) = cand_rows ` set cs"
  by (simp add: rank_for_mode_def rankVectorCandidates_def rankHybridCandidates_def rankCandidates_def image_image)

lemma attach_citations_Inr:
  assumes "attach_citations citations i rs = Inr cited"
  shows "map result_rows cited = map result_rows rs" "map rs_NoteID cited = map rs_NoteID rs" "map rs_Confidence cited = map rs_Confidence rs"
    "map rs_Rank cited = map (\<lambda>k. int k + 1) [i..<i + length rs]" "\<forall>r\<in>set cited. rs_Citations r = citations (rs_ChunkID r) \<and> rs_Citations r \<noteq> []"
    "length cited = length rs"
proof -
  have "map result_rows cited = map result_rows rs \<and> map rs_NoteID cited = map rs_NoteID rs \<and> map rs_Confidence cited = map rs_Confidence rs \<and>
      map rs_Rank cited = map (\<lambda>k. int k + 1) [i..<i + length rs] \<and> (\<forall>r\<in>set cited. rs_Citations r = citations (rs_ChunkID r) \<and> rs_Citations r \<noteq> [])"
    using assms
  proof (induction rs arbitrary: i cited)
    case (Cons r rs)
    from Cons.prems obtain cited' where rest: "attach_citations citations (Suc i) rs = Inr cited'" and ne: "citations (rs_ChunkID r) \<noteq> []"
      and cited: "cited = r\<lparr>rs_Citations := citations (rs_ChunkID r), rs_Rank := int i + 1\<rparr> # cited'" by (auto split: if_splits sum.splits)
    show ?case using Cons.IH [OF rest] ne unfolding cited by (auto simp: result_rows_def upt_conv_Cons simp del: upt_Suc)
  qed simp
  then show "map result_rows cited = map result_rows rs" "map rs_NoteID cited = map rs_NoteID rs" "map rs_Confidence cited = map rs_Confidence rs"
    "map rs_Rank cited = map (\<lambda>k. int k + 1) [i..<i + length rs]" "\<forall>r\<in>set cited. rs_Citations r = citations (rs_ChunkID r) \<and> rs_Citations r \<noteq> []"
    "length cited = length rs" by (auto dest: map_eq_imp_length_eq)
qed

section \<open>Requests only read\<close>

lemma reads_execE: "(\<And>now x t'. f now t = Inr (x, t') \<Longrightarrow> t' = t) \<Longrightarrow> reads t (execE f)"
proof -
  assume same: "\<And>now x t'. f now t = Inr (x, t') \<Longrightarrow> t' = t"
  have "f now t = map_sum id (\<lambda>x. (x, t)) (map_sum id fst (f now t))" for now
    using same [of now] by (cases "f now t") auto
  then show ?thesis using view_eq_execE [of f t "\<lambda>now. map_sum id fst (f now t)" t] by simp
qed

lemma reads_lexical [view_intros]: "reads t (SearchLexicalCandidates sd sc u plan fs limit)"
  unfolding SearchLexicalCandidates_def by (intro view_intros reads_execE) (simp split: if_splits)

lemma reads_queries [view_intros]:
  "reads t (LoadAuthorizedCandidates sd sc u ids fs)"
  "reads t (GetTermStats run access terms)"
  "reads t (LoadCitations ids)"
  unfolding LoadAuthorizedCandidates_def GetTermStats_def LoadCitations_def
  by ((intro view_intros reads_execE refl)?; simp add: Let_def split: if_splits)+

lemma reads_scope [view_intros]: "reads t (ResolveScope coll p d run)" "reads t (ResolveAccess sc u)"
  unfolding ResolveScope_def ResolveAccess_def by (intro view_intros refl)+

lemma reads_vector [view_intros]: "reads t (vector_Retrieve sd vd sc u plan fs limit)"
  unfolding vector_Retrieve_def by (intro view_intros refl)

lemma reads_Retrieve [view_intros]: "reads t (Retrieve sv lf mode sc u plan fs limit)"
  unfolding Retrieve_def hybrid_Retrieve_def Let_def by (intro view_intros refl)

lemma reads_answer [view_intros]: "reads t (answer fl mode limit response ranked)"
  unfolding answer_def Let_def by (intro view_intros refl)

lemma reads_search_in_scope [view_intros]: "reads t (search_in_scope sv lf took u input plan sc)"
  unfolding search_in_scope_def Let_def by (intro view_intros refl)

lemma reads_Search: "reads t (Search sv lf took u input)"
  unfolding Search_def Let_def by (intro view_intros refl)

section \<open>Responses\<close>

lemma answer_Inr:
  assumes "answer fl mode limit response ranked s = (Inr out, s')" and "sr_Results response = []"
  shows "sr_Scope out = sr_Scope response \<and> (sr_Results out = [] \<or> (\<exists>citations s1. ranked \<noteq> [] \<and>
    LoadCitations (map rs_ChunkID (selectDiverse fl ranked limit (thresholdForMode fl mode))) s = (Inr citations, s1) \<and>
    attach_citations citations 0 (selectDiverse fl ranked limit (thresholdForMode fl mode)) = Inr (sr_Results out)))"
proof (cases "ranked = [] \<or> rs_Confidence (hd ranked) < thresholdForMode fl mode")
  case True
  then show ?thesis using assms by (cases ranked) (auto simp: answer_def Let_def)
next
  case False
  let ?sel = "selectDiverse fl ranked limit (thresholdForMode fl mode)"
  obtain citations s1 cited where load: "LoadCitations (map rs_ChunkID ?sel) s = (Inr citations, s1)" "attach_citations citations 0 ?sel = Inr cited"
    and out: "(case cited of [] \<Rightarrow> throwE (RuntimePanic ''index out of range [0] with length 0'')
            | c # _ \<Rightarrow> returnE (response
                \<lparr>sr_Decision := \<lparr>dc_Status = ''candidates'', dc_Reason = ''top candidate passed the retrieval confidence threshold'',
                   dc_Threshold = thresholdForMode fl mode, dc_TopConfidence = rs_Confidence c\<rparr>,
                 sr_Results := cited\<rparr>)) s1 = (Inr out, s')"
    using False assms(1) by (cases ranked) (auto simp: answer_def Let_def bindE_Inr liftE_def)
  then have "sr_Results out = cited \<and> sr_Scope out = sr_Scope response" by (cases cited) auto
  then show ?thesis using load False by blast
qed

text \<open>The candidates of any mode are rows the user may read.\<close>

lemma SearchLexicalCandidates_rows:
  "SearchLexicalCandidates sd sc u plan fs limit s = (Inr cands, s') \<Longrightarrow>
   cand_rows ` set cands \<subseteq> readable_rows (rag (tables s)) (sc_IngestionRunID sc) u"
  using lexical_candidates_rows by (fastforce simp: SearchLexicalCandidates_def execE_Inr split: if_splits)

lemma vector_Retrieve_rows:
  assumes "vector_Retrieve sd vd sc u plan fs limit s = (Inr cands, s')"
  shows "cand_rows ` set cands \<subseteq> readable_rows (rag (tables s)) (sc_IngestionRunID sc) u"
proof -
  from assms obtain hits cs s1 where load: "LoadAuthorizedCandidates sd sc u (map fst hits) fs s = (Inr cs, s1)"
    and cands: "cands = map (\<lambda>c. c\<lparr>cd_VectorScore := hit_score (sd_fl sd) hits (cd_ChunkID c)\<rparr>) cs"
    by (auto simp: vector_Retrieve_def bindE_Inr split: if_splits sum.splits)
  have "cand_rows ` set cs \<subseteq> readable_rows (rag (tables s)) (sc_IngestionRunID sc) u"
    using load authorized_candidates_rows by (fastforce simp: LoadAuthorizedCandidates_def selectE_Inr split: if_splits)
  then show ?thesis unfolding cands by (simp add: image_image cand_rows_def)
qed

lemma hybrid_Retrieve_rows:
  assumes "hybrid_Retrieve sd vd lf sc u plan fs limit s = (Inr cands, s')"
  shows "cand_rows ` set cands \<subseteq> readable_rows (rag (tables s)) (sc_IngestionRunID sc) u"
proof -
  let ?lex = "SearchLexicalCandidates sd sc u plan fs limit" and ?vec = "vector_Retrieve sd vd sc u plan fs limit"
  have "\<exists>lc vc s1 s2 s3 s4. ?lex s1 = (Inr lc, s3) \<and> ?vec s2 = (Inr vc, s4) \<and> cands = merge_ranked (sd_fl sd) lc vc \<and> tables s1 = tables s \<and> tables s2 = tables s"
  proof (cases lf)
    case True
    then obtain lc s1 vc s2 where run: "?lex s = (Inr lc, s1)" "?vec s1 = (Inr vc, s2)" "cands = merge_ranked (sd_fl sd) lc vc"
      using assms by (auto simp: hybrid_Retrieve_def Let_def bindE_Inr)
    then show ?thesis using view_eq_tables [OF reads_lexical refl run(1)] by blast
  next
    case False
    then obtain lc s1 vc s2 where run: "?vec s = (Inr vc, s1)" "?lex s1 = (Inr lc, s2)" "cands = merge_ranked (sd_fl sd) lc vc"
      using assms by (auto simp: hybrid_Retrieve_def Let_def bindE_Inr)
    then show ?thesis using view_eq_tables [OF reads_vector refl run(1)] by blast
  qed
  then show ?thesis
    using merge_ranked_rows SearchLexicalCandidates_rows vector_Retrieve_rows by (metis (no_types, lifting) Un_least order.trans)
qed

lemma Retrieve_rows:
  assumes "Retrieve sv lf mode sc u plan fs limit s = (Inr cands, s')"
  shows "cand_rows ` set cands \<subseteq> readable_rows (rag (tables s)) (sc_IngestionRunID sc) u"
proof (cases "ss_vector sv")
  case None
  then show ?thesis using assms SearchLexicalCandidates_rows by (simp add: Retrieve_def)
next
  case (Some vd)
  consider "mode = ModeVector" | "mode \<noteq> ModeVector" "mode = ModeHybrid" | "mode \<noteq> ModeVector" "mode \<noteq> ModeHybrid" by blast
  then show ?thesis
  proof cases
    case 2
    then show ?thesis using hybrid_Retrieve_rows assms Some 2 by (simp add: Retrieve_def)
  qed (use assms Some SearchLexicalCandidates_rows vector_Retrieve_rows in \<open>simp_all add: Retrieve_def\<close>)
qed

text \<open>A response with results went through every stage of the pipeline.\<close>

lemma search_in_scope_Inr:
  assumes "search_in_scope sv lf took u input plan sc s = (Inr out, s')" and "sr_Results out \<noteq> []"
  obtains stats plan' fs s1 cands s2 citations s3 where
    "Retrieve sv lf (si_Mode input) sc u plan' fs DefaultCandidateLimit s1 = (Inr cands, s2)" "tables s1 = tables s"
    "LoadCitations (map rs_ChunkID (selectDiverse (sd_fl (ss_deps sv)) (rank_for_mode (sd_fl (ss_deps sv)) (si_Mode input) cands plan stats) (si_Limit input)
        (thresholdForMode (sd_fl (ss_deps sv)) (si_Mode input)))) s2 = (Inr citations, s3)"
    "attach_citations citations 0 (selectDiverse (sd_fl (ss_deps sv)) (rank_for_mode (sd_fl (ss_deps sv)) (si_Mode input) cands plan stats) (si_Limit input)
        (thresholdForMode (sd_fl (ss_deps sv)) (si_Mode input))) = Inr (sr_Results out)"
    "tables s2 = tables s" "sr_Scope out = sc"
proof -
  let ?fl = "sd_fl (ss_deps sv)" and ?mode = "si_Mode input"
  let ?get = "if ?mode = ModeVector then returnE Map.empty else GetTermStats (sc_IngestionRunID sc) (sc_AccessScope sc) (qp_Terms plan)"
  let ?indexed = "\<lambda>stats. filter (\<lambda>x. stats x \<noteq> None) (qp_Terms plan)"
  let ?terms = "\<lambda>stats. selectCandidateTerms ?fl (sd_u (ss_deps sv)) plan (?indexed stats) stats 12"
  let ?base = "\<lambda>stats. base_response ?fl ?mode sc plan (?indexed stats) (?terms stats) took"
  let ?plan = "\<lambda>stats. plan\<lparr>qp_AllTerms := qp_Terms plan, qp_Terms := ?terms stats\<rparr>"
  let ?ret = "\<lambda>stats. Retrieve sv lf ?mode sc u (?plan stats) (effective_filters (si_Filters input) plan) DefaultCandidateLimit"
  let ?ans = "\<lambda>stats cands. answer ?fl ?mode (si_Limit input) ((?base stats)\<lparr>sr_CandidateCount := int (length cands)\<rparr>) (rank_for_mode ?fl ?mode cands plan stats)"
  obtain stats s1 where get: "?get s = (Inr stats, s1)"
    and rest: "(if ?mode = ModeLexical \<and> ?terms stats = [] then returnE (?base stats) else bindE (?ret stats) (?ans stats)) s1 = (Inr out, s')"
    using iffD1 [OF bindE_Inr assms(1) [unfolded search_in_scope_def Let_def]] by blast
  have base: "sr_Results (?base stats) = []" "sr_Scope (?base stats) = sc" by (simp_all add: base_response_def)
  then have "bindE (?ret stats) (?ans stats) s1 = (Inr out, s')" using rest assms(2) by (auto split: if_split_asm)
  then obtain cands s2 where ret: "?ret stats s1 = (Inr cands, s2)" and ans: "?ans stats cands s2 = (Inr out, s')"
    unfolding bindE_Inr by blast
  have "reads (tables s) ?get" by (intro view_intros)
  from view_eq_tables [OF this refl get] have t1: "tables s1 = tables s" .
  have t2: "tables s2 = tables s" using view_eq_tables [OF reads_Retrieve refl ret] t1 by simp
  have "sr_Results ((?base stats)\<lparr>sr_CandidateCount := int (length cands)\<rparr>) = []" "sr_Scope ((?base stats)\<lparr>sr_CandidateCount := int (length cands)\<rparr>) = sc"
    using base by simp_all
  then show thesis using answer_Inr [OF ans] assms(2) that [OF ret t1] t2 by metis
qed

lemma Search_Inr:
  assumes "Search sv lf took u raw s = (Inr out, s')"
  obtains (refused) plan input where "out = redactedNoAccessResponse (sd_fl (ss_deps sv)) (si_Mode input) input plan took"
  | (searched) plan sc s1 where "search_input_error sv raw = None" "BuildQueryPlan (sd_u (ss_deps sv)) (si_Query (normalize_search raw)) = Inr plan"
    "search_in_scope sv lf took u (normalize_search raw) plan sc s1 = (Inr out, s')" "tables s1 = tables s"
    "sc_AccessScope sc = project_access (core (rag (tables s))) (sc_ProjectID sc) u" "sc_AccessScope sc \<noteq> ''none''"
proof -
  let ?in = "normalize_search raw"
  from assms have ok: "search_input_error sv raw = None" by (auto simp: Search_def split: option.splits)
  obtain plan sc s1 access s2 where plan: "BuildQueryPlan (sd_u (ss_deps sv)) (si_Query ?in) = Inr plan"
    and sc: "on_rag (ResolveScope (sd_coll (ss_deps sv)) (si_ProjectID ?in) (si_DatasetVersionID ?in) (si_IngestionRunID ?in)) s = (Inr sc, s1)"
    and access: "on_rag (ResolveAccess sc u) s1 = (Inr access, s2)"
    and rest: "(if access = ''none'' then returnE (redactedNoAccessResponse (sd_fl (ss_deps sv)) (si_Mode ?in) ?in plan took)
         else case validateScopeIndex (sc\<lparr>sc_AccessScope := access\<rparr>) (si_Mode ?in) of
           Some e \<Rightarrow> throwE e
         | None \<Rightarrow> search_in_scope sv lf took u ?in plan (sc\<lparr>sc_AccessScope := access\<rparr>)) s2 = (Inr out, s')"
    using assms ok by (auto simp: Search_def Let_def bindE_Inr liftE_def)
  have t1: "tables s1 = tables s" using view_eq_tables [OF view_eq_on_rag [OF reads_scope(1)] refl sc] .
  have t2: "tables s2 = tables s" using view_eq_tables [OF view_eq_on_rag [OF reads_scope(2)] refl access] t1 by simp
  have "access = project_access (core (rag (tables s))) (sc_ProjectID sc) u"
    using access t1 by (auto simp: on_rag_def ResolveAccess_def selectE_Inr split: prod.splits)
  then show thesis
    using rest refused [of ?in plan] searched [OF ok plan _ t2, of "sc\<lparr>sc_AccessScope := access\<rparr>"] by (auto split: if_split_asm option.split_asm)
qed

lemma search_input_ok:
  assumes "search_input_error sv raw = None"
  shows "1 \<le> si_Limit (normalize_search raw)" "si_Limit (normalize_search raw) \<le> MaxLimit" "mode_enabled sv (si_Mode (normalize_search raw))"
  using assms by (auto simp: search_input_error_def normalize_search_def Let_def split: if_splits)

lemma note_count_map: "note_count rs n = int (length (filter (\<lambda>x. x = Some n) (map rs_NoteID rs)))"
  by (simp add: note_count_def filter_map comp_def)

lemma diverse_cong:
  assumes "map result_rows rs = map result_rows rs'" "map rs_NoteID rs = map rs_NoteID rs'" "map rs_Confidence rs = map rs_Confidence rs'"
  shows "diverse b rs = diverse b rs'"
proof -
  have "map rs_DocumentID rs = map rs_DocumentID rs'" using arg_cong [OF assms(1), of "map fst"] by (simp add: result_rows_def comp_def)
  moreover have "rs_Confidence ` set rs = rs_Confidence ` set rs'" using assms(3) by (metis list.set_map)
  then have "(\<forall>x\<in>rs_Confidence ` set rs. b \<le> x) = (\<forall>x\<in>rs_Confidence ` set rs'. b \<le> x)" by (rule arg_cong)
  then have "(\<forall>r\<in>set rs. b \<le> rs_Confidence r) = (\<forall>r\<in>set rs'. b \<le> rs_Confidence r)" by simp
  ultimately show ?thesis using assms(2) by (simp add: diverse_def note_count_map)
qed

lemma map_int_from_1: "map int [1..<n + 1] = map (\<lambda>k. int k + 1) [0..<n]"
  by (induction n) auto

lemma search_wellformed:
  assumes "Search sv lexicalFirst took userID input s = (Inr response, s')"
  shows "tables s' = tables s"
    and "int (length (sr_Results response)) \<le> min MaxLimit (if si_Limit input = 0 then DefaultLimit else si_Limit input)"
    and "distinct (map rs_DocumentID (sr_Results response))"
    and "\<forall>n. int (length (filter (\<lambda>r. rs_NoteID r = Some n) (sr_Results response))) \<le> MaxChunksPerNote"
    and "map rs_Rank (sr_Results response) = map int [1..<length (sr_Results response) + 1]"
    and "\<forall>r\<in>set (sr_Results response). thresholdForMode (sd_fl (ss_deps sv)) (si_Mode (normalize_search input)) \<le> rs_Confidence r \<and> rs_Citations r \<noteq> []"
proof -
  let ?fl = "sd_fl (ss_deps sv)" and ?mode = "si_Mode (normalize_search input)" and ?limit = "si_Limit (normalize_search input)"
  let ?rs = "sr_Results response"
  show "tables s' = tables s" using view_eq_tables [OF reads_Search refl assms] .
  have "search_input_error sv input = None" using assms by (auto simp: Search_def split: option.splits)
  note limit = search_input_ok(1,2) [OF this]
  have "?rs = [] \<or> int (length ?rs) \<le> ?limit \<and> diverse (thresholdForMode ?fl ?mode) ?rs \<and> map rs_Rank ?rs = map (\<lambda>k. int k + 1) [0..<length ?rs] \<and>
      (\<forall>r\<in>set ?rs. rs_Citations r \<noteq> []) \<and> ?limit \<le> MaxLimit"
  proof (cases rule: Search_Inr [OF assms])
    case (2 plan sc s1)
    show ?thesis
    proof (cases "?rs = []")
      case ne: False
      from search_in_scope_Inr [OF 2(3) ne] obtain citations ranked where
        att: "attach_citations citations 0 (selectDiverse ?fl ranked ?limit (thresholdForMode ?fl ?mode)) = Inr ?rs" by metis
      let ?sel = "selectDiverse ?fl ranked ?limit (thresholdForMode ?fl ?mode)"
      note cited = attach_citations_Inr [OF att] and sel = selectDiverse_diverse [OF search_input_ok(1) [OF 2(1)], of ?fl ranked "thresholdForMode ?fl ?mode"]
      have "diverse (thresholdForMode ?fl ?mode) ?sel" using sel(1) by (rule diverse_mono) (simp add: select_threshold_def)
      then have "diverse (thresholdForMode ?fl ?mode) ?rs" using diverse_cong [OF cited(1-3)] by simp
      then show ?thesis
        using cited(4-6) sel(2) search_input_ok(2) [OF 2(1)] by auto
    qed simp
  qed (simp add: redactedNoAccessResponse_def)
  with limit show "int (length ?rs) \<le> min MaxLimit (if si_Limit input = 0 then DefaultLimit else si_Limit input)" "distinct (map rs_DocumentID ?rs)"
    "\<forall>n. int (length (filter (\<lambda>r. rs_NoteID r = Some n) ?rs)) \<le> MaxChunksPerNote" "map rs_Rank ?rs = map int [1..<length ?rs + 1]"
    "\<forall>r\<in>set ?rs. thresholdForMode ?fl ?mode \<le> rs_Confidence r \<and> rs_Citations r \<noteq> []"
    unfolding map_int_from_1 by (auto simp: diverse_def note_count_def MaxChunksPerNote_def MaxLimit_def DefaultLimit_def normalize_search_def
        split: if_splits)
qed

text \<open>
  C26. A search writes nothing and its response is a well-formed selection: no more results than the request's limit (ten by default, never above fifty),
  no document twice, at most two chunks of a note, ranks counting from one, every confidence at the threshold of the mode or above, and a citation
  for every result.
\<close>

theorem search_selection:
  assumes "Search sv lexicalFirst took userID input s = (Inr response, s')"
  shows "tables s' = tables s \<and>
    int (length (sr_Results response)) \<le> min MaxLimit (if si_Limit input = 0 then DefaultLimit else si_Limit input) \<and>
    distinct (map rs_DocumentID (sr_Results response)) \<and>
    (\<forall>n. int (length (filter (\<lambda>r. rs_NoteID r = Some n) (sr_Results response))) \<le> MaxChunksPerNote) \<and>
    map rs_Rank (sr_Results response) = map int [1..<length (sr_Results response) + 1] \<and>
    (\<forall>r\<in>set (sr_Results response). thresholdForMode (sd_fl (ss_deps sv)) (si_Mode (normalize_search input)) \<le> rs_Confidence r \<and> rs_Citations r \<noteq> [])"
  using search_wellformed [OF assms] by blast

section \<open>Authorization\<close>

lemma LoadCitations_chunk:
  assumes "LoadCitations ids s = (Inr citations, s')" and "q \<in> set (citations i)"
  shows "cn_ChunkID q = i"
  using assms by (auto simp: LoadCitations_def execE_Inr Let_def scan_citation_def split: if_split_asm)

lemma search_rows_readable:
  assumes "Search sv lexicalFirst took userID input s = (Inr response, s')"
  shows "\<forall>r\<in>set (sr_Results response). (\<exists>d c. c \<in> set (evidence_chunks (evidence_of (tables s))) \<and>
      doc_by_id (evidence_of (tables s)) (ec_document_id c) = Some d \<and> readable (rag (tables s)) (sc_IngestionRunID (sr_Scope response)) userID d \<and>
      rs_DocumentID r = ed_id d \<and> rs_ChunkID r = ec_id c \<and> rs_Content r = ec_content c) \<and>
    (\<forall>q\<in>set (rs_Citations r). cn_ChunkID q = rs_ChunkID r)"
proof (cases rule: Search_Inr [OF assms])
  case (1 plan input)
  then show ?thesis by (simp add: redactedNoAccessResponse_def)
next
  case (2 plan sc s1)
  let ?rs = "sr_Results response"
  show ?thesis
  proof (cases "?rs = []")
    case False
    let ?fl = "sd_fl (ss_deps sv)" and ?in = "normalize_search input"
    from search_in_scope_Inr [OF 2(3) False] obtain stats plan' fs s2 cands s3 citations s4 where
      ret: "Retrieve sv lexicalFirst (si_Mode ?in) sc userID plan' fs DefaultCandidateLimit s2 = (Inr cands, s3)" and t2: "tables s2 = tables s1"
      and cit: "LoadCitations (map rs_ChunkID (selectDiverse ?fl (rank_for_mode ?fl (si_Mode ?in) cands plan stats) (si_Limit ?in) (thresholdForMode ?fl (si_Mode ?in)))) s3
          = (Inr citations, s4)"
      and att: "attach_citations citations 0 (selectDiverse ?fl (rank_for_mode ?fl (si_Mode ?in) cands plan stats) (si_Limit ?in) (thresholdForMode ?fl (si_Mode ?in))) = Inr ?rs"
      and scope: "sr_Scope response = sc" by metis
    let ?ranked = "rank_for_mode ?fl (si_Mode ?in) cands plan stats"
    let ?sel = "selectDiverse ?fl ?ranked (si_Limit ?in) (thresholdForMode ?fl (si_Mode ?in))"
    have "result_rows ` set ?rs = result_rows ` set ?sel" using attach_citations_Inr(1) [OF att] by (metis list.set_map)
    also have "\<dots> \<subseteq> cand_rows ` set cands"
      using selectDiverse_diverse(3) [OF search_input_ok(1) [OF 2(1)]] rank_for_mode_rows by blast
    also have "\<dots> \<subseteq> readable_rows (rag (tables s)) (sc_IngestionRunID sc) userID" using Retrieve_rows [OF ret] t2 2(4) by simp
    finally have rows: "result_rows r \<in> readable_rows (rag (tables s)) (sc_IngestionRunID sc) userID" if "r \<in> set ?rs" for r using that by blast
    moreover have "cn_ChunkID q = rs_ChunkID r" if "r \<in> set ?rs" "q \<in> set (rs_Citations r)" for r q
      using that attach_citations_Inr(5) [OF att] LoadCitations_chunk [OF cit] by metis
    ultimately show ?thesis unfolding scope readable_rows_def result_rows_def by blast
  qed simp
qed

text \<open>
  C25. Search discloses nothing its caller may not read: every result is a chunk of a published document of the run searched whose project
  is active, which the caller may see (the document and its project are public, or the caller is an active member), and none of whose sources was deleted without a
  newer version; every citation belongs to the result's chunk.
\<close>

theorem search_authorised:
  assumes "Search sv lexicalFirst took userID input s = (Inr response, s')"
  shows "\<forall>r\<in>set (sr_Results response). (\<exists>d c. c \<in> set (evidence_chunks (evidence_of (tables s))) \<and>
      doc_by_id (evidence_of (tables s)) (ec_document_id c) = Some d \<and> readable (rag (tables s)) (sc_IngestionRunID (sr_Scope response)) userID d \<and>
      rs_DocumentID r = ed_id d \<and> rs_ChunkID r = ec_id c \<and> rs_Content r = ec_content c) \<and>
    (\<forall>q\<in>set (rs_Citations r). cn_ChunkID q = rs_ChunkID r)"
  using search_rows_readable [OF assms] .

section \<open>Panics\<close>

definition never_panics :: "('s, 'a) sem \<Rightarrow> bool" where
  "never_panics m = (\<forall>s msg. fst (m s) \<noteq> Inl (RuntimePanic msg))"

named_theorems panic_intros \<open>computations that do not panic\<close>

lemma never_panics_basic [panic_intros]:
  "never_panics (returnE x)" "(\<And>msg. e \<noteq> RuntimePanic msg) \<Longrightarrow> never_panics (throwE e)" "(\<And>msg. r \<noteq> Inl (RuntimePanic msg)) \<Longrightarrow> never_panics (liftE r)"
  by (simp_all add: never_panics_def liftE_def)

lemma never_panics_bind_result:
  "never_panics m \<Longrightarrow> (\<And>s x s'. m s = (Inr x, s') \<Longrightarrow> never_panics (k x)) \<Longrightarrow> never_panics (bindE m k)"
  by (auto simp: never_panics_def bindE_def split: prod.splits sum.splits) (metis fst_conv)+

lemma never_panics_bindE [panic_intros]: "never_panics m \<Longrightarrow> (\<And>x. never_panics (k x)) \<Longrightarrow> never_panics (bindE m k)"
  by (rule never_panics_bind_result)

lemma never_panics_mapErr [panic_intros]: "(\<And>e msg. h e \<noteq> RuntimePanic msg) \<Longrightarrow> never_panics (mapErr h m)"
  by (auto simp: never_panics_def mapErr_def split: prod.splits sum.splits)

lemma never_panics_on_rag [panic_intros]: "never_panics m \<Longrightarrow> never_panics (on_rag m)"
  by (auto simp: never_panics_def on_rag_def split: prod.splits) (metis fst_conv)

lemma never_panics_if [panic_intros]: "(b \<Longrightarrow> never_panics m) \<Longrightarrow> (\<not> b \<Longrightarrow> never_panics m') \<Longrightarrow> never_panics (if b then m else m')"
  by simp

lemma never_panics_option [panic_intros]:
  "(x = None \<Longrightarrow> never_panics m) \<Longrightarrow> (\<And>y. x = Some y \<Longrightarrow> never_panics (k y)) \<Longrightarrow> never_panics (case x of None \<Rightarrow> m | Some y \<Rightarrow> k y)"
  by (cases x) auto

lemma never_panics_sum [panic_intros]:
  "(\<And>e. x = Inl e \<Longrightarrow> never_panics (m e)) \<Longrightarrow> (\<And>y. x = Inr y \<Longrightarrow> never_panics (k y)) \<Longrightarrow> never_panics (case x of Inl e \<Rightarrow> m e | Inr y \<Rightarrow> k y)"
  by (cases x) auto

lemmas retrieval_errors = ErrScopeNotFound_def ErrIndexNotReady_def ErrUnsupportedMode_def ErrIndexVersionMismatch_def ErrDependencyUnavailable_def

lemma query_panics [panic_intros]:
  "never_panics (LoadAuthorizedCandidates sd sc u ids fs)" "never_panics (GetTermStats run access terms)" "never_panics (LoadCitations ids)"
  "never_panics (ResolveScope coll p d r)" "never_panics (ResolveAccess sc u)"
  unfolding LoadAuthorizedCandidates_def GetTermStats_def LoadCitations_def ResolveScope_def ResolveAccess_def
  by (intro panic_intros; simp add: retrieval_errors)+

lemma lexical_panics [panic_intros]: "never_panics (SearchLexicalCandidates sd sc u plan fs limit)"
  unfolding SearchLexicalCandidates_def by (intro panic_intros) simp

lemma vector_panics [panic_intros]: "never_panics (vector_Retrieve sd vd sc u plan fs limit)"
  unfolding vector_Retrieve_def by (intro panic_intros) (simp_all add: retrieval_errors)

lemma Retrieve_panics [panic_intros]: "never_panics (Retrieve sv lf mode sc u plan fs limit)"
  unfolding Retrieve_def hybrid_Retrieve_def Let_def by (intro panic_intros)

lemma attach_citations_error: "attach_citations citations i rs \<noteq> Inl (RuntimePanic msg)"
  by (induction rs arbitrary: i) (auto split: sum.splits)

text \<open>Multiplying a score that is not negative by 0.72 does not increase it.\<close>

definition float_damps :: "'f::linorder float_ops \<Rightarrow> bool" where
  "float_damps fl = (\<forall>x. f_dec fl 0 0 \<le> x \<longrightarrow> f_mul fl x (f_dec fl 72 2) \<le> x)"

lemma rank_confidence: "r \<in> set (rank_for_mode fl mode cs plan stats) \<Longrightarrow> f_dec fl 0 0 \<le> rs_Confidence r"
  by (auto simp: rank_for_mode_def rankVectorCandidates_def rankHybridCandidates_def rankCandidates_def vector_result_def hybrid_result_def
      lexical_result_def clamp_def Let_def le_max_iff_disj split: if_splits prod.splits)

lemma selectDiverse_head:
  assumes "float_damps fl" "f_dec fl 0 0 \<le> rs_Confidence best" "\<not> rs_Confidence best < minimum" "1 \<le> limit"
  shows "\<exists>rest. selectDiverse fl (best # tail) limit minimum = best # rest"
proof -
  let ?th = "max minimum (f_mul fl (rs_Confidence best) (f_dec fl 72 2))"
  have "?th \<le> rs_Confidence best" using assms(1-3) by (simp add: float_damps_def)
  then have "\<not> rs_Confidence best < ?th" by (rule leD)
  then show ?thesis
    using select_loop_prefix [of ?th limit tail "[best]"] assms(4)
    by (auto simp: selectDiverse_def note_count_def MaxChunksPerNote_def split: option.splits)
qed

lemma answer_panics:
  assumes "float_damps fl" "1 \<le> limit" "\<And>r. r \<in> set ranked \<Longrightarrow> f_dec fl 0 0 \<le> rs_Confidence r"
  shows "never_panics (answer fl mode limit response ranked)"
proof (cases "ranked = [] \<or> rs_Confidence (hd ranked) < thresholdForMode fl mode")
  case True
  then show ?thesis by (cases ranked) (auto simp: answer_def Let_def intro: panic_intros)
next
  case False
  let ?sel = "selectDiverse fl ranked limit (thresholdForMode fl mode)"
  from False obtain best tail where ranked: "ranked = best # tail" by (cases ranked) auto
  obtain rest where sel: "?sel = best # rest"
    using selectDiverse_head [OF assms(1), of best "thresholdForMode fl mode" limit tail] assms(2,3) False ranked by auto
  have cited: "cited \<noteq> []" if "attach_citations citations 0 ?sel = Inr cited" for citations cited
    using attach_citations_Inr(6) [OF that] sel by auto
  have attach: "never_panics (bindE (liftE (attach_citations citations 0 ?sel)) (\<lambda>cited. case cited of [] \<Rightarrow> throwE (RuntimePanic msg) | c # _ \<Rightarrow> returnE (f c cited)))"
    for citations f msg
    by (rule never_panics_bind_result)
      (auto simp: liftE_def attach_citations_error dest!: cited intro!: panic_intros never_panics_basic(3) [unfolded liftE_def] split: list.splits)
  show ?thesis
    using False unfolding answer_def Let_def ranked by simp (rule never_panics_bindE [OF query_panics(3) attach [unfolded ranked]])
qed

lemma search_in_scope_panics:
  assumes "float_damps (sd_fl (ss_deps sv))" "1 \<le> si_Limit input"
  shows "never_panics (search_in_scope sv lf took u input plan sc)"
  unfolding search_in_scope_def Let_def
  by (intro panic_intros answer_panics assms rank_confidence)

lemma BuildQueryPlan_error: "BuildQueryPlan u raw \<noteq> Inl (RuntimePanic msg)"
  by (simp add: BuildQueryPlan_def Let_def)

lemma search_input_error_text: "search_input_error sv raw \<noteq> Some (RuntimePanic msg)" "validateScopeIndex sc mode \<noteq> Some (RuntimePanic msg)"
  by (auto simp: search_input_error_def Let_def validateFilters_def validateScopeIndex_def retrieval_errors split: option.splits)

text \<open>
  C27. The decision of a response reads the first selected result without checking that there is one; it always exists: no request panics,
  whatever the tables hold, whichever statements fail, and whatever the embedding service and the vector store answer.
\<close>

theorem search_never_panics:
  assumes "float_damps (sd_fl (ss_deps sv))"
  shows "fst (Search sv lexicalFirst took userID input s) \<noteq> Inl (RuntimePanic msg)"
proof -
  have "never_panics (Search sv lexicalFirst took userID input)"
  proof (cases "search_input_error sv input")
    case None
    then show ?thesis
      unfolding Search_def Let_def using search_input_ok(1) [OF None]
      by (simp, intro panic_intros search_in_scope_panics [OF assms]) (auto simp: BuildQueryPlan_error search_input_error_text)
  next
    case (Some e)
    then show ?thesis unfolding Search_def using search_input_error_text(1) [of sv input] by (auto intro!: panic_intros)
  qed
  then show ?thesis by (simp add: never_panics_def)
qed

section \<open>Hidden documents\<close>

text \<open>The store a user sees: every document the user may not see is gone.\<close>

definition hide_documents :: "int \<Rightarrow> rag_store \<Rightarrow> rag_store" where
  "hide_documents userID t = t\<lparr>evid := (evid t)\<lparr>evidence_documents := filter (may_see (core t) userID) (evidence_documents (evid t))\<rparr>\<rparr>"

text \<open>Keys of documents are unique, and the citations of a chunk belong to its document.\<close>

definition evidence_keyed :: "evidence_tables \<Rightarrow> bool" where
  "evidence_keyed t =
     (distinct (map ed_id (evidence_documents t)) \<and>
      (\<forall>r\<in>set (source_citations t). \<forall>c\<in>set (evidence_chunks t). ec_id c = ct_chunk_id r \<longrightarrow> ct_document_id r = ec_document_id c))"

lemma find_filter_keyed:
  assumes "distinct (map f xs)"
  shows "find (\<lambda>x. f x = i) (filter P xs) = (case find (\<lambda>x. f x = i) xs of None \<Rightarrow> None | Some x \<Rightarrow> if P x then Some x else None)"
  using assms
proof (induction xs)
  case (Cons x xs)
  have "find (\<lambda>y. f y = f x) xs = None" using Cons.prems unfolding find_None_iff by (metis distinct.simps(2) image_eqI list.set_map list.simps(9))
  then show ?case using Cons by auto
qed simp

lemma doc_by_id_hide:
  assumes "evidence_keyed (evid t)"
  shows "doc_by_id (evid (hide_documents u t)) i = (case doc_by_id (evid t) i of None \<Rightarrow> None | Some d \<Rightarrow> if may_see (core t) u d then Some d else None)"
  using assms find_filter_keyed [of ed_id "evidence_documents (evid t)"] by (simp add: doc_by_id_def hide_documents_def evidence_keyed_def)

lemma hide_tables [simp]:
  "core (hide_documents u t) = core t"
  "evidence_chunks (evid (hide_documents u t)) = evidence_chunks (evid t)"
  "source_citations (evid (hide_documents u t)) = source_citations (evid t)"
  "ingestion_run_documents (evid (hide_documents u t)) = ingestion_run_documents (evid t)"
  "evidence_document_sources (evid (hide_documents u t)) = evidence_document_sources (evid t)"
  "evidence_sources (evid (hide_documents u t)) = evidence_sources (evid t)"
  "evidence_source_payloads (evid (hide_documents u t)) = evidence_source_payloads (evid t)"
  "ingestion_runs (evid (hide_documents u t)) = ingestion_runs (evid t)"
  "dataset_versions (evid (hide_documents u t)) = dataset_versions (evid t)"
  "retrieval_lexical_indexes (hide_documents u t) = retrieval_lexical_indexes t"
  "retrieval_vector_indexes (hide_documents u t) = retrieval_vector_indexes t"
  by (simp_all add: hide_documents_def)

lemma hide_same [simp]:
  "doc_in_run (evid (hide_documents u t)) run i = doc_in_run (evid t) run i"
  "doc_withdrawn (evid (hide_documents u t)) d = doc_withdrawn (evid t) d"
  "payload_of (evid (hide_documents u t)) source = payload_of (evid t) source"
  "primary_payload (evid (hide_documents u t)) d = primary_payload (evid t) d"
  "doc_note_id (evid (hide_documents u t)) d = doc_note_id (evid t) d"
  "doc_media_position (evid (hide_documents u t)) d = doc_media_position (evid t) d"
  "scope_of (hide_documents u t) r = scope_of t r"
  "doc_eligible (hide_documents u t) u' fs d = doc_eligible t u' fs d"
  "hinted_document (evid (hide_documents u t)) plan d = hinted_document (evid t) plan d"
  "scan_candidate fl (evid (hide_documents u t)) d c = scan_candidate fl (evid t) d c"
  "scan_citation (evid (hide_documents u t)) d q = scan_citation (evid t) d q"
  unfolding doc_in_run_def doc_withdrawn_def doc_has_source_def newer_active_source_def payload_of_def primary_payload_def doc_note_id_def
    doc_media_position_def scope_of_def doc_eligible_def hinted_document_def scan_candidate_def scan_citation_def hide_tables by (rule refl)+

lemma hide_functions [simp]:
  "scope_of (hide_documents u t) = scope_of t"
  "scan_citation (evid (hide_documents u t)) = scan_citation (evid t)"
  by (intro ext hide_same)+

lemma joined_chunks_hide:
  assumes "evidence_keyed (evid t)" "\<And>d c. P d c \<Longrightarrow> may_see (core t) u d"
  shows "joined_chunks (evid (hide_documents u t)) P = joined_chunks (evid t) P"
  unfolding joined_chunks_def hide_tables doc_by_id_hide [OF assms(1)] using assms(2)
  by (intro arg_cong [where f = "\<lambda>f. List.map_filter f (evidence_chunks (evid t))"] ext) (auto split: option.splits)

lemma lexical_candidates_hide:
  assumes "evidence_keyed (evid t)"
  shows "lexical_candidates sd (hide_documents u t) sc u plan fs limit = lexical_candidates sd t sc u plan fs limit"
proof -
  have "eligible_chunks sd (hide_documents u t) sc u plan fs q = eligible_chunks sd t sc u plan fs q" for q
    unfolding eligible_chunks_def hide_same by (rule joined_chunks_hide [OF assms]) (simp add: doc_eligible_def doc_visible_may_see)
  then show ?thesis by (simp add: lexical_candidates_def)
qed

lemma authorized_candidates_hide:
  assumes "evidence_keyed (evid t)"
  shows "authorized_candidates sd (hide_documents u t) sc u ids fs = authorized_candidates sd t sc u ids fs"
proof -
  have "joined_chunks (evid (hide_documents u t)) (\<lambda>d c. ec_id c \<in> set ids \<and> doc_in_run (evid t) (sc_IngestionRunID sc) (ed_id d) \<and>
      ed_project_id d = sc_ProjectID sc \<and> doc_eligible t u fs d) =
    joined_chunks (evid t) (\<lambda>d c. ec_id c \<in> set ids \<and> doc_in_run (evid t) (sc_IngestionRunID sc) (ed_id d) \<and>
      ed_project_id d = sc_ProjectID sc \<and> doc_eligible t u fs d)"
    by (rule joined_chunks_hide [OF assms]) (simp add: doc_eligible_def doc_visible_may_see)
  then show ?thesis by (simp add: authorized_candidates_def)
qed

text \<open>The citations of chunks the user may read.\<close>

lemma map_filter_cong: "(\<And>x. x \<in> set xs \<Longrightarrow> f x = g x) \<Longrightarrow> List.map_filter f xs = List.map_filter g xs"
  by (induction xs) (auto simp: map_filter_simps split: option.splits)

lemma joined_citations_hide:
  assumes keyed: "evidence_keyed (evid t)" and ids: "\<And>i. i \<in> set ids \<Longrightarrow> \<exists>d x. (d, i, x) \<in> readable_rows t run u"
  shows "joined_citations (evid (hide_documents u t)) ids = joined_citations (evid t) ids"
  unfolding joined_citations_def hide_tables
proof (rule map_filter_cong)
  fix r assume "r \<in> set (sort_key (\<lambda>r. (ct_chunk_id r, ct_document_start_byte r, ct_id r)) (filter (\<lambda>r. ct_chunk_id r \<in> set ids) (source_citations (evid t))))"
  then have r: "r \<in> set (source_citations (evid t))" "ct_chunk_id r \<in> set ids" by auto
  from ids [OF r(2)] obtain c d where "c \<in> set (evidence_chunks (evid t))" "ec_id c = ct_chunk_id r" "doc_by_id (evid t) (ec_document_id c) = Some d"
    "may_see (core t) u d" by (auto simp: readable_rows_def readable_def)
  moreover from this have "ct_document_id r = ec_document_id c" using keyed r(1) by (auto simp: evidence_keyed_def)
  ultimately show "(case doc_by_id (evid (hide_documents u t)) (ct_document_id r) of None \<Rightarrow> None | Some d \<Rightarrow> Some (d, r)) =
      (case doc_by_id (evid t) (ct_document_id r) of None \<Rightarrow> None | Some d \<Rightarrow> Some (d, r))"
    by (simp add: doc_by_id_hide [OF keyed])
qed

definition hide_in_search :: "int \<Rightarrow> 'f search_store \<Rightarrow> 'f search_store" where
  "hide_in_search userID t = t\<lparr>rag := hide_documents userID (rag t)\<rparr>"

lemma hide_in_search_simps [simp]:
  "rag (hide_in_search u t) = hide_documents u (rag t)"
  "retrieval_lexeme_visibility_stats (hide_in_search u t) = retrieval_lexeme_visibility_stats t"
  by (simp_all add: hide_in_search_def)

lemma hidden_lexical:
  assumes "evidence_keyed (evidence_of t)"
  shows "view_eq t (hide_in_search u t) (SearchLexicalCandidates sd sc u plan fs limit)"
  unfolding SearchLexicalCandidates_def
  by (intro view_eq_mapErr view_eq_execE [where g = "\<lambda>_. if tsquery_ok sd (BuildTSQuery (qp_Terms plan)) then Inr (lexical_candidates sd (rag t) sc u plan fs limit)
       else Inl (PgError ''42601'' ''syntax error in tsquery'')"]) (simp_all add: lexical_candidates_hide [OF assms])

lemma hidden_vector:
  assumes "evidence_keyed (evidence_of t)"
  shows "view_eq t (hide_in_search u t) (vector_Retrieve sd vd sc u plan fs limit)"
  unfolding vector_Retrieve_def LoadAuthorizedCandidates_def
  by (intro view_intros) (simp add: authorized_candidates_hide [OF assms])

lemma hidden_Retrieve:
  assumes "evidence_keyed (evidence_of t)"
  shows "view_eq t (hide_in_search u t) (Retrieve sv lf mode sc u plan fs limit)"
  unfolding Retrieve_def hybrid_Retrieve_def Let_def
  by (intro view_intros hidden_lexical hidden_vector assms)

lemma hidden_citations:
  assumes keyed: "evidence_keyed (evidence_of t)" and ids: "\<And>i. i \<in> set ids \<Longrightarrow> \<exists>d x. (d, i, x) \<in> readable_rows (rag t) run u"
  shows "view_eq t (hide_in_search u t) (LoadCitations ids)"
proof -
  let ?rows = "joined_citations (evidence_of t) ids"
  have same: "joined_citations (evid (hide_documents u (rag t))) ids = ?rows" by (rule joined_citations_hide [OF keyed ids])
  show ?thesis
    unfolding LoadCitations_def
    by (intro view_intros view_eq_execE [where g = "\<lambda>_. if list_all (\<lambda>(d, r). utf8_Valid (citation_quote d r)) ?rows
        then Inr (\<lambda>i. map (\<lambda>(d, r). scan_citation (evidence_of t) d r) (filter (\<lambda>(d, r). ct_chunk_id r = i) ?rows))
        else Inl (PgError ''22021'' ''invalid byte sequence for encoding'')"]) (simp_all add: Let_def same)
qed

lemma hidden_answer:
  assumes keyed: "evidence_keyed (evidence_of t)" and rows: "result_rows ` set ranked \<subseteq> readable_rows (rag t) run u" and limit: "1 \<le> limit"
  shows "view_eq t (hide_in_search u t) (answer fl mode limit response ranked)"
proof -
  have "\<exists>d x. (d, i, x) \<in> readable_rows (rag t) run u" if "i \<in> set (map rs_ChunkID (selectDiverse fl ranked limit (thresholdForMode fl mode)))" for i
    using that selectDiverse_diverse(3) [OF limit, of fl ranked "thresholdForMode fl mode"] rows by (fastforce simp: result_rows_def)
  then show ?thesis
    unfolding answer_def Let_def by (intro view_intros hidden_citations [OF keyed]) auto
qed

lemma hidden_search_in_scope:
  assumes keyed: "evidence_keyed (evidence_of t)" and limit: "1 \<le> si_Limit input"
  shows "view_eq t (hide_in_search u t) (search_in_scope sv lf took u input plan sc)"
proof -
  have stats: "view_eq t (hide_in_search u t) (GetTermStats run access terms)" for run access terms
    unfolding GetTermStats_def by (intro view_intros) simp
  have tail: "view_eq t (hide_in_search u t) (bindE (Retrieve sv lf mode sc u plan' fs n) (\<lambda>cands. answer fl mode (si_Limit input) (resp cands) (rank_for_mode fl mode cands plan stats)))"
    for mode plan' fs n fl resp stats
  proof (rule view_eq_bind_result [OF hidden_Retrieve [OF keyed]])
    fix cands s s' assume s: "tables s = t" "Retrieve sv lf mode sc u plan' fs n s = (Inr cands, s')"
    show "view_eq t (hide_in_search u t) (answer fl mode (si_Limit input) (resp cands) (rank_for_mode fl mode cands plan stats))"
      using Retrieve_rows [OF s(2)] s(1) by (intro hidden_answer [OF keyed _ limit]) (simp add: rank_for_mode_rows)
  qed
  show ?thesis unfolding search_in_scope_def Let_def by (intro view_eq_bindE view_eq_if view_eq_basic stats tail)
qed

lemma hidden_scope:
  "view_eq t (hide_in_search u t) (on_rag (ResolveScope coll p d run))" "view_eq t (hide_in_search u t) (on_rag (ResolveAccess sc u'))"
  unfolding ResolveScope_def ResolveAccess_def by ((intro view_intros)?; simp)+

text \<open>
  C24. A document its caller may not see has no influence on a search: the request returns the same response, or the same error, on the store from
  which every such document has been removed. Not even the number of candidates or a confidence can reveal one.
\<close>

theorem search_ignores_hidden:
  assumes "evidence_keyed (evidence_of (tables s))"
  shows "fst (Search sv lexicalFirst took userID input (s\<lparr>tables := hide_in_search userID (tables s)\<rparr>)) = fst (Search sv lexicalFirst took userID input s)"
proof (rule view_eq_run [OF _ refl])
  show "view_eq (tables s) (hide_in_search userID (tables s)) (Search sv lexicalFirst took userID input)"
  proof (cases "search_input_error sv input")
    case None
    then show ?thesis
      unfolding Search_def Let_def using search_input_ok(1) [OF None]
      by (simp, intro view_eq_bindE view_eq_if view_eq_option view_eq_basic hidden_scope hidden_search_in_scope assms) simp
  next
    case (Some e)
    then show ?thesis by (simp add: Search_def view_eq_basic)
  qed
qed

section \<open>Rankings\<close>

lemma result_orders_weak [intro]:
  "strict_weak_order lexical_order" "strict_weak_order vector_order" "strict_weak_order hybrid_order"
  unfolding lexical_order_def vector_order_def hybrid_order_def by (intro then_by_weak desc_by_weak asc_by_weak)+

interpretation lexical: strict_weak_order lexical_order by (rule result_orders_weak)

interpretation vector: strict_weak_order vector_order by (rule result_orders_weak)

interpretation hybrid: strict_weak_order hybrid_order by (rule result_orders_weak)

text \<open>Any of the three orders separates results of different chunks.\<close>

lemma orders_total:
  "rs_ChunkID x \<noteq> rs_ChunkID y \<Longrightarrow> lexical_order x y \<or> lexical_order y x"
  "rs_ChunkID x \<noteq> rs_ChunkID y \<Longrightarrow> vector_order x y \<or> vector_order y x"
  "rs_ChunkID x \<noteq> rs_ChunkID y \<Longrightarrow> hybrid_order x y \<or> hybrid_order y x"
  by (auto simp: lexical_order_def vector_order_def hybrid_order_def then_by_def desc_by_def asc_by_def)

lemma distinct_chunks_eq:
  assumes "distinct (map rs_ChunkID xs)" "x \<in> set xs" "y \<in> set xs" "x \<noteq> y"
  shows "rs_ChunkID x \<noteq> rs_ChunkID y"
  using assms by (meson distinct_map inj_onD)

lemma result_chunk [simp]:
  "rs_ChunkID (lexical_result fl plan stats c) = cd_ChunkID c" "rs_ChunkID (vector_result fl c) = cd_ChunkID c"
  "rs_ChunkID (hybrid_result fl bc r) = rs_ChunkID r"
  by (simp_all add: lexical_result_def vector_result_def hybrid_result_def blank_result_def resultFromCandidate_def Let_def split: prod.splits)

lemma rankCandidates_perm:
  assumes "mset cs = mset cs'" "distinct (map cd_ChunkID cs)"
  shows "rankCandidates fl cs plan stats = rankCandidates fl cs' plan stats"
  unfolding rankCandidates_def
proof (rule lexical.sort_by_unique)
  show "mset (map (lexical_result fl plan stats) cs) = mset (map (lexical_result fl plan stats) cs')" using assms(1) by simp
  show "lexical_order x y \<or> lexical_order y x"
    if "x \<in> set (map (lexical_result fl plan stats) cs)" "y \<in> set (map (lexical_result fl plan stats) cs)" "x \<noteq> y" for x y
    using distinct_chunks_eq [OF _ that] assms(2) by (intro orders_total) (simp add: comp_def)
qed

lemma byChunk_Some: "distinct (map cd_ChunkID cs) \<Longrightarrow> byChunk cs k = Some c \<longleftrightarrow> c \<in> set cs \<and> cd_ChunkID c = k"
  unfolding byChunk_def by (subst map_of_eq_Some_iff) (auto simp: rev_map [symmetric] comp_def)

lemma byChunk_perm:
  assumes "mset cs = mset cs'" "distinct (map cd_ChunkID cs)"
  shows "byChunk cs = byChunk cs'"
proof
  fix k
  have "distinct (map cd_ChunkID cs')" using assms by (metis mset_eq_imp_distinct_iff mset_map)
  then have "byChunk cs k = Some c \<longleftrightarrow> byChunk cs' k = Some c" for c
    using byChunk_Some [OF assms(2)] byChunk_Some mset_eq_setD [OF assms(1)] by metis
  then show "byChunk cs k = byChunk cs' k" by (metis not_None_eq)
qed

text \<open>
  The order in which the database or the vector store deliver candidates does not matter: for candidates of different chunks, the ranking of each
  mode depends on the set of candidates only.
\<close>

theorem ranking_order_independent:
  assumes "mset cs = mset cs'" and "distinct (map cd_ChunkID cs)"
  shows "rank_for_mode fl mode cs plan stats = rank_for_mode fl mode cs' plan stats"
proof -
  have "rankVectorCandidates fl cs = rankVectorCandidates fl cs'"
    unfolding rankVectorCandidates_def
  proof (rule vector.sort_by_unique)
    show "mset (map (vector_result fl) cs) = mset (map (vector_result fl) cs')" using assms(1) by simp
    show "vector_order x y \<or> vector_order y x"
      if "x \<in> set (map (vector_result fl) cs)" "y \<in> set (map (vector_result fl) cs)" "x \<noteq> y" for x y
      using distinct_chunks_eq [OF _ that] assms(2) by (intro orders_total) (simp add: comp_def)
  qed
  then show ?thesis using rankCandidates_perm [OF assms] byChunk_perm [OF assms] by (simp add: rank_for_mode_def rankHybridCandidates_def)
qed

section \<open>A small run\<close>

text \<open>
  Two documents of a public project, one of them for members only, searched by a user who is no member. Floats are thousandths; the search functions
  of the database are constant.
\<close>

definition sample_search_deps :: "int search_deps" where
  "sample_search_deps = \<lparr>sd_u = search_unicode, sd_fl = milli_ops, sd_coll = (\<lambda>_. 0), tsquery_ok = (\<lambda>_. True), ts_matches = (=),
     ts_rank = (\<lambda>_ _. 100), ts_rank_cd = (\<lambda>_ _. 100), trgm_similarity = (\<lambda>_ _. 500)\<rparr>"

definition sample_search_service :: "int search_service" where
  "sample_search_service = \<lparr>ss_deps = sample_search_deps, ss_vector = None\<rparr>"

definition sample_doc :: "int \<Rightarrow> string \<Rightarrow> document_row" where
  "sample_doc i vis = \<lparr>ed_id = i, ed_document_key = (if i = 1 then ''d'' else ''e''), ed_project_id = 1, ed_dataset_id = 1, ed_dataset_version_id = 1, ed_document_type = ''note'',
     ed_source_type = ''note'', ed_source_id = Some i, ed_source_key = ''note'', ed_source_version = 1, ed_source_content_hash = ''h'', ed_parser_version = ''p'',
     ed_visibility = vis, ed_canonical_text = ''tok'', ed_content_hash = ''h'', ed_metadata = JObj [], ed_expected_chunk_count = 1,
     ed_lifecycle_status = ''ready'', ed_source_created_at = None, ed_source_updated_at = None, ed_deleted_at = None\<rparr>"

definition sample_chunk :: "int \<Rightarrow> int \<Rightarrow> chunk_row" where
  "sample_chunk i d = \<lparr>ec_id = i, ec_chunk_key = (if d = 1 then ''c'' else ''d''), ec_document_id = d, ec_chunk_index = 0, ec_start_byte = 0, ec_end_byte = 3, ec_start_rune = 0,
     ec_end_rune = 3, ec_content = ''tok'', ec_content_hash = ''tok'', ec_chunker_version = ''v'', ec_tokenizer_version = ''v'', ec_lexemes = ''tok'', ec_metadata = JObj []\<rparr>"

definition sample_cite :: "int \<Rightarrow> int \<Rightarrow> int \<Rightarrow> citation_row" where
  "sample_cite i d c = \<lparr>ct_id = i, ct_citation_key = (if d = 1 then ''c~1'' else ''d~1''), ct_document_id = d, ct_chunk_id = c, ct_project_id = 1, ct_dataset_id = 1, ct_dataset_version_id = 1,
     ct_evidence_source_id = None, ct_daily_fact_payload_id = Some 1, ct_source_type = ''note'', ct_source_id = d, ct_source_version = 1,
     ct_source_content_hash = ''h'', ct_parser_version = ''p'', ct_document_start_byte = 0, ct_document_end_byte = 3, ct_source_start_byte = 0,
     ct_source_end_byte = 3, ct_quote_hash = ''tok''\<rparr>"

definition sample_search_store :: "int search_store" where
  "sample_search_store = \<lparr>rag = \<lparr>core = sample_store, evid = \<lparr>dataset_versions = [\<lparr>dv_id = 1, dv_dataset_id = 1, dv_project_id = 1, dv_version = 1, dv_status = ''frozen'',
        dv_manifest_checksum = ''m'', dv_source_count = 2\<rparr>], dataset_version_sources = [], evidence_sources = [], evidence_source_payloads = [], daily_fact_payloads = [],
       ingestion_runs = [\<lparr>ir_run_id = ''run'', ir_project_id = 1, ir_dataset_id = 1, ir_dataset_version_id = 1, ir_mode = ''rebuild'',
         ir_parser_version = ''p'', ir_chunker_version = ''c'', ir_tokenizer_version = ''t'', ir_status = ''completed'', ir_dataset_manifest_checksum = ''m'',
         ir_input_checksum = Some ''i'', ir_output_checksum = Some ''o'', ir_source_count = 2, ir_fact_source_count = 0, ir_document_count = 2,
         ir_chunk_count = 2, ir_citation_count = 2, ir_reused_document_count = 0, ir_error_message = None, ir_started_at = 4, ir_completed_at = Some 5\<rparr>],
       ingestion_run_fact_inputs = [], ingestion_run_documents = [\<lparr>rd_run_id = ''run'', rd_document_id = 1, rd_disposition = ''created''\<rparr>,
         \<lparr>rd_run_id = ''run'', rd_document_id = 2, rd_disposition = ''created''\<rparr>],
       evidence_documents = [sample_doc 1 ''public'', sample_doc 2 ''project''], evidence_document_sources = [],
       evidence_chunks = [sample_chunk 11 1, sample_chunk 12 2], source_citations = [sample_cite 21 1 11, sample_cite 22 2 12]\<rparr>,
      retrieval_lexical_indexes = [\<lparr>lx_ingestion_run_id = ''run'', lx_index_version = LexicalIndexVersion, lx_index_checksum = Some ''x'', lx_status = ''completed''\<rparr>],
      retrieval_vector_indexes = [], agent_prompt_versions = [], agent_model_versions = [], agent_runs = []\<rparr>,
    retrieval_lexeme_visibility_stats = [\<lparr>lv_ingestion_run_id = ''run'', lv_access_scope = ''public'', lv_lexeme = ''tok'', lv_chunk_frequency = 1,
      lv_occurrence_count = 1, lv_inverse_document_frequency = 1000\<rparr>]\<rparr>"

definition sample_search_db :: "int search_store db" where
  "sample_search_db = \<lparr>tables = sample_search_store, seqs = (\<lambda>_. 0), faults = [], db_now = 100\<rparr>"

definition sample_search_input :: SearchInput where
  "sample_search_input = \<lparr>si_ProjectID = 0, si_DatasetVersionID = 0, si_IngestionRunID = [], si_Query = ''tok'', si_Mode = [], si_Limit = 0,
     si_Filters = \<lparr>fs_DocumentTypes = [], fs_SourceTypes = []\<rparr>\<rparr>"

definition sample_search_scope :: Scope where
  "sample_search_scope = \<lparr>sc_ProjectID = 1, sc_ProjectVisibility = ''public'', sc_DatasetID = 1, sc_DatasetVersionID = 1, sc_DatasetVersion = 1,
     sc_DatasetManifestChecksum = ''m'', sc_IngestionRunID = ''run'', sc_IngestionOutputChecksum = ''o'', sc_ParserVersion = ''p'',
     sc_ChunkerVersion = ''c'', sc_TokenizerVersion = ''t'', sc_LexicalIndexVersion = LexicalIndexVersion, sc_LexicalIndexChecksum = ''x'',
     sc_VectorIndexVersion = [], sc_VectorIndexChecksum = [], sc_VectorCollection = [], sc_EmbeddingModel = [], sc_EmbeddingRevision = [],
     sc_AccessScope = []\<rparr>"

lemma sample_normalized: "normalize_search sample_search_input = sample_search_input\<lparr>si_ProjectID := 1, si_Mode := ModeLexical, si_Limit := 10\<rparr>"
  by (simp add: normalize_search_def sample_search_input_def trim_query DefaultLimit_def)

lemma sample_request_ok: "search_input_error sample_search_service sample_search_input = None"
  by (simp add: search_input_error_def sample_search_input_def mode_enabled_def DefaultLimit_def MaxLimit_def validateFilters_def Let_def)

lemma sample_scope_run: "on_rag (ResolveScope c 1 0 []) sample_search_db = (Inr sample_search_scope, sample_search_db)"
  by (simp add: on_rag_def ResolveScope_def mapErr_def sample_search_db_def sample_search_store_def scope_filter_def scope_of_def map_filter_simps
     sample_store_def Let_def coalesce_def sample_search_scope_def)

lemma sample_access_run: "on_rag (ResolveAccess sample_search_scope 7) sample_search_db = (Inr ''public'', sample_search_db)"
  by (simp add: on_rag_def ResolveAccess_def mapErr_def sample_search_db_def sample_search_store_def project_access_def exists_row_def
     sample_store_def sample_search_scope_def)

definition sample_stats :: "int stats" where
  "sample_stats = [''tok'' \<mapsto> \<lparr>ts_Lexeme = ''tok'', ts_ChunkFrequency = 1, ts_OccurrenceCount = 1, ts_InverseDocumentFrequency = 1000\<rparr>]"

lemma sample_stats_run: "GetTermStats ''run'' ''public'' [''tok''] sample_search_db = (Inr sample_stats, sample_search_db)"
  by (simp add: GetTermStats_def mapErr_def sample_search_db_def sample_search_store_def sample_stats_def)

lemma sample_candidate_terms: "selectCandidateTerms milli_ops search_unicode sample_plan [''tok''] sample_stats 12 = [''tok'']"
  by (simp add: selectCandidateTerms_def Let_def appendWeighted_def sample_plan_def sample_stats_def then_by_def desc_by_def isNumeric_def sample_runes search_unicode_def)

lemma sample_retrieved: "Retrieve sample_search_service lf ModeLexical (sample_search_scope\<lparr>sc_AccessScope := ''public''\<rparr>) 7 (sample_plan\<lparr>qp_AllTerms := [''tok''], qp_Terms := [''tok'']\<rparr>)
   \<lparr>fs_DocumentTypes = [''note''], fs_SourceTypes = []\<rparr> 240 sample_search_db = (Inr [sample_candidate], sample_search_db)"
  by (simp add: Retrieve_def sample_search_service_def SearchLexicalCandidates_def mapErr_def execE_def sample_search_deps_def sample_search_db_def
    lexical_candidates_def Let_def eligible_chunks_def joined_chunks_def map_filter_simps sample_search_store_def sample_chunk_def doc_by_id_def sample_doc_def
    doc_in_run_def exists_row_def sample_search_scope_def BuildTSQuery_def doc_eligible_def doc_visible_def sample_store_def doc_withdrawn_def doc_has_source_def filter_admits_def
    scan_candidate_def sample_candidate_def doc_note_id_def doc_media_position_def milli_ops_def)

lemma sample_fields: "Fields ''tok'' = [''tok'']"
  by (simp add: Fields_def fields_from.simps DecodeRune_def first_info_def rune_value_def byte_def Let_def IsSpace_def)

lemma sample_ranked: "rankCandidates milli_ops [sample_candidate] sample_plan sample_stats = [(blank_result milli_ops sample_candidate)\<lparr>rs_Score := 999, rs_Confidence := 999, rs_WeightedCoverage := 1000\<rparr>]"
  by (simp add: rankCandidates_def lexical_result_def lexical_score_def lexical_coverage_def total_weight_def matched_weight_def scoringTerms_def sample_plan_def sample_fields sample_candidate_def
    sample_stats_def milli_ops_def clamp_def Let_def)

lemma sample_cited:
  "\<exists>citations. LoadCitations [11] sample_search_db = (Inr citations, sample_search_db) \<and> citations 11 \<noteq> []"
  by (simp add: LoadCitations_def mapErr_def execE_def sample_search_db_def sample_search_store_def Let_def joined_citations_def map_filter_simps sample_cite_def
      sample_doc_def doc_by_id_def citation_quote_def utf8_Valid_all_ascii byte_def)

lemma sample_selected:
  "selectDiverse milli_ops [(blank_result milli_ops sample_candidate)\<lparr>rs_Score := 999, rs_Confidence := 999, rs_WeightedCoverage := 1000\<rparr>] 10 300 =
     [(blank_result milli_ops sample_candidate)\<lparr>rs_Score := 999, rs_Confidence := 999, rs_WeightedCoverage := 1000\<rparr>]"
  by (simp add: selectDiverse_def milli_ops_def note_count_def MaxChunksPerNote_def blank_result_def sample_candidate_def)

lemma sample_search:
  obtains r where "Search sample_search_service True took 7 sample_search_input sample_search_db = (Inr r, sample_search_db)"
    and "map rs_ChunkID (sr_Results r) = [11]" "sc_IngestionRunID (sr_Scope r) = ''run''"
proof -
  let ?r = "(blank_result milli_ops sample_candidate)\<lparr>rs_Score := 999, rs_Confidence := 999, rs_WeightedCoverage := 1000\<rparr>"
  let ?sc = "sample_search_scope\<lparr>sc_AccessScope := ''public''\<rparr>"
  have chunk: "rs_ChunkID ?r = 11" "rs_ChunkID (blank_result milli_ops sample_candidate) = 11" by (simp_all add: blank_result_def sample_candidate_def)
  obtain citations where cited: "LoadCitations [11] sample_search_db = (Inr citations, sample_search_db)" "citations 11 \<noteq> []" using sample_cited by blast
  have deps: "ss_deps sample_search_service = sample_search_deps" "sd_fl sample_search_deps = milli_ops" "sd_u sample_search_deps = search_unicode"
    by (simp_all add: sample_search_service_def sample_search_deps_def)
  have th: "thresholdForMode milli_ops ModeLexical = 300" by (simp add: thresholdForMode_def milli_ops_def ModeLexical_def ModeVector_def ModeHybrid_def)
  have modes: "ModeLexical \<noteq> ModeVector" "ModeLexical \<noteq> ModeHybrid" by (simp_all add: ModeLexical_def ModeVector_def ModeHybrid_def)
  have terms: "qp_Terms sample_plan = [''tok'']" "qp_PreferredType sample_plan = ''note''" by (simp_all add: sample_plan_def)
  have scope: "sc_IngestionRunID ?sc = ''run''" "sc_AccessScope ?sc = ''public''" "sc_LexicalIndexVersion ?sc = LexicalIndexVersion"
    by (simp_all add: sample_search_scope_def)
  have valid: "validateScopeIndex ?sc ModeLexical = None"
    using modes scope by (simp add: validateScopeIndex_def LexicalIndexVersion_def)
  have stat: "filter (\<lambda>t. sample_stats t \<noteq> None) [''tok''] = [''tok'']" by (simp add: sample_stats_def)
  have filters: "effective_filters \<lparr>fs_DocumentTypes = [], fs_SourceTypes = []\<rparr> sample_plan = \<lparr>fs_DocumentTypes = [''note''], fs_SourceTypes = []\<rparr>"
    using terms by (simp add: effective_filters_def)
  have input: "si_Mode (normalize_search sample_search_input) = ModeLexical" "si_Limit (normalize_search sample_search_input) = 10"
    "si_Filters (normalize_search sample_search_input) = \<lparr>fs_DocumentTypes = [], fs_SourceTypes = []\<rparr>" "si_Query (normalize_search sample_search_input) = ''tok''"
    "si_ProjectID (normalize_search sample_search_input) = 1" "si_DatasetVersionID (normalize_search sample_search_input) = 0"
    "si_IngestionRunID (normalize_search sample_search_input) = []"
    by (simp_all add: sample_normalized, simp_all add: sample_search_input_def)
  have ans: "\<exists>r. answer milli_ops ModeLexical 10 resp [?r] sample_search_db = (Inr r, sample_search_db) \<and> map rs_ChunkID (sr_Results r) = [11] \<and> sr_Scope r = sr_Scope resp" for resp
    by (simp add: answer_def Let_def th sample_selected chunk bindE_def cited liftE_def)
  have get: "bindE (if ModeLexical = ModeVector then returnE Map.empty else GetTermStats ''run'' ''public'' [''tok'']) k sample_search_db = k sample_stats sample_search_db"
    for k :: "_ \<Rightarrow> (int, int SearchResponse) sm" using modes(1) sample_stats_run by (simp add: bindE_def)
  have ranked: "rank_for_mode milli_ops ModeLexical [sample_candidate] sample_plan sample_stats = [?r]"
    using modes sample_ranked by (simp add: rank_for_mode_def)
  have "search_in_scope sample_search_service True took 7 (normalize_search sample_search_input) sample_plan ?sc sample_search_db =
      answer milli_ops ModeLexical 10 ((base_response milli_ops ModeLexical ?sc sample_plan [''tok''] [''tok''] took)\<lparr>sr_CandidateCount := 1\<rparr>) [?r] sample_search_db"
    unfolding search_in_scope_def Let_def deps input terms scope(1,2) get stat sample_candidate_terms filters DefaultCandidateLimit_def
    by (simp add: bindE_def sample_retrieved ranked)
  moreover have "sr_Scope ((base_response milli_ops ModeLexical ?sc sample_plan [''tok''] [''tok''] took)\<lparr>sr_CandidateCount := 1\<rparr>) = ?sc" by (simp add: base_response_def)
  ultimately have "\<exists>r. search_in_scope sample_search_service True took 7 (normalize_search sample_search_input) sample_plan ?sc sample_search_db = (Inr r, sample_search_db) \<and>
      map rs_ChunkID (sr_Results r) = [11] \<and> sr_Scope r = ?sc"
    using ans by metis
  then obtain r where r: "search_in_scope sample_search_service True took 7 (normalize_search sample_search_input) sample_plan ?sc sample_search_db = (Inr r, sample_search_db)"
    "map rs_ChunkID (sr_Results r) = [11]" "sr_Scope r = ?sc" by (elim exE conjE) (rule that)
  have "Search sample_search_service True took 7 sample_search_input sample_search_db = (Inr r, sample_search_db)"
    unfolding Search_def sample_request_ok Let_def
    using r(1) valid by (simp add: input deps sample_plan_run sample_scope_run sample_access_run bindE_def liftE_def)
  then show thesis using that r scope by simp
qed

lemma milli_damps: "float_damps milli_ops"
  by (auto simp: float_damps_def milli_ops_def)

lemma sample_keyed: "evidence_keyed (evidence_of (tables sample_search_db))"
  by (simp add: evidence_keyed_def sample_search_db_def sample_search_store_def sample_doc_def sample_chunk_def sample_cite_def)

theorem search_selection_witness:
  "\<exists>r. Search sample_search_service True 0 7 sample_search_input sample_search_db = (Inr r, sample_search_db) \<and> length (sr_Results r) = 1 \<and>
     map rs_Rank (sr_Results r) = [1] \<and> rs_Citations (hd (sr_Results r)) \<noteq> []"
proof -
  obtain r where r: "Search sample_search_service True 0 7 sample_search_input sample_search_db = (Inr r, sample_search_db)" "map rs_ChunkID (sr_Results r) = [11]"
    using sample_search by metis
  have one: "length (sr_Results r) = 1" using r(2) by (metis length_map One_nat_def length_Cons list.size(3))
  then have "sr_Results r \<noteq> []" by auto
  then show ?thesis using r(1) one search_selection [OF r(1)] by (auto simp: upt_rec)
qed

theorem search_authorised_witness:
  "\<exists>r. Search sample_search_service True 0 7 sample_search_input sample_search_db = (Inr r, sample_search_db) \<and>
     (\<exists>d. readable (rag sample_search_store) ''run'' 7 d \<and> rs_DocumentID (hd (sr_Results r)) = ed_id d)"
proof -
  obtain r where r: "Search sample_search_service True 0 7 sample_search_input sample_search_db = (Inr r, sample_search_db)"
    "map rs_ChunkID (sr_Results r) = [11]" "sc_IngestionRunID (sr_Scope r) = ''run''" using sample_search by metis
  then have "hd (sr_Results r) \<in> set (sr_Results r)" by (intro hd_in_set) auto
  then show ?thesis using r search_authorised [OF r(1)] by (fastforce simp: sample_search_db_def)
qed

theorem search_never_panics_witness:
  "float_damps milli_ops \<and> fst (Search sample_search_service True 0 7 sample_search_input sample_search_db) \<noteq> Inl (RuntimePanic ''x'')"
proof -
  have "sd_fl (ss_deps sample_search_service) = milli_ops" by (simp add: sample_search_service_def sample_search_deps_def)
  then show ?thesis using milli_damps search_never_panics [of sample_search_service True 0 7 sample_search_input sample_search_db "''x''"] by simp
qed

theorem search_ignores_hidden_witness:
  "\<exists>r. fst (Search sample_search_service True 0 7 sample_search_input (sample_search_db\<lparr>tables := hide_in_search 7 sample_search_store\<rparr>)) = Inr r \<and>
     map rs_ChunkID (sr_Results r) = [11] \<and> length (evidence_documents (evidence_of (hide_in_search 7 sample_search_store))) = 1"
proof -
  obtain r where r: "Search sample_search_service True 0 7 sample_search_input sample_search_db = (Inr r, sample_search_db)" "map rs_ChunkID (sr_Results r) = [11]"
    using sample_search by metis
  have "length (evidence_documents (evidence_of (hide_in_search 7 sample_search_store))) = 1"
    by (simp add: hide_documents_def sample_search_store_def may_see_def sample_doc_def sample_store_def exists_row_def)
  then show ?thesis
    using r search_ignores_hidden [OF sample_keyed, of sample_search_service True 0 7 sample_search_input] by (simp add: sample_search_db_def)
qed

theorem ranking_order_independent_witness:
  "distinct (map cd_ChunkID [sample_candidate, sample_candidate\<lparr>cd_ChunkID := 12\<rparr>]) \<and>
   rank_for_mode milli_ops ModeHybrid [sample_candidate, sample_candidate\<lparr>cd_ChunkID := 12\<rparr>] sample_plan sample_stats =
   rank_for_mode milli_ops ModeHybrid [sample_candidate\<lparr>cd_ChunkID := 12\<rparr>, sample_candidate] sample_plan sample_stats"
proof -
  have d: "distinct (map cd_ChunkID [sample_candidate, sample_candidate\<lparr>cd_ChunkID := 12\<rparr>])" by (simp add: sample_candidate_def)
  show ?thesis using ranking_order_independent [OF _ d, of "[sample_candidate\<lparr>cd_ChunkID := 12\<rparr>, sample_candidate]"] d by simp
qed

end
