(* ===== verification/Evidence_Search.thy ===== *)
theory Evidence_Search
  imports Ingest_Audit Search_Props
begin

text \<open>
  Ingestion and search together: over the store that ingestion keeps sound, what a search returns can be verified by its reader. Every result is cited, every quotation lies in the
  text of its result, and hashes to the value stored with it.
\<close>

definition quote_in :: "string \<Rightarrow> string \<Rightarrow> bool" where
  "quote_in quotation tx = (\<exists>before after. tx = before @ quotation @ after)"

lemma quote_in_substring:
  assumes "0 \<le> a" "a \<le> i" "i \<le> j" "j \<le> b" "b \<le> int (length tx)"
  shows "quote_in (byte_substring tx i j) (byte_substring tx a b)"
proof -
  define x y z where "x = nat (i - a)" and "y = nat (j - i)" and "z = nat (b - a)"
  have xyz: "x + y \<le> z" using assms by (simp add: x_def y_def z_def)
  have "nat i = nat a + x" using assms by (simp add: x_def)
  then have q: "byte_substring tx i j = take y (drop x (drop (nat a) tx))" by (simp add: byte_substring_def y_def add.commute)
  let ?u = "drop (nat a) tx"
  have "take z ?u = take x ?u @ take (z - x) (drop x ?u)" using xyz by (metis add_leD1 le_add_diff_inverse take_add)
  also have "take (z - x) (drop x ?u) = take y (drop x ?u) @ take (z - x - y) (drop y (drop x ?u))"
    using xyz by (metis add_diff_inverse_nat diff_diff_left le_add_diff_inverse2 le_diff_conv2 add.commute add_leD1 take_add le_add_diff_inverse)
  finally show ?thesis unfolding quote_in_def q byte_substring_def [of tx a b] z_def [symmetric] by metis
qed

text \<open>The rows a citation is read from.\<close>

lemma LoadCitations_rows:
  assumes "LoadCitations ids s = (Inr citations, s')" "q \<in> set (citations i)"
  shows "\<exists>d r. r \<in> set (source_citations (evidence_of (tables s))) \<and> doc_by_id (evidence_of (tables s)) (ct_document_id r) = Some d \<and> ct_chunk_id r = i \<and>
    cn_Quote q = byte_substring (ed_canonical_text d) (ct_document_start_byte r) (ct_document_end_byte r) \<and> cn_QuoteHash q = ct_quote_hash r"
proof -
  obtain d r where q: "q = scan_citation (evidence_of (tables s)) d r" "(d, r) \<in> set (joined_citations (evidence_of (tables s)) ids)" "ct_chunk_id r = i"
    using assms by (auto simp: LoadCitations_def execE_Inr Let_def split: if_split_asm)
  then have "r \<in> set (source_citations (evidence_of (tables s)))" "doc_by_id (evidence_of (tables s)) (ct_document_id r) = Some d"
    unfolding joined_citations_def by (auto dest!: map_filter_in split: option.splits)
  with q show ?thesis by (auto simp: scan_citation_def Let_def citation_quote_def byte_substring_def)
qed

lemma sound_chunk_by_id:
  assumes "evidence_sound H X q t" "c \<in> set (evidence_chunks t)" "k \<in> set (evidence_chunks t)" "ec_id c = ec_id k"
  shows "c = k"
  using assms by (auto simp: evidence_sound_def serial_ok_def distinct_map inj_on_def)

lemma sound_document_by_id:
  assumes "evidence_sound H X q t" "doc_by_id t i = Some d" "e \<in> set (evidence_documents t)" "ed_id e = i"
  shows "e = d"
  using assms(1,3,4) doc_by_id_in [OF assms(2)] by (auto simp: evidence_sound_def serial_ok_def distinct_map inj_on_def)

text \<open>
  C6. Over a sound evidence store every result of a search is verifiable: it has citations, and each one quotes valid text that occurs in the content of the result and that
  hashes to the hash returned with it.
\<close>

theorem search_quotes_verifiable:
  assumes sound: "evidence_sound H {} q (evidence_of (tables s))" and run: "Search sv lexicalFirst took userID input s = (Inr response, s')"
  shows "\<forall>r\<in>set (sr_Results response). rs_Citations r \<noteq> [] \<and>
    (\<forall>c\<in>set (rs_Citations r). H (cn_Quote c) = cn_QuoteHash c \<and> utf8_Valid (cn_Quote c) \<and> quote_in (cn_Quote c) (rs_Content r))"
proof (cases rule: Search_Inr [OF run])
  case (1 plan input)
  then show ?thesis by (simp add: redactedNoAccessResponse_def)
next
  case (2 plan sc s1)
  let ?t = "evidence_of (tables s)" and ?rs = "sr_Results response"
  show ?thesis
  proof (cases "?rs = []")
    case False
    from search_in_scope_Inr [OF 2(3) False] obtain sel s3 citations s4 where
      cit: "LoadCitations (map rs_ChunkID sel) s3 = (Inr citations, s4)" and att: "attach_citations citations 0 sel = Inr ?rs" and t3: "tables s3 = tables s1"
      by metis
    have tt: "evidence_of (tables s3) = ?t" using t3 2(4) by simp
    show ?thesis
    proof (intro ballI conjI)
      fix r
      assume r: "r \<in> set ?rs"
      show "rs_Citations r \<noteq> []" using attach_citations_Inr(5) [OF att] r by blast
      obtain d c where c: "c \<in> set (evidence_chunks ?t)" "rs_ChunkID r = ec_id c" "rs_Content r = ec_content c"
        using search_rows_readable [OF run] r by blast
      fix x
      assume "x \<in> set (rs_Citations r)"
      then have x: "x \<in> set (citations (rs_ChunkID r))" using attach_citations_Inr(5) [OF att] r by auto
      obtain e y where y: "y \<in> set (source_citations ?t)" "doc_by_id ?t (ct_document_id y) = Some e" "ct_chunk_id y = ec_id c"
        "cn_Quote x = byte_substring (ed_canonical_text e) (ct_document_start_byte y) (ct_document_end_byte y)" "cn_QuoteHash x = ct_quote_hash y"
        using LoadCitations_rows [OF cit x] tt c(2) by auto
      obtain k e' where k: "k \<in> set (evidence_chunks ?t)" "e' \<in> set (evidence_documents ?t)" "ct_chunk_id y = ec_id k" "ed_id e' = ec_document_id k" "citation_sound H e' k y"
        using sound y(1) by (auto simp: evidence_sound_def)
      have "k = c" using sound_chunk_by_id [OF sound k(1) c(1)] k(3) y(3) by simp
      moreover have "e' = e" using sound_document_by_id [OF sound y(2) k(2)] k(4,5) by (simp add: citation_sound_def)
      moreover obtain e2 where "e2 \<in> set (evidence_documents ?t)" "ed_id e2 = ec_document_id c" "chunk_sound H e2 c" using sound c(1) by (auto simp: evidence_sound_def)
      moreover from this have "e2 = e" using sound_document_by_id [OF sound y(2)] k(5) \<open>k = c\<close> by (simp add: citation_sound_def)
      ultimately have cs: "citation_sound H e c y" "chunk_sound H e c" using k(5) by simp_all
      then show "H (cn_Quote x) = cn_QuoteHash x" "utf8_Valid (cn_Quote x)" by (simp_all add: y citation_sound_def)
      show "quote_in (cn_Quote x) (rs_Content r)"
        using quote_in_substring [of "ec_start_byte c" "ct_document_start_byte y" "ct_document_end_byte y" "ec_end_byte c" "ed_canonical_text e"] cs
        by (simp add: y(4) c(3) citation_sound_def chunk_sound_def)
    qed
  qed simp
qed

lemma sample_search_sound: "evidence_sound escape {} (\<lambda>_. 100) (evidence_of (tables sample_search_db))"
proof -
  have docs: "evidence_documents (evidence_of (tables sample_search_db)) = [sample_doc 1 ''public'', sample_doc 2 ''project'']"
    "evidence_chunks (evidence_of (tables sample_search_db)) = [sample_chunk 11 1, sample_chunk 12 2]"
    "source_citations (evidence_of (tables sample_search_db)) = [sample_cite 21 1 11, sample_cite 22 2 12]"
    by (simp_all add: sample_search_db_def sample_search_store_def)
  have range: "''c'' \<in> range escape" "''d'' \<in> range escape" using rangeI [of escape "''c''"] rangeI [of escape "''d''"] by simp_all
  have key: "\<exists>rest. ''c~1'' = escape (''c'' @ CHR 0x1F # rest)" "\<exists>rest. ''d~1'' = escape (''d'' @ CHR 0x1F # rest)" by (rule exI [of _ "[]"], simp)+
  have c: "chunk_sound escape (sample_doc 1 ''public'') (sample_chunk 11 1)" "chunk_sound escape (sample_doc 2 ''project'') (sample_chunk 12 2)"
    using range by (simp_all add: chunk_sound_def sample_doc_def sample_chunk_def byte_substring_def)
  have r: "citation_sound escape (sample_doc 1 ''public'') (sample_chunk 11 1) (sample_cite 21 1 11)"
    "citation_sound escape (sample_doc 2 ''project'') (sample_chunk 12 2) (sample_cite 22 2 12)"
    using key by (simp_all add: citation_sound_def sample_doc_def sample_chunk_def sample_cite_def byte_substring_def chunker_eval)
  have ids: "ed_id (sample_doc i v) = i" "ec_id (sample_chunk i j) = i" "ec_document_id (sample_chunk i j) = j" "ct_chunk_id (sample_cite i j k) = k"
    "ed_expected_chunk_count (sample_doc i v) = 1" for i j k v
    by (simp_all add: sample_doc_def sample_chunk_def sample_cite_def)
  have keys: "ed_document_key (sample_doc 1 v) = ''d''" "ed_document_key (sample_doc 2 v) = ''e''" "ec_chunk_key (sample_chunk i 1) = ''c''" "ec_chunk_key (sample_chunk i 2) = ''d''" for i v
    by (simp_all add: sample_doc_def sample_chunk_def)
  show ?thesis using c r by (simp add: evidence_sound_def docs serial_ok_def max_bigint_def chunks_of_def ids keys)
qed

theorem search_quotes_verifiable_witness:
  "\<exists>r. Search sample_search_service True 0 7 sample_search_input sample_search_db = (Inr r, sample_search_db) \<and> sr_Results r \<noteq> [] \<and>
     (\<forall>x\<in>set (sr_Results r). \<forall>c\<in>set (rs_Citations x). escape (cn_Quote c) = cn_QuoteHash c)"
proof -
  obtain r where r: "Search sample_search_service True 0 7 sample_search_input sample_search_db = (Inr r, sample_search_db)" "map rs_ChunkID (sr_Results r) = [11]"
    using sample_search by metis
  have "\<forall>x\<in>set (sr_Results r). \<forall>c\<in>set (rs_Citations x). escape (cn_Quote c) = cn_QuoteHash c"
    using search_quotes_verifiable [OF sample_search_sound r(1)] by blast
  with r show ?thesis by auto
qed

end
