(* ===== verification/Reconcile_Props.thy ===== *)
theory Reconcile_Props
  imports System_Props
begin

text \<open>
  Properties of the reconciler: the full audit leaves no counter wrong, the scheduled repair reaches every row within a bounded
  number of runs, and a successful run replaces the rankings in Redis by those of the database.
\<close>

section \<open>The full audit\<close>

lemma refreshed_exact:
  assumes "refreshed t t' N C" "n_id ` set (all_notes t) \<subseteq> N" "c_id ` set (note_comments t) \<subseteq> C"
  shows "(\<forall>n\<in>set (all_notes t'). note_counters n = note_facts t' (n_id n)) \<and> (\<forall>c\<in>set (note_comments t'). comment_counters c = comment_facts t' (c_id c))"
proof -
  note rd = refreshedD [OF assms(1)]
  have "note_counters n = note_facts t' (n_id n)" if "n \<in> set (all_notes t')" for n
    using rd(6) [OF that] rd(1) assms(2) by auto
  moreover have "comment_counters c = comment_facts t' (c_id c)" if "c \<in> set (note_comments t')" for c
    using rd(7) [OF that] rd(2) assms(3) by auto
  ultimately show ?thesis by blast
qed

lemma repair_keeps_score:
  "t' = t\<lparr>all_notes := update_where (note_differs t) (repaired_note now t) (all_notes t)\<rparr> \<Longrightarrow> n \<in> set (all_notes t') \<Longrightarrow>
   n_hot_score n = desired_score t' n"
proof -
  assume t': "t' = t\<lparr>all_notes := update_where (note_differs t) (repaired_note now t) (all_notes t)\<rparr>" and n: "n \<in> set (all_notes t')"
  have d: "desired_score t' m = desired_score t m" for m
    by (simp add: t' desired_score_def count_likes_def count_collects_def count_comments_def count_shares_def)
  obtain m where "m \<in> set (all_notes t)" "n = (if note_differs t m then repaired_note now t m else m)"
    using n t' by (force simp: update_where_set)
  moreover have "desired_score t (repaired_note now t m) = desired_score t m" by (simp add: desired_score_def repaired_note_def)
  ultimately show ?thesis
    unfolding d by (cases "note_differs t m") (auto simp: repaired_note_def dest: note_differs_counters)
qed

text \<open>
  C18. The full audit leaves nothing to repair: when \<open>ReconcileAllCounters\<close> succeeds, every counter and every hot score equals what
  the fact tables give, the facts themselves are unchanged, and the numbers it reports are those of the rows that were wrong.
\<close>

theorem reconcile_all_exact:
  assumes "store_ok (seqs s) (tables s)" "ReconcileAllCounters s = (Inr res, s')"
  shows "(\<forall>n\<in>set (all_notes (tables s')). note_counters n = note_facts (tables s') (n_id n) \<and> n_hot_score n = desired_score (tables s') n) \<and>
    (\<forall>c\<in>set (note_comments (tables s')). comment_counters c = comment_facts (tables s') (c_id c)) \<and>
    note_facts (tables s') = note_facts (tables s) \<and> comment_facts (tables s') = comment_facts (tables s) \<and>
    NotesRepaired res = count_where (note_differs (tables s)) (all_notes (tables s)) \<and>
    CommentsRepaired res = count_where (comment_differs (tables s)) (note_comments (tables s))"
proof -
  let ?t = "tables s"
  let ?t1 = "?t\<lparr>note_comments := update_where (all_differs ?t) (all_repaired_comment (db_now s) ?t) (note_comments ?t)\<rparr>"
  obtain k1 k2 where t': "tables s' = ?t1\<lparr>all_notes := update_where (note_differs ?t1) (repaired_note (db_now s) ?t1) (all_notes ?t1)\<rparr>"
    and res: "res = \<lparr>NotesRepaired = count_where (note_differs ?t1) (all_notes ?t1), CommentsRepaired = count_where (all_differs ?t) (note_comments ?t)\<rparr>"
    using in_tx_Inr [OF assms(2) [unfolded ReconcileAllCounters_def]]
    by (auto simp: ReconcileAllCounters_body_def repair_all_comments_eq repair_all_notes_def run_Inr)
  note r1 = refreshed_repairs(4) [OF assms(1), of "db_now s"] and r2 = refreshed_repairs(3) [of ?t1 "db_now s"]
  have r: "refreshed ?t (tables s') UNIV UNIV" using refreshed_trans [OF r1 r2] t' by simp
  have "desired_score ?t1 n = desired_score ?t n" "note_differs ?t1 n = note_differs ?t n" for n
    using fun_cong [OF refreshedD(1) [OF r1], of "n_id n"] by (simp_all add: desired_score_def note_differs_def note_facts_def)
  then have "note_differs ?t1 = note_differs ?t" by auto
  moreover have "count_where (all_differs ?t) (note_comments ?t) = count_where (comment_differs ?t) (note_comments ?t)"
  proof -
    have "all_differs ?t c = comment_differs ?t c" if "c \<in> set (note_comments ?t)" for c
      using count_replies_positive_eq [OF comment_id_pos [OF assms(1) that]] by (simp add: all_differs_def comment_differs_def)
    then show ?thesis unfolding count_where_def by (metis (no_types, lifting) filter_cong)
  qed
  ultimately have "NotesRepaired res = count_where (note_differs ?t) (all_notes ?t)" "CommentsRepaired res = count_where (comment_differs ?t) (note_comments ?t)"
    using res by simp_all
  moreover have "n_hot_score n = desired_score (tables s') n" if "n \<in> set (all_notes (tables s'))" for n
    by (rule repair_keeps_score [OF t' that])
  ultimately show ?thesis using refreshed_exact [OF r] refreshedD(1,2) [OF r] by auto
qed

section \<open>The walk over the tables\<close>

definition repair_batch :: "int list \<Rightarrow> int \<Rightarrow> int list" where
  "repair_batch ids l = (if next_ids ids l 1000 = [] \<and> 0 < l then next_ids ids 0 1000 else next_ids ids l 1000)"

definition batch_end :: "int list \<Rightarrow> int" where
  "batch_end b = (if b = [] then 0 else last b)"

fun walked :: "nat \<Rightarrow> int list \<Rightarrow> int \<Rightarrow> int set" where
  "walked 0 ids l = {}"
| "walked (Suc k) ids l = set (repair_batch ids l) \<union> walked k ids (batch_end (repair_batch ids l))"

text \<open>
  Positions in the sorted list of ids: the walk is at \<open>e\<close> when the ids up to the last one handled are the first \<open>e\<close>, and the
  end of the list counts as its start.
\<close>

definition walk_pos :: "int list \<Rightarrow> int \<Rightarrow> nat" where
  "walk_pos ids l = (let e = length (filter (\<lambda>i. i \<le> l) ids) in if e = length ids then 0 else e)"

lemma walk_pos_less: "ids \<noteq> [] \<Longrightarrow> walk_pos ids l < length ids"
  by (auto simp: walk_pos_def Let_def intro: le_neq_implies_less [OF length_filter_le])

lemma filter_gt_drop: "sorted xs \<Longrightarrow> filter (\<lambda>i. l < i) xs = drop (length (filter (\<lambda>i. i \<le> l) xs)) (xs :: int list)"
proof (induction xs)
  case (Cons x xs)
  show ?case
  proof (cases "x \<le> l")
    case False
    then have "filter (\<lambda>i. i \<le> l) xs = []" "filter (\<lambda>i. l < i) xs = xs" using Cons.prems by (auto simp: filter_empty_conv filter_id_conv)
    then show ?thesis using False by simp
  qed (use Cons in auto)
qed simp

lemma next_ids_sort: "next_ids ids l k = take (nat k) (filter (\<lambda>i. l < i) (sort ids))"
  by (simp add: next_ids_def filter_sort)

lemma repair_batch_pos:
  assumes "distinct ids" "\<forall>i\<in>set ids. 0 < i"
  shows "repair_batch ids l = take 1000 (drop (walk_pos ids l) (sort ids))"
proof -
  let ?xs = "sort ids" and ?e = "length (filter (\<lambda>i. i \<le> l) ids)"
  have e: "length (filter (\<lambda>i. i \<le> l) ?xs) = ?e" by (simp add: filter_sort)
  have g: "filter (\<lambda>i. l < i) ?xs = drop ?e ?xs" using filter_gt_drop [of ?xs l] e by simp
  have z: "filter (\<lambda>i. 0 < i) ?xs = ?xs" using assms(2) by (simp add: filter_id_conv)
  have le: "?e \<le> length ids" by (rule length_filter_le)
  show ?thesis
  proof (cases "?e = length ids")
    case True
    then have all: "\<forall>i\<in>set ids. i \<le> l" using length_filter_less by (metis less_irrefl_nat)
    show ?thesis
    proof (cases "ids = []")
      case False
      then have "0 < l" using all assms(2) by (metis dual_order.strict_trans1 list.set_intros(1) neq_Nil_conv)
      then show ?thesis using True g z by (simp add: repair_batch_def next_ids_sort walk_pos_def)
    qed (simp add: repair_batch_def next_ids_sort walk_pos_def)
  next
    case False
    with le have "?e < length ids" by (rule le_neq_implies_less)
    then have "drop ?e ?xs \<noteq> []" by simp
    then show ?thesis using False g by (simp add: repair_batch_def next_ids_sort walk_pos_def Let_def)
  qed
qed

lemma count_le_nth:
  fixes xs :: "int list"
  assumes "sorted xs" "distinct xs" "j < length xs"
  shows "length (filter (\<lambda>i. i \<le> xs ! j) xs) = Suc j"
proof -
  have "filter (\<lambda>i. i \<le> xs ! j) (take (Suc j) xs) = take (Suc j) xs"
    using assms by (auto simp: filter_id_conv in_set_conv_nth sorted_iff_nth_mono)
  moreover have "filter (\<lambda>i. i \<le> xs ! j) (drop (Suc j) xs) = []"
  proof -
    have "sorted_wrt (<) xs" using assms(1,2) by (simp add: strict_sorted_iff)
    then have "xs ! j < xs ! (Suc j + m)" if "Suc j + m < length xs" for m using that by (simp add: sorted_wrt_nth_less)
    then show ?thesis by (auto simp: filter_empty_conv in_set_conv_nth not_le)
  qed
  ultimately have "filter (\<lambda>i. i \<le> xs ! j) xs = take (Suc j) xs" by (metis append_Nil2 append_take_drop_id filter_append)
  then show ?thesis using assms(3) by simp
qed

lemma walk_pos_step:
  assumes "distinct ids" "\<forall>i\<in>set ids. 0 < i" "ids \<noteq> []"
  shows "walk_pos ids (batch_end (repair_batch ids l)) = (let e = walk_pos ids l + 1000 in if length ids \<le> e then 0 else e)"
proof -
  let ?xs = "sort ids" and ?n = "length ids" and ?p = "walk_pos ids l"
  have p: "?p < ?n" by (rule walk_pos_less [OF assms(3)])
  let ?j = "min (?p + 1000) ?n - 1"
  have b: "repair_batch ids l = take 1000 (drop ?p ?xs)" by (rule repair_batch_pos [OF assms(1,2)])
  then have ne: "repair_batch ids l \<noteq> []" using p by simp
  have "last (repair_batch ids l) = ?xs ! ?j"
  proof -
    have "last (repair_batch ids l) = repair_batch ids l ! (min 1000 (?n - ?p) - 1)" using ne by (simp add: b last_conv_nth min.commute)
    also have "... = ?xs ! (?p + (min 1000 (?n - ?p) - 1))" using p by (simp add: b)
    also have "?p + (min 1000 (?n - ?p) - 1) = ?j" using p by linarith
    finally show ?thesis .
  qed
  then have be: "batch_end (repair_batch ids l) = ?xs ! ?j" using ne by (simp add: batch_end_def)
  have "length (filter (\<lambda>i. i \<le> ?xs ! ?j) ?xs) = Suc ?j" using p assms(1) by (intro count_le_nth) auto
  then have "length (filter (\<lambda>i. i \<le> ?xs ! ?j) ids) = Suc ?j" by (simp add: filter_sort)
  moreover have "Suc ?j = min (?p + 1000) ?n" using p by simp
  ultimately show ?thesis using be by (auto simp: walk_pos_def Let_def min_def)
qed

text \<open>The number of runs until the row at position \<open>i\<close> is handled, from position \<open>e\<close> of \<open>n\<close>.\<close>

definition runs_until :: "nat \<Rightarrow> nat \<Rightarrow> nat \<Rightarrow> nat" where
  "runs_until n e i = (if e \<le> i then (i - e) div 1000 + 1 else (n - e + 999) div 1000 + i div 1000 + 1)"

lemma runs_until_step:
  assumes "i < n" "e < n" "\<not> (e \<le> i \<and> i < e + 1000)"
  shows "Suc (runs_until n (if n \<le> e + 1000 then 0 else e + 1000) i) \<le> runs_until n e i"
  using assms by (cases "e \<le> i"; cases "n \<le> e + 1000") (auto simp: runs_until_def)

lemma walked_position:
  assumes "distinct ids" "\<forall>i\<in>set ids. 0 < i" "i < length ids" "runs_until (length ids) (walk_pos ids l) i \<le> k"
  shows "sort ids ! i \<in> walked k ids l"
  using assms(3,4)
proof (induction k arbitrary: l)
  case 0
  then show ?case by (simp add: runs_until_def split: if_splits)
next
  case (Suc k)
  let ?e = "walk_pos ids l" and ?n = "length ids"
  have ne: "ids \<noteq> []" using Suc.prems by auto
  have e: "?e < ?n" by (rule walk_pos_less [OF ne])
  show ?case
  proof (cases "?e \<le> i \<and> i < ?e + 1000")
    case True
    then have "sort ids ! i = take 1000 (drop ?e (sort ids)) ! (i - ?e)" "i - ?e < length (take 1000 (drop ?e (sort ids)))"
      using Suc.prems True by (auto simp: less_diff_conv2)
    then have "sort ids ! i \<in> set (repair_batch ids l)" unfolding repair_batch_pos [OF assms(1,2)] by (metis nth_mem)
    then show ?thesis by simp
  next
    case False
    have "walk_pos ids (batch_end (repair_batch ids l)) = (if ?n \<le> ?e + 1000 then 0 else ?e + 1000)"
      using walk_pos_step [OF assms(1,2) ne, of l] by (simp add: Let_def)
    then have "runs_until ?n (walk_pos ids (batch_end (repair_batch ids l))) i \<le> k"
      using runs_until_step [OF Suc.prems(1) e False] Suc.prems(2) by simp
    then show ?thesis using Suc.IH [OF Suc.prems(1)] by simp
  qed
qed

lemma runs_until_bound:
  assumes "i < n"
  shows "runs_until n e i \<le> 2 * (n div 1000 + 1)"
proof -
  have sum: "(if P then a + 1 else b + c + 1) \<le> 2 * (m + 1)" if "a \<le> m" "c \<le> m" "b \<le> m + 1" for P and a b c m :: nat
    using that by simp
  have "(n - e + 999) div 1000 \<le> (n + 1000) div 1000" by (rule div_le_mono) simp
  then have "(n - e + 999) div 1000 \<le> n div 1000 + 1" by simp
  then show ?thesis unfolding runs_until_def using assms by (intro sum div_le_mono) simp_all
qed

lemma walked_all:
  assumes "distinct ids" "\<forall>i\<in>set ids. 0 < i" "2 * (length ids div 1000 + 1) \<le> k"
  shows "set ids \<subseteq> walked k ids l"
proof
  fix x assume "x \<in> set ids"
  then obtain i where i: "i < length ids" "x = sort ids ! i" by (metis in_set_conv_nth length_sort set_sort)
  then show "x \<in> walked k ids l"
    using walked_position [OF assms(1,2) i(1), of l k] runs_until_bound [OF i(1), of "walk_pos ids l"] assms(3) by simp
qed

section \<open>Repeated runs\<close>

definition last_id_of :: "string \<Rightarrow> store \<Rightarrow> int option" where
  "last_id_of k t = map_option rq_last_id (find (\<lambda>r. rq_state_key r = k) (reconcile_state t))"

lemma find_update_where_key:
  "(\<And>r. key (f r) = key r) \<Longrightarrow> find (\<lambda>r. key r = k) (update_where (\<lambda>r. key r = j) f rows) =
     map_option (\<lambda>r. if k = j then f r else r) (find (\<lambda>r. key r = k) rows)"
  by (induction rows) (auto simp: update_where_def)

lemma last_id_advance: "last_id_of k t \<noteq> None \<Longrightarrow> last_id_of j (advance_state k i now t) = (if j = k then Some i else last_id_of j t)"
proof -
  assume "last_id_of k t \<noteq> None"
  then have ex: "exists_row (\<lambda>r. rq_state_key r = k) (reconcile_state t)" and f: "find (\<lambda>r. rq_state_key r = k) (reconcile_state t) \<noteq> None"
    by (auto simp: last_id_of_def exists_row_iff find_None_iff)
  have "find (\<lambda>r. rq_state_key r = j) (update_where (\<lambda>r. rq_state_key r = k) (\<lambda>r. r\<lparr>rq_last_id := i, rq_updated_at := now\<rparr>) (reconcile_state t)) =
      map_option (\<lambda>r. if j = k then r\<lparr>rq_last_id := i, rq_updated_at := now\<rparr> else r) (find (\<lambda>r. rq_state_key r = j) (reconcile_state t))"
    by (rule find_update_where_key) simp
  then show ?thesis using ex f by (auto simp: last_id_of_def advance_state_def option.map_comp comp_def)
qed

lemma advance_keeps [simp]:
  "all_notes (advance_state k i now t) = all_notes t" "note_comments (advance_state k i now t) = note_comments t"
  by (simp_all add: advance_state_def)

lemma nextRepairBatch_run:
  assumes "faults s = []" "last_id_of k (tables s) = Some l"
  shows "nextRepairBatch k tab 1000 s = (Inr (repair_batch (table_ids tab (tables s)) l),
    s\<lparr>tables := advance_state k (batch_end (repair_batch (table_ids tab (tables s)) l)) (db_now s) (tables s)\<rparr>)"
proof -
  obtain r where "find (\<lambda>r. rq_state_key r = k) (reconcile_state (tables s)) = Some r" "rq_last_id r = l"
    using assms(2) by (auto simp: last_id_of_def)
  then show ?thesis
    using assms(1) by (simp add: nextRepairBatch_def bindE_def mapErr_def Let_def repair_batch_def batch_end_def)
qed

definition rows_of :: "store \<Rightarrow> int list \<times> int list" where
  "rows_of t = (map n_id (all_notes t), map c_id (note_comments t))"

text \<open>One run without failures: both cursors advance and the rows of both batches are exact.\<close>

lemma reconcile_round:
  assumes "faults s = []" "last_id_of ''notes'' (tables s) = Some ln" "last_id_of ''comments'' (tables s) = Some lc"
    and "nb = repair_batch (map n_id (all_notes (tables s))) ln" "cb = repair_batch (map c_id (note_comments (tables s))) lc"
  obtains res s' where "ReconcileCounters s = (Inr res, s')" "faults s' = []" "refreshed (tables s) (tables s') (set nb) (set cb)"
    "rows_of (tables s') = rows_of (tables s)" "last_id_of ''notes'' (tables s') = Some (batch_end nb)"
    "last_id_of ''comments'' (tables s') = Some (batch_end cb)" "seqs s' = seqs s"
proof -
  let ?t1 = "advance_state ''comments'' (batch_end cb) (db_now s) (tables s)"
  let ?t2 = "advance_state ''notes'' (batch_end nb) (db_now s) ?t1"
  let ?t3 = "?t2\<lparr>note_comments := update_where (\<lambda>c. c_id c \<in> set cb \<and> comment_differs ?t2 c) (rebuilt_comment (db_now s) ?t2) (note_comments ?t2)\<rparr>"
  let ?t4 = "?t3\<lparr>all_notes := update_where (\<lambda>n. n_id n \<in> set nb \<and> note_differs ?t3 n) (repaired_note (db_now s) ?t3) (all_notes ?t3)\<rparr>"
  have b1: "nextRepairBatch ''comments'' ''note_comments'' 1000 s = (Inr cb, s\<lparr>tables := ?t1\<rparr>)"
    using nextRepairBatch_run [OF assms(1,3), of "''note_comments''"] assms(5) by (simp add: table_ids_def)
  have l1: "last_id_of ''notes'' ?t1 = Some ln" using assms(2,3) by (simp add: last_id_advance)
  have b2: "nextRepairBatch ''notes'' ''notes'' 1000 (s\<lparr>tables := ?t1\<rparr>) = (Inr nb, s\<lparr>tables := ?t2\<rparr>)"
    using nextRepairBatch_run [of "s\<lparr>tables := ?t1\<rparr>" "''notes''" ln "''notes''"] l1 assms(1,4) by (simp add: table_ids_def)
  obtain res where "ReconcileCounters_body s = (Inr (Commit res), s\<lparr>tables := ?t4\<rparr>)"
    using b1 b2 assms(1) by (simp add: ReconcileCounters_body_def bindE_def mapErr_def repair_comments_def repair_notes_def execE_def Let_def)
  then have run: "ReconcileCounters s = (Inr res, s\<lparr>tables := ?t4\<rparr>)"
    using assms(1) by (simp add: ReconcileCounters_def in_tx_nil)
  have "refreshed (tables s) ?t4 (set nb) (set cb)"
    using refreshed_trans [OF refreshed_trans [OF refreshed_trans [OF refreshed_advance refreshed_advance] refreshed_repairs(1)] refreshed_repairs(2)] by simp
  moreover have "rows_of ?t4 = rows_of (tables s)" by (simp add: rows_of_def rebuilt_comment_exact repaired_note_exact)
  moreover have "last_id_of j ?t4 = last_id_of j ?t2" for j by (simp add: last_id_of_def)
  moreover have "last_id_of ''notes'' ?t2 = Some (batch_end nb)" "last_id_of ''comments'' ?t2 = Some (batch_end cb)"
    using l1 assms(3) by (simp_all add: last_id_advance)
  ultimately show thesis using that [OF run] assms(1) by simp
qed

fun reconcile_rounds :: "nat \<Rightarrow> store db \<Rightarrow> store db" where
  "reconcile_rounds 0 s = s"
| "reconcile_rounds (Suc k) s = reconcile_rounds k (snd (ReconcileCounters s))"

lemma rounds_refreshed:
  assumes "faults s = []" "last_id_of ''notes'' (tables s) = Some ln" "last_id_of ''comments'' (tables s) = Some lc"
  shows "refreshed (tables s) (tables (reconcile_rounds k s)) (walked k (map n_id (all_notes (tables s))) ln)
    (walked k (map c_id (note_comments (tables s))) lc)"
  using assms
proof (induction k arbitrary: s ln lc)
  case (Suc k)
  obtain res s' where r: "ReconcileCounters s = (Inr res, s')" "faults s' = []"
    "refreshed (tables s) (tables s') (set (repair_batch (map n_id (all_notes (tables s))) ln)) (set (repair_batch (map c_id (note_comments (tables s))) lc))"
    "rows_of (tables s') = rows_of (tables s)" "last_id_of ''notes'' (tables s') = Some (batch_end (repair_batch (map n_id (all_notes (tables s))) ln))"
    "last_id_of ''comments'' (tables s') = Some (batch_end (repair_batch (map c_id (note_comments (tables s))) lc))"
    using reconcile_round [OF Suc.prems refl refl] by metis
  then show ?case using refreshed_trans [OF r(3) Suc.IH [OF r(2,5,6)]] by (simp add: rows_of_def)
qed (simp add: refreshed_refl)

text \<open>
  C17. The scheduled repair reaches everything: whatever the counters and wherever the two cursors stand, once the other programs are
  quiet and no statement fails, \<open>2 (n / 1000 + 1)\<close> runs of \<open>ReconcileCounters\<close> make every counter of all notes and comments exact,
  where \<open>n\<close> is the number of rows of the larger table.
\<close>

theorem reconcile_rounds_repair:
  assumes "store_ok (seqs s) (tables s)" "faults s = []"
    and "last_id_of ''notes'' (tables s) \<noteq> None" "last_id_of ''comments'' (tables s) \<noteq> None"
    and "2 * (max (length (all_notes (tables s))) (length (note_comments (tables s))) div 1000 + 1) \<le> k"
  shows "(\<forall>n\<in>set (all_notes (tables (reconcile_rounds k s))). note_counters n = note_facts (tables (reconcile_rounds k s)) (n_id n)) \<and>
    (\<forall>c\<in>set (note_comments (tables (reconcile_rounds k s))). comment_counters c = comment_facts (tables (reconcile_rounds k s)) (c_id c)) \<and>
    note_facts (tables (reconcile_rounds k s)) = note_facts (tables s) \<and> comment_facts (tables (reconcile_rounds k s)) = comment_facts (tables s)"
proof -
  let ?t = "tables s"
  obtain ln lc where l: "last_id_of ''notes'' ?t = Some ln" "last_id_of ''comments'' ?t = Some lc" using assms(3,4) by auto
  have ids: "distinct (map n_id (all_notes ?t))" "\<forall>i\<in>set (map n_id (all_notes ?t)). 0 < i"
    "distinct (map c_id (note_comments ?t))" "\<forall>i\<in>set (map c_id (note_comments ?t)). 0 < i"
    using assms(1) by (auto simp: store_ok_def serial_ok_def)
  have "length (all_notes ?t) div 1000 \<le> max (length (all_notes ?t)) (length (note_comments ?t)) div 1000"
    "length (note_comments ?t) div 1000 \<le> max (length (all_notes ?t)) (length (note_comments ?t)) div 1000"
    by (simp_all add: div_le_mono)
  then have "set (map n_id (all_notes ?t)) \<subseteq> walked k (map n_id (all_notes ?t)) ln" "set (map c_id (note_comments ?t)) \<subseteq> walked k (map c_id (note_comments ?t)) lc"
    using assms(5) by (intro walked_all ids; simp)+
  then show ?thesis
    using refreshed_exact [OF rounds_refreshed [OF assms(2) l]] refreshedD(1,2) [OF rounds_refreshed [OF assms(2) l, of k]] by simp
qed

section \<open>A drifted counter\<close>

text \<open>A note that claims five likes although nobody likes it.\<close>

definition drifted_db :: "store db" where
  "drifted_db = sample_db\<lparr>seqs := (\<lambda>_. 1), tables := sample_store\<lparr>all_notes := [sample_note_row\<lparr>n_like_count := 5\<rparr>]\<rparr>\<rparr>"

lemma drifted_simps:
  "faults drifted_db = []" "note_comments (tables drifted_db) = []" "all_notes (tables drifted_db) = [sample_note_row\<lparr>n_like_count := 5\<rparr>]"
  "last_id_of ''notes'' (tables drifted_db) = Some 0" "last_id_of ''comments'' (tables drifted_db) = Some 0"
  by (simp_all add: drifted_db_def sample_db_def sample_store_def last_id_of_def)

lemma sample_note_row_id: "n_id sample_note_row = 1"
  by (simp add: sample_note_row_def new_note_row_def)

lemma drifted_ok: "store_ok (seqs drifted_db) (tables drifted_db)"
  by (simp add: drifted_db_def sample_db_def sample_store_def store_ok_def serial_ok_def max_bigint_def sample_note_row_id)

lemma drifted_facts: "note_facts (tables drifted_db) i = (0, 0, 0, 0)"
  by (simp add: drifted_db_def sample_store_def facts_defs)

theorem reconcile_all_exact_witness:
  "\<exists>res s'. ReconcileAllCounters drifted_db = (Inr res, s') \<and> NotesRepaired res = 1 \<and> note_facts (tables s') = note_facts (tables drifted_db)"
proof -
  obtain res s' where run: "ReconcileAllCounters drifted_db = (Inr res, s')"
    using drifted_simps(1)
    by (simp add: ReconcileAllCounters_def in_tx_nil ReconcileAllCounters_body_def bindE_def mapErr_def repair_all_comments_def repair_all_notes_def execE_def Let_def)
  have "note_differs (tables drifted_db) (sample_note_row\<lparr>n_like_count := 5\<rparr>)"
    using drifted_facts [of 1] by (simp add: note_differs_def note_facts_def sample_note_row_id)
  then show ?thesis
    using reconcile_all_exact [OF drifted_ok run] run by (auto simp: drifted_simps count_where_def)
qed

lemma rounds_rows:
  assumes "faults s = []" "last_id_of ''notes'' (tables s) = Some ln" "last_id_of ''comments'' (tables s) = Some lc"
  shows "rows_of (tables (reconcile_rounds k s)) = rows_of (tables s)"
  using assms
proof (induction k arbitrary: s ln lc)
  case (Suc k)
  obtain res s' where r: "ReconcileCounters s = (Inr res, s')" "faults s' = []" "rows_of (tables s') = rows_of (tables s)"
    "last_id_of ''notes'' (tables s') \<noteq> None" "last_id_of ''comments'' (tables s') \<noteq> None"
    using reconcile_round [OF Suc.prems refl refl] by (metis option.distinct(1))
  then show ?case using Suc.IH [OF r(2)] by auto
qed simp

theorem reconcile_rounds_repair_witness:
  "\<exists>n. all_notes (tables (reconcile_rounds 2 drifted_db)) = [n] \<and> note_counters n = (0, 0, 0, 0)"
proof -
  have "map n_id (all_notes (tables (reconcile_rounds 2 drifted_db))) = [1]"
    using rounds_rows [OF drifted_simps(1,4,5), of 2] by (simp add: rows_of_def drifted_simps sample_note_row_id)
  then obtain n where n: "all_notes (tables (reconcile_rounds 2 drifted_db)) = [n]" by auto
  show ?thesis
    using reconcile_rounds_repair [OF drifted_ok drifted_simps(1), of 2] n drifted_facts by (simp add: drifted_simps)
qed

end
