(* ===== verification/Ranking_Props.thy ===== *)
theory Ranking_Props
  imports Reconcile_Props
begin

text \<open>
  What a successful run of the reconciler leaves in Redis. The Redis client is a parameter; \<open>redis_documented\<close> states what the
  documentation of \<open>SCAN\<close>, \<open>DEL\<close> and \<open>ZADD\<close> promises while no other client writes.
\<close>

section \<open>Redis as documented\<close>

datatype redis_value = ZSet "string \<rightharpoonup> int" | Plain string

text \<open>The patterns use no special character but the star.\<close>

fun glob :: "string \<Rightarrow> string \<Rightarrow> bool" where
  "glob [] s = (s = [])"
| "glob (p # ps) s =
     (if p = CHR ''*'' then list_ex (\<lambda>n. glob ps (drop n s)) [0..<Suc (length s)]
      else case s of [] \<Rightarrow> False | c # cs \<Rightarrow> c = p \<and> glob ps cs)"

fun redis_effect :: "redis_cmd \<Rightarrow> (string \<rightharpoonup> redis_value) \<Rightarrow> string \<rightharpoonup> redis_value" where
  "redis_effect (CmdDel k) m = m(k := None)"
| "redis_effect (CmdZAdd k zs) m =
     (case m k of None \<Rightarrow> m(k \<mapsto> ZSet (map_of (rev zs))) | Some (ZSet z) \<Rightarrow> m(k \<mapsto> ZSet (z ++ map_of (rev zs))) | Some (Plain v) \<Rightarrow> m)"

definition redis_documented :: "'r reconcile_redis \<Rightarrow> ('r \<Rightarrow> string \<rightharpoonup> redis_value) \<Rightarrow> bool" where
  "redis_documented ops view =
     ((\<forall>p r ks r'. rr_Scan ops p r = (Inr ks, r') \<longrightarrow> view r' = view r \<and> set ks = {k. view r k \<noteq> None \<and> glob p k}) \<and>
      (\<forall>cmds r r'. rr_TxPipelined ops cmds r = (Inr (), r') \<longrightarrow> view r' = fold redis_effect cmds (view r)))"

lemma glob_star: "glob ps s \<Longrightarrow> glob (CHR ''*'' # ps) (x @ s)"
  by (auto simp: list_ex_iff intro!: bexI [of _ "length x"])

lemma glob_refl: "CHR ''*'' \<notin> set p \<Longrightarrow> glob p p"
  by (induction p) auto

lemma fold_dels: "fold redis_effect (map CmdDel ks) m = (\<lambda>k. if k \<in> set ks then None else m k)"
  by (induction ks arbitrary: m) auto

section \<open>Building the sets\<close>

lemma members_append: "members key (append_member k z sets) = (if key = k then members key sets @ [z] else members key sets)"
proof (cases "k \<in> fst ` set sets")
  case True
  have "map_of (map (\<lambda>(a, zs). if a = k then (a, zs @ [z]) else (a, zs)) sets) key =
      map_option (\<lambda>zs. if key = k then zs @ [z] else zs) (map_of sets key)"
    by (induction sets) auto
  moreover have "map_of sets k \<noteq> None" using True by (simp add: map_of_eq_None_iff)
  ultimately show ?thesis using True by (auto simp: append_member_def members_def split: option.splits)
next
  case False
  then have "map_of sets k = None" by (simp add: map_of_eq_None_iff)
  then show ?thesis using False by (auto simp: append_member_def members_def map_add_def split: option.splits)
qed

lemma map_fst_append: "map fst (append_member k z sets) = (if k \<in> fst ` set sets then map fst sets else map fst sets @ [k])"
proof -
  have "map fst (map (\<lambda>(a, zs). if a = k then (a, zs @ [z]) else (a, zs)) sets) = map fst sets" by (induction sets) auto
  then show ?thesis by (simp add: append_member_def)
qed

lemma keys_append: "fst ` set (append_member k z sets) = insert k (fst ` set sets)"
  using arg_cong [OF map_fst_append [of k z sets], of set] by (auto split: if_splits)

lemma distinct_append: "distinct (map fst sets) \<Longrightarrow> distinct (map fst (append_member k z sets))"
  by (simp add: map_fst_append)

lemma nat_left: "c < l \<Longrightarrow> nat (l - c) = Suc (nat (l - (c + 1)))" for l c :: int
  by (simp add: Suc_nat_eq_nat_zadd1)

lemma members_none: "key \<notin> fst ` set sets \<Longrightarrow> members key sets = []"
  by (simp add: members_def map_of_eq_None_iff [THEN iffD2])

lemma fold_zadds:
  assumes "distinct (map fst sets)" "m key = None"
  shows "fold redis_effect (zadd_cmds sets) m key =
    (if members key sets = [] then None else Some (ZSet (map_of (rev (members key sets)))))"
  using assms
proof (induction sets arbitrary: m)
  case (Cons a sets)
  obtain k zs where a: "a = (k, zs)" by (cases a)
  have other: "fold redis_effect (zadd_cmds xs) m' key = m' key" if "key \<notin> fst ` set xs" for xs m'
    using that by (induction xs arbitrary: m') (auto simp: zadd_cmds_def split: option.splits redis_value.splits)
  show ?case
  proof (cases "k = key")
    case True
    then have "key \<notin> fst ` set sets" using Cons.prems a by auto
    then show ?thesis using True Cons.prems a other [of sets] by (simp add: zadd_cmds_def members_def)
  next
    case False
    have "redis_effect (CmdZAdd k zs) m key = None" using False Cons.prems by (auto split: option.splits redis_value.splits)
    then show ?thesis using False Cons a by (auto simp: zadd_cmds_def members_def)
  qed
qed (simp add: zadd_cmds_def members_def)

lemma fold_zadds_other: "key \<notin> fst ` set sets \<Longrightarrow> fold redis_effect (zadd_cmds sets) m key = m key"
  by (induction sets arbitrary: m) (auto simp: zadd_cmds_def split: option.splits redis_value.splits)

text \<open>The loop over the notes: the global entries come first, then the entries of the categories.\<close>

definition note_item :: "note_row \<Rightarrow> string \<times> int" where
  "note_item n = (FormatInt (n_id n), n_hot_score n)"

lemma note_loop_global:
  "note_sets_loop limit idx (map (note_entry ''global'') gs @ es) counts sets =
   note_sets_loop limit (idx + int (length gs)) es counts (fold (\<lambda>n. append_member globalNoteRankingKey (note_item n)) gs sets)"
  by (induction gs arbitrary: idx sets) (simp_all add: note_entry_def note_item_def add_ac Let_def)

lemma members_fold_global:
  "members key (fold (\<lambda>n. append_member globalNoteRankingKey (note_item n)) gs sets) =
   (if key = globalNoteRankingKey then members key sets @ map note_item gs else members key sets)"
  by (induction gs arbitrary: sets) (simp_all add: members_append)

lemma category_key_inj [simp]: "category_key a = category_key b \<longleftrightarrow> a = b"
  by (simp add: category_key_def)

lemma category_key_global [simp]: "category_key a \<noteq> globalNoteRankingKey" "globalNoteRankingKey \<noteq> category_key a"
proof -
  have "length (category_key a) \<noteq> length globalNoteRankingKey" by (simp add: category_key_def globalNoteRankingKey_def)
  then show "category_key a \<noteq> globalNoteRankingKey" "globalNoteRankingKey \<noteq> category_key a" by auto
qed

lemma note_loop_category:
  assumes "\<forall>n\<in>set cs. TrimSpace (n_category n) = n_category n"
  shows "cat \<noteq> [] \<Longrightarrow> members (category_key cat) (note_sets_loop limit idx (map (note_entry ''category'') cs) counts sets) =
      members (category_key cat) sets @ map note_item (take (nat (limit - counts cat)) (filter (\<lambda>n. n_category n = cat) cs))"
    "members globalNoteRankingKey (note_sets_loop limit idx (map (note_entry ''category'') cs) counts sets) = members globalNoteRankingKey sets"
  using assms
proof (induction cs arbitrary: idx counts sets)
  case (Cons n cs)
  {
    case 1
    show ?case
    proof (cases "n_category n = cat \<and> counts cat < limit")
      case True
      then have k: "nat (limit - counts cat) = Suc (nat (limit - (counts cat + 1)))" by (simp add: nat_left)
      show ?thesis using True 1 Cons.IH(1) by (simp add: note_entry_def note_item_def Let_def members_append k)
    next
      case False
      then have "n_category n \<noteq> cat \<or> nat (limit - counts cat) = 0" by auto
      then show ?thesis using False 1 Cons.IH(1) by (auto simp: note_entry_def Let_def members_append)
    qed
  next
    case 2
    then show ?case using Cons.IH(2) by (simp add: note_entry_def Let_def members_append)
  }
qed simp_all

lemma note_loop_distinct: "distinct (map fst sets) \<Longrightarrow> distinct (map fst (note_sets_loop limit idx es counts sets))"
  by (induction es arbitrary: idx counts sets) (simp_all add: Let_def distinct_append)

lemma note_loop_keys:
  assumes "globalNoteRankingKey \<in> K" "range category_key \<subseteq> K"
  shows "fst ` set sets \<subseteq> K \<Longrightarrow> fst ` set (note_sets_loop limit idx es counts sets) \<subseteq> K"
proof (induction es arbitrary: idx counts sets)
  case (Cons e es)
  have "category_key c \<in> K" for c using assms(2) by blast
  then show ?case using Cons assms(1) by (simp add: Let_def keys_append)
qed simp

text \<open>The loop over the comments.\<close>

definition entry_item :: "CommentRankingEntry \<Rightarrow> string \<times> int" where
  "entry_item e = (FormatInt (cr_ID e), cr_Score e)"

lemma hotCommentsKey_inj: "in_int64 i \<Longrightarrow> in_int64 j \<Longrightarrow> hotCommentsKey i = hotCommentsKey j \<Longrightarrow> i = j"
  by (simp add: hotCommentsKey_def FormatInt_inj)

lemma comment_loop_members:
  assumes "\<forall>e\<in>set es. in_int64 (cr_NoteID e)" "in_int64 i"
  shows "members (hotCommentsKey i) (comment_sets_loop limit es counts sets) =
    members (hotCommentsKey i) sets @ map entry_item (take (nat (limit - counts i)) (filter (\<lambda>e. cr_NoteID e = i) es))"
  using assms(1)
proof (induction es arbitrary: counts sets)
  case (Cons e es)
  show ?case
  proof (cases "cr_NoteID e = i \<and> counts i < limit")
    case True
    then have k: "nat (limit - counts i) = Suc (nat (limit - (counts i + 1)))" by (simp add: nat_left)
    show ?thesis using True Cons by (simp add: members_append entry_item_def k)
  next
    case False
    have "hotCommentsKey i = hotCommentsKey (cr_NoteID e) \<longleftrightarrow> cr_NoteID e = i"
      using hotCommentsKey_inj [OF assms(2), of "cr_NoteID e"] Cons.prems by auto
    moreover from False have "cr_NoteID e \<noteq> i \<or> nat (limit - counts i) = 0" by auto
    ultimately show ?thesis using False Cons by (auto simp: members_append)
  qed
qed simp

lemma comment_loop_distinct: "distinct (map fst sets) \<Longrightarrow> distinct (map fst (comment_sets_loop limit es counts sets))"
  by (induction es arbitrary: counts sets) (simp_all add: distinct_append)

lemma comment_loop_keys:
  assumes "range hotCommentsKey \<subseteq> K"
  shows "fst ` set sets \<subseteq> K \<Longrightarrow> fst ` set (comment_sets_loop limit es counts sets) \<subseteq> K"
proof (induction es arbitrary: counts sets)
  case (Cons e es)
  have "hotCommentsKey i \<in> K" for i using assms by blast
  then show ?case using Cons by (simp add: keys_append)
qed simp

section \<open>The best of a list\<close>

lemma filter_prefix: "(\<And>i. i < length ys \<Longrightarrow> P (ys ! i) = (i < k)) \<Longrightarrow> filter P ys = take k ys"
proof -
  assume a: "\<And>i. i < length ys \<Longrightarrow> P (ys ! i) = (i < k)"
  have "filter P (take k ys) = take k ys" using a by (auto simp: filter_id_conv in_set_conv_nth)
  moreover have "filter P (drop k ys) = []" using a by (auto simp: filter_empty_conv in_set_conv_nth)
  ultimately show ?thesis by (metis append_Nil2 append_take_drop_id filter_append)
qed

lemma rank_nth:
  fixes f :: "'a \<Rightarrow> 'b::linorder"
  assumes "sorted_wrt (\<lambda>x y. f x < f y) ys" "i < length ys"
  shows "length (filter (\<lambda>y. f y < f (ys ! i)) ys) = i"
proof -
  have "filter (\<lambda>y. f y < f (ys ! i)) ys = take i ys"
  proof (rule filter_prefix)
    fix j assume j: "j < length ys"
    show "(f (ys ! j) < f (ys ! i)) = (j < i)"
      using assms j sorted_wrt_nth_less [OF assms(1)] by (metis linorder_neqE_nat not_less_iff_gr_or_eq)
  qed
  then show ?thesis using assms(2) by simp
qed

lemma sort_key_strict:
  fixes f :: "'a \<Rightarrow> 'b::linorder"
  assumes "distinct (map f xs)"
  shows "sorted_wrt (\<lambda>x y. f x < f y) (sort_key f xs)"
proof -
  have "distinct (map f (sort_key f xs))" using assms by (metis mset_map mset_sort mset_eq_imp_distinct_iff)
  then have "sorted_wrt (<) (map f (sort_key f xs))" by (simp add: strict_sorted_iff)
  then show ?thesis by (simp add: sorted_wrt_map)
qed

text \<open>Keeping the rows whose \<open>ROW_NUMBER\<close> is within a limit is cutting the ordered list.\<close>

lemma row_number_limit:
  fixes f :: "'a \<Rightarrow> 'b::linorder"
  assumes "distinct (map f xs)" "0 \<le> limit"
  shows "filter (\<lambda>x. 1 + count_where (\<lambda>y. f y < f x) xs \<le> limit) (sort_key f xs) = take (nat limit) (sort_key f xs)"
proof (rule filter_prefix)
  fix i assume i: "i < length (sort_key f xs)"
  let ?x = "sort_key f xs ! i"
  have "length (filter (\<lambda>y. f y < f ?x) xs) = length (filter (\<lambda>y. f y < f ?x) (sort_key f xs))" by (simp add: filter_sort)
  also have "... = i" by (rule rank_nth [OF sort_key_strict [OF assms(1)] i])
  finally show "(1 + count_where (\<lambda>y. f y < f ?x) xs \<le> limit) = (i < nat limit)" by (simp add: count_where_def) linarith
qed

lemma sort_key_same_order:
  fixes f :: "'a \<Rightarrow> 'b::linorder" and g :: "'a \<Rightarrow> 'c::linorder"
  assumes "distinct (map f xs)" "\<And>x y. x \<in> set xs \<Longrightarrow> y \<in> set xs \<Longrightarrow> g x \<le> g y \<Longrightarrow> f x \<le> f y"
  shows "sort_key g xs = sort_key f xs"
proof (rule map_sorted_distinct_set_unique)
  have d: "distinct (map f (sort_key h xs))" for h :: "'a \<Rightarrow> 'd::linorder"
    using assms(1) by (metis mset_map mset_sort mset_eq_imp_distinct_iff)
  show "distinct (map f (sort_key g xs))" "distinct (map f (sort_key f xs))" using d by auto
  show "inj_on f (set (sort_key g xs) \<union> set (sort_key f xs))" using assms(1) by (simp add: distinct_map)
  show "sorted (map f (sort_key f xs))" by simp
  have "sorted_wrt (\<lambda>x y. g x \<le> g y) (sort_key g xs)" using sorted_sort_key [of g xs] by (simp add: sorted_wrt_map)
  then have "sorted_wrt (\<lambda>x y. f x \<le> f y) (sort_key g xs)" by (rule sorted_wrt_mono_rel [rotated]) (use assms(2) in auto)
  then show "sorted (map f (sort_key g xs))" by (simp add: sorted_wrt_map)
qed simp

section \<open>The boards\<close>

text \<open>What the rankings show: the best published notes, of all or of a category, and the best live comments of a published note.\<close>

definition note_board :: "store \<Rightarrow> int \<Rightarrow> (note_row \<Rightarrow> bool) \<Rightarrow> (string \<times> int) list" where
  "note_board t limit P = map note_item (take (nat limit) (sort_key score_key (filter P (published_notes t))))"

definition comment_board :: "store \<Rightarrow> int \<Rightarrow> int \<Rightarrow> (string \<times> int) list" where
  "comment_board t limit i =
     map (\<lambda>c. (FormatInt (c_id c), c_like_count c * 5)) (take (nat limit) (sort_key likes_key (filter (\<lambda>c. c_note_id c = i) (live_comments t))))"

definition shown :: "(string \<times> int) list \<Rightarrow> redis_value option" where
  "shown zs = (if zs = [] then None else Some (ZSet (map_of zs)))"

definition ranked_ok :: "(string \<Rightarrow> int) \<Rightarrow> store \<Rightarrow> bool" where
  "ranked_ok q t = (store_ok q t \<and> (\<forall>n\<in>set (all_notes t). TrimSpace (n_category n) = n_category n))"

interpretation ranked: db_invariant ranked_ok
  by unfold_locales (auto simp: ranked_ok_def intro: store_ok_mono)

lemma ranked_advance: "ranked_ok q t \<Longrightarrow> ranked_ok q (advance_state k i now t)"
  by (rule advance_state_eq [of k i now t]) (simp add: ranked_ok_def store_ok_def)

lemma repaired_category: "n_category (repaired_note now t n) = n_category n"
  by (simp add: repaired_note_def)

lemma ranked_ReconcileCounters: "keeps ranked_ok ReconcileCounters"
proof -
  have b: "keeps ranked_ok (nextRepairBatch k tab limit)" for k tab limit
    unfolding nextRepairBatch_def Let_def by (intro ranked.keeps_rules ranked.keeps_updateE) (rule ranked_advance)
  have c: "keeps ranked_ok (repair_comments ids)" for ids
    unfolding repair_comments_def Let_def
    by (rule ranked.keeps_execE) (auto simp: ranked_ok_def store_ok_update_comments rebuilt_comment_exact)
  have n: "keeps ranked_ok (repair_notes ids)" for ids
    unfolding repair_notes_def Let_def
    by (rule ranked.keeps_execE) (auto simp: ranked_ok_def store_ok_update_notes repaired_note_exact update_where_set repaired_category)
  have "keeps ranked_ok ReconcileCounters_body"
    unfolding ReconcileCounters_body_def by (intro ranked.keeps_rules b c n)
  moreover have "seq_grows ReconcileCounters_body"
    unfolding ReconcileCounters_body_def nextRepairBatch_def repair_comments_def repair_notes_def Let_def by (intro grows_intros)
  ultimately show ?thesis unfolding ReconcileCounters_def by (intro ranked.keeps_in_tx keeps_keeps_ok)
qed

lemma distinct_score_keys: "store_ok q t \<Longrightarrow> distinct (map score_key (filter P (published_notes t)))"
  unfolding store_ok_def serial_ok_def published_notes_def
  by (auto simp: distinct_map inj_on_def score_key_def distinct_filter)

lemma distinct_likes_keys: "store_ok q t \<Longrightarrow> distinct (map likes_key (filter P (live_comments t)))"
  unfolding store_ok_def serial_ok_def live_comments_def
  by (auto simp: distinct_map inj_on_def likes_key_def distinct_filter)

lemma category_board:
  assumes "store_ok q t" "0 \<le> limit"
  shows "map note_item (filter (\<lambda>n. n_category n = cat) (filter (\<lambda>n. category_rank t n \<le> limit) (sort_key score_key (published_notes t)))) =
    note_board t limit (\<lambda>n. n_category n = cat)"
proof -
  let ?xs = "filter (\<lambda>n. n_category n = cat) (published_notes t)"
  have r: "category_rank t n = 1 + count_where (\<lambda>m. score_key m < score_key n) ?xs" if "n \<in> set ?xs" for n
    using that by (auto simp: category_rank_def count_where_def intro!: arg_cong [of _ _ length] filter_cong)
  have "filter (\<lambda>n. n_category n = cat) (filter (\<lambda>n. category_rank t n \<le> limit) (sort_key score_key (published_notes t))) =
      filter (\<lambda>n. category_rank t n \<le> limit) (sort_key score_key ?xs)"
    by (simp add: filter_sort [symmetric] conj_commute)
  also have "... = filter (\<lambda>n. 1 + count_where (\<lambda>m. score_key m < score_key n) ?xs \<le> limit) (sort_key score_key ?xs)"
    by (rule filter_cong) (use r in auto)
  also have "... = take (nat limit) (sort_key score_key ?xs)"
    by (rule row_number_limit [OF distinct_score_keys [OF assms(1)] assms(2)])
  finally show ?thesis by (simp add: note_board_def)
qed

lemma comments_board:
  assumes "store_ok q t" "0 \<le> limit"
  shows "map entry_item (filter (\<lambda>e. cr_NoteID e = i) (map comment_entry
      (sort_key (\<lambda>c. (c_note_id c, - (c_like_count c * 5), - c_id c)) (filter (\<lambda>c. note_rank t c \<le> limit) (live_comments t))))) =
    comment_board t limit i"
proof -
  let ?xs = "filter (\<lambda>c. c_note_id c = i) (live_comments t)"
  let ?K = "\<lambda>c. (c_note_id c, - (c_like_count c * 5), - c_id c)"
  let ?P = "\<lambda>c. note_rank t c \<le> limit"
  have r: "note_rank t c = 1 + count_where (\<lambda>d. likes_key d < likes_key c) ?xs" if "c \<in> set ?xs" for c
    using that by (auto simp: note_rank_def count_where_def intro!: arg_cong [of _ _ length] filter_cong)
  have "filter (\<lambda>c. c_note_id c = i) (sort_key ?K (filter ?P (live_comments t))) = sort_key ?K (filter ?P ?xs)"
    by (simp add: filter_sort conj_commute)
  also have "... = filter ?P (sort_key ?K ?xs)" by (simp add: filter_sort)
  also have "sort_key ?K ?xs = sort_key likes_key ?xs"
    by (rule sort_key_same_order [OF distinct_likes_keys [OF assms(1)]]) (auto simp: likes_key_def less_eq_prod_def)
  also have "filter ?P (sort_key likes_key ?xs) = filter (\<lambda>c. 1 + count_where (\<lambda>d. likes_key d < likes_key c) ?xs \<le> limit) (sort_key likes_key ?xs)"
    by (rule filter_cong) (use r in auto)
  also have "... = take (nat limit) (sort_key likes_key ?xs)"
    by (rule row_number_limit [OF distinct_likes_keys [OF assms(1)] assms(2)])
  finally have "filter (\<lambda>c. c_note_id c = i) (sort_key ?K (filter ?P (live_comments t))) = take (nat limit) (sort_key likes_key ?xs)" .
  moreover have "filter (\<lambda>e. cr_NoteID e = i) (map comment_entry ys) = map comment_entry (filter (\<lambda>c. c_note_id c = i) ys)" for ys
    by (induction ys) (auto simp: comment_entry_def)
  ultimately show ?thesis by (simp add: comment_board_def comment_entry_def entry_item_def comp_def)
qed

section \<open>A run\<close>

lemma map_of_rev_distinct: "distinct (map fst zs) \<Longrightarrow> map_of (rev zs) = map_of zs"
proof
  fix k assume d: "distinct (map fst zs)"
  then have "distinct (map fst (rev zs))" by (simp add: rev_map [symmetric])
  then show "map_of (rev zs) k = map_of zs k"
  proof (cases "map_of zs k")
    case None
    then show ?thesis by (metis image_set map_of_eq_None_iff set_rev)
  next
    case (Some v)
    then show ?thesis using \<open>distinct (map fst (rev zs))\<close> by (metis map_of_SomeD map_of_is_SomeI set_rev)
  qed
qed

lemma distinct_format: "\<forall>i\<in>set is. in_int64 i \<Longrightarrow> distinct is \<Longrightarrow> distinct (map FormatInt is)"
  by (auto simp: distinct_map inj_on_def intro: FormatInt_inj)

lemma board_distinct:
  assumes "store_ok q t"
  shows "distinct (map fst (note_board t limit P))" "distinct (map fst (comment_board t limit i))"
proof -
  have n: "distinct (map n_id (all_notes t))" "\<forall>n\<in>set (all_notes t). in_int64 (n_id n)"
    and c: "distinct (map c_id (note_comments t))" "\<forall>c\<in>set (note_comments t). in_int64 (c_id c)"
    using assms in_int64_key unfolding store_ok_def serial_ok_def by (fastforce simp: in_int64_def max_bigint_def)+
  have "distinct (map n_id (take k (sort_key score_key (filter P (published_notes t)))))" for k
    unfolding take_map [symmetric]
    by (rule distinct_take) (use n(1) in \<open>auto simp: distinct_map published_notes_def inj_on_def\<close>)
  then have "distinct (map FormatInt (map n_id (take (nat limit) (sort_key score_key (filter P (published_notes t))))))"
    using n(2) by (intro distinct_format) (auto simp: published_notes_def dest!: in_set_takeD)
  then show "distinct (map fst (note_board t limit P))" by (simp add: note_board_def note_item_def comp_def)
  have "distinct (map c_id (take k (sort_key likes_key (filter (\<lambda>c. c_note_id c = i) (live_comments t)))))" for k
    unfolding take_map [symmetric]
    by (rule distinct_take) (use c(1) in \<open>auto simp: distinct_map live_comments_def inj_on_def\<close>)
  then have "distinct (map FormatInt (map c_id (take (nat limit) (sort_key likes_key (filter (\<lambda>c. c_note_id c = i) (live_comments t))))))"
    using c(2) by (intro distinct_format) (auto simp: live_comments_def dest!: in_set_takeD)
  then show "distinct (map fst (comment_board t limit i))" by (simp add: comment_board_def comp_def)
qed

text \<open>The keys of the program do not clash.\<close>

lemma hd_keys:
  "hd (category_key c) = CHR ''r''" "hd globalNoteRankingKey = CHR ''r''" "hd (hotCommentsKey i) = CHR ''n''" "hd (noteCacheKey i) = CHR ''n''"
  "hd (commentFirstPageCacheKey i) = CHR ''n''"
  by (simp_all add: category_key_def globalNoteRankingKey_def hotCommentsKey_def noteCacheKey_def commentFirstPageCacheKey_def)

lemma FormatInt_nonempty: "FormatInt i \<noteq> []"
  by (simp add: FormatInt_def)

lemma last_keys: "last (hotCommentsKey i) = CHR ''s''" "last (commentFirstPageCacheKey i) = CHR ''e''" "byte (last (noteCacheKey i)) \<le> 57"
proof -
  have "last (noteCacheKey i) \<in> set (FormatInt i)" using FormatInt_nonempty [of i] by (simp add: noteCacheKey_def)
  then show "byte (last (noteCacheKey i)) \<le> 57" using FormatInt_chars by blast
qed (simp_all add: hotCommentsKey_def commentFirstPageCacheKey_def)

lemma cache_keys_fresh: "noteCacheKey i \<noteq> hotCommentsKey j" "commentFirstPageCacheKey i \<noteq> hotCommentsKey j"
proof -
  have "\<not> byte (CHR ''s'') \<le> 57" by (simp add: byte_def)
  then show "noteCacheKey i \<noteq> hotCommentsKey j" using last_keys(1) [of j] last_keys(3) [of i] by (metis (no_types))
  show "commentFirstPageCacheKey i \<noteq> hotCommentsKey j" using last_keys(1) [of j] last_keys(2) [of i] by force
qed

lemma colon_free: "CHR '':'' \<notin> set (FormatInt i)"
proof
  assume "CHR '':'' \<in> set (FormatInt i)"
  from FormatInt_chars [OF this] show False by (simp add: byte_def)
qed

lemma detail_key_note: "in_int64 i \<Longrightarrow> detail_key (noteCacheKey i)"
proof -
  have "noteCacheKey i = ''note'' @ CHR '':'' # FormatInt i" by (simp add: noteCacheKey_def)
  then have "split_byte (CHR '':'') (noteCacheKey i) = [''note'', FormatInt i]"
    using split_byte_append [of "CHR '':''" "''note''" "FormatInt i"] split_byte_none [OF colon_free] by simp
  then show "in_int64 i \<Longrightarrow> detail_key (noteCacheKey i)" by (simp add: detail_key_def ParseInt64_FormatInt)
qed

lemma glob_keys:
  "glob ''ranking:notes:*:daily'' (category_key c)" "glob ''note:*:hot_comments'' (hotCommentsKey i)"
  "glob commentCachePattern (commentFirstPageCacheKey i)" "glob ''note:*'' (noteCacheKey i)"
  using glob_star [OF glob_refl [of "'':daily''"], of c] glob_star [OF glob_refl [of "'':hot_comments''"], of "FormatInt i"]
    glob_star [OF glob_refl [of "'':comments:first_page:time''"], of "FormatInt i"] glob_star [OF glob_refl [of "[]"], of "FormatInt i"]
  by (simp_all add: category_key_def hotCommentsKey_def commentCachePattern_def commentFirstPageCacheKey_def noteCacheKey_def del: glob.simps(2)
      , simp_all)

lemma board_length: "length (note_board t limit P) \<le> nat limit" "length (comment_board t limit i) \<le> nat limit"
  by (simp_all add: note_board_def comment_board_def)

lemma on_db_run: "on_db m x = (Inr y, z) \<longleftrightarrow> m (fst x) = (Inr y, fst z) \<and> snd z = snd x"
  by (cases x; cases z) (auto simp: on_db_def split: prod.splits)

lemma on_redis_run: "on_redis m x = (Inr y, z) \<longleftrightarrow> m (snd x) = (Inr y, snd z) \<and> fst z = fst x"
  by (cases x; cases z) (auto simp: on_redis_def split: prod.splits)

lemma note_sets_members:
  assumes "ranked_ok q t" "0 \<le> limit"
    and es: "es = map (note_entry ''global'') (take (nat limit) (sort_key score_key (published_notes t))) @
      map (note_entry ''category'') (filter (\<lambda>n. category_rank t n \<le> limit) (sort_key score_key (published_notes t)))"
  shows "members globalNoteRankingKey (buildNoteSets es limit) = note_board t limit (\<lambda>_. True)"
    "cat \<noteq> [] \<Longrightarrow> members (category_key cat) (buildNoteSets es limit) = note_board t limit (\<lambda>n. n_category n = cat)"
proof -
  let ?cs = "filter (\<lambda>n. category_rank t n \<le> limit) (sort_key score_key (published_notes t))"
  have trim: "\<forall>n\<in>set ?cs. TrimSpace (n_category n) = n_category n" using assms(1) by (auto simp: ranked_ok_def published_notes_def)
  note build = buildNoteSets_def es note_loop_global
  have init: "members globalNoteRankingKey [(globalNoteRankingKey, [])] = []" "members (category_key cat) [(globalNoteRankingKey, [])] = []"
    by (simp_all add: members_def)
  show "members globalNoteRankingKey (buildNoteSets es limit) = note_board t limit (\<lambda>_. True)"
    by (simp add: build note_loop_category(2) [OF trim] members_fold_global init note_board_def)
  assume cat: "cat \<noteq> []"
  have board: "map note_item (filter (\<lambda>n. n_category n = cat) ?cs) = note_board t limit (\<lambda>n. n_category n = cat)"
    using assms(1) by (intro category_board [of q, OF _ assms(2)]) (simp add: ranked_ok_def)
  then have "length (filter (\<lambda>n. n_category n = cat) ?cs) \<le> nat limit"
    using board_length(1) [of t limit "\<lambda>n. n_category n = cat"] by (metis length_map)
  then have "take (nat limit) (filter (\<lambda>n. n_category n = cat) ?cs) = filter (\<lambda>n. n_category n = cat) ?cs" by simp
  then show "members (category_key cat) (buildNoteSets es limit) = note_board t limit (\<lambda>n. n_category n = cat)"
    using board by (simp add: build note_loop_category(1) [OF trim cat] members_fold_global init)
qed

lemma comment_sets_members:
  assumes "store_ok q t" "0 \<le> limit" "in_int64 i"
    and es: "es = map comment_entry (sort_key (\<lambda>c. (c_note_id c, - (c_like_count c * 5), - c_id c)) (filter (\<lambda>c. note_rank t c \<le> limit) (live_comments t)))"
  shows "members (hotCommentsKey i) (buildCommentSets es limit) = comment_board t limit i"
proof -
  have "in_int64 (c_note_id c)" if "c \<in> set (note_comments t)" for c
  proof -
    from that assms(1) obtain n where "n \<in> set (all_notes t)" "c_note_id c = n_id n" unfolding store_ok_def by fastforce
    then show ?thesis using assms(1) in_int64_key unfolding store_ok_def by metis
  qed
  then have nid: "\<forall>e\<in>set es. in_int64 (cr_NoteID e)" by (auto simp: es comment_entry_def live_comments_def)
  have board: "map entry_item (filter (\<lambda>e. cr_NoteID e = i) es) = comment_board t limit i"
    unfolding es by (rule comments_board [OF assms(1,2)])
  then have "length (filter (\<lambda>e. cr_NoteID e = i) es) \<le> nat limit"
    using board_length(2) [of t limit i] by (metis length_map)
  then have "take (nat limit) (filter (\<lambda>e. cr_NoteID e = i) es) = filter (\<lambda>e. cr_NoteID e = i) es" by simp
  then show ?thesis
    using board comment_loop_members [OF nid assms(3), of limit "\<lambda>_. 0" "[]"] by (simp add: buildCommentSets_def members_def)
qed

text \<open>After the transaction a ranking key holds the members of its set, and a cached value is gone.\<close>

lemma replaced_view:
  assumes doc: "redis_documented ops view" and run: "replaceRedisDerivedData ops noteSets commentSets r = (Inr k, r')"
    and d: "distinct (map fst noteSets)" "distinct (map fst commentSets)"
    and ks: "fst ` set noteSets \<subseteq> {globalNoteRankingKey} \<union> range category_key" "fst ` set commentSets \<subseteq> range hotCommentsKey"
  shows "key \<in> {globalNoteRankingKey} \<union> range category_key \<Longrightarrow>
      view r' key = (if members key noteSets = [] then None else Some (ZSet (map_of (rev (members key noteSets)))))"
    "view r' (hotCommentsKey i) = (if members (hotCommentsKey i) commentSets = [] then None else Some (ZSet (map_of (rev (members (hotCommentsKey i) commentSets)))))"
    "in_int64 i \<Longrightarrow> view r' (noteCacheKey i) = None" "view r' (commentFirstPageCacheKey i) = None"
proof -
  have scan: "view r2 = view r1 \<and> set found = {k. view r1 k \<noteq> None \<and> glob p k}" if "rr_Scan ops p r1 = (Inr found, r2)" for p r1 found r2
    using doc that unfolding redis_documented_def by blast
  obtain ks1 ks2 ks3 ks4 r1 r2 r3 r4 where sc: "rr_Scan ops ''ranking:notes:*:daily'' r = (Inr ks1, r1)" "rr_Scan ops ''note:*:hot_comments'' r1 = (Inr ks2, r2)"
      "rr_Scan ops commentCachePattern r2 = (Inr ks3, r3)" "rr_Scan ops ''note:*'' r3 = (Inr ks4, r4)"
    and tx: "rr_TxPipelined ops (map CmdDel (remdups (globalNoteRankingKey # ks1 @ ks2)) @ map CmdDel (ks3 @ filter detail_key ks4) @
      zadd_cmds noteSets @ zadd_cmds commentSets) r4 = (Inr (), r')"
    using run by (auto simp: replaceRedisDerivedData_def bindE_Inr Let_def)
  let ?dels = "remdups (globalNoteRankingKey # ks1 @ ks2) @ ks3 @ filter detail_key ks4"
  define m where "m = (\<lambda>k. if k \<in> set ?dels then None else view r k)"
  have v: "view r4 = view r" "set ks1 = {k. view r k \<noteq> None \<and> glob ''ranking:notes:*:daily'' k}" "set ks2 = {k. view r k \<noteq> None \<and> glob ''note:*:hot_comments'' k}"
    "set ks3 = {k. view r k \<noteq> None \<and> glob commentCachePattern k}" "set ks4 = {k. view r k \<noteq> None \<and> glob ''note:*'' k}"
    using scan [OF sc(1)] scan [OF sc(2)] scan [OF sc(3)] scan [OF sc(4)] by simp_all
  have "view r' = fold redis_effect (map CmdDel ?dels @ zadd_cmds noteSets @ zadd_cmds commentSets) (view r4)"
    using doc tx unfolding redis_documented_def by (metis append_assoc map_append)
  then have final: "view r' = fold redis_effect (zadd_cmds commentSets) (fold redis_effect (zadd_cmds noteSets) m)"
    using fold_dels [of ?dels "view r"] v(1) by (simp only: fold_append comp_apply m_def)
  have gone: "m globalNoteRankingKey = None" "m (category_key c) = None" "m (hotCommentsKey j) = None"
    "m (commentFirstPageCacheKey j) = None" "in_int64 j \<Longrightarrow> m (noteCacheKey j) = None" for c j
  proof -
    have "view r (category_key c) = None \<or> category_key c \<in> set ks1" using v(2) glob_keys(1) [of c] by blast
    moreover have "view r (hotCommentsKey j) = None \<or> hotCommentsKey j \<in> set ks2" using v(3) glob_keys(2) [of j] by blast
    moreover have "view r (commentFirstPageCacheKey j) = None \<or> commentFirstPageCacheKey j \<in> set ks3" using v(4) glob_keys(3) [of j] by blast
    moreover have "view r (noteCacheKey j) = None \<or> noteCacheKey j \<in> set ks4" using v(5) glob_keys(4) [of j] by blast
    moreover have "in_int64 j \<Longrightarrow> noteCacheKey j \<in> set ks4 \<Longrightarrow> noteCacheKey j \<in> set (filter detail_key ks4)" by (simp add: detail_key_note)
    moreover have "set ks1 \<subseteq> set ?dels" "set ks2 \<subseteq> set ?dels" "set ks3 \<subseteq> set ?dels" "set (filter detail_key ks4) \<subseteq> set ?dels" by auto
    moreover have "m k = None" if "view r k = None \<or> k \<in> set ?dels" for k using that by (auto simp: m_def)
    ultimately show "m (category_key c) = None" "m (hotCommentsKey j) = None"
      "m (commentFirstPageCacheKey j) = None" "in_int64 j \<Longrightarrow> m (noteCacheKey j) = None"
      by blast+
    show "m globalNoteRankingKey = None" by (simp add: m_def)
  qed
  have ranking: "hd k \<noteq> CHR ''n''" if "k \<in> {globalNoteRankingKey} \<union> range category_key" for k using that hd_keys(1,2) by auto
  show "key \<in> {globalNoteRankingKey} \<union> range category_key \<Longrightarrow>
      view r' key = (if members key noteSets = [] then None else Some (ZSet (map_of (rev (members key noteSets)))))"
  proof -
    assume key: "key \<in> {globalNoteRankingKey} \<union> range category_key"
    then have "key \<notin> fst ` set commentSets" using ks(2) ranking [OF key] hd_keys(3) by (metis rangeE subsetD)
    moreover have "m key = None" using key gone(1,2) by auto
    ultimately show ?thesis unfolding final using fold_zadds [OF d(1), of m key] by (simp only: fold_zadds_other simp_thms)
  qed
  have not_ranking: "k \<notin> fst ` set noteSets" if "hd k = CHR ''n''" for k using that ks(1) ranking by blast
  have "fold redis_effect (zadd_cmds noteSets) m (hotCommentsKey i) = None"
    using fold_zadds_other [OF not_ranking [OF hd_keys(3)], of m] gone(3) by simp
  then show "view r' (hotCommentsKey i) = (if members (hotCommentsKey i) commentSets = [] then None else Some (ZSet (map_of (rev (members (hotCommentsKey i) commentSets)))))"
    unfolding final by (rule fold_zadds [OF d(2)])
  show "in_int64 i \<Longrightarrow> view r' (noteCacheKey i) = None"
    using ks(2) cache_keys_fresh(1) [of i] gone(5) unfolding final
    by (subst fold_zadds_other, blast) (simp only: fold_zadds_other [OF not_ranking [OF hd_keys(4)]])
  show "view r' (commentFirstPageCacheKey i) = None"
    using ks(2) cache_keys_fresh(2) [of i] gone(4) unfolding final
    by (subst fold_zadds_other, blast) (simp only: fold_zadds_other [OF not_ranking [OF hd_keys(5)]])
qed

text \<open>
  C16. A successful run of the reconciler replaces the rankings: afterwards the board of all notes, the board of every category and
  the board of every note's comments hold exactly the best \<open>rankingLimit\<close> published notes or live comments of the database with their
  current scores, whatever Redis held before, and every cached note detail and first comment page is gone.
\<close>

theorem run_once_rankings:
  assumes "redis_documented ops view" "store_ok (seqs s) (tables s)" "\<forall>n\<in>set (all_notes (tables s)). TrimSpace (n_category n) = n_category n"
    and "RunOnce (Some ops) limit (s, r) = (Inr res, (s', r'))"
  shows "view r' ''ranking:notes:daily'' = shown (note_board (tables s') limit (\<lambda>_. True)) \<and>
    (\<forall>cat. cat \<noteq> [] \<longrightarrow> view r' (''ranking:notes:'' @ cat @ '':daily'') = shown (note_board (tables s') limit (\<lambda>n. n_category n = cat))) \<and>
    (\<forall>i. in_int64 i \<longrightarrow> view r' (hotCommentsKey i) = shown (comment_board (tables s') limit i) \<and>
       view r' (noteCacheKey i) = None \<and> view r' (commentFirstPageCacheKey i) = None)"
proof -
  obtain rep s1 ns s2 cs k where rc: "ReconcileCounters s = (Inr rep, s1)" and ln: "ListNoteRankings limit s1 = (Inr ns, s2)"
    and lc: "ListCommentRankings limit s2 = (Inr cs, s')"
    and rp: "replaceRedisDerivedData ops (buildNoteSets ns limit) (buildCommentSets cs limit) r = (Inr k, r')"
    using assms(4) by (auto simp: RunOnce_def bindE_Inr on_db_run on_redis_run Let_def)
  let ?t = "tables s'"
  have l: "0 \<le> limit" using ln by (auto simp: ListNoteRankings_def checked_limit_def split: if_splits)
  have t: "tables s1 = ?t" "seqs s' = seqs s1"
    and ns: "ns = map (note_entry ''global'') (take (nat limit) (sort_key score_key (published_notes ?t))) @
      map (note_entry ''category'') (filter (\<lambda>n. category_rank ?t n \<le> limit) (sort_key score_key (published_notes ?t)))"
    and cs: "cs = map comment_entry (sort_key (\<lambda>c. (c_note_id c, - (c_like_count c * 5), - c_id c)) (filter (\<lambda>c. note_rank ?t c \<le> limit) (live_comments ?t)))"
    using ln lc l by (auto simp: ListNoteRankings_def ListCommentRankings_def checked_limit_def selectE_Inr Let_def)
  have ok: "ranked_ok (seqs s1) ?t"
    using keepsD [OF ranked_ReconcileCounters _ rc] assms(2,3) t by (simp add: ranked_ok_def)
  then have st: "store_ok (seqs s1) ?t" by (simp add: ranked_ok_def)
  have d: "distinct (map fst (buildNoteSets ns limit))" "distinct (map fst (buildCommentSets cs limit))"
    and keys: "fst ` set (buildNoteSets ns limit) \<subseteq> {globalNoteRankingKey} \<union> range category_key" "fst ` set (buildCommentSets cs limit) \<subseteq> range hotCommentsKey"
    unfolding buildNoteSets_def buildCommentSets_def
    by (rule note_loop_distinct comment_loop_distinct, simp)+
      (rule note_loop_keys comment_loop_keys; auto)+
  note view = replaced_view [OF assms(1) rp d keys] and members = note_sets_members [OF ok l ns] comment_sets_members [OF st l _ cs]
  have "view r' globalNoteRankingKey = shown (note_board ?t limit (\<lambda>_. True))"
    using view(1) [of globalNoteRankingKey] members(1) map_of_rev_distinct [OF board_distinct(1) [OF st]] by (simp add: shown_def)
  moreover have "view r' (category_key cat) = shown (note_board ?t limit (\<lambda>n. n_category n = cat))" if "cat \<noteq> []" for cat
    using view(1) [of "category_key cat"] members(2) [OF that] map_of_rev_distinct [OF board_distinct(1) [OF st]] by (simp add: shown_def)
  moreover have "view r' (hotCommentsKey i) = shown (comment_board ?t limit i)" if "in_int64 i" for i
    using view(2) [of i] members(3) [OF that] map_of_rev_distinct [OF board_distinct(2) [OF st]] by (simp add: shown_def)
  ultimately show ?thesis using view(3,4) by (simp add: globalNoteRankingKey_def category_key_def)
qed

section \<open>A small Redis\<close>

text \<open>Redis as a list of entries, the newest first.\<close>

fun entries_effect :: "redis_cmd \<Rightarrow> (string \<times> redis_value) list \<Rightarrow> (string \<times> redis_value) list" where
  "entries_effect (CmdDel k) r = filter (\<lambda>e. fst e \<noteq> k) r"
| "entries_effect (CmdZAdd k zs) r =
     (case map_of r k of None \<Rightarrow> (k, ZSet (map_of (rev zs))) # r | Some (ZSet z) \<Rightarrow> (k, ZSet (z ++ map_of (rev zs))) # r | Some (Plain v) \<Rightarrow> r)"

definition small_redis :: "(string \<times> redis_value) list reconcile_redis" where
  "small_redis = \<lparr>rr_Scan = (\<lambda>p r. (Inr (filter (glob p) (map fst r)), r)), rr_TxPipelined = (\<lambda>cmds r. (Inr (), fold entries_effect cmds r))\<rparr>"

lemma map_of_filter_key: "map_of (filter (\<lambda>e. fst e \<noteq> k) r) = (map_of r)(k := None)"
  by (induction r) (auto simp: fun_eq_iff)

lemma small_redis_documented: "redis_documented small_redis map_of"
proof -
  have "map_of (entries_effect c r) = redis_effect c (map_of r)" for c r
    by (cases c) (auto simp: map_of_filter_key fun_upd_def split: option.splits redis_value.splits)
  then have "map_of (fold entries_effect cmds r) = fold redis_effect cmds (map_of r)" for cmds r
    by (induction cmds arbitrary: r) simp_all
  moreover have "k \<in> fst ` set r \<longleftrightarrow> map_of r k \<noteq> None" for k and r :: "(string \<times> redis_value) list"
    by (simp add: map_of_eq_None_iff)
  ultimately show ?thesis by (auto simp: redis_documented_def small_redis_def simp del: glob.simps)
qed

theorem run_once_rankings_witness:
  "\<exists>res s' r'. RunOnce (Some small_redis) 10 (drifted_db, []) = (Inr res, (s', r')) \<and>
     map_of r' ''ranking:notes:daily'' = shown (note_board (tables s') 10 (\<lambda>_. True)) \<and> map_of r' ''note:1'' = None"
proof -
  obtain rep s1 where rc: "ReconcileCounters drifted_db = (Inr rep, s1)" "faults s1 = []"
    by (rule reconcile_round [OF drifted_simps(1,4,5) refl refl])
  have "\<exists>res s' r'. RunOnce (Some small_redis) 10 (drifted_db, []) = (Inr res, (s', r'))"
    using rc by (simp add: RunOnce_def on_db_def on_redis_def bindE_def mapErr_def Let_def ListNoteRankings_def ListCommentRankings_def checked_limit_def
        replaceRedisDerivedData_def small_redis_def)
  then obtain res s' r' where run: "RunOnce (Some small_redis) 10 (drifted_db, []) = (Inr res, (s', r'))" by blast
  have "TrimSpace ''c'' = ''c''" by code_simp
  then have "TrimSpace (n_category sample_note_row) = n_category sample_note_row" by (simp add: sample_note_row_def new_note_row_def sample_input_def)
  then have trim: "\<forall>n\<in>set (all_notes (tables drifted_db)). TrimSpace (n_category n) = n_category n" by (simp add: drifted_simps)
  have "noteCacheKey 1 = ''note:1''" by code_simp
  moreover have "in_int64 1" by (simp add: in_int64_def)
  ultimately have "map_of r' ''note:1'' = None"
    using run_once_rankings [OF small_redis_documented drifted_ok trim run] by metis
  then show ?thesis using run_once_rankings [OF small_redis_documented drifted_ok trim run] run by blast
qed

end
