(* ===== verification/Vector_Repo.thy ===== *)
theory Vector_Repo
  imports Search Ingest
begin

text \<open>
  The control rows of vector indexes (\<open>retrieval/vector_repository.go\<close>, \<open>migrations/000020\<close>, \<open>000021\<close>): a build takes a lease on its row, writes
  checkpoints under the token of the lease, and completes or fails the row. The statements read \<open>clock_timestamp()\<close>, so time may pass between them: \<open>vw_ticks\<close>
  says how much passes before each statement (nothing once the list is used up). The state outside the database (vector store and embedding service)
  is an arbitrary type, and the random source is a stream of answers.
\<close>

section \<open>The world of a build\<close>

record 'q vworld =
  vw_db :: "rag_store db"
  vw_out :: 'q
  vw_ticks :: "int list"
  vw_random :: "nat \<Rightarrow> string + string"

type_synonym ('q, 'a) vm = "('q vworld, 'a) sem"

text \<open>A statement of the repository at its time, and a call of a service.\<close>

definition on_repo :: "'a rm \<Rightarrow> ('q, 'a) vm" where
  "on_repo m w =
     (let passed = (case vw_ticks w of [] \<Rightarrow> 0 | d # _ \<Rightarrow> max 0 d); d = vw_db w in
      case m (d\<lparr>db_now := db_now d + passed\<rparr>) of (r, d') \<Rightarrow> (r, w\<lparr>vw_db := d', vw_ticks := tl (vw_ticks w)\<rparr>))"

definition on_out :: "('q, 'a) sem \<Rightarrow> ('q, 'a) vm" where
  "on_out m w = (case m (vw_out w) of (r, q) \<Rightarrow> (r, w\<lparr>vw_out := q\<rparr>))"

section \<open>Models\<close>

definition ErrIndexBuildLeased :: go_error where "ErrIndexBuildLeased = ErrorString ''retrieval index build lease is held''"
definition ErrIndexLeaseLost :: go_error where "ErrIndexLeaseLost = ErrorString ''retrieval index build lease was lost''"
definition ErrVectorIndexCorrupt :: go_error where "ErrVectorIndexCorrupt = ErrorString ''retrieval vector index is inconsistent''"

record VectorIndex =
  vi_IngestionRunID :: string
  vi_IndexVersion :: string
  vi_EmbeddingModel :: string
  vi_EmbeddingRevision :: string
  vi_VectorDimension :: int
  vi_DistanceMetric :: string
  vi_CollectionName :: string
  vi_Status :: string
  vi_PointCount :: int
  vi_CheckpointChunkID :: int
  vi_CheckpointPoints :: int
  vi_BuildAttempt :: int
  vi_LeaseOwner :: string
  vi_LeaseExpiresAt :: "int option"
  vi_HeartbeatAt :: "int option"
  vi_LastReconciledAt :: "int option"
  vi_OrphanPointCount :: int
  vi_MissingPointCount :: int
  vi_IndexChecksum :: string
  vi_StartedAt :: int
  vi_CompletedAt :: "int option"

record VectorManifestEntry =
  me_ChunkID :: int
  me_ContentHash :: string

record VectorChunk =
  vc_ChunkID :: int
  vc_Content :: string
  vc_ContentHash :: string
  vc_DocumentID :: int
  vc_DocumentType :: string
  vc_SourceType :: string
  vc_SourceID :: "int option"
  vc_SourceVersion :: int
  vc_NoteID :: "int option"
  vc_MediaPosition :: "int option"
  vc_ProjectID :: int
  vc_ProjectVisibility :: string
  vc_DocumentVisibility :: string
  vc_DocumentLifecycle :: string

section \<open>Control rows\<close>

definition scanVectorIndex :: "vector_index_row \<Rightarrow> VectorIndex" where
  "scanVectorIndex r =
     \<lparr>vi_IngestionRunID = vx_ingestion_run_id r, vi_IndexVersion = vx_index_version r, vi_EmbeddingModel = vx_embedding_model r,
      vi_EmbeddingRevision = vx_embedding_revision r, vi_VectorDimension = vx_vector_dimension r, vi_DistanceMetric = vx_distance_metric r,
      vi_CollectionName = vx_collection_name r, vi_Status = vx_status r, vi_PointCount = vx_point_count r,
      vi_CheckpointChunkID = vx_checkpoint_chunk_id r, vi_CheckpointPoints = vx_checkpoint_point_count r, vi_BuildAttempt = vx_build_attempt r,
      vi_LeaseOwner = coalesce (vx_lease_owner r), vi_LeaseExpiresAt = vx_lease_expires_at r, vi_HeartbeatAt = vx_heartbeat_at r,
      vi_LastReconciledAt = vx_last_reconciled_at r, vi_OrphanPointCount = vx_orphan_point_count r, vi_MissingPointCount = vx_missing_point_count r,
      vi_IndexChecksum = coalesce (vx_index_checksum r), vi_StartedAt = vx_started_at r, vi_CompletedAt = vx_completed_at r\<rparr>"

definition of_run :: "string \<Rightarrow> vector_index_row \<Rightarrow> bool" where
  "of_run ingestionRunID r = (vx_ingestion_run_id r = ingestionRunID \<and> vx_index_version r = VectorIndexVersion)"

definition LoadVectorIndex :: "string \<Rightarrow> ('q, VectorIndex) vm" where
  "LoadVectorIndex ingestionRunID =
     mapErr (\<lambda>e. if errors_is e SqlErrNoRows then ErrIndexNotReady else WrapError ''load vector index'' e)
       (on_repo (query_row (\<lambda>t. map_option scanVectorIndex (find (of_run ingestionRunID) (retrieval_vector_indexes t)))))"

definition control_row :: "VectorIndex \<Rightarrow> int \<Rightarrow> vector_index_row" where
  "control_row index now =
     \<lparr>vx_ingestion_run_id = vi_IngestionRunID index, vx_index_version = vi_IndexVersion index, vx_index_checksum = None,
      vx_collection_name = vi_CollectionName index, vx_embedding_model = vi_EmbeddingModel index, vx_embedding_revision = vi_EmbeddingRevision index,
      vx_status = ''failed'', vx_vector_dimension = vi_VectorDimension index, vx_distance_metric = ''Cosine'', vx_point_count = 0,
      vx_checkpoint_chunk_id = 0, vx_checkpoint_point_count = 0, vx_build_attempt = 0, vx_lease_owner = None, vx_lease_token = None,
      vx_lease_expires_at = None, vx_heartbeat_at = None, vx_last_reconciled_at = None, vx_orphan_point_count = 0, vx_missing_point_count = 0,
      vx_error_message = None, vx_started_at = now, vx_completed_at = None\<rparr>"

text \<open>\<open>INSERT ... SELECT ... FROM ingestion_runs ... ON CONFLICT DO NOTHING\<close>: only a completed run gets a row.\<close>

definition insert_control_row :: "VectorIndex \<Rightarrow> int \<Rightarrow> rag_store \<Rightarrow> go_error + unit \<times> rag_store" where
  "insert_control_row index now t =
     (if \<not> exists_row (\<lambda>r. ir_run_id r = vi_IngestionRunID index \<and> ir_status r = ''completed'') (ingestion_runs (evid t)) then Inr ((), t)
      else if exists_row (\<lambda>r. vx_ingestion_run_id r = vi_IngestionRunID index \<and> vx_index_version r = vi_IndexVersion index) (retrieval_vector_indexes t)
      then Inr ((), t)
      else if vi_VectorDimension index \<le> 0 then Inl check_violation
      else if exists_row (\<lambda>r. vx_collection_name r = vi_CollectionName index) (retrieval_vector_indexes t) then Inl unique_violation
      else Inr ((), t\<lparr>retrieval_vector_indexes := retrieval_vector_indexes t @ [control_row index now]\<rparr>))"

definition lease_seconds :: "int \<Rightarrow> int" where
  "lease_seconds leaseDuration = (let s = leaseDuration div nanos_per_second in if s < 1 then 1 else s)"

definition lease_end :: "int \<Rightarrow> int \<Rightarrow> int" where
  "lease_end now leaseDuration = now + lease_seconds leaseDuration * nanos_per_second"

text \<open>\<open>UPDATE ... WHERE ... RETURNING\<close> of the one row a condition selects.\<close>

definition update_index :: "(int \<Rightarrow> vector_index_row \<Rightarrow> bool) \<Rightarrow> (int \<Rightarrow> vector_index_row \<Rightarrow> vector_index_row) \<Rightarrow> ('q, VectorIndex) vm" where
  "update_index P f =
     on_repo (execE (\<lambda>now t.
       case find (P now) (retrieval_vector_indexes t) of
         None \<Rightarrow> Inl SqlErrNoRows
       | Some r \<Rightarrow> Inr (scanVectorIndex (f now r),
           t\<lparr>retrieval_vector_indexes := update_where (P now) (f now) (retrieval_vector_indexes t)\<rparr>)))"

definition same_identity :: "VectorIndex \<Rightarrow> vector_index_row \<Rightarrow> bool" where
  "same_identity index r =
     (vx_embedding_model r = vi_EmbeddingModel index \<and> vx_embedding_revision r = vi_EmbeddingRevision index \<and>
      vx_vector_dimension r = vi_VectorDimension index \<and> vx_collection_name r = vi_CollectionName index)"

definition acquirable :: "VectorIndex \<Rightarrow> int \<Rightarrow> vector_index_row \<Rightarrow> bool" where
  "acquirable index now r =
     (vx_ingestion_run_id r = vi_IngestionRunID index \<and> vx_index_version r = vi_IndexVersion index \<and> same_identity index r \<and>
      vx_status r \<noteq> ''completed'' \<and>
      (vx_lease_token r = None \<or> (case vx_lease_expires_at r of None \<Rightarrow> False | Some x \<Rightarrow> x \<le> now)))"

definition acquired_row :: "string \<Rightarrow> string \<Rightarrow> int \<Rightarrow> int \<Rightarrow> vector_index_row \<Rightarrow> vector_index_row" where
  "acquired_row leaseOwner leaseToken leaseDuration now r =
     r\<lparr>vx_status := ''building'', vx_build_attempt := vx_build_attempt r + 1, vx_point_count := vx_checkpoint_point_count r, vx_index_checksum := None,
       vx_error_message := None, vx_lease_owner := Some leaseOwner, vx_lease_token := Some leaseToken,
       vx_lease_expires_at := Some (lease_end now leaseDuration), vx_heartbeat_at := Some now, vx_completed_at := None,
       vx_started_at := (if vx_build_attempt r = 0 then now else vx_started_at r)\<rparr>"

definition AcquireVectorIndex :: "VectorIndex \<Rightarrow> string \<Rightarrow> string \<Rightarrow> int \<Rightarrow> ('q, VectorIndex) vm" where
  "AcquireVectorIndex index leaseOwner leaseToken leaseDuration =
     bindE (mapErr (WrapError ''create vector index control row'') (on_repo (execE (insert_control_row index)))) (\<lambda>_.
     bindE (catchE (update_index (acquirable index) (acquired_row leaseOwner leaseToken leaseDuration))) (\<lambda>r.
     case r of
       Inr acquired \<Rightarrow> returnE acquired
     | Inl e \<Rightarrow>
         if \<not> errors_is e SqlErrNoRows then throwE (WrapError ''acquire vector index lease'' e)
         else bindE (LoadVectorIndex (vi_IngestionRunID index)) (\<lambda>current.
           if vi_Status current = ''completed'' then returnE current
           else if vi_EmbeddingModel current \<noteq> vi_EmbeddingModel index \<or> vi_EmbeddingRevision current \<noteq> vi_EmbeddingRevision index \<or>
             vi_VectorDimension current \<noteq> vi_VectorDimension index \<or> vi_CollectionName current \<noteq> vi_CollectionName index
           then throwE ErrIndexVersionMismatch
           else throwE ErrIndexBuildLeased)))"

text \<open>The row a build may still write: its own lease, not expired.\<close>

definition lease_held :: "string \<Rightarrow> string \<Rightarrow> int \<Rightarrow> vector_index_row \<Rightarrow> bool" where
  "lease_held ingestionRunID leaseToken now r =
     (of_run ingestionRunID r \<and> vx_status r = ''building'' \<and> vx_lease_token r = Some leaseToken \<and>
      (case vx_lease_expires_at r of None \<Rightarrow> False | Some x \<Rightarrow> now < x))"

definition checkpoint_row :: "int \<Rightarrow> int \<Rightarrow> int \<Rightarrow> int \<Rightarrow> int \<Rightarrow> bool \<Rightarrow> int \<Rightarrow> vector_index_row \<Rightarrow> vector_index_row" where
  "checkpoint_row chunkID pointCount orphanPointCount missingPointCount leaseDuration reconciled now r =
     r\<lparr>vx_checkpoint_chunk_id := chunkID, vx_checkpoint_point_count := pointCount, vx_point_count := pointCount,
       vx_orphan_point_count := (if reconciled then orphanPointCount else vx_orphan_point_count r),
       vx_missing_point_count := (if reconciled then missingPointCount else vx_missing_point_count r),
       vx_last_reconciled_at := (if reconciled then Some now else vx_last_reconciled_at r), vx_heartbeat_at := Some now,
       vx_lease_expires_at := Some (lease_end now leaseDuration)\<rparr>"

definition checkpoint_checks :: "vector_index_row \<Rightarrow> bool" where
  "checkpoint_checks r =
     (0 \<le> vx_checkpoint_chunk_id r \<and> 0 \<le> vx_checkpoint_point_count r \<and> 0 \<le> vx_orphan_point_count r \<and> 0 \<le> vx_missing_point_count r)"

definition SaveVectorIndexCheckpoint :: "string \<Rightarrow> string \<Rightarrow> int \<Rightarrow> int \<Rightarrow> int \<Rightarrow> int \<Rightarrow> int \<Rightarrow> bool \<Rightarrow> ('q, unit) vm" where
  "SaveVectorIndexCheckpoint ingestionRunID leaseToken chunkID pointCount orphanPointCount missingPointCount leaseDuration reconciled =
     bindE (mapErr (WrapError ''save vector index checkpoint'') (on_repo (execE (\<lambda>now t.
       let held = lease_held ingestionRunID leaseToken now; rows = retrieval_vector_indexes t;
           f = checkpoint_row chunkID pointCount orphanPointCount missingPointCount leaseDuration reconciled now in
       if exists_row (\<lambda>r. held r \<and> \<not> checkpoint_checks (f r)) rows then Inl check_violation
       else Inr (count_where held rows, t\<lparr>retrieval_vector_indexes := update_where held f rows\<rparr>))))) (\<lambda>rows.
     guardE (rows \<noteq> 1) ErrIndexLeaseLost)"

definition completed_index_row :: "int \<Rightarrow> string \<Rightarrow> int \<Rightarrow> vector_index_row \<Rightarrow> vector_index_row" where
  "completed_index_row pointCount checksum now r =
     r\<lparr>vx_status := ''completed'', vx_point_count := pointCount, vx_checkpoint_point_count := pointCount, vx_index_checksum := Some checksum,
       vx_lease_owner := None, vx_lease_token := None, vx_lease_expires_at := None, vx_completed_at := Some now\<rparr>"

definition CompleteVectorIndex :: "string \<Rightarrow> string \<Rightarrow> int \<Rightarrow> string \<Rightarrow> ('q, VectorIndex) vm" where
  "CompleteVectorIndex ingestionRunID leaseToken pointCount checksum =
     mapErr (\<lambda>e. if errors_is e SqlErrNoRows then ErrIndexLeaseLost else WrapError ''complete vector index'' e)
       (update_index (\<lambda>now r. lease_held ingestionRunID leaseToken now r \<and> vx_checkpoint_point_count r = pointCount)
          (completed_index_row pointCount checksum))"

text \<open>The result of the statement is dropped.\<close>

definition MarkVectorIndexFailed :: "string \<Rightarrow> string \<Rightarrow> go_error \<Rightarrow> ('q, unit) vm" where
  "MarkVectorIndexFailed ingestionRunID leaseToken cause =
     bindE (catchE (on_repo (updateE (\<lambda>now t.
       t\<lparr>retrieval_vector_indexes := update_where
           (\<lambda>r. of_run ingestionRunID r \<and> vx_status r = ''building'' \<and> vx_lease_token r = Some leaseToken)
           (\<lambda>r. r\<lparr>vx_status := ''failed'', vx_error_message := Some (left_chars 4000 (error_text cause)), vx_completed_at := None,
              vx_lease_owner := None, vx_lease_token := None, vx_lease_expires_at := None\<rparr>) (retrieval_vector_indexes t)\<rparr>)))) (\<lambda>_. returnE ())"

section \<open>The chunks of a run\<close>

definition vector_project :: "rag_store \<Rightarrow> document_row \<Rightarrow> project_row option" where
  "vector_project t d = find (\<lambda>p. p_id p = ed_project_id d \<and> p_status p = ''active'') (projects (core t))"

definition vector_eligible :: "rag_store \<Rightarrow> string \<Rightarrow> document_row \<Rightarrow> bool" where
  "vector_eligible t runID d =
     (doc_in_run (evid t) runID (ed_id d) \<and> vector_project t d \<noteq> None \<and> ed_lifecycle_status d \<in> {''ready'', ''superseded''} \<and>
      \<not> doc_withdrawn (evid t) d)"

definition vector_rows :: "rag_store \<Rightarrow> string \<Rightarrow> (document_row \<times> chunk_row) list" where
  "vector_rows t runID = sort_key (\<lambda>(d, c). ec_id c) (joined_chunks (evid t) (\<lambda>d c. vector_eligible t runID d))"

definition scan_manifest :: "document_row \<times> chunk_row \<Rightarrow> VectorManifestEntry" where
  "scan_manifest dc = \<lparr>me_ChunkID = ec_id (snd dc), me_ContentHash = ec_content_hash (snd dc)\<rparr>"

definition vector_manifest :: "rag_store \<Rightarrow> string \<Rightarrow> VectorManifestEntry list" where
  "vector_manifest t runID = map scan_manifest (vector_rows t runID)"

definition ListVectorManifest :: "string \<Rightarrow> ('q, VectorManifestEntry list) vm" where
  "ListVectorManifest ingestionRunID = mapErr (WrapError ''list vector manifest'') (on_repo (selectE (\<lambda>t. vector_manifest t ingestionRunID)))"

definition scan_vector_chunk :: "rag_store \<Rightarrow> document_row \<times> chunk_row \<Rightarrow> VectorChunk" where
  "scan_vector_chunk t dc =
     (case dc of (d, c) \<Rightarrow>
       \<lparr>vc_ChunkID = ec_id c, vc_Content = ec_content c, vc_ContentHash = ec_content_hash c, vc_DocumentID = ed_id d,
        vc_DocumentType = ed_document_type d, vc_SourceType = ed_source_type d, vc_SourceID = ed_source_id d, vc_SourceVersion = ed_source_version d,
        vc_NoteID = doc_note_id (evid t) d, vc_MediaPosition = doc_media_position (evid t) d, vc_ProjectID = ed_project_id d,
        vc_ProjectVisibility = (case vector_project t d of None \<Rightarrow> [] | Some p \<Rightarrow> p_visibility p), vc_DocumentVisibility = ed_visibility d,
        vc_DocumentLifecycle = ed_lifecycle_status d\<rparr>)"

definition chunks_after :: "rag_store \<Rightarrow> string \<Rightarrow> int \<Rightarrow> VectorChunk list" where
  "chunks_after t runID afterChunkID = map (scan_vector_chunk t) (filter (\<lambda>dc. ec_id (snd dc) > afterChunkID) (vector_rows t runID))"

definition ListVectorChunks :: "string \<Rightarrow> int \<Rightarrow> int \<Rightarrow> ('q, VectorChunk list) vm" where
  "ListVectorChunks ingestionRunID afterChunkID limit =
     mapErr (WrapError ''list vector chunks'') (on_repo (selectE (\<lambda>t. take (nat limit) (chunks_after t ingestionRunID afterChunkID))))"

end
