(* ===== verification/Vector_Index.thy ===== *)
theory Vector_Index
  imports Vector_Repo
begin

text \<open>
  The indexer of \<open>retrieval/vector_index.go\<close>: \<open>Build\<close> embeds the chunks of a run batch by batch into a collection of the vector store, resumes from the last
  checkpoint after checking it against the store, and completes the index after an audit. The store and the embedder are the Go interfaces \<open>VectorStore\<close>
  and \<open>Embedder\<close>, arguments of the definitions; \<open>None\<close> is a nil interface. Logging is left out. The loop over the batches and the second call of \<open>Build\<close>
  are recursive calls of \<open>partial_function\<close>s: not returning is \<open>None\<close>.
\<close>

section \<open>Interfaces and options\<close>

record 'v VectorPoint =
  vp_ID :: int
  vp_Vector :: 'v
  vp_Payload :: "(string \<times> json) list"

record ('v, 'q) VectorStore =
  RecreateCollection :: "string \<Rightarrow> int \<Rightarrow> (string \<times> json) list \<Rightarrow> ('q, unit) sem"
  CollectionExists :: "string \<Rightarrow> ('q, bool) sem"
  CreatePayloadIndex :: "string \<Rightarrow> string \<Rightarrow> string \<Rightarrow> ('q, unit) sem"
  store_Upsert :: "string \<Rightarrow> 'v VectorPoint list \<Rightarrow> ('q, unit) sem"
  ListPointManifest :: "string \<Rightarrow> ('q, VectorManifestEntry list) sem"
  DeletePoints :: "string \<Rightarrow> int list \<Rightarrow> ('q, unit) sem"

record VectorIndexOptions =
  xo_EmbeddingModel :: string
  xo_EmbeddingRevision :: string
  xo_VectorDimension :: int
  xo_BatchSize :: int
  xo_LeaseOwner :: string
  xo_LeaseDuration :: int

record ('v, 'q) VectorIndexer =
  xi_embedder :: "(string list \<Rightarrow> ('q, 'v list) sem) option"
  xi_store :: "('v, 'q) VectorStore option"
  xi_options :: VectorIndexOptions

record VectorIndexAudit =
  va_IngestionRunID :: string
  va_IndexVersion :: string
  va_CollectionName :: string
  va_IndexStatus :: string
  va_CollectionExists :: bool
  va_ExpectedPointCount :: int
  va_ActualPointCount :: int
  va_DatabasePointCount :: int
  va_MissingPointCount :: int
  va_OrphanPointCount :: int
  va_MismatchedPointCount :: int
  va_MissingPointSample :: "int list"
  va_OrphanPointSample :: "int list"
  va_MismatchedPointSample :: "int list"
  va_OrphansDeleted :: int
  va_ManifestChecksum :: string
  va_StoredIndexChecksum :: string
  va_Exact :: bool

definition defaultVectorLeaseDuration :: int where "defaultVectorLeaseDuration = 5 * 60 * nanos_per_second"
definition vectorAuditSampleLimit :: nat where "vectorAuditSampleLimit = 100"

text \<open>The argument \<open>host\<close> is the text of the host name and the process id.\<close>

definition newVectorIndexer ::
  "string \<Rightarrow> (string list \<Rightarrow> ('q, 'v list) sem) option \<Rightarrow> ('v, 'q) VectorStore option \<Rightarrow> VectorIndexOptions \<Rightarrow> ('v, 'q) VectorIndexer" where
  "newVectorIndexer host embedder store options =
     \<lparr>xi_embedder = embedder, xi_store = store,
      xi_options = options\<lparr>xo_LeaseDuration := (if xo_LeaseDuration options \<le> 0 then defaultVectorLeaseDuration else xo_LeaseDuration options),
        xo_LeaseOwner := (if TrimSpace (xo_LeaseOwner options) = [] then host else xo_LeaseOwner options)\<rparr>\<rparr>"

section \<open>Names, checksums and payloads\<close>

definition vectorCollectionName :: "(string \<Rightarrow> string) \<Rightarrow> string \<Rightarrow> string" where
  "vectorCollectionName H ingestionRunID = ''noteinsight_'' @ take 32 (H (ingestionRunID @ CHR 0x1F # VectorIndexVersion))"

definition writeVectorIndexIdentity :: "VectorIndex \<Rightarrow> string" where
  "writeVectorIndexIdentity index =
     vi_IngestionRunID index @ CHR 0x1F # vi_IndexVersion index @ CHR 0x1F # vi_EmbeddingModel index @ CHR 0x1F #
     vi_EmbeddingRevision index @ CHR 0x1F # FormatInt (vi_VectorDimension index) @ [CHR 0x0A]"

definition vectorManifestChecksum :: "(string \<Rightarrow> string) \<Rightarrow> VectorIndex \<Rightarrow> VectorManifestEntry list \<Rightarrow> string" where
  "vectorManifestChecksum H index manifest =
     H (writeVectorIndexIdentity index @ concat (map (\<lambda>e. FormatInt (me_ChunkID e) @ CHR 0x1F # me_ContentHash e @ [CHR 0x0A]) manifest))"

definition optional_member :: "string \<Rightarrow> int option \<Rightarrow> (string \<times> json) list" where
  "optional_member name x = (case x of None \<Rightarrow> [] | Some n \<Rightarrow> [(name, JInt n)])"

definition vectorPayload :: "VectorChunk \<Rightarrow> (string \<times> json) list" where
  "vectorPayload c =
     [(''chunk_id'', JInt (vc_ChunkID c)), (''document_id'', JInt (vc_DocumentID c)), (''project_id'', JInt (vc_ProjectID c)),
      (''project_visibility'', JStr (vc_ProjectVisibility c)), (''document_visibility'', JStr (vc_DocumentVisibility c)),
      (''document_lifecycle'', JStr (vc_DocumentLifecycle c)), (''document_type'', JStr (vc_DocumentType c)),
      (''source_type'', JStr (vc_SourceType c)), (''source_version'', JInt (vc_SourceVersion c)), (''content_hash'', JStr (vc_ContentHash c))] @
     optional_member ''source_id'' (vc_SourceID c) @ optional_member ''note_id'' (vc_NoteID c) @ optional_member ''media_position'' (vc_MediaPosition c)"

definition newVectorLeaseToken :: "('q, string) vm" where
  "newVectorLeaseToken w =
     (let w' = w\<lparr>vw_random := (\<lambda>n. vw_random w (Suc n))\<rparr> in
      case vw_random w 0 of
        Inl e \<Rightarrow> (Inl (WrapError ''generate vector index lease token'' (ErrorString e)), w')
      | Inr bytes \<Rightarrow> (Inr (EncodeToString bytes), w'))"

section \<open>Comparing a manifest with the stored points\<close>

definition entries :: "VectorManifestEntry list \<Rightarrow> int \<rightharpoonup> string" where
  "entries es = map_of (rev (map (\<lambda>e. (me_ChunkID e, me_ContentHash e)) es))"

definition orphan_ids :: "VectorManifestEntry list \<Rightarrow> VectorManifestEntry list \<Rightarrow> int list" where
  "orphan_ids manifest actual = map me_ChunkID (filter (\<lambda>p. entries manifest (me_ChunkID p) = None) actual)"

definition mismatched_ids :: "VectorManifestEntry list \<Rightarrow> VectorManifestEntry list \<Rightarrow> int list" where
  "mismatched_ids manifest actual =
     map me_ChunkID (filter (\<lambda>p. case entries manifest (me_ChunkID p) of None \<Rightarrow> False | Some h \<Rightarrow> me_ContentHash p \<noteq> h) actual)"

definition compareVectorPoints :: "VectorManifestEntry list \<Rightarrow> VectorManifestEntry list \<Rightarrow> int list \<times> int list \<times> int list" where
  "compareVectorPoints manifest actual =
     (map me_ChunkID (filter (\<lambda>e. entries actual (me_ChunkID e) = None) manifest), sort (orphan_ids manifest actual), sort (mismatched_ids manifest actual))"

definition corrupt :: "string \<Rightarrow> go_error" where
  "corrupt text = DetailError ErrVectorIndexCorrupt text"

definition validateVectorCheckpoint :: "int \<Rightarrow> int \<Rightarrow> VectorManifestEntry list \<Rightarrow> go_error option" where
  "validateVectorCheckpoint checkpointChunkID checkpointPoints manifest =
     (if checkpointPoints < 0 \<or> checkpointPoints > int (length manifest)
      then Some (corrupt (''checkpoint point count '' @ FormatInt checkpointPoints @ '' outside manifest size '' @ FormatInt (int (length manifest))))
      else if checkpointPoints = 0
      then (if checkpointChunkID \<noteq> 0 then Some (corrupt (''zero-point checkpoint has chunk id '' @ FormatInt checkpointChunkID)) else None)
      else let expected = me_ChunkID (manifest ! nat (checkpointPoints - 1)) in
        if checkpointChunkID \<noteq> expected
        then Some (corrupt (''checkpoint chunk id '' @ FormatInt checkpointChunkID @ '', want '' @ FormatInt expected)) else None)"

record vectorResumePlan =
  rp_CheckpointChunkID :: int
  rp_CheckpointPoints :: int
  rp_MissingCheckpointIDs :: "int list"
  rp_OrphanIDs :: "int list"
  rp_MismatchedIDs :: "int list"

fun first_duplicate :: "int list \<Rightarrow> int list \<Rightarrow> int option" where
  "first_duplicate seen [] = None"
| "first_duplicate seen (i # is) = (if i \<in> set seen then Some i else first_duplicate (i # seen) is)"

definition absent :: "VectorManifestEntry list \<Rightarrow> VectorManifestEntry \<Rightarrow> bool" where
  "absent actual e = (entries actual (me_ChunkID e) \<noteq> Some (me_ContentHash e))"

definition planVectorResume ::
  "VectorManifestEntry list \<Rightarrow> int \<Rightarrow> int \<Rightarrow> VectorManifestEntry list \<Rightarrow> go_error + vectorResumePlan" where
  "planVectorResume manifest checkpointChunkID checkpointPoints actual =
     (case validateVectorCheckpoint checkpointChunkID checkpointPoints manifest of
        Some e \<Rightarrow> Inl e
      | None \<Rightarrow>
          (case first_duplicate [] (map me_ChunkID actual) of
             Some i \<Rightarrow> Inl (corrupt (''duplicate Qdrant point id '' @ FormatInt i))
           | None \<Rightarrow>
               let checked = take (nat checkpointPoints) manifest;
                   rewindTo = length (takeWhile (\<lambda>e. \<not> absent actual e) checked) in
               Inr \<lparr>rp_CheckpointChunkID = (if rewindTo > 0 then me_ChunkID (manifest ! (rewindTo - 1)) else 0), rp_CheckpointPoints = int rewindTo,
                 rp_MissingCheckpointIDs = map me_ChunkID (filter (absent actual) checked),
                 rp_OrphanIDs = sort (orphan_ids manifest actual), rp_MismatchedIDs = sort (mismatched_ids manifest actual)\<rparr>))"

section \<open>Audit\<close>

definition validateIdentity :: "VectorIndexOptions \<Rightarrow> VectorIndex \<Rightarrow> ('q, unit) vm" where
  "validateIdentity options index =
     guardE (vi_IndexVersion index \<noteq> VectorIndexVersion \<or> vi_EmbeddingModel index \<noteq> xo_EmbeddingModel options \<or>
       vi_EmbeddingRevision index \<noteq> xo_EmbeddingRevision options \<or> vi_VectorDimension index \<noteq> xo_VectorDimension options) ErrIndexVersionMismatch"

definition blank_audit :: "(string \<Rightarrow> string) \<Rightarrow> VectorIndex \<Rightarrow> VectorManifestEntry list \<Rightarrow> VectorIndexAudit" where
  "blank_audit H index manifest =
     \<lparr>va_IngestionRunID = vi_IngestionRunID index, va_IndexVersion = vi_IndexVersion index, va_CollectionName = vi_CollectionName index,
      va_IndexStatus = vi_Status index, va_CollectionExists = False, va_ExpectedPointCount = int (length manifest), va_ActualPointCount = 0,
      va_DatabasePointCount = vi_PointCount index, va_MissingPointCount = 0, va_OrphanPointCount = 0, va_MismatchedPointCount = 0,
      va_MissingPointSample = [], va_OrphanPointSample = [], va_MismatchedPointSample = [], va_OrphansDeleted = 0,
      va_ManifestChecksum = vectorManifestChecksum H index manifest, va_StoredIndexChecksum = vi_IndexChecksum index, va_Exact = False\<rparr>"

definition compared_audit ::
  "VectorIndexAudit \<Rightarrow> VectorManifestEntry list \<Rightarrow> VectorManifestEntry list \<Rightarrow> int \<Rightarrow> VectorIndex \<Rightarrow> VectorIndexAudit" where
  "compared_audit report manifest actual deleted index =
     (case compareVectorPoints manifest actual of (missing, orphans, mismatched) \<Rightarrow>
        let actualCount = int (length actual) - deleted; expected = int (length manifest) in
        report\<lparr>va_CollectionExists := True, va_ActualPointCount := actualCount, va_MissingPointCount := int (length missing),
          va_OrphanPointCount := int (length orphans), va_MismatchedPointCount := int (length mismatched),
          va_MissingPointSample := take vectorAuditSampleLimit missing, va_OrphanPointSample := take vectorAuditSampleLimit orphans,
          va_MismatchedPointSample := take vectorAuditSampleLimit mismatched, va_OrphansDeleted := deleted,
          va_Exact := (missing = [] \<and> int (length orphans) - deleted = 0 \<and> mismatched = [] \<and> actualCount = expected \<and>
            (vi_Status index \<noteq> ''completed'' \<or> vi_PointCount index = expected) \<and>
            (vi_Status index \<noteq> ''completed'' \<or> vi_IndexChecksum index = va_ManifestChecksum report))\<rparr>)"

definition auditWithManifest ::
  "(string \<Rightarrow> string) \<Rightarrow> ('v, 'q) VectorStore \<Rightarrow> VectorIndex \<Rightarrow> VectorManifestEntry list \<Rightarrow> bool \<Rightarrow> ('q, VectorIndexAudit) vm" where
  "auditWithManifest H store index manifest repairOrphans =
     (let report = blank_audit H index manifest; c = vi_CollectionName index in
      bindE (on_out (CollectionExists store c)) (\<lambda>exists.
      if \<not> exists then returnE (report\<lparr>va_MissingPointCount := int (length manifest),
        va_MissingPointSample := map me_ChunkID (take vectorAuditSampleLimit manifest)\<rparr>)
      else bindE (on_out (ListPointManifest store c)) (\<lambda>actual.
        let orphans = fst (snd (compareVectorPoints manifest actual)) in
        if repairOrphans \<and> orphans \<noteq> []
        then bindE (on_out (DeletePoints store c orphans)) (\<lambda>_. returnE (compared_audit report manifest actual (int (length orphans)) index))
        else returnE (compared_audit report manifest actual 0 index))))"

definition vector_Audit :: "(string \<Rightarrow> string) \<Rightarrow> ('v, 'q) VectorIndexer \<Rightarrow> string \<Rightarrow> bool \<Rightarrow> ('q, VectorIndexAudit) vm" where
  "vector_Audit H i input repairOrphans =
     (let ingestionRunID = TrimSpace input; bad = DetailError RetrievalErrInvalidInput ''incomplete vector audit configuration'' in
      if ingestionRunID = [] then throwE bad
      else case xi_store i of
        None \<Rightarrow> throwE bad
      | Some store \<Rightarrow>
          bindE (LoadVectorIndex ingestionRunID) (\<lambda>index.
          bindE (validateIdentity (xi_options i) index) (\<lambda>_.
          bindE (ListVectorManifest ingestionRunID) (\<lambda>manifest.
          auditWithManifest H store index manifest repairOrphans))))"

section \<open>Preparing a collection\<close>

definition payload_indexes :: "(string \<times> string) list" where
  "payload_indexes =
     [(''document_lifecycle'', ''keyword''), (''document_type'', ''keyword''), (''document_visibility'', ''keyword''), (''note_id'', ''integer''),
      (''project_id'', ''integer''), (''project_visibility'', ''keyword''), (''source_type'', ''keyword'')]"

fun create_payload_indexes :: "('v, 'q) VectorStore \<Rightarrow> string \<Rightarrow> (string \<times> string) list \<Rightarrow> ('q, unit) vm" where
  "create_payload_indexes store c [] = returnE ()"
| "create_payload_indexes store c ((field, schema) # rest) =
     bindE (on_out (CreatePayloadIndex store c field schema)) (\<lambda>_. create_payload_indexes store c rest)"

definition recreateCollection :: "VectorIndexOptions \<Rightarrow> ('v, 'q) VectorStore \<Rightarrow> VectorIndex \<Rightarrow> ('q, unit) vm" where
  "recreateCollection options store index =
     bindE (on_out (RecreateCollection store (vi_CollectionName index) (xo_VectorDimension options)
       [(''ingestion_run_id'', JStr (vi_IngestionRunID index)), (''index_version'', JStr VectorIndexVersion),
        (''embedding_model'', JStr (xo_EmbeddingModel options)), (''embedding_revision'', JStr (xo_EmbeddingRevision options))])) (\<lambda>_.
     create_payload_indexes store (vi_CollectionName index) payload_indexes)"

definition start_over :: "VectorIndexOptions \<Rightarrow> ('v, 'q) VectorStore \<Rightarrow> VectorIndex \<Rightarrow> string \<Rightarrow> int \<Rightarrow> ('q, int \<times> int) vm" where
  "start_over options store index leaseToken missing =
     bindE (recreateCollection options store index) (\<lambda>_.
     bindE (SaveVectorIndexCheckpoint (vi_IngestionRunID index) leaseToken 0 0 0 missing (xo_LeaseDuration options) True) (\<lambda>_.
     returnE (0, 0)))"

definition resume_collection ::
  "VectorIndexOptions \<Rightarrow> ('v, 'q) VectorStore \<Rightarrow> VectorIndex \<Rightarrow> string \<Rightarrow> VectorManifestEntry list \<Rightarrow> ('q, int \<times> int) vm" where
  "resume_collection options store index leaseToken manifest =
     bindE (on_out (ListPointManifest store (vi_CollectionName index))) (\<lambda>actual.
     case planVectorResume manifest (vi_CheckpointChunkID index) (vi_CheckpointPoints index) actual of
       Inl e \<Rightarrow> throwE e
     | Inr plan \<Rightarrow>
         let pointsToDelete = rp_OrphanIDs plan @ rp_MismatchedIDs plan in
         bindE (if pointsToDelete \<noteq> [] then on_out (DeletePoints store (vi_CollectionName index) pointsToDelete) else returnE ()) (\<lambda>_.
         bindE (SaveVectorIndexCheckpoint (vi_IngestionRunID index) leaseToken (rp_CheckpointChunkID plan) (rp_CheckpointPoints plan)
           (int (length (rp_OrphanIDs plan))) (int (length (rp_MissingCheckpointIDs plan) + length (rp_MismatchedIDs plan)))
           (xo_LeaseDuration options) True) (\<lambda>_.
         returnE (rp_CheckpointChunkID plan, rp_CheckpointPoints plan))))"

definition prepareCollection ::
  "VectorIndexOptions \<Rightarrow> ('v, 'q) VectorStore \<Rightarrow> VectorIndex \<Rightarrow> string \<Rightarrow> VectorManifestEntry list \<Rightarrow> ('q, int \<times> int) vm" where
  "prepareCollection options store index leaseToken manifest =
     (case validateVectorCheckpoint (vi_CheckpointChunkID index) (vi_CheckpointPoints index) manifest of
        Some e \<Rightarrow> throwE e
      | None \<Rightarrow>
          if vi_CheckpointPoints index = 0 then start_over options store index leaseToken 0
          else bindE (on_out (CollectionExists store (vi_CollectionName index))) (\<lambda>exists.
            if \<not> exists then start_over options store index leaseToken (vi_CheckpointPoints index)
            else resume_collection options store index leaseToken manifest))"

section \<open>Build\<close>

text \<open>One batch: embed, store, checkpoint. The result is the next position.\<close>

definition index_batch ::
  "(string list \<Rightarrow> ('q, 'v list) sem) \<Rightarrow> ('v, 'q) VectorStore \<Rightarrow> VectorIndexOptions \<Rightarrow> string \<Rightarrow> string \<Rightarrow> string \<Rightarrow> int \<Rightarrow> VectorChunk list \<Rightarrow>
   ('q, int \<times> int) vm" where
  "index_batch embedDocs store options ingestionRunID leaseToken collection pointCount chunks =
     bindE (on_out (embedDocs (map vc_Content chunks))) (\<lambda>vectors.
     bindE (guardE (length vectors \<noteq> length chunks)
       (ErrorString (''embedding count mismatch: vectors='' @ FormatInt (int (length vectors)) @ '' chunks='' @ FormatInt (int (length chunks))))) (\<lambda>_.
     bindE (on_out (store_Upsert store collection
       (map2 (\<lambda>c v. \<lparr>vp_ID = vc_ChunkID c, vp_Vector = v, vp_Payload = vectorPayload c\<rparr>) chunks vectors))) (\<lambda>_.
     let afterChunkID = vc_ChunkID (last chunks); points = pointCount + int (length chunks) in
     bindE (SaveVectorIndexCheckpoint ingestionRunID leaseToken afterChunkID points 0 0 (xo_LeaseDuration options) False) (\<lambda>_.
     returnE (afterChunkID, points)))))"

partial_function (option) build_loop ::
  "(string list \<Rightarrow> ('q, 'v list) sem) \<Rightarrow> ('v, 'q) VectorStore \<Rightarrow> VectorIndexOptions \<Rightarrow> string \<Rightarrow> string \<Rightarrow> string \<Rightarrow> int \<Rightarrow> int \<Rightarrow>
   'q vworld \<Rightarrow> ((go_error + int \<times> int) \<times> 'q vworld) option" where
  "build_loop embedDocs store options ingestionRunID leaseToken collection afterChunkID pointCount w =
     (case ListVectorChunks ingestionRunID afterChunkID (xo_BatchSize options) w of
        (Inl e, w1) \<Rightarrow> Some (Inl e, w1)
      | (Inr chunks, w1) \<Rightarrow>
          if chunks = [] then Some (Inr (afterChunkID, pointCount), w1)
          else (case index_batch embedDocs store options ingestionRunID leaseToken collection pointCount chunks w1 of
                  (Inl e, w2) \<Rightarrow> Some (Inl e, w2)
                | (Inr (after', points'), w2) \<Rightarrow>
                    build_loop embedDocs store options ingestionRunID leaseToken collection after' points' w2))"

definition finish_build ::
  "(string \<Rightarrow> string) \<Rightarrow> ('v, 'q) VectorStore \<Rightarrow> VectorIndexOptions \<Rightarrow> VectorIndex \<Rightarrow> VectorIndex \<Rightarrow> string \<Rightarrow> VectorManifestEntry list \<Rightarrow> int \<Rightarrow> int \<Rightarrow>
   ('q, VectorIndex) vm" where
  "finish_build H store options identity index leaseToken manifest afterChunkID pointCount =
     bindE (auditWithManifest H store index manifest True) (\<lambda>audit.
     bindE (guardE (\<not> va_Exact audit \<or> va_ExpectedPointCount audit \<noteq> pointCount)
       (corrupt (''expected='' @ FormatInt (va_ExpectedPointCount audit) @ '' checkpoint='' @ FormatInt pointCount @ '' actual='' @
          FormatInt (va_ActualPointCount audit) @ '' missing='' @ FormatInt (va_MissingPointCount audit) @ '' orphan='' @
          FormatInt (va_OrphanPointCount audit - va_OrphansDeleted audit) @ '' mismatched='' @ FormatInt (va_MismatchedPointCount audit)))) (\<lambda>_.
     bindE (SaveVectorIndexCheckpoint (vi_IngestionRunID identity) leaseToken afterChunkID pointCount (va_OrphanPointCount audit) (va_MissingPointCount audit)
       (xo_LeaseDuration options) True) (\<lambda>_.
     CompleteVectorIndex (vi_IngestionRunID identity) leaseToken pointCount (vectorManifestChecksum H identity manifest))))"

text \<open>The part of \<open>Build\<close> behind the deferred \<open>MarkVectorIndexFailed\<close>.\<close>

definition leased_build ::
  "(string \<Rightarrow> string) \<Rightarrow> (string list \<Rightarrow> ('q, 'v list) sem) \<Rightarrow> ('v, 'q) VectorStore \<Rightarrow> VectorIndexOptions \<Rightarrow> VectorIndex \<Rightarrow> VectorIndex \<Rightarrow> string \<Rightarrow>
   'q vworld \<Rightarrow> ((go_error + VectorIndex) \<times> 'q vworld) option" where
  "leased_build H embedDocs store options identity index leaseToken w =
     (case bindE (ListVectorManifest (vi_IngestionRunID identity)) (\<lambda>manifest.
             bindE (prepareCollection options store index leaseToken manifest) (\<lambda>position. returnE (manifest, position))) w of
        (Inl e, w1) \<Rightarrow> Some (Inl e, w1)
      | (Inr (manifest, afterChunkID, pointCount), w1) \<Rightarrow>
          (case build_loop embedDocs store options (vi_IngestionRunID identity) leaseToken (vi_CollectionName identity) afterChunkID pointCount w1 of
             None \<Rightarrow> None
           | Some (Inl e, w2) \<Rightarrow> Some (Inl e, w2)
           | Some (Inr (after', points'), w2) \<Rightarrow> Some (finish_build H store options identity index leaseToken manifest after' points' w2)))"

definition mark_on_error ::
  "string \<Rightarrow> string \<Rightarrow> ((go_error + 'a) \<times> 'q vworld) option \<Rightarrow> ((go_error + 'a) \<times> 'q vworld) option" where
  "mark_on_error ingestionRunID leaseToken r =
     (case r of
        Some (Inl e, w) \<Rightarrow> Some (Inl e, snd (MarkVectorIndexFailed ingestionRunID leaseToken e w))
      | _ \<Rightarrow> r)"

text \<open>A completed index is audited and returned.\<close>

definition existing_index :: "(string \<Rightarrow> string) \<Rightarrow> ('v, 'q) VectorIndexer \<Rightarrow> string \<Rightarrow> ('q, VectorIndex option) vm" where
  "existing_index H i ingestionRunID =
     bindE (catchE (LoadVectorIndex ingestionRunID)) (\<lambda>r.
     case r of
       Inr existing \<Rightarrow>
         if vi_Status existing = ''completed'' then
           bindE (validateIdentity (xi_options i) existing) (\<lambda>_.
           bindE (vector_Audit H i ingestionRunID False) (\<lambda>audit.
           bindE (guardE (\<not> va_Exact audit) (corrupt ''completed index audit failed'')) (\<lambda>_.
           returnE (Some existing))))
         else returnE None
     | Inl e \<Rightarrow> if errors_is e ErrIndexNotReady then returnE None else throwE e)"

definition build_identity :: "(string \<Rightarrow> string) \<Rightarrow> VectorIndexOptions \<Rightarrow> string \<Rightarrow> VectorIndex" where
  "build_identity H options ingestionRunID =
     \<lparr>vi_IngestionRunID = ingestionRunID, vi_IndexVersion = VectorIndexVersion, vi_EmbeddingModel = xo_EmbeddingModel options,
      vi_EmbeddingRevision = xo_EmbeddingRevision options, vi_VectorDimension = xo_VectorDimension options, vi_DistanceMetric = ''Cosine'',
      vi_CollectionName = vectorCollectionName H ingestionRunID, vi_Status = [], vi_PointCount = 0, vi_CheckpointChunkID = 0, vi_CheckpointPoints = 0,
      vi_BuildAttempt = 0, vi_LeaseOwner = [], vi_LeaseExpiresAt = None, vi_HeartbeatAt = None, vi_LastReconciledAt = None, vi_OrphanPointCount = 0,
      vi_MissingPointCount = 0, vi_IndexChecksum = [], vi_StartedAt = zero_time, vi_CompletedAt = None\<rparr>"

definition acquire_build :: "(string \<Rightarrow> string) \<Rightarrow> VectorIndexOptions \<Rightarrow> string \<Rightarrow> ('q, string \<times> VectorIndex) vm" where
  "acquire_build H options ingestionRunID =
     bindE newVectorLeaseToken (\<lambda>leaseToken.
     bindE (AcquireVectorIndex (build_identity H options ingestionRunID) (xo_LeaseOwner options) leaseToken (xo_LeaseDuration options)) (\<lambda>index.
     returnE (leaseToken, index)))"

partial_function (option) Build ::
  "(string \<Rightarrow> string) \<Rightarrow> ('v, 'q) VectorIndexer \<Rightarrow> string \<Rightarrow> 'q vworld \<Rightarrow> ((go_error + VectorIndex) \<times> 'q vworld) option" where
  "Build H i input w =
     (let ingestionRunID = TrimSpace input; options = xi_options i in
      case (xi_embedder i, xi_store i) of
        (Some embedDocs, Some store) \<Rightarrow>
          if ingestionRunID = [] \<or> xo_BatchSize options \<le> 0 \<or> xo_VectorDimension options \<le> 0
          then Some (Inl (DetailError RetrievalErrInvalidInput ''incomplete vector index configuration''), w)
          else (case existing_index H i ingestionRunID w of
                  (Inl e, w1) \<Rightarrow> Some (Inl e, w1)
                | (Inr (Some existing), w1) \<Rightarrow> Some (Inr existing, w1)
                | (Inr None, w1) \<Rightarrow>
                    (case acquire_build H options ingestionRunID w1 of
                       (Inl e, w2) \<Rightarrow> Some (Inl e, w2)
                     | (Inr (leaseToken, index), w2) \<Rightarrow>
                         if vi_Status index = ''completed'' then Build H i ingestionRunID w2
                         else mark_on_error ingestionRunID leaseToken
                           (leased_build H embedDocs store options (build_identity H options ingestionRunID) index leaseToken w2)))
      | _ \<Rightarrow> Some (Inl (DetailError RetrievalErrInvalidInput ''incomplete vector index configuration''), w))"

end
