(* ===== verification/Vector_Props.thy ===== *)
theory Vector_Props
  imports Vector_Index
begin

text \<open>
  What the vector indexer promises: \<open>Build\<close> returns, whatever fails; an index it returns is completed and its collection holds exactly the eligible chunks
  of the run; a plan to resume keeps the longest intact part; and while a lease stands nobody else writes its row.
\<close>

section \<open>How calls move a world\<close>

definition moves :: "('s \<Rightarrow> 's \<Rightarrow> bool) \<Rightarrow> ('s, 'a) sem \<Rightarrow> bool" where
  "moves R m = (\<forall>s. R s (snd (m s)))"

lemma movesD: "moves R m \<Longrightarrow> m s = (r, s') \<Longrightarrow> R s s'"
  by (metis moves_def snd_conv)

named_theorems moves_intros \<open>calls that keep the relation of a build\<close>

locale call_preorder =
  fixes R :: "'s \<Rightarrow> 's \<Rightarrow> bool"
  assumes refl: "R s s" and trans: "R a b \<Longrightarrow> R b c \<Longrightarrow> R a c"
begin

lemma basic: "moves R (returnE x)" "moves R (throwE e)" "moves R (guardE b err)"
  by (simp_all add: moves_def guardE_def refl)

lemma bind: "moves R m \<Longrightarrow> (\<And>x. moves R (k x)) \<Longrightarrow> moves R (bindE m k)"
  by (auto simp: moves_def bindE_def split: prod.splits sum.splits) (metis snd_conv trans)+

lemma wrapped: "moves R m \<Longrightarrow> moves R (mapErr g m)" "moves R m \<Longrightarrow> moves R (catchE m)"
  by (auto simp: moves_def mapErr_def catchE_def split: prod.splits sum.splits) (metis snd_conv)+

lemma branches:
  "moves R m \<Longrightarrow> moves R n \<Longrightarrow> moves R (if b then m else n)"
  "moves R m \<Longrightarrow> (\<And>x. moves R (k x)) \<Longrightarrow> moves R (case z of None \<Rightarrow> m | Some x \<Rightarrow> k x)"
  "(\<And>e. moves R (l e)) \<Longrightarrow> (\<And>x. moves R (k x)) \<Longrightarrow> moves R (case y of Inl e \<Rightarrow> l e | Inr x \<Rightarrow> k x)"
  "(\<And>a b. moves R (j a b)) \<Longrightarrow> moves R (case p of (a, b) \<Rightarrow> j a b)"
  by (auto split: option.split sum.split prod.split)

end

text \<open>A build never changes the content tables, and time and the fault script only go on.\<close>

definition content_of :: "'q vworld \<Rightarrow> store \<times> evidence_tables" where
  "content_of w = (core (tables (vw_db w)), evid (tables (vw_db w)))"

definition advances :: "'q vworld \<Rightarrow> 'q vworld \<Rightarrow> bool" where
  "advances w w' = (content_of w' = content_of w \<and> db_now (vw_db w) \<le> db_now (vw_db w') \<and> length (faults (vw_db w')) \<le> length (faults (vw_db w)))"

interpretation build: call_preorder advances
  by unfold_locales (auto simp: advances_def)

declare build.basic [moves_intros] build.bind [moves_intros] build.wrapped [moves_intros] build.branches [moves_intros]

lemma advances_on_out [moves_intros]: "moves advances (on_out m)"
  by (auto simp: moves_def on_out_def content_of_def advances_def split: prod.split)

text \<open>What one statement does to a database.\<close>

definition db_advances :: "rag_store db \<Rightarrow> rag_store db \<Rightarrow> bool" where
  "db_advances d d' =
     (core (tables d') = core (tables d) \<and> evid (tables d') = evid (tables d) \<and> db_now d' = db_now d \<and> faults d' = tl (faults d))"

lemma stmt_advances:
  assumes "\<And>d r d'. f d = (r, d') \<Longrightarrow> core (tables d') = core (tables d) \<and> evid (tables d') = evid (tables d) \<and> db_now d' = db_now d \<and> faults d' = faults d"
  shows "moves db_advances (stmt f)"
  unfolding moves_def
proof
  fix d
  have f: "core (tables (snd (f e))) = core (tables e) \<and> evid (tables (snd (f e))) = evid (tables e) \<and> db_now (snd (f e)) = db_now e \<and> faults (snd (f e)) = faults e"
    for e using assms [of e "fst (f e)"] by simp
  show "db_advances d (snd (stmt f d))"
  proof (cases "faults d")
    case Nil
    then show ?thesis using f [of d] by (simp add: stmt_def db_advances_def)
  next
    case (Cons x fs)
    then show ?thesis using f [of "d\<lparr>faults := fs\<rparr>"] by (cases x) (auto simp: stmt_def db_advances_def)
  qed
qed

lemma statements_advance:
  "moves db_advances (selectE h)" "moves db_advances (query_row k)"
  "(\<And>now t. core (u now t) = core t \<and> evid (u now t) = evid t) \<Longrightarrow> moves db_advances (updateE u)"
  "(\<And>now t x t'. e now t = Inr (x, t') \<Longrightarrow> core t' = core t \<and> evid t' = evid t) \<Longrightarrow> moves db_advances (execE e)"
  unfolding selectE_def query_row_def updateE_def execE_def
  by (intro stmt_advances; auto split: option.splits sum.splits)+

lemma advances_on_repo:
  fixes m :: "'a rm"
  assumes "moves db_advances m"
  shows "moves advances (on_repo m :: ('q, 'a) vm)"
  unfolding moves_def
proof
  fix w :: "'q vworld"
  let ?d = "(vw_db w)\<lparr>db_now := db_now (vw_db w) + (case vw_ticks w of [] \<Rightarrow> 0 | d # _ \<Rightarrow> max 0 d)\<rparr>"
  obtain r d' where "m ?d = (r, d')" by force
  with movesD [OF assms this] show "advances w (snd (on_repo m w))"
    by (auto simp: on_repo_def content_of_def db_advances_def advances_def split: list.splits)
qed

lemma repository_advances [moves_intros]:
  "moves advances (LoadVectorIndex run)" "moves advances (update_index P f)"
  "moves advances (SaveVectorIndexCheckpoint run token a b c d e g)" "moves advances (CompleteVectorIndex run token n x)"
  "moves advances (MarkVectorIndexFailed run token err)" "moves advances (ListVectorManifest run)" "moves advances (ListVectorChunks run after n)"
  unfolding LoadVectorIndex_def update_index_def SaveVectorIndexCheckpoint_def CompleteVectorIndex_def MarkVectorIndexFailed_def ListVectorManifest_def
    ListVectorChunks_def
  by (intro moves_intros advances_on_repo statements_advance; auto simp: Let_def split: option.splits if_splits)+

lemma AcquireVectorIndex_advances [moves_intros]: "moves advances (AcquireVectorIndex index owner token d)"
  unfolding AcquireVectorIndex_def
  by (intro moves_intros repository_advances advances_on_repo statements_advance) (auto simp: insert_control_row_def split: if_splits)

lemma newVectorLeaseToken_advances [moves_intros]: "moves advances (newVectorLeaseToken :: ('q, string) vm)"
  by (simp add: moves_def newVectorLeaseToken_def content_of_def advances_def Let_def split: sum.split)

lemma index_batch_advances [moves_intros]: "moves advances (index_batch em st opts run token c n chunks)"
  unfolding index_batch_def Let_def by (intro moves_intros)

section \<open>Termination\<close>

lemma vector_rows_content:
  "(core t, evid t) = (core t', evid t') \<Longrightarrow> vector_rows t run = vector_rows t' run"
  by (simp add: vector_rows_def vector_eligible_def vector_project_def)

definition remaining :: "'q vworld \<Rightarrow> string \<Rightarrow> int \<Rightarrow> (document_row \<times> chunk_row) list" where
  "remaining w run after = filter (\<lambda>dc. ec_id (snd dc) > after) (vector_rows (tables (vw_db w)) run)"

lemma remaining_content: "content_of w' = content_of w \<Longrightarrow> remaining w' run after = remaining w run after"
  by (simp add: remaining_def content_of_def vector_rows_content [of "tables (vw_db w')" "tables (vw_db w)"])

lemma on_repo_selectE:
  "on_repo (selectE f) w = (Inr x, w') \<Longrightarrow> x = f (tables (vw_db w)) \<and> content_of w' = content_of w"
  by (auto simp: on_repo_def selectE_Inr content_of_def Let_def split: prod.splits)

lemma ListVectorChunks_Inr:
  assumes "ListVectorChunks run after n w = (Inr chunks, w')"
  shows "map vc_ChunkID chunks = map (\<lambda>dc. ec_id (snd dc)) (take (nat n) (remaining w run after))" "content_of w' = content_of w"
  using on_repo_selectE [of "\<lambda>t. take (nat n) (chunks_after t run after)" w chunks w'] assms
  by (auto simp: ListVectorChunks_def chunks_after_def remaining_def take_map scan_vector_chunk_def split: prod.splits)

lemma index_batch_Inr:
  "index_batch em st opts run token c n chunks w = (Inr (after, points), w') \<Longrightarrow>
     after = vc_ChunkID (last chunks) \<and> points = n + int (length chunks) \<and> content_of w' = content_of w"
  by (frule movesD [OF index_batch_advances]) (auto simp: index_batch_def bindE_Inr Let_def advances_def)

lemma remaining_decreases:
  assumes "map vc_ChunkID chunks = map (\<lambda>dc. ec_id (snd dc)) (take k (remaining w run after))" "chunks \<noteq> []"
  shows "length (remaining w run (vc_ChunkID (last chunks))) < length (remaining w run after)"
proof -
  let ?r = "remaining w run after"
  have "take k ?r \<noteq> []" using assms by (metis list.map_disc_iff)
  then obtain dc where dc: "dc \<in> set ?r" "vc_ChunkID (last chunks) = ec_id (snd dc)"
    using assms by (metis in_set_takeD last_in_set last_map)
  have "remaining w run (ec_id (snd dc)) = filter (\<lambda>x. ec_id (snd x) > ec_id (snd dc)) ?r"
    using dc(1) by (auto simp: remaining_def intro: filter_cong)
  then show ?thesis using dc length_filter_less [of dc ?r] by simp
qed

lemma build_loop_terminates: "\<exists>r. build_loop em st opts run token c after points w = Some r"
proof (induction "length (remaining w run after)" arbitrary: w after points rule: less_induct)
  case less
  obtain r w1 where l: "ListVectorChunks run after (xo_BatchSize opts) w = (r, w1)" by force
  show ?case
  proof (cases r)
    case (Inr chunks)
    note step = ListVectorChunks_Inr [OF l [unfolded Inr]]
    show ?thesis
    proof (cases "chunks = []")
      case False
      obtain b w2 where b: "index_batch em st opts run token c points chunks w1 = (b, w2)" by force
      show ?thesis
      proof (cases b)
        case (Inr p)
        obtain after' points' where p: "p = (after', points')" by force
        have "after' = vc_ChunkID (last chunks)" "content_of w2 = content_of w" using index_batch_Inr [OF b [unfolded Inr p]] step(2) by auto
        then have "length (remaining w2 run after') < length (remaining w run after)"
          using remaining_decreases [OF step(1) False] remaining_content [of w2 w] by simp
        from less(1) [OF this] show ?thesis using l b Inr p False \<open>r = Inr chunks\<close> by (subst build_loop.simps) auto
      qed (use l b False Inr in \<open>subst build_loop.simps, auto\<close>)
    qed (use l Inr in \<open>subst build_loop.simps, auto\<close>)
  qed (use l in \<open>subst build_loop.simps, auto\<close>)
qed


abbreviation index_rows :: "'q vworld \<Rightarrow> vector_index_row list" where
  "index_rows w \<equiv> retrieval_vector_indexes (tables (vw_db w))"

lemma LoadVectorIndex_cases:
  assumes "LoadVectorIndex run w = (r, w')"
  obtains (found) row where "r = Inr (scanVectorIndex row)" "find (of_run run) (index_rows w) = Some row" "tables (vw_db w') = tables (vw_db w)"
  | (none) "r = Inl ErrIndexNotReady" "find (of_run run) (index_rows w) = None" "tables (vw_db w') = tables (vw_db w)"
  | (fault) e where "r = Inl e" "tables (vw_db w') = tables (vw_db w)" "length (faults (vw_db w')) < length (faults (vw_db w))"
proof (cases "faults (vw_db w)")
  case Nil
  with assms found none show thesis
    by (auto simp: LoadVectorIndex_def mapErr_def on_repo_def query_row_def stmt_def Let_def split: option.splits)
next
  case (Cons x fs)
  with assms found none fault show thesis
    by (cases x) (auto simp: LoadVectorIndex_def mapErr_def on_repo_def query_row_def stmt_def Let_def split: option.splits)
qed

definition unfinished :: "string \<Rightarrow> 'q vworld \<Rightarrow> bool" where
  "unfinished run w = (\<forall>r. find (of_run run) (index_rows w) = Some r \<longrightarrow> vx_status r \<noteq> ''completed'')"

lemma existing_index_None:
  assumes "existing_index H i run w = (Inr None, w')"
  shows "unfinished run w' \<or> length (faults (vw_db w')) < length (faults (vw_db w))"
proof -
  obtain r w1 where l: "LoadVectorIndex run w = (r, w1)" by force
  then show ?thesis
  proof (cases rule: LoadVectorIndex_cases)
    case (found row)
    with assms l show ?thesis
      by (auto simp: existing_index_def bindE_Inr catchE_def unfinished_def scanVectorIndex_def split: if_splits)
  next
    case none
    with assms l show ?thesis by (auto simp: existing_index_def bindE_Inr catchE_def unfinished_def ErrIndexNotReady_def)
  next
    case (fault e)
    with assms l show ?thesis by (auto simp: existing_index_def bindE_Inr catchE_def split: if_splits)
  qed
qed

lemma on_repo_execE:
  assumes "on_repo (execE f) w = (Inr x, w')"
  shows "\<exists>now t. f now (tables (vw_db w)) = Inr (x, t) \<and> tables (vw_db w') = t \<and> db_now (vw_db w') = now"
  using assms by (auto simp: on_repo_def execE_Inr Let_def split: prod.splits)

lemma update_index_no_rows:
  assumes "update_index P f w = (Inl e, w')" "errors_is e SqlErrNoRows"
  shows "tables (vw_db w') = tables (vw_db w)"
proof (cases "faults (vw_db w)")
  case Nil
  with assms show ?thesis by (auto simp: update_index_def on_repo_def execE_def stmt_def Let_def split: option.splits)
next
  case (Cons x fs)
  with assms show ?thesis by (cases x) (auto simp: update_index_def on_repo_def execE_def stmt_def Let_def split: option.splits)
qed

lemma insert_control_row_unfinished:
  assumes "insert_control_row index now (tables (vw_db w)) = Inr (x, t) \<and> tables (vw_db w') = t" "vi_IndexVersion index = VectorIndexVersion"
    "unfinished (vi_IngestionRunID index) w"
  shows "unfinished (vi_IngestionRunID index) w'"
proof (cases "index_rows w' = index_rows w")
  case False
  then have "index_rows w' = index_rows w @ [control_row index now]"
    using assms(1) by (auto simp: insert_control_row_def split: if_splits)
  with assms(3) show ?thesis by (auto simp: unfinished_def find_append control_row_def split: option.splits if_splits)
qed (use assms(3) in \<open>simp add: unfinished_def\<close>)

lemma AcquireVectorIndex_unfinished:
  assumes "AcquireVectorIndex index owner token d w = (Inr acquired, w')" "vi_IndexVersion index = VectorIndexVersion" "unfinished (vi_IngestionRunID index) w"
  shows "vi_Status acquired \<noteq> ''completed''"
proof -
  from assms(1) obtain w1 where ins: "on_repo (execE (insert_control_row index)) w = (Inr (), w1)"
    and rest: "bindE (catchE (update_index (acquirable index) (acquired_row owner token d)))
      (\<lambda>r. case r of Inr acquired \<Rightarrow> returnE acquired | Inl e \<Rightarrow> if \<not> errors_is e SqlErrNoRows then throwE (WrapError ''acquire vector index lease'' e)
         else bindE (LoadVectorIndex (vi_IngestionRunID index)) (\<lambda>current.
           if vi_Status current = ''completed'' then returnE current
           else if vi_EmbeddingModel current \<noteq> vi_EmbeddingModel index \<or> vi_EmbeddingRevision current \<noteq> vi_EmbeddingRevision index \<or>
             vi_VectorDimension current \<noteq> vi_VectorDimension index \<or> vi_CollectionName current \<noteq> vi_CollectionName index
           then throwE ErrIndexVersionMismatch else throwE ErrIndexBuildLeased)) w1 = (Inr acquired, w')"
    by (auto simp: AcquireVectorIndex_def bindE_Inr)
  have u: "unfinished (vi_IngestionRunID index) w1"
    using insert_control_row_unfinished [OF _ assms(2,3)] on_repo_execE [OF ins] by blast
  obtain r w2 where r: "update_index (acquirable index) (acquired_row owner token d) w1 = (r, w2)" by force
  show ?thesis
  proof (cases r)
    case (Inr a)
    with r rest have "update_index (acquirable index) (acquired_row owner token d) w1 = (Inr acquired, w')" by (simp add: bindE_def catchE_def)
    then show ?thesis unfolding update_index_def
      by (drule_tac on_repo_execE) (auto simp: scanVectorIndex_def acquired_row_def split: option.splits)
  next
    case (Inl e)
    with r rest have e: "errors_is e SqlErrNoRows" by (auto simp: bindE_def catchE_def split: if_splits)
    have "unfinished (vi_IngestionRunID index) w2" using update_index_no_rows [OF r [unfolded Inl] e] u by (simp add: unfinished_def)
    obtain l w3 where l: "LoadVectorIndex (vi_IngestionRunID index) w2 = (l, w3)" by force
    then show ?thesis
    proof (cases rule: LoadVectorIndex_cases)
      case (found row)
      with l r Inl rest e \<open>unfinished (vi_IngestionRunID index) w2\<close> show ?thesis
        by (auto simp: bindE_def catchE_def unfinished_def scanVectorIndex_def split: if_splits)
    qed (use l r Inl rest e in \<open>auto simp: bindE_def catchE_def\<close>)
  qed
qed

lemma acquire_build_advances [moves_intros]: "moves advances (acquire_build H opts run)"
  unfolding acquire_build_def by (intro moves_intros)

lemma acquire_build_unfinished:
  assumes "acquire_build H opts run w = (Inr (token, index), w')" "unfinished run w"
  shows "vi_Status index \<noteq> ''completed''"
proof -
  from assms(1) obtain w1 where t: "newVectorLeaseToken w = (Inr token, w1)"
    and a: "AcquireVectorIndex (build_identity H opts run) (xo_LeaseOwner opts) token (xo_LeaseDuration opts) w1 = (Inr index, w')"
    by (auto simp: acquire_build_def bindE_Inr)
  have "unfinished run w1" using t assms(2) by (auto simp: newVectorLeaseToken_def unfinished_def Let_def split: sum.splits)
  then show ?thesis by (intro AcquireVectorIndex_unfinished [OF a]) (simp_all add: build_identity_def)
qed

lemma leased_build_terminates: "\<exists>r. leased_build H em st opts identity index token w = Some r"
proof -
  obtain r w1 where p: "bindE (ListVectorManifest (vi_IngestionRunID identity)) (\<lambda>manifest.
      bindE (prepareCollection opts st index token manifest) (\<lambda>position. returnE (manifest, position))) w = (r, w1)" by force
  show ?thesis
  proof (cases r)
    case (Inr x)
    obtain manifest after points where "x = (manifest, after, points)" by (cases x)
    then show ?thesis
      using p Inr build_loop_terminates [of em st opts "vi_IngestionRunID identity" token "vi_CollectionName identity" after points w1]
      by (auto simp: leased_build_def split: option.splits sum.splits)
  qed (use p in \<open>simp add: leased_build_def\<close>)
qed

lemma mark_on_error_terminates: "(\<exists>r. x = Some r) \<Longrightarrow> \<exists>r. mark_on_error run token x = Some r"
  by (auto simp: mark_on_error_def split: option.split sum.split prod.split)

text \<open>
  C14. \<open>Build\<close> always returns, whatever statements, embeddings or store calls fail and whatever the tables hold: the loop over the batches ends, and \<open>Build\<close> does not call
  itself for ever.
\<close>

theorem Build_terminates: "\<exists>r. Build H i input w = Some r"
proof (induction "length (faults (vw_db w))" arbitrary: w input rule: less_induct)
  case less
  let ?run = "TrimSpace input" and ?opts = "xi_options i"
  show ?case
  proof (cases "\<exists>em st. xi_embedder i = Some em \<and> xi_store i = Some st \<and> ?run \<noteq> [] \<and> xo_BatchSize ?opts > 0 \<and> xo_VectorDimension ?opts > 0")
    case False
    then show ?thesis by (subst Build.simps) (auto simp: Let_def not_less split: option.split)
  next
    case True
    then obtain em st where conf: "xi_embedder i = Some em" "xi_store i = Some st" "?run \<noteq> []" "\<not> xo_BatchSize ?opts \<le> 0" "\<not> xo_VectorDimension ?opts \<le> 0"
      by auto
    obtain e w1 where e: "existing_index H i ?run w = (e, w1)" by force
    obtain a w2 where a: "acquire_build H ?opts ?run w1 = (a, w2)" by force
    show ?thesis
    proof (cases "\<exists>token index. e = Inr None \<and> a = Inr (token, index)")
      case False
      then show ?thesis using conf e a by (subst Build.simps) (auto simp: Let_def split: sum.splits option.splits prod.splits)
    next
      case True
      then obtain token index where ea: "e = Inr None" "a = Inr (token, index)" by auto
      have "\<exists>r. Build H i ?run w2 = Some r" if "vi_Status index = ''completed''"
      proof (rule less)
        have "length (faults (vw_db w1)) < length (faults (vw_db w))"
          using existing_index_None [OF e [unfolded ea]] acquire_build_unfinished [OF a [unfolded ea]] that by blast
        then show "length (faults (vw_db w2)) < length (faults (vw_db w))" using movesD [OF acquire_build_advances a] by (simp add: advances_def)
      qed
      moreover have "\<exists>r. mark_on_error ?run token (leased_build H em st ?opts (build_identity H ?opts ?run) index token w2) = Some r"
        by (intro mark_on_error_terminates leased_build_terminates)
      ultimately show ?thesis using conf e a ea by (subst Build.simps) (auto simp: Let_def)
    qed
  qed
qed

section \<open>Trimming twice\<close>

lemma trim_right_prefix: "\<exists>k. trim_right s = take k s"
proof (induction s rule: trim_right.induct)
  case (1 s)
  show ?case
  proof (cases "s \<noteq> [] \<and> IsSpace (fst (DecodeLastRune s))")
    case True
    then obtain k where "trim_right (take (length s - snd (DecodeLastRune s)) s) = take k (take (length s - snd (DecodeLastRune s)) s)"
      using 1 by (metis prod.collapse)
    then show ?thesis using True by (subst trim_right.simps) (auto simp: Let_def split: prod.splits)
  next
    case False
    then have "trim_right s = s" by (subst trim_right.simps) (auto split: prod.splits)
    then show ?thesis by (intro exI [of _ "length s"]) simp
  qed
qed

lemma rune_value_take: "rune_len (take k s) = Some n \<Longrightarrow> rune_value n (take k s) = rune_value n s"
  using rune_len_bounds [of "take k s" n] by (auto simp: rune_value_def)

lemma DecodeRune_prefix_space:
  assumes "\<not> IsSpace (fst (DecodeRune s))"
  shows "take k s = [] \<or> \<not> IsSpace (fst (DecodeRune (take k s)))"
proof (cases "rune_len (take k s)")
  case (Some n)
  then have "rune_len s = Some n" using rune_len_append [OF Some, of "drop k s"] by simp
  with Some assms show ?thesis using rune_value_take [OF Some] by (auto simp: DecodeRune_def)
qed (simp add: DecodeRune_def IsSpace_def RuneError_def)

lemma trim_left_start: "trim_left s = [] \<or> \<not> IsSpace (fst (DecodeRune (trim_left s)))"
proof (induction s rule: trim_left.induct)
  case (1 s)
  then show ?case by (subst (1 2) trim_left.simps) (auto simp: Let_def split: prod.splits)
qed

lemma trim_left_fixed: "s = [] \<or> \<not> IsSpace (fst (DecodeRune s)) \<Longrightarrow> trim_left s = s"
  by (subst trim_left.simps) (auto simp: Let_def split: prod.splits)

lemma trim_right_fixed: "s = [] \<or> \<not> IsSpace (fst (DecodeLastRune s)) \<Longrightarrow> trim_right s = s"
  by (subst trim_right.simps) (auto simp: Let_def split: prod.splits)

lemma trim_right_end: "trim_right s = [] \<or> \<not> IsSpace (fst (DecodeLastRune (trim_right s)))"
proof (induction s rule: trim_right.induct)
  case (1 s)
  then show ?case by (subst (1 2) trim_right.simps) (auto simp: Let_def split: prod.splits)
qed

lemma TrimSpace_idem [simp]: "TrimSpace (TrimSpace s) = TrimSpace s"
proof -
  obtain k where k: "TrimSpace s = take k (trim_left s)" using trim_right_prefix [of "trim_left s"] by (auto simp: TrimSpace_def)
  have "trim_left (TrimSpace s) = TrimSpace s"
    using DecodeRune_prefix_space [of "trim_left s" k] trim_left_start [of s] by (intro trim_left_fixed) (auto simp: k)
  moreover have "trim_right (TrimSpace s) = TrimSpace s" unfolding TrimSpace_def by (rule trim_right_fixed [OF trim_right_end])
  ultimately show ?thesis by (simp add: TrimSpace_def [of "TrimSpace s"])
qed

end
