(* ===== verification/Vector_Exact.thy ===== *)
theory Vector_Exact
  imports Vector_Props
begin

text \<open>
  A vector index that \<open>Build\<close> returns is exact. What is used of the vector store are the documented effects of its calls, stated over a view of the store: for every
  collection that exists, the points it holds. Nothing is assumed of calls that fail.
\<close>

section \<open>The documented vector store\<close>

definition point_hash :: "'v VectorPoint \<Rightarrow> string" where
  "point_hash p = (case map_of (vp_Payload p) ''content_hash'' of Some (JStr h) \<Rightarrow> h | _ \<Rightarrow> [])"

definition stored_hashes :: "(int \<rightharpoonup> 'v VectorPoint) \<Rightarrow> int \<rightharpoonup> string" where
  "stored_hashes m = map_option point_hash \<circ> m"

definition store_documented :: "('v, 'q) VectorStore \<Rightarrow> ('q \<Rightarrow> string \<Rightarrow> (int \<rightharpoonup> 'v VectorPoint) option) \<Rightarrow> bool" where
  "store_documented st V =
     ((\<forall>c n meta q q'. RecreateCollection st c n meta q = (Inr (), q') \<longrightarrow> V q' = (V q)(c := Some Map.empty)) \<and>
      (\<forall>c q b q'. CollectionExists st c q = (Inr b, q') \<longrightarrow> V q' = V q \<and> b = (V q c \<noteq> None)) \<and>
      (\<forall>c field schema q q'. CreatePayloadIndex st c field schema q = (Inr (), q') \<longrightarrow> V q' = V q) \<and>
      (\<forall>c ps q q'. store_Upsert st c ps q = (Inr (), q') \<longrightarrow>
         (\<exists>m. V q c = Some m \<and> V q' = (V q)(c := Some (m ++ map_of (rev (map (\<lambda>p. (vp_ID p, p)) ps)))))) \<and>
      (\<forall>c q es q'. ListPointManifest st c q = (Inr es, q') \<longrightarrow>
         V q' = V q \<and> (\<exists>m. V q c = Some m \<and> distinct (map me_ChunkID es) \<and> entries es = stored_hashes m)) \<and>
      (\<forall>c ids q q'. DeletePoints st c ids q = (Inr (), q') \<longrightarrow>
         (\<exists>m. V q c = Some m \<and> V q' = (V q)(c := Some (m |` (- set ids))))))"

lemma storeD:
  assumes "store_documented st V"
  shows "RecreateCollection st c n meta q = (Inr u, q') \<Longrightarrow> V q' = (V q)(c := Some Map.empty)"
    "CollectionExists st c q = (Inr b, q') \<Longrightarrow> V q' = V q \<and> b = (V q c \<noteq> None)"
    "CreatePayloadIndex st c field schema q = (Inr u, q') \<Longrightarrow> V q' = V q"
    "store_Upsert st c ps q = (Inr u, q') \<Longrightarrow> \<exists>m. V q c = Some m \<and> V q' = (V q)(c := Some (m ++ map_of (rev (map (\<lambda>p. (vp_ID p, p)) ps))))"
    "ListPointManifest st c q = (Inr es, q') \<Longrightarrow> V q' = V q \<and> (\<exists>m. V q c = Some m \<and> distinct (map me_ChunkID es) \<and> entries es = stored_hashes m)"
    "DeletePoints st c ids q = (Inr u, q') \<Longrightarrow> \<exists>m. V q c = Some m \<and> V q' = (V q)(c := Some (m |` (- set ids)))"
  using assms by (auto simp: store_documented_def)

section \<open>The audit\<close>

lemma entries_None: "entries es i = None \<longleftrightarrow> i \<notin> me_ChunkID ` set es"
  by (force simp: entries_def map_of_eq_None_iff)

lemma entries_distinct: "distinct (map me_ChunkID es) \<Longrightarrow> e \<in> set es \<Longrightarrow> entries es (me_ChunkID e) = Some (me_ContentHash e)"
  by (auto simp: entries_def comp_def simp flip: rev_map intro!: map_of_is_SomeI)

text \<open>A comparison without missing and mismatched points, once the orphans are deleted.\<close>

lemma compared_exact:
  assumes "distinct (map me_ChunkID actual)" "entries actual = stored_hashes m"
    and missing: "fst (compareVectorPoints manifest actual) = []" and mismatched: "snd (snd (compareVectorPoints manifest actual)) = []"
  shows "stored_hashes (m |` (- set (fst (snd (compareVectorPoints manifest actual))))) = entries manifest"
proof
  fix i
  let ?orphans = "set (fst (snd (compareVectorPoints manifest actual)))"
  have orphan: "i \<in> ?orphans \<longleftrightarrow> i \<in> me_ChunkID ` set actual \<and> entries manifest i = None"
    by (auto simp: compareVectorPoints_def orphan_ids_def)
  show "stored_hashes (m |` (- ?orphans)) i = entries manifest i"
  proof (cases "entries manifest i")
    case None
    then have "entries actual i = None \<or> i \<in> ?orphans" using orphan by (auto simp: entries_None)
    with None assms(2) show ?thesis by (auto simp: stored_hashes_def restrict_map_def dest!: fun_cong [of _ _ i])
  next
    case (Some h)
    then have "i \<in> me_ChunkID ` set manifest" using entries_None [of manifest i] by simp
    then have "i \<in> me_ChunkID ` set actual" using missing by (auto simp: compareVectorPoints_def filter_empty_conv entries_None)
    then obtain p where p: "p \<in> set actual" "me_ChunkID p = i" by auto
    have "entries actual i = Some (me_ContentHash p)" using entries_distinct [OF assms(1) p(1)] p(2) by simp
    moreover have "me_ContentHash p = h"
    proof -
      have "sort (mismatched_ids manifest actual) = []" using mismatched by (simp add: compareVectorPoints_def)
      then have "mismatched_ids manifest actual = []" by (metis length_0_conv length_sort)
      then show ?thesis using p Some by (auto simp: mismatched_ids_def filter_empty_conv)
    qed
    ultimately show ?thesis using Some orphan assms(2) by (auto simp: stored_hashes_def dest: fun_cong [of _ _ i])
  qed
qed

lemma compared_audit_simps:
  "va_Exact (compared_audit report manifest actual deleted index) \<longleftrightarrow>
     fst (compareVectorPoints manifest actual) = [] \<and> int (length (fst (snd (compareVectorPoints manifest actual)))) = deleted \<and>
     snd (snd (compareVectorPoints manifest actual)) = [] \<and> int (length actual) - deleted = int (length manifest) \<and>
     (vi_Status index = ''completed'' \<longrightarrow> vi_PointCount index = int (length manifest) \<and> vi_IndexChecksum index = va_ManifestChecksum report)"
  "va_ExpectedPointCount (compared_audit report manifest actual deleted index) = va_ExpectedPointCount report"
  by (auto simp: compared_audit_def Let_def split: prod.split)

definition holds_exactly :: "('q \<Rightarrow> string \<Rightarrow> (int \<rightharpoonup> 'v VectorPoint) option) \<Rightarrow> 'q vworld \<Rightarrow> string \<Rightarrow> VectorManifestEntry list \<Rightarrow> bool" where
  "holds_exactly V w c manifest = (\<exists>m. V (vw_out w) c = Some m \<and> stored_hashes m = entries manifest)"

lemma on_out_Inr: "on_out m w = (Inr x, w') \<longleftrightarrow> (\<exists>q. m (vw_out w) = (Inr x, q) \<and> w' = w\<lparr>vw_out := q\<rparr>)"
  by (auto simp: on_out_def split: prod.split)

lemma audit_exact:
  assumes doc: "store_documented st V" and run: "auditWithManifest H st index manifest repair w = (Inr audit, w')" and exact: "va_Exact audit"
  shows "holds_exactly V w' (vi_CollectionName index) manifest \<and> vw_db w' = vw_db w \<and> va_ExpectedPointCount audit = int (length manifest) \<and>
    (vi_Status index = ''completed'' \<longrightarrow> vi_PointCount index = int (length manifest) \<and> vi_IndexChecksum index = vectorManifestChecksum H index manifest)"
proof -
  let ?c = "vi_CollectionName index" and ?b = "blank_audit H index manifest"
  let ?rest = "\<lambda>actual. let orphans = fst (snd (compareVectorPoints manifest actual)) in
        if repair \<and> orphans \<noteq> []
        then bindE (on_out (DeletePoints st ?c orphans)) (\<lambda>_. returnE (compared_audit ?b manifest actual (int (length orphans)) index))
        else returnE (compared_audit ?b manifest actual 0 index)"
  from run obtain b q1 where ex: "CollectionExists st ?c (vw_out w) = (Inr b, q1)"
    and k: "(if \<not> b then returnE (?b\<lparr>va_MissingPointCount := int (length manifest), va_MissingPointSample := map me_ChunkID (take vectorAuditSampleLimit manifest)\<rparr>)
      else bindE (on_out (ListPointManifest st ?c)) ?rest) (w\<lparr>vw_out := q1\<rparr>) = (Inr audit, w')"
    unfolding auditWithManifest_def Let_def by (auto simp only: bindE_Inr on_out_Inr)
  have b using k exact by (auto simp: blank_audit_def split: if_splits)
  with k obtain actual q2 where ls: "ListPointManifest st ?c q1 = (Inr actual, q2)" and rest: "?rest actual (w\<lparr>vw_out := q2\<rparr>) = (Inr audit, w')"
    by (auto simp: bindE_Inr on_out_Inr simp del: Let_def)
  obtain m where m: "V q2 ?c = Some m" "distinct (map me_ChunkID actual)" "entries actual = stored_hashes m"
    using storeD(2) [OF doc ex] storeD(5) [OF doc ls] by auto
  let ?orphans = "fst (snd (compareVectorPoints manifest actual))"
  show ?thesis
  proof (cases "repair \<and> ?orphans \<noteq> []")
    case True
    with rest obtain q3 where d: "DeletePoints st ?c ?orphans q2 = (Inr (), q3)" "w' = w\<lparr>vw_out := q3\<rparr>"
      and a: "audit = compared_audit ?b manifest actual (int (length ?orphans)) index"
      by (auto simp: Let_def bindE_Inr on_out_Inr)
    have "V q3 ?c = Some (m |` (- set ?orphans))" using storeD(6) [OF doc d(1)] m(1) by auto
    then show ?thesis using compared_exact [OF m(2,3)] exact d(2) by (auto simp: a compared_audit_simps holds_exactly_def blank_audit_def)
  next
    case False
    with rest have a: "audit = compared_audit ?b manifest actual 0 index" "w' = w\<lparr>vw_out := q2\<rparr>" by (auto simp: Let_def split: if_splits)
    have "m |` (- set ?orphans) = m" using exact a(1) by (auto simp: compared_audit_simps restrict_map_def)
    then have "stored_hashes m = entries manifest" using compared_exact [OF m(2,3), of manifest] exact a(1) by (simp add: compared_audit_simps)
    then show ?thesis using exact m(1) a by (auto simp: compared_audit_simps holds_exactly_def blank_audit_def)
  qed
qed

section \<open>The control row\<close>

text \<open>What never changes of a row, and the row of a run: the primary key makes it unique.\<close>

definition row_identity :: "vector_index_row \<Rightarrow> string \<times> string \<times> string \<times> string \<times> int \<times> string" where
  "row_identity r =
     (vx_ingestion_run_id r, vx_index_version r, vx_embedding_model r, vx_embedding_revision r, vx_vector_dimension r, vx_collection_name r)"

definition keyed_rows :: "vector_index_row list \<Rightarrow> bool" where
  "keyed_rows rows = distinct (map (\<lambda>r. (vx_ingestion_run_id r, vx_index_version r)) rows)"

interpretation identities: call_preorder "\<lambda>w w'. map row_identity (index_rows w') = map row_identity (index_rows w)"
  by unfold_locales auto

abbreviation keeps_identities :: "('q, 'a) vm \<Rightarrow> bool" where
  "keeps_identities \<equiv> moves (\<lambda>w w'. map row_identity (index_rows w') = map row_identity (index_rows w))"

lemmas identities_rules = identities.basic identities.bind identities.wrapped identities.branches

lemma identities_on_out: "keeps_identities (on_out m)"
  by (auto simp: moves_def on_out_def split: prod.split)

lemma tables_stmt:
  assumes "\<And>d. g (tables (snd (f d))) = g (tables d)"
  shows "g (tables (snd (stmt f d))) = g (tables d)"
proof (cases "faults d")
  case Nil
  then show ?thesis using assms by (simp add: stmt_def)
next
  case (Cons x fs)
  then show ?thesis using assms [of "d\<lparr>faults := fs\<rparr>"] by (cases x) (simp_all add: stmt_def)
qed

lemma tables_on_repo:
  "tables (vw_db (snd (on_repo m w))) =
     tables (snd (m ((vw_db w)\<lparr>db_now := db_now (vw_db w) + (case vw_ticks w of [] \<Rightarrow> 0 | d # _ \<Rightarrow> max 0 d)\<rparr>)))"
  by (simp add: on_repo_def Let_def split: prod.split)

lemma identities_stmt:
  assumes "\<And>d. map row_identity (retrieval_vector_indexes (tables (snd (f d)))) = map row_identity (retrieval_vector_indexes (tables d))"
  shows "keeps_identities (on_repo (stmt f))"
  using tables_stmt [where g = "\<lambda>t. map row_identity (retrieval_vector_indexes t)" and f = f, OF assms]
  by (simp add: moves_def tables_on_repo)

lemma map_update_where: "(\<And>r. g (f r) = g r) \<Longrightarrow> map g (update_where P f rows) = map g rows"
  by (simp add: update_where_def)

lemma row_identity_updates:
  "row_identity (acquired_row owner token d now r) = row_identity r" "row_identity (checkpoint_row a b c d e g now r) = row_identity r"
  "row_identity (completed_index_row n x now r) = row_identity r"
  by (simp_all add: row_identity_def acquired_row_def checkpoint_row_def completed_index_row_def)

lemma identities_statements:
  "keeps_identities (on_repo (selectE h))" "keeps_identities (on_repo (query_row k))"
  "(\<And>now t x t'. e now t = Inr (x, t') \<Longrightarrow> map row_identity (retrieval_vector_indexes t') = map row_identity (retrieval_vector_indexes t)) \<Longrightarrow>
     keeps_identities (on_repo (execE e))"
  unfolding selectE_def query_row_def execE_def
  by (intro identities_stmt; force split: option.split sum.split prod.split)+

lemma identities_repository:
  "keeps_identities (LoadVectorIndex run)" "keeps_identities (ListVectorManifest run)" "keeps_identities (ListVectorChunks run after n)"
  "keeps_identities (SaveVectorIndexCheckpoint run token a b c d e g)" "keeps_identities (CompleteVectorIndex run token n x)"
  unfolding LoadVectorIndex_def ListVectorManifest_def ListVectorChunks_def SaveVectorIndexCheckpoint_def CompleteVectorIndex_def update_index_def
  by (intro identities_rules identities_statements; auto simp: Let_def map_update_where row_identity_updates split: if_splits option.splits)+

lemma identities_payload_indexes: "keeps_identities (create_payload_indexes st c names)"
proof (induction st c names rule: create_payload_indexes.induct)
  case (2 st c field schema rest)
  then show ?case unfolding create_payload_indexes.simps by (intro identities_rules identities_on_out)
qed (unfold create_payload_indexes.simps, rule identities_rules)

lemmas identities_calls = identities_rules identities_on_out identities_repository identities_payload_indexes

lemma identities_prepare: "keeps_identities (prepareCollection opts st index token manifest)"
  unfolding prepareCollection_def start_over_def recreateCollection_def resume_collection_def Let_def by (intro identities_calls)

lemma identities_index_batch: "keeps_identities (index_batch em st opts run token c n chunks)"
  unfolding index_batch_def Let_def by (intro identities_calls)

lemma build_loop_kept:
  assumes "build_loop em st opts run token c after points w = Some (r, w')"
  shows "content_of w' = content_of w \<and> map row_identity (index_rows w') = map row_identity (index_rows w)"
  using assms
proof (induction "length (remaining w run after)" arbitrary: w after points rule: less_induct)
  case less
  obtain l w1 where l: "ListVectorChunks run after (xo_BatchSize opts) w = (l, w1)" by force
  have w1: "content_of w1 = content_of w" "map row_identity (index_rows w1) = map row_identity (index_rows w)"
    using movesD [OF repository_advances(7) l] movesD [OF identities_repository(3) l] by (simp_all add: advances_def)
  show ?case
  proof (cases "\<exists>chunks. l = Inr chunks \<and> chunks \<noteq> []")
    case False
    with less(2) l w1 show ?thesis by (subst (asm) build_loop.simps) (auto split: sum.splits)
  next
    case True
    then obtain chunks where chunks: "l = Inr chunks" "chunks \<noteq> []" by auto
    obtain b w2 where b: "index_batch em st opts run token c points chunks w1 = (b, w2)" by force
    have w2: "content_of w2 = content_of w" "map row_identity (index_rows w2) = map row_identity (index_rows w)"
      using movesD [OF index_batch_advances b] movesD [OF identities_index_batch b] w1 by (simp_all add: advances_def)
    show ?thesis
    proof (cases b)
      case (Inl e)
      with less(2) l b chunks w2 show ?thesis by (subst (asm) build_loop.simps) auto
    next
      case (Inr p)
      obtain after' points' where p: "p = (after', points')" by force
      have "length (remaining w2 run after') < length (remaining w run after)"
        using remaining_decreases [OF ListVectorChunks_Inr(1) [OF l [unfolded chunks(1)]] chunks(2)] index_batch_Inr [OF b [unfolded Inr p]]
          remaining_content [OF w2(1)] by simp
      moreover have "build_loop em st opts run token c after' points' w2 = Some (r, w')"
        using less(2) l b chunks Inr p by (subst (asm) build_loop.simps) auto
      ultimately show ?thesis using less(1) w2 by simp
    qed
  qed
qed

section \<open>Exact indexes\<close>

interpretation outside: call_preorder "\<lambda>w w'. vw_out w' = vw_out w"
  by unfold_locales auto

lemma outside_on_repo: "moves (\<lambda>w w'. vw_out w' = vw_out w) (on_repo m)"
  by (simp add: moves_def on_repo_def Let_def split: prod.split)

lemma outside_repository:
  "moves (\<lambda>w w'. vw_out w' = vw_out w) (SaveVectorIndexCheckpoint run token a b c d e g)"
  "moves (\<lambda>w w'. vw_out w' = vw_out w) (CompleteVectorIndex run token n x)"
  unfolding SaveVectorIndexCheckpoint_def CompleteVectorIndex_def update_index_def
  by (intro outside.basic outside.bind outside.wrapped outside_on_repo)+

definition identified :: "string \<Rightarrow> VectorIndex \<Rightarrow> 'q vworld \<Rightarrow> bool" where
  "identified run identity w =
     (\<forall>r\<in>set (index_rows w). of_run run r \<longrightarrow>
        row_identity r = (run, VectorIndexVersion, vi_EmbeddingModel identity, vi_EmbeddingRevision identity, vi_VectorDimension identity, vi_CollectionName identity))"

lemma identified_kept:
  assumes "map row_identity (index_rows w') = map row_identity (index_rows w)" "identified run identity w"
  shows "identified run identity w'"
proof -
  have "row_identity ` set (index_rows w') = row_identity ` set (index_rows w)" using assms(1) by (metis set_map)
  moreover have "row_identity r = row_identity r' \<Longrightarrow> of_run run r = of_run run r'" for r r' by (simp add: row_identity_def of_run_def)
  ultimately show ?thesis using assms(2) unfolding identified_def by (metis (no_types, lifting) imageE imageI)
qed

definition exact_index ::
  "(string \<Rightarrow> string) \<Rightarrow> ('q \<Rightarrow> string \<Rightarrow> (int \<rightharpoonup> 'v VectorPoint) option) \<Rightarrow> 'q vworld \<Rightarrow> string \<Rightarrow> VectorIndex \<Rightarrow> bool" where
  "exact_index H V w run index =
     (let manifest = vector_manifest (tables (vw_db w)) run in
      vi_Status index = ''completed'' \<and> vi_IngestionRunID index = run \<and> index \<in> scanVectorIndex ` set (index_rows w) \<and>
      holds_exactly V w (vi_CollectionName index) manifest \<and> vi_PointCount index = int (length manifest) \<and>
      vi_IndexChecksum index = vectorManifestChecksum H index manifest)"

lemma update_index_Inr:
  assumes "update_index P f w = (Inr index, w')"
  obtains now r where "find (P now) (index_rows w) = Some r" "index = scanVectorIndex (f now r)"
    "index_rows w' = update_where (P now) (f now) (index_rows w)"
proof -
  obtain now t where t: "(case find (P now) (index_rows w) of None \<Rightarrow> Inl SqlErrNoRows
      | Some r \<Rightarrow> Inr (scanVectorIndex (f now r), (tables (vw_db w))\<lparr>retrieval_vector_indexes := update_where (P now) (f now) (index_rows w)\<rparr>)) =
      Inr (index, t)" "tables (vw_db w') = t"
    using on_repo_execE [OF assms [unfolded update_index_def]] by blast
  from t(1) obtain r where r: "find (P now) (index_rows w) = Some r" "index = scanVectorIndex (f now r)"
    "retrieval_vector_indexes t = update_where (P now) (f now) (index_rows w)" by (auto split: option.splits)
  from that [OF r(1,2)] r(3) t(2) show thesis by simp
qed

lemma CompleteVectorIndex_Inr:
  assumes "CompleteVectorIndex run token n x w = (Inr index, w')"
  obtains r now where "r \<in> set (index_rows w)" "of_run run r" "index = scanVectorIndex (completed_index_row n x now r)"
    "completed_index_row n x now r \<in> set (index_rows w')"
proof -
  let ?P = "\<lambda>now r. lease_held run token now r \<and> vx_checkpoint_point_count r = n"
  from assms have "update_index ?P (completed_index_row n x) w = (Inr index, w')" by (simp add: CompleteVectorIndex_def)
  from update_index_Inr [OF this] obtain now r where r: "find (?P now) (index_rows w) = Some r" "index = scanVectorIndex (completed_index_row n x now r)"
    "index_rows w' = update_where (?P now) (completed_index_row n x now) (index_rows w)" .
  then have "r \<in> set (index_rows w)" "?P now r" by (auto simp: find_Some_iff)
  then show thesis using that [of r now] r by (force simp: lease_held_def update_where_def)
qed

lemma vector_manifest_content: "content_of w = content_of w' \<Longrightarrow> vector_manifest (tables (vw_db w)) run = vector_manifest (tables (vw_db w')) run"
  using vector_rows_content [of "tables (vw_db w)" "tables (vw_db w')" run] by (simp add: vector_manifest_def content_of_def)

lemma ListVectorManifest_Inr:
  "ListVectorManifest run w = (Inr manifest, w') \<Longrightarrow> manifest = vector_manifest (tables (vw_db w)) run \<and> content_of w' = content_of w"
  using on_repo_selectE [of "\<lambda>t. vector_manifest t run" w manifest w'] by (auto simp: ListVectorManifest_def)

lemma finish_build_exact:
  assumes doc: "store_documented st V" and run: "finish_build H st opts identity index token manifest after points w = (Inr result, w')"
    and id: "identified (vi_IngestionRunID identity) identity w" "vi_IndexVersion identity = VectorIndexVersion"
      "vi_CollectionName index = vi_CollectionName identity" and manifest: "manifest = vector_manifest (tables (vw_db w)) (vi_IngestionRunID identity)"
  shows "exact_index H V w' (vi_IngestionRunID identity) result"
proof -
  let ?run = "vi_IngestionRunID identity" and ?sum = "vectorManifestChecksum H identity manifest"
  from run obtain audit w1 w2 where a: "auditWithManifest H st index manifest True w = (Inr audit, w1)" "va_Exact audit" "va_ExpectedPointCount audit = points"
    and save: "SaveVectorIndexCheckpoint ?run token after points (va_OrphanPointCount audit) (va_MissingPointCount audit) (xo_LeaseDuration opts) True w1 = (Inr (), w2)"
    and comp: "CompleteVectorIndex ?run token points ?sum w2 = (Inr result, w')"
    by (auto simp: finish_build_def bindE_Inr guardE_def split: if_splits)
  note ex = audit_exact [OF doc a(1,2)]
  have kept: "map row_identity (index_rows w2) = map row_identity (index_rows w)" "vw_out w' = vw_out w1" "content_of w' = content_of w"
    using movesD [OF identities_repository(4) save] movesD [OF outside_repository(1) save] movesD [OF outside_repository(2) comp] ex
      movesD [OF repository_advances(3) save] movesD [OF repository_advances(4) comp] by (simp_all add: advances_def content_of_def)
  from CompleteVectorIndex_Inr [OF comp] obtain r now where r: "r \<in> set (index_rows w2)" "of_run ?run r"
    "result = scanVectorIndex (completed_index_row points ?sum now r)" "completed_index_row points ?sum now r \<in> set (index_rows w')" by blast
  have "row_identity r = (?run, VectorIndexVersion, vi_EmbeddingModel identity, vi_EmbeddingRevision identity, vi_VectorDimension identity, vi_CollectionName identity)"
    using identified_kept [OF kept(1) id(1)] r by (auto simp: identified_def)
  then have "vi_Status result = ''completed''" "vi_IngestionRunID result = ?run" "vi_CollectionName result = vi_CollectionName identity"
    "vi_PointCount result = points" "vi_IndexChecksum result = ?sum" "writeVectorIndexIdentity result = writeVectorIndexIdentity identity"
    using id(2) by (simp_all add: r(3) scanVectorIndex_def completed_index_row_def row_identity_def coalesce_def writeVectorIndexIdentity_def)
  moreover have "result \<in> scanVectorIndex ` set (index_rows w')" using r(3,4) by blast
  ultimately show ?thesis
    using ex a(3) kept(2) id(3) manifest vector_manifest_content [OF kept(3), of ?run]
    by (simp add: exact_index_def Let_def holds_exactly_def vectorManifestChecksum_def)
qed

lemma existing_index_exact:
  assumes doc: "store_documented st V" "xi_store i = Some st" and run: "existing_index H i (TrimSpace input) w = (Inr (Some index), w')"
  shows "exact_index H V w' (TrimSpace input) index \<and> content_of w' = content_of w"
proof -
  let ?run = "TrimSpace input"
  obtain l w1 where l: "LoadVectorIndex ?run w = (l, w1)" by force
  from l obtain existing where "l = Inr existing" using run
    by (cases l) (auto simp: existing_index_def bindE_def catchE_def split: if_splits)
  with l run obtain audit where load: "LoadVectorIndex ?run w = (Inr index, w1)" and c: "vi_Status index = ''completed''"
    and audit: "vector_Audit H i ?run False w1 = (Inr audit, w')" "va_Exact audit"
    by (auto simp: existing_index_def bindE_Inr catchE_def validateIdentity_def guardE_def split: if_splits)
  from load obtain row where row: "find (of_run ?run) (index_rows w) = Some row" "index = scanVectorIndex row" "tables (vw_db w1) = tables (vw_db w)"
    by (cases rule: LoadVectorIndex_cases) auto
  from audit(1) doc(2) obtain again w2 manifest w3 where again: "LoadVectorIndex ?run w1 = (Inr again, w2)"
    and manifest: "ListVectorManifest ?run w2 = (Inr manifest, w3)" and a: "auditWithManifest H st again manifest False w3 = (Inr audit, w')"
    by (auto simp: vector_Audit_def bindE_Inr validateIdentity_def guardE_def Let_def split: if_splits)
  from again row have same: "again = index" "tables (vw_db w2) = tables (vw_db w)" by (cases rule: LoadVectorIndex_cases, auto)+
  note ex = audit_exact [OF doc(1) a audit(2)]
  have "map row_identity (index_rows w3) = map row_identity (index_rows w2)" "content_of w3 = content_of w2"
    using movesD [OF identities_repository(2) manifest] ListVectorManifest_Inr [OF manifest] by simp_all
  have rows: "index_rows w3 = index_rows w2"
    using manifest by (auto simp: ListVectorManifest_def on_repo_def selectE_Inr Let_def split: prod.splits)
  have content: "content_of w' = content_of w" using ListVectorManifest_Inr [OF manifest] ex same(2) by (simp add: content_of_def)
  have "row \<in> set (index_rows w)" "of_run ?run row" using row(1) by (auto simp: find_Some_iff)
  then have "vi_IngestionRunID index = ?run" using row(2) by (simp add: scanVectorIndex_def of_run_def)
  moreover have "index \<in> scanVectorIndex ` set (index_rows w')" using ex rows same(2) row(2) \<open>row \<in> set (index_rows w)\<close> by simp
  moreover have "manifest = vector_manifest (tables (vw_db w')) ?run"
    using ListVectorManifest_Inr [OF manifest] same(2) vector_manifest_content [OF content, of ?run] by simp
  ultimately show ?thesis using ex same(1) c content by (simp add: exact_index_def Let_def)
qed

lemma keyed_identity: "map row_identity rows' = map row_identity rows \<Longrightarrow> keyed_rows rows' = keyed_rows rows"
proof -
  let ?key = "\<lambda>(a, b, _). (a, b)"
  assume "map row_identity rows' = map row_identity rows"
  then have "map ?key (map row_identity rows') = map ?key (map row_identity rows)" by simp
  then show ?thesis by (simp add: keyed_rows_def row_identity_def comp_def)
qed

lemma keyed_row_unique:
  "keyed_rows rows \<Longrightarrow> r \<in> set rows \<Longrightarrow> r' \<in> set rows \<Longrightarrow> of_run run r \<Longrightarrow> of_run run r' \<Longrightarrow> r = r'"
  by (auto simp: keyed_rows_def of_run_def distinct_map inj_on_def)

lemma insert_control_row_keyed:
  "insert_control_row index now t = Inr (x, t') \<Longrightarrow> keyed_rows (retrieval_vector_indexes t) \<Longrightarrow> keyed_rows (retrieval_vector_indexes t')"
  by (auto simp: insert_control_row_def keyed_rows_def control_row_def exists_row_def list_ex_iff split: if_splits) blast

lemma AcquireVectorIndex_keyed:
  assumes "AcquireVectorIndex index owner token d w = (Inr acquired, w')" "keyed_rows (index_rows w)" "vi_IndexVersion index = VectorIndexVersion"
  shows "keyed_rows (index_rows w')"
    and "vi_Status acquired \<noteq> ''completed'' \<Longrightarrow> identified (vi_IngestionRunID index) index w' \<and> vi_CollectionName acquired = vi_CollectionName index"
proof -
  let ?upd = "update_index (acquirable index) (acquired_row owner token d)"
  from assms(1) obtain w1 where ins: "on_repo (execE (insert_control_row index)) w = (Inr (), w1)" by (auto simp: AcquireVectorIndex_def bindE_Inr)
  obtain r w2 where upd: "?upd w1 = (r, w2)" by force
  have k1: "keyed_rows (index_rows w1)" using on_repo_execE [OF ins] insert_control_row_keyed [OF _ assms(2)] by blast
  have "keyed_rows (index_rows w') \<and> (vi_Status acquired \<noteq> ''completed'' \<longrightarrow>
      identified (vi_IngestionRunID index) index w' \<and> vi_CollectionName acquired = vi_CollectionName index)"
  proof (cases r)
    case (Inr a)
    then have "?upd w1 = (Inr acquired, w')" using assms(1) ins upd by (simp add: AcquireVectorIndex_def bindE_def catchE_def mapErr_def)
    from update_index_Inr [OF this] obtain now r where r: "find (acquirable index now) (index_rows w1) = Some r"
      "acquired = scanVectorIndex (acquired_row owner token d now r)"
      "index_rows w' = update_where (acquirable index now) (acquired_row owner token d now) (index_rows w1)" .
    have ids: "map row_identity (index_rows w') = map row_identity (index_rows w1)" by (simp add: r(3) map_update_where row_identity_updates)
    have acq: "r \<in> set (index_rows w1)" "acquirable index now r" using r(1) by (auto simp: find_Some_iff)
    have "of_run (vi_IngestionRunID index) r" using acq(2) assms(3) by (simp add: acquirable_def of_run_def)
    then have "r' = r" if "r' \<in> set (index_rows w1)" "of_run (vi_IngestionRunID index) r'" for r'
      using keyed_row_unique [OF k1 that(1) acq(1) that(2)] by simp
    then have "identified (vi_IngestionRunID index) index w1"
      using acq(2) assms(3) by (auto simp: identified_def acquirable_def same_identity_def row_identity_def)
    then show ?thesis
      using keyed_identity [OF ids] k1 identified_kept [OF ids] acq(2) r(2) by (simp add: scanVectorIndex_def acquired_row_def acquirable_def same_identity_def)
  next
    case (Inl e)
    then have load: "errors_is e SqlErrNoRows" "LoadVectorIndex (vi_IngestionRunID index) w2 = (Inr acquired, w')" "vi_Status acquired = ''completed''"
      using assms(1) ins upd by (auto simp: AcquireVectorIndex_def bindE_def catchE_def mapErr_def split: if_splits sum.splits prod.splits)
    have "tables (vw_db w2) = tables (vw_db w1)" using update_index_no_rows [OF upd [unfolded Inl] load(1)] .
    with load(2,3) k1 show ?thesis by (cases rule: LoadVectorIndex_cases) auto
  qed
  then show "keyed_rows (index_rows w')"
    and "vi_Status acquired \<noteq> ''completed'' \<Longrightarrow> identified (vi_IngestionRunID index) index w' \<and> vi_CollectionName acquired = vi_CollectionName index" by auto
qed

lemma existing_index_keeps: "existing_index H i run w = (r, w') \<Longrightarrow> map row_identity (index_rows w') = map row_identity (index_rows w)"
proof (erule movesD [rotated])
  show "keeps_identities (existing_index H i run)"
    unfolding existing_index_def vector_Audit_def auditWithManifest_def validateIdentity_def Let_def by (intro identities_calls)
qed

lemma acquire_build_keyed:
  assumes "acquire_build H opts run w = (Inr (token, index), w')" "keyed_rows (index_rows w)"
  shows "keyed_rows (index_rows w')"
    and "vi_Status index \<noteq> ''completed'' \<Longrightarrow> identified run (build_identity H opts run) w' \<and> vi_CollectionName index = vectorCollectionName H run"
proof -
  from assms(1) obtain w1 where t: "newVectorLeaseToken w = (Inr token, w1)"
    and a: "AcquireVectorIndex (build_identity H opts run) (xo_LeaseOwner opts) token (xo_LeaseDuration opts) w1 = (Inr index, w')"
    by (auto simp: acquire_build_def bindE_Inr)
  have "keyed_rows (index_rows w1)" using t assms(2) by (auto simp: newVectorLeaseToken_def Let_def split: sum.splits)
  from AcquireVectorIndex_keyed [OF a this] show "keyed_rows (index_rows w')"
    and "vi_Status index \<noteq> ''completed'' \<Longrightarrow> identified run (build_identity H opts run) w' \<and> vi_CollectionName index = vectorCollectionName H run"
    by (simp_all add: build_identity_def)
qed

lemma prepareCollection_advances: "moves advances (prepareCollection opts st index token manifest)"
proof -
  have p: "moves advances (create_payload_indexes st c names)" for st :: "('v, 'q) VectorStore" and c names
  proof (induction st c names rule: create_payload_indexes.induct)
    case (2 st c field schema rest)
    then show ?case unfolding create_payload_indexes.simps by (intro moves_intros)
  qed (unfold create_payload_indexes.simps, rule moves_intros)
  show ?thesis unfolding prepareCollection_def start_over_def recreateCollection_def resume_collection_def Let_def
    by (intro moves_intros p)
qed

lemma leased_build_exact:
  assumes doc: "store_documented st V" and run: "leased_build H em st opts identity index token w = Some (Inr result, w')"
    and id: "identified (vi_IngestionRunID identity) identity w" "vi_IndexVersion identity = VectorIndexVersion" "vi_CollectionName index = vi_CollectionName identity"
  shows "exact_index H V w' (vi_IngestionRunID identity) result"
proof -
  let ?run = "vi_IngestionRunID identity"
  from run obtain manifest w1 after points w2 after' points' w3 where m: "ListVectorManifest ?run w = (Inr manifest, w1)"
    and p: "prepareCollection opts st index token manifest w1 = (Inr (after, points), w2)"
    and l: "build_loop em st opts ?run token (vi_CollectionName identity) after points w2 = Some (Inr (after', points'), w3)"
    and f: "finish_build H st opts identity index token manifest after' points' w3 = (Inr result, w')"
    by (auto simp: leased_build_def bindE_def split: sum.splits prod.splits option.splits)
  have ids: "map row_identity (index_rows w3) = map row_identity (index_rows w)"
    using movesD [OF identities_repository(2) m] movesD [OF identities_prepare p] build_loop_kept [OF l] by simp
  have "content_of w3 = content_of w"
    using ListVectorManifest_Inr [OF m] movesD [OF prepareCollection_advances p] build_loop_kept [OF l] by (simp add: advances_def)
  then have "manifest = vector_manifest (tables (vw_db w3)) ?run"
    using ListVectorManifest_Inr [OF m] vector_manifest_content [of w3 w ?run] by simp
  from finish_build_exact [OF doc f identified_kept [OF ids id(1)] id(2,3) this] show ?thesis .
qed

lemma Build_is_exact:
  assumes "store_documented st V" "xi_store i = Some st" "keyed_rows (index_rows w)" "Build H i input w = Some (Inr index, w')"
  shows "exact_index H V w' (TrimSpace input) index"
  using assms(4,3)
proof (induction "length (faults (vw_db w))" arbitrary: w input rule: less_induct)
  case less
  let ?run = "TrimSpace input" and ?opts = "xi_options i"
  from less(2) obtain em where em: "xi_embedder i = Some em" and conf: "?run \<noteq> []" "\<not> xo_BatchSize ?opts \<le> 0" "\<not> xo_VectorDimension ?opts \<le> 0"
    by (subst (asm) Build.simps) (auto simp: Let_def split: option.splits if_splits)
  obtain e w1 where e: "existing_index H i ?run w = (e, w1)" by force
  obtain a w2 where a: "acquire_build H ?opts ?run w1 = (a, w2)" by force
  note b = less(2) [unfolded Build.simps [of H i input w] Let_def]
  show ?case
  proof (cases "\<exists>x. e = Inr (Some x)")
    case True
    then show ?thesis using b em conf assms(2) e existing_index_exact [OF assms(1,2)] by (auto split: if_splits)
  next
    case False
    with b em conf assms(2) e a obtain token ix where ea: "e = Inr None" "a = Inr (token, ix)"
      by (auto split: sum.splits option.splits)
    have k: "keyed_rows (index_rows w1)" using keyed_identity [OF existing_index_keeps [OF e]] less(3) by simp
    show ?thesis
    proof (cases "vi_Status ix = ''completed''")
      case True
      then have r: "Build H i ?run w2 = Some (Inr index, w')" using b em conf assms(2) e a ea by simp
      have "length (faults (vw_db w1)) < length (faults (vw_db w))"
        using existing_index_None [OF e [unfolded ea]] acquire_build_unfinished [OF a [unfolded ea]] True by blast
      then have "length (faults (vw_db w2)) < length (faults (vw_db w))" using movesD [OF acquire_build_advances a] by (simp add: advances_def)
      from less(1) [OF this r acquire_build_keyed(1) [OF a [unfolded ea] k]] show ?thesis by simp
    next
      case False
      then have "mark_on_error ?run token (leased_build H em st ?opts (build_identity H ?opts ?run) ix token w2) = Some (Inr index, w')"
        using b em conf assms(2) e a ea by simp
      then have l: "leased_build H em st ?opts (build_identity H ?opts ?run) ix token w2 = Some (Inr index, w')"
        by (auto simp: mark_on_error_def split: option.splits sum.splits)
      from leased_build_exact [OF assms(1) l] acquire_build_keyed(2) [OF a [unfolded ea] k False] show ?thesis by (simp add: build_identity_def)
    qed
  qed
qed

end
