(* ===== verification/Vector_Sample.thy ===== *)
theory Vector_Sample
  imports Vector_Exact Search_Props
begin

text \<open>
  A vector store that keeps lists of points in memory and behaves as documented, and a run of two chunks whose first build was interrupted: the row has a checkpoint, the
  collection holds the first chunk under an outdated hash and a point of no chunk.
\<close>

definition sample_view :: "(string \<Rightarrow> unit VectorPoint list option) \<Rightarrow> string \<Rightarrow> (int \<rightharpoonup> unit VectorPoint) option" where
  "sample_view q c = map_option (\<lambda>ps. map_of (map (\<lambda>p. (vp_ID p, p)) ps)) (q c)"

definition sample_listed :: "unit VectorPoint list \<Rightarrow> VectorManifestEntry list" where
  "sample_listed ps = map (\<lambda>i. \<lparr>me_ChunkID = i, me_ContentHash = point_hash (the (map_of (map (\<lambda>p. (vp_ID p, p)) ps) i))\<rparr>) (remdups (map vp_ID ps))"

definition sample_missing :: go_error where
  "sample_missing = ErrorString ''no collection''"

definition sample_vectors :: "(unit, string \<Rightarrow> unit VectorPoint list option) VectorStore" where
  "sample_vectors =
     \<lparr>RecreateCollection = (\<lambda>c n meta q. (Inr (), q(c := Some []))),
      CollectionExists = (\<lambda>c q. (Inr (q c \<noteq> None), q)),
      CreatePayloadIndex = (\<lambda>c field schema q. (Inr (), q)),
      store_Upsert = (\<lambda>c ps q. case q c of None \<Rightarrow> (Inl sample_missing, q) | Some old \<Rightarrow> (Inr (), q(c := Some (rev ps @ old)))),
      ListPointManifest = (\<lambda>c q. case q c of None \<Rightarrow> (Inl sample_missing, q) | Some ps \<Rightarrow> (Inr (sample_listed ps), q)),
      DeletePoints = (\<lambda>c ids q. case q c of None \<Rightarrow> (Inl sample_missing, q) | Some ps \<Rightarrow> (Inr (), q(c := Some (filter (\<lambda>p. vp_ID p \<notin> set ids) ps))))\<rparr>"

definition sample_embed :: "string list \<Rightarrow> (string \<Rightarrow> unit VectorPoint list option, unit list) sem" where
  "sample_embed texts q = (Inr (map (\<lambda>_. ()) texts), q)"

definition sample_index_options :: VectorIndexOptions where
  "sample_index_options = \<lparr>xo_EmbeddingModel = ''m'', xo_EmbeddingRevision = ''r'', xo_VectorDimension = 3, xo_BatchSize = 1, xo_LeaseOwner = ''o'',
     xo_LeaseDuration = 60 * nanos_per_second\<rparr>"

definition sample_indexer :: "(unit, string \<Rightarrow> unit VectorPoint list option) VectorIndexer" where
  "sample_indexer = \<lparr>xi_embedder = Some sample_embed, xi_store = Some sample_vectors, xi_options = sample_index_options\<rparr>"

definition sample_control :: vector_index_row where
  "sample_control = (control_row (build_identity (\<lambda>s. s) sample_index_options ''run'') 50)\<lparr>vx_checkpoint_chunk_id := 11, vx_checkpoint_point_count := 1, vx_build_attempt := 1\<rparr>"

definition sample_points :: "unit VectorPoint list" where
  "sample_points = [\<lparr>vp_ID = 11, vp_Vector = (), vp_Payload = [(''content_hash'', JStr ''old'')]\<rparr>, \<lparr>vp_ID = 99, vp_Vector = (), vp_Payload = []\<rparr>]"

definition sample_build_world :: "vector_index_row list \<Rightarrow> (string \<Rightarrow> unit VectorPoint list option) vworld" where
  "sample_build_world rows =
     \<lparr>vw_db = \<lparr>tables = (rag sample_search_store)\<lparr>retrieval_vector_indexes := rows\<rparr>, seqs = (\<lambda>_. 0), faults = [], db_now = 100\<rparr>,
      vw_out = [vectorCollectionName (\<lambda>s. s) ''run'' \<mapsto> sample_points], vw_ticks = [5, 7], vw_random = (\<lambda>n. Inr ''token'')\<rparr>"

lemma map_of_filtered: "map_of (map (\<lambda>p. (vp_ID p, p)) (filter (\<lambda>p. vp_ID p \<notin> A) ps)) = map_of (map (\<lambda>p. (vp_ID p, p)) ps) |` (- A)"
  by (induction ps) (auto simp: restrict_map_def)

lemma sample_listed_entries: "distinct (map me_ChunkID (sample_listed ps))" "entries (sample_listed ps) = stored_hashes (map_of (map (\<lambda>p. (vp_ID p, p)) ps))"
proof -
  show d: "distinct (map me_ChunkID (sample_listed ps))" by (simp add: sample_listed_def comp_def)
  let ?m = "map_of (map (\<lambda>p. (vp_ID p, p)) ps)"
  show "entries (sample_listed ps) = stored_hashes ?m"
  proof
    fix i
    show "entries (sample_listed ps) i = stored_hashes ?m i"
    proof (cases "?m i")
      case None
      then have "i \<notin> vp_ID ` set ps" by (force simp: map_of_eq_None_iff)
      then show ?thesis using None by (auto simp: entries_None stored_hashes_def sample_listed_def)
    next
      case (Some p)
      then have "i \<in> vp_ID ` set ps" by (auto dest!: map_of_SomeD)
      then have "\<lparr>me_ChunkID = i, me_ContentHash = point_hash p\<rparr> \<in> set (sample_listed ps)" using Some by (auto simp: sample_listed_def)
      from entries_distinct [OF d this] show ?thesis using Some by (simp add: stored_hashes_def)
    qed
  qed
qed

lemma sample_view_update: "sample_view (q(c := Some ps)) = (sample_view q)(c := Some (map_of (map (\<lambda>p. (vp_ID p, p)) ps)))"
  by (auto simp: sample_view_def)

lemma sample_vectors_documented: "store_documented sample_vectors sample_view"
  unfolding store_documented_def sample_vectors_def
  by (auto simp: sample_view_update rev_map map_of_filtered sample_listed_entries split: option.splits) (auto simp: sample_view_def sample_listed_entries)

lemma sample_manifest:
  "vector_manifest ((rag sample_search_store)\<lparr>retrieval_vector_indexes := rows\<rparr>) ''run'' =
     [\<lparr>me_ChunkID = 11, me_ContentHash = ''tok''\<rparr>, \<lparr>me_ChunkID = 12, me_ContentHash = ''tok''\<rparr>]"
  by (simp add: vector_manifest_def vector_rows_def joined_chunks_def map_filter_simps sample_search_store_def doc_by_id_def sample_chunk_def sample_doc_def
      vector_eligible_def doc_in_run_def exists_row_def vector_project_def sample_store_def doc_withdrawn_def doc_has_source_def scan_manifest_def)

end
