(* ===== verification/Vector_Lease.thy ===== *)
theory Vector_Lease
  imports Vector_Sample
begin

text \<open>
  The lease of a build: as long as it has not expired, no call under another token changes the row, whatever other builders do and whatever fails. And the plan
  to resume a build keeps what is intact of the checkpoint.
\<close>

section \<open>Calls of concurrent builders\<close>

datatype lease_call =
    Acquire VectorIndex string string int
  | Checkpoint string string int int int int int bool
  | Complete string string int string
  | MarkFail string string go_error

fun call_token :: "lease_call \<Rightarrow> string" where
  "call_token (Acquire index owner token d) = token"
| "call_token (Checkpoint run token a b c d e g) = token"
| "call_token (Complete run token n x) = token"
| "call_token (MarkFail run token e) = token"

fun run_call :: "lease_call \<Rightarrow> 'q vworld \<Rightarrow> 'q vworld" where
  "run_call (Acquire index owner token d) w = snd (AcquireVectorIndex index owner token d w)"
| "run_call (Checkpoint run token a b c d e g) w = snd (SaveVectorIndexCheckpoint run token a b c d e g w)"
| "run_call (Complete run token n x) w = snd (CompleteVectorIndex run token n x w)"
| "run_call (MarkFail run token e) w = snd (MarkVectorIndexFailed run token e w)"

text \<open>The calls of all builders in the order in which they reach the database.\<close>

definition run_calls :: "lease_call list \<Rightarrow> 'q vworld \<Rightarrow> 'q vworld" where
  "run_calls calls w = foldl (\<lambda>w c. run_call c w) w calls"

definition row_stays :: "string \<Rightarrow> vector_index_row \<Rightarrow> int \<Rightarrow> 'q vworld \<Rightarrow> 'q vworld \<Rightarrow> bool" where
  "row_stays run r x w w' =
     (db_now (vw_db w) \<le> db_now (vw_db w') \<and>
      (find (of_run run) (index_rows w) = Some r \<and> db_now (vw_db w') < x \<longrightarrow> find (of_run run) (index_rows w') = Some r))"

interpretation lease: call_preorder "row_stays run r x" for run r x
  by unfold_locales (auto simp: row_stays_def)

lemma find_update_where_other:
  "find Q rows = Some r \<Longrightarrow> \<not> P r \<Longrightarrow> (\<And>y. Q (f y) = Q y) \<Longrightarrow> find Q (update_where P f rows) = Some r"
  by (induction rows) (auto simp: update_where_def split: if_splits)

lemma on_repo_db:
  "vw_db (snd (on_repo m w)) = snd (m ((vw_db w)\<lparr>db_now := db_now (vw_db w) + (case vw_ticks w of [] \<Rightarrow> 0 | d # _ \<Rightarrow> max 0 d)\<rparr>))"
  by (simp add: on_repo_def Let_def split: prod.split)

lemma on_repo_ticks: "vw_ticks (snd (on_repo m w)) = tl (vw_ticks w)"
  by (simp add: on_repo_def Let_def split: prod.split)

lemma row_stays_stmt:
  assumes "\<And>d. db_now (snd (f d)) = db_now d \<and>
      (find (of_run run) (retrieval_vector_indexes (tables d)) = Some r \<and> db_now d < x \<longrightarrow> find (of_run run) (retrieval_vector_indexes (tables (snd (f d)))) = Some r)"
  shows "moves (row_stays run r x) (on_repo (stmt f))"
proof -
  have "db_now (snd (stmt f d)) = db_now d \<and> (find (of_run run) (retrieval_vector_indexes (tables d)) = Some r \<and> db_now d < x \<longrightarrow>
      find (of_run run) (retrieval_vector_indexes (tables (snd (stmt f d)))) = Some r)" for d
  proof (cases "faults d")
    case Nil
    then show ?thesis using assms [of d] by (simp add: stmt_def)
  next
    case (Cons y fs)
    then show ?thesis using assms [of "d\<lparr>faults := fs\<rparr>"] by (cases y) (simp_all add: stmt_def)
  qed
  then show ?thesis by (auto simp: moves_def row_stays_def on_repo_db split: list.split)
qed

lemma row_stays_statements:
  "moves (row_stays run r x) (on_repo (query_row k))"
  "(\<And>now t. find (of_run run) (retrieval_vector_indexes t) = Some r \<Longrightarrow> now < x \<Longrightarrow> find (of_run run) (retrieval_vector_indexes (u now t)) = Some r) \<Longrightarrow>
     moves (row_stays run r x) (on_repo (updateE u))"
  "(\<And>now t y t'. e now t = Inr (y, t') \<Longrightarrow> find (of_run run) (retrieval_vector_indexes t) = Some r \<Longrightarrow> now < x \<Longrightarrow>
       find (of_run run) (retrieval_vector_indexes t') = Some r) \<Longrightarrow>
     moves (row_stays run r x) (on_repo (execE e))"
  unfolding query_row_def updateE_def execE_def by (intro row_stays_stmt; auto split: option.split sum.split)+

lemma of_run_updates:
  "of_run run (acquired_row owner token d now r) = of_run run r" "of_run run (checkpoint_row a b c d e g now r) = of_run run r"
  "of_run run (completed_index_row n y now r) = of_run run r"
  by (simp_all add: of_run_def acquired_row_def checkpoint_row_def completed_index_row_def)

lemmas lease_rules = lease.basic lease.bind lease.wrapped lease.branches

lemma row_stays_insert:
  "insert_control_row index now t = Inr (y, t') \<Longrightarrow> find (of_run run) (retrieval_vector_indexes t) = Some r \<Longrightarrow>
     find (of_run run) (retrieval_vector_indexes t') = Some r"
  by (auto simp: insert_control_row_def find_append split: if_splits)

lemma row_stays_call:
  assumes held: "vx_status r = ''building''" "vx_lease_token r = Some token" "vx_lease_expires_at r = Some x" and other: "call_token c \<noteq> token"
  shows "row_stays run r x w (run_call c w)"
proof -
  have free: "\<not> acquirable index now r" if "now < x" for index now using held that by (simp add: acquirable_def)
  have held': "\<not> lease_held run' token' now r" if "token' \<noteq> token" for run' token' now using held that by (simp add: lease_held_def)
  have acquire: "moves (row_stays run r x) (AcquireVectorIndex index owner token' d)" for index owner token' d
    unfolding AcquireVectorIndex_def update_index_def LoadVectorIndex_def
    by (intro lease_rules row_stays_statements)
      (auto simp: of_run_updates free intro: row_stays_insert find_update_where_other split: option.splits)
  have save: "moves (row_stays run r x) (SaveVectorIndexCheckpoint run' token' a b c' d e g)" if "token' \<noteq> token" for run' token' a b c' d e g
    unfolding SaveVectorIndexCheckpoint_def
    by (intro lease_rules row_stays_statements) (auto simp: Let_def of_run_updates held' [OF that] intro!: find_update_where_other split: if_splits)
  have complete: "moves (row_stays run r x) (CompleteVectorIndex run' token' n y)" if "token' \<noteq> token" for run' token' n y
    unfolding CompleteVectorIndex_def update_index_def
    by (intro lease_rules row_stays_statements) (auto simp: of_run_updates held' [OF that] intro!: find_update_where_other split: option.splits)
  have mark: "moves (row_stays run r x) (MarkVectorIndexFailed run' token' e)" if "token' \<noteq> token" for run' token' e
    unfolding MarkVectorIndexFailed_def
    by (intro lease_rules row_stays_statements) (use held that in \<open>auto simp: of_run_def intro!: find_update_where_other\<close>)
  show ?thesis using other
    by (cases c) (simp_all add: acquire [unfolded moves_def] save [unfolded moves_def] complete [unfolded moves_def] mark [unfolded moves_def])
qed

text \<open>
  C13. While the lease of a build has not expired, its row is its own: whatever calls other builders make under other tokens, in whatever order, interrupted by whatever faults,
  the row stays exactly as the holder left it.
\<close>

theorem lease_exclusive:
  assumes "find (of_run run) (index_rows w) = Some r" "vx_status r = ''building''" "vx_lease_token r = Some token" "vx_lease_expires_at r = Some x"
    and "\<forall>c\<in>set calls. call_token c \<noteq> token" "db_now (vw_db (run_calls calls w)) < x"
  shows "find (of_run run) (index_rows (run_calls calls w)) = Some r"
proof -
  have "row_stays run r x w (run_calls calls w)" using assms(5)
  proof (induction calls arbitrary: w)
    case (Cons c calls)
    have "row_stays run r x w (run_call c w)" by (rule row_stays_call [OF assms(2-4)]) (use Cons(2) in simp)
    moreover have "row_stays run r x (run_call c w) (run_calls calls (run_call c w))" using Cons by simp
    ultimately show ?case using lease.trans [of run r x w "run_call c w"] by (simp add: run_calls_def)
  qed (simp add: run_calls_def lease.refl)
  with assms(1,6) show ?thesis by (simp add: row_stays_def)
qed

text \<open>The calls take the time of their statements, so that much is known of the clock: \<open>pending\<close> is the time the remaining statements take.\<close>

definition pending :: "'q vworld \<Rightarrow> int" where
  "pending w = sum_list (map (max 0) (vw_ticks w))"

lemma pending_nonneg: "0 \<le> pending w"
  by (auto simp: pending_def intro!: sum_list_nonneg)

definition on_time :: "'q vworld \<Rightarrow> 'q vworld \<Rightarrow> bool" where
  "on_time w w' = (db_now (vw_db w') + pending w' = db_now (vw_db w) + pending w)"

interpretation clock: call_preorder on_time
  by unfold_locales (auto simp: on_time_def)

lemma on_time_stmt:
  assumes "\<And>d. db_now (snd (f d)) = db_now d"
  shows "moves on_time (on_repo (stmt f))"
proof -
  have "db_now (snd (stmt f d)) = db_now d" for d
    using assms by (auto simp: stmt_def split: list.split fault.split)
  then show ?thesis by (auto simp: moves_def on_time_def on_repo_db on_repo_ticks pending_def split: list.split)
qed

lemma on_time_statements: "moves on_time (on_repo (query_row k))" "moves on_time (on_repo (updateE u))" "moves on_time (on_repo (execE e))"
  unfolding query_row_def updateE_def execE_def by (intro on_time_stmt; auto split: option.split sum.split)+

lemmas clock_rules = clock.basic clock.bind clock.wrapped clock.branches on_time_statements

lemma on_time_repository:
  "moves on_time (AcquireVectorIndex index owner token d)" "moves on_time (SaveVectorIndexCheckpoint run token a b c d e g)"
  "moves on_time (CompleteVectorIndex run token n x)" "moves on_time (MarkVectorIndexFailed run token err)"
  unfolding AcquireVectorIndex_def SaveVectorIndexCheckpoint_def CompleteVectorIndex_def MarkVectorIndexFailed_def update_index_def LoadVectorIndex_def
  by (intro clock_rules)+

lemma on_time_call: "on_time w (run_call c w)"
  by (cases c) (simp_all add: on_time_repository [unfolded moves_def])

lemma run_calls_time: "db_now (vw_db (run_calls calls w)) \<le> db_now (vw_db w) + pending w"
proof -
  have "on_time w (run_calls calls w)"
  proof (induction calls arbitrary: w)
    case (Cons c calls)
    show ?case using clock.trans [OF on_time_call Cons.IH, of w c] by (simp add: run_calls_def)
  qed (simp add: run_calls_def clock.refl)
  then show ?thesis using pending_nonneg [of "run_calls calls w"] by (simp add: on_time_def)
qed

definition sample_held :: vector_index_row where
  "sample_held = acquired_row ''o'' ''a'' (60 * nanos_per_second) 90 sample_control"

definition sample_calls :: "lease_call list" where
  "sample_calls = [Acquire (build_identity (\<lambda>s. s) sample_index_options ''run'') ''p'' ''b'' 1, Complete ''run'' ''b'' 1 ''x'', MarkFail ''run'' ''b'' ErrIndexLeaseLost]"

lemma sample_held_facts:
  "of_run ''run'' sample_held" "vx_status sample_held = ''building''" "vx_lease_token sample_held = Some ''a''" "vx_lease_expires_at sample_held = Some 60000000090"
  by (simp_all add: sample_held_def acquired_row_def sample_control_def control_row_def of_run_def build_identity_def lease_end_def lease_seconds_def nanos_per_second_def)

lemma sample_calls_time: "db_now (vw_db (run_calls sample_calls (sample_build_world [sample_held]))) < 60000000090"
  using run_calls_time [of sample_calls "sample_build_world [sample_held]"] by (simp add: sample_build_world_def pending_def)

theorem lease_exclusive_witness:
  "find (of_run ''run'') (index_rows (run_calls sample_calls (sample_build_world [sample_held]))) = Some sample_held"
  by (rule lease_exclusive [OF _ sample_held_facts(2,3,4) _ sample_calls_time]) (simp_all add: sample_held_facts sample_build_world_def sample_calls_def)

section \<open>The plan to resume\<close>

lemma first_duplicate_None: "first_duplicate seen is = None \<longleftrightarrow> distinct is \<and> set is \<inter> set seen = {}"
  by (induction seen "is" rule: first_duplicate.induct) auto

lemma take_length_takeWhile: "take (length (takeWhile P (take n xs))) xs = takeWhile P (take n xs)"
  by (metis length_takeWhile_le length_take min.bounded_iff takeWhile_eq_take take_take min_absorb1)

lemma entries_SomeD:
  assumes "entries es (me_ChunkID e) = Some (me_ContentHash e)"
  shows "e \<in> set es"
proof -
  from assms obtain e' where "e' \<in> set es" "me_ChunkID e' = me_ChunkID e" "me_ContentHash e' = me_ContentHash e"
    by (auto simp: entries_def dest!: map_of_SomeD)
  moreover from this have "e' = e" by (intro VectorManifestEntry.equality) simp_all
  ultimately show ?thesis by simp
qed


definition sample_entry :: "int \<Rightarrow> string \<Rightarrow> VectorManifestEntry" where
  "sample_entry i h = \<lparr>me_ChunkID = i, me_ContentHash = h\<rparr>"

lemma sample_resume_run:
  "planVectorResume [sample_entry 11 ''a'', sample_entry 12 ''b'', sample_entry 13 ''c''] 12 2 [sample_entry 12 ''x'', sample_entry 99 ''y'', sample_entry 11 ''a''] =
     Inr \<lparr>rp_CheckpointChunkID = 11, rp_CheckpointPoints = 1, rp_MissingCheckpointIDs = [12], rp_OrphanIDs = [99], rp_MismatchedIDs = [12]\<rparr>"
  by (simp add: planVectorResume_def validateVectorCheckpoint_def sample_entry_def absent_def entries_def orphan_ids_def mismatched_ids_def Let_def)


end
