(* ===== verification/Vector_Success.thy ===== *)
theory Vector_Success
  imports Vector_Lease
begin

text \<open>
  A build whose calls are answered succeeds, whatever an earlier attempt has left in the collection: it starts over or resumes, stores what is missing, and completes the index.
\<close>

section \<open>Answered calls\<close>

text \<open>The documented calls of the store succeed wherever the collection exists, and the embedder returns one vector for each text.\<close>

definition services_answer ::
  "('v, 'q) VectorStore \<Rightarrow> (string list \<Rightarrow> ('q, 'v list) sem) \<Rightarrow> ('q \<Rightarrow> string \<Rightarrow> (int \<rightharpoonup> 'v VectorPoint) option) \<Rightarrow> bool" where
  "services_answer st em V =
     (store_documented st V \<and>
      (\<forall>c n meta q. \<exists>q'. RecreateCollection st c n meta q = (Inr (), q')) \<and>
      (\<forall>c q. \<exists>b q'. CollectionExists st c q = (Inr b, q')) \<and>
      (\<forall>c field schema q. V q c \<noteq> None \<longrightarrow> (\<exists>q'. CreatePayloadIndex st c field schema q = (Inr (), q'))) \<and>
      (\<forall>c ps q. V q c \<noteq> None \<longrightarrow> (\<exists>q'. store_Upsert st c ps q = (Inr (), q'))) \<and>
      (\<forall>c q. V q c \<noteq> None \<longrightarrow> (\<exists>es q'. ListPointManifest st c q = (Inr es, q'))) \<and>
      (\<forall>c ids q. V q c \<noteq> None \<longrightarrow> (\<exists>q'. DeletePoints st c ids q = (Inr (), q'))) \<and>
      (\<forall>texts q. \<exists>vs q'. em texts q = (Inr vs, q') \<and> length vs = length texts \<and> V q' = V q))"

lemma answerD:
  assumes "services_answer st em V"
  shows "store_documented st V" "\<exists>q'. RecreateCollection st c n meta q = (Inr (), q')" "\<exists>b q'. CollectionExists st c q = (Inr b, q')"
    "V q c \<noteq> None \<Longrightarrow> \<exists>q'. CreatePayloadIndex st c field schema q = (Inr (), q')" "V q c \<noteq> None \<Longrightarrow> \<exists>q'. store_Upsert st c ps q = (Inr (), q')"
    "V q c \<noteq> None \<Longrightarrow> \<exists>es q'. ListPointManifest st c q = (Inr es, q')" "V q c \<noteq> None \<Longrightarrow> \<exists>q'. DeletePoints st c ids q = (Inr (), q')"
    "\<exists>vs q'. em texts q = (Inr vs, q') \<and> length vs = length texts \<and> V q' = V q"
  using assms by (simp_all add: services_answer_def)

text \<open>The world when the next statement runs.\<close>

definition quiet :: "'q vworld \<Rightarrow> bool" where
  "quiet w = (faults (vw_db w) = [])"

definition tick :: "'q vworld \<Rightarrow> 'q vworld" where
  "tick w = w\<lparr>vw_db := (vw_db w)\<lparr>db_now := db_now (vw_db w) + (case vw_ticks w of [] \<Rightarrow> 0 | d # _ \<Rightarrow> max 0 d)\<rparr>, vw_ticks := tl (vw_ticks w)\<rparr>"

lemma tick_simps [simp]:
  "tables (vw_db (tick w)) = tables (vw_db w)" "faults (vw_db (tick w)) = faults (vw_db w)" "vw_out (tick w) = vw_out w" "vw_random (tick w) = vw_random w"
  "content_of (tick w) = content_of w" "quiet (tick w) = quiet w"
  by (simp_all add: tick_def content_of_def quiet_def)

lemma tick_time: "db_now (vw_db (tick w)) + pending (tick w) = db_now (vw_db w) + pending w" "pending (tick w) \<le> pending w"
  by (cases "vw_ticks w"; simp add: tick_def pending_def)+

lemma quiet_on_repo: "quiet w \<Longrightarrow> on_repo m w = (case m (vw_db (tick w)) of (r, d) \<Rightarrow> (r, (tick w)\<lparr>vw_db := d\<rparr>))"
  by (cases w) (auto simp: quiet_def on_repo_def tick_def split: prod.split)

lemma quiet_reads:
  "quiet w \<Longrightarrow> on_repo (selectE f) w = (Inr (f (tables (vw_db w))), tick w)"
  "quiet w \<Longrightarrow> k (tables (vw_db w)) = Some x \<Longrightarrow> on_repo (query_row k) w = (Inr x, tick w)"
  "quiet w \<Longrightarrow> k (tables (vw_db w)) = None \<Longrightarrow> on_repo (query_row k) w = (Inl SqlErrNoRows, tick w)"
  by (simp_all add: quiet_on_repo selectE_def query_row_def stmt_def quiet_def)

lemma quiet_exec:
  "quiet w \<Longrightarrow> on_repo (execE e) w =
     (case e (db_now (vw_db (tick w))) (tables (vw_db w)) of
        Inl x \<Rightarrow> (Inl x, tick w) | Inr (x, t) \<Rightarrow> (Inr x, (tick w)\<lparr>vw_db := (vw_db (tick w))\<lparr>tables := t\<rparr>\<rparr>))"
  by (simp add: quiet_on_repo execE_def stmt_def quiet_def split: sum.split prod.split)

text \<open>A build that holds its lease to the end: what is left to do takes less time than the lease lasts.\<close>

definition leased :: "int \<Rightarrow> string \<Rightarrow> string \<Rightarrow> vector_index_row \<Rightarrow> 'q vworld \<Rightarrow> bool" where
  "leased d run token r w =
     (quiet w \<and> keyed_rows (index_rows w) \<and> r \<in> set (index_rows w) \<and> lease_held run token (db_now (vw_db w) + pending w) r \<and>
      pending w < lease_seconds d * nanos_per_second \<and> 0 \<le> vx_orphan_point_count r \<and> 0 \<le> vx_missing_point_count r)"

lemma leased_tick: "leased d run token r w \<Longrightarrow> leased d run token r (tick w)"
  using tick_time [of w] by (auto simp: leased_def)

lemma lease_held_earlier: "lease_held run token now r \<Longrightarrow> now' \<le> now \<Longrightarrow> lease_held run token now' r"
  by (auto simp: lease_held_def split: option.splits)

lemma leased_now: "leased d run token r w \<Longrightarrow> lease_held run token (db_now (vw_db (tick w))) r"
  using tick_time(1) [of w] pending_nonneg [of "tick w"] by (auto simp: leased_def elim: lease_held_earlier)

lemma leased_unique:
  assumes "leased d run token r w" "r' \<in> set (index_rows w)" "lease_held run token now r'"
  shows "r' = r"
  using assms keyed_row_unique [of "index_rows w" r' r run] by (auto simp: leased_def lease_held_def)

lemma keyed_count:
  assumes "keyed_rows rows" "r \<in> set rows" "P r" "\<And>x. P x \<Longrightarrow> of_run run x"
  shows "count_where P rows = 1"
proof -
  have "filter P rows = [r]"
    using assms
  proof (induction rows)
    case (Cons x rows)
    have other: "y = r" if "y \<in> set (x # rows)" "P y" for y
      using keyed_row_unique [OF Cons.prems(1) that(1) Cons.prems(2)] Cons.prems(3,4) that(2) by blast
    show ?case
    proof (cases "x = r")
      case True
      have "r \<notin> set rows" using Cons.prems(1) True by (auto simp: keyed_rows_def)
      then have "filter P rows = []" using other by (auto simp: filter_empty_conv)
      then show ?thesis using True Cons.prems(3) by simp
    next
      case False
      then have "\<not> P x" using other [of x] by auto
      with False Cons show ?thesis by (simp add: keyed_rows_def)
    qed
  qed simp
  then show ?thesis by (simp add: count_where_def)
qed

lemma Save_answers:
  assumes l: "leased d run token r w" and pos: "0 \<le> a" "0 \<le> b" "0 \<le> c" "0 \<le> e"
  obtains w' r' where "SaveVectorIndexCheckpoint run token a b c e d g w = (Inr (), w')" "leased d run token r' w'"
    "vx_checkpoint_point_count r' = b" "content_of w' = content_of w" "vw_out w' = vw_out w"
proof -
  let ?now = "db_now (vw_db (tick w))" and ?rows = "index_rows w"
  let ?held = "lease_held run token ?now" and ?f = "checkpoint_row a b c e d g ?now"
  let ?w = "(tick w)\<lparr>vw_db := (vw_db (tick w))\<lparr>tables := (tables (vw_db w))\<lparr>retrieval_vector_indexes := update_where ?held ?f ?rows\<rparr>\<rparr>\<rparr>"
  have r: "r \<in> set ?rows" "?held r" "keyed_rows ?rows" "quiet w" using l leased_now [OF l] by (auto simp: leased_def)
  have only: "x = r" if "x \<in> set ?rows" "?held x" for x using leased_unique [OF l that] .
  have "\<not> exists_row (\<lambda>x. ?held x \<and> \<not> checkpoint_checks (?f x)) ?rows"
    using only pos l by (auto simp: exists_row_def list_ex_iff checkpoint_checks_def checkpoint_row_def leased_def)
  moreover have "count_where ?held ?rows = 1" by (rule keyed_count [where r = r and run = run]) (use r in \<open>auto simp: lease_held_def\<close>)
  ultimately have "SaveVectorIndexCheckpoint run token a b c e d g w = (Inr (), ?w)"
    unfolding SaveVectorIndexCheckpoint_def by (simp add: quiet_exec [OF r(4)] bindE_def mapErr_def Let_def guardE_def)
  moreover have "leased d run token (?f r) ?w"
  proof -
    have "keyed_rows (update_where ?held ?f ?rows) = keyed_rows ?rows" by (rule keyed_identity) (simp add: map_update_where row_identity_updates)
    moreover have "?f r \<in> set (update_where ?held ?f ?rows)" using r by (auto simp: update_where_def)
    moreover have "pending ?w = pending (tick w)" by (simp add: pending_def)
    ultimately show ?thesis using leased_tick [OF l] pos r
      by (simp add: leased_def quiet_def lease_held_def checkpoint_row_def of_run_def lease_end_def)
  qed
  moreover have "vx_checkpoint_point_count (?f r) = b" by (simp add: checkpoint_row_def)
  ultimately show thesis using that [of ?w "?f r"] by (simp add: content_of_def)
qed

lemma Complete_answers:
  assumes l: "leased d run token r w" and n: "vx_checkpoint_point_count r = n"
  shows "\<exists>index w'. CompleteVectorIndex run token n checksum w = (Inr index, w')"
proof -
  let ?P = "\<lambda>x. lease_held run token (db_now (vw_db (tick w))) x \<and> vx_checkpoint_point_count x = n"
  have "find ?P (index_rows w) \<noteq> None" using l leased_now [OF l] n by (auto simp: find_None_iff leased_def)
  then obtain x where "find ?P (index_rows w) = Some x" by auto
  moreover have "quiet w" using l by (simp add: leased_def)
  ultimately show ?thesis by (simp add: CompleteVectorIndex_def update_index_def quiet_exec mapErr_def)
qed

section \<open>What a collection holds\<close>

text \<open>The first \<open>k\<close> chunks are stored, and no chunk is stored under a wrong hash.\<close>

definition indexed ::
  "('q \<Rightarrow> string \<Rightarrow> (int \<rightharpoonup> 'v VectorPoint) option) \<Rightarrow> 'q vworld \<Rightarrow> string \<Rightarrow> VectorManifestEntry list \<Rightarrow> nat \<Rightarrow> bool" where
  "indexed V w c manifest k =
     (k \<le> length manifest \<and> (\<exists>m. V (vw_out w) c = Some m \<and>
        (\<forall>e\<in>set (take k manifest). stored_hashes m (me_ChunkID e) = Some (me_ContentHash e)) \<and>
        (\<forall>e\<in>set manifest. stored_hashes m (me_ChunkID e) = None \<or> stored_hashes m (me_ChunkID e) = Some (me_ContentHash e))))"

definition position :: "VectorManifestEntry list \<Rightarrow> nat \<Rightarrow> int" where
  "position manifest k = (if k = 0 then 0 else me_ChunkID (manifest ! (k - 1)))"

lemma position_nonneg: "k \<le> length manifest \<Longrightarrow> \<forall>e\<in>set manifest. 0 < me_ChunkID e \<Longrightarrow> 0 \<le> position manifest k"
  by (cases k) (auto simp: position_def intro!: less_imp_le)

lemma payload_indexes_answer:
  assumes "services_answer st em V" "V (vw_out w) c \<noteq> None"
  shows "\<exists>w'. create_payload_indexes st c names w = (Inr (), w') \<and> vw_db w' = vw_db w \<and> vw_ticks w' = vw_ticks w \<and> V (vw_out w') = V (vw_out w)"
  using assms(2)
proof (induction names arbitrary: w)
  case (Cons n names)
  obtain field schema where n: "n = (field, schema)" by force
  obtain q where q: "CreatePayloadIndex st c field schema (vw_out w) = (Inr (), q)" using answerD(4) [OF assms(1) Cons.prems] by blast
  have "V q = V (vw_out w)" using storeD(3) [OF answerD(1) [OF assms(1)] q] .
  then show ?case using Cons.IH [of "w\<lparr>vw_out := q\<rparr>"] Cons.prems q n by (auto simp: bindE_def on_out_def)
qed simp

lemma leased_frame:
  "vw_db w' = vw_db w \<Longrightarrow> vw_ticks w' = vw_ticks w \<Longrightarrow> leased d run token r w' = leased d run token r w"
  by (simp add: leased_def quiet_def pending_def)

lemma start_over_answers:
  assumes s: "services_answer st em V" and l: "leased (xo_LeaseDuration opts) run token r w" and index: "vi_IngestionRunID index = run" and "0 \<le> missing"
  obtains w' r' where "start_over opts st index token missing w = (Inr (0, 0), w')" "leased (xo_LeaseDuration opts) run token r' w'" "vx_checkpoint_point_count r' = 0"
    "content_of w' = content_of w" "indexed V w' (vi_CollectionName index) manifest 0"
proof -
  let ?c = "vi_CollectionName index"
  let ?meta = "[(''ingestion_run_id'', JStr (vi_IngestionRunID index)), (''index_version'', JStr VectorIndexVersion),
        (''embedding_model'', JStr (xo_EmbeddingModel opts)), (''embedding_revision'', JStr (xo_EmbeddingRevision opts))]"
  obtain q where q: "RecreateCollection st ?c (xo_VectorDimension opts) ?meta (vw_out w) = (Inr (), q)" using answerD(2) [OF s] by blast
  have "V q ?c = Some Map.empty" using storeD(1) [OF answerD(1) [OF s] q] by simp
  with payload_indexes_answer [OF s, of "w\<lparr>vw_out := q\<rparr>" ?c payload_indexes] obtain w1 where
    w1: "create_payload_indexes st ?c payload_indexes (w\<lparr>vw_out := q\<rparr>) = (Inr (), w1)" "vw_db w1 = vw_db w" "vw_ticks w1 = vw_ticks w" "V (vw_out w1) ?c = Some Map.empty"
    by auto
  have l1: "leased (xo_LeaseDuration opts) run token r w1" using leased_frame [OF w1(2,3)] l by simp
  from Save_answers [OF l1, of 0 0 0 missing True] assms(4) obtain w2 r' where
    w2: "SaveVectorIndexCheckpoint run token 0 0 0 missing (xo_LeaseDuration opts) True w1 = (Inr (), w2)" "leased (xo_LeaseDuration opts) run token r' w2"
      "vx_checkpoint_point_count r' = 0" "content_of w2 = content_of w1" "vw_out w2 = vw_out w1" by auto
  have "start_over opts st index token missing w = (Inr (0, 0), w2)"
    using q w1(1) w2(1) index by (simp add: start_over_def recreateCollection_def bindE_def on_out_def)
  then show thesis using that w1 w2 by (auto simp: indexed_def content_of_def stored_hashes_def)
qed

lemma entries_SomeE:
  assumes "entries es i = Some h"
  obtains p where "p \<in> set es" "me_ChunkID p = i" "me_ContentHash p = h"
  using assms by (auto simp: entries_def dest!: map_of_SomeD)

lemma stored_hashes_restrict: "stored_hashes (m |` A) i = (if i \<in> A then stored_hashes m i else None)"
  by (simp add: stored_hashes_def restrict_map_def)

lemma plan_keeps:
  assumes ids: "distinct (map me_ChunkID manifest)" and actual: "distinct (map me_ChunkID actual)" "entries actual = stored_hashes m"
  defines "del \<equiv> set (orphan_ids manifest actual) \<union> set (mismatched_ids manifest actual)"
  shows "e \<in> set manifest \<Longrightarrow> \<not> absent actual e \<Longrightarrow> stored_hashes (m |` (- del)) (me_ChunkID e) = Some (me_ContentHash e)"
    and "e \<in> set manifest \<Longrightarrow> stored_hashes (m |` (- del)) (me_ChunkID e) = None \<or> stored_hashes (m |` (- del)) (me_ChunkID e) = Some (me_ContentHash e)"
proof -
  assume e: "e \<in> set manifest"
  have me: "entries manifest (me_ChunkID e) = Some (me_ContentHash e)" using entries_distinct [OF ids e] .
  have del: "me_ChunkID e \<in> del \<longleftrightarrow> (\<exists>p\<in>set actual. me_ChunkID p = me_ChunkID e \<and> me_ContentHash p \<noteq> me_ContentHash e)"
  proof
    assume "me_ChunkID e \<in> del"
    then obtain p where "p \<in> set actual" "me_ChunkID p = me_ChunkID e" "case entries manifest (me_ChunkID p) of None \<Rightarrow> True | Some h \<Rightarrow> me_ContentHash p \<noteq> h"
      by (auto simp: del_def orphan_ids_def mismatched_ids_def split: option.splits)
    then show "\<exists>p\<in>set actual. me_ChunkID p = me_ChunkID e \<and> me_ContentHash p \<noteq> me_ContentHash e" using me by auto
  next
    assume "\<exists>p\<in>set actual. me_ChunkID p = me_ChunkID e \<and> me_ContentHash p \<noteq> me_ContentHash e"
    then obtain p where p: "p \<in> set actual" "me_ChunkID p = me_ChunkID e" "me_ContentHash p \<noteq> me_ContentHash e" by auto
    then have "me_ChunkID p \<in> set (mismatched_ids manifest actual)" using me by (auto simp: mismatched_ids_def intro!: image_eqI [of _ _ p])
    then show "me_ChunkID e \<in> del" using p by (simp add: del_def)
  qed
  have kept: "stored_hashes (m |` (- del)) (me_ChunkID e) = (if me_ChunkID e \<in> del then None else entries actual (me_ChunkID e))"
    by (simp add: stored_hashes_restrict actual(2))
  show "\<not> absent actual e \<Longrightarrow> stored_hashes (m |` (- del)) (me_ChunkID e) = Some (me_ContentHash e)"
    using kept del entries_distinct [OF actual(1)] by (auto simp: absent_def) (metis option.inject)
  show "stored_hashes (m |` (- del)) (me_ChunkID e) = None \<or> stored_hashes (m |` (- del)) (me_ChunkID e) = Some (me_ContentHash e)"
    using kept del by (cases "entries actual (me_ChunkID e)") (auto elim: entries_SomeE)
qed

lemma resume_answers:
  assumes s: "services_answer st em V" and l: "leased (xo_LeaseDuration opts) run token r w" and index: "vi_IngestionRunID index = run" "V (vw_out w) (vi_CollectionName index) \<noteq> None"
    "validateVectorCheckpoint (vi_CheckpointChunkID index) (vi_CheckpointPoints index) manifest = None"
    and ids: "distinct (map me_ChunkID manifest)" "\<forall>e\<in>set manifest. 0 < me_ChunkID e"
  obtains k w' r' where "resume_collection opts st index token manifest w = (Inr (position manifest k, int k), w')" "leased (xo_LeaseDuration opts) run token r' w'"
    "vx_checkpoint_point_count r' = int k" "content_of w' = content_of w" "indexed V w' (vi_CollectionName index) manifest k"
proof -
  let ?c = "vi_CollectionName index" and ?checked = "take (nat (vi_CheckpointPoints index)) manifest"
  obtain actual q1 where ls: "ListPointManifest st ?c (vw_out w) = (Inr actual, q1)" using answerD(6) [OF s index(2)] by blast
  obtain m where m: "V q1 ?c = Some m" "distinct (map me_ChunkID actual)" "entries actual = stored_hashes m"
    using storeD(5) [OF answerD(1) [OF s] ls] by auto
  let ?k = "length (takeWhile (\<lambda>e. \<not> absent actual e) ?checked)"
  let ?del = "sort (orphan_ids manifest actual) @ sort (mismatched_ids manifest actual)"
  let ?missing = "map me_ChunkID (filter (absent actual) ?checked)"
  have k: "?k \<le> length manifest" using length_takeWhile_le [of "\<lambda>e. \<not> absent actual e" ?checked] by simp
  have plan: "planVectorResume manifest (vi_CheckpointChunkID index) (vi_CheckpointPoints index) actual =
      Inr \<lparr>rp_CheckpointChunkID = position manifest ?k, rp_CheckpointPoints = int ?k, rp_MissingCheckpointIDs = ?missing,
        rp_OrphanIDs = sort (orphan_ids manifest actual), rp_MismatchedIDs = sort (mismatched_ids manifest actual)\<rparr>"
    using m(2) index(3) first_duplicate_None [of "[]" "map me_ChunkID actual"] by (simp add: planVectorResume_def Let_def position_def)
  obtain w1 where w1: "(if ?del \<noteq> [] then on_out (DeletePoints st ?c ?del) else returnE ()) (w\<lparr>vw_out := q1\<rparr>) = (Inr (), w1)"
    "vw_db w1 = vw_db w" "vw_ticks w1 = vw_ticks w" "V (vw_out w1) ?c = Some (m |` (- set ?del))"
  proof (cases "?del = []")
    case True
    have "m |` (- set ?del) = m" using True by (simp add: restrict_map_def)
    then show thesis using that [of "w\<lparr>vw_out := q1\<rparr>"] True m(1) by simp
  next
    case False
    obtain q2 where d: "DeletePoints st ?c ?del q1 = (Inr (), q2)" using answerD(7) [OF s, of q1 ?c] m(1) by blast
    have "V q2 ?c = Some (m |` (- set ?del))" using storeD(6) [OF answerD(1) [OF s] d] m(1) by auto
    then show thesis using that [of "w\<lparr>vw_out := q2\<rparr>"] False d by (simp add: on_out_def)
  qed
  have pos: "0 \<le> position manifest ?k"
    using position_nonneg [OF k ids(2)] .
  have l1: "leased (xo_LeaseDuration opts) run token r w1" using leased_frame [OF w1(2,3)] l by simp
  from Save_answers [OF l1 pos, of "int ?k" "int (length (orphan_ids manifest actual))" "int (length ?missing + length (mismatched_ids manifest actual))" True]
  obtain w2 r' where w2: "SaveVectorIndexCheckpoint run token (position manifest ?k) (int ?k) (int (length (orphan_ids manifest actual)))
      (int (length ?missing + length (mismatched_ids manifest actual))) (xo_LeaseDuration opts) True w1 = (Inr (), w2)" "leased (xo_LeaseDuration opts) run token r' w2"
      "vx_checkpoint_point_count r' = int ?k" "content_of w2 = content_of w1" "vw_out w2 = vw_out w1" by auto
  have run: "resume_collection opts st index token manifest w = (Inr (position manifest ?k, int ?k), w2)"
    using ls plan w1(1) w2(1) index(1) by (simp add: resume_collection_def bindE_def on_out_def Let_def)
  have first: "e \<in> set manifest \<and> \<not> absent actual e" if "e \<in> set (take ?k manifest)" for e
    using that set_takeWhileD [of e "\<lambda>e. \<not> absent actual e" ?checked] in_set_takeD [of e _ manifest] by (auto simp: take_length_takeWhile)
  have "set ?del = set (orphan_ids manifest actual) \<union> set (mismatched_ids manifest actual)" by simp
  with w1(4) w2(5) have held: "V (vw_out w2) ?c = Some (m |` (- (set (orphan_ids manifest actual) \<union> set (mismatched_ids manifest actual))))" by simp
  have "indexed V w2 ?c manifest ?k"
    unfolding indexed_def using k held first plan_keeps [OF ids(1) m(2,3)] by blast
  then show thesis using that [OF run w2(2,3)] w2(4) w1(2) by (simp add: content_of_def)
qed

lemma prepare_answers:
  assumes s: "services_answer st em V" and l: "leased (xo_LeaseDuration opts) run token r w" and index: "vi_IngestionRunID index = run"
    "validateVectorCheckpoint (vi_CheckpointChunkID index) (vi_CheckpointPoints index) manifest = None"
    and ids: "distinct (map me_ChunkID manifest)" "\<forall>e\<in>set manifest. 0 < me_ChunkID e"
  obtains k w' r' where "prepareCollection opts st index token manifest w = (Inr (position manifest k, int k), w')" "leased (xo_LeaseDuration opts) run token r' w'"
    "vx_checkpoint_point_count r' = int k" "content_of w' = content_of w" "indexed V w' (vi_CollectionName index) manifest k"
proof (cases "vi_CheckpointPoints index = 0")
  case True
  from start_over_answers [OF s l index(1), of 0 manifest] obtain w' r' where "start_over opts st index token 0 w = (Inr (0, 0), w')"
    "leased (xo_LeaseDuration opts) run token r' w'" "vx_checkpoint_point_count r' = 0" "content_of w' = content_of w" "indexed V w' (vi_CollectionName index) manifest 0" by auto
  then show thesis using that [of 0 w' r'] True index by (simp add: prepareCollection_def position_def)
next
  case False
  let ?c = "vi_CollectionName index"
  obtain b q where q: "CollectionExists st ?c (vw_out w) = (Inr b, q)" using answerD(3) [OF s] by blast
  have b: "V q = V (vw_out w)" "b = (V (vw_out w) ?c \<noteq> None)" using storeD(2) [OF answerD(1) [OF s] q] by auto
  let ?w = "w\<lparr>vw_out := q\<rparr>"
  have lw: "leased (xo_LeaseDuration opts) run token r ?w" using leased_frame [of ?w w] l by simp
  have content: "content_of ?w = content_of w" by (simp add: content_of_def)
  have nonneg: "0 \<le> vi_CheckpointPoints index" using index(2) by (auto simp: validateVectorCheckpoint_def split: if_splits)
  show thesis
  proof (cases b)
    case True
    from resume_answers [OF s lw index(1) _ index(2) ids] True b obtain k w' r' where
      "resume_collection opts st index token manifest ?w = (Inr (position manifest k, int k), w')" "leased (xo_LeaseDuration opts) run token r' w'"
      "vx_checkpoint_point_count r' = int k" "content_of w' = content_of ?w" "indexed V w' ?c manifest k" by auto
    then show thesis using that [of k w' r'] True False index q content by (simp add: prepareCollection_def bindE_def on_out_def)
  next
    case no: False
    from start_over_answers [OF s lw index(1) nonneg, of manifest] obtain w' r' where "start_over opts st index token (vi_CheckpointPoints index) ?w = (Inr (0, 0), w')"
      "leased (xo_LeaseDuration opts) run token r' w'" "vx_checkpoint_point_count r' = 0" "content_of w' = content_of ?w" "indexed V w' ?c manifest 0" by auto
    then show thesis using that [of 0 w' r'] no False index q content by (simp add: prepareCollection_def bindE_def on_out_def position_def)
  qed
qed

section \<open>The batches\<close>

text \<open>Chunk ids are the primary key, a sequence from one.\<close>

definition chunk_keys :: "rag_store \<Rightarrow> bool" where
  "chunk_keys t = (distinct (map ec_id (evidence_chunks (evid t))) \<and> (\<forall>c\<in>set (evidence_chunks (evid t)). 0 < ec_id c))"

lemma map_filter_key:
  assumes "\<And>c x. f c = Some x \<Longrightarrow> g x = h c"
  shows "map g (List.map_filter f cs) = map h (filter (\<lambda>c. f c \<noteq> None) cs)"
proof (induction cs)
  case (Cons c cs)
  then show ?case using assms [of c] by (cases "f c") (simp_all add: map_filter_simps)
qed (simp add: map_filter_simps)

lemma joined_chunks_ids:
  assumes "distinct (map ec_id (evidence_chunks e))"
  shows "distinct (map (\<lambda>dc. ec_id (snd dc)) (joined_chunks e P))"
  unfolding joined_chunks_def
  by (subst map_filter_key [where h = ec_id]) (auto simp: distinct_map_filter [OF assms] split: option.splits if_splits)

lemma joined_chunks_subset: "dc \<in> set (joined_chunks e P) \<Longrightarrow> snd dc \<in> set (evidence_chunks e)"
  by (auto simp: joined_chunks_def List.map_filter_def split: option.splits if_splits)

lemma vector_rows_sorted:
  assumes "chunk_keys t"
  shows "sorted_wrt (<) (map (\<lambda>dc. ec_id (snd dc)) (vector_rows t run))" "\<forall>dc\<in>set (vector_rows t run). 0 < ec_id (snd dc)"
proof -
  let ?id = "\<lambda>dc :: document_row \<times> chunk_row. ec_id (snd dc)"
  have rows: "vector_rows t run = sort_key ?id (joined_chunks (evid t) (\<lambda>d c. vector_eligible t run d))"
    by (simp add: vector_rows_def case_prod_unfold)
  have "distinct (map ?id (vector_rows t run))"
    using joined_chunks_ids [of "evid t" "\<lambda>d c. vector_eligible t run d"] assms by (simp add: rows chunk_keys_def distinct_map)
  moreover have "sorted (map ?id (vector_rows t run))" by (simp add: rows)
  ultimately show "sorted_wrt (<) (map ?id (vector_rows t run))" by (simp add: strict_sorted_iff)
  show "\<forall>dc\<in>set (vector_rows t run). 0 < ?id dc" using assms by (auto simp: rows chunk_keys_def dest: joined_chunks_subset)
qed

lemma filter_beyond:
  assumes "sorted_wrt (<) (map f xs)" "k \<le> length xs" "\<forall>x\<in>set xs. (0 :: int) < f x"
  shows "filter (\<lambda>x. (if k = 0 then 0 else f (xs ! (k - 1))) < f x) xs = drop k xs"
proof (cases k)
  case 0
  then show ?thesis using assms(3) by (simp add: filter_id_conv)
next
  case (Suc j)
  let ?b = "f (xs ! j)"
  have sorted: "i < i' \<Longrightarrow> i' < length xs \<Longrightarrow> f (xs ! i) < f (xs ! i')" for i i'
    using assms(1) by (simp add: sorted_wrt_iff_nth_less)
  have j: "j < length xs" using Suc assms(2) by simp
  have "filter (\<lambda>x. ?b < f x) (take k xs) = []"
  proof -
    have "\<not> ?b < f (xs ! i)" if "i < k" for i using sorted [of i j] that j Suc by (cases "i = j") auto
    then show ?thesis by (auto simp: filter_empty_conv in_set_conv_nth)
  qed
  moreover have "filter (\<lambda>x. ?b < f x) (drop k xs) = drop k xs"
    using sorted [of j] Suc by (auto simp: filter_id_conv in_set_conv_nth)
  ultimately have "filter (\<lambda>x. ?b < f x) (take k xs @ drop k xs) = drop k xs" by (simp only: filter_append append_Nil)
  then show ?thesis using Suc by simp
qed

lemma vector_manifest_ids:
  assumes "chunk_keys t"
  shows "distinct (map me_ChunkID (vector_manifest t run))" "\<forall>e\<in>set (vector_manifest t run). 0 < me_ChunkID e"
  using vector_rows_sorted [OF assms, of run] by (simp_all add: vector_manifest_def scan_manifest_def comp_def strict_sorted_iff)

lemma chunks_after_position:
  assumes "chunk_keys t" "k \<le> length (vector_manifest t run)"
  shows "chunks_after t run (position (vector_manifest t run) k) = map (scan_vector_chunk t) (drop k (vector_rows t run))"
proof -
  have k: "k \<le> length (vector_rows t run)" using assms(2) by (simp add: vector_manifest_def)
  have "position (vector_manifest t run) k = (if k = 0 then 0 else ec_id (snd (vector_rows t run ! (k - 1))))"
    using k by (auto simp: position_def vector_manifest_def scan_manifest_def)
  then show ?thesis using filter_beyond [OF vector_rows_sorted(1) [OF assms(1)] k vector_rows_sorted(2) [OF assms(1)]] by (simp add: chunks_after_def)
qed

definition chunk_entry :: "VectorChunk \<Rightarrow> VectorManifestEntry" where
  "chunk_entry c = \<lparr>me_ChunkID = vc_ChunkID c, me_ContentHash = vc_ContentHash c\<rparr>"

lemma chunk_entry_scan: "chunk_entry (scan_vector_chunk t dc) = scan_manifest dc"
  by (simp add: chunk_entry_def scan_vector_chunk_def scan_manifest_def case_prod_unfold)

lemma map_of_point_hash: "map_option point_hash (map_of (rev (map (\<lambda>p. (vp_ID p, p)) ps)) i) = map_of (rev (map (\<lambda>p. (vp_ID p, point_hash p)) ps)) i"
  by (induction ps rule: rev_induct) simp_all

lemma stored_hashes_add: "stored_hashes (m ++ n) = stored_hashes m ++ stored_hashes n"
  by (auto simp: stored_hashes_def map_add_def split: option.split)

lemma upserted_hashes:
  assumes "length vectors = length chunks"
  shows "stored_hashes (m ++ map_of (rev (map (\<lambda>p. (vp_ID p, p)) (map2 (\<lambda>c v. \<lparr>vp_ID = vc_ChunkID c, vp_Vector = v, vp_Payload = vectorPayload c\<rparr>) chunks vectors)))) =
    stored_hashes m ++ entries (map chunk_entry chunks)"
proof -
  let ?points = "map2 (\<lambda>c v. \<lparr>vp_ID = vc_ChunkID c, vp_Vector = v, vp_Payload = vectorPayload c\<rparr>) chunks vectors"
  have hashes: "map (\<lambda>p. (vp_ID p, point_hash p)) ?points = map (\<lambda>e. (me_ChunkID e, me_ContentHash e)) (map chunk_entry chunks)"
    using assms by (induction vectors chunks rule: list_induct2) (simp_all add: chunk_entry_def point_hash_def vectorPayload_def)
  have "map_option point_hash (map_of (rev (map (\<lambda>p. (vp_ID p, p)) ?points)) i) = entries (map chunk_entry chunks) i" for i
    by (simp only: map_of_point_hash hashes entries_def)
  then have "stored_hashes (map_of (rev (map (\<lambda>p. (vp_ID p, p)) ?points))) = entries (map chunk_entry chunks)" by (auto simp: stored_hashes_def)
  then show ?thesis by (simp only: stored_hashes_add)
qed

lemma indexed_upsert:
  assumes ids: "distinct (map me_ChunkID manifest)" and i: "indexed V w c manifest k" "V (vw_out w) c = Some m"
    and es: "es = take j (drop k manifest)" "k + j \<le> length manifest" and m': "V (vw_out w') c = Some m'" "stored_hashes m' = stored_hashes m ++ entries es"
  shows "indexed V w' c manifest (k + j)"
proof -
  have sub: "set es \<subseteq> set manifest" using es(1) by (meson set_drop_subset set_take_subset subset_trans)
  have inj: "e = e'" if "e \<in> set manifest" "e' \<in> set manifest" "me_ChunkID e = me_ChunkID e'" for e e'
    using ids that by (simp add: distinct_map inj_on_def)
  have "distinct (map me_ChunkID es)" using ids unfolding es(1) by (simp add: drop_map take_map flip: drop_map take_map)
  note new = entries_distinct [OF this]
  have same: "entries es (me_ChunkID e) = None \<or> entries es (me_ChunkID e) = Some (me_ContentHash e)" if "e \<in> set manifest" for e
  proof (cases "entries es (me_ChunkID e)")
    case (Some h)
    then obtain p where "p \<in> set es" "me_ChunkID p = me_ChunkID e" "me_ContentHash p = h" by (rule entries_SomeE)
    with inj [of p e] that sub Some show ?thesis by auto
  qed simp
  have old: "\<forall>e\<in>set (take k manifest). stored_hashes m (me_ChunkID e) = Some (me_ContentHash e)"
    "\<forall>e\<in>set manifest. stored_hashes m (me_ChunkID e) = None \<or> stored_hashes m (me_ChunkID e) = Some (me_ContentHash e)"
    using i by (auto simp: indexed_def)
  have "stored_hashes m' (me_ChunkID e) = Some (me_ContentHash e)" if "e \<in> set (take (k + j) manifest)" for e
  proof -
    have "e \<in> set (take k manifest) \<or> e \<in> set es" using that es by (simp add: take_add)
    then show ?thesis using new [of e] old(1) same [of e] in_set_takeD [OF that] by (auto simp: m'(2) map_add_def)
  qed
  moreover have "stored_hashes m' (me_ChunkID e) = None \<or> stored_hashes m' (me_ChunkID e) = Some (me_ContentHash e)" if "e \<in> set manifest" for e
    using same [OF that] old(2) that by (auto simp: m'(2) map_add_def)
  ultimately show ?thesis using es(2) m'(1) by (auto simp: indexed_def)
qed

lemma index_batch_answers:
  assumes s: "services_answer st em V" and l: "leased (xo_LeaseDuration opts) run token r w" and i: "indexed V w c manifest k"
    and ids: "distinct (map me_ChunkID manifest)" "\<forall>e\<in>set manifest. 0 < me_ChunkID e"
    and chunks: "chunks \<noteq> []" "map chunk_entry chunks = take j (drop k manifest)" "j = length chunks" "k + j \<le> length manifest"
  obtains w' r' where "index_batch em st opts run token c (int k) chunks w = (Inr (position manifest (k + j), int (k + j)), w')"
    "leased (xo_LeaseDuration opts) run token r' w'" "vx_checkpoint_point_count r' = int (k + j)" "content_of w' = content_of w" "indexed V w' c manifest (k + j)"
proof -
  obtain vs q1 where q1: "em (map vc_Content chunks) (vw_out w) = (Inr vs, q1)" "length vs = length chunks" "V q1 = V (vw_out w)"
    using answerD(8) [OF s, of "map vc_Content chunks" "vw_out w"] by auto
  let ?points = "map2 (\<lambda>c v. \<lparr>vp_ID = vc_ChunkID c, vp_Vector = v, vp_Payload = vectorPayload c\<rparr>) chunks vs"
  from i obtain m where m: "V (vw_out w) c = Some m" by (auto simp: indexed_def)
  then obtain q2 where q2: "store_Upsert st c ?points q1 = (Inr (), q2)" using answerD(5) [OF s, of q1 c ?points] q1(3) by auto
  let ?w = "w\<lparr>vw_out := q2\<rparr>"
  have lw: "leased (xo_LeaseDuration opts) run token r ?w" using leased_frame [of ?w w] l by simp
  have "V (vw_out ?w) c = Some (m ++ map_of (rev (map (\<lambda>p. (vp_ID p, p)) ?points)))" using storeD(4) [OF answerD(1) [OF s] q2] m q1(3) by auto
  from indexed_upsert [OF ids(1) i m chunks(2,4) this upserted_hashes [OF q1(2)]] have iw: "indexed V ?w c manifest (k + j)" .
  have pos: "vc_ChunkID (last chunks) = position manifest (k + j)"
  proof -
    have "vc_ChunkID (last chunks) = me_ChunkID (last (map chunk_entry chunks))" using chunks(1) by (simp add: last_map chunk_entry_def)
    also have "\<dots> = me_ChunkID (take j (drop k manifest) ! (j - 1))" using chunks by (metis last_conv_nth length_map map_is_Nil_conv)
    finally show ?thesis using chunks by (cases j) (simp_all add: position_def)
  qed
  from Save_answers [OF lw position_nonneg [OF chunks(4) ids(2)], of "int (k + j)" 0 0 False] obtain w2 r' where
    w2: "SaveVectorIndexCheckpoint run token (position manifest (k + j)) (int (k + j)) 0 0 (xo_LeaseDuration opts) False ?w = (Inr (), w2)"
      "leased (xo_LeaseDuration opts) run token r' w2" "vx_checkpoint_point_count r' = int (k + j)" "content_of w2 = content_of ?w" "vw_out w2 = q2" by auto
  have "index_batch em st opts run token c (int k) chunks w = (Inr (position manifest (k + j), int (k + j)), w2)"
    using q1(1,2) q2 w2(1) by (simp add: index_batch_def bindE_def on_out_def guardE_def Let_def pos chunks(3) [symmetric])
  moreover have "indexed V w2 c manifest (k + j)" using iw w2(5) by (simp add: indexed_def)
  ultimately show thesis using that [of w2 r'] w2 by (simp add: content_of_def)
qed

lemma chunk_keys_content: "content_of w' = content_of w \<Longrightarrow> chunk_keys (tables (vw_db w')) = chunk_keys (tables (vw_db w))"
  by (simp add: content_of_def chunk_keys_def)

lemma build_loop_answers:
  assumes s: "services_answer st em V" and opts: "0 < xo_BatchSize opts"
    and w: "leased (xo_LeaseDuration opts) run token r w" "vx_checkpoint_point_count r = int k" "indexed V w c manifest k"
      "chunk_keys (tables (vw_db w))" "manifest = vector_manifest (tables (vw_db w)) run"
  shows "\<exists>w' r'. build_loop em st opts run token c (position manifest k) (int k) w = Some (Inr (position manifest (length manifest), int (length manifest)), w') \<and>
    leased (xo_LeaseDuration opts) run token r' w' \<and> vx_checkpoint_point_count r' = int (length manifest) \<and> content_of w' = content_of w \<and>
    indexed V w' c manifest (length manifest)"
  using w
proof (induction "length manifest - k" arbitrary: k r w rule: less_induct)
  case less
  let ?t = "tables (vw_db w)"
  let ?rows = "vector_rows ?t run"
  let ?chunks = "take (nat (xo_BatchSize opts)) (map (scan_vector_chunk ?t) (drop k ?rows))"
  let ?j = "length ?chunks"
  have len: "length manifest = length ?rows" using less.prems(5) by (simp add: vector_manifest_def)
  have k: "k \<le> length manifest" using less.prems(3) by (simp add: indexed_def)
  have list: "ListVectorChunks run (position manifest k) (xo_BatchSize opts) w = (Inr ?chunks, tick w)"
    using chunks_after_position [OF less.prems(4), of k run] k less.prems(1,5)
    by (simp add: ListVectorChunks_def mapErr_def quiet_reads leased_def)
  have lt: "leased (xo_LeaseDuration opts) run token r (tick w)" using leased_tick [OF less.prems(1)] .
  have it: "indexed V (tick w) c manifest k" using less.prems(3) by (simp add: indexed_def)
  show ?case
  proof (cases "k = length manifest")
    case True
    then have "build_loop em st opts run token c (position manifest k) (int k) w = Some (Inr (position manifest k, int k), tick w)"
      using list len by (subst build_loop.simps) simp
    then show ?thesis using True lt it less.prems(2) by auto
  next
    case False
    have ids: "distinct (map me_ChunkID manifest)" "\<forall>e\<in>set manifest. 0 < me_ChunkID e"
      using vector_manifest_ids [OF less.prems(4)] less.prems(5) by simp_all
    have j: "0 < ?j" "k + ?j \<le> length manifest" using False k len opts by auto
    then have ne: "?chunks \<noteq> []" by (metis length_greater_0_conv)
    have es: "map chunk_entry ?chunks = take ?j (drop k manifest)"
      by (simp add: less.prems(5) vector_manifest_def take_map drop_map chunk_entry_scan comp_def) (metis length_drop take_all_iff min.commute nle_le take_take)
    from index_batch_answers [OF s lt it ids ne es refl j(2)] obtain w2 r2 where
      b: "index_batch em st opts run token c (int k) ?chunks (tick w) = (Inr (position manifest (k + ?j), int (k + ?j)), w2)"
        "leased (xo_LeaseDuration opts) run token r2 w2" "vx_checkpoint_point_count r2 = int (k + ?j)" "content_of w2 = content_of (tick w)"
        "indexed V w2 c manifest (k + ?j)" by blast
    have w2: "content_of w2 = content_of w" using b(4) by simp
    have less_k: "length manifest - (k + ?j) < length manifest - k" using j by linarith
    have "chunk_keys (tables (vw_db w2))" "manifest = vector_manifest (tables (vw_db w2)) run"
      using chunk_keys_content [OF w2] vector_manifest_content [OF w2, of run] less.prems(4,5) by simp_all
    from less.hyps [OF less_k b(2,3,5) this] obtain w' r' where
      rec: "build_loop em st opts run token c (position manifest (k + ?j)) (int (k + ?j)) w2 = Some (Inr (position manifest (length manifest), int (length manifest)), w')"
        "leased (xo_LeaseDuration opts) run token r' w'" "vx_checkpoint_point_count r' = int (length manifest)" "content_of w' = content_of w2"
        "indexed V w' c manifest (length manifest)" by blast
    have "build_loop em st opts run token c (position manifest k) (int k) w = Some (Inr (position manifest (length manifest), int (length manifest)), w')"
      unfolding build_loop.simps [of em st opts run token c "position manifest k"] list using ne b(1) rec(1) by simp
    then show ?thesis using rec w2 by auto
  qed
qed

section \<open>The final audit\<close>

lemma complete_collection:
  assumes ids: "distinct (map me_ChunkID manifest)" and actual: "distinct (map me_ChunkID actual)" "entries actual = stored_hashes m"
    and all: "\<forall>e\<in>set manifest. stored_hashes m (me_ChunkID e) = Some (me_ContentHash e)"
  shows "fst (compareVectorPoints manifest actual) = []" "snd (snd (compareVectorPoints manifest actual)) = []"
    "length actual = length manifest + length (fst (snd (compareVectorPoints manifest actual)))"
proof -
  have there: "entries actual (me_ChunkID e) = Some (me_ContentHash e)" if "e \<in> set manifest" for e using all that actual(2) by simp
  then show "fst (compareVectorPoints manifest actual) = []" by (auto simp: compareVectorPoints_def filter_empty_conv)
  have same: "me_ContentHash p = h" if "p \<in> set actual" "entries manifest (me_ChunkID p) = Some h" for p h
  proof -
    from that(2) obtain e where "e \<in> set manifest" "me_ChunkID e = me_ChunkID p" "me_ContentHash e = h" by (rule entries_SomeE)
    with there [of e] entries_distinct [OF actual(1) that(1)] show ?thesis by simp
  qed
  then have "mismatched_ids manifest actual = []" by (auto simp: mismatched_ids_def filter_empty_conv split: option.splits)
  then show "snd (snd (compareVectorPoints manifest actual)) = []" by (simp add: compareVectorPoints_def)
  let ?known = "filter (\<lambda>p. entries manifest (me_ChunkID p) \<noteq> None) actual"
  have "set ?known = set manifest"
  proof (intro equalityI subsetI)
    fix p assume "p \<in> set ?known"
    then obtain h where "p \<in> set actual" "entries manifest (me_ChunkID p) = Some h" by auto
    with same [OF this] show "p \<in> set manifest" by (intro entries_SomeD) simp
  next
    fix e assume e: "e \<in> set manifest"
    with there [OF e] entries_distinct [OF ids e] show "e \<in> set ?known" by (auto intro: entries_SomeD)
  qed
  moreover have "distinct ?known" "distinct manifest" using actual(1) ids by (auto simp: distinct_map)
  ultimately have "length ?known = length manifest" by (metis distinct_card)
  moreover have "length actual = length ?known + length (filter (\<lambda>p. \<not> entries manifest (me_ChunkID p) \<noteq> None) actual)" by (rule sum_length_filter_compl [symmetric])
  ultimately show "length actual = length manifest + length (fst (snd (compareVectorPoints manifest actual)))"
    by (simp add: compareVectorPoints_def orphan_ids_def)
qed

lemma audit_answers:
  assumes s: "services_answer st em V" and i: "indexed V w (vi_CollectionName index) manifest (length manifest)" and ids: "distinct (map me_ChunkID manifest)"
    and status: "vi_Status index \<noteq> ''completed''"
  obtains audit w' where "auditWithManifest H st index manifest True w = (Inr audit, w')" "va_Exact audit" "va_ExpectedPointCount audit = int (length manifest)"
    "0 \<le> va_OrphanPointCount audit" "0 \<le> va_MissingPointCount audit" "vw_db w' = vw_db w" "vw_ticks w' = vw_ticks w"
proof -
  let ?c = "vi_CollectionName index"
  from i obtain m where m: "V (vw_out w) ?c = Some m" "\<forall>e\<in>set manifest. stored_hashes m (me_ChunkID e) = Some (me_ContentHash e)" by (auto simp: indexed_def)
  obtain b q1 where q1: "CollectionExists st ?c (vw_out w) = (Inr b, q1)" using answerD(3) [OF s] by blast
  have b: "V q1 = V (vw_out w)" b using storeD(2) [OF answerD(1) [OF s] q1] m(1) by auto
  obtain actual q2 where q2: "ListPointManifest st ?c q1 = (Inr actual, q2)" using answerD(6) [OF s, of q1 ?c] b m(1) by auto
  have a: "V q2 = V (vw_out w)" "distinct (map me_ChunkID actual)" "entries actual = stored_hashes m" using storeD(5) [OF answerD(1) [OF s] q2] b m(1) by auto
  note full = complete_collection [OF ids a(2,3) m(2)]
  let ?orphans = "fst (snd (compareVectorPoints manifest actual))"
  let ?audit = "compared_audit (blank_audit H index manifest) manifest actual (int (length ?orphans)) index"
  have exact: "va_Exact ?audit" "va_ExpectedPointCount ?audit = int (length manifest)" "0 \<le> va_OrphanPointCount ?audit" "0 \<le> va_MissingPointCount ?audit"
    using full status by (simp_all add: compared_audit_def blank_audit_def Let_def case_prod_unfold)
  show thesis
  proof (cases "?orphans = []")
    case True
    then have "auditWithManifest H st index manifest True w = (Inr ?audit, w\<lparr>vw_out := q2\<rparr>)"
      using q1 q2 b(2) by (simp add: auditWithManifest_def bindE_def on_out_def Let_def)
    then show thesis using that exact by simp
  next
    case False
    obtain q3 where q3: "DeletePoints st ?c ?orphans q2 = (Inr (), q3)" using answerD(7) [OF s, of q2 ?c] a(1) m(1) by auto
    have "auditWithManifest H st index manifest True w = (Inr ?audit, w\<lparr>vw_out := q3\<rparr>)"
      using q1 q2 q3 b(2) False by (simp add: auditWithManifest_def bindE_def on_out_def Let_def)
    then show thesis using that exact by simp
  qed
qed

lemma finish_answers:
  assumes s: "services_answer st em V" and l: "leased (xo_LeaseDuration opts) (vi_IngestionRunID identity) token r w"
    and i: "indexed V w (vi_CollectionName index) manifest (length manifest)" and ids: "distinct (map me_ChunkID manifest)"
    and status: "vi_Status index \<noteq> ''completed''" and after: "0 \<le> after"
  shows "\<exists>result w'. finish_build H st opts identity index token manifest after (int (length manifest)) w = (Inr result, w')"
proof -
  from audit_answers [OF s i ids status, of H] obtain audit w1 where a: "auditWithManifest H st index manifest True w = (Inr audit, w1)" "va_Exact audit"
    "va_ExpectedPointCount audit = int (length manifest)" "0 \<le> va_OrphanPointCount audit" "0 \<le> va_MissingPointCount audit" "vw_db w1 = vw_db w" "vw_ticks w1 = vw_ticks w" by blast
  have l1: "leased (xo_LeaseDuration opts) (vi_IngestionRunID identity) token r w1" using leased_frame [OF a(6,7)] l by simp
  from Save_answers [OF l1 after of_nat_0_le_iff [of "length manifest"] a(4,5), of True] obtain w2 r' where
    w2: "SaveVectorIndexCheckpoint (vi_IngestionRunID identity) token after (int (length manifest)) (va_OrphanPointCount audit) (va_MissingPointCount audit)
      (xo_LeaseDuration opts) True w1 = (Inr (), w2)" "leased (xo_LeaseDuration opts) (vi_IngestionRunID identity) token r' w2" "vx_checkpoint_point_count r' = int (length manifest)" by blast
  from Complete_answers [OF w2(2,3), of "vectorManifestChecksum H identity manifest"] obtain result w' where
    "CompleteVectorIndex (vi_IngestionRunID identity) token (int (length manifest)) (vectorManifestChecksum H identity manifest) w2 = (Inr result, w')" by blast
  then show ?thesis using a w2(1) by (simp add: finish_build_def bindE_def guardE_def)
qed

lemma leased_build_answers:
  assumes s: "services_answer st em V" and opts: "0 < xo_BatchSize opts" and l: "leased (xo_LeaseDuration opts) (vi_IngestionRunID identity) token r w"
    and keys: "chunk_keys (tables (vw_db w))" and index: "vi_IngestionRunID index = vi_IngestionRunID identity" "vi_CollectionName index = vi_CollectionName identity"
      "vi_Status index \<noteq> ''completed''"
      "validateVectorCheckpoint (vi_CheckpointChunkID index) (vi_CheckpointPoints index) (vector_manifest (tables (vw_db w)) (vi_IngestionRunID identity)) = None"
  shows "\<exists>result w'. leased_build H em st opts identity index token w = Some (Inr result, w')"
proof -
  let ?run = "vi_IngestionRunID identity"
  let ?manifest = "vector_manifest (tables (vw_db w)) ?run"
  have list: "ListVectorManifest ?run w = (Inr ?manifest, tick w)" using l by (simp add: ListVectorManifest_def mapErr_def quiet_reads leased_def)
  note ids = vector_manifest_ids [OF keys, of ?run]
  from prepare_answers [OF s leased_tick [OF l] index(1,4) ids] obtain k w1 r1 where
    p: "prepareCollection opts st index token ?manifest (tick w) = (Inr (position ?manifest k, int k), w1)" "leased (xo_LeaseDuration opts) ?run token r1 w1"
      "vx_checkpoint_point_count r1 = int k" "content_of w1 = content_of (tick w)" "indexed V w1 (vi_CollectionName index) ?manifest k" by blast
  have w1: "content_of w1 = content_of w" using p(4) by simp
  have "chunk_keys (tables (vw_db w1))" "?manifest = vector_manifest (tables (vw_db w1)) ?run"
    using chunk_keys_content [OF w1] vector_manifest_content [OF w1, of ?run] keys by simp_all
  from build_loop_answers [OF s opts p(2,3,5) this] obtain w2 r2 where
    b: "build_loop em st opts ?run token (vi_CollectionName index) (position ?manifest k) (int k) w1 = Some (Inr (position ?manifest (length ?manifest), int (length ?manifest)), w2)"
      "leased (xo_LeaseDuration opts) ?run token r2 w2" "indexed V w2 (vi_CollectionName index) ?manifest (length ?manifest)" by blast
  from finish_answers [OF s b(2,3) ids(1) index(3) position_nonneg [OF order_refl ids(2)], of H] obtain result w' where
    "finish_build H st opts identity index token ?manifest (position ?manifest (length ?manifest)) (int (length ?manifest)) w2 = (Inr result, w')" by blast
  then show ?thesis using list p(1) b(1) index(2) by (simp add: leased_build_def bindE_def)
qed

section \<open>Taking the lease\<close>

text \<open>A row an earlier attempt left behind: free again, of the same model, with a checkpoint in the manifest.\<close>

definition resumable :: "(string \<Rightarrow> string) \<Rightarrow> VectorIndexOptions \<Rightarrow> string \<Rightarrow> 'q vworld \<Rightarrow> vector_index_row \<Rightarrow> bool" where
  "resumable H opts run w r =
     (acquirable (build_identity H opts run) (db_now (vw_db w)) r \<and>
      validateVectorCheckpoint (vx_checkpoint_chunk_id r) (vx_checkpoint_point_count r) (vector_manifest (tables (vw_db w)) run) = None \<and>
      0 \<le> vx_orphan_point_count r \<and> 0 \<le> vx_missing_point_count r)"

definition build_ready :: "(string \<Rightarrow> string) \<Rightarrow> VectorIndexOptions \<Rightarrow> string \<Rightarrow> 'q vworld \<Rightarrow> bool" where
  "build_ready H opts run w =
     (quiet w \<and> keyed_rows (index_rows w) \<and> chunk_keys (tables (vw_db w)) \<and> 0 < xo_BatchSize opts \<and> 0 < xo_VectorDimension opts \<and>
      pending w < lease_seconds (xo_LeaseDuration opts) * nanos_per_second \<and>
      exists_row (\<lambda>r. ir_run_id r = run \<and> ir_status r = ''completed'') (ingestion_runs (evid (tables (vw_db w)))) \<and>
      (\<forall>r\<in>set (index_rows w). of_run run r \<longrightarrow> resumable H opts run w r) \<and>
      (\<forall>r\<in>set (index_rows w). vx_collection_name r = vectorCollectionName H run \<longrightarrow> of_run run r))"

lemma acquirable_later: "acquirable index now r \<Longrightarrow> now \<le> now' \<Longrightarrow> acquirable index now' r"
  by (auto simp: acquirable_def split: option.splits)

lemma tick_later: "db_now (vw_db w) \<le> db_now (vw_db (tick w))"
  by (auto simp: tick_def split: list.split)

lemma resumable_later:
  "tables (vw_db w') = tables (vw_db w) \<Longrightarrow> db_now (vw_db w) \<le> db_now (vw_db w') \<Longrightarrow> resumable H opts run w r \<Longrightarrow> resumable H opts run w' r"
  by (auto simp: resumable_def elim: acquirable_later)

lemma build_ready_tick: "build_ready H opts run w \<Longrightarrow> build_ready H opts run (tick w)"
  using tick_time(2) [of w] resumable_later [OF _ tick_later [of w], of H opts run] by (auto simp: build_ready_def)

lemma insert_answers:
  assumes ready: "build_ready H opts run w"
  obtains w' r where "on_repo (execE (insert_control_row (build_identity H opts run))) w = (Inr (), w')" "r \<in> set (index_rows w')" "resumable H opts run w' r"
    "quiet w'" "keyed_rows (index_rows w')" "content_of w' = content_of w" "pending w' < lease_seconds (xo_LeaseDuration opts) * nanos_per_second"
proof -
  let ?identity = "build_identity H opts run" and ?t = "tables (vw_db w)"
  let ?row = "control_row ?identity (db_now (vw_db (tick w)))"
  let ?w = "(tick w)\<lparr>vw_db := (vw_db (tick w))\<lparr>tables := ?t\<lparr>retrieval_vector_indexes := index_rows w @ [?row]\<rparr>\<rparr>\<rparr>"
  note tw = build_ready_tick [OF ready, unfolded build_ready_def]
  have identity: "vi_IngestionRunID ?identity = run" "vi_IndexVersion ?identity = VectorIndexVersion" "vi_VectorDimension ?identity = xo_VectorDimension opts"
    "vi_CollectionName ?identity = vectorCollectionName H run" by (simp_all add: build_identity_def)
  show thesis
  proof (cases "\<exists>r\<in>set (index_rows w). of_run run r")
    case True
    then have "insert_control_row ?identity now ?t = Inr ((), ?t)" for now
      by (auto simp: insert_control_row_def identity of_run_def exists_row_def list_ex_iff)
    then have "on_repo (execE (insert_control_row ?identity)) w = (Inr (), tick w)" using ready by (simp add: quiet_exec build_ready_def)
    moreover from True obtain r where "r \<in> set (index_rows w)" "of_run run r" by auto
    ultimately show thesis using that [of "tick w" r] tw by simp
  next
    case False
    then have new: "insert_control_row ?identity now ?t = Inr ((), ?t\<lparr>retrieval_vector_indexes := index_rows w @ [control_row ?identity now]\<rparr>)" for now
      using ready by (auto simp: insert_control_row_def identity build_ready_def of_run_def exists_row_def list_ex_iff)
    then have ins: "on_repo (execE (insert_control_row ?identity)) w = (Inr (), ?w)" using ready by (simp add: quiet_exec build_ready_def)
    have "keyed_rows (index_rows ?w)" using insert_control_row_keyed [OF new] ready by (simp add: build_ready_def)
    moreover have "resumable H opts run ?w ?row"
      by (simp add: resumable_def acquirable_def control_row_def same_identity_def build_identity_def validateVectorCheckpoint_def)
    moreover have "pending ?w = pending (tick w)" "content_of ?w = content_of w" "quiet ?w = quiet w" by (simp_all add: pending_def content_of_def quiet_def)
    ultimately show thesis using that [OF ins, of ?row] tw by simp
  qed
qed

lemma acquire_answers:
  assumes r: "r \<in> set (index_rows w)" "resumable H opts run w r" and w: "quiet w" "keyed_rows (index_rows w)"
    "pending w < lease_seconds (xo_LeaseDuration opts) * nanos_per_second"
  obtains now w' where "update_index (acquirable (build_identity H opts run)) (acquired_row owner token (xo_LeaseDuration opts)) w =
      (Inr (scanVectorIndex (acquired_row owner token (xo_LeaseDuration opts) now r)), w')"
    "leased (xo_LeaseDuration opts) run token (acquired_row owner token (xo_LeaseDuration opts) now r) w'" "content_of w' = content_of w"
proof -
  let ?identity = "build_identity H opts run" and ?now = "db_now (vw_db (tick w))" and ?d = "xo_LeaseDuration opts"
  let ?P = "acquirable ?identity ?now" and ?f = "acquired_row owner token ?d ?now"
  let ?w = "(tick w)\<lparr>vw_db := (vw_db (tick w))\<lparr>tables := (tables (vw_db w))\<lparr>retrieval_vector_indexes := update_where ?P ?f (index_rows w)\<rparr>\<rparr>\<rparr>"
  have ok: "?P r" using r(2) tick_later [of w] by (auto simp: resumable_def elim: acquirable_later)
  have run: "of_run run x" if "?P x" for x using that by (simp add: acquirable_def build_identity_def of_run_def)
  have "find ?P (index_rows w) \<noteq> None" using ok r(1) by (auto simp: find_None_iff)
  then obtain x where x: "find ?P (index_rows w) = Some x" by auto
  then have "x = r" using keyed_row_unique [OF w(2) _ r(1) run run [OF ok]] by (auto simp: find_Some_iff)
  with x have "update_index (acquirable ?identity) (acquired_row owner token ?d) w = (Inr (scanVectorIndex (?f r)), ?w)"
    using w(1) by (simp add: update_index_def quiet_exec)
  moreover have "leased ?d run token (?f r) ?w"
  proof -
    have "keyed_rows (update_where ?P ?f (index_rows w)) = keyed_rows (index_rows w)" by (rule keyed_identity) (simp add: map_update_where row_identity_updates)
    moreover have "?f r \<in> set (update_where ?P ?f (index_rows w))" using ok r(1) by (auto simp: update_where_def)
    moreover have "pending ?w = pending (tick w)" by (simp add: pending_def)
    ultimately show ?thesis using w r(2) run [OF ok] tick_time(2) [of w]
      by (simp add: leased_def quiet_def lease_held_def acquired_row_def of_run_def lease_end_def resumable_def)
  qed
  ultimately show thesis using that [of ?now ?w] by (simp add: content_of_def)
qed

lemma existing_index_answers:
  assumes "build_ready H (xi_options i) run w"
  shows "existing_index H i run w = (Inr None, tick w)"
proof (cases "find (of_run run) (index_rows w)")
  case None
  then show ?thesis using assms
    by (simp add: existing_index_def LoadVectorIndex_def bindE_def catchE_def mapErr_def quiet_reads build_ready_def ErrIndexNotReady_def)
next
  case (Some r)
  then have "resumable H (xi_options i) run w r" using assms by (auto simp: build_ready_def find_Some_iff)
  then have "vx_status r \<noteq> ''completed''" by (simp add: resumable_def acquirable_def)
  then show ?thesis using Some assms
    by (simp add: existing_index_def LoadVectorIndex_def bindE_def catchE_def mapErr_def quiet_reads build_ready_def scanVectorIndex_def)
qed

lemma Build_answers:
  assumes s: "services_answer st em V" and i: "xi_embedder i = Some em" "xi_store i = Some st" and input: "TrimSpace input \<noteq> []"
    and random: "vw_random w 0 = Inr bytes" and ready: "build_ready H (xi_options i) (TrimSpace input) w"
  shows "\<exists>index w'. Build H i input w = Some (Inr index, w')"
proof -
  let ?run = "TrimSpace input" and ?opts = "xi_options i"
  let ?identity = "build_identity H ?opts ?run" and ?token = "EncodeToString bytes"
  let ?w1 = "(tick w)\<lparr>vw_random := \<lambda>n. vw_random w (Suc n)\<rparr>"
  have conf: "0 < xo_BatchSize ?opts" "0 < xo_VectorDimension ?opts" "chunk_keys (tables (vw_db w))" using ready by (auto simp: build_ready_def)
  have token: "newVectorLeaseToken (tick w) = (Inr ?token, ?w1)" using random by (simp add: newVectorLeaseToken_def Let_def)
  have "build_ready H ?opts ?run ?w1" using build_ready_tick [OF ready] by (simp add: build_ready_def quiet_def pending_def resumable_def)
  from insert_answers [OF this] obtain w2 r where w2: "on_repo (execE (insert_control_row ?identity)) ?w1 = (Inr (), w2)" "r \<in> set (index_rows w2)"
    "resumable H ?opts ?run w2 r" "quiet w2" "keyed_rows (index_rows w2)" "content_of w2 = content_of ?w1"
    "pending w2 < lease_seconds (xo_LeaseDuration ?opts) * nanos_per_second" by blast
  let ?row = "\<lambda>now. acquired_row (xo_LeaseOwner ?opts) ?token (xo_LeaseDuration ?opts) now r"
  from acquire_answers [OF w2(2,3,4,5,7), of "xo_LeaseOwner ?opts" ?token] obtain now w3 where
    w3: "update_index (acquirable ?identity) (acquired_row (xo_LeaseOwner ?opts) ?token (xo_LeaseDuration ?opts)) w2 = (Inr (scanVectorIndex (?row now)), w3)"
      "leased (xo_LeaseDuration ?opts) ?run ?token (?row now) w3" "content_of w3 = content_of w2" by blast
  have content: "content_of w3 = content_of w" using w3(3) w2(6) by (simp add: content_of_def)
  have index: "vi_IngestionRunID (scanVectorIndex (?row now)) = ?run" "vi_CollectionName (scanVectorIndex (?row now)) = vi_CollectionName ?identity"
    "vi_Status (scanVectorIndex (?row now)) \<noteq> ''completed''"
    "validateVectorCheckpoint (vi_CheckpointChunkID (scanVectorIndex (?row now))) (vi_CheckpointPoints (scanVectorIndex (?row now))) (vector_manifest (tables (vw_db w3)) ?run) = None"
    using w2(3) vector_manifest_content [OF w3(3), of ?run]
    by (simp_all add: resumable_def acquirable_def same_identity_def scanVectorIndex_def acquired_row_def build_identity_def)
  have acquire: "acquire_build H ?opts ?run (tick w) = (Inr (?token, scanVectorIndex (?row now)), w3)"
    using token w2(1) w3(1) by (simp add: acquire_build_def AcquireVectorIndex_def bindE_def mapErr_def catchE_def)
  have "vi_IngestionRunID ?identity = ?run" by (simp add: build_identity_def)
  with leased_build_answers [OF s conf(1), of ?identity ?token "?row now" w3 "scanVectorIndex (?row now)" H] w3(2) conf(3) chunk_keys_content [OF content] index
  obtain result w' where "leased_build H em st ?opts ?identity (scanVectorIndex (?row now)) ?token w3 = Some (Inr result, w')" by auto
  then have "Build H i input w = Some (Inr result, w')"
    using i input conf existing_index_answers [OF ready] acquire index(3)
    by (subst Build.simps) (simp add: Let_def mark_on_error_def)
  then show ?thesis by blast
qed

text \<open>
  C11. An index that \<open>Build\<close> returns is exact: its stored row is completed, its collection holds a point for every chunk of the run that search may return and no other point, each
  under the hash of the content of its chunk, and the count and the checksum of the row are those of these chunks. This holds whatever earlier builds left
  behind, whatever fails on the way and however much time passes.
\<close>

theorem build_exact:
  assumes "store_documented st V" "xi_store i = Some st" "keyed_rows (index_rows w)" "Build H i input w = Some (Inr index, w')"
  shows "exact_index H V w' (TrimSpace input) index"
  using assms by (rule Build_is_exact)


lemma sample_services: "services_answer sample_vectors sample_embed sample_view"
  using sample_vectors_documented by (auto simp: services_answer_def sample_vectors_def sample_embed_def sample_view_def)

lemma trim_run: "TrimSpace ''run'' = ''run''"
  by (simp add: TrimSpace_def trim_left.simps trim_right.simps DecodeRune_def DecodeLastRune_def IsSpace_def first_info_def
      rune_value_def byte_def Let_def)

lemma sample_ready: "build_ready (\<lambda>s. s) sample_index_options ''run'' (sample_build_world [sample_control])"
proof -
  let ?w = "sample_build_world [sample_control]"
  have "resumable (\<lambda>s. s) sample_index_options ''run'' ?w sample_control"
    by (simp add: resumable_def sample_build_world_def sample_manifest validateVectorCheckpoint_def sample_control_def control_row_def acquirable_def
        same_identity_def build_identity_def)
  moreover have "chunk_keys (tables (vw_db ?w))" by (simp add: chunk_keys_def sample_build_world_def sample_search_store_def sample_chunk_def)
  moreover have "of_run ''run'' sample_control" by (simp add: of_run_def sample_control_def control_row_def build_identity_def)
  moreover have "exists_row (\<lambda>r. ir_run_id r = ''run'' \<and> ir_status r = ''completed'') (ingestion_runs (evid (tables (vw_db ?w))))"
    by (simp add: sample_build_world_def sample_search_store_def exists_row_def)
  ultimately show ?thesis
    by (simp add: build_ready_def quiet_def keyed_rows_def pending_def lease_seconds_def nanos_per_second_def sample_index_options_def Let_def)
      (simp add: sample_build_world_def)
qed

theorem build_exact_witness:
  "\<exists>index w'. Build (\<lambda>s. s) sample_indexer ''run'' (sample_build_world [sample_control]) = Some (Inr index, w') \<and>
    exact_index (\<lambda>s. s) sample_view w' ''run'' index"
proof -
  let ?w = "sample_build_world [sample_control]"
  obtain index w' where b: "Build (\<lambda>s. s) sample_indexer ''run'' ?w = Some (Inr index, w')"
    using Build_answers [OF sample_services, of sample_indexer "''run''" ?w "''token''" "\<lambda>s. s"] sample_ready
    by (auto simp: sample_indexer_def trim_run sample_build_world_def)
  have "exact_index (\<lambda>s. s) sample_view w' (TrimSpace ''run'') index"
    by (rule build_exact [OF sample_vectors_documented _ _ b]) (simp_all add: sample_indexer_def sample_build_world_def keyed_rows_def)
  with b show ?thesis by (auto simp: trim_run)
qed

lemma sample_ready_new: "build_ready (\<lambda>s. s) sample_index_options ''run'' (sample_build_world [])"
  using sample_ready by (simp add: build_ready_def sample_build_world_def quiet_def pending_def chunk_keys_def keyed_rows_def)


end
