(* ===== verification/Spec2Isabelle.thy ===== *)
theory Spec2Isabelle
  imports Agent_Props Evidence_Props Evidence_Search Ranking_Props Reconcile_Props Search_Props Vector_Success
begin

text \<open>
  Verification of the community backend (\<open>src/backend-go\<close>).

  \<^bold>\<open>The program.\<close> Users write notes and comments and react to them through an HTTP API
  (\<open>internal/note\<close>, \<open>internal/auth\<close>). Every write of the API is one PostgreSQL transaction that stores the
  facts and an outbox event (\<open>internal/outbox\<close>). A publisher moves the events to NATS JetStream
  (\<open>internal/worker/outbox_publisher.go\<close>, \<open>internal/platform/messaging\<close>), a consumer applies each of them once
  (\<open>internal/worker\<close>): it records a behaviour fact and rebuilds the counters the API shows. An ingestion
  job cuts frozen content into citable chunks (\<open>internal/evidence\<close>), searches answer with chunks and their citations
  (\<open>internal/retrieval\<close>), and users ask an insight agent questions about frozen datasets: each question is a run with a
  frozen retrieval contract (\<open>internal/agent\<close>).

  \<^bold>\<open>How the code is modelled.\<close> Go strings are byte strings (\<open>string\<close>), \<open>int64\<close> values that the
  database bounds are \<open>int\<close>, structs are records, errors are values of \<open>go_error\<close>. The database is a record of
  row lists (\<open>Schema\<close>); a statement is a state transformer that may be refused by a constraint or fail by an
  injected fault, and \<open>transactional\<close> commits all of a transaction or nothing (\<open>Prelude\<close>, \<open>Db_Logic\<close>). Redis, NATS,
  SHA-256, the Unicode tables, JSON codecs of the cached values and the clock are parameters.
\<close>

text \<open>
  \<^bold>\<open>Theories and sources.\<close>

  \<^item> \<open>Prelude\<close>, \<open>Db_Logic\<close>, \<open>Db_Relation\<close>: the error monad over a state, the faults of the database, the proof rules, the
    locale \<open>db_invariant\<close> of predicates every statement keeps and the locale \<open>db_preorder\<close> of relations every call keeps.
  \<^item> \<open>Utf8\<close>, \<open>Go_Strings\<close>, \<open>Json\<close>, \<open>Base64\<close>: what the sources use of Go's packages \<open>utf8\<close>, \<open>strings\<close>,
    \<open>strconv\<close>, \<open>encoding/json\<close> and \<open>encoding/base64\<close>.
  \<^item> \<open>Chunker\<close>, \<open>Evidence\<close>, \<open>Evidence_Props\<close>: \<open>evidence/chunker.go\<close>, \<open>canonical.go\<close>, \<open>tokenizer.go\<close>,
    \<open>builder.go\<close>. The chunker ends, covers the text, splits no character and can be undone; every citation of a
    document quotes its source byte by byte and every source is quoted completely.
  \<^item> \<open>Schema\<close>: the tables of the migrations with the two content version triggers.
  \<^item> \<open>Outbox\<close>: \<open>outbox/repository.go\<close>.
  \<^item> \<open>Note_Repo\<close>, \<open>Note_Props\<close>: \<open>note/repository.go\<close>, one definition per method.
  \<^item> \<open>Note_Service\<close>, \<open>Service_Props\<close>, \<open>Paging_Props\<close>: \<open>note/service.go\<close> and \<open>note/cursor.go\<close>. Only owners and
    privileged users change content, lists show only what the viewer may read, and following the cursors lists every
    note once.
  \<^item> \<open>Auth\<close>, \<open>Account_Calls\<close>, \<open>Account_Frame\<close>, \<open>Auth_Props\<close>: \<open>auth/service.go\<close>, \<open>repository.go\<close>, \<open>token.go\<close>. A refresh token is
    exchanged at most once, its reuse revokes every session of the user, a logout is final, a registered user can log in,
    and the rights of a bearer come from the database. Account calls keep the counters of the community tables.
  \<^item> \<open>Retrieval_Scope\<close>, \<open>Agent\<close>, \<open>Agent_Props\<close>: \<open>ResolveScope\<close> and \<open>ResolveAccess\<close> of \<open>retrieval/repository.go\<close>, and
    \<open>agent/service.go\<close>, \<open>repository.go\<close> with the triggers on \<open>agent_runs\<close>. A run is created only for an authorised user
    with a ready index and at most once per idempotency key, keeps its lineage, and moves only forward.
  \<^item> \<open>Evidence_Store\<close>: the evidence tables of the migrations 12 to 17 that ingestion and search share.
  \<^item> \<open>Query_Plan\<close>, \<open>Stable_Sort\<close>, \<open>Rerank\<close>, \<open>Search\<close>, \<open>Query_Props\<close>, \<open>Search_Props\<close>: \<open>retrieval/query.go\<close>,
    \<open>service.go\<close>, \<open>vector_retriever.go\<close> and the queries of \<open>repository.go\<close> that \<open>Search\<close> calls. Floating-point operations
    (\<open>float_ops\<close>), the full-text functions of PostgreSQL (\<open>search_deps\<close>), the embedding service and the vector store
    (\<open>vector_deps\<close>) are parameters. A search answers as if the documents hidden from its caller were not stored, every result
    may be read by the caller, the selection respects its limits, and no request panics.
  \<^item> \<open>Ingest\<close>, \<open>Ingest_Save\<close>, \<open>Ingest_Service\<close>: \<open>evidence/repository.go\<close> and \<open>evidence/service.go\<close>: \<open>BeginRun\<close> and the
    snapshot of the facts, \<open>LinkReusableDocuments\<close>, \<open>SaveDocument\<close>, \<open>CompleteRun\<close>, \<open>ReconcileLifecycle\<close>, \<open>Audit\<close> and \<open>Ingest\<close>, with the
    checks and triggers of the tables. The hash, the Unicode classes, the decoding of timestamps and the collation are
    fields of \<open>ingest_lib\<close>; \<open>ingest_env\<close> holds the schedule of the goroutines, how many transactions are under way when
    one of them fails, and the order in which the audit visits its map of queries. Any schedule is covered because every
    theorem holds for all environments.
  \<^item> \<open>Ingest_Sound\<close>, \<open>Ingest_Props\<close>, \<open>Ingest_History\<close>, \<open>Ingest_Outcome\<close>, \<open>Ingest_Audit\<close>, \<open>Ingest_Sample\<close>: an ingestion keeps the
    evidence store sound, takes nothing back that is stored, links every document it built, and returns a run only when
    the audit finds it consistent; the reconciliation retires exactly the documents whose sources were withdrawn or
    replaced. Soundness needs a hash without collisions; the others need nothing of it. \<open>Ingest_Sample\<close> holds the store, the injective
    hash and the run that the witnesses use.
  \<^item> \<open>Evidence_Search\<close>: both sides together. What search returns from a sound store can be checked against the
    returned hashes.
  \<^item> \<open>Vector_Repo\<close>, \<open>Vector_Index\<close>: \<open>retrieval/vector_repository.go\<close>, \<open>vector_index.go\<close> and the migrations 20 and 21, the job that
    builds the vector index of a run. The Go interfaces of the vector store and of the embedder are records and functions over an
    arbitrary outside state; \<open>vw_ticks\<close> is the time that passes before each statement, and the lease tokens come from a stream of random answers.
    \<open>Vector_Props\<close>: every build returns (\<open>build_loop\<close> and \<open>Build\<close> are partial functions, so this is proved of them). \<open>Vector_Exact\<close>:
    an index that is returned is exact, given a store whose calls do what their documentation says whenever they succeed
    (\<open>store_documented\<close>). \<open>Vector_Lease\<close>: a lease keeps all other builders away, and the plan to resume keeps what is intact.
    \<open>Vector_Success\<close>: a build that is answered and stays within its lease succeeds from whatever an earlier attempt left behind.
    The locale \<open>call_preorder\<close> carries what a sequence of calls keeps and is interpreted for each of these relations;
    \<open>Vector_Sample\<close> holds a store in memory and an interrupted build for the witnesses.
  \<^item> \<open>Worker_Apply\<close>: \<open>worker/repository.go\<close>, \<open>worker/event_processor.go\<close>.
  \<^item> \<open>Publisher\<close>, \<open>Event_Consumer\<close>: \<open>worker/outbox_publisher.go\<close>, \<open>worker/event_consumer.go\<close> and the message handling of
    \<open>platform/messaging/jetstream.go\<close>.
  \<^item> \<open>Reconcile\<close>, \<open>Reconcile_Frame\<close>, \<open>Reconcile_Props\<close>, \<open>Ranking_Props\<close>: \<open>reconcile/repository.go\<close> and \<open>reconciler.go\<close>. The
    full audit leaves no counter wrong, a bounded number of scheduled repairs reaches every row, and a run replaces the
    rankings in Redis by those of the database.
  \<^item> \<open>Derived\<close>, \<open>System\<close>, \<open>System_Props\<close>, \<open>Delivery_Props\<close>, \<open>Consumer_Props\<close>, \<open>Publisher_Props\<close>: the transition
    system of API calls, publishing, delivery, ranking, account calls and repairs in any order, with the invariants of its reachable states.
\<close>

text \<open>
  \<^bold>\<open>Bounds.\<close> Loops are recursive over their data, end by a measure or are proved to return, so no result of a service call depends on fuel. The walks
  over cursors and the repairs take a number of rounds; the theorems on them give the number that is enough.

  \<^bold>\<open>Not modelled.\<close> The framework side of the HTTP API (routing, compression, middleware of gin), metrics, logs and traces, and
  connections are calls of libraries. The HTTP clients of the vector store and of the embedding server, the job that
  builds the lexical index, the bulk SQL that freezes datasets and aggregates daily facts, and the
  Lua script of the rate limiter run mostly inside other systems; search takes what they provide as a parameter. The simulator, the content generator and the
  tools that build and score retrieval benchmarks are offline programs. Of an ingestion, the progress
  reports and the list of violations in the text of the audit error are left out.
\<close>

end
